(* ===== verification/Prelude.thy ===== *)
theory Prelude
  imports Main
begin

text \<open>
  Shared ground of the development: the parts of the Python language and its string type that
  every component uses, results with exceptions, rows of a table found by key, and the generic
  list lemmas.

  A Python \<open>str\<close> is a \<^typ>\<open>string\<close>; its characters are the code points U+0000 to U+00FF, on
  which \<open>strip\<close> and \<open>lower\<close> are modelled exactly (whitespace includes U+0085 and U+00A0, the
  accented capitals have lower-case forms). Python integers are \<^typ>\<open>int\<close>. A time is an
  \<^typ>\<open>int\<close> number of microseconds, the resolution of \<open>datetime\<close>.
\<close>

section \<open>Collections of facts\<close>

named_theorems py_defs \<open>definitions of the Python primitives, for evaluation\<close>
named_theorems frame \<open>what an operation leaves unchanged\<close>

section \<open>Optional text and numbers\<close>

definition opt_str :: "string option \<Rightarrow> string" where
  "opt_str v = (case v of None \<Rightarrow> [] | Some s \<Rightarrow> s)"
  \<comment> \<open>\<open>v or ''\<close> for an optional string\<close>

definition str_opt :: "string \<Rightarrow> string option" where
  "str_opt s = (if s = [] then None else Some s)"
  \<comment> \<open>\<open>s or None\<close>\<close>

definition or_text :: "string \<Rightarrow> string \<Rightarrow> string" where
  "or_text a b = (if a = [] then b else a)"
  \<comment> \<open>\<open>a or b\<close>\<close>

definition int_or :: "int \<Rightarrow> int \<Rightarrow> int" where
  "int_or x d = (if x = 0 then d else x)"
  \<comment> \<open>\<open>int(x or d)\<close>: zero is falsy\<close>

definition opt_int_or :: "int option \<Rightarrow> int \<Rightarrow> int" where
  "opt_int_or v d = (case v of None \<Rightarrow> d | Some x \<Rightarrow> int_or x d)"

lemmas py_or_defs [py_defs] = opt_str_def str_opt_def or_text_def int_or_def opt_int_or_def

lemma opt_str_str_opt [simp]: "opt_str (str_opt s) = s"
  by (simp add: opt_str_def str_opt_def)

section \<open>Characters and strings\<close>

abbreviation cp :: "char \<Rightarrow> int" where
  "cp c \<equiv> of_char c"

lemma cp_bounds: "0 \<le> cp c" "cp c < 256"
  using of_char_mod_256 [of c, where 'a = int] by (metis pos_mod_bound pos_mod_sign zero_less_numeral)+

definition is_space :: "char \<Rightarrow> bool" where
  "is_space c \<longleftrightarrow> (9 \<le> cp c \<and> cp c \<le> 13) \<or> (28 \<le> cp c \<and> cp c \<le> 32) \<or> cp c = 133 \<or> cp c = 160"

definition is_digit :: "char \<Rightarrow> bool" where
  "is_digit c \<longleftrightarrow> 48 \<le> cp c \<and> cp c \<le> 57"

definition is_ascii :: "string \<Rightarrow> bool" where
  "is_ascii s \<longleftrightarrow> list_all (\<lambda>c. cp c < 128) s"

definition lower_char :: "char \<Rightarrow> char" where
  "lower_char c =
     (if (65 \<le> cp c \<and> cp c \<le> 90) \<or> (192 \<le> cp c \<and> cp c \<le> 222 \<and> cp c \<noteq> 215)
      then char_of (cp c + 32) else c)"

definition lower :: "string \<Rightarrow> string" where
  "lower s = map lower_char s"

definition lstrip :: "string \<Rightarrow> string" where
  "lstrip s = dropWhile is_space s"

definition rstrip :: "string \<Rightarrow> string" where
  "rstrip s = rev (dropWhile is_space (rev s))"

definition strip :: "string \<Rightarrow> string" where
  "strip s = rstrip (lstrip s)"

definition rstrip_char :: "char \<Rightarrow> string \<Rightarrow> string" where
  "rstrip_char x s = rev (dropWhile (\<lambda>c. c = x) (rev s))"
  \<comment> \<open>\<open>s.rstrip(x)\<close>\<close>

fun starts_with :: "string \<Rightarrow> string \<Rightarrow> bool" where
  "starts_with [] s = True"
| "starts_with (p # ps) [] = False"
| "starts_with (p # ps) (c # s) = (p = c \<and> starts_with ps s)"
  \<comment> \<open>\<open>s.startswith(p)\<close>, the prefix first\<close>

definition ends_with :: "string \<Rightarrow> string \<Rightarrow> bool" where
  "ends_with p s = starts_with (rev p) (rev s)"

fun contains_sub :: "string \<Rightarrow> string \<Rightarrow> bool" where
  "contains_sub p [] = (p = [])"
| "contains_sub p (c # s) = (starts_with p (c # s) \<or> contains_sub p s)"
  \<comment> \<open>\<open>p in s\<close>\<close>

fun split_on :: "char \<Rightarrow> string \<Rightarrow> string list" where
  "split_on x [] = [[]]"
| "split_on x (c # s) =
     (if c = x then [] # split_on x s
      else (case split_on x s of [] \<Rightarrow> [[c]] | w # ws \<Rightarrow> (c # w) # ws))"
  \<comment> \<open>\<open>s.split(x)\<close> for a one-character separator\<close>

fun join_with :: "string \<Rightarrow> string list \<Rightarrow> string" where
  "join_with sep [] = []"
| "join_with sep [w] = w"
| "join_with sep (w # v # ws) = w @ sep @ join_with sep (v # ws)"

definition replace_char :: "char \<Rightarrow> string \<Rightarrow> string \<Rightarrow> string" where
  "replace_char x r s = concat (map (\<lambda>c. if c = x then r else [c]) s)"
  \<comment> \<open>\<open>s.replace(x, r)\<close> for a one-character \<open>x\<close>\<close>

lemmas py_string_defs [py_defs] =
  is_space_def is_digit_def is_ascii_def lower_char_def lower_def lstrip_def rstrip_def
  strip_def rstrip_char_def ends_with_def replace_char_def

lemma starts_with_iff: "starts_with p s \<longleftrightarrow> (\<exists>t. s = p @ t)"
  by (induction p s rule: starts_with.induct) auto

lemma starts_with_append [simp]: "starts_with p (p @ t)"
  by (simp add: starts_with_iff)

lemma starts_with_refl [simp]: "starts_with p p"
  by (simp add: starts_with_iff)

lemma ends_with_iff: "ends_with p s \<longleftrightarrow> (\<exists>t. s = t @ p)"
  unfolding ends_with_def starts_with_iff
  by (metis rev_append rev_rev_ident)

lemma contains_sub_iff: "contains_sub p s \<longleftrightarrow> (\<exists>a b. s = a @ p @ b)"
proof (induction s)
  case Nil
  then show ?case by auto
next
  case (Cons c s)
  have "(\<exists>a b. c # s = a @ p @ b) \<longleftrightarrow> (\<exists>b. c # s = p @ b) \<or> (\<exists>a b. s = a @ p @ b)"
    by (metis append_Cons append_Nil list.sel(3) neq_Nil_conv)
  with Cons show ?case by (simp add: starts_with_iff)
qed

lemma split_on_neq_Nil [simp]: "split_on x s \<noteq> []"
  by (induction s) (auto split: list.splits)

lemma join_split_on: "join_with [x] (split_on x s) = s"
proof (induction s)
  case Nil
  then show ?case by simp
next
  case (Cons c s)
  obtain w ws where ws: "split_on x s = w # ws"
    by (cases "split_on x s") auto
  with Cons show ?case
    by (cases ws) auto
qed

lemma split_on_no_sep: "w \<in> set (split_on x s) \<Longrightarrow> x \<notin> set w"
proof (induction s arbitrary: w)
  case Nil
  then show ?case by simp
next
  case (Cons c s)
  then show ?case
    by (cases "split_on x s") (auto split: if_splits)
qed

lemma split_on_no_occ: "x \<notin> set w \<Longrightarrow> split_on x w = [w]"
  by (induction w) auto

lemma split_on_append: "x \<notin> set w \<Longrightarrow> split_on x (w @ x # s) = w # split_on x s"
  by (induction w) auto

lemma split_on_join:
  "ws \<noteq> [] \<Longrightarrow> (\<And>w. w \<in> set ws \<Longrightarrow> x \<notin> set w) \<Longrightarrow> split_on x (join_with [x] ws) = ws"
  by (induction "[x]" ws rule: join_with.induct) (auto simp: split_on_no_occ split_on_append)

lemma set_join_with: "set (join_with sep ws) \<subseteq> set sep \<union> \<Union> (set ` set ws)"
  by (induction sep ws rule: join_with.induct) auto

lemma strip_Nil [simp]: "strip [] = []"
  by (simp add: strip_def lstrip_def rstrip_def)

lemma set_lstrip: "set (lstrip s) \<subseteq> set s"
  by (auto simp: lstrip_def dest: set_dropWhileD)

lemma set_rstrip: "set (rstrip s) \<subseteq> set s"
  by (auto simp: rstrip_def dest: set_dropWhileD)

lemma set_strip: "set (strip s) \<subseteq> set s"
  using set_lstrip set_rstrip unfolding strip_def by blast

lemma rstrip_snoc: "rstrip (s @ [c]) = (if is_space c then rstrip s else s @ [c])"
  by (simp add: rstrip_def)

lemma strip_hd: "strip s \<noteq> [] \<Longrightarrow> \<not> is_space (hd (strip s))"
proof (induction s)
  case Nil
  then show ?case by simp
next
  case (Cons c s)
  show ?case
  proof (cases "is_space c")
    case True
    then have "strip (c # s) = strip s" by (simp add: strip_def lstrip_def)
    with Cons show ?thesis by simp
  next
    case False
    then have st: "strip (c # s) = rstrip (c # s)" by (simp add: strip_def lstrip_def)
    have "\<exists>t. rstrip (c # s) = c # t"
    proof (induction s rule: rev_induct)
      case Nil
      with False show ?case by (simp add: rstrip_def)
    next
      case (snoc x xs)
      then show ?case using rstrip_snoc [of "c # xs" x] by auto
    qed
    with st False show ?thesis by (metis list.sel(1))
  qed
qed

lemma rstrip_last: "rstrip s \<noteq> [] \<Longrightarrow> \<not> is_space (last (rstrip s))"
  by (induction s rule: rev_induct) (auto simp: rstrip_snoc rstrip_def)

lemma lstrip_id: "s = [] \<or> \<not> is_space (hd s) \<Longrightarrow> lstrip s = s"
  by (cases s) (auto simp: lstrip_def)

lemma rstrip_id: "s = [] \<or> \<not> is_space (last s) \<Longrightarrow> rstrip s = s"
  by (cases s rule: rev_cases) (auto simp: rstrip_def)

lemma strip_idem [simp]: "strip (strip s) = strip s"
proof -
  have "lstrip (strip s) = strip s"
    by (rule lstrip_id) (use strip_hd in blast)
  moreover have "rstrip (strip s) = strip s"
    by (rule rstrip_id) (use rstrip_last in \<open>auto simp: strip_def\<close>)
  ultimately show ?thesis by (metis strip_def)
qed

lemma strip_no_space: "(\<And>c. c \<in> set s \<Longrightarrow> \<not> is_space c) \<Longrightarrow> strip s = s"
  by (cases "s = []") (simp_all add: strip_def lstrip_id rstrip_id)

section \<open>Decimal and hexadecimal numerals\<close>

fun digit_char :: "int \<Rightarrow> char" where
  "digit_char d = char_of (if d < 10 then 48 + d else 87 + d)"

function show_base :: "int \<Rightarrow> int \<Rightarrow> string" where
  "show_base b n = (if b < 2 \<or> n < b then [digit_char n] else show_base b (n div b) @ [digit_char (n mod b)])"
  by pat_completeness auto
termination
proof (relation "measure (\<lambda>(b, n). nat n)")
  fix b n :: int
  assume a: "\<not> (b < 2 \<or> n < b)"
  then have "n div b < n" using int_div_less_self [of n b] by simp
  with a show "((b, n div b), b, n) \<in> measure (\<lambda>(b, n). nat n)" by simp
qed simp

declare show_base.simps [simp del]

definition show_int :: "int \<Rightarrow> string" where
  "show_int n = (if n < 0 then CHR ''-'' # show_base 10 (- n) else show_base 10 n)"
  \<comment> \<open>\<open>str(n)\<close>\<close>

definition dec_value :: "string \<Rightarrow> int" where
  "dec_value s = foldl (\<lambda>acc c. acc * 10 + (cp c - 48)) 0 s"
  \<comment> \<open>\<open>int(s, 10)\<close> on a string of ASCII digits\<close>

lemmas numeral_defs [py_defs] = show_int_def dec_value_def

lemma dec_value_snoc [simp]: "dec_value (s @ [c]) = dec_value s * 10 + (cp c - 48)"
  by (simp add: dec_value_def)

lemma cp_digit_char: "0 \<le> d \<Longrightarrow> d < 10 \<Longrightarrow> cp (digit_char d) = 48 + d"
  by simp

lemma is_digit_digit_char: "0 \<le> d \<Longrightarrow> d < 10 \<Longrightarrow> is_digit (digit_char d)"
  by (simp add: is_digit_def cp_digit_char del: digit_char.simps)

lemma dec_value_show: "0 \<le> n \<Longrightarrow> dec_value (show_base 10 n) = n"
proof (induction "10 :: int" n rule: show_base.induct)
  case (1 n)
  show ?case
  proof (cases "n < 10")
    case True
    with "1.prems" show ?thesis
      by (simp add: show_base.simps [of 10 n] dec_value_def cp_digit_char del: digit_char.simps)
  next
    case False
    with "1" have "dec_value (show_base 10 (n div 10)) = n div 10" by simp
    with False "1.prems" show ?thesis
      by (simp add: show_base.simps [of 10 n] cp_digit_char del: digit_char.simps)
  qed
qed

lemma show_base_digits: "0 \<le> n \<Longrightarrow> c \<in> set (show_base 10 n) \<Longrightarrow> is_digit c"
proof (induction "10 :: int" n rule: show_base.induct)
  case (1 n)
  show ?case
  proof (cases "n < 10")
    case True
    with "1.prems" show ?thesis
      by (simp add: show_base.simps [of 10 n] is_digit_digit_char del: digit_char.simps)
  next
    case False
    with "1.prems" have "c \<in> set (show_base 10 (n div 10)) \<or> c = digit_char (n mod 10)"
      by (auto simp: show_base.simps [of 10 n] simp del: digit_char.simps)
    with False "1" show ?thesis
      by (auto intro: is_digit_digit_char simp del: digit_char.simps)
  qed
qed

lemma show_base_neq_Nil [simp]: "show_base b n \<noteq> []"
  by (subst show_base.simps) simp

lemma show_int_nonneg: "0 \<le> n \<Longrightarrow> show_int n = show_base 10 n"
  by (simp add: show_int_def)

lemma hd_show_base: "0 < n \<Longrightarrow> hd (show_base 10 n) \<noteq> CHR ''0''"
proof (induction "10 :: int" n rule: show_base.induct)
  case (1 n)
  show ?case
  proof (cases "n < 10")
    case True
    have "cp (digit_char n) \<noteq> cp CHR ''0''"
      using True "1.prems" cp_digit_char [of n] by (simp del: digit_char.simps)
    with True show ?thesis by (auto simp: show_base.simps [of 10 n] simp del: digit_char.simps)
  next
    case False
    with "1" show ?thesis by (simp add: show_base.simps [of 10 n] del: digit_char.simps)
  qed
qed

lemma length_show_base: "n < 1000 \<Longrightarrow> length (show_base 10 n) \<le> 3"
  by (simp add: show_base.simps [of 10 n] show_base.simps [of 10 "n div 10"]
      show_base.simps [of 10 "n div 100"] del: digit_char.simps)
    (simp add: show_base.simps [of 10 "n div 10 div 10"] del: digit_char.simps)

section \<open>Results with exceptions\<close>

text \<open>
  Code that may raise returns \<open>Raise e\<close>; \<open>Ok v\<close> is a normal return. An operation on a state
  returns the result and the state it leaves, so that what was written before an exception is
  visible after it.
\<close>

datatype ('e, 'a) result = Raise 'e | Ok 'a

fun is_ok :: "('e, 'a) result \<Rightarrow> bool" where
  "is_ok (Ok _) = True"
| "is_ok (Raise _) = False"

fun_cases is_okE: "is_ok r"

definition bind_res ::
  "(('e, 'a) result \<times> 's) \<Rightarrow> ('a \<Rightarrow> 's \<Rightarrow> ('e, 'b) result \<times> 's) \<Rightarrow> ('e, 'b) result \<times> 's" where
  "bind_res m f = (case m of (Ok a, s) \<Rightarrow> f a s | (Raise e, s) \<Rightarrow> (Raise e, s))"

lemma bind_res_simps [simp]:
  "bind_res (Ok a, s) f = f a s"
  "bind_res (Raise e, s) f = (Raise e, s)"
  by (simp_all add: bind_res_def)

lemma bind_res_OkE:
  assumes "bind_res m f = (Ok b, t)"
  obtains a s where "m = (Ok a, s)" and "f a s = (Ok b, t)"
  using assms by (auto simp: bind_res_def split: prod.splits result.splits)

section \<open>Runs of operations\<close>

text \<open>
  An operation returns a result and the state it leaves. Where a component describes what its
  operations may do to the state by a relation \<open>runs\<close> that is reflexive and transitive (the closure
  of its steps), these rules follow the structure of an operation's text: sequencing, branching and
  exceptions.
\<close>

locale run_relation =
  fixes runs :: "'s \<Rightarrow> 's \<Rightarrow> bool"
  assumes runs_refl: "runs s s"
    and runs_trans: "runs a b \<Longrightarrow> runs b c \<Longrightarrow> runs a c"
begin

lemma run_snd: "runs s s' \<Longrightarrow> runs s (snd (x, s'))"
  by simp

lemma run_if:
  "(c \<Longrightarrow> runs s (snd x)) \<Longrightarrow> (\<not> c \<Longrightarrow> runs s (snd y)) \<Longrightarrow> runs s (snd (if c then x else y))"
  by simp

lemma run_if_state: "(c \<Longrightarrow> runs s x) \<Longrightarrow> (\<not> c \<Longrightarrow> runs s y) \<Longrightarrow> runs s (if c then x else y)"
  by simp

lemma run_option:
  "(v = None \<Longrightarrow> runs s (snd x)) \<Longrightarrow> (\<And>a. v = Some a \<Longrightarrow> runs s (snd (f a))) \<Longrightarrow>
   runs s (snd (case v of None \<Rightarrow> x | Some a \<Rightarrow> f a))"
  by (cases v) auto

lemma run_result:
  "(\<And>e. v = Raise e \<Longrightarrow> runs s (snd (g e))) \<Longrightarrow> (\<And>a. v = Ok a \<Longrightarrow> runs s (snd (f a))) \<Longrightarrow>
   runs s (snd (case v of Raise e \<Rightarrow> g e | Ok a \<Rightarrow> f a))"
  by (cases v) auto

lemma run_bool:
  "(v \<Longrightarrow> runs s (snd x)) \<Longrightarrow> (\<not> v \<Longrightarrow> runs s (snd y)) \<Longrightarrow>
   runs s (snd (case v of True \<Rightarrow> x | False \<Rightarrow> y))"
  by (cases v) auto

lemma run_pair:
  "runs s (snd m) \<Longrightarrow> (\<And>a t. m = (a, t) \<Longrightarrow> runs t (snd (f a t))) \<Longrightarrow> runs s (snd (case m of (a, t) \<Rightarrow> f a t))"
  using runs_trans by (cases m) auto

lemma run_bind:
  "runs s (snd m) \<Longrightarrow> (\<And>a t. m = (Ok a, t) \<Longrightarrow> runs t (snd (f a t))) \<Longrightarrow> runs s (snd (bind_res m f))"
  using runs_trans by (cases m) (auto simp: bind_res_def split: result.split)

lemma run_pair_app:
  "(\<And>a b. x = (a, b) \<Longrightarrow> runs s (snd (f a b t))) \<Longrightarrow> runs s (snd ((case x of (a, b) \<Rightarrow> f a b) t))"
  by (cases x) auto

lemma run_value:
  "(\<And>a b. x = (a, b) \<Longrightarrow> runs s (snd (f a b))) \<Longrightarrow> runs s (snd (case x of (a, b) \<Rightarrow> f a b))"
  by (cases x) auto

lemma run_let: "runs s (snd (f x)) \<Longrightarrow> runs s (snd (Let x f))"
  by simp

lemmas run_intros = run_snd run_if run_if_state run_option run_result run_bool run_pair run_bind run_pair_app run_value run_let

end

section \<open>Rows of a table\<close>

text \<open>
  A database table is the list of its rows in insertion order. A query is \<open>filter\<close>, its
  \<open>first()\<close> is \<open>find\<close>, and an update of the matching rows is \<open>map\<close> with a guard.
\<close>

definition first_row :: "('r \<Rightarrow> bool) \<Rightarrow> 'r list \<Rightarrow> 'r option" where
  "first_row p rs = find p rs"

definition update_rows :: "('r \<Rightarrow> bool) \<Rightarrow> ('r \<Rightarrow> 'r) \<Rightarrow> 'r list \<Rightarrow> 'r list" where
  "update_rows p f rs = map (\<lambda>r. if p r then f r else r) rs"

lemma first_row_Some: "first_row p rs = Some r \<Longrightarrow> r \<in> set rs \<and> p r"
  by (auto simp: first_row_def find_Some_iff)

lemma first_row_None [simp]: "first_row p rs = None \<longleftrightarrow> (\<forall>r \<in> set rs. \<not> p r)"
  by (auto simp: first_row_def find_None_iff)

lemma first_row_cases:
  "first_row p (r # rs) = (if p r then Some r else first_row p rs)"
  "first_row p [] = None"
  by (simp_all add: first_row_def)

lemma first_row_append:
  "first_row p (rs @ qs) = (case first_row p rs of None \<Rightarrow> first_row p qs | Some r \<Rightarrow> Some r)"
  by (induction rs) (auto simp: first_row_def)

lemma set_update_rows: "set (update_rows p f rs) = (\<lambda>r. if p r then f r else r) ` set rs"
  by (simp add: update_rows_def)

lemma length_update_rows [simp]: "length (update_rows p f rs) = length rs"
  by (simp add: update_rows_def)

lemma map_update_rows:
  "(\<And>r. g (f r) = g r) \<Longrightarrow> map g (update_rows p f rs) = map g rs"
  by (simp add: update_rows_def)

lemma update_rows_none: "\<forall>r \<in> set rs. \<not> p r \<Longrightarrow> update_rows p f rs = rs"
  by (induction rs) (auto simp: update_rows_def)

text \<open>The interface of a keyed table: a find by key and an update of the row with a key.\<close>

locale keyed_table =
  fixes find_key :: "'t \<Rightarrow> 'k \<Rightarrow> 'r option"
    and put :: "'t \<Rightarrow> 'k \<Rightarrow> 'r \<Rightarrow> 't"
    and key :: "'r \<Rightarrow> 'k"
  assumes find_key: "find_key t k = Some r \<Longrightarrow> key r = k"
    and find_put_same: "find_key t k = Some r \<Longrightarrow> key r' = k \<Longrightarrow> find_key (put t k r') k = Some r'"
    and find_put_other: "k \<noteq> k' \<Longrightarrow> key r' = k \<Longrightarrow> find_key (put t k r') k' = find_key t k'"
begin

lemma find_put:
  assumes "find_key t k = Some r" and "key r' = k"
  shows "find_key (put t k r') k' = (if k' = k then Some r' else find_key t k')"
  using assms find_put_same find_put_other by auto

lemma put_keeps_keys:
  assumes "find_key t k = Some r" and "key r' = k"
  shows "(find_key (put t k r') k' = None) = (find_key t k' = None)"
  using assms by (auto simp: find_put)

end

section \<open>Lists\<close>

fun dedup_from :: "'a list \<Rightarrow> 'a list \<Rightarrow> 'a list" where
  "dedup_from seen [] = []"
| "dedup_from seen (x # xs) =
     (if x \<in> set seen then dedup_from seen xs else x # dedup_from (x # seen) xs)"
  \<comment> \<open>the loop \<open>if x in seen: continue; seen.add(x); out.append(x)\<close>\<close>

lemma set_dedup_from: "set (dedup_from seen xs) = set xs - set seen"
  by (induction seen xs rule: dedup_from.induct) auto

lemma distinct_dedup_from: "distinct (dedup_from seen xs)"
  by (induction seen xs rule: dedup_from.induct) (auto simp: set_dedup_from)

lemma dedup_from_distinct:
  "distinct xs \<Longrightarrow> set xs \<inter> set seen = {} \<Longrightarrow> dedup_from seen xs = xs"
  by (induction seen xs rule: dedup_from.induct) auto

lemma length_filter_disj:
  "(\<And>x. x \<in> set xs \<Longrightarrow> p x \<Longrightarrow> q x \<Longrightarrow> False) \<Longrightarrow>
   length (filter (\<lambda>x. p x \<or> q x) xs) = length (filter p xs) + length (filter q xs)"
  by (induction xs) auto

lemma length_filter_mono: "(\<And>x. p x \<Longrightarrow> q x) \<Longrightarrow> length (filter p xs) \<le> length (filter q xs)"
  by (induction xs) (auto simp: le_SucI)

end
