(* ===== verification/SqlLike.thy ===== *)
theory SqlLike
  imports Prelude
begin

text \<open>
  \<open>app/sql_like.py\<close>: patterns for the SQL operator \<open>LIKE\<close> built from text a user typed, and the
  semantics of the operator they are meant for: \<open>%\<close> matches any text, \<open>_\<close> any one character, and
  the escape character, when the query names one, makes the next character literal. The comparison
  is of the letters as they are; \<open>ilike\<close> compares both sides in lower case.
\<close>

fun like :: "char option \<Rightarrow> string \<Rightarrow> string \<Rightarrow> bool" where
  "like esc [] s = (s = [])"
| "like esc (p # ps) s =
     (if esc = Some p then
        (case (ps, s) of
           (q # qs, c # cs) \<Rightarrow> q = c \<and> like esc qs cs
         | _ \<Rightarrow> False)
      else if p = CHR ''%'' then like esc ps s \<or> (case s of [] \<Rightarrow> False | c # cs \<Rightarrow> like esc (p # ps) cs)
      else (case s of [] \<Rightarrow> False | c # cs \<Rightarrow> (p = CHR ''_'' \<or> p = c) \<and> like esc ps cs))"

definition like_escape :: char where
  "like_escape = CHR 0x5C"

definition escape_like :: "string \<Rightarrow> string" where
  "escape_like text =
     replace_char (CHR ''_'') [like_escape, CHR ''_'']
       (replace_char (CHR ''%'') [like_escape, CHR ''%'']
         (replace_char like_escape [like_escape, like_escape] text))"

definition contains_pattern :: "string \<Rightarrow> string" where
  "contains_pattern needle = ''%'' @ escape_like needle @ ''%''"

lemmas like_defs [py_defs] = like_escape_def escape_like_def contains_pattern_def

text \<open>The three replacements escape each character on its own.\<close>

definition escape_char :: "char \<Rightarrow> string" where
  "escape_char c = (if c \<in> {like_escape, CHR ''%'', CHR ''_''} then [like_escape, c] else [c])"

lemma escape_like_chars: "escape_like s = concat (map escape_char s)"
  by (induction s) (auto simp: escape_like_def replace_char_def escape_char_def like_escape_def)

lemma like_percent:
  "like (Some like_escape) (CHR ''%'' # ps) s \<longleftrightarrow> (\<exists>a b. s = a @ b \<and> like (Some like_escape) ps b)"
proof (induction s)
  case Nil
  then show ?case by (simp add: like_escape_def)
next
  case (Cons c s)
  have "(\<exists>a b. c # s = a @ b \<and> like (Some like_escape) ps b) \<longleftrightarrow>
      like (Some like_escape) ps (c # s) \<or> (\<exists>a b. s = a @ b \<and> like (Some like_escape) ps b)"
    by (metis append_Cons append_Nil list.sel(3) neq_Nil_conv)
  with Cons show ?case by (simp add: like_escape_def)
qed

lemma like_literal:
  "like (Some like_escape) (escape_char c @ ps) s \<longleftrightarrow> (\<exists>t. s = c # t \<and> like (Some like_escape) ps t)"
  by (cases s) (auto simp: escape_char_def like_escape_def)

lemma like_escaped:
  "like (Some like_escape) (escape_like t @ ps) s \<longleftrightarrow> (\<exists>u. s = t @ u \<and> like (Some like_escape) ps u)"
  by (induction t arbitrary: s) (auto simp: escape_like_chars like_literal)

lemma like_all: "like (Some like_escape) ''%'' s"
  unfolding like_percent by (intro exI [of _ s] exI [of _ "[]"]) simp

text \<open>A search pattern matches exactly the texts that contain what the user typed: with the escape
  character of the queries, the wildcards in the typed text stand for themselves.\<close>

theorem contains_pattern_exact:
  "like (Some like_escape) (contains_pattern needle) s \<longleftrightarrow> contains_sub needle s"
proof -
  have "like (Some like_escape) (contains_pattern needle) s \<longleftrightarrow>
      (\<exists>a b. s = a @ b \<and> (\<exists>u. b = needle @ u \<and> like (Some like_escape) ''%'' u))"
    by (simp only: contains_pattern_def append_Cons append_Nil like_percent like_escaped)
  then show ?thesis unfolding contains_sub_iff by (simp only: like_all) blast
qed

lemma like_prefix:
  assumes "\<And>c. c \<in> set p \<Longrightarrow> c \<notin> {CHR ''%'', CHR ''_''}"
  shows "like None (p @ ''%'') s \<longleftrightarrow> starts_with p s"
  using assms
proof (induction p arbitrary: s)
  case Nil
  have "like None ''%'' s" by (induction s) auto
  then show ?case by simp
next
  case (Cons c p)
  then show ?case by (cases s) auto
qed

end
