(* ===== verification/AuditLog.thy ===== *)
theory AuditLog
  imports Prelude
begin

text \<open>
  The audit journal: \<open>log_action\<close> and the actor normalisation of \<open>app/audit/__init__.py\<close>, with the
  two identity helpers of \<open>app/web/user_context.py\<close> they call. The state here is the part every
  component shares: the clock, whether the hot store (the database of rate events, audit rows and
  session registries) answers, and the audit rows. Components extend this record.

  An audit row keeps what the caller passed and the time; the event code and the severity, which
  come from the catalogue of \<open>event_catalog.py\<close>, and the SIEM hand-over after the commit are not
  part of the row here.
\<close>

datatype jval = JNull | JBool bool | JInt int | JStr string | JList "jval list"

type_synonym details = "(string \<times> jval) list"

record audit_row =
  au_actor :: string
  au_action :: string
  au_target :: "string option"
  au_details :: details
  au_ip :: "string option"
  au_at :: int

record core_db =
  clock :: int
  hot_up :: bool
  audit :: "audit_row list"

section \<open>Identity labels\<close>

definition is_hex :: "char \<Rightarrow> bool" where
  "is_hex c \<longleftrightarrow> is_digit c \<or> (97 \<le> cp c \<and> cp c \<le> 102) \<or> (65 \<le> cp c \<and> cp c \<le> 70)"

definition uuid_shape :: "string \<Rightarrow> bool" where
  "uuid_shape s \<longleftrightarrow>
     (let ws = split_on (CHR ''-'') s
      in map length ws = [8, 4, 4, 4, 12] \<and> list_all (list_all is_hex) ws)"

definition looks_like_uuid :: "string option \<Rightarrow> bool" where
  "looks_like_uuid value = (case value of None \<Rightarrow> False | Some v \<Rightarrow> v \<noteq> [] \<and> uuid_shape (strip v))"

fun human_label :: "string option list \<Rightarrow> string option" where
  "human_label [] = None"
| "human_label (raw # rest) =
     (let text = strip (opt_str raw)
      in if text \<noteq> [] \<and> \<not> looks_like_uuid (Some text) then Some text else human_label rest)"

definition detail_text :: "details \<Rightarrow> string \<Rightarrow> string option" where
  "detail_text d k = (case map_of d k of Some (JStr s) \<Rightarrow> Some s | _ \<Rightarrow> None)"

definition actor_detail_keys :: "string list" where
  "actor_detail_keys = [''robotic_username'', ''username'', ''email'', ''preferred_username'',
     ''actor_email'', ''user_email'', ''identity'']"

definition opaque_sso_actor :: string where
  "opaque_sso_actor = ''utilisateur SSO''"

definition normalize_audit_actor :: "string option \<Rightarrow> details \<Rightarrow> string \<times> details" where
  "normalize_audit_actor actor d =
     (let stripped = strip (opt_str actor);
          raw = (if stripped = [] then ''unknown'' else stripped);
          label = human_label (map (detail_text d) actor_detail_keys)
      in if looks_like_uuid (Some raw)
         then (let d' = (if map_of d ''keycloak_user_id'' = None
                         then d @ [(''keycloak_user_id'', JStr raw)] else d)
               in (case label of Some l \<Rightarrow> (l, d') | None \<Rightarrow> (opaque_sso_actor, d')))
         else (raw, d))"

section \<open>Writing an entry\<close>

definition log_action ::
  "string \<Rightarrow> string \<Rightarrow> string option \<Rightarrow> details \<Rightarrow> string option \<Rightarrow> 'a core_db_scheme \<Rightarrow> 'a core_db_scheme" where
  \<comment> \<open>never raises: when the hot store is down the entry is lost\<close>
  "log_action actor action target d ip db =
     (if hot_up db then
        (let (display, d') = normalize_audit_actor (Some actor) d
         in db\<lparr>audit := audit db @ [\<lparr>au_actor = display, au_action = action, au_target = target,
                au_details = d', au_ip = ip, au_at = clock db\<rparr>]\<rparr>)
      else db)"

definition derive_severity :: "string \<Rightarrow> string" where
  "derive_severity action =
     (let a = lower action
      in if list_ex (\<lambda>x. contains_sub x a)
              [''error'', ''failed'', ''blocked'', ''denied'', ''unknown_host'', ''no_app'',
               ''unregistered'', ''rate_limited'', ''ban.applied'']
         then (if contains_sub ''warn'' a \<or> contains_sub ''rate_limited'' a then ''warn'' else ''error'')
         else if contains_sub ''warn'' a \<or> contains_sub ''warning'' a then ''warn''
         else if list_ex (\<lambda>x. contains_sub x a)
              [''success'', ''login'', ''created'', ''updated'', ''valid'', ''key_rotation'']
         then ''success''
         else ''info'')"

lemmas audit_defs [py_defs] =
  is_hex_def uuid_shape_def looks_like_uuid_def detail_text_def actor_detail_keys_def
  opaque_sso_actor_def normalize_audit_actor_def log_action_def derive_severity_def

lemma log_action_frame [frame, simp]:
  "clock (log_action actor action target d ip db) = clock db"
  "hot_up (log_action actor action target d ip db) = hot_up db"
  "core_db.more (log_action actor action target d ip db) = core_db.more db"
  by (simp_all add: log_action_def split: prod.split)

lemma log_action_down [simp]: "\<not> hot_up db \<Longrightarrow> log_action actor action target d ip db = db"
  by (simp add: log_action_def)

lemma log_action_audit:
  "hot_up db \<Longrightarrow> \<exists>r. audit (log_action actor action target d ip db) = audit db @ [r] \<and>
     au_action r = action \<and> au_target r = target \<and> au_ip r = ip \<and> au_at r = clock db"
  by (simp add: log_action_def split: prod.split)

lemma audit_append_only: "\<exists>rs. audit (log_action actor action target d ip db) = audit db @ rs"
  by (simp add: log_action_def split: prod.split)

section \<open>The actor of an entry\<close>

lemma human_label_not_uuid: "human_label vs = Some l \<Longrightarrow> \<not> looks_like_uuid (Some l) \<and> l \<noteq> []"
  by (induction vs) (auto simp: Let_def split: if_splits)

text \<open>The actor shown in the journal is never a Keycloak subject identifier: it is a label that
  does not look like a UUID and is not blank, and an identifier passed as the actor is kept in the
  details under \<open>keycloak_user_id\<close> unless the caller already recorded one there.\<close>

theorem audit_actor_readable:
  assumes "normalize_audit_actor actor d = (shown, d')"
  shows "shown \<noteq> [] \<and> \<not> looks_like_uuid (Some shown) \<and>
    (looks_like_uuid actor \<longrightarrow> map_of d' ''keycloak_user_id'' \<noteq> None)"
proof -
  have opaque: "\<not> looks_like_uuid (Some opaque_sso_actor)" "opaque_sso_actor \<noteq> []"
    by code_simp+
  have raw: "looks_like_uuid actor \<Longrightarrow> strip (opt_str actor) \<noteq> [] \<and> looks_like_uuid (Some (strip (opt_str actor)))"
    by (auto simp: looks_like_uuid_def uuid_shape_def opt_str_def split: option.splits)
  show ?thesis
    using assms opaque raw
    by (auto simp: normalize_audit_actor_def Let_def map_add_def dest: human_label_not_uuid
        split: if_splits option.splits)
qed

theorem audit_actor_readable_witness:
  "''alice@example.fr'' \<noteq> [] \<and> \<not> looks_like_uuid (Some ''alice@example.fr'') \<and>
   map_of [(''email'', JStr ''alice@example.fr''),
           (''keycloak_user_id'', JStr ''0f8fad5b-d9cb-469f-a165-70867728950e'')] ''keycloak_user_id'' \<noteq> None"
proof -
  have "normalize_audit_actor (Some ''0f8fad5b-d9cb-469f-a165-70867728950e'') [(''email'', JStr ''alice@example.fr'')] =
      (''alice@example.fr'', [(''email'', JStr ''alice@example.fr''),
        (''keycloak_user_id'', JStr ''0f8fad5b-d9cb-469f-a165-70867728950e'')])"
    by code_simp
  moreover have "looks_like_uuid (Some ''0f8fad5b-d9cb-469f-a165-70867728950e'')" by code_simp
  ultimately show ?thesis using audit_actor_readable by blast
qed

end
