(* ===== verification/IpAddr.thy ===== *)
theory IpAddr
  imports Prelude
begin

text \<open>
  IP addresses and networks: the functions of Python's \<open>ipaddress\<close> module the program calls
  (\<open>ip_address\<close>, \<open>ip_network(strict=False)\<close>, membership, \<open>overlaps\<close>, \<open>is_multicast\<close>,
  \<open>is_unspecified\<close> and \<open>str\<close>), and \<open>app/ip_cidrs.py\<close>, which decides what may become an operand
  of an nginx \<open>allow\<close> or \<open>deny\<close>. A raised \<open>ValueError\<close> is \<^const>\<open>None\<close>.
\<close>

section \<open>The addresses of \<open>ipaddress\<close>\<close>

datatype ip_addr = IPv4 int | IPv6 int "string option"
  \<comment> \<open>the value, and for IPv6 the scope id after a percent sign\<close>

record ip_net =
  net_addr :: ip_addr
  net_prefix :: int

fun ip_val :: "ip_addr \<Rightarrow> int" where
  "ip_val (IPv4 x) = x"
| "ip_val (IPv6 x _) = x"

fun ip_version :: "ip_addr \<Rightarrow> int" where
  "ip_version (IPv4 _) = 4"
| "ip_version (IPv6 _ _) = 6"

fun ip_width :: "ip_addr \<Rightarrow> int" where
  "ip_width (IPv4 _) = 32"
| "ip_width (IPv6 _ _) = 128"

subsection \<open>IPv4 text\<close>

definition parse_octet :: "string \<Rightarrow> int option" where
  "parse_octet s =
     (if s = [] \<or> \<not> list_all is_digit s \<or> 3 < length s \<or> (s \<noteq> ''0'' \<and> hd s = CHR ''0'') then None
      else if 255 < dec_value s then None else Some (dec_value s))"

definition ipv4_int :: "string \<Rightarrow> int option" where
  "ipv4_int s =
     (case map parse_octet (split_on (CHR ''.'') s) of
        [Some a, Some b, Some c, Some d] \<Rightarrow> Some (((a * 256 + b) * 256 + c) * 256 + d)
      | _ \<Rightarrow> None)"

definition ipv4_address :: "string \<Rightarrow> ip_addr option" where
  "ipv4_address s = (if CHR ''/'' \<in> set s then None else map_option IPv4 (ipv4_int s))"

definition show_ipv4 :: "int \<Rightarrow> string" where
  "show_ipv4 x = join_with ''.''
     [show_int (x div 16777216), show_int (x div 65536 mod 256), show_int (x div 256 mod 256),
      show_int (x mod 256)]"

subsection \<open>IPv6 text\<close>

definition hex_digit :: "char \<Rightarrow> int option" where
  "hex_digit c =
     (if is_digit c then Some (cp c - 48)
      else if 97 \<le> cp c \<and> cp c \<le> 102 then Some (cp c - 87)
      else if 65 \<le> cp c \<and> cp c \<le> 70 then Some (cp c - 55) else None)"

fun hex_value :: "int \<Rightarrow> string \<Rightarrow> int option" where
  "hex_value acc [] = Some acc"
| "hex_value acc (c # s) = (case hex_digit c of None \<Rightarrow> None | Some d \<Rightarrow> hex_value (acc * 16 + d) s)"

definition parse_hextet :: "string \<Rightarrow> int option" where
  "parse_hextet s = (if s = [] \<or> 4 < length s then None else hex_value 0 s)"

fun hextets_value :: "int \<Rightarrow> string list \<Rightarrow> int option" where
  "hextets_value acc [] = Some acc"
| "hextets_value acc (h # hs) =
     (case parse_hextet h of None \<Rightarrow> None | Some v \<Rightarrow> hextets_value (acc * 65536 + v) hs)"

definition v6_expand_v4 :: "string list \<Rightarrow> string list option" where
  \<comment> \<open>an IPv4 tail becomes two hextets\<close>
  "v6_expand_v4 parts =
     (if CHR ''.'' \<in> set (last parts) then
        (case ipv4_address (last parts) of
           None \<Rightarrow> None
         | Some a \<Rightarrow> Some (butlast parts @
             [show_base 16 (ip_val a div 65536), show_base 16 (ip_val a mod 65536)]))
      else Some parts)"

definition v6_parts_value :: "string list \<Rightarrow> int option" where
  "v6_parts_value parts =
     (if 9 < length parts then None
      else case filter (\<lambda>i. parts ! i = []) [1..<length parts - 1] of
        [] \<Rightarrow>
          (if length parts \<noteq> 8 \<or> hd parts = [] \<or> last parts = [] then None
           else hextets_value 0 parts)
      | [k] \<Rightarrow>
          (let hi = (if hd parts = [] then k - 1 else k);
               lo0 = length parts - k - 1;
               lo = (if last parts = [] then lo0 - 1 else lo0)
           in if hd parts = [] \<and> hi \<noteq> 0 then None
              else if last parts = [] \<and> lo \<noteq> 0 then None
              else if 8 < hi + lo + 1 then None
              else (case hextets_value 0 (take hi parts) of
                      None \<Rightarrow> None
                    | Some hv \<Rightarrow> hextets_value (hv * 65536 ^ (8 - (hi + lo))) (drop (length parts - lo) parts)))
      | _ \<Rightarrow> None)"

definition ipv6_int :: "string \<Rightarrow> int option" where
  "ipv6_int s =
     (let parts = split_on (CHR '':'') s
      in if s = [] \<or> length parts < 3 then None
         else Option.bind (v6_expand_v4 parts) v6_parts_value)"

definition split_scope :: "string \<Rightarrow> (string \<times> string option) option" where
  "split_scope s =
     (let addr = takeWhile (\<lambda>c. c \<noteq> CHR ''%'') s; rest = dropWhile (\<lambda>c. c \<noteq> CHR ''%'') s
      in case rest of
           [] \<Rightarrow> Some (addr, None)
         | _ # scope \<Rightarrow> if scope = [] \<or> CHR ''%'' \<in> set scope then None else Some (addr, Some scope))"

definition ipv6_address :: "string \<Rightarrow> ip_addr option" where
  "ipv6_address s =
     (if CHR ''/'' \<in> set s then None
      else case split_scope s of
             None \<Rightarrow> None
           | Some (a, scope) \<Rightarrow> map_option (\<lambda>v. IPv6 v scope) (ipv6_int a))"

fun hextets_of :: "nat \<Rightarrow> int \<Rightarrow> string list" where
  "hextets_of 0 x = []"
| "hextets_of (Suc n) x = hextets_of n (x div 65536) @ [show_base 16 (x mod 65536)]"

fun zero_run :: "nat \<Rightarrow> nat option \<Rightarrow> nat \<Rightarrow> nat \<times> nat \<Rightarrow> string list \<Rightarrow> nat \<times> nat" where
  \<comment> \<open>the loop of \<open>_compress_hextets\<close>: the first longest run of zero hextets, as (start, length)\<close>
  "zero_run i start len best [] = best"
| "zero_run i start len best (h # hs) =
     (if h = ''0'' then
        (let len' = len + 1; start' = (case start of None \<Rightarrow> i | Some k \<Rightarrow> k)
         in zero_run (i + 1) (Some start') len' (if snd best < len' then (start', len') else best) hs)
      else zero_run (i + 1) None 0 best hs)"

definition compress_hextets :: "string list \<Rightarrow> string list" where
  "compress_hextets hs =
     (let (st, len) = zero_run 0 None 0 (0, 0) hs
      in if 1 < len then
           (if st = 0 then [[]] else []) @ take st hs @ [[]] @ drop (st + len) hs
             @ (if st + len = length hs then [[]] else [])
         else hs)"

definition show_ipv6 :: "int \<Rightarrow> string" where
  "show_ipv6 x = join_with '':'' (compress_hextets (hextets_of 8 x))"

fun show_addr :: "ip_addr \<Rightarrow> string" where
  "show_addr (IPv4 x) = show_ipv4 x"
| "show_addr (IPv6 x None) = show_ipv6 x"
| "show_addr (IPv6 x (Some sc)) = show_ipv6 x @ ''%'' @ sc"

subsection \<open>Addresses and networks\<close>

definition ip_address :: "string \<Rightarrow> ip_addr option" where
  "ip_address s = (case ipv4_address s of Some a \<Rightarrow> Some a | None \<Rightarrow> ipv6_address s)"

definition parse_prefix :: "int \<Rightarrow> string \<Rightarrow> int option" where
  "parse_prefix w s =
     (if s \<noteq> [] \<and> list_all is_digit s \<and> dec_value s \<le> w then Some (dec_value s) else None)"

fun low_zeros :: "nat \<Rightarrow> int \<Rightarrow> nat" where
  "low_zeros 0 x = 0"
| "low_zeros (Suc n) x = (if x mod 2 = 1 then 0 else Suc (low_zeros n (x div 2)))"

definition prefix_of_mask :: "int \<Rightarrow> int option" where
  \<comment> \<open>\<open>_prefix_from_ip_int\<close> of an IPv4 netmask\<close>
  "prefix_of_mask x =
     (let z = low_zeros 32 x; p = 32 - z
      in if x div 2 ^ z = 2 ^ p - 1 then Some (int p) else None)"

definition prefix_of_dotted :: "string \<Rightarrow> int option" where
  "prefix_of_dotted s =
     (case ipv4_int s of
        None \<Rightarrow> None
      | Some m \<Rightarrow> (case prefix_of_mask m of
                     Some p \<Rightarrow> Some p
                   | None \<Rightarrow> prefix_of_mask (4294967295 - m)))"

definition v4_prefix :: "string \<Rightarrow> int option" where
  "v4_prefix s = (case parse_prefix 32 s of Some p \<Rightarrow> Some p | None \<Rightarrow> prefix_of_dotted s)"

definition mask_val :: "int \<Rightarrow> int \<Rightarrow> int \<Rightarrow> int" where
  \<comment> \<open>the bitwise and with the netmask of prefix \<open>p\<close>: the low \<open>w - p\<close> bits are cleared\<close>
  "mask_val w p x = x div 2 ^ nat (w - p) * 2 ^ nat (w - p)"

definition make_net :: "ip_addr \<Rightarrow> int \<Rightarrow> ip_net" where
  \<comment> \<open>host bits are dropped; a scope id survives only when there were none\<close>
  "make_net a p =
     (case a of
        IPv4 x \<Rightarrow> \<lparr>net_addr = IPv4 (mask_val 32 p x), net_prefix = p\<rparr>
      | IPv6 x sc \<Rightarrow>
          \<lparr>net_addr = IPv6 (mask_val 128 p x) (if mask_val 128 p x = x then sc else None), net_prefix = p\<rparr>)"

definition ipv4_network :: "string list \<Rightarrow> ip_net option" where
  "ipv4_network parts =
     (case parts of
        [a] \<Rightarrow> map_option (\<lambda>x. make_net x 32) (ipv4_address a)
      | [a, m] \<Rightarrow> (case ipv4_address a of
                     None \<Rightarrow> None
                   | Some x \<Rightarrow> map_option (make_net x) (v4_prefix m))
      | _ \<Rightarrow> None)"

definition ipv6_network :: "string list \<Rightarrow> ip_net option" where
  "ipv6_network parts =
     (case parts of
        [a] \<Rightarrow> map_option (\<lambda>x. make_net x 128) (ipv6_address a)
      | [a, m] \<Rightarrow> (case ipv6_address a of
                     None \<Rightarrow> None
                   | Some x \<Rightarrow> map_option (make_net x) (parse_prefix 128 m))
      | _ \<Rightarrow> None)"

definition ip_network :: "string \<Rightarrow> ip_net option" where
  "ip_network s =
     (case ipv4_network (split_on (CHR ''/'') s) of
        Some n \<Rightarrow> Some n
      | None \<Rightarrow> ipv6_network (split_on (CHR ''/'') s))"

definition show_net :: "ip_net \<Rightarrow> string" where
  "show_net n = show_addr (net_addr n) @ ''/'' @ show_int (net_prefix n)"

definition net_width :: "ip_net \<Rightarrow> int" where
  "net_width n = ip_width (net_addr n)"

definition net_version :: "ip_net \<Rightarrow> int" where
  "net_version n = ip_version (net_addr n)"

definition in_net :: "ip_addr \<Rightarrow> ip_net \<Rightarrow> bool" where
  "in_net a n \<longleftrightarrow>
     ip_version a = net_version n \<and>
     mask_val (net_width n) (net_prefix n) (ip_val a) = ip_val (net_addr n)"

definition broadcast :: "ip_net \<Rightarrow> ip_addr" where
  "broadcast n =
     (let v = ip_val (net_addr n) + 2 ^ nat (net_width n - net_prefix n) - 1
      in case net_addr n of IPv4 _ \<Rightarrow> IPv4 v | IPv6 _ _ \<Rightarrow> IPv6 v None)"

definition overlaps :: "ip_net \<Rightarrow> ip_net \<Rightarrow> bool" where
  "overlaps n m \<longleftrightarrow>
     in_net (net_addr n) m \<or> in_net (broadcast n) m \<or> in_net (net_addr m) n \<or> in_net (broadcast m) n"

definition addr_multicast :: "ip_addr \<Rightarrow> bool" where
  "addr_multicast a =
     (case a of
        IPv4 x \<Rightarrow> in_net a \<lparr>net_addr = IPv4 3758096384, net_prefix = 4\<rparr>
      | IPv6 x _ \<Rightarrow> in_net a \<lparr>net_addr = IPv6 (65280 * 2 ^ 112) None, net_prefix = 8\<rparr>)"

definition net_multicast :: "ip_net \<Rightarrow> bool" where
  "net_multicast n \<longleftrightarrow> addr_multicast (net_addr n) \<and> addr_multicast (broadcast n)"

definition net_unspecified :: "ip_net \<Rightarrow> bool" where
  "net_unspecified n \<longleftrightarrow> ip_val (net_addr n) = 0 \<and> ip_val (broadcast n) = 0"

lemmas ip_defs [py_defs] =
  parse_octet_def ipv4_int_def ipv4_address_def show_ipv4_def hex_digit_def parse_hextet_def
  v6_expand_v4_def v6_parts_value_def ipv6_int_def split_scope_def ipv6_address_def
  compress_hextets_def show_ipv6_def ip_address_def parse_prefix_def prefix_of_mask_def
  prefix_of_dotted_def v4_prefix_def mask_val_def make_net_def ipv4_network_def ipv6_network_def
  ip_network_def show_net_def net_width_def net_version_def in_net_def broadcast_def overlaps_def
  addr_multicast_def net_multicast_def net_unspecified_def

end
