(* ===== verification/IpCidrs.thy ===== *)
theory IpCidrs
  imports IpAddr
begin

text \<open>
  \<open>app/ip_cidrs.py\<close>: the default networks, and the check an address or CIDR must pass before it
  becomes an operand of an nginx \<open>allow\<close> or \<open>deny\<close> (WAF network ACLs and promoted bans). The
  check is shown to be sound: an accepted \<open>deny\<close> operand contains no address of the
  infrastructure networks, so a ban cannot cut the hops nginx itself relies on.
\<close>

section \<open>Default networks\<close>

definition v4_network :: "int \<Rightarrow> int \<Rightarrow> ip_net" where
  "v4_network addr prefix = \<lparr>net_addr = IPv4 addr, net_prefix = prefix\<rparr>"

definition v4_cidr :: "int \<Rightarrow> int \<Rightarrow> string" where
  "v4_cidr addr prefix = show_net (v4_network addr prefix)"

definition default_trusted_proxy_cidrs :: "string list" where
  "default_trusted_proxy_cidrs =
     [v4_cidr 0x0A050000 16, v4_cidr 0xAC110000 16, v4_cidr 0x7F000000 8]"

definition default_rfc1918_cidrs :: "string list" where
  "default_rfc1918_cidrs =
     [v4_cidr 0x0A000000 8, v4_cidr 0xAC100000 12, v4_cidr 0xC0A80000 16, v4_cidr 0x7F000001 32]"

definition infra_hop_networks :: "ip_net list" where
  "infra_hop_networks =
     [v4_network 0x0A050000 16, v4_network 0xAC110000 16, v4_network 0x7F000000 8]"

definition infra_hop_networks_all :: "ip_net list" where
  "infra_hop_networks_all = infra_hop_networks @ [\<lparr>net_addr = IPv6 1 None, net_prefix = 128\<rparr>]"

definition waf_acl_min_prefix :: "int \<Rightarrow> int" where
  "waf_acl_min_prefix version = (if version = 4 then 8 else 32)"

section \<open>The ACL check\<close>

datatype acl_problem =
    InvalidAddress
  | TooBroad int int  \<comment> \<open>the prefix and the broadest one accepted\<close>
  | UnspecifiedOrMulticast
  | OverlapsInfrastructure

definition parse_ip_network :: "string option \<Rightarrow> ip_net option" where
  "parse_ip_network raw =
     (let value = strip (opt_str raw)
      in if value = [] \<or> \<not> is_ascii value then None else ip_network value)"

definition waf_acl_entry_problem :: "string option \<Rightarrow> bool \<Rightarrow> acl_problem option" where
  "waf_acl_entry_problem raw deny =
     (case parse_ip_network raw of
        None \<Rightarrow> Some InvalidAddress
      | Some net \<Rightarrow>
          (let min_prefix = waf_acl_min_prefix (net_version net)
           in if net_prefix net < min_prefix then Some (TooBroad (net_prefix net) min_prefix)
              else if net_unspecified net \<or> net_multicast net then Some UnspecifiedOrMulticast
              else if deny \<and> list_ex (\<lambda>infra. net_version net = net_version infra \<and> overlaps net infra)
                                infra_hop_networks_all
                   then Some OverlapsInfrastructure
              else None))"

definition canonical_ip_or_network :: "string option \<Rightarrow> string option" where
  "canonical_ip_or_network raw =
     (case parse_ip_network raw of
        None \<Rightarrow> None
      | Some net \<Rightarrow>
          (if net_prefix net = net_width net then Some (show_addr (net_addr net))
           else Some (show_net net)))"

lemmas cidr_defs [py_defs] =
  v4_network_def v4_cidr_def default_trusted_proxy_cidrs_def default_rfc1918_cidrs_def
  infra_hop_networks_def infra_hop_networks_all_def waf_acl_min_prefix_def parse_ip_network_def
  waf_acl_entry_problem_def canonical_ip_or_network_def

section \<open>Networks as intervals\<close>

text \<open>
  A network is well formed when its prefix fits its version and its address is a multiple of the
  block size; every network \<open>ip_network\<close> returns is, and membership is then an interval test.
\<close>

definition wf_addr :: "ip_addr \<Rightarrow> bool" where
  "wf_addr a \<longleftrightarrow> 0 \<le> ip_val a \<and> ip_val a < 2 ^ nat (ip_width a)"

definition block :: "ip_net \<Rightarrow> int" where
  "block n = 2 ^ nat (net_width n - net_prefix n)"

definition wf_net :: "ip_net \<Rightarrow> bool" where
  "wf_net n \<longleftrightarrow> 0 \<le> net_prefix n \<and> net_prefix n \<le> net_width n \<and> ip_val (net_addr n) mod block n = 0"

lemma block_pos [simp]: "0 < block n"
  by (simp add: block_def)

lemma mask_val_iff:
  assumes "0 < (m::int)"
  shows "x div m * m = b \<longleftrightarrow> b mod m = 0 \<and> b \<le> x \<and> x < b + m"
proof
  assume "x div m * m = b"
  moreover have "x = x div m * m + x mod m" by simp
  moreover have "0 \<le> x mod m" "x mod m < m" using assms by simp_all
  ultimately show "b mod m = 0 \<and> b \<le> x \<and> x < b + m" by auto
next
  assume a: "b mod m = 0 \<and> b \<le> x \<and> x < b + m"
  then obtain k where k: "b = m * k" by (auto simp: mod_0_imp_dvd elim: dvdE)
  have "(x - b) div m = 0" using a by (simp add: div_pos_pos_trivial)
  then have "x div m = k"
    using k assms by (metis add.commute diff_add_cancel div_mult_self4 less_irrefl add_0)
  with k show "x div m * m = b" by (simp add: mult.commute)
qed

lemma in_net_iff:
  assumes "wf_net n"
  shows "in_net a n \<longleftrightarrow> ip_version a = net_version n \<and>
    ip_val (net_addr n) \<le> ip_val a \<and> ip_val a < ip_val (net_addr n) + block n"
  using assms mask_val_iff [OF block_pos [of n], of "ip_val a" "ip_val (net_addr n)"]
  by (auto simp: in_net_def mask_val_def wf_net_def block_def)

lemma broadcast_val: "ip_val (broadcast n) = ip_val (net_addr n) + block n - 1"
  by (simp add: broadcast_def block_def Let_def split: ip_addr.split)

lemma broadcast_version [simp]: "ip_version (broadcast n) = net_version n"
  by (simp add: broadcast_def net_version_def Let_def split: ip_addr.split)

lemma overlaps_iff:
  assumes n: "wf_net n" and m: "wf_net m" and v: "net_version n = net_version m"
  shows "overlaps n m \<longleftrightarrow> (\<exists>a. in_net a n \<and> in_net a m)"
proof
  assume "overlaps n m"
  moreover have "in_net (net_addr n) n" "in_net (net_addr m) m"
    using n m by (simp_all add: in_net_iff net_version_def)
  moreover have "in_net (broadcast n) n" "in_net (broadcast m) m"
    using n m block_pos [of n] block_pos [of m] by (simp_all add: in_net_iff broadcast_val)
  ultimately show "\<exists>a. in_net a n \<and> in_net a m"
    unfolding overlaps_def by blast
next
  assume "\<exists>a. in_net a n \<and> in_net a m"
  then obtain a where "in_net a n" "in_net a m" by blast
  then have "ip_val (net_addr n) < ip_val (net_addr m) + block m"
    and "ip_val (net_addr m) < ip_val (net_addr n) + block n"
    using n m by (simp_all add: in_net_iff)
  then show "overlaps n m"
    using n m v block_pos [of n] block_pos [of m]
    by (auto simp: overlaps_def in_net_iff broadcast_val net_version_def)
qed

lemma wf_make_net: "ip_width a = w \<Longrightarrow> 0 \<le> p \<and> p \<le> w \<Longrightarrow> wf_net (make_net a p)"
  by (cases a) (auto simp: wf_net_def make_net_def mask_val_def block_def net_width_def)

lemma dec_value_nonneg: "list_all is_digit s \<Longrightarrow> 0 \<le> dec_value s"
  by (induction s rule: rev_induct) (auto simp: is_digit_def, simp add: dec_value_def)

lemma parse_prefix_bounds: "parse_prefix w s = Some p \<Longrightarrow> 0 \<le> p \<and> p \<le> w"
  by (auto simp: parse_prefix_def dec_value_nonneg split: if_splits)

lemma low_zeros_le: "low_zeros n x \<le> n"
  by (induction n arbitrary: x) auto

lemma prefix_of_mask_bounds: "prefix_of_mask x = Some p \<Longrightarrow> 0 \<le> p \<and> p \<le> 32"
  by (auto simp: prefix_of_mask_def Let_def split: if_splits)

lemma v4_prefix_bounds: "v4_prefix s = Some p \<Longrightarrow> 0 \<le> p \<and> p \<le> 32"
  by (auto simp: v4_prefix_def prefix_of_dotted_def dest: parse_prefix_bounds prefix_of_mask_bounds
      split: option.splits)

lemma ipv4_address_width: "ipv4_address s = Some a \<Longrightarrow> ip_width a = 32"
  by (auto simp: ipv4_address_def split: if_splits)

lemma ipv6_address_width: "ipv6_address s = Some a \<Longrightarrow> ip_width a = 128"
  by (auto simp: ipv6_address_def split: if_splits option.splits)

lemma ip_network_wf:
  assumes "ip_network s = Some n"
  shows "wf_net n"
proof -
  consider "ipv4_network (split_on (CHR ''/'') s) = Some n"
    | "ipv6_network (split_on (CHR ''/'') s) = Some n"
    using assms by (auto simp: ip_network_def split: option.splits)
  then show ?thesis
  proof cases
    case 1
    then show ?thesis
      by (auto simp: ipv4_network_def split: list.splits option.splits
          intro: wf_make_net [OF ipv4_address_width] wf_make_net [OF ipv4_address_width v4_prefix_bounds])
  next
    case 2
    then show ?thesis
      by (auto simp: ipv6_network_def split: list.splits option.splits
          intro: wf_make_net [OF ipv6_address_width] wf_make_net [OF ipv6_address_width parse_prefix_bounds])
  qed
qed

lemma parse_ip_network_wf: "parse_ip_network raw = Some n \<Longrightarrow> wf_net n"
  by (auto simp: parse_ip_network_def Let_def split: if_splits dest: ip_network_wf)

lemma infra_networks_wf: "m \<in> set infra_hop_networks_all \<Longrightarrow> wf_net m"
  by (auto simp: infra_hop_networks_all_def infra_hop_networks_def v4_network_def wf_net_def
      block_def net_width_def)

section \<open>Printing and parsing\<close>

lemma digits_not_sep:
  assumes "list_all is_digit w"
  shows "CHR ''.'' \<notin> set w" and "CHR ''/'' \<notin> set w"
proof -
  have "\<not> is_digit CHR ''.''" "\<not> is_digit CHR ''/''" by (simp_all add: is_digit_def)
  with assms show "CHR ''.'' \<notin> set w" "CHR ''/'' \<notin> set w" by (auto simp: list_all_iff)
qed

lemma show_digits: "0 \<le> n \<Longrightarrow> list_all is_digit (show_int n)"
  by (auto simp: show_int_nonneg list_all_iff intro: show_base_digits)

lemma parse_octet_show:
  assumes "0 \<le> n" and "n < 256"
  shows "parse_octet (show_int n) = Some n"
proof -
  have "show_int n \<noteq> ''0'' \<and> hd (show_int n) = CHR ''0'' \<longrightarrow> False"
  proof (cases "n = 0")
    case True
    then show ?thesis by (simp add: show_int_def show_base.simps)
  next
    case False
    with assms hd_show_base [of n] show ?thesis by (simp add: show_int_nonneg)
  qed
  with assms show ?thesis
    using show_digits [of n] length_show_base [of n]
    by (simp add: parse_octet_def show_int_nonneg dec_value_show) linarith?
qed

lemma ipv4_int_show:
  assumes "0 \<le> x" and "x < 2 ^ 32"
  shows "ipv4_int (show_ipv4 x) = Some x"
proof -
  let ?ws = "[show_int (x div 16777216), show_int (x div 65536 mod 256), show_int (x div 256 mod 256),
      show_int (x mod 256)]"
  have oct: "0 \<le> x div 16777216" "x div 16777216 < 256" using assms by simp_all
  have digs: "list_all is_digit w" if "w \<in> set ?ws" for w
    using that oct by (auto intro: show_digits)
  have "split_on (CHR ''.'') (join_with ''.'' ?ws) = ?ws"
  proof (rule split_on_join)
    show "CHR ''.'' \<notin> set w" if "w \<in> set ?ws" for w
      using digs [OF that] by (rule digits_not_sep(1))
  qed simp
  moreover have "map parse_octet ?ws = [Some (x div 16777216), Some (x div 65536 mod 256),
      Some (x div 256 mod 256), Some (x mod 256)]"
    using oct by (simp add: parse_octet_show)
  ultimately have "ipv4_int (show_ipv4 x) =
      Some (((x div 16777216 * 256 + x div 65536 mod 256) * 256 + x div 256 mod 256) * 256 + x mod 256)"
    by (simp only: ipv4_int_def show_ipv4_def list.case option.case)
  moreover have "((x div 16777216 * 256 + x div 65536 mod 256) * 256 + x div 256 mod 256) * 256 + x mod 256 = x"
  proof -
    have "x div 65536 = x div 256 div 256" "x div 16777216 = x div 256 div 256 div 256"
      by (simp_all add: zdiv_zmult2_eq [symmetric])
    then show ?thesis by (simp only: div_mult_mod_eq)
  qed
  ultimately show ?thesis by (simp only:)
qed

lemma show_ipv4_chars: "0 \<le> x \<Longrightarrow> c \<in> set (show_ipv4 x) \<Longrightarrow> is_digit c \<or> c = CHR ''.''"
  using show_digits [of "x div 16777216"] show_digits [of "x div 65536 mod 256"]
    show_digits [of "x div 256 mod 256"] show_digits [of "x mod 256"]
  by (auto simp: show_ipv4_def list_all_iff)

lemma plain_text:
  assumes "\<And>c. c \<in> set s \<Longrightarrow> is_digit c \<or> c = CHR ''.'' \<or> c = CHR ''/''"
  shows "strip s = s" and "is_ascii s"
proof -
  have sep: "\<not> is_space CHR ''.''" "\<not> is_space CHR ''/''" by (simp_all add: is_space_def)
  have dig: "\<not> is_space c" if "is_digit c" for c using that by (auto simp: is_digit_def is_space_def)
  show "strip s = s" by (rule strip_no_space) (use assms sep dig in blast)
  have "cp c < 128" if "is_digit c \<or> c = CHR ''.'' \<or> c = CHR ''/''" for c
    using that by (auto simp: is_digit_def)
  with assms show "is_ascii s" by (auto simp: is_ascii_def list_all_iff)
qed

lemma net4_masked:
  assumes "wf_net n" and "net_addr n = IPv4 x"
  shows "make_net (IPv4 x) (net_prefix n) = n"
proof -
  have "x mod 2 ^ nat (32 - net_prefix n) = 0"
    using assms by (simp add: wf_net_def block_def net_width_def)
  then have "mask_val 32 (net_prefix n) x = x"
    unfolding mask_val_def by (metis add.right_neutral div_mult_mod_eq)
  with assms(2) show ?thesis by (cases n) (simp add: make_net_def)
qed

lemma ip_network_show_net4:
  assumes "wf_net n" and "net_addr n = IPv4 x" and "0 \<le> x" and "x < 2 ^ 32"
  shows "ip_network (show_net n) = Some n"
    and "net_prefix n = 32 \<Longrightarrow> ip_network (show_ipv4 x) = Some n"
proof -
  have p: "0 \<le> net_prefix n" "net_prefix n \<le> 32"
    using assms by (simp_all add: wf_net_def net_width_def)
  have no_slash: "CHR ''/'' \<notin> set (show_ipv4 x)"
    using show_ipv4_chars [of x "CHR ''/''"] assms(3) by (auto simp: is_digit_def)
  have addr: "ipv4_address (show_ipv4 x) = Some (IPv4 x)"
    using no_slash assms by (simp add: ipv4_address_def ipv4_int_show)
  have "split_on (CHR ''/'') (show_net n) = [show_ipv4 x, show_int (net_prefix n)]"
    using no_slash digits_not_sep(2) [OF show_digits [OF p(1)]] assms(2)
    by (simp add: show_net_def split_on_append split_on_no_occ)
  moreover have "v4_prefix (show_int (net_prefix n)) = Some (net_prefix n)"
    using p show_digits [OF p(1)] by (simp add: v4_prefix_def parse_prefix_def show_int_nonneg dec_value_show)
  ultimately show "ip_network (show_net n) = Some n"
    using addr net4_masked [OF assms(1,2)] by (simp add: ip_network_def ipv4_network_def)
  show "ip_network (show_ipv4 x) = Some n" if "net_prefix n = 32"
    using that addr no_slash net4_masked [OF assms(1,2)]
    by (simp add: ip_network_def ipv4_network_def split_on_no_occ)
qed

lemma ipv4_int_bounds:
  assumes "ipv4_int s = Some x"
  shows "0 \<le> x \<and> x < 2 ^ 32"
proof -
  have oct: "0 \<le> v \<and> v \<le> 255" if "parse_octet w = Some v" for w v
    using that by (auto simp: parse_octet_def dec_value_nonneg split: if_splits)
  from assms obtain a b c d where
    "map parse_octet (split_on (CHR ''.'') s) = [Some a, Some b, Some c, Some d]"
    and x: "x = ((a * 256 + b) * 256 + c) * 256 + d"
    by (auto simp: ipv4_int_def split: list.splits option.splits)
  then have "0 \<le> a \<and> a \<le> 255" "0 \<le> b \<and> b \<le> 255" "0 \<le> c \<and> c \<le> 255" "0 \<le> d \<and> d \<le> 255"
    by (auto simp: map_eq_Cons_conv dest: oct)
  with x show ?thesis by simp
qed

lemma ip_network_v4_bounds:
  assumes "ip_network s = Some n" and "net_addr n = IPv4 x"
  shows "0 \<le> x \<and> x < 2 ^ 32"
proof -
  have six: "net_addr m \<noteq> IPv4 x" if "ipv6_network ps = Some m" for ps m
    using that by (auto simp: ipv6_network_def make_net_def ipv6_address_def
        split: list.splits option.splits if_splits)
  with assms have "ipv4_network (split_on (CHR ''/'') s) = Some n"
    by (auto simp: ip_network_def split: option.splits)
  then obtain w a p where "ipv4_address w = Some a" "n = make_net a p"
    by (auto simp: ipv4_network_def split: list.splits option.splits)
  with assms(2) obtain y where y: "ipv4_int w = Some y" "x = mask_val 32 p y"
    by (auto simp: ipv4_address_def make_net_def split: if_splits)
  have "y div 2 ^ k * 2 ^ k \<le> y" "0 \<le> y div 2 ^ k * 2 ^ k" if "0 \<le> y" for k
    using that by (simp_all add: minus_mod_eq_div_mult [symmetric] zmod_le_nonneg_dividend)
  with ipv4_int_bounds [OF y(1)] y(2) show ?thesis
    unfolding mask_val_def by (meson order.strict_trans1)
qed

section \<open>Properties of the ACL check\<close>

lemma acl_deny_spares:
  assumes "waf_acl_entry_problem raw True = None" and "m \<in> set infra_hop_networks_all"
  shows "\<exists>net. parse_ip_network raw = Some net \<and>
    waf_acl_min_prefix (net_version net) \<le> net_prefix net \<and>
    (\<forall>a. in_net a m \<longrightarrow> \<not> in_net a net)"
proof -
  obtain net where net: "parse_ip_network raw = Some net"
    using assms(1) by (auto simp: waf_acl_entry_problem_def split: option.splits)
  have pre: "waf_acl_min_prefix (net_version net) \<le> net_prefix net"
    and no: "net_version net = net_version m \<Longrightarrow> \<not> overlaps net m"
    using assms net by (auto simp: waf_acl_entry_problem_def Let_def list_ex_iff split: if_splits)
  have "\<not> in_net a net" if a: "in_net a m" for a
  proof
    assume b: "in_net a net"
    with a have "net_version net = net_version m" by (auto simp: in_net_def)
    with no overlaps_iff parse_ip_network_wf [OF net] infra_networks_wf [OF assms(2)] a b
    show False by blast
  qed
  with net pre show ?thesis by blast
qed

text \<open>An operand accepted for \<open>deny\<close> is a parsed network no broader than the minimum prefix of
  its version, and it contains no address of any infrastructure network (Docker, loopback).\<close>

theorem acl_deny_spares_infrastructure:
  assumes "waf_acl_entry_problem raw True = None" and "m \<in> set infra_hop_networks_all"
  shows "\<exists>net. parse_ip_network raw = Some net \<and>
    waf_acl_min_prefix (net_version net) \<le> net_prefix net \<and>
    (\<forall>a. in_net a m \<longrightarrow> \<not> in_net a net)"
  by (rule acl_deny_spares [OF assms])

theorem acl_deny_spares_infrastructure_witness:
  "\<exists>net. parse_ip_network (Some ''203.0.113.77/24'') = Some net \<and>
    waf_acl_min_prefix (net_version net) \<le> net_prefix net \<and>
    (\<forall>a. in_net a (v4_network 0x7F000000 8) \<longrightarrow> \<not> in_net a net)"
proof (rule acl_deny_spares_infrastructure)
  show "waf_acl_entry_problem (Some ''203.0.113.77/24'') True = None" by code_simp
  show "v4_network 0x7F000000 8 \<in> set infra_hop_networks_all" by code_simp
qed

text \<open>The canonical text of an IPv4 address or network parses back to the same network and is
  its own canonical text, whatever spelling (host bits, dotted netmask, hostmask) it came from.\<close>

theorem canonical_v4_roundtrip:
  assumes "parse_ip_network raw = Some net" and "net_version net = 4"
  shows "\<exists>t. canonical_ip_or_network raw = Some t \<and> parse_ip_network (Some t) = Some net \<and>
    canonical_ip_or_network (Some t) = Some t"
proof -
  obtain x where x: "net_addr net = IPv4 x"
    using assms(2) by (cases "net_addr net") (auto simp: net_version_def)
  have wf: "wf_net net" using assms(1) by (rule parse_ip_network_wf)
  have bounds: "0 \<le> x" "x < 2 ^ 32"
    using assms(1) x ip_network_v4_bounds
    by (auto simp: parse_ip_network_def Let_def split: if_splits)
  let ?t = "if net_prefix net = 32 then show_ipv4 x else show_net net"
  have t: "canonical_ip_or_network (Some u) = Some ?t" if "parse_ip_network (Some u) = Some net" for u
    using that x by (simp add: canonical_ip_or_network_def net_width_def)
  have chars: "is_digit c \<or> c = CHR ''.'' \<or> c = CHR ''/''" if "c \<in> set ?t" for c
    using that show_ipv4_chars [OF bounds(1)] show_digits [of "net_prefix net"] wf x
    by (auto simp: show_net_def wf_net_def list_all_iff split: if_splits)
  have "ip_network ?t = Some net"
    using ip_network_show_net4 [OF wf x bounds] by simp
  moreover have "?t \<noteq> []" by (auto simp: show_net_def show_ipv4_def)
  ultimately have "parse_ip_network (Some ?t) = Some net"
    using plain_text [of ?t, OF chars] by (simp add: parse_ip_network_def Let_def opt_str_def)
  moreover have "canonical_ip_or_network raw = Some ?t"
    using assms(1) x by (simp add: canonical_ip_or_network_def net_width_def)
  ultimately show ?thesis using t by blast
qed

theorem canonical_v4_roundtrip_witness:
  "\<exists>t. canonical_ip_or_network (Some '' 10.5.3.4/0.0.255.255'') = Some t \<and>
    parse_ip_network (Some t) = Some \<lparr>net_addr = IPv4 0x0A050000, net_prefix = 16\<rparr> \<and>
    canonical_ip_or_network (Some t) = Some t"
proof (rule canonical_v4_roundtrip)
  show "parse_ip_network (Some '' 10.5.3.4/0.0.255.255'') =
      Some \<lparr>net_addr = IPv4 0x0A050000, net_prefix = 16\<rparr>" by code_simp
  show "net_version \<lparr>net_addr = IPv4 0x0A050000, net_prefix = 16\<rparr> = 4" by code_simp
qed

lemma split_dot_v6:
  "\<exists>w ws. split_on CHR ''.'' (''2001:db8::1%'' @ sc) = (''2001:db8::1%'' @ w) # ws"
  by (cases "split_on CHR ''.'' sc") auto

text \<open>The check says nothing about the scope id of an IPv6 address. Any ASCII text without a
  percent sign or a slash passes it after \<open>2001:db8::1%\<close>, and is part of the canonical operand
  that is written to the nginx file; a semicolon there ends the directive.\<close>

theorem acl_scope_id_unchecked:
  assumes "sc \<noteq> []" and "\<not> is_space (last sc)" and "is_ascii sc"
    and "CHR ''%'' \<notin> set sc" and "CHR ''/'' \<notin> set sc"
  shows "waf_acl_entry_problem (Some (''2001:db8::1%'' @ sc)) deny = None \<and>
    canonical_ip_or_network (Some (''2001:db8::1%'' @ sc)) = Some (''2001:db8::1%'' @ sc)"
proof -
  let ?s = "''2001:db8::1%'' @ sc"
  let ?n = "\<lparr>net_addr = IPv6 0x20010db8000000000000000000000001 (Some sc), net_prefix = 128\<rparr>"
  have st: "strip ?s = ?s"
    using assms(1,2) by (simp add: strip_def lstrip_def rstrip_id is_space_def)
  have asc: "is_ascii ?s" using assms(3) by (simp add: is_ascii_def)
  have "ipv4_address ?s = None"
  proof -
    obtain w ws where "split_on CHR ''.'' ?s = (''2001:db8::1%'' @ w) # ws"
      using split_dot_v6 by blast
    then have "ipv4_int ?s = None"
      by (simp add: ipv4_int_def parse_octet_def is_digit_def del: split_on.simps)
    then show ?thesis by (simp add: ipv4_address_def)
  qed
  moreover have "ipv6_address ?s = Some (net_addr ?n)"
  proof -
    have "split_scope ?s = Some (''2001:db8::1'', Some sc)"
      using assms(1,4) by (simp add: split_scope_def)
    moreover have "ipv6_int ''2001:db8::1'' = Some 0x20010db8000000000000000000000001"
      by code_simp
    ultimately show ?thesis using assms(5) by (simp add: ipv6_address_def)
  qed
  moreover have "make_net (net_addr ?n) 128 = ?n"
    by (simp add: make_net_def mask_val_def)
  ultimately have "ip_network ?s = Some ?n"
    using assms(5) by (simp add: ip_network_def ipv4_network_def ipv6_network_def split_on_no_occ del: split_on.simps)
  then have p: "parse_ip_network (Some ?s) = Some ?n"
    using st asc by (simp add: parse_ip_network_def opt_str_def Let_def)
  have ok: "\<not> net_unspecified ?n" "\<not> net_multicast ?n"
    "\<not> list_ex (\<lambda>infra. net_version ?n = net_version infra \<and> overlaps ?n infra) infra_hop_networks_all"
    by (simp_all add: net_unspecified_def broadcast_def net_multicast_def addr_multicast_def in_net_def
        mask_val_def net_version_def net_width_def overlaps_def infra_hop_networks_all_def
        infra_hop_networks_def v4_network_def)
  have "show_ipv6 0x20010db8000000000000000000000001 = ''2001:db8::1''" by code_simp
  with p ok show ?thesis
    by (simp add: waf_acl_entry_problem_def canonical_ip_or_network_def net_width_def net_version_def
        waf_acl_min_prefix_def Let_def)
qed

theorem acl_scope_id_unchecked_witness:
  "waf_acl_entry_problem (Some (''2001:db8::1%'' @ ''a; deny all'')) True = None \<and>
   canonical_ip_or_network (Some (''2001:db8::1%'' @ ''a; deny all'')) =
     Some (''2001:db8::1%'' @ ''a; deny all'')"
  by (rule acl_scope_id_unchecked) code_simp+

end
