(* ===== verification/ClientIp.thy ===== *)
theory ClientIp
  imports IpCidrs
begin

text \<open>
  \<open>app/request_client_ip.py\<close>: which address a request is attributed to. Forwarded headers count
  only when the TCP peer is a configured proxy. A request is its header lookup (names are
  case-insensitive in Starlette, so a header is found by its canonical name) and its TCP peer; the
  settings are the values \<open>get_settings()\<close> gives, \<^const>\<open>None\<close> when the call raises.
\<close>

record request =
  rq_header :: "string \<Rightarrow> string option"
  rq_client :: "string option"

record net_settings =
  trusted_proxy_setting :: "string list option"
  is_test_setting :: "bool option"
  portal_environment :: string

definition header_or :: "request \<Rightarrow> string \<Rightarrow> string" where
  "header_or rq name = opt_str (rq_header rq name)"

section \<open>Infrastructure hops\<close>

definition is_infra_hop :: "string option \<Rightarrow> bool" where
  "is_infra_hop ip =
     (let text = strip (opt_str ip)
      in if text = [] then True
         else case ip_address text of
                None \<Rightarrow> True
              | Some addr \<Rightarrow> list_ex (in_net addr) infra_hop_networks)"

definition prefer_client_ip :: "string option \<Rightarrow> string option \<Rightarrow> string option" where
  "prefer_client_ip existing new =
     (let new = str_opt (strip (opt_str new)); existing = str_opt (strip (opt_str existing))
      in if new = None then existing
         else if existing = None then new
         else if is_infra_hop existing \<and> \<not> is_infra_hop new then new
         else existing)"

section \<open>Trusted peers\<close>

definition parse_cidrs :: "string list \<Rightarrow> ip_net list" where
  "parse_cidrs raw = List.map_filter (\<lambda>item. let text = strip item in
     if text = [] then None else ip_network text) raw"

definition trusted_proxy_networks :: "string \<Rightarrow> ip_net list" where
  "trusted_proxy_networks cidrs_key = parse_cidrs (filter (\<lambda>p. p \<noteq> []) (split_on (CHR ''|'') cidrs_key))"

definition trusted_proxy_cidrs :: "net_settings \<Rightarrow> string list" where
  "trusted_proxy_cidrs cfg =
     (case trusted_proxy_setting cfg of
        Some (c # cs) \<Rightarrow> c # cs
      | _ \<Rightarrow> default_trusted_proxy_cidrs)"

definition testclient_peer_trusted :: "net_settings \<Rightarrow> bool" where
  "testclient_peer_trusted cfg =
     (case is_test_setting cfg of
        Some b \<Rightarrow> b
      | None \<Rightarrow> lower (strip (portal_environment cfg)) \<in> {''test'', ''testing'', ''pytest''})"

definition is_trusted_proxy_peer :: "net_settings \<Rightarrow> string option \<Rightarrow> bool" where
  "is_trusted_proxy_peer cfg peer =
     (let p = strip (opt_str peer)
      in if p = [] then False
         else if p = ''testclient'' then testclient_peer_trusted cfg
         else case ip_address p of
                None \<Rightarrow> False
              | Some addr \<Rightarrow>
                  list_ex (in_net addr)
                    (trusted_proxy_networks (join_with ''|'' (trusted_proxy_cidrs cfg))))"

section \<open>Resolution\<close>

definition valid_ip :: "string \<Rightarrow> bool" where
  "valid_ip value = (ip_address (strip value) \<noteq> None)"

definition xff_client_candidates :: "string \<Rightarrow> string list" where
  "xff_client_candidates xff =
     List.map_filter (\<lambda>part. let ip = strip part in
        if ip \<noteq> [] \<and> valid_ip ip \<and> \<not> is_infra_hop (Some ip) then Some ip else None)
       (split_on (CHR '','') xff)"

definition resolve_ip_via_trusted_proxy :: "request \<Rightarrow> string" where
  "resolve_ip_via_trusted_proxy rq =
     (let x_real = strip (header_or rq ''X-Real-IP'')
      in if x_real \<noteq> [] \<and> valid_ip x_real \<and> \<not> is_infra_hop (Some x_real) then x_real
         else case xff_client_candidates (header_or rq ''X-Forwarded-For'') of
           ip # _ \<Rightarrow> ip
         | [] \<Rightarrow>
             (let portal = strip (header_or rq ''X-Portal-Client-IP'')
              in if portal \<noteq> [] \<and> valid_ip portal \<and> \<not> is_infra_hop (Some portal) then portal
                 else []))"

definition client_ip_from_request :: "net_settings \<Rightarrow> request \<Rightarrow> string" where
  "client_ip_from_request cfg rq =
     (let peer = opt_str (rq_client rq)
      in if \<not> is_trusted_proxy_peer cfg (Some peer) then peer
         else resolve_ip_via_trusted_proxy rq)"

record ip_probe =
  probe_x_real_ip :: "string option"
  probe_x_forwarded_for :: "string option"
  probe_x_portal_client_ip :: "string option"
  probe_request_client_host :: "string option"
  probe_peer_is_trusted_proxy :: bool
  probe_resolved :: "string option"
  probe_resolved_is_infra :: bool

definition client_ip_probe :: "net_settings \<Rightarrow> request \<Rightarrow> ip_probe" where
  "client_ip_probe cfg rq =
     (let resolved = client_ip_from_request cfg rq
      in \<lparr>probe_x_real_ip = str_opt (strip (header_or rq ''X-Real-IP'')),
          probe_x_forwarded_for = str_opt (strip (header_or rq ''X-Forwarded-For'')),
          probe_x_portal_client_ip = str_opt (strip (header_or rq ''X-Portal-Client-IP'')),
          probe_request_client_host = rq_client rq,
          probe_peer_is_trusted_proxy = is_trusted_proxy_peer cfg (rq_client rq),
          probe_resolved = str_opt resolved,
          probe_resolved_is_infra = is_infra_hop (Some resolved)\<rparr>)"

lemmas client_ip_defs [py_defs] =
  header_or_def is_infra_hop_def prefer_client_ip_def parse_cidrs_def trusted_proxy_networks_def
  trusted_proxy_cidrs_def testclient_peer_trusted_def is_trusted_proxy_peer_def valid_ip_def
  xff_client_candidates_def resolve_ip_via_trusted_proxy_def client_ip_from_request_def
  client_ip_probe_def

section \<open>What the resolution guarantees\<close>

definition eligible_client :: "string \<Rightarrow> bool" where
  \<comment> \<open>a stripped text that is a valid address outside the infrastructure networks\<close>
  "eligible_client ip \<longleftrightarrow> ip \<noteq> [] \<and> valid_ip ip \<and> \<not> is_infra_hop (Some ip)"

definition forwarded_candidates :: "request \<Rightarrow> string list" where
  \<comment> \<open>the places a client address may come from, in the order they are trusted\<close>
  "forwarded_candidates rq =
     map strip (header_or rq ''X-Real-IP'' #
       split_on (CHR '','') (header_or rq ''X-Forwarded-For'') @ [header_or rq ''X-Portal-Client-IP''])"

lemma xff_filter: "xff_client_candidates xff = filter eligible_client (map strip (split_on (CHR '','') xff))"
proof -
  have "List.map_filter (\<lambda>part. let ip = strip part in
      if ip \<noteq> [] \<and> valid_ip ip \<and> \<not> is_infra_hop (Some ip) then Some ip else None) ps =
    filter eligible_client (map strip ps)" for ps
    by (induction ps) (simp_all add: List.map_filter_simps eligible_client_def Let_def)
  then show ?thesis by (simp add: xff_client_candidates_def)
qed

lemma resolve_first_eligible_aux:
  "resolve_ip_via_trusted_proxy rq =
     (case filter eligible_client (forwarded_candidates rq) of [] \<Rightarrow> [] | ip # _ \<Rightarrow> ip)"
  by (auto simp: resolve_ip_via_trusted_proxy_def forwarded_candidates_def xff_filter
      eligible_client_def [symmetric] Let_def split: list.splits)

lemma resolve_eligible:
  "resolve_ip_via_trusted_proxy rq = [] \<or> eligible_client (resolve_ip_via_trusted_proxy rq)"
proof (cases "filter eligible_client (forwarded_candidates rq)")
  case Nil
  then show ?thesis by (simp add: resolve_first_eligible_aux)
next
  case (Cons ip ips)
  then have "eligible_client ip" by (auto dest: filter_eq_ConsD)
  with Cons show ?thesis by (simp add: resolve_first_eligible_aux)
qed

text \<open>Forwarded headers of an untrusted peer are ignored. The address is the TCP peer, whatever
  the headers say; behind a trusted peer it is the first eligible address (valid and outside the
  infrastructure networks) among \<open>X-Real-IP\<close>, the entries of \<open>X-Forwarded-For\<close> from left to right
  and \<open>X-Portal-Client-IP\<close>, and empty when there is none.\<close>

theorem client_ip_spec:
  "client_ip_from_request cfg rq =
     (if is_trusted_proxy_peer cfg (rq_client rq)
      then (case filter eligible_client (forwarded_candidates rq) of [] \<Rightarrow> [] | ip # _ \<Rightarrow> ip)
      else opt_str (rq_client rq))"
proof -
  have "is_trusted_proxy_peer cfg (Some (opt_str v)) = is_trusted_proxy_peer cfg v" for v
    by (simp add: is_trusted_proxy_peer_def opt_str_def split: option.split)
  then show ?thesis
    by (simp add: client_ip_from_request_def resolve_first_eligible_aux Let_def)
qed

text \<open>Merging observed addresses never loses a real client: once the kept address is an eligible
  client it stays, an infrastructure hop is kept only while nothing better was seen, and the
  result is one of the two inputs.\<close>

theorem prefer_client_ip_keeps_client:
  fixes e n :: "string option"
  defines "r \<equiv> prefer_client_ip e n"
  shows "(\<not> is_infra_hop e \<longrightarrow> r = str_opt (strip (opt_str e))) \<and>
    (\<not> is_infra_hop n \<longrightarrow> \<not> is_infra_hop r) \<and>
    (r = str_opt (strip (opt_str e)) \<or> r = str_opt (strip (opt_str n))) \<and>
    prefer_client_ip r n = r"
proof -
  have blank: "is_infra_hop v" if "str_opt (strip (opt_str v)) = None" for v
    using that by (simp add: is_infra_hop_def str_opt_def split: if_splits)
  have strip_hop: "is_infra_hop (str_opt (strip (opt_str v))) = is_infra_hop v" for v
    by (simp add: is_infra_hop_def)
  show ?thesis
    using blank strip_hop
    by (auto simp: r_def prefer_client_ip_def Let_def)
qed

theorem prefer_client_ip_keeps_client_witness:
  "\<not> is_infra_hop (prefer_client_ip (Some ''10.5.0.9'') (Some '' 198.51.100.7'')) \<and>
   prefer_client_ip (Some ''192.0.2.1'') (Some ''198.51.100.7'') = Some ''192.0.2.1''"
proof
  have "\<not> is_infra_hop (Some '' 198.51.100.7'')" by code_simp
  then show "\<not> is_infra_hop (prefer_client_ip (Some ''10.5.0.9'') (Some '' 198.51.100.7''))"
    using prefer_client_ip_keeps_client [of "Some ''10.5.0.9''" "Some '' 198.51.100.7''"] by blast
  have "\<not> is_infra_hop (Some ''192.0.2.1'')" by code_simp
  then have "prefer_client_ip (Some ''192.0.2.1'') (Some ''198.51.100.7'') =
      str_opt (strip (opt_str (Some ''192.0.2.1'')))"
    using prefer_client_ip_keeps_client [of "Some ''192.0.2.1''" "Some ''198.51.100.7''"] by blast
  also have "\<dots> = Some ''192.0.2.1''" by code_simp
  finally show "prefer_client_ip (Some ''192.0.2.1'') (Some ''198.51.100.7'') = Some ''192.0.2.1''" .
qed

end
