(* ===== verification/BanStore.thy ===== *)
theory BanStore
  imports AuditLog ClientIp
begin

text \<open>
  The state of the anti-abuse engine (\<open>app/security/banning\<close>): the five tables of \<open>app/models.py\<close>
  it reads and writes, and the process-local counter of open requests. A table is the list of its
  rows in insertion order. The rate events (and the audit rows) live in the hot store, which may
  be down; the other tables live in the configuration database.

  The configuration of a rule (\<open>config_json\<close>) is the record of the keys the engine reads, each
  with the type the admin form and the defaults write. All writes of one operation are visible at
  once: the session is one, and every operation ends with a commit. The one place where a rollback
  after a failed audit write loses a pending change (\<open>lift_expired_bans\<close>) is modelled there.
\<close>

section \<open>Rows\<close>

record rule_config =
  cfg_usernames :: "string list option"
  cfg_ban_username :: "bool option"
  cfg_ttl_ladder :: "int list option"
  cfg_permanent_after :: "int option"

record ban_rule =
  ru_type :: string
  ru_enabled :: bool
  ru_threshold :: int
  ru_window :: int
  ru_ban_minutes :: int
  ru_permanent :: bool
  ru_config :: "rule_config option"
  ru_updated_at :: int

record policy =
  po_enabled :: bool
  po_allow_cidrs :: string
  po_deny_cidrs :: string
  po_updated_at :: int
  po_updated_by :: "string option"

record ban =
  b_id :: int
  b_type :: string
  b_target :: string
  b_reason :: string
  b_rule :: "string option"
  b_at :: int
  b_expires :: "int option"
  b_permanent :: bool
  b_lifted :: "int option"
  b_lifted_by :: "string option"
  b_by :: string

record allow_entry =
  al_id :: int
  al_type :: string
  al_value :: string
  al_comment :: "string option"
  al_at :: int
  al_by :: string

record rate_event =
  ev_kind :: string
  ev_key :: string
  ev_at :: int

record sec_db = core_db +
  policy :: "policy option"
  rules :: "ban_rule list"
  bans :: "ban list"
  next_ban :: int
  allowlist :: "allow_entry list"
  next_allow :: int
  rate_events :: "rate_event list"
  concurrent :: "string \<Rightarrow> int"  \<comment> \<open>open requests per address, 0 when absent\<close>

type_synonym 'a db = "'a sec_db_scheme"

datatype db_error = SqlError  \<comment> \<open>\<open>SQLAlchemyError\<close>\<close>

definition seconds :: "int \<Rightarrow> int" where
  "seconds n = n * 1000000"

definition minutes :: "int \<Rightarrow> int" where
  "minutes n = seconds (n * 60)"

lemma log_action_sec [frame, simp]:
  "policy (log_action a b c d i db) = policy db"
  "rules (log_action a b c d i db) = rules db"
  "bans (log_action a b c d i db) = bans db"
  "next_ban (log_action a b c d i db) = next_ban db"
  "allowlist (log_action a b c d i db) = allowlist db"
  "next_allow (log_action a b c d i db) = next_allow db"
  "rate_events (log_action a b c d i db) = rate_events db"
  "concurrent (log_action a b c d i db) = concurrent db"
  by (simp_all add: log_action_def split: prod.split)

section \<open>The interface of the rate-event store\<close>

text \<open>
  What the sliding-window counters need from the table of rate events: adding an event, deleting
  the events of one key older than a cutoff, counting the events of one key since a cutoff. The
  laws are those of a multiset of timestamps per key; the counting lemmas of the engine are proved
  from them.
\<close>

locale rate_store =
  fixes times :: "'t \<Rightarrow> 'k \<Rightarrow> int list"
    and add :: "'k \<Rightarrow> int \<Rightarrow> 't \<Rightarrow> 't"
    and prune :: "'k \<Rightarrow> int \<Rightarrow> 't \<Rightarrow> 't"
    and count_since :: "'k \<Rightarrow> int \<Rightarrow> 't \<Rightarrow> nat"
  assumes times_add: "times (add k x t) k' = (if k' = k then times t k @ [x] else times t k')"
    and times_prune: "times (prune k c t) k' = (if k' = k then filter (\<lambda>x. c \<le> x) (times t k) else times t k')"
    and count_since: "count_since k c t = length (filter (\<lambda>x. c \<le> x) (times t k))"
begin

definition hit :: "'k \<Rightarrow> int \<Rightarrow> int \<Rightarrow> 't \<Rightarrow> 't" where
  \<comment> \<open>one counted event at time \<open>now\<close> for a window that starts at \<open>cutoff\<close>\<close>
  "hit k cutoff now t = add k now (prune k cutoff t)"

lemma times_hit:
  "times (hit k cutoff now t) k' =
     (if k' = k then filter (\<lambda>x. cutoff \<le> x) (times t k) @ [now] else times t k')"
  by (simp add: hit_def times_add times_prune)

lemma count_hit:
  "cutoff \<le> now \<Longrightarrow> count_since k cutoff (hit k cutoff now t) = Suc (count_since k cutoff t)"
  by (simp add: count_since times_hit)

lemma count_hit_other: "k' \<noteq> k \<Longrightarrow> count_since k' c (hit k cutoff now t) = count_since k' c t"
  by (simp add: count_since times_hit)

lemma hit_window: "x \<in> set (times (hit k cutoff now t) k) \<Longrightarrow> cutoff \<le> now \<Longrightarrow> cutoff \<le> x"
  by (auto simp: times_hit)

lemma hits_at_one_time:
  assumes "cutoff \<le> now"
  shows "count_since k cutoff ((hit k cutoff now ^^ n) t) = n + count_since k cutoff t"
  using assms by (induction n) (simp_all add: count_hit)

lemma count_since_mono: "c \<le> c' \<Longrightarrow> count_since k c' t \<le> count_since k c t"
  unfolding count_since by (intro length_filter_mono) auto

end

text \<open>The table of the program: the rows of one kind and key, in insertion order.\<close>

definition event_times :: "rate_event list \<Rightarrow> string \<times> string \<Rightarrow> int list" where
  "event_times es k = map ev_at (filter (\<lambda>e. (ev_kind e, ev_key e) = k) es)"

definition add_event :: "string \<times> string \<Rightarrow> int \<Rightarrow> rate_event list \<Rightarrow> rate_event list" where
  "add_event k x es = es @ [\<lparr>ev_kind = fst k, ev_key = snd k, ev_at = x\<rparr>]"

definition prune_events :: "string \<times> string \<Rightarrow> int \<Rightarrow> rate_event list \<Rightarrow> rate_event list" where
  "prune_events k c es = filter (\<lambda>e. \<not> ((ev_kind e, ev_key e) = k \<and> ev_at e < c)) es"

definition count_events :: "string \<times> string \<Rightarrow> int \<Rightarrow> rate_event list \<Rightarrow> nat" where
  "count_events k c es = length (filter (\<lambda>e. (ev_kind e, ev_key e) = k \<and> c \<le> ev_at e) es)"

lemma event_times_prune:
  "event_times (prune_events k c es) k' =
     (if k' = k then filter (\<lambda>x. c \<le> x) (event_times es k) else event_times es k')"
  by (induction es) (auto simp: event_times_def prune_events_def)

lemma count_events_times: "count_events k c es = length (filter (\<lambda>x. c \<le> x) (event_times es k))"
  by (induction es) (auto simp: count_events_def event_times_def)

interpretation rates: rate_store event_times add_event prune_events count_events
proof
  show "event_times (add_event k x t) k' = (if k' = k then event_times t k @ [x] else event_times t k')"
    for k k' x t by (auto simp: event_times_def add_event_def)
qed (simp_all add: event_times_prune count_events_times)

section \<open>Bans keyed by their id\<close>

definition find_ban :: "ban list \<Rightarrow> int \<Rightarrow> ban option" where
  "find_ban bs i = first_row (\<lambda>b. b_id b = i) bs"

definition put_ban :: "ban list \<Rightarrow> int \<Rightarrow> ban \<Rightarrow> ban list" where
  "put_ban bs i b' = update_rows (\<lambda>b. b_id b = i) (\<lambda>_. b') bs"

interpretation ban_table: keyed_table find_ban put_ban b_id
proof
  show "b_id b = i" if "find_ban bs i = Some b" for bs i b
    using first_row_Some that unfolding find_ban_def by fast
  show "find_ban (put_ban bs i b') i = Some b'" if "find_ban bs i = Some b" "b_id b' = i" for bs i b b'
    using that by (induction bs) (auto simp: find_ban_def put_ban_def update_rows_def first_row_cases split: if_splits)
  show "find_ban (put_ban bs i b') j = find_ban bs j" if "i \<noteq> j" "b_id b' = i" for bs i j b'
    using that by (induction bs) (auto simp: find_ban_def put_ban_def update_rows_def first_row_cases)
qed

end
