(* ===== verification/BanRules.thy ===== *)
theory BanRules
  imports BanStore
begin

text \<open>
  The configuration side of \<open>app/security/banning/engine.py\<close>: the shipped rules and the policy row
  with their lazy creation, which paths are sensitive or login paths, the allow list, and the
  network gate of the break-glass account, which also exempts those networks from automatic bans.
\<close>

section \<open>Rules and defaults\<close>

abbreviation "rule_hammering \<equiv> ''hammering''"
abbreviation "rule_hammering_login \<equiv> ''hammering_login''"
abbreviation "rule_failed_login \<equiv> ''failed_login''"
abbreviation "rule_successful_login \<equiv> ''successful_login''"
abbreviation "rule_hack_username \<equiv> ''hack_username''"
abbreviation "rule_concurrent \<equiv> ''concurrent_connections''"
abbreviation "rule_rate_limit \<equiv> ''rate_limit''"
abbreviation "rule_rate_limit_login \<equiv> ''rate_limit_login''"
abbreviation "rule_unknown_host \<equiv> ''unknown_host_hammering''"
abbreviation "rule_nginx_limit_req \<equiv> ''nginx_limit_req''"

abbreviation "target_ip \<equiv> ''ip''"
abbreviation "target_username \<equiv> ''username''"

definition nginx_limit_ttl_ladder :: "int list" where
  "nginx_limit_ttl_ladder = [15, 120]"

definition no_config :: rule_config where
  "no_config = \<lparr>cfg_usernames = None, cfg_ban_username = None, cfg_ttl_ladder = None, cfg_permanent_after = None\<rparr>"

definition default_rule ::
  "string \<Rightarrow> bool \<Rightarrow> int \<Rightarrow> int \<Rightarrow> int \<Rightarrow> rule_config option \<Rightarrow> int \<Rightarrow> ban_rule" where
  "default_rule t enabled threshold window ban_mins cfg now =
     \<lparr>ru_type = t, ru_enabled = enabled, ru_threshold = threshold, ru_window = window,
      ru_ban_minutes = ban_mins, ru_permanent = False, ru_config = cfg, ru_updated_at = now\<rparr>"

definition default_rules :: "int \<Rightarrow> ban_rule list" where
  "default_rules now =
     [default_rule rule_hammering True 100 100 60 None now,
      default_rule rule_hammering_login True 30 60 60 None now,
      default_rule rule_failed_login True 15 300 30 (Some (no_config\<lparr>cfg_ban_username := Some True\<rparr>)) now,
      default_rule rule_successful_login True 20 300 30 None now,
      default_rule rule_hack_username True 1 0 1440
        (Some (no_config\<lparr>cfg_usernames := Some [''administrator'', ''root'']\<rparr>)) now,
      default_rule rule_concurrent True 0 0 0 None now,
      default_rule rule_rate_limit False 120 60 0 None now,
      default_rule rule_rate_limit_login False 20 60 0 None now,
      default_rule rule_unknown_host True 50 300 1440 None now,
      default_rule rule_nginx_limit_req True 30 60 15
        (Some (no_config\<lparr>cfg_ttl_ladder := Some nginx_limit_ttl_ladder, cfg_permanent_after := Some 3\<rparr>)) now]"

definition default_policy :: "int \<Rightarrow> policy" where
  "default_policy now = \<lparr>po_enabled = True, po_allow_cidrs = [], po_deny_cidrs = [],
     po_updated_at = now, po_updated_by = None\<rparr>"

definition ensure_security_defaults :: "'a db \<Rightarrow> 'a db" where
  "ensure_security_defaults db =
     db\<lparr>policy := (case policy db of None \<Rightarrow> Some (default_policy (clock db)) | Some p \<Rightarrow> Some p),
        rules := rules db @
          filter (\<lambda>r. ru_type r \<notin> set (map ru_type (rules db))) (default_rules (clock db))\<rparr>"

definition policy_of :: "'a db \<Rightarrow> policy" where
  "policy_of db = (case policy db of None \<Rightarrow> default_policy (clock db) | Some p \<Rightarrow> p)"

definition get_policy :: "'a db \<Rightarrow> policy \<times> 'a db" where
  "get_policy db = (let db = ensure_security_defaults db in (policy_of db, db))"

definition rule_of :: "string \<Rightarrow> 'a db \<Rightarrow> ban_rule option" where
  "rule_of t db = first_row (\<lambda>r. ru_type r = t) (rules db)"

definition get_rule :: "string \<Rightarrow> 'a db \<Rightarrow> ban_rule option \<times> 'a db" where
  "get_rule t db = (let db = ensure_security_defaults db in (rule_of t db, db))"

definition rule_active :: "ban_rule option \<Rightarrow> bool" where
  \<comment> \<open>the guard \<open>not rule or not rule.enabled or int(rule.threshold or 0) <= 0\<close>, negated\<close>
  "rule_active r = (case r of None \<Rightarrow> False | Some x \<Rightarrow> ru_enabled x \<and> 0 < ru_threshold x)"

lemmas rules_defs [py_defs] =
  nginx_limit_ttl_ladder_def no_config_def default_rule_def default_rules_def default_policy_def
  ensure_security_defaults_def policy_of_def get_policy_def rule_of_def get_rule_def rule_active_def

text \<open>A database with the policy and every shipped rule in place: creating them changes nothing.\<close>

definition shipped_types :: "string list" where
  "shipped_types =
     [rule_hammering, rule_hammering_login, rule_failed_login, rule_successful_login,
      rule_hack_username, rule_concurrent, rule_rate_limit, rule_rate_limit_login,
      rule_unknown_host, rule_nginx_limit_req]"

lemma default_rule_types: "map ru_type (default_rules now) = shipped_types"
  by (simp add: default_rules_def default_rule_def shipped_types_def)

definition ready :: "'a db \<Rightarrow> bool" where
  "ready db \<longleftrightarrow> policy db \<noteq> None \<and> set shipped_types \<subseteq> ru_type ` set (rules db)"

lemma shipped_in_defaults: "t \<in> set shipped_types \<Longrightarrow> t \<in> ru_type ` set (default_rules now)"
  using default_rule_types [of now] by (metis set_map)

lemma defaults_in_shipped: "r \<in> set (default_rules now) \<Longrightarrow> ru_type r \<in> set shipped_types"
  using default_rule_types [of now] by (metis set_map image_eqI)

lemma ready_ensure: "ready (ensure_security_defaults db)"
proof -
  have "t \<in> ru_type ` set (rules (ensure_security_defaults db))" if "t \<in> set shipped_types" for t
    using shipped_in_defaults [OF that, of "clock db"]
    by (cases "t \<in> ru_type ` set (rules db)") (auto simp: ensure_security_defaults_def)
  then show ?thesis
    by (auto simp: ready_def ensure_security_defaults_def split: option.split)
qed

lemma ensure_ready: "ready db \<Longrightarrow> ensure_security_defaults db = db"
proof -
  assume r: "ready db"
  then have "filter (\<lambda>r. ru_type r \<notin> set (map ru_type (rules db))) (default_rules (clock db)) = []"
    using defaults_in_shipped by (fastforce simp: filter_empty_conv ready_def)
  with r show ?thesis
    by (auto simp: ensure_security_defaults_def ready_def)
qed

lemma ensure_idem [simp]:
  "ensure_security_defaults (ensure_security_defaults db) = ensure_security_defaults db"
  by (rule ensure_ready [OF ready_ensure])

lemma ensure_frame [frame, simp]:
  "clock (ensure_security_defaults db) = clock db"
  "hot_up (ensure_security_defaults db) = hot_up db"
  "audit (ensure_security_defaults db) = audit db"
  "bans (ensure_security_defaults db) = bans db"
  "next_ban (ensure_security_defaults db) = next_ban db"
  "allowlist (ensure_security_defaults db) = allowlist db"
  "next_allow (ensure_security_defaults db) = next_allow db"
  "rate_events (ensure_security_defaults db) = rate_events db"
  "concurrent (ensure_security_defaults db) = concurrent db"
  by (simp_all add: ensure_security_defaults_def)

lemma policy_of_ensure [simp]: "policy_of (ensure_security_defaults db) = policy_of db"
  by (simp add: policy_of_def ensure_security_defaults_def split: option.split)

lemma policy_of_cong: "policy db = policy db' \<Longrightarrow> clock db = clock db' \<Longrightarrow> policy_of db = policy_of db'"
  by (simp add: policy_of_def split: option.split)

lemma ready_cong: "policy db = policy db' \<Longrightarrow> rules db = rules db' \<Longrightarrow> ready db = ready db'"
  by (simp add: ready_def)

lemma rule_of_ready: "ready db \<Longrightarrow> t \<in> set shipped_types \<Longrightarrow> rule_of t db \<noteq> None"
  unfolding ready_def rule_of_def first_row_None by blast

lemma rule_of_ensure: "rule_of t db = Some r \<Longrightarrow> rule_of t (ensure_security_defaults db) = Some r"
  by (simp add: rule_of_def ensure_security_defaults_def first_row_append)

section \<open>Sensitive and login paths\<close>

definition sensitive_prefixes :: "string list" where
  "sensitive_prefixes = [''/login'', ''/auth/login'', ''/auth/breakglass'', ''/auth/passkey'',
     ''/auth/setup'', ''/auth/sso-start'', ''/auth/sso-failed'', ''/auth/access-request'',
     ''/auth/altcha/challenge'', ''/admin'', ''/api/admin'']"

definition login_paths :: "string list" where
  "login_paths = [''/login'', ''/auth/login'', ''/auth/breakglass'', ''/auth/passkey/options'',
     ''/auth/passkey/verify'', ''/auth/sso-start'', ''/auth/sso-failed'', ''/auth/access-request'',
     ''/auth/altcha/challenge'', ''/api/admin/breakglass/login'']"

definition is_sensitive_path :: "string \<Rightarrow> bool" where
  "is_sensitive_path path \<longleftrightarrow>
     list_ex (\<lambda>p. path = p \<or> starts_with (p @ ''/'') path \<or> starts_with (p @ ''?'') path) sensitive_prefixes
     \<or> rstrip_char (CHR ''/'') path \<in> set login_paths"

definition upper_ascii :: "string \<Rightarrow> string" where
  \<comment> \<open>\<open>upper()\<close>, exact for the comparison with an ASCII method name\<close>
  "upper_ascii s = map (\<lambda>c. if 97 \<le> cp c \<and> cp c \<le> 122 then char_of (cp c - 32) else c) s"

definition is_login_path :: "string \<Rightarrow> string \<Rightarrow> bool" where
  "is_login_path path meth =
     (let p = rstrip_char (CHR ''/'') path
      in if p \<in> {''/auth/sso-start'', ''/auth/sso-failed''} then True
         else if upper_ascii meth \<noteq> ''POST'' then False
         else p \<in> set login_paths \<or> starts_with ''/api/admin/breakglass/login'' p)"

lemmas path_defs [py_defs] =
  sensitive_prefixes_def login_paths_def is_sensitive_path_def upper_ascii_def is_login_path_def

section \<open>The allow list\<close>

definition normalize_username :: "string option \<Rightarrow> string" where
  "normalize_username username = lower (strip (opt_str username))"

definition ip_matches_allowlist_value :: "string \<Rightarrow> string \<Rightarrow> bool" where
  "ip_matches_allowlist_value ip value =
     (let val = strip value
      in if val = [] then False
         else if CHR ''/'' \<in> set val
         then (case (ip_address ip, ip_network val) of
                 (Some a, Some n) \<Rightarrow> in_net a n
               | _ \<Rightarrow> ip = val)
         else ip = val)"

definition ip_is_allowlisted :: "'a db \<Rightarrow> string \<Rightarrow> bool" where
  "ip_is_allowlisted db ip \<longleftrightarrow>
     list_ex (\<lambda>e. ip_matches_allowlist_value ip (al_value e))
       (filter (\<lambda>e. al_type e = target_ip) (allowlist db))"

definition username_is_allowlisted :: "'a db \<Rightarrow> string \<Rightarrow> bool" where
  "username_is_allowlisted db uname \<longleftrightarrow>
     first_row (\<lambda>e. al_type e = target_username \<and> al_value e = uname) (allowlist db) \<noteq> None"

definition is_allowlisted :: "'a db \<Rightarrow> string option \<Rightarrow> string option \<Rightarrow> bool" where
  "is_allowlisted db ip username =
     (if opt_str ip \<noteq> [] \<and> ip_is_allowlisted db (opt_str ip) then True
      else (let uname = normalize_username username
            in uname \<noteq> [] \<and> username_is_allowlisted db uname))"

lemmas allow_defs [py_defs] =
  normalize_username_def ip_matches_allowlist_value_def ip_is_allowlisted_def
  username_is_allowlisted_def is_allowlisted_def

lemma is_allowlisted_cong: "allowlist db = allowlist db' \<Longrightarrow> is_allowlisted db = is_allowlisted db'"
  by (simp add: is_allowlisted_def ip_is_allowlisted_def username_is_allowlisted_def fun_eq_iff)

lemma is_allowlisted_ensure [simp]:
  "is_allowlisted (ensure_security_defaults db) ip u = is_allowlisted db ip u"
  by (simp add: is_allowlisted_def ip_is_allowlisted_def username_is_allowlisted_def)

section \<open>The break-glass network gate\<close>

definition policy_cidrs :: "string \<Rightarrow> ip_net list" where
  "policy_cidrs raw =
     List.map_filter (\<lambda>part. let token = strip part in
        if token = [] then None else ip_network token)
       (split_on (CHR '','') (replace_char (CHR 0x0A) '','' (replace_char (CHR '';'') '','' raw)))"

definition ip_in_cidrs :: "string \<Rightarrow> ip_net list \<Rightarrow> bool" where
  "ip_in_cidrs ip nets =
     (if ip = [] \<or> nets = [] then False
      else case ip_address ip of None \<Rightarrow> False | Some addr \<Rightarrow> list_ex (in_net addr) nets)"

fun addr_in_cidr_texts :: "ip_addr \<Rightarrow> string list \<Rightarrow> bool" where
  \<comment> \<open>the lazy \<open>any\<close> whose first invalid CIDR raises, which denies\<close>
  "addr_in_cidr_texts addr [] = False"
| "addr_in_cidr_texts addr (c # cs) =
     (case ip_network c of
        None \<Rightarrow> False
      | Some n \<Rightarrow> in_net addr n \<or> addr_in_cidr_texts addr cs)"

definition breakglass_gate :: "policy \<Rightarrow> string \<Rightarrow> string list \<Rightarrow> bool" where
  "breakglass_gate pol client_ip rfc1918 =
     (if ip_in_cidrs client_ip (policy_cidrs (po_deny_cidrs pol)) then False
      else (let allow = policy_cidrs (po_allow_cidrs pol)
            in if allow \<noteq> [] then ip_in_cidrs client_ip allow
               else case ip_address client_ip of
                      None \<Rightarrow> False
                    | Some addr \<Rightarrow> addr_in_cidr_texts addr rfc1918))"

definition is_breakglass_ip_allowed :: "'a db \<Rightarrow> string \<Rightarrow> string list \<Rightarrow> bool \<times> 'a db" where
  "is_breakglass_ip_allowed db client_ip rfc1918 =
     (let (pol, db) = get_policy db in (breakglass_gate pol client_ip rfc1918, db))"

definition is_breakglass_ban_exempt :: "'a db \<Rightarrow> string option \<Rightarrow> bool \<times> 'a db" where
  "is_breakglass_ban_exempt db ip =
     (let ip_n = strip (opt_str ip)
      in if ip_n = [] then (False, db)
         else if is_allowlisted db (Some ip_n) None then (True, db)
         else is_breakglass_ip_allowed db ip_n default_rfc1918_cidrs)"

lemmas gate_defs [py_defs] =
  policy_cidrs_def ip_in_cidrs_def breakglass_gate_def is_breakglass_ip_allowed_def
  is_breakglass_ban_exempt_def

definition exempt :: "'a db \<Rightarrow> string option \<Rightarrow> bool" where
  \<comment> \<open>the answer of \<open>is_breakglass_ban_exempt\<close>, without the defaults it may create\<close>
  "exempt db ip = fst (is_breakglass_ban_exempt db ip)"

lemma is_breakglass_ban_exempt_state:
  "snd (is_breakglass_ban_exempt db ip) = db \<or>
   snd (is_breakglass_ban_exempt db ip) = ensure_security_defaults db"
  by (auto simp: is_breakglass_ban_exempt_def is_breakglass_ip_allowed_def get_policy_def Let_def)

lemma exempt_alt:
  "exempt db ip = (strip (opt_str ip) \<noteq> [] \<and>
     (is_allowlisted db (Some (strip (opt_str ip))) None \<or>
      breakglass_gate (policy_of db) (strip (opt_str ip)) default_rfc1918_cidrs))"
  by (simp add: exempt_def is_breakglass_ban_exempt_def is_breakglass_ip_allowed_def get_policy_def Let_def)

lemma exempt_ensure [simp]: "exempt (ensure_security_defaults db) ip = exempt db ip"
  by (simp add: exempt_alt)

lemma exempt_cong:
  "allowlist db = allowlist db' \<Longrightarrow> policy_of db = policy_of db' \<Longrightarrow> exempt db = exempt db'"
  using is_allowlisted_cong [of db db'] by (simp add: exempt_alt fun_eq_iff)

lemma exempt_ready [simp]: "ready db \<Longrightarrow> is_breakglass_ban_exempt db ip = (exempt db ip, db)"
  by (simp add: exempt_def is_breakglass_ban_exempt_def is_breakglass_ip_allowed_def get_policy_def
      Let_def ensure_ready)

end
