(* ===== verification/BanEngine.thy ===== *)
theory BanEngine
  imports BanRules
begin

text \<open>
  The core of \<open>app/security/banning/engine.py\<close>: lifting expired bans, finding the ban that applies
  to a request, creating a ban, clearing and counting rate events. Every operation of the engine
  is a sequence of the steps of the relation \<open>ban_step\<close> below; what the steps keep is proved once,
  by rule induction, and holds for all the operations.
\<close>

section \<open>Clearing the failed-login counters\<close>

definition clear_failed_login_counters :: "string list \<Rightarrow> string list \<Rightarrow> 'a db \<Rightarrow> int \<times> 'a db" where
  "clear_failed_login_counters ips usernames db =
     (let ips = filter (\<lambda>ip. strip ip \<noteq> []) ips;
          usernames = map (\<lambda>u. normalize_username (Some u)) (filter (\<lambda>u. strip u \<noteq> []) usernames);
          gone = (\<lambda>e. (ev_kind e = ''fail_ip'' \<and> ev_key e \<in> set ips)
                    \<or> (ev_kind e = ''fail_user'' \<and> ev_key e \<in> set usernames))
      in if ips = [] \<and> usernames = [] then (0, db)
         else if \<not> hot_up db then (0, db)
         else (int (length (filter gone (rate_events db))),
               db\<lparr>rate_events := filter (\<lambda>e. \<not> gone e) (rate_events db)\<rparr>))"

section \<open>Lifting expired bans\<close>

definition ban_expired :: "int \<Rightarrow> ban \<Rightarrow> bool" where
  "ban_expired now b \<longleftrightarrow>
     b_lifted b = None \<and> \<not> b_permanent b \<and> (case b_expires b of None \<Rightarrow> False | Some e \<Rightarrow> e \<le> now)"

definition mark_lifted :: "int \<Rightarrow> string \<Rightarrow> ban \<Rightarrow> ban" where
  "mark_lifted now actor b = b\<lparr>b_lifted := Some now, b_lifted_by := Some actor\<rparr>"

definition jopt :: "string option \<Rightarrow> jval" where
  "jopt v = (case v of None \<Rightarrow> JNull | Some s \<Rightarrow> JStr s)"

definition log_lifted :: "string \<Rightarrow> ban \<Rightarrow> 'a db \<Rightarrow> 'a db" where
  "log_lifted actor b =
     log_action actor ''security.ban.lifted'' (Some (b_type b @ '':'' @ b_target b))
       [(''ban_id'', JInt (b_id b)), (''reason'', JStr (b_reason b)), (''auto'', JBool True),
        (''rule_type'', jopt (b_rule b))] None"

definition lift_expired_bans :: "string \<Rightarrow> 'a db \<Rightarrow> int \<times> 'a db" where
  \<comment> \<open>when the hot store is down, the rollback after the failed audit write discards the marks\<close>
  "lift_expired_bans actor db =
     (let now = clock db;
          due = filter (ban_expired now) (bans db);
          ips = map b_target (filter (\<lambda>b. b_type b = target_ip) due);
          names = map (\<lambda>b. normalize_username (Some (b_target b)))
                    (filter (\<lambda>b. b_type b = target_username) due)
      in if due = [] then (0, db)
         else (let db1 = (if hot_up db
                          then fold (log_lifted actor) due
                                 (db\<lparr>bans := update_rows (ban_expired now) (mark_lifted now actor) (bans db)\<rparr>)
                          else db)
               in (int (length due), snd (clear_failed_login_counters ips names db1))))"

section \<open>The ban that applies\<close>

definition auto_ip_ban_blocks_breakglass_lan :: "'a db \<Rightarrow> ban \<Rightarrow> bool" where
  \<comment> \<open>an automatic ban of an exempt address is not enforced, a manual one is\<close>
  "auto_ip_ban_blocks_breakglass_lan db b =
     (if b_type b \<noteq> target_ip then True
      else if \<not> exempt db (Some (b_target b)) then True
      else lower (strip (opt_str (b_rule b))) = ''manual'')"

definition ban_in_force :: "int \<Rightarrow> ban \<Rightarrow> bool" where
  \<comment> \<open>permanent, without an end, or not yet ended\<close>
  "ban_in_force now b =
     (if b_permanent b then True else case b_expires b of None \<Rightarrow> True | Some e \<Rightarrow> now < e)"

definition ban_candidates :: "'a db \<Rightarrow> string \<Rightarrow> string \<Rightarrow> ban list" where
  "ban_candidates db ip uname =
     (if ip = [] then []
      else filter (\<lambda>b. b_type b = target_ip \<and> b_target b = ip \<and> b_lifted b = None) (bans db)) @
     (if uname = [] then []
      else filter (\<lambda>b. b_type b = target_username \<and> b_target b = uname \<and> b_lifted b = None) (bans db))"

definition enforced :: "'a db \<Rightarrow> ban \<Rightarrow> bool" where
  "enforced db b \<longleftrightarrow>
     \<not> (b_type b = target_ip \<and> \<not> auto_ip_ban_blocks_breakglass_lan db b) \<and> ban_in_force (clock db) b"

definition find_active_ban :: "string option \<Rightarrow> string option \<Rightarrow> 'a db \<Rightarrow> ban option \<times> 'a db" where
  \<comment> \<open>the exemption test of an IP candidate reads the policy and so creates the defaults\<close>
  "find_active_ban ip username db =
     (let db1 = snd (lift_expired_bans ''system'' db);
          cs = ban_candidates db1 (opt_str ip) (normalize_username username)
      in (first_row (enforced db1) cs,
          if list_ex (\<lambda>b. b_type b = target_ip) cs then snd (is_breakglass_ban_exempt db1 ip) else db1))"

section \<open>Creating a ban\<close>

definition ban_end :: "bool \<Rightarrow> int \<Rightarrow> int \<Rightarrow> int option" where
  "ban_end permanent ban_minutes now =
     (if permanent then None else Some (now + minutes (max 1 (int_or ban_minutes 60))))"

definition new_ban ::
  "string \<Rightarrow> string \<Rightarrow> string \<Rightarrow> string option \<Rightarrow> bool \<Rightarrow> int \<Rightarrow> string \<Rightarrow> 'a db \<Rightarrow> ban" where
  "new_ban ttype target reason rule permanent ban_minutes actor db =
     \<lparr>b_id = next_ban db, b_type = ttype, b_target = target, b_reason = reason, b_rule = rule,
      b_at = clock db, b_expires = ban_end permanent ban_minutes (clock db), b_permanent = permanent,
      b_lifted = None, b_lifted_by = None, b_by = actor\<rparr>"

definition insert_ban :: "ban \<Rightarrow> 'a db \<Rightarrow> 'a db" where
  "insert_ban b db = db\<lparr>bans := bans db @ [b], next_ban := next_ban db + 1\<rparr>"

definition log_applied :: "ban \<Rightarrow> string option \<Rightarrow> 'a db \<Rightarrow> 'a db" where
  \<comment> \<open>\<open>expires_at\<close> is written in ISO format; the instant stands for its text\<close>
  "log_applied b from_ip =
     log_action (b_by b) ''security.ban.applied'' (Some (b_type b @ '':'' @ b_target b))
       [(''ban_id'', JInt (b_id b)), (''reason'', JStr (b_reason b)), (''rule_type'', jopt (b_rule b)),
        (''permanent'', JBool (b_permanent b)),
        (''expires_at'', case b_expires b of None \<Rightarrow> JNull | Some e \<Rightarrow> JInt e)] from_ip"

definition apply_ban ::
  "string \<Rightarrow> string \<Rightarrow> string \<Rightarrow> string option \<Rightarrow> bool \<Rightarrow> int \<Rightarrow> string \<Rightarrow> string option \<Rightarrow> bool
   \<Rightarrow> 'a db \<Rightarrow> ban option \<times> 'a db" where
  "apply_ban ttype target reason rule permanent ban_minutes actor from_ip confirm_permanent db =
     (let target = (if ttype = target_username then normalize_username (Some target) else target);
          as_ip = (if ttype = target_ip then Some target else None);
          as_user = (if ttype = target_username then Some target else None)
      in if target = [] then (None, db)
         else if permanent \<and> \<not> confirm_permanent then (None, db)
         else if is_allowlisted db as_ip as_user then (None, db)
         else (let (skip, db) = (if ttype = target_ip \<and> actor = ''system''
                                 then is_breakglass_ban_exempt db (Some target) else (False, db))
               in if skip then (None, db)
                  else (case find_active_ban as_ip as_user db of
                          (Some existing, db) \<Rightarrow> (Some existing, db)
                        | (None, db) \<Rightarrow>
                            (let b = new_ban ttype target reason rule permanent ban_minutes actor db
                             in (Some b, log_applied b from_ip (insert_ban b db))))))"

section \<open>Counting\<close>

definition event_cutoff :: "int \<Rightarrow> int \<Rightarrow> int" where
  "event_cutoff now window = now - seconds (max 1 (int_or window 1))"

definition event_key :: "string \<Rightarrow> string" where
  "event_key key = take 255 (strip key)"

definition prune_and_count :: "string \<Rightarrow> string \<Rightarrow> int \<Rightarrow> 'a db \<Rightarrow> (db_error, int) result \<times> 'a db" where
  "prune_and_count kind key window db =
     (let key_n = event_key key
      in if key_n = [] then (Ok 0, db)
         else if \<not> hot_up db then (Raise SqlError, db)
         else (let now = clock db;
                   cutoff = event_cutoff now window;
                   es = add_event (kind, key_n) now (prune_events (kind, key_n) cutoff (rate_events db))
               in (Ok (int (count_events (kind, key_n) cutoff es)), db\<lparr>rate_events := es\<rparr>)))"

lemmas engine_defs [py_defs] =
  clear_failed_login_counters_def ban_expired_def mark_lifted_def jopt_def log_lifted_def
  lift_expired_bans_def auto_ip_ban_blocks_breakglass_lan_def ban_in_force_def ban_candidates_def
  enforced_def find_active_ban_def ban_end_def new_ban_def insert_ban_def log_applied_def
  apply_ban_def event_cutoff_def event_key_def prune_and_count_def

definition fresh_db :: "int \<Rightarrow> sec_db" where
  \<comment> \<open>a database at its first use, for the concrete runs below\<close>
  "fresh_db now = \<lparr>clock = now, hot_up = True, audit = [], policy = None, rules = [], bans = [],
     next_ban = 1, allowlist = [], next_allow = 1, rate_events = [], concurrent = (\<lambda>_. 0)\<rparr>"

section \<open>The steps of the engine\<close>

text \<open>
  \<open>as_ip\<close> and \<open>as_user\<close> are the arguments with which \<open>apply_ban\<close> asks for the allow list and for
  an active ban.
\<close>

definition as_ip :: "string \<Rightarrow> string \<Rightarrow> string option" where
  "as_ip ttype target = (if ttype = target_ip then Some target else None)"

definition as_user :: "string \<Rightarrow> string \<Rightarrow> string option" where
  "as_user ttype target = (if ttype = target_username then Some target else None)"

definition ban_target :: "string \<Rightarrow> string \<Rightarrow> string" where
  "ban_target ttype target =
     (if ttype = target_username then normalize_username (Some target) else target)"

definition may_ban :: "string \<Rightarrow> string \<Rightarrow> string \<Rightarrow> 'a db \<Rightarrow> bool" where
  \<comment> \<open>the guards under which a ban row is created\<close>
  "may_ban ttype target actor db \<longleftrightarrow>
     target \<noteq> [] \<and> ban_target ttype target = target \<and>
     \<not> is_allowlisted db (as_ip ttype target) (as_user ttype target) \<and>
     \<not> (ttype = target_ip \<and> actor = ''system'' \<and> exempt db (Some target)) \<and>
     (\<forall>b \<in> set (ban_candidates db (opt_str (as_ip ttype target)) (normalize_username (as_user ttype target))).
        \<not> enforced db b)"

inductive ban_step :: "'a db \<Rightarrow> 'a db \<Rightarrow> bool" where
  step_defaults: "ban_step db (ensure_security_defaults db)"
| step_lift: "ban_step db (db\<lparr>bans := update_rows (ban_expired (clock db)) (mark_lifted (clock db) actor) (bans db)\<rparr>)"
| step_ban: "may_ban ttype target actor db \<Longrightarrow>
     ban_step db (insert_ban (new_ban ttype target reason rule permanent ban_minutes actor db) db)"
| step_audit: "ban_step db (log_action actor action tgt d i db)"
| step_events: "ban_step db (db\<lparr>rate_events := es\<rparr>)"

inductive_cases ban_stepE: "ban_step db db'"

definition ban_steps :: "'a db \<Rightarrow> 'a db \<Rightarrow> bool" where
  "ban_steps = rtranclp ban_step"

lemma ban_steps_refl [simp, intro]: "ban_steps db db"
  by (simp add: ban_steps_def)

lemma ban_steps_trans [trans]: "ban_steps a b \<Longrightarrow> ban_steps b c \<Longrightarrow> ban_steps a c"
  unfolding ban_steps_def by (rule rtranclp_trans)

lemma ban_step_steps [intro]: "ban_step a b \<Longrightarrow> ban_steps a b"
  by (auto simp: ban_steps_def)

lemma ban_steps_induct [consumes 1, case_names refl step]:
  assumes "ban_steps a b" and "P a" and "\<And>x y. ban_steps a x \<Longrightarrow> ban_step x y \<Longrightarrow> P x \<Longrightarrow> P y"
  shows "P b"
  using assms unfolding ban_steps_def by (induction rule: rtranclp_induct) auto

interpretation ban_runs: run_relation ban_steps
  by unfold_locales (auto intro: ban_steps_trans)

named_theorems reach \<open>operations are sequences of steps\<close>

lemma policy_of_frame [frame, simp]:
  "policy_of (db\<lparr>bans := bs\<rparr>) = policy_of db"
  "policy_of (db\<lparr>bans := bs, next_ban := n\<rparr>) = policy_of db"
  "policy_of (db\<lparr>rate_events := es\<rparr>) = policy_of db"
  "policy_of (log_action a b c d i db) = policy_of db"
  by (simp_all add: policy_of_def split: option.split)

lemma rule_of_frame [frame, simp]:
  "rule_of t (db\<lparr>bans := bs\<rparr>) = rule_of t db"
  "rule_of t (db\<lparr>bans := bs, next_ban := n\<rparr>) = rule_of t db"
  "rule_of t (db\<lparr>rate_events := es\<rparr>) = rule_of t db"
  "rule_of t (log_action a b c d i db) = rule_of t db"
  by (simp_all add: rule_of_def)

lemma ready_frame [frame, simp]:
  "ready (db\<lparr>bans := bs\<rparr>) = ready db"
  "ready (db\<lparr>bans := bs, next_ban := n\<rparr>) = ready db"
  "ready (db\<lparr>rate_events := es\<rparr>) = ready db"
  "ready (log_action a b c d i db) = ready db"
  by (simp_all add: ready_def)

lemma insert_ban_frame [frame, simp]:
  "clock (insert_ban b db) = clock db" "hot_up (insert_ban b db) = hot_up db"
  "allowlist (insert_ban b db) = allowlist db" "next_allow (insert_ban b db) = next_allow db"
  "concurrent (insert_ban b db) = concurrent db" "rate_events (insert_ban b db) = rate_events db"
  "policy (insert_ban b db) = policy db" "rules (insert_ban b db) = rules db"
  "bans (insert_ban b db) = bans db @ [b]" "policy_of (insert_ban b db) = policy_of db"
  "rule_of t (insert_ban b db) = rule_of t db" "ready (insert_ban b db) = ready db"
  by (simp_all add: insert_ban_def)

text \<open>What every step, hence every operation, leaves unchanged.\<close>

definition same_setup :: "'a db \<Rightarrow> 'a db \<Rightarrow> bool" where
  "same_setup db db' \<longleftrightarrow>
     clock db' = clock db \<and> hot_up db' = hot_up db \<and> allowlist db' = allowlist db \<and>
     next_allow db' = next_allow db \<and> concurrent db' = concurrent db \<and> policy_of db' = policy_of db \<and>
     (\<forall>t r. rule_of t db = Some r \<longrightarrow> rule_of t db' = Some r) \<and> (ready db \<longrightarrow> ready db')"

lemma ban_step_setup: "ban_step db db' \<Longrightarrow> same_setup db db'"
  by (cases rule: ban_step.cases)
    (auto simp: same_setup_def rule_of_ensure ready_ensure)

lemma ban_steps_setup: "ban_steps db db' \<Longrightarrow> same_setup db db'"
  by (induction rule: ban_steps_induct) (auto simp: same_setup_def dest!: ban_step_setup)

lemma ban_steps_same:
  assumes "ban_steps db db'"
  shows "clock db' = clock db" "hot_up db' = hot_up db" "allowlist db' = allowlist db"
    "concurrent db' = concurrent db" "policy_of db' = policy_of db"
    "rule_of t db = Some r \<Longrightarrow> rule_of t db' = Some r" "ready db \<Longrightarrow> ready db'"
    "is_allowlisted db' = is_allowlisted db" "exempt db' = exempt db"
  using ban_steps_setup [OF assms] is_allowlisted_cong [of db' db] exempt_cong [of db' db]
  by (auto simp: same_setup_def)

section \<open>The operations are sequences of steps\<close>

lemma fold_log_lifted_steps: "ban_steps db (fold (log_lifted actor) bs db)"
proof (induction bs arbitrary: db)
  case Nil
  then show ?case by simp
next
  case (Cons b bs)
  have "ban_steps db (log_lifted actor b db)"
    unfolding log_lifted_def by (intro ban_step_steps step_audit)
  from ban_steps_trans [OF this Cons] show ?case by simp
qed

lemma clear_counters_steps [reach]: "ban_steps db (snd (clear_failed_login_counters ips us db))"
  by (auto simp: clear_failed_login_counters_def Let_def intro: step_events)

lemma lift_expired_steps [reach]: "ban_steps db (snd (lift_expired_bans actor db))"
proof -
  have "ban_steps db (fold (log_lifted actor) due
      (db\<lparr>bans := update_rows (ban_expired (clock db)) (mark_lifted (clock db) actor) (bans db)\<rparr>))" for due
    using ban_steps_trans [OF ban_step_steps [OF step_lift] fold_log_lifted_steps] .
  then show ?thesis
    unfolding lift_expired_bans_def Let_def
    by (auto intro: ban_steps_trans [OF _ clear_counters_steps] clear_counters_steps)
qed

lemma exempt_steps [reach]: "ban_steps db (snd (is_breakglass_ban_exempt db ip))"
  using is_breakglass_ban_exempt_state [of db ip] by (metis ban_steps_refl ban_step_steps step_defaults)

lemma find_active_steps [reach]: "ban_steps db (snd (find_active_ban ip u db))"
  unfolding find_active_ban_def Let_def
  by (auto intro: ban_steps_trans [OF lift_expired_steps exempt_steps] lift_expired_steps)

lemma prune_and_count_steps [reach]: "ban_steps db (snd (prune_and_count kind key w db))"
  by (auto simp: prune_and_count_def Let_def intro: step_events)

section \<open>What an active ban is\<close>

lemma enforced_exempt [simp]: "enforced (snd (is_breakglass_ban_exempt db ip)) = enforced db"
  using is_breakglass_ban_exempt_state [of db ip]
  by (auto simp: enforced_def auto_ip_ban_blocks_breakglass_lan_def fun_eq_iff)

lemma candidates_exempt [simp]:
  "ban_candidates (snd (is_breakglass_ban_exempt db ip)) = ban_candidates db"
  using is_breakglass_ban_exempt_state [of db ip] by (auto simp: ban_candidates_def fun_eq_iff)

lemma enforced_cong:
  "exempt db = exempt db' \<Longrightarrow> clock db = clock db' \<Longrightarrow> enforced db = enforced db'"
  by (simp add: enforced_def auto_ip_ban_blocks_breakglass_lan_def fun_eq_iff)

lemma ban_steps_enforced: "ban_steps db db' \<Longrightarrow> enforced db' = enforced db"
  using enforced_cong ban_steps_same by metis

lemma find_active_result:
  assumes "find_active_ban ip u db = (r, db')"
  shows "r = first_row (enforced db') (ban_candidates db' (opt_str ip) (normalize_username u))"
  using assms by (auto simp: find_active_ban_def Let_def)

lemma find_active_None:
  "find_active_ban ip u db = (None, db') \<Longrightarrow>
   b \<in> set (ban_candidates db' (opt_str ip) (normalize_username u)) \<Longrightarrow> \<not> enforced db' b"
  by (drule find_active_result) (metis first_row_None)

lemma candidates_iff:
  "b \<in> set (ban_candidates db ip uname) \<longleftrightarrow>
     b \<in> set (bans db) \<and> b_lifted b = None \<and>
     (b_type b = target_ip \<and> b_target b = ip \<and> ip \<noteq> [] \<or>
      b_type b = target_username \<and> b_target b = uname \<and> uname \<noteq> [])"
  by (auto simp: ban_candidates_def)

lemma find_active_Some:
  assumes "find_active_ban ip u db = (Some b, db')"
  shows "b \<in> set (bans db')" "b_lifted b = None" "enforced db' b"
    "b_type b = target_ip \<and> b_target b = opt_str ip \<and> opt_str ip \<noteq> [] \<or>
     b_type b = target_username \<and> b_target b = normalize_username u \<and> normalize_username u \<noteq> []"
proof -
  have "b \<in> set (ban_candidates db' (opt_str ip) (normalize_username u)) \<and> enforced db' b"
    using find_active_result [OF assms] first_row_Some [OF sym] by metis
  then show "b \<in> set (bans db')" "b_lifted b = None" "enforced db' b"
    "b_type b = target_ip \<and> b_target b = opt_str ip \<and> opt_str ip \<noteq> [] \<or>
     b_type b = target_username \<and> b_target b = normalize_username u \<and> normalize_username u \<noteq> []"
    by (auto simp: candidates_iff)
qed

section \<open>Normalised account names\<close>

lemma is_space_lower [simp]: "is_space (lower_char c) = is_space c"
  by (auto simp: is_space_def lower_char_def)

lemma lower_char_idem [simp]: "lower_char (lower_char c) = lower_char c"
  by (auto simp: lower_char_def)

lemma lower_idem [simp]: "lower (lower s) = lower s"
  by (simp add: lower_def)

lemma lower_Nil [simp]: "lower s = [] \<longleftrightarrow> s = []"
  by (simp add: lower_def)

lemma strip_lower: "strip (lower s) = lower (strip s)"
  by (simp add: strip_def lower_def rstrip_def lstrip_def rev_map dropWhile_map comp_def)

lemma normalize_username_idem [simp]: "normalize_username (Some (normalize_username u)) = normalize_username u"
  by (simp add: normalize_username_def opt_str_def strip_lower)

section \<open>Creating a ban, step by step\<close>

lemma fold_log_lifted_next [simp]: "next_ban (fold (log_lifted a) bs db) = next_ban db"
  by (induction bs arbitrary: db) (simp_all add: log_lifted_def)

lemma clear_counters_next [simp]: "next_ban (snd (clear_failed_login_counters ips us db)) = next_ban db"
  by (simp add: clear_failed_login_counters_def Let_def)

lemma find_active_next: "next_ban (snd (find_active_ban ip u db)) = next_ban db"
proof -
  have "next_ban (snd (is_breakglass_ban_exempt d i)) = next_ban d" for d :: "'a db" and i
    using is_breakglass_ban_exempt_state [of d i] by auto
  then show ?thesis by (simp add: find_active_ban_def Let_def lift_expired_bans_def)
qed

text \<open>
  The possible outcomes of \<open>apply_ban\<close>: a refusal, the ban that already applies, or a new row
  created under the guards \<open>may_ban\<close>.
\<close>

lemma apply_ban_cases:
  assumes "apply_ban ttype target reason rule permanent mins actor from_ip confirm db = (r, db')"
  obtains (refused) "r = None" "ban_steps db db'" "bans db' = bans db" "next_ban db' = next_ban db"
  | (existing) b db1 where "r = Some b" "ban_steps db db1" "next_ban db' = next_ban db"
      "find_active_ban (as_ip ttype (ban_target ttype target)) (as_user ttype (ban_target ttype target)) db1
        = (Some b, db')"
  | (created) db1 b where "r = Some b" "ban_steps db db1"
      "may_ban ttype (ban_target ttype target) actor db1"
      "b = new_ban ttype (ban_target ttype target) reason rule permanent mins actor db1"
      "db' = log_applied b from_ip (insert_ban b db1)" "permanent \<longrightarrow> confirm"
proof -
  define tgt where "tgt = ban_target ttype target"
  define skip where "skip = (if ttype = target_ip \<and> actor = ''system''
     then is_breakglass_ban_exempt db (Some tgt) else (False, db))"
  note e = assms [unfolded apply_ban_def Let_def ban_target_def [symmetric] as_ip_def [symmetric]
      as_user_def [symmetric] tgt_def [symmetric], folded skip_def]
  obtain sk db1 where sk: "skip = (sk, db1)" by (cases skip)
  have db1: "ban_steps db db1" "bans db1 = bans db" "next_ban db1 = next_ban db"
    using sk is_breakglass_ban_exempt_state [of db "Some tgt"] exempt_steps [of db "Some tgt"]
    by (auto simp: skip_def split: if_splits)
  have skip_iff: "sk \<longleftrightarrow> ttype = target_ip \<and> actor = ''system'' \<and> exempt db (Some tgt)"
    using sk by (auto simp: skip_def exempt_def split: if_splits)
  consider (no) "tgt = [] \<or> permanent \<and> \<not> confirm \<or> is_allowlisted db (as_ip ttype tgt) (as_user ttype tgt)"
    | (sk) "\<not> (tgt = [] \<or> permanent \<and> \<not> confirm \<or> is_allowlisted db (as_ip ttype tgt) (as_user ttype tgt))" "sk"
    | (go) "\<not> (tgt = [] \<or> permanent \<and> \<not> confirm \<or> is_allowlisted db (as_ip ttype tgt) (as_user ttype tgt))" "\<not> sk"
    by blast
  then show ?thesis
  proof cases
    case no
    with e show ?thesis by (intro refused) (auto split: if_splits)
  next
    case sk
    with e \<open>skip = (sk, db1)\<close> db1 show ?thesis by (intro refused) auto
  next
    case go
    obtain a db2 where a: "find_active_ban (as_ip ttype tgt) (as_user ttype tgt) db1 = (a, db2)"
      by (cases "find_active_ban (as_ip ttype tgt) (as_user ttype tgt) db1")
    have steps: "ban_steps db1 db2" using find_active_steps [of db1] a by (metis snd_conv)
    show ?thesis
    proof (cases a)
      case None
      have "may_ban ttype tgt actor db2"
        using go skip_iff find_active_None [of "as_ip ttype tgt" "as_user ttype tgt" db1 db2] a None
          ban_steps_same [OF db1(1)] ban_steps_same [OF steps]
        by (auto simp: may_ban_def tgt_def ban_target_def)
      with go e sk a None ban_steps_trans [OF db1(1) steps] show ?thesis
        by (intro created [of "new_ban ttype tgt reason rule permanent mins actor db2" db2])
          (auto simp: tgt_def)
    next
      case (Some b)
      with go e sk a db1 find_active_next [of "as_ip ttype tgt" "as_user ttype tgt" db1] show ?thesis by (intro existing [of b db1]) (auto simp: tgt_def)
    qed
  qed
qed

lemma apply_ban_steps [reach]:
  "ban_steps db (snd (apply_ban ttype target reason rule permanent mins actor from_ip confirm db))"
proof -
  obtain r db' where e: "apply_ban ttype target reason rule permanent mins actor from_ip confirm db = (r, db')"
    by (cases "apply_ban ttype target reason rule permanent mins actor from_ip confirm db")
  from e have "ban_steps db db'"
  proof (cases rule: apply_ban_cases)
    case refused
    then show ?thesis by simp
  next
    case (existing b db1)
    then show ?thesis
      using ban_steps_trans find_active_steps by (metis snd_conv)
  next
    case (created db1 b)
    have "ban_steps db1 (insert_ban b db1)" using created by (auto intro: step_ban)
    moreover have "ban_steps (insert_ban b db1) db'"
      unfolding created(5) log_applied_def by (auto intro: step_audit)
    ultimately show ?thesis using created(2) ban_steps_trans by blast
  qed
  with e show ?thesis by simp
qed

section \<open>The rows of the ban table\<close>

definition ban_row_ok :: "int \<Rightarrow> ban \<Rightarrow> bool" where
  \<comment> \<open>a ban has a target, either no end or an end at least a minute after its start, and was lifted
      (if at all) after it started\<close>
  "ban_row_ok now b \<longleftrightarrow>
     b_target b \<noteq> [] \<and> ban_target (b_type b) (b_target b) = b_target b \<and> b_at b \<le> now \<and>
     (case b_expires b of None \<Rightarrow> b_permanent b
        | Some e \<Rightarrow> \<not> b_permanent b \<and> b_at b + minutes 1 \<le> e) \<and>
     (case b_lifted b of None \<Rightarrow> True | Some t \<Rightarrow> b_at b \<le> t \<and> t \<le> now)"

definition bans_wf :: "'a db \<Rightarrow> bool" where
  "bans_wf db \<longleftrightarrow>
     distinct (map b_id (bans db)) \<and>
     (\<forall>b \<in> set (bans db). b_id b < next_ban db \<and> ban_row_ok (clock db) b)"

lemma minutes_pos: "0 < minutes 1" and minutes_mono: "m \<le> n \<Longrightarrow> minutes m \<le> minutes n"
  by (simp_all add: minutes_def seconds_def)

lemma mark_lifted_simps [simp]:
  "b_id (mark_lifted t a b) = b_id b" "b_type (mark_lifted t a b) = b_type b"
  "b_target (mark_lifted t a b) = b_target b" "b_at (mark_lifted t a b) = b_at b"
  "b_expires (mark_lifted t a b) = b_expires b" "b_permanent (mark_lifted t a b) = b_permanent b"
  "b_lifted (mark_lifted t a b) = Some t" "b_rule (mark_lifted t a b) = b_rule b"
  by (simp_all add: mark_lifted_def)

lemma row_ok_lifted: "ban_row_ok now b \<Longrightarrow> ban_row_ok now (mark_lifted now a b)"
  by (auto simp: ban_row_ok_def split: option.splits)

lemma row_ok_new:
  assumes "may_ban ttype target actor db"
  shows "ban_row_ok (clock db) (new_ban ttype target reason rule permanent mins actor db)"
proof -
  have "minutes 1 \<le> minutes (max 1 (int_or mins 60))" by (intro minutes_mono) simp
  with assms show ?thesis
    by (auto simp: ban_row_ok_def new_ban_def ban_end_def may_ban_def)
qed

lemma bans_wf_update:
  assumes "bans_wf db" and "\<And>b. b_id (f b) = b_id b"
    and "\<And>b. b \<in> set (bans db) \<Longrightarrow> p b \<Longrightarrow> ban_row_ok (clock db) (f b)"
  shows "bans_wf (db\<lparr>bans := update_rows p f (bans db)\<rparr>)"
  using assms by (auto simp: bans_wf_def map_update_rows set_update_rows)

lemma ban_step_wf: "ban_step db db' \<Longrightarrow> bans_wf db \<Longrightarrow> bans_wf db'"
proof (induction rule: ban_step.induct)
  case (step_lift db actor)
  then show ?case
    by (intro bans_wf_update) (auto simp: bans_wf_def row_ok_lifted)
next
  case (step_ban ttype target actor db reason rule permanent mins)
  have id: "b_id (new_ban ttype target reason rule permanent mins actor db) = next_ban db"
    by (simp add: new_ban_def)
  from step_ban have *: "\<forall>b \<in> set (bans db). b_id b < next_ban db" "distinct (map b_id (bans db))"
    by (auto simp: bans_wf_def)
  then have "next_ban db \<notin> b_id ` set (bans db)" by fastforce
  with * step_ban row_ok_new [OF step_ban(1)] show ?case
    by (auto simp: bans_wf_def insert_ban_def id)
qed (auto simp: bans_wf_def ensure_security_defaults_def)

lemma ban_steps_wf: "ban_steps db db' \<Longrightarrow> bans_wf db \<Longrightarrow> bans_wf db'"
  by (induction rule: ban_steps_induct) (auto intro: ban_step_wf)

text \<open>
  The fate of the rows: no step deletes one, and a row changes only by being lifted once it is
  past its end.
\<close>

definition row_fate :: "int \<Rightarrow> ban \<Rightarrow> ban \<Rightarrow> bool" where
  "row_fate now b b' \<longleftrightarrow> b' = b \<or> (ban_expired now b \<and> (\<exists>a. b' = mark_lifted now a b))"

definition bans_evolve :: "'a db \<Rightarrow> 'a db \<Rightarrow> bool" where
  "bans_evolve db db' \<longleftrightarrow>
     (\<exists>old new. bans db' = old @ new \<and> list_all2 (row_fate (clock db)) (bans db) old)"

lemma row_fate_refl [simp]: "row_fate now b b"
  by (simp add: row_fate_def)

lemma row_fate_trans: "row_fate now a b \<Longrightarrow> row_fate now b c \<Longrightarrow> row_fate now a c"
  by (auto simp: row_fate_def ban_expired_def)

lemma row_fate_rows [simp]: "list_all2 (row_fate now) bs bs"
  by (simp add: list.rel_refl)

lemma bans_evolve_same: "bans db' = bans db \<Longrightarrow> bans_evolve db db'"
  unfolding bans_evolve_def by (intro exI [of _ "bans db"] exI [of _ "[]"]) simp

lemma bans_evolve_append: "bans db' = bans db @ [b] \<Longrightarrow> bans_evolve db db'"
  unfolding bans_evolve_def by (intro exI [of _ "bans db"] exI [of _ "[b]"]) simp

lemma bans_evolve_lift:
  "bans_evolve db (db\<lparr>bans := update_rows (ban_expired (clock db)) (mark_lifted (clock db) a) (bans db)\<rparr>)"
proof -
  have "list_all2 (row_fate now) bs (update_rows (ban_expired now) (mark_lifted now a) bs)" for now bs
    by (induction bs) (auto simp: update_rows_def row_fate_def)
  then show ?thesis
    unfolding bans_evolve_def
    by (intro exI [of _ "update_rows (ban_expired (clock db)) (mark_lifted (clock db) a) (bans db)"]
        exI [of _ "[]"]) simp
qed

lemma ban_step_evolve: "ban_step db db' \<Longrightarrow> bans_evolve db db'"
  by (induction rule: ban_step.induct)
    (auto intro: bans_evolve_same bans_evolve_append bans_evolve_lift)

lemma bans_evolve_trans:
  assumes "bans_evolve a b" and "bans_evolve b c" and "clock b = clock a"
  shows "bans_evolve a c"
proof -
  obtain old new where 1: "bans b = old @ new" "list_all2 (row_fate (clock a)) (bans a) old"
    using assms(1) by (auto simp: bans_evolve_def)
  obtain xs new' where 2: "bans c = xs @ new'" "list_all2 (row_fate (clock a)) (old @ new) xs"
    using assms(2,3) 1(1) by (auto simp: bans_evolve_def)
  then obtain old' more where 3: "xs = old' @ more" "list_all2 (row_fate (clock a)) old old'"
    by (auto simp: list_all2_append1)
  have "list_all2 (row_fate (clock a)) (bans a) old'"
    by (rule list_all2_trans [OF _ 1(2) 3(2)]) (rule row_fate_trans)
  with 2 3 show ?thesis
    unfolding bans_evolve_def by (intro exI [of _ old'] exI [of _ "more @ new'"]) simp
qed

lemma ban_steps_evolve: "ban_steps db db' \<Longrightarrow> bans_evolve db db'"
proof (induction rule: ban_steps_induct)
  case refl
  then show ?case by (simp add: bans_evolve_same)
next
  case (step x y)
  then show ?case
    using bans_evolve_trans ban_step_evolve ban_steps_same(1) by blast
qed

section \<open>Lifting\<close>

lemma fold_log_lifted_frame [simp]:
  "bans (fold (log_lifted a) bs db) = bans db"
  "rate_events (fold (log_lifted a) bs db) = rate_events db"
  "hot_up (fold (log_lifted a) bs db) = hot_up db"
  by (induction bs arbitrary: db) (simp_all add: log_lifted_def)

lemma clear_counters_bans [simp]:
  "bans (snd (clear_failed_login_counters ips us db)) = bans db"
  by (simp add: clear_failed_login_counters_def Let_def)

lemma lift_expired_rows:
  "hot_up db \<Longrightarrow> bans (snd (lift_expired_bans a db)) =
     update_rows (ban_expired (clock db)) (mark_lifted (clock db) a) (bans db)"
  by (auto simp: lift_expired_bans_def Let_def filter_empty_conv update_rows_none)

lemma lift_expired_down: "\<not> hot_up db \<Longrightarrow> snd (lift_expired_bans a db) = db"
  by (simp add: lift_expired_bans_def Let_def clear_failed_login_counters_def)

lemma clear_counters_events:
  "hot_up db \<Longrightarrow> e \<in> set (rate_events (snd (clear_failed_login_counters ips us db))) \<longleftrightarrow>
     e \<in> set (rate_events db) \<and>
     \<not> (ev_kind e = ''fail_ip'' \<and> ev_key e \<in> set ips \<and> strip (ev_key e) \<noteq> []) \<and>
     \<not> (ev_kind e = ''fail_user'' \<and> (\<exists>u \<in> set us. strip u \<noteq> [] \<and> ev_key e = normalize_username (Some u)))"
  by (auto simp: clear_failed_login_counters_def Let_def filter_empty_conv)

lemma lift_expired_counters:
  assumes "hot_up db" and "b \<in> set (bans db)" and "ban_expired (clock db) b" and "strip (b_target b) \<noteq> []"
  shows "b_type b = target_ip \<Longrightarrow>
      count_events (''fail_ip'', b_target b) c (rate_events (snd (lift_expired_bans a db))) = 0"
    and "b_type b = target_username \<Longrightarrow>
      count_events (''fail_user'', normalize_username (Some (b_target b))) c
        (rate_events (snd (lift_expired_bans a db))) = 0"
proof -
  have norm: "strip (normalize_username (Some (b_target b))) \<noteq> []"
    using assms(4) by (simp add: normalize_username_def opt_str_def strip_lower)
  have ne: "filter (ban_expired (clock db)) (bans db) \<noteq> []"
    using assms(2,3) by (auto simp: filter_empty_conv)
  have mem: "b \<in> set (filter (ban_expired (clock db)) (bans db))" using assms by simp
  show "b_type b = target_ip \<Longrightarrow>
      count_events (''fail_ip'', b_target b) c (rate_events (snd (lift_expired_bans a db))) = 0"
    using assms ne mem
    by (auto simp: count_events_def lift_expired_bans_def Let_def filter_empty_conv clear_counters_events)
  show "b_type b = target_username \<Longrightarrow>
      count_events (''fail_user'', normalize_username (Some (b_target b))) c
        (rate_events (snd (lift_expired_bans a db))) = 0"
    using assms ne mem norm
    by (fastforce simp: count_events_def lift_expired_bans_def Let_def filter_empty_conv
        clear_counters_events)
qed

text \<open>Lifting is complete and resets the counters: while the hot store answers, no active ban is
  past its end afterwards, every other row is untouched, and the failed-login events of an address
  whose ban was lifted are gone, so the unblocked client starts from zero.\<close>

theorem lift_expired_complete:
  assumes "hot_up db" and "snd (lift_expired_bans actor db) = db'"
  shows "(\<forall>b \<in> set (bans db'). \<not> ban_expired (clock db) b) \<and>
    (\<forall>b \<in> set (bans db). \<not> ban_expired (clock db) b \<longrightarrow> b \<in> set (bans db')) \<and>
    (\<forall>b \<in> set (bans db). ban_expired (clock db) b \<and> b_type b = target_ip \<and> strip (b_target b) \<noteq> [] \<longrightarrow>
       count_events (''fail_ip'', b_target b) c (rate_events db') = 0)"
proof -
  have rows: "bans db' = update_rows (ban_expired (clock db)) (mark_lifted (clock db) actor) (bans db)"
    using assms lift_expired_rows by blast
  have "\<forall>b \<in> set (bans db'). \<not> ban_expired (clock db) b"
    unfolding rows set_update_rows by (auto simp: ban_expired_def split: if_splits)
  moreover have "\<forall>b \<in> set (bans db). \<not> ban_expired (clock db) b \<longrightarrow> b \<in> set (bans db')"
    unfolding rows set_update_rows by (auto simp: image_iff)
  moreover have "\<forall>b \<in> set (bans db). ban_expired (clock db) b \<and> b_type b = target_ip \<and> strip (b_target b) \<noteq> [] \<longrightarrow>
       count_events (''fail_ip'', b_target b) c (rate_events db') = 0"
    by (auto simp: assms(2) [symmetric] intro: lift_expired_counters(1) [OF assms(1)])
  ultimately show ?thesis by blast
qed

definition sample_ban :: ban where
  "sample_ban = \<lparr>b_id = 1, b_type = target_ip, b_target = ''203.0.113.9'', b_reason = ''test'',
     b_rule = None, b_at = 0, b_expires = Some 60000000, b_permanent = False, b_lifted = None,
     b_lifted_by = None, b_by = ''system''\<rparr>"

theorem lift_expired_complete_witness:
  "count_events (''fail_ip'', ''203.0.113.9'') 0
     (rate_events (snd (lift_expired_bans ''system''
       ((fresh_db 60000000)\<lparr>bans := [sample_ban], next_ban := 2,
         rate_events := [\<lparr>ev_kind = ''fail_ip'', ev_key = ''203.0.113.9'', ev_at = 5\<rparr>]\<rparr>)))) = 0"
proof -
  let ?db = "(fresh_db 60000000)\<lparr>bans := [sample_ban], next_ban := 2,
         rate_events := [\<lparr>ev_kind = ''fail_ip'', ev_key = ''203.0.113.9'', ev_at = 5\<rparr>]\<rparr>"
  have "hot_up ?db" "sample_ban \<in> set (bans ?db)" "ban_expired (clock ?db) sample_ban"
    "b_type sample_ban = target_ip" "strip (b_target sample_ban) \<noteq> []"
    "b_target sample_ban = ''203.0.113.9''"
    by code_simp+
  with lift_expired_complete [of ?db "''system''" _ 0] show ?thesis by metis
qed

section \<open>The outcome of creating a ban\<close>

lemma new_ban_simps [simp]:
  "b_id (new_ban ty tg re ru pe mi ac db) = next_ban db" "b_type (new_ban ty tg re ru pe mi ac db) = ty"
  "b_target (new_ban ty tg re ru pe mi ac db) = tg" "b_permanent (new_ban ty tg re ru pe mi ac db) = pe"
  "b_lifted (new_ban ty tg re ru pe mi ac db) = None" "b_at (new_ban ty tg re ru pe mi ac db) = clock db"
  "b_expires (new_ban ty tg re ru pe mi ac db) = ban_end pe mi (clock db)"
  "b_rule (new_ban ty tg re ru pe mi ac db) = ru" "b_by (new_ban ty tg re ru pe mi ac db) = ac"
  by (simp_all add: new_ban_def)

lemma new_ban_in_force: "ban_in_force (clock db) (new_ban ty tg re ru pe mi ac db)"
proof -
  have "0 < minutes (max 1 (int_or mi 60))"
    using minutes_pos minutes_mono [of 1 "max 1 (int_or mi 60)"] by simp
  then show ?thesis by (simp add: ban_in_force_def ban_end_def)
qed

lemma log_applied_frame [simp]:
  "bans (log_applied b i db) = bans db" "clock (log_applied b i db) = clock db"
  "next_ban (log_applied b i db) = next_ban db" "rate_events (log_applied b i db) = rate_events db"
  by (simp_all add: log_applied_def)

lemma apply_ban_in_force:
  assumes "apply_ban ttype target reason rule permanent mins actor from_ip confirm db = (Some b, db')"
  shows "b \<in> set (bans db') \<and> b_lifted b = None \<and> ban_in_force (clock db) b"
  using assms
proof (cases rule: apply_ban_cases)
  case (existing b' db1)
  have "clock db' = clock db"
    using existing ban_steps_same(1) find_active_steps by (metis snd_conv)
  with find_active_Some [OF existing(4)] existing(1) show ?thesis by (simp add: enforced_def)
next
  case (created db1 b')
  have "clock db1 = clock db" using ban_steps_same(1) [OF created(2)] .
  with created new_ban_in_force [of db1] show ?thesis by simp
qed simp

lemma apply_ban_result:
  assumes "apply_ban ttype target reason rule permanent mins actor from_ip confirm db = (Some b, db')"
    and "ttype \<in> {target_ip, target_username}"
  shows "b \<in> set (bans db') \<and> ban_in_force (clock db) b \<and>
    b_type b = ttype \<and> b_target b = ban_target ttype target \<and>
    \<not> is_allowlisted db (as_ip ttype (b_target b)) (as_user ttype (b_target b)) \<and>
    (ttype = target_ip \<and> actor = ''system'' \<longrightarrow> \<not> exempt db (Some (b_target b))) \<and>
    (b_at b = clock db \<and> next_ban db \<le> b_id b \<and> bans_wf db \<longrightarrow>
       b_expires b = ban_end permanent mins (clock db) \<and> (b_permanent b \<longrightarrow> confirm))"
proof -
  define tgt where "tgt = ban_target ttype target"
  have guards: "\<not> is_allowlisted db (as_ip ttype tgt) (as_user ttype tgt)"
    "ttype = target_ip \<and> actor = ''system'' \<longrightarrow> \<not> exempt db (Some tgt)"
    using assms(1)
    unfolding apply_ban_def Let_def ban_target_def [symmetric] as_ip_def [symmetric]
      as_user_def [symmetric] tgt_def [symmetric]
    by (auto simp: exempt_def split: if_splits prod.splits)
  from assms(1) show ?thesis
  proof (cases rule: apply_ban_cases)
    case (existing b' db1)
    note f = find_active_Some [OF existing(4)]
    have "b_type b = ttype \<and> b_target b = tgt"
      using f(4) existing(1) assms(2)
      by (auto simp: as_ip_def as_user_def tgt_def ban_target_def opt_str_def normalize_username_def
          strip_lower split: if_splits)
    moreover have "bans_wf db \<longrightarrow> b_id b < next_ban db"
      using ban_steps_wf [OF ban_steps_trans [OF existing(2) find_active_steps]] existing f(1)
      by (metis bans_wf_def option.inject snd_conv)
    ultimately show ?thesis
      using apply_ban_in_force [OF assms(1)] guards by (auto simp: tgt_def)
  next
    case (created db1 b')
    with ban_steps_same [OF created(2)] apply_ban_in_force [OF assms(1)] guards show ?thesis
      by (auto simp: tgt_def)
  qed simp
qed

text \<open>What a caller of \<open>apply_ban\<close> can rely on. The ban returned is in force and stands in the
  table; the target is not on the allow list; an automatic ban never falls on an address exempt by
  the break-glass gate; and if the row is a new one it targets what was asked, runs for the asked
  time with at least a minute, and is permanent only when that was confirmed.\<close>

theorem apply_ban_guarantees:
  assumes "apply_ban ttype target reason rule permanent mins actor from_ip confirm db = (Some b, db')"
    and "ttype \<in> {target_ip, target_username}"
  shows "b \<in> set (bans db') \<and> ban_in_force (clock db) b \<and>
    b_type b = ttype \<and> b_target b = ban_target ttype target \<and>
    \<not> is_allowlisted db (as_ip ttype (b_target b)) (as_user ttype (b_target b)) \<and>
    (ttype = target_ip \<and> actor = ''system'' \<longrightarrow> \<not> exempt db (Some (b_target b))) \<and>
    (b_at b = clock db \<and> next_ban db \<le> b_id b \<and> bans_wf db \<longrightarrow>
       b_expires b = ban_end permanent mins (clock db) \<and> (b_permanent b \<longrightarrow> confirm))"
  by (rule apply_ban_result [OF assms])

theorem apply_ban_guarantees_witness:
  "\<exists>b db'. apply_ban target_ip ''203.0.113.9'' ''x'' None False 0 ''system'' None False (fresh_db 0) = (Some b, db') \<and>
     b \<in> set (bans db') \<and> b_target b = ''203.0.113.9'' \<and> ban_in_force 0 b"
proof -
  let ?r = "apply_ban target_ip ''203.0.113.9'' ''x'' None False 0 ''system'' None False (fresh_db 0)"
  have "fst ?r \<noteq> None" by code_simp
  then obtain b db' where r: "?r = (Some b, db')" by (cases ?r) auto
  have "ban_target target_ip ''203.0.113.9'' = ''203.0.113.9''" "clock (fresh_db 0) = 0" by code_simp+
  with apply_ban_guarantees [OF r] r show ?thesis by simp
qed

end
