(* ===== verification/BanGate.thy ===== *)
theory BanGate
  imports BanEngine
begin

text \<open>
  The request-facing half of \<open>app/security/banning/engine.py\<close>: the hammering, unknown-host and
  successful-login counters, the 429 throttle, concurrent requests, the evaluation of a login
  attempt, the gate in front of the sensitive paths, and the bans that follow nginx rejections.
  An operation that counts events raises \<open>SqlError\<close> when the hot store is down, as the code lets
  the exception pass, except where the code catches it.
\<close>

section \<open>Hammering\<close>

definition in_seconds :: "int \<Rightarrow> string" where
  "in_seconds w = '' in '' @ show_int w @ ''s''"

definition apply_hammer_ban_if_threshold ::
  "string \<Rightarrow> ban_rule \<Rightarrow> string \<Rightarrow> string \<Rightarrow> string \<Rightarrow> string \<Rightarrow> 'a db \<Rightarrow> (db_error, ban option) result \<times> 'a db" where
  "apply_hammer_ban_if_threshold ip rule kind rule_type reason_prefix reason_unit db =
     bind_res (prune_and_count kind ip (int_or (ru_window rule) 1) db)
       (\<lambda>count db.
          if count < ru_threshold rule then (Ok None, db)
          else (let (b, db) = apply_ban target_ip ip
                      (reason_prefix @ '': '' @ show_int count @ '' '' @ reason_unit @ in_seconds (ru_window rule))
                      (Some rule_type) (ru_permanent rule) (int_or (ru_ban_minutes rule) 60) ''system''
                      (Some ip) (ru_permanent rule) db
                in (Ok b, db)))"

definition hammer_ban_for_ip :: "string \<Rightarrow> 'a db \<Rightarrow> (db_error, ban option) result \<times> 'a db" where
  "hammer_ban_for_ip ip db =
     (let (rule, db) = get_rule rule_hammering db
      in case rule of
           None \<Rightarrow> (Ok None, db)
         | Some r \<Rightarrow>
             if \<not> rule_active rule then (Ok None, db)
             else apply_hammer_ban_if_threshold ip r ''hammer'' rule_hammering ''Hammering'' ''requests'' db)"

definition login_hammer_ban_for_ip :: "string \<Rightarrow> 'a db \<Rightarrow> (db_error, ban option) result \<times> 'a db" where
  "login_hammer_ban_for_ip ip db =
     (let (rule, db) = get_rule rule_hammering_login db
      in case rule of
           None \<Rightarrow> (Ok None, db)
         | Some r \<Rightarrow>
             if \<not> rule_active rule then (Ok None, db)
             else apply_hammer_ban_if_threshold ip r ''hammer_login'' rule_hammering_login
                    ''Login hammering'' ''login requests'' db)"

section \<open>Concurrent requests\<close>

definition begin_concurrent :: "string \<Rightarrow> 'a db \<Rightarrow> 'a db" where
  "begin_concurrent ip db =
     (if ip = [] then db else db\<lparr>concurrent := (concurrent db)(ip := concurrent db ip + 1)\<rparr>)"

definition end_concurrent :: "string \<Rightarrow> 'a db \<Rightarrow> 'a db" where
  "end_concurrent ip db =
     (if ip = [] then db else db\<lparr>concurrent := (concurrent db)(ip := max 0 (concurrent db ip - 1))\<rparr>)"

definition concurrent_over_threshold :: "string \<Rightarrow> 'a db \<Rightarrow> bool \<times> 'a db" where
  "concurrent_over_threshold ip db =
     (let (rule, db) = get_rule rule_concurrent db
      in case rule of
           None \<Rightarrow> (False, db)
         | Some r \<Rightarrow> if \<not> rule_active rule then (False, db) else (ru_threshold r \<le> concurrent db ip, db))"

definition concurrent_limit_exceeded :: "string \<Rightarrow> 'a db \<Rightarrow> bool \<times> 'a db" where
  "concurrent_limit_exceeded ip db =
     (let (rule, db) = get_rule rule_concurrent db
      in case rule of
           None \<Rightarrow> (False, db)
         | Some r \<Rightarrow>
             if \<not> rule_active rule then (False, db)
             else if is_allowlisted db (Some ip) None then (False, db)
             else (ru_threshold r \<le> concurrent db ip, db))"

section \<open>Sensitive requests\<close>

definition record_sensitive_request ::
  "string \<Rightarrow> string \<Rightarrow> string \<Rightarrow> 'a db \<Rightarrow> (db_error, ban option) result \<times> 'a db" where
  "record_sensitive_request ip path meth db =
     (let (pol, db) = get_policy db
      in if \<not> po_enabled pol then (Ok None, db)
         else if ip = [] \<or> is_allowlisted db (Some ip) None then (Ok None, db)
         else (let (ex, db) = is_breakglass_ban_exempt db (Some ip)
               in if ex then (Ok None, db)
                  else (let (over, db) = concurrent_over_threshold ip db
                        in if over then (Ok None, db)
                           else bind_res (hammer_ban_for_ip ip db)
                                  (\<lambda>ban db. if ban = None \<and> is_login_path path meth
                                            then login_hammer_ban_for_ip ip db
                                            else (Ok ban, db)))))"

section \<open>Unknown hosts\<close>

definition ban_unknown_host_hammering ::
  "string \<Rightarrow> int \<Rightarrow> ban_rule \<Rightarrow> string option \<Rightarrow> string option \<Rightarrow> 'a db \<Rightarrow> ban option \<times> 'a db" where
  "ban_unknown_host_hammering ip_n count rule hostname uri db =
     (let (ban, db) = apply_ban target_ip ip_n
            (''Unknown host hammering: '' @ show_int count @ '' refusals'' @ in_seconds (ru_window rule))
            (Some rule_unknown_host) (ru_permanent rule) (int_or (ru_ban_minutes rule) 1440) ''system''
            (Some ip_n) (ru_permanent rule) db
      in case ban of
           None \<Rightarrow> (None, db)
         | Some b \<Rightarrow>
             (Some b, log_action ''system'' ''security.unknown_host_hammering.detected'' (Some (''ip:'' @ ip_n))
                [(''count'', JInt count), (''window_seconds'', JInt (int_or (ru_window rule) 300)),
                 (''hostname'', jopt (str_opt (take 253 (opt_str hostname)))),
                 (''uri'', jopt (str_opt (take 1024 (opt_str uri)))), (''ban_id'', JInt (b_id b))]
                (Some ip_n) db))"

definition record_unknown_host_refusal ::
  "string \<Rightarrow> string option \<Rightarrow> string option \<Rightarrow> 'a db \<Rightarrow> (db_error, ban option) result \<times> 'a db" where
  "record_unknown_host_refusal ip hostname uri db =
     (let (pol, db) = get_policy db;
          ip_n = strip ip
      in if \<not> po_enabled pol then (Ok None, db)
         else if ip_n = [] \<or> is_allowlisted db (Some ip_n) None then (Ok None, db)
         else (let (ex, db) = is_breakglass_ban_exempt db (Some ip_n)
               in if ex then (Ok None, db)
                  else (case find_active_ban (Some ip_n) None db of
                          (Some _, db) \<Rightarrow> (Ok None, db)
                        | (None, db) \<Rightarrow>
                            (let (rule, db) = get_rule rule_unknown_host db
                             in case rule of
                                  None \<Rightarrow> (Ok None, db)
                                | Some r \<Rightarrow>
                                    if \<not> rule_active rule then (Ok None, db)
                                    else bind_res (prune_and_count ''unknown_host'' ip_n (int_or (ru_window r) 300) db)
                                           (\<lambda>count db.
                                              if count < ru_threshold r then (Ok None, db)
                                              else (let (b, db) = ban_unknown_host_hammering ip_n count r hostname uri db
                                                    in (Ok b, db)))))))"

section \<open>The 429 throttle\<close>

definition recent_rate_limit_audit :: "string \<Rightarrow> string \<Rightarrow> int \<Rightarrow> 'a db \<Rightarrow> bool" where
  "recent_rate_limit_audit ip rule_type window db =
     list_ex (\<lambda>r. map_of (au_details r) ''rule_type'' = Some (JStr rule_type))
       (take 20 (filter (\<lambda>r. au_action r = ''security.rate_limited'' \<and> au_target r = Some (''ip:'' @ ip)
                             \<and> event_cutoff (clock db) window \<le> au_at r) (audit db)))"

definition evaluate_rate_limit_rule ::
  "string \<Rightarrow> string \<Rightarrow> string \<Rightarrow> string \<Rightarrow> string \<Rightarrow> 'a db \<Rightarrow> (db_error, bool \<times> int) result \<times> 'a db" where
  "evaluate_rate_limit_rule ip path meth rule_type kind db =
     (let (rule, db) = get_rule rule_type db
      in case rule of
           None \<Rightarrow> (Ok (False, 0), db)
         | Some r \<Rightarrow>
             if \<not> rule_active rule then (Ok (False, 0), db)
             else (let window = int_or (ru_window r) 1;
                       threshold = ru_threshold r
                   in bind_res (prune_and_count kind ip window db)
                        (\<lambda>count db.
                           if count \<le> threshold then (Ok (False, 0), db)
                           else (let should_audit = (count = threshold + 1 \<or>
                                         (threshold + 1 < count \<and> count \<le> threshold + 3 \<and>
                                          \<not> recent_rate_limit_audit ip rule_type window db))
                                 in (Ok (True, window),
                                     if should_audit
                                     then log_action ''system'' ''security.rate_limited'' (Some (''ip:'' @ ip))
                                            [(''rule_type'', JStr rule_type), (''count'', JInt count),
                                             (''threshold'', JInt threshold), (''window_seconds'', JInt window),
                                             (''path'', JStr (take 120 path)), (''method'', JStr (take 16 meth))]
                                            (Some ip) db
                                     else db)))))"

fun evaluate_rate_limit_rules ::
  "string \<Rightarrow> string \<Rightarrow> string \<Rightarrow> (string \<times> string) list \<Rightarrow> bool \<Rightarrow> int \<Rightarrow> 'a db
   \<Rightarrow> (db_error, bool \<times> int) result \<times> 'a db" where
  \<comment> \<open>the loop over the applicable rules\<close>
  "evaluate_rate_limit_rules ip path meth [] limited retry_after db = (Ok (limited, retry_after), db)"
| "evaluate_rate_limit_rules ip path meth ((rule_type, kind) # checks) limited retry_after db =
     bind_res (evaluate_rate_limit_rule ip path meth rule_type kind db)
       (\<lambda>(hit, wait) db.
          if hit then evaluate_rate_limit_rules ip path meth checks True (max retry_after wait) db
          else evaluate_rate_limit_rules ip path meth checks limited retry_after db)"

definition record_rate_limited_request ::
  "string \<Rightarrow> string \<Rightarrow> string \<Rightarrow> 'a db \<Rightarrow> (db_error, bool \<times> int) result \<times> 'a db" where
  "record_rate_limited_request ip path meth db =
     (let (pol, db) = get_policy db
      in if \<not> po_enabled pol \<or> ip = [] \<or> is_allowlisted db (Some ip) None then (Ok (False, 0), db)
         else (let (ex, db) = is_breakglass_ban_exempt db (Some ip)
               in if ex then (Ok (False, 0), db)
                  else evaluate_rate_limit_rules ip path meth
                         ((rule_rate_limit, ''rate'') #
                          (if is_login_path path meth then [(rule_rate_limit_login, ''rate_login'')] else []))
                         False 0 db))"

definition enabled_window :: "string \<Rightarrow> 'a db \<Rightarrow> int list" where
  "enabled_window t db =
     (case rule_of t db of None \<Rightarrow> [] | Some r \<Rightarrow> if ru_enabled r then [int_or (ru_window r) 60] else [])"

definition rate_limit_retry_after :: "string \<Rightarrow> string \<Rightarrow> 'a db \<Rightarrow> int \<times> 'a db" where
  "rate_limit_retry_after path meth db =
     (let db = ensure_security_defaults db;
          windows = enabled_window rule_rate_limit db @
            (if is_login_path path meth then enabled_window rule_rate_limit_login db else [])
      in (if windows = [] then 60 else foldr max (tl windows) (hd windows), db))"

section \<open>Logins\<close>

definition record_successful_login ::
  "string \<Rightarrow> string \<Rightarrow> 'a db \<Rightarrow> (db_error, ban option) result \<times> 'a db" where
  "record_successful_login ip username db =
     (let (pol, db) = get_policy db;
          uname = normalize_username (Some username)
      in if \<not> po_enabled pol then (Ok None, db)
         else if uname = [] \<or> ip = [] then (Ok None, db)
         else if is_allowlisted db (Some ip) (Some uname) then (Ok None, db)
         else (let (rule, db) = get_rule rule_successful_login db
               in case rule of
                    None \<Rightarrow> (Ok None, db)
                  | Some r \<Rightarrow>
                      if \<not> rule_active rule then (Ok None, db)
                      else bind_res (prune_and_count ''success_ip'' ip (int_or (ru_window r) 1) db)
                        (\<lambda>count db.
                           if count < ru_threshold r then (Ok None, db)
                           else (let (ban, db) = apply_ban target_username uname
                                       (''Successful-login hammering: '' @ show_int count @ '' logins from '' @ ip
                                          @ in_seconds (ru_window r))
                                       (Some rule_successful_login) (ru_permanent r)
                                       (int_or (ru_ban_minutes r) 30) ''system'' (Some ip) (ru_permanent r) db
                                 in case ban of
                                      None \<Rightarrow> (Ok None, db)
                                    | Some b \<Rightarrow>
                                        (Ok (Some b),
                                         log_action uname ''security.successful_login_hammering.detected''
                                           (Some (''username:'' @ uname))
                                           [(''ip'', JStr ip), (''count'', JInt count),
                                            (''window_seconds'', JInt (ru_window r))] (str_opt ip) db)))))"

record login_eval =
  le_allowed :: bool
  le_ban :: "ban option"
  le_hack :: bool
  le_detail :: string

definition login_allowed :: login_eval where
  "login_allowed = \<lparr>le_allowed = True, le_ban = None, le_hack = False, le_detail = []\<rparr>"

definition decoy_usernames :: "ban_rule \<Rightarrow> string list" where
  "decoy_usernames r =
     (case ru_config r of
        None \<Rightarrow> []
      | Some c \<Rightarrow> (case cfg_usernames c of None \<Rightarrow> [] | Some us \<Rightarrow> map (\<lambda>u. normalize_username (Some u)) us))"

definition bans_username :: "ban_rule \<Rightarrow> bool" where
  \<comment> \<open>\<open>cfg.get('ban_username', True)\<close>\<close>
  "bans_username r =
     (case ru_config r of
        None \<Rightarrow> True
      | Some c \<Rightarrow> (case cfg_ban_username c of None \<Rightarrow> True | Some b \<Rightarrow> b))"

definition count_failed_ip :: "ban_rule \<Rightarrow> string \<Rightarrow> 'a db \<Rightarrow> (db_error, ban option) result \<times> 'a db" where
  "count_failed_ip r ip db =
     (let window = int_or (ru_window r) 1
      in if ip = [] then (Ok None, db)
         else bind_res (prune_and_count ''fail_ip'' ip window db)
                (\<lambda>ip_count db.
                   if ip_count < ru_threshold r then (Ok None, db)
                   else (let (ex, db) = is_breakglass_ban_exempt db (Some ip)
                         in if ex then (Ok None, db)
                            else (let (b, db) = apply_ban target_ip ip
                                        (''Failed logins: '' @ show_int ip_count @ in_seconds window)
                                        (Some rule_failed_login) (ru_permanent r)
                                        (int_or (ru_ban_minutes r) 30) ''system'' (Some ip) (ru_permanent r) db
                                  in (Ok b, db)))))"

definition count_failed_user ::
  "ban_rule \<Rightarrow> string \<Rightarrow> string \<Rightarrow> 'a db \<Rightarrow> (db_error, ban option) result \<times> 'a db" where
  "count_failed_user r ip uname db =
     (let window = int_or (ru_window r) 1
      in if uname = [] \<or> \<not> bans_username r then (Ok None, db)
         else bind_res (prune_and_count ''fail_user'' uname window db)
                (\<lambda>user_count db.
                   if user_count < ru_threshold r then (Ok None, db)
                   else (let (b, db) = apply_ban target_username uname
                               (''Failed logins on account: '' @ show_int user_count @ in_seconds window)
                               (Some rule_failed_login) (ru_permanent r)
                               (int_or (ru_ban_minutes r) 30) ''system'' (Some ip) (ru_permanent r) db
                         in (Ok b, db))))"

definition count_failed_login :: "ban_rule \<Rightarrow> string \<Rightarrow> string \<Rightarrow> 'a db \<Rightarrow> login_eval \<times> 'a db" where
  \<comment> \<open>the \<open>try\<close> block: a store that cannot count is not a refusal\<close>
  "count_failed_login r ip uname db =
     (case bind_res (count_failed_ip r ip db)
             (\<lambda>b1 db. bind_res (count_failed_user r ip uname db)
                (\<lambda>b2 db. (Ok (case b2 of Some b \<Rightarrow> Some b | None \<Rightarrow> b1), db))) of
        (Raise SqlError, db) \<Rightarrow> (login_allowed, db)
      | (Ok None, db) \<Rightarrow> (login_allowed, db)
      | (Ok (Some b), db) \<Rightarrow>
          (\<lparr>le_allowed = False, le_ban = Some b, le_hack = False, le_detail = ''failed_login_threshold''\<rparr>, db))"

definition refuse_decoy :: "ban_rule \<Rightarrow> string \<Rightarrow> string \<Rightarrow> 'a db \<Rightarrow> login_eval \<times> 'a db" where
  "refuse_decoy r ip uname db =
     (let db = log_action uname ''security.hack_attempt.detected'' (Some (''username:'' @ uname))
                 [(''ip'', JStr ip)] (str_opt ip) db;
          (b, db) = apply_ban target_ip ip (''Hack attempt username: '' @ uname) (Some rule_hack_username)
                      (ru_permanent r) (int_or (ru_ban_minutes r) 1440) ''system'' (Some ip) (ru_permanent r) db
      in (\<lparr>le_allowed = False, le_ban = b, le_hack = True, le_detail = ''hack_username''\<rparr>, db))"

definition evaluate_outcome :: "string \<Rightarrow> string \<Rightarrow> bool \<Rightarrow> 'a db \<Rightarrow> login_eval \<times> 'a db" where
  \<comment> \<open>the part after the decoy names\<close>
  "evaluate_outcome ip uname success db =
     (if success then (login_allowed, db)
      else (let (fail_rule, db) = get_rule rule_failed_login db
            in case fail_rule of
                 None \<Rightarrow> (login_allowed, db)
               | Some f \<Rightarrow>
                   if \<not> rule_active fail_rule then (login_allowed, db)
                   else count_failed_login f ip uname db))"

definition evaluate_login_attempt :: "string \<Rightarrow> string \<Rightarrow> bool \<Rightarrow> 'a db \<Rightarrow> login_eval \<times> 'a db" where
  "evaluate_login_attempt ip username success db =
     (let (pol, db) = get_policy db;
          uname = normalize_username (Some username)
      in if \<not> po_enabled pol then (login_allowed, db)
         else if is_allowlisted db (Some ip) (Some uname) then (login_allowed, db)
         else (case find_active_ban (Some ip) (Some uname) db of
                 (Some active, db) \<Rightarrow>
                   (\<lparr>le_allowed = False, le_ban = Some active, le_hack = False, le_detail = ''already_banned''\<rparr>, db)
               | (None, db) \<Rightarrow>
                   (let (hack_rule, db) = get_rule rule_hack_username db
                    in case hack_rule of
                         Some h \<Rightarrow>
                           if ru_enabled h \<and> uname \<noteq> [] \<and> uname \<in> set (decoy_usernames h)
                           then refuse_decoy h ip uname db
                           else evaluate_outcome ip uname success db
                       | None \<Rightarrow> evaluate_outcome ip uname success db)))"

definition identity_username_from_headers :: "(string \<Rightarrow> string option) \<Rightarrow> string" where
  "identity_username_from_headers headers =
     (let email = strip (opt_str (headers ''X-Email''));
          user = strip (opt_str (headers ''X-User''));
          preferred = strip (opt_str (headers ''X-Preferred-Username''))
      in case first_row (\<lambda>c. c \<noteq> [] \<and> CHR ''@'' \<in> set c) [email, preferred, user] of
           Some c \<Rightarrow> normalize_username (Some c)
         | None \<Rightarrow> (case first_row (\<lambda>c. c \<noteq> []) [preferred, user, email] of
                      Some c \<Rightarrow> normalize_username (Some c)
                    | None \<Rightarrow> []))"

section \<open>The gate\<close>

datatype gate_reason = Pass | Banned | ConcurrentLimit | Hammering | RateLimited

definition check_request_allowed ::
  "string \<Rightarrow> string \<Rightarrow> string \<Rightarrow> string option \<Rightarrow> 'a db
   \<Rightarrow> (db_error, bool \<times> gate_reason \<times> ban option) result \<times> 'a db" where
  "check_request_allowed ip path meth username db =
     (let (pol, db) = get_policy db;
          uname = normalize_username username
      in if \<not> po_enabled pol \<or> \<not> is_sensitive_path path then (Ok (True, Pass, None), db)
         else if is_allowlisted db (Some ip) (str_opt uname) then (Ok (True, Pass, None), db)
         else (case find_active_ban (Some ip) (str_opt uname) db of
                 (Some b, db) \<Rightarrow> (Ok (False, Banned, Some b), db)
               | (None, db) \<Rightarrow>
                   (let (full, db) = concurrent_limit_exceeded ip db
                    in if full then (Ok (False, ConcurrentLimit, None), db)
                       else bind_res (record_sensitive_request ip path meth db)
                         (\<lambda>new_ban db.
                            case new_ban of
                              Some b \<Rightarrow> (Ok (False, Hammering, Some b), db)
                            | None \<Rightarrow>
                                (case find_active_ban (Some ip) (str_opt uname) db of
                                   (Some b, db) \<Rightarrow> (Ok (False, Banned, Some b), db)
                                 | (None, db) \<Rightarrow>
                                     bind_res (record_rate_limited_request ip path meth db)
                                       (\<lambda>(limited, retry) db.
                                          if limited then (Ok (False, RateLimited, None), db)
                                          else (Ok (True, Pass, None), db)))))))"

section \<open>Bans that follow nginx rejections\<close>

definition count_historical_nginx_limit_bans :: "string \<Rightarrow> 'a db \<Rightarrow> int" where
  "count_historical_nginx_limit_bans ip db =
     (let ip_n = strip ip
      in if ip_n = [] then 0
         else int (length (filter (\<lambda>b. b_type b = target_ip \<and> b_target b = ip_n \<and> b_rule b = Some rule_nginx_limit_req)
                             (bans db))))"

definition progressive_nginx_limit_ttl :: "int \<Rightarrow> int list option \<Rightarrow> int \<Rightarrow> bool \<times> int" where
  "progressive_nginx_limit_ttl prior ladder_minutes permanent_after =
     (let ladder = (case ladder_minutes of Some (x # xs) \<Rightarrow> x # xs | _ \<Rightarrow> nginx_limit_ttl_ladder);
          after = max 1 (int_or permanent_after 3);
          offense = max 0 prior + 1
      in if after \<le> offense then (True, 0)
         else (False, max 1 (ladder ! nat (min (offense - 1) (int (length ladder) - 1)))))"

definition apply_nginx_limit_req_ban ::
  "string \<Rightarrow> int \<Rightarrow> int \<Rightarrow> string option \<Rightarrow> 'a db \<Rightarrow> ban option \<times> 'a db" where
  "apply_nginx_limit_req_ban ip rejection_count window_seconds zone db =
     (let (rule, db) = get_rule rule_nginx_limit_req db
      in case rule of
           None \<Rightarrow> (None, db)
         | Some r \<Rightarrow>
             if \<not> ru_enabled r then (None, db)
             else (let ip_n = strip ip
                   in if ip_n = [] then (None, db)
                      else (let cfg = (case ru_config r of None \<Rightarrow> no_config | Some c \<Rightarrow> c);
                                ladder = (case cfg_ttl_ladder cfg of Some (x # xs) \<Rightarrow> x # xs | _ \<Rightarrow> nginx_limit_ttl_ladder);
                                permanent_after = opt_int_or (cfg_permanent_after cfg) 3;
                                prior = count_historical_nginx_limit_bans ip_n db;
                                (permanent, ban_minutes) = progressive_nginx_limit_ttl prior (Some ladder) permanent_after;
                                label = strip (opt_str zone);
                                zone_label = (if label = [] then ''unknown'' else label);
                                reason = ''Auto-Ban: d'' @ [CHR 0xE9] @ ''passement critique Zone '' @ zone_label @
                                         '' ('' @ show_int rejection_count @ ''x429 / '' @ show_int window_seconds @ ''s)''
                            in apply_ban target_ip ip_n reason (Some rule_nginx_limit_req) permanent ban_minutes
                                 ''system'' (Some ip_n) permanent db)))"

lemmas gate2_defs [py_defs] =
  in_seconds_def apply_hammer_ban_if_threshold_def hammer_ban_for_ip_def login_hammer_ban_for_ip_def
  begin_concurrent_def end_concurrent_def concurrent_over_threshold_def concurrent_limit_exceeded_def
  record_sensitive_request_def ban_unknown_host_hammering_def record_unknown_host_refusal_def
  recent_rate_limit_audit_def evaluate_rate_limit_rule_def record_rate_limited_request_def
  enabled_window_def rate_limit_retry_after_def record_successful_login_def login_allowed_def
  decoy_usernames_def bans_username_def count_failed_ip_def count_failed_user_def
  count_failed_login_def refuse_decoy_def evaluate_outcome_def evaluate_login_attempt_def
  identity_username_from_headers_def check_request_allowed_def
  count_historical_nginx_limit_bans_def progressive_nginx_limit_ttl_def apply_nginx_limit_req_ban_def

section \<open>The operations are sequences of steps\<close>

lemmas ban_run_intros [reach] =
  ban_runs.run_snd ban_runs.run_if ban_runs.run_if_state ban_runs.run_option ban_runs.run_pair
  ban_runs.run_bind ban_runs.run_pair_app ban_runs.run_let

lemma steps_log [reach]: "ban_steps db (log_action a b c d i db)"
  by (intro ban_step_steps step_audit)

lemma steps_defaults [reach]: "ban_steps db (ensure_security_defaults db)"
  by (intro ban_step_steps step_defaults)

lemma get_policy_steps [reach]: "ban_steps db (snd (get_policy db))"
  by (simp add: get_policy_def Let_def steps_defaults)

lemma get_rule_steps [reach]: "ban_steps db (snd (get_rule t db))"
  by (simp add: get_rule_def Let_def steps_defaults)

lemma hammer_threshold_steps [reach]:
  "ban_steps db (snd (apply_hammer_ban_if_threshold ip r k t p u db))"
  unfolding apply_hammer_ban_if_threshold_def by (intro reach ban_steps_refl)

lemma hammer_steps [reach]: "ban_steps db (snd (hammer_ban_for_ip ip db))"
  unfolding hammer_ban_for_ip_def by (intro reach ban_steps_refl)

lemma login_hammer_steps [reach]: "ban_steps db (snd (login_hammer_ban_for_ip ip db))"
  unfolding login_hammer_ban_for_ip_def by (intro reach ban_steps_refl)

lemma concurrent_over_steps [reach]: "ban_steps db (snd (concurrent_over_threshold ip db))"
  unfolding concurrent_over_threshold_def by (intro reach ban_steps_refl)

lemma concurrent_exceeded_steps [reach]: "ban_steps db (snd (concurrent_limit_exceeded ip db))"
  unfolding concurrent_limit_exceeded_def by (intro reach ban_steps_refl)

lemma record_sensitive_steps [reach]: "ban_steps db (snd (record_sensitive_request ip p m db))"
  unfolding record_sensitive_request_def by (intro reach ban_steps_refl)

lemma ban_unknown_steps [reach]: "ban_steps db (snd (ban_unknown_host_hammering ip c r h u db))"
  unfolding ban_unknown_host_hammering_def by (intro reach ban_steps_refl)

lemma record_unknown_steps [reach]: "ban_steps db (snd (record_unknown_host_refusal ip h u db))"
  unfolding record_unknown_host_refusal_def by (intro reach ban_steps_refl)

lemma evaluate_rule_steps [reach]: "ban_steps db (snd (evaluate_rate_limit_rule ip p m t k db))"
  unfolding evaluate_rate_limit_rule_def by (intro reach ban_steps_refl)

lemma evaluate_rules_steps [reach]: "ban_steps db (snd (evaluate_rate_limit_rules ip p m cs l ra db))"
proof (induction cs arbitrary: l ra db)
  case (Cons c cs)
  obtain t k where "c = (t, k)" by (cases c)
  then show ?case by (auto intro!: ban_runs.run_bind evaluate_rule_steps Cons split: prod.split)
qed simp

lemma record_rate_limited_steps [reach]: "ban_steps db (snd (record_rate_limited_request ip p m db))"
  unfolding record_rate_limited_request_def by (intro reach ban_steps_refl)

lemma successful_login_steps [reach]: "ban_steps db (snd (record_successful_login ip u db))"
  unfolding record_successful_login_def by (intro reach ban_steps_refl)

lemma count_failed_ip_steps [reach]: "ban_steps db (snd (count_failed_ip r ip db))"
  unfolding count_failed_ip_def by (intro reach ban_steps_refl)

lemma count_failed_user_steps [reach]: "ban_steps db (snd (count_failed_user r ip u db))"
  unfolding count_failed_user_def by (intro reach ban_steps_refl)

lemma steps_login_result [reach]:
  "(\<And>b. r = Ok b \<Longrightarrow> ban_steps db (snd (f b))) \<Longrightarrow> (r = Raise SqlError \<Longrightarrow> ban_steps db (snd x)) \<Longrightarrow>
   ban_steps db (snd (case r of Raise e \<Rightarrow> (case e of SqlError \<Rightarrow> x) | Ok b \<Rightarrow> f b))"
  by (cases r) (auto split: db_error.split)

lemma count_failed_login_steps [reach]: "ban_steps db (snd (count_failed_login r ip u db))"
  unfolding count_failed_login_def by (intro reach ban_steps_refl)

lemma refuse_decoy_steps [reach]: "ban_steps db (snd (refuse_decoy r ip u db))"
  unfolding refuse_decoy_def Let_def
  by (simp add: case_prod_beta) (rule ban_steps_trans [OF steps_log apply_ban_steps])

lemma evaluate_outcome_steps [reach]: "ban_steps db (snd (evaluate_outcome ip u s db))"
  unfolding evaluate_outcome_def by (intro reach ban_steps_refl)

lemma evaluate_login_steps [reach]: "ban_steps db (snd (evaluate_login_attempt ip u s db))"
  unfolding evaluate_login_attempt_def by (intro reach ban_steps_refl)

lemma check_request_steps [reach]: "ban_steps db (snd (check_request_allowed ip p m u db))"
  unfolding check_request_allowed_def by (intro reach ban_steps_refl)

lemma nginx_ban_steps [reach]: "ban_steps db (snd (apply_nginx_limit_req_ban ip n w z db))"
  unfolding apply_nginx_limit_req_ban_def
  by (intro reach ban_steps_refl) (simp add: apply_ban_steps case_prod_beta Let_def)

end
