(* ===== verification/GateLaws.thy ===== *)
theory GateLaws
  imports BanGate
begin

text \<open>
  What the engine of \<open>app/security/banning/engine.py\<close> promises: the sliding windows are exact, the
  gate of the sensitive paths passes the allow list and stops every ban in force, the throttle
  never creates a ban, the login evaluation survives an outage of the hot store, and no request
  deletes a ban or lifts one before its end.
\<close>

section \<open>Sliding windows\<close>

context rate_store
begin

definition hits :: "'k \<Rightarrow> (int \<Rightarrow> int) \<Rightarrow> int list \<Rightarrow> 't \<Rightarrow> 't" where
  \<comment> \<open>events counted one after the other, each pruning from its own cutoff\<close>
  "hits k cutoff ts t = fold (\<lambda>x. hit k (cutoff x) x) ts t"

lemma hits_window:
  assumes "mono cutoff" and "\<And>x. x \<in> set ts \<Longrightarrow> x \<le> now"
  shows "filter (\<lambda>x. cutoff now \<le> x) (times (hits k cutoff ts t) k) =
         filter (\<lambda>x. cutoff now \<le> x) (times t k @ ts)"
  using assms(2)
proof (induction ts arbitrary: t)
  case Nil
  then show ?case by (simp add: hits_def)
next
  case (Cons x ts)
  have le: "cutoff x \<le> cutoff now" using Cons.prems assms(1) by (simp add: monoD)
  have "filter (\<lambda>y. cutoff now \<le> y) (filter (\<lambda>y. cutoff x \<le> y) ys) = filter (\<lambda>y. cutoff now \<le> y) ys" for ys
    using le by (induction ys) auto
  with Cons show ?case by (simp add: hits_def times_hit)
qed

lemma hits_count:
  assumes "mono cutoff" and "cutoff now \<le> now" and "\<And>x. x \<in> set ts \<Longrightarrow> x \<le> now"
  shows "count_since k (cutoff now) (hit k (cutoff now) now (hits k cutoff ts t)) =
         length (filter (\<lambda>x. cutoff now \<le> x) (times t k @ ts @ [now]))"
  using hits_window [OF assms(1,3), where k = k and t = t] assms(2) by (simp add: count_hit) (simp add: count_since)

end

definition window_length :: "int \<Rightarrow> int" where
  "window_length window = seconds (max 1 (int_or window 1))"

lemma event_cutoff_alt: "event_cutoff now w = now - window_length w"
  by (simp add: event_cutoff_def window_length_def)

lemma mono_event_cutoff: "mono (\<lambda>now. event_cutoff now w)"
  by (rule monoI) (simp add: event_cutoff_alt)

lemma event_cutoff_less: "event_cutoff now w < now"
  by (simp add: event_cutoff_def seconds_def)

definition record_at :: "string \<Rightarrow> string \<Rightarrow> int \<Rightarrow> int \<Rightarrow> 'a db \<Rightarrow> 'a db" where
  \<comment> \<open>one event counted at the instant \<open>t\<close>\<close>
  "record_at kind key w t db = snd (prune_and_count kind key w (db\<lparr>clock := t\<rparr>))"

lemma prune_and_count_up:
  assumes "hot_up db" and "event_key key \<noteq> []"
  shows "prune_and_count kind key w db =
    (let k = (kind, event_key key); c = event_cutoff (clock db) w;
         es = rates.hit k c (clock db) (rate_events db)
     in (Ok (int (count_events k c es)), db\<lparr>rate_events := es\<rparr>))"
  using assms by (simp add: prune_and_count_def rates.hit_def Let_def)

lemma record_at_fold:
  assumes "hot_up db" and "event_key key \<noteq> []"
  shows "rate_events (fold (record_at kind key w) ts db) =
           rates.hits (kind, event_key key) (\<lambda>x. event_cutoff x w) ts (rate_events db)"
    and "hot_up (fold (record_at kind key w) ts db)"
proof -
  have "rate_events (fold (record_at kind key w) ts db) =
           rates.hits (kind, event_key key) (\<lambda>x. event_cutoff x w) ts (rate_events db) \<and>
        hot_up (fold (record_at kind key w) ts db)"
    using assms(1)
  proof (induction ts arbitrary: db)
    case Nil
    then show ?case by (simp add: rates.hits_def)
  next
    case (Cons t ts)
    have "rate_events (record_at kind key w t db) =
        rates.hit (kind, event_key key) (event_cutoff t w) t (rate_events db) \<and> hot_up (record_at kind key w t db)"
      using Cons.prems assms(2) by (simp add: record_at_def prune_and_count_up Let_def)
    with Cons.IH [of "record_at kind key w t db"] show ?case by (simp add: rates.hits_def)
  qed
  then show "rate_events (fold (record_at kind key w) ts db) =
           rates.hits (kind, event_key key) (\<lambda>x. event_cutoff x w) ts (rate_events db)"
    and "hot_up (fold (record_at kind key w) ts db)" by auto
qed

text \<open>The sliding window is exact. After any sequence of counted events, in any order of
  earlier instants, the next count is the number of those events (and of the events already stored)
  that lie within the window, the new one included: pruning the table never loses an event that
  still counts.\<close>

theorem sliding_window_exact:
  assumes "hot_up db" and "event_key key \<noteq> []" and "\<And>t. t \<in> set ts \<Longrightarrow> t \<le> now"
  shows "fst (prune_and_count kind key w ((fold (record_at kind key w) ts db)\<lparr>clock := now\<rparr>)) =
    Ok (int (length (filter (\<lambda>x. event_cutoff now w \<le> x)
       (event_times (rate_events db) (kind, event_key key) @ ts @ [now]))))"
proof -
  let ?d = "(fold (record_at kind key w) ts db)\<lparr>clock := now\<rparr>"
  have up: "hot_up ?d" using record_at_fold(2) [OF assms(1,2)] by simp
  have c: "event_cutoff now w \<le> now" using event_cutoff_less [of now w] by simp
  show ?thesis
    using rates.hits_count [OF mono_event_cutoff c assms(3), where ts = ts and k = "(kind, event_key key)" and t = "rate_events db"]
      record_at_fold(1) [OF assms(1,2), of kind w ts]
    by (simp add: prune_and_count_up [OF up assms(2)] Let_def)
qed

theorem sliding_window_exact_witness:
  "fst (prune_and_count ''hammer'' ''203.0.113.9'' 100
     ((fold (record_at ''hammer'' ''203.0.113.9'' 100) [0, 60000000, 150000000] (fresh_db 0))\<lparr>clock := 160000000\<rparr>)) = Ok 3"
proof -
  have "hot_up (fresh_db 0)" "event_key ''203.0.113.9'' \<noteq> []" by code_simp+
  moreover have "\<And>t. t \<in> set [0, 60000000, 150000000] \<Longrightarrow> t \<le> (160000000 :: int)" by auto
  ultimately have "fst (prune_and_count ''hammer'' ''203.0.113.9'' 100
     ((fold (record_at ''hammer'' ''203.0.113.9'' 100) [0, 60000000, 150000000] (fresh_db 0))\<lparr>clock := 160000000\<rparr>)) =
     Ok (int (length (filter (\<lambda>x. event_cutoff 160000000 100 \<le> x)
       (event_times (rate_events (fresh_db 0)) (''hammer'', event_key ''203.0.113.9'') @
         [0, 60000000, 150000000] @ [160000000]))))"
    by (rule sliding_window_exact)
  then show ?thesis by (simp add: event_cutoff_def seconds_def int_or_def event_times_def fresh_db_def)
qed

section \<open>The gate of the sensitive paths\<close>

lemma normalize_str_opt [simp]: "normalize_username (str_opt (normalize_username u)) = normalize_username u"
proof -
  have "normalize_username (Some s) = normalize_username (str_opt s)" for s
    by (simp add: normalize_username_def opt_str_def str_opt_def)
  then show ?thesis by (metis normalize_username_idem)
qed

lemma lift_keeps_unexpired:
  assumes "b \<in> set (bans db)" and "\<not> ban_expired (clock db) b"
  shows "b \<in> set (bans (snd (lift_expired_bans a db)))"
proof (cases "hot_up db")
  case True
  with assms show ?thesis by (auto simp: lift_expired_rows set_update_rows image_iff)
next
  case False
  with assms show ?thesis by (simp add: lift_expired_down)
qed

lemma find_active_finds:
  assumes "b \<in> set (ban_candidates db (opt_str ip) (normalize_username u))" and "enforced db b"
  shows "fst (find_active_ban ip u db) \<noteq> None"
proof -
  let ?d = "snd (lift_expired_bans ''system'' db)"
  have "\<not> ban_expired (clock db) b"
    using assms(2) by (auto simp: enforced_def ban_in_force_def ban_expired_def split: option.splits)
  then have "b \<in> set (ban_candidates ?d (opt_str ip) (normalize_username u))"
    using assms(1) lift_keeps_unexpired by (auto simp: candidates_iff)
  moreover have "enforced ?d b"
    using assms(2) ban_steps_enforced [OF lift_expired_steps] by metis
  ultimately show ?thesis
    unfolding find_active_ban_def Let_def fst_conv first_row_None by blast
qed

lemma evaluate_rule_bans:
  "bans (snd (evaluate_rate_limit_rule ip p m t k db)) = bans db"
  "next_ban (snd (evaluate_rate_limit_rule ip p m t k db)) = next_ban db"
  by (auto simp: evaluate_rate_limit_rule_def get_rule_def Let_def bind_res_def prune_and_count_def
      split: option.split)

lemma evaluate_rules_bans:
  "bans (snd (evaluate_rate_limit_rules ip p m cs l ra db)) = bans db \<and>
   next_ban (snd (evaluate_rate_limit_rules ip p m cs l ra db)) = next_ban db"
proof (induction cs arbitrary: l ra db)
  case (Cons c cs)
  obtain t k where c: "c = (t, k)" by (cases c)
  obtain r d where "evaluate_rate_limit_rule ip p m t k db = (r, d)"
    by (cases "evaluate_rate_limit_rule ip p m t k db")
  with Cons evaluate_rule_bans [of ip p m t k db] c show ?case
    by (cases r) (auto split: prod.split)
qed simp

lemma record_rate_limited_bans:
  "bans (snd (record_rate_limited_request ip p m db)) = bans db \<and>
   next_ban (snd (record_rate_limited_request ip p m db)) = next_ban db"
  using is_breakglass_ban_exempt_state [of "ensure_security_defaults db" "Some ip"]
  by (auto simp: record_rate_limited_request_def get_policy_def Let_def case_prod_beta
      evaluate_rules_bans simp del: evaluate_rate_limit_rules.simps)

text \<open>An address or an account on the allow list is never refused: the gate answers at once,
  without counting the request and without looking for a ban.\<close>

theorem gate_passes_allowlisted:
  assumes "is_allowlisted db (Some ip) (str_opt (normalize_username username))"
  shows "check_request_allowed ip path meth username db = (Ok (True, Pass, None), ensure_security_defaults db)"
  using assms by (simp add: check_request_allowed_def get_policy_def Let_def)

theorem gate_passes_allowlisted_witness:
  "fst (check_request_allowed ''198.51.100.7'' ''/login'' ''POST'' None
     ((fresh_db 0)\<lparr>allowlist := [\<lparr>al_id = 1, al_type = target_ip, al_value = ''198.51.100.0/24'',
        al_comment = None, al_at = 0, al_by = ''admin''\<rparr>],
       bans := [sample_ban\<lparr>b_target := ''198.51.100.7'', b_permanent := True\<rparr>]\<rparr>)) = Ok (True, Pass, None)"
  by (subst gate_passes_allowlisted) code_simp+

text \<open>C3: the gate stops every ban in force: on a sensitive path, while the engine is enabled, a
  request whose address or account has an enforced ban and is not on the allow list is refused
  with a ban of its own, whatever the state of the hot store. (An allow-listed client passes.)\<close>

theorem gate_stops_banned:
  assumes "po_enabled (policy_of db)" and "is_sensitive_path path"
    and "\<not> is_allowlisted db (Some ip) (str_opt (normalize_username username))"
    and "b \<in> set (ban_candidates db ip (normalize_username username))" and "enforced db b"
  shows "\<exists>b' db'. check_request_allowed ip path meth username db = (Ok (False, Banned, Some b'), db') \<and>
    b' \<in> set (ban_candidates db' ip (normalize_username username)) \<and> enforced db' b'"
proof -
  let ?e = "ensure_security_defaults db"
  let ?u = "str_opt (normalize_username username)"
  obtain r db' where f: "find_active_ban (Some ip) ?u ?e = (r, db')"
    by (cases "find_active_ban (Some ip) ?u ?e")
  have "b \<in> set (ban_candidates ?e (opt_str (Some ip)) (normalize_username ?u))"
    using assms(4) by (simp add: candidates_iff opt_str_def)
  moreover have "enforced ?e b"
    using assms(5) ban_steps_enforced [OF steps_defaults] by metis
  ultimately have "fst (find_active_ban (Some ip) ?u ?e) \<noteq> None"
    by (rule find_active_finds)
  with f obtain b' where r: "r = Some b'" by auto
  have "Some b' = first_row (enforced db') (ban_candidates db' ip (normalize_username username))"
    using find_active_result [OF f] r by (simp add: opt_str_def)
  then have "b' \<in> set (ban_candidates db' ip (normalize_username username)) \<and> enforced db' b'"
    using first_row_Some by metis
  moreover have "check_request_allowed ip path meth username db = (Ok (False, Banned, Some b'), db')"
    using assms(1-3) f r by (simp add: check_request_allowed_def get_policy_def Let_def)
  ultimately show ?thesis by blast
qed

theorem gate_stops_banned_witness:
  "\<exists>b' db'. check_request_allowed ''203.0.113.9'' ''/admin'' ''GET'' None ((fresh_db 0)\<lparr>bans := [sample_ban]\<rparr>)
     = (Ok (False, Banned, Some b'), db')"
proof -
  let ?d = "(fresh_db 0)\<lparr>bans := [sample_ban]\<rparr>"
  have "po_enabled (policy_of ?d)" "is_sensitive_path ''/admin''"
    "\<not> is_allowlisted ?d (Some ''203.0.113.9'') (str_opt (normalize_username None))"
    "sample_ban \<in> set (ban_candidates ?d ''203.0.113.9'' (normalize_username None))" "enforced ?d sample_ban"
    by code_simp+
  from gate_stops_banned [OF this] show ?thesis by blast
qed




text \<open>No request deletes a ban, lifts one before its end or breaks the table: after any of the
  engine's handlers every earlier row is still there, unchanged unless its end had passed, and the
  rows (new ones included) have distinct ids, a target, and an end at least a minute after their
  start or none.\<close>

theorem engine_keeps_bans:
  assumes "bans_wf db"
    and "db' = snd (check_request_allowed ip path meth username db) \<or>
         db' = snd (evaluate_login_attempt ip name success db) \<or>
         db' = snd (record_successful_login ip name db) \<or>
         db' = snd (record_unknown_host_refusal ip hostname uri db) \<or>
         db' = snd (apply_nginx_limit_req_ban ip n window zone db)"
  shows "bans_wf db' \<and> bans_evolve db db'"
proof -
  have "ban_steps db db'"
    using assms(2) check_request_steps evaluate_login_steps successful_login_steps record_unknown_steps
      nginx_ban_steps by metis
  then show ?thesis using ban_steps_wf ban_steps_evolve assms(1) by blast
qed

theorem engine_keeps_bans_witness:
  "bans_wf (snd (check_request_allowed ''203.0.113.9'' ''/admin'' ''GET'' None
     ((fresh_db 90000000)\<lparr>bans := [sample_ban], next_ban := 2\<rparr>)))"
proof -
  have "bans_wf ((fresh_db 90000000)\<lparr>bans := [sample_ban], next_ban := 2\<rparr>)" by code_simp
  from engine_keeps_bans [OF this] show ?thesis by blast
qed

section \<open>The throttle\<close>

lemma int_or_idem [simp]: "int_or (int_or w 1) 1 = int_or w 1"
  by (simp add: int_or_def)

lemma event_cutoff_int_or [simp]: "event_cutoff now (int_or w 1) = event_cutoff now w"
  by (simp add: event_cutoff_def)

definition next_count :: "string \<Rightarrow> string \<Rightarrow> int \<Rightarrow> 'a db \<Rightarrow> int" where
  \<comment> \<open>the events of a key in the window, the one being recorded included\<close>
  "next_count kind key w db =
     int (count_events (kind, event_key key) (event_cutoff (clock db) w) (rate_events db)) + 1"

lemma prune_and_count_value:
  assumes "hot_up db" and "event_key key \<noteq> []"
  obtains es where "prune_and_count kind key w db = (Ok (next_count kind key w db), db\<lparr>rate_events := es\<rparr>)"
    and "\<And>kind' key' c. kind' \<noteq> kind \<Longrightarrow> count_events (kind', key') c es = count_events (kind', key') c (rate_events db)"
proof -
  let ?c = "event_cutoff (clock db) w"
  let ?es = "rates.hit (kind, event_key key) ?c (clock db) (rate_events db)"
  have "?c \<le> clock db" using event_cutoff_less [of "clock db" w] by simp
  then have "prune_and_count kind key w db = (Ok (next_count kind key w db), db\<lparr>rate_events := ?es\<rparr>)"
    by (simp add: prune_and_count_up [OF assms] Let_def next_count_def rates.count_hit)
  then show ?thesis
    by (rule that) (rule rates.count_hit_other, simp)
qed

definition over_limit :: "string \<Rightarrow> string \<Rightarrow> string \<Rightarrow> 'a db \<Rightarrow> bool" where
  "over_limit t kind ip db =
     (case rule_of t db of
        None \<Rightarrow> False
      | Some r \<Rightarrow> rule_active (Some r) \<and> ru_threshold r < next_count kind ip (ru_window r) db)"

lemma get_rule_ready: "ready db \<Longrightarrow> get_rule t db = (rule_of t db, db)"
  by (simp add: get_rule_def ensure_ready)

lemma get_policy_ready: "ready db \<Longrightarrow> get_policy db = (policy_of db, db)"
  by (simp add: get_policy_def ensure_ready)

lemma next_count_frame [simp]:
  "next_count k key w (log_action a b c d i db) = next_count k key w db"
  by (simp add: next_count_def)

lemma over_limit_frame [simp]:
  "over_limit t k ip (log_action a b c d i db) = over_limit t k ip db"
  by (simp add: over_limit_def split: option.split)

lemma evaluate_rule_hit:
  assumes "ready db" and "hot_up db" and "event_key ip \<noteq> []"
  obtains w d where "evaluate_rate_limit_rule ip p m t k db = (Ok (over_limit t k ip db, w), d)"
    and "ready d" and "hot_up d" and "\<And>t' k'. k' \<noteq> k \<Longrightarrow> over_limit t' k' ip d = over_limit t' k' ip db"
proof (cases "rule_active (rule_of t db)")
  case False
  then have "evaluate_rate_limit_rule ip p m t k db = (Ok (over_limit t k ip db, 0), db)"
    by (cases "rule_of t db")
      (simp_all add: evaluate_rate_limit_rule_def get_rule_ready [OF assms(1)] over_limit_def)
  then show ?thesis using that assms by blast
next
  case True
  then obtain r where r: "rule_of t db = Some r" by (auto simp: rule_active_def split: option.splits)
  obtain es where es: "prune_and_count k ip (int_or (ru_window r) 1) db =
      (Ok (next_count k ip (int_or (ru_window r) 1) db), db\<lparr>rate_events := es\<rparr>)"
    "\<And>kind' key' c. kind' \<noteq> k \<Longrightarrow> count_events (kind', key') c es = count_events (kind', key') c (rate_events db)"
    using prune_and_count_value [OF assms(2,3)] by blast
  have other: "over_limit t' k' ip (db\<lparr>rate_events := es\<rparr>) = over_limit t' k' ip db" if "k' \<noteq> k" for t' k'
    using es(2) [OF that] by (simp add: over_limit_def next_count_def split: option.split)
  have n: "next_count k ip (int_or (ru_window r) 1) db = next_count k ip (ru_window r) db"
    by (simp add: next_count_def)
  let ?d = "db\<lparr>rate_events := es\<rparr>"
  have "\<exists>w d. evaluate_rate_limit_rule ip p m t k db = (Ok (over_limit t k ip db, w), d) \<and>
      (d = ?d \<or> (\<exists>a b c e i. d = log_action a b c e i ?d))"
  proof (cases "over_limit t k ip db")
    case True
    then have "ru_threshold r < next_count k ip (ru_window r) db"
      by (simp add: over_limit_def r)
    with True es(1) \<open>rule_active (rule_of t db)\<close> show ?thesis
      by (simp add: evaluate_rate_limit_rule_def get_rule_ready [OF assms(1)] r Let_def n) blast
  next
    case False
    then have "next_count k ip (ru_window r) db \<le> ru_threshold r"
      using \<open>rule_active (rule_of t db)\<close> by (simp add: over_limit_def r)
    with False es(1) \<open>rule_active (rule_of t db)\<close> show ?thesis
      by (simp add: evaluate_rate_limit_rule_def get_rule_ready [OF assms(1)] r Let_def n)
  qed
  then show ?thesis using that assms(1,2) other by (elim exE conjE disjE) auto
qed

text \<open>The throttle is exact and harmless: a client that is neither on the allow list nor exempt is
  answered 429 exactly when an applicable rule counts more events in its window than its threshold
  (the login rule only on login paths), and however often that happens no ban is created.\<close>

theorem throttle_exact:
  assumes "ready db" and "hot_up db" and "po_enabled (policy_of db)"
    and "strip ip \<noteq> []" and "\<not> is_allowlisted db (Some ip) None" and "\<not> exempt db (Some ip)"
  shows "\<exists>wait db'. record_rate_limited_request ip path meth db =
      (Ok (over_limit rule_rate_limit ''rate'' ip db \<or>
           (is_login_path path meth \<and> over_limit rule_rate_limit_login ''rate_login'' ip db), wait), db') \<and>
    bans db' = bans db"
proof -
  have key: "event_key ip \<noteq> []" "ip \<noteq> []"
    using assms(4) by (auto simp: event_key_def strip_def lstrip_def rstrip_def)
  obtain w d where 1: "evaluate_rate_limit_rule ip path meth rule_rate_limit ''rate'' db =
      (Ok (over_limit rule_rate_limit ''rate'' ip db, w), d)" "ready d" "hot_up d"
    "\<And>t' k'. k' \<noteq> ''rate'' \<Longrightarrow> over_limit t' k' ip d = over_limit t' k' ip db"
    by (rule evaluate_rule_hit [OF assms(1,2) key(1), where p = path and m = meth and
          t = rule_rate_limit and k = "''rate''"]) (rule that)
  obtain w2 d2 where 2: "evaluate_rate_limit_rule ip path meth rule_rate_limit_login ''rate_login'' d =
      (Ok (over_limit rule_rate_limit_login ''rate_login'' ip d, w2), d2)"
    by (rule evaluate_rule_hit [OF 1(2,3) key(1), where p = path and m = meth and
          t = rule_rate_limit_login and k = "''rate_login''"]) (rule that)
  have gate: "record_rate_limited_request ip path meth db =
      evaluate_rate_limit_rules ip path meth ((rule_rate_limit, ''rate'') #
        (if is_login_path path meth then [(rule_rate_limit_login, ''rate_login'')] else [])) False 0 db"
    using assms(3,5,6) key(2)
    by (simp add: record_rate_limited_request_def get_policy_ready [OF assms(1)] exempt_ready [OF assms(1)]
        del: evaluate_rate_limit_rules.simps)
  have "\<exists>wait db'. record_rate_limited_request ip path meth db =
      (Ok (over_limit rule_rate_limit ''rate'' ip db \<or>
           (is_login_path path meth \<and> over_limit rule_rate_limit_login ''rate_login'' ip db), wait), db')"
    using gate 1(1) 2 1(4) [of "''rate_login''" rule_rate_limit_login]
    by (cases "over_limit rule_rate_limit ''rate'' ip db"; cases "is_login_path path meth";
        cases "over_limit rule_rate_limit_login ''rate_login'' ip db") simp_all
  then show ?thesis using record_rate_limited_bans [of ip path meth db] by (metis snd_conv)
qed

definition throttled_db :: sec_db where
  \<comment> \<open>a ready database with the login throttle switched on at two requests a minute\<close>
  "throttled_db = (ensure_security_defaults (fresh_db 90000000))
     \<lparr>rules := map (\<lambda>r. if ru_type r = rule_rate_limit_login then r\<lparr>ru_enabled := True, ru_threshold := 2\<rparr> else r)
                 (default_rules 0),
      rate_events := [\<lparr>ev_kind = ''rate_login'', ev_key = ''203.0.113.9'', ev_at = 80000000\<rparr>,
                      \<lparr>ev_kind = ''rate_login'', ev_key = ''203.0.113.9'', ev_at = 85000000\<rparr>]\<rparr>"

theorem throttle_exact_witness:
  "\<exists>wait db'. record_rate_limited_request ''203.0.113.9'' ''/login'' ''POST'' throttled_db = (Ok (True, wait), db')"
proof -
  have "ready throttled_db" "hot_up throttled_db" "po_enabled (policy_of throttled_db)"
    "strip ''203.0.113.9'' \<noteq> []" "\<not> is_allowlisted throttled_db (Some ''203.0.113.9'') None"
    "\<not> exempt throttled_db (Some ''203.0.113.9'')"
    by code_simp+
  moreover have "is_login_path ''/login'' ''POST''"
    "over_limit rule_rate_limit_login ''rate_login'' ''203.0.113.9'' throttled_db"
    by code_simp+
  ultimately show ?thesis using throttle_exact [of throttled_db "''203.0.113.9''" "''/login''" "''POST''"] by auto
qed

section \<open>When a threshold bans\<close>

lemma apply_ban_succeeds:
  assumes "ban_target ttype target \<noteq> []" and "permanent \<longrightarrow> confirm"
    and "\<not> is_allowlisted db (as_ip ttype (ban_target ttype target)) (as_user ttype (ban_target ttype target))"
    and "\<not> (ttype = target_ip \<and> actor = ''system'' \<and> exempt db (Some (ban_target ttype target)))"
  shows "fst (apply_ban ttype target reason rule permanent mins actor from_ip confirm db) \<noteq> None"
  using assms
  unfolding apply_ban_def Let_def ban_target_def [symmetric] as_ip_def [symmetric] as_user_def [symmetric]
  by (auto simp: exempt_def split: prod.split option.split)

lemma count_failed_ip_result:
  assumes "hot_up db" and "strip ip \<noteq> []" and "\<not> is_allowlisted db (Some ip) None"
  obtains b d where "count_failed_ip f ip db = (Ok b, d)" and "ban_steps db d"
    and "(b \<noteq> None) = (ru_threshold f \<le> next_count ''fail_ip'' ip (ru_window f) db \<and> \<not> exempt db (Some ip))"
proof -
  have key: "event_key ip \<noteq> []" "ip \<noteq> []"
    using assms(2) by (auto simp: event_key_def strip_def lstrip_def rstrip_def)
  obtain es where es: "prune_and_count ''fail_ip'' ip (int_or (ru_window f) 1) db =
      (Ok (next_count ''fail_ip'' ip (int_or (ru_window f) 1) db), db\<lparr>rate_events := es\<rparr>)"
    by (rule prune_and_count_value [OF assms(1) key(1)]) (rule that)
  let ?d = "db\<lparr>rate_events := es\<rparr>"
  obtain ex d1 where ex: "is_breakglass_ban_exempt ?d (Some ip) = (ex, d1)"
    by (cases "is_breakglass_ban_exempt ?d (Some ip)")
  have s: "ban_steps db ?d" "ban_steps ?d d1" using exempt_steps [of ?d "Some ip"] ex by (auto intro: step_events)
  have same: "exempt d1 = exempt db" "is_allowlisted d1 = is_allowlisted db"
    using ban_steps_same [OF ban_steps_trans [OF s]] by auto
  have "ex = exempt ?d (Some ip)" using ex by (simp add: exempt_def)
  also have "\<dots> = exempt db (Some ip)" using ban_steps_same [OF s(1)] by simp
  finally have exeq: "ex = exempt db (Some ip)" .
  have n: "next_count ''fail_ip'' ip (int_or (ru_window f) 1) db = next_count ''fail_ip'' ip (ru_window f) db"
    by (simp add: next_count_def)
  have ban: "fst (apply_ban target_ip ip re ru (ru_permanent f) mi ''system'' fi (ru_permanent f) d1) \<noteq> None"
    if "\<not> exempt db (Some ip)" for re ru mi fi
    using that same key(2) assms(3)
    by (intro apply_ban_succeeds) (auto simp: ban_target_def as_ip_def as_user_def)
  note defs = count_failed_ip_def Let_def case_prod_beta key(2) es n
  have "\<exists>b d. count_failed_ip f ip db = (Ok b, d) \<and>
      (b \<noteq> None) = (ru_threshold f \<le> next_count ''fail_ip'' ip (ru_window f) db \<and> \<not> exempt db (Some ip))"
  proof (cases "ru_threshold f \<le> next_count ''fail_ip'' ip (ru_window f) db \<and> \<not> exempt db (Some ip)")
    case True
    then show ?thesis using ban ex exeq by (simp add: defs)
  next
    case False
    then show ?thesis using ex exeq by (auto simp: defs)
  qed
  then show ?thesis using that count_failed_ip_steps [of db f ip] by (metis snd_conv)
qed

lemma count_failed_user_result:
  assumes "hot_up db" and "strip u \<noteq> []" and "normalize_username (Some u) = u"
    and "\<not> is_allowlisted db None (Some u)"
  shows "\<exists>b d. count_failed_user f ip u db = (Ok b, d) \<and>
    (b \<noteq> None) = (bans_username f \<and> ru_threshold f \<le> next_count ''fail_user'' u (ru_window f) db)"
proof -
  have key: "event_key u \<noteq> []" "u \<noteq> []"
    using assms(2) by (auto simp: event_key_def strip_def lstrip_def rstrip_def)
  obtain es where es: "prune_and_count ''fail_user'' u (int_or (ru_window f) 1) db =
      (Ok (next_count ''fail_user'' u (int_or (ru_window f) 1) db), db\<lparr>rate_events := es\<rparr>)"
    by (rule prune_and_count_value [OF assms(1) key(1)]) (rule that)
  let ?d = "db\<lparr>rate_events := es\<rparr>"
  have n: "next_count ''fail_user'' u (int_or (ru_window f) 1) db = next_count ''fail_user'' u (ru_window f) db"
    by (simp add: next_count_def)
  have "is_allowlisted ?d = is_allowlisted db" by (rule is_allowlisted_cong) simp
  then have ban: "fst (apply_ban target_username u re ru (ru_permanent f) mi ''system'' fi (ru_permanent f) ?d) \<noteq> None"
    for re ru mi fi
    using key(2) assms(3,4) by (intro apply_ban_succeeds) (auto simp: ban_target_def as_ip_def as_user_def)
  show ?thesis
    using ban by (cases "bans_username f") (auto simp: count_failed_user_def Let_def case_prod_beta key(2) es n)
qed

definition settled :: "'a db \<Rightarrow> bool" where
  \<comment> \<open>the defaults are in place and every expired ban is lifted\<close>
  "settled db \<longleftrightarrow> ready db \<and> (\<forall>b \<in> set (bans db). \<not> ban_expired (clock db) b)"

lemma settled_ready: "settled db \<Longrightarrow> ready db"
  by (simp add: settled_def)

lemma lift_settled: "settled db \<Longrightarrow> snd (lift_expired_bans a db) = db"
  by (simp add: lift_expired_bans_def Let_def settled_def filter_empty_conv)

lemma find_active_settled:
  "settled db \<Longrightarrow> find_active_ban ip u db =
     (first_row (enforced db) (ban_candidates db (opt_str ip) (normalize_username u)), db)"
  by (simp add: find_active_ban_def Let_def lift_settled settled_ready)

lemma apply_ban_settled_events:
  assumes "settled db"
  shows "rate_events (snd (apply_ban ty tg re ru pe mi ac fi co db)) = rate_events db"
  using assms
  by (auto simp: apply_ban_def Let_def find_active_settled settled_ready split: option.split)

lemma settled_events [simp]: "settled (db\<lparr>rate_events := es\<rparr>) = settled db"
  by (simp add: settled_def)

lemma count_failed_ip_users:
  assumes "settled db" and "count_failed_ip f ip db = (Ok b, d)"
  shows "next_count ''fail_user'' u w d = next_count ''fail_user'' u w db"
proof (cases "hot_up db \<and> event_key ip \<noteq> []")
  case False
  then show ?thesis
    using assms apply_ban_settled_events [OF assms(1)] ban_steps_same(1) [OF count_failed_ip_steps, of f ip db]
    by (auto simp: count_failed_ip_def Let_def prune_and_count_def case_prod_beta next_count_def settled_ready
        split: if_splits)
next
  case True
  then obtain es where es: "prune_and_count ''fail_ip'' ip (int_or (ru_window f) 1) db =
      (Ok (next_count ''fail_ip'' ip (int_or (ru_window f) 1) db), db\<lparr>rate_events := es\<rparr>)"
    "\<And>kind' key' c. kind' \<noteq> ''fail_ip'' \<Longrightarrow>
       count_events (kind', key') c es = count_events (kind', key') c (rate_events db)"
    by (blast intro: prune_and_count_value)
  have "rate_events d = es \<or> rate_events d = rate_events db"
    using assms es(1) apply_ban_settled_events [of "db\<lparr>rate_events := es\<rparr>"]
    by (auto simp: count_failed_ip_def Let_def case_prod_beta settled_ready split: if_splits)
  moreover have "clock d = clock db"
    using ban_steps_same(1) [OF count_failed_ip_steps, of f ip db] assms(2) by simp
  ultimately show ?thesis using es(2) by (auto simp: next_count_def)
qed

lemma count_failed_login_exact:
  assumes "settled db" and "hot_up db" and "strip ip \<noteq> []" and "strip u \<noteq> []"
    and "normalize_username (Some u) = u" and "\<not> is_allowlisted db (Some ip) None"
    and "\<not> is_allowlisted db None (Some u)"
  shows "le_allowed (fst (count_failed_login f ip u db)) \<longleftrightarrow>
    \<not> (ru_threshold f \<le> next_count ''fail_ip'' ip (ru_window f) db \<and> \<not> exempt db (Some ip)) \<and>
    \<not> (bans_username f \<and> ru_threshold f \<le> next_count ''fail_user'' u (ru_window f) db)"
proof -
  obtain b1 d where 1: "count_failed_ip f ip db = (Ok b1, d)" "ban_steps db d"
    "(b1 \<noteq> None) = (ru_threshold f \<le> next_count ''fail_ip'' ip (ru_window f) db \<and> \<not> exempt db (Some ip))"
    by (rule count_failed_ip_result [OF assms(2,3,6)]) (rule that)
  have d: "hot_up d" "\<not> is_allowlisted d None (Some u)"
    "next_count ''fail_user'' u (ru_window f) d = next_count ''fail_user'' u (ru_window f) db"
    using ban_steps_same [OF 1(2)] assms(2,7) count_failed_ip_users [OF assms(1) 1(1)] by auto
  obtain b2 d2 where 2: "count_failed_user f ip u d = (Ok b2, d2)"
    "(b2 \<noteq> None) = (bans_username f \<and> ru_threshold f \<le> next_count ''fail_user'' u (ru_window f) db)"
    using count_failed_user_result [OF d(1) assms(4,5) d(2), of f ip] d(3) by auto
  show ?thesis
    unfolding 1(3) [symmetric] 2(2) [symmetric]
    by (cases b1; cases b2) (simp_all add: count_failed_login_def 1(1) 2(1) login_allowed_def)
qed

text \<open>C30: a failed login is refused exactly when a counter reaches its threshold: the address counter of
  a client that is not exempt, or the account counter when the rule bans accounts. Below the thresholds
  the attempt is counted and the password check decides. This holds while the engine and the
  failed-login rule are enabled, the hot store is up, the defaults are in place and expired bans lifted,
  for a non-empty address and user name that are neither allow-listed nor under an enforced ban, when the
  user name is no decoy.\<close>

theorem failed_login_threshold:
  assumes "settled db" and "hot_up db" and "po_enabled (policy_of db)"
    and "uname = normalize_username (Some username)" and "strip ip \<noteq> []" and "uname \<noteq> []"
    and "\<not> is_allowlisted db (Some ip) (Some uname)"
    and "\<forall>b \<in> set (ban_candidates db ip uname). \<not> enforced db b"
    and "rule_of rule_hack_username db = Some h" and "uname \<notin> set (decoy_usernames h)"
    and "rule_of rule_failed_login db = Some f" and "rule_active (Some f)"
  shows "le_allowed (fst (evaluate_login_attempt ip username False db)) \<longleftrightarrow>
    \<not> (ru_threshold f \<le> next_count ''fail_ip'' ip (ru_window f) db \<and> \<not> exempt db (Some ip)) \<and>
    \<not> (bans_username f \<and> ru_threshold f \<le> next_count ''fail_user'' uname (ru_window f) db)"
proof -
  have ready: "ready db" by (rule settled_ready [OF assms(1)])
  have norm: "normalize_username (Some uname) = uname" using assms(4) by simp
  have "strip uname = uname" using assms(4) by (simp add: normalize_username_def strip_lower)
  then have u: "strip uname \<noteq> []" using assms(6) by simp
  have f: "find_active_ban (Some ip) (Some uname) db = (None, db)"
    using assms(8) by (simp add: find_active_settled [OF assms(1)] norm opt_str_def)
  have al: "\<not> is_allowlisted db (Some ip) None" "\<not> is_allowlisted db None (Some uname)"
    using assms(7) by (auto simp: is_allowlisted_def opt_str_def normalize_username_def split: if_splits)
  have "evaluate_login_attempt ip username False db = count_failed_login f ip uname db"
    using assms(3,7,10,12) f
    by (simp add: evaluate_login_attempt_def get_policy_ready [OF ready] get_rule_ready [OF ready]
        assms(4) [symmetric] assms(9) assms(11) evaluate_outcome_def)
  with count_failed_login_exact [OF assms(1,2,5) u norm al] show ?thesis by simp
qed

definition failing_db :: sec_db where
  \<comment> \<open>a ready database in which one account failed fourteen times in the last minute\<close>
  "failing_db = (ensure_security_defaults (fresh_db 60000000))
     \<lparr>rate_events := replicate 14 \<lparr>ev_kind = ''fail_user'', ev_key = ''bob'', ev_at = 5000000\<rparr>\<rparr>"

theorem failed_login_threshold_witness:
  "\<not> le_allowed (fst (evaluate_login_attempt ''203.0.113.9'' '' Bob '' False failing_db))"
proof -
  let ?h = "the (rule_of rule_hack_username failing_db)"
  let ?f = "the (rule_of rule_failed_login failing_db)"
  have "settled failing_db" "hot_up failing_db" "po_enabled (policy_of failing_db)"
    "''bob'' = normalize_username (Some '' Bob '')" "strip ''203.0.113.9'' \<noteq> []" "''bob'' \<noteq> []"
    "\<not> is_allowlisted failing_db (Some ''203.0.113.9'') (Some ''bob'')"
    "\<forall>b \<in> set (ban_candidates failing_db ''203.0.113.9'' ''bob''). \<not> enforced failing_db b"
    "rule_of rule_hack_username failing_db = Some ?h" "''bob'' \<notin> set (decoy_usernames ?h)"
    "rule_of rule_failed_login failing_db = Some ?f" "rule_active (Some ?f)"
    by code_simp+
  from failed_login_threshold [OF this]
  have "le_allowed (fst (evaluate_login_attempt ''203.0.113.9'' '' Bob '' False failing_db)) \<longrightarrow>
    \<not> (bans_username ?f \<and> ru_threshold ?f \<le> next_count ''fail_user'' ''bob'' (ru_window ?f) failing_db)"
    by blast
  moreover have "bans_username ?f \<and> ru_threshold ?f \<le> next_count ''fail_user'' ''bob'' (ru_window ?f) failing_db"
    by code_simp
  ultimately show ?thesis by blast
qed

lemma count_failed_login_down:
  assumes "\<not> hot_up db" and "rule_active (Some f)"
  shows "fst (count_failed_login f ip u db) = login_allowed"
proof -
  have prune: "prune_and_count k key w db = (if event_key key = [] then Ok 0 else Raise SqlError, db)" for k key w
    using assms(1) by (simp add: prune_and_count_def Let_def)
  have "0 < ru_threshold f" using assms(2) by (simp add: rule_active_def)
  then show ?thesis
    by (simp add: count_failed_login_def count_failed_ip_def count_failed_user_def prune Let_def)
qed

text \<open>An outage of the hot store never refuses a login by itself: while the counters cannot be
  written, a refusal has an earlier ban in force or a decoy name as its cause.\<close>

theorem login_survives_outage:
  assumes "\<not> hot_up db" and "evaluate_login_attempt ip username success db = (res, db')" and "\<not> le_allowed res"
  shows "(\<exists>b. le_ban res = Some b \<and> b \<in> set (bans db) \<and> enforced db b) \<or> le_hack res"
proof -
  let ?e = "ensure_security_defaults db"
  let ?u = "normalize_username (Some username)"
  obtain x d where f: "find_active_ban (Some ip) (Some ?u) ?e = (x, d)"
    by (cases "find_active_ban (Some ip) (Some ?u) ?e")
  have lift: "snd (lift_expired_bans ''system'' ?e) = ?e" using assms(1) by (simp add: lift_expired_down)
  have d: "d = ?e"
    using f by (auto simp: find_active_ban_def Let_def lift exempt_ready [OF ready_ensure])
  have dr: "ready ?e" by (rule ready_ensure)
  have ok: "le_allowed login_allowed" by (simp add: login_allowed_def)
  have down: "fst (evaluate_outcome ip ?u success ?e) = login_allowed"
    using assms(1)
    by (auto simp: evaluate_outcome_def get_rule_ready [OF dr] count_failed_login_down split: option.split)
  show ?thesis
  proof (cases x)
    case None
    then have "le_allowed res \<or> le_hack res"
      using assms(2) f down ok
      by (auto simp: evaluate_login_attempt_def get_policy_def d get_rule_ready [OF dr] refuse_decoy_def
          case_prod_beta Let_def split: if_splits option.splits)
    then show ?thesis using assms(3) by blast
  next
    case (Some b)
    have "b \<in> set (bans ?e)" "enforced ?e b" using find_active_Some(1,3) f Some d by blast+
    then have b: "b \<in> set (bans db)" "enforced db b"
      using ban_steps_enforced [OF steps_defaults, of db] by auto
    have "le_allowed res \<or> le_ban res = Some b"
      using assms(2) f Some
      by (auto simp: evaluate_login_attempt_def get_policy_def login_allowed_def Let_def split: if_splits)
    with b assms(3) show ?thesis by blast
  qed
qed

theorem login_survives_outage_witness:
  "\<exists>b. le_ban (fst (evaluate_login_attempt ''203.0.113.9'' ''bob'' False
      ((fresh_db 0)\<lparr>hot_up := False, bans := [sample_ban]\<rparr>))) = Some b"
proof -
  let ?d = "(fresh_db 0)\<lparr>hot_up := False, bans := [sample_ban]\<rparr>"
  let ?r = "evaluate_login_attempt ''203.0.113.9'' ''bob'' False ?d"
  have "\<not> hot_up ?d" "\<not> le_allowed (fst ?r)" "\<not> le_hack (fst ?r)" by code_simp+
  then show ?thesis using login_survives_outage [of ?d _ _ _ "fst ?r" "snd ?r"] by fastforce
qed

section \<open>The progressive ladder\<close>

text \<open>Recidivism after nginx rejections never gets a milder answer: with an increasing ladder of
  positive durations, a client with more bans behind it is banned permanently if the other is, and
  otherwise at least as long; the first offence takes the first rung, and from the
  \<open>permanent_after\<close>-th offence on the ban is permanent.\<close>

theorem nginx_ladder_monotone:
  assumes "sorted (x # xs)" and "0 < x" and "0 \<le> prior" and "prior \<le> prior'" and "0 < after"
    and "progressive_nginx_limit_ttl prior (Some (x # xs)) after = (perm, mins)"
    and "progressive_nginx_limit_ttl prior' (Some (x # xs)) after = (perm', mins')"
  shows "(perm \<longrightarrow> perm') \<and> (\<not> perm' \<longrightarrow> mins \<le> mins' \<and> x \<le> mins) \<and> (perm' \<longleftrightarrow> after \<le> prior' + 1)"
proof -
  define idx where "idx p = nat (min p (int (length (x # xs)) - 1))" for p :: int
  have val: "progressive_nginx_limit_ttl p (Some (x # xs)) after =
      (if after \<le> p + 1 then (True, 0) else (False, max 1 ((x # xs) ! idx p)))" if "0 \<le> p" for p
    using that assms(5) by (simp add: progressive_nginx_limit_ttl_def Let_def idx_def int_or_def)
  have idx: "idx prior \<le> idx prior'" "idx prior' < length (x # xs)"
    using assms(3,4) by (auto simp: idx_def)
  then have "(x # xs) ! idx prior \<le> (x # xs) ! idx prior'"
    using sorted_nth_mono [OF assms(1)] by blast
  moreover have "x \<le> (x # xs) ! idx prior"
    using sorted_nth_mono [OF assms(1), of 0 "idx prior"] idx by simp
  ultimately show ?thesis
    using assms(3-7) val [of prior] val [of prior'] by (auto split: if_splits)
qed

theorem nginx_ladder_monotone_witness:
  "progressive_nginx_limit_ttl 0 (Some [15, 120]) 3 = (False, 15) \<and>
   progressive_nginx_limit_ttl 1 (Some [15, 120]) 3 = (False, 120) \<and>
   progressive_nginx_limit_ttl 2 (Some [15, 120]) 3 = (True, 0) \<and> (15 :: int) \<le> 120"
proof -
  have v: "progressive_nginx_limit_ttl 0 (Some [15, 120]) 3 = (False, 15)"
    "progressive_nginx_limit_ttl 1 (Some [15, 120]) 3 = (False, 120)"
    "progressive_nginx_limit_ttl 2 (Some [15, 120]) 3 = (True, 0)" by code_simp+
  then show ?thesis
    using nginx_ladder_monotone [of 15 "[120]" 0 1 3 False 15 False 120] by simp
qed

end
