(* ===== verification/BanService.thy ===== *)
theory BanService
  imports GateLaws
begin

text \<open>
  \<open>app/security/banning/service.py\<close>: what the administration pages do to the anti-abuse
  configuration. A value the code refuses with \<open>ValueError\<close> is a constructor of \<open>admin_error\<close>.
  The last section closes the loop: the states reachable by any interleaving of requests, ticks of
  the clock, outages of the hot store and administration, and what holds in all of them.
\<close>

datatype admin_error =
    BadTargetType
  | IpRefused acl_problem
  | BadEntryType
  | ValueRequired

section \<open>Policy and rules\<close>

definition update_policy_misc ::
  "bool \<Rightarrow> string \<Rightarrow> string \<Rightarrow> string \<Rightarrow> string option \<Rightarrow> 'a db \<Rightarrow> policy \<times> 'a db" where
  "update_policy_misc enabled allow_cidrs deny_cidrs actor from_ip db =
     (let (pol, db) = get_policy db;
          pol = pol\<lparr>po_enabled := enabled, po_allow_cidrs := strip allow_cidrs,
                    po_deny_cidrs := strip deny_cidrs, po_updated_at := clock db, po_updated_by := Some actor\<rparr>;
          db = db\<lparr>policy := Some pol\<rparr>
      in (pol, log_action actor ''security.policy.updated'' (Some ''security_policy'')
                 [(''enabled'', JBool (po_enabled pol)),
                  (''breakglass_allow_cidrs'', JStr (po_allow_cidrs pol)),
                  (''breakglass_deny_cidrs'', JStr (po_deny_cidrs pol))] from_ip db))"

datatype names_value = NamesText string | NamesList "string list"

record rule_payload =
  pl_enabled :: "bool option"
  pl_threshold :: "int option"
  pl_window :: "int option"
  pl_ban_minutes :: "int option"
  pl_permanent :: "bool option"
  pl_confirm :: "bool option"
  pl_usernames :: "names_value option"
  pl_ban_username :: "bool option"

definition merge_names :: "names_value \<Rightarrow> string list" where
  "merge_names v =
     filter (\<lambda>n. n \<noteq> [])
       (case v of
          NamesText s \<Rightarrow> map (\<lambda>x. normalize_username (Some x))
            (filter (\<lambda>x. strip x \<noteq> []) (split_on (CHR '','') (replace_char (CHR '';'') '','' s)))
        | NamesList ns \<Rightarrow> ns)"

definition merge_ban_rule_config :: "rule_config \<Rightarrow> rule_payload \<Rightarrow> rule_config" where
  "merge_ban_rule_config cfg p =
     (let cfg = (case pl_usernames p of None \<Rightarrow> cfg | Some v \<Rightarrow> cfg\<lparr>cfg_usernames := Some (merge_names v)\<rparr>)
      in (case pl_ban_username p of None \<Rightarrow> cfg | Some b \<Rightarrow> cfg\<lparr>cfg_ban_username := Some b\<rparr>))"

definition resolve_ban_permanent :: "ban_rule \<Rightarrow> rule_payload \<Rightarrow> bool" where
  "resolve_ban_permanent row p =
     (let want_permanent = (pl_permanent p = Some True); confirm = (pl_confirm p = Some True)
      in if want_permanent \<and> \<not> confirm then (if ru_permanent row then True else False)
         else if \<not> want_permanent then False
         else True)"

definition payload_int :: "int option \<Rightarrow> int \<Rightarrow> int" where
  "payload_int v old = (case v of None \<Rightarrow> old | Some x \<Rightarrow> max 0 x)"

definition apply_ban_rule_payload :: "int \<Rightarrow> rule_payload \<Rightarrow> ban_rule \<Rightarrow> ban_rule" where
  "apply_ban_rule_payload now p row =
     (let cfg = merge_ban_rule_config (case ru_config row of None \<Rightarrow> no_config | Some c \<Rightarrow> c) p
      in row\<lparr>ru_enabled := (case pl_enabled p of None \<Rightarrow> ru_enabled row | Some b \<Rightarrow> b),
             ru_threshold := payload_int (pl_threshold p) (ru_threshold row),
             ru_window := payload_int (pl_window p) (ru_window row),
             ru_ban_minutes := payload_int (pl_ban_minutes p) (ru_ban_minutes row),
             ru_permanent := resolve_ban_permanent row p,
             ru_config := (if cfg = no_config then None else Some cfg),
             ru_updated_at := now\<rparr>)"

fun update_rule_rows :: "int \<Rightarrow> (string \<times> rule_payload) list \<Rightarrow> ban_rule list \<Rightarrow> ban_rule list" where
  \<comment> \<open>the loop of \<open>update_ban_rules\<close>; a payload for an unknown rule is skipped\<close>
  "update_rule_rows now [] rs = rs"
| "update_rule_rows now ((t, p) # ps) rs =
     update_rule_rows now ps (update_rows (\<lambda>r. ru_type r = t) (apply_ban_rule_payload now p) rs)"

definition update_ban_rules ::
  "(string \<times> rule_payload) list \<Rightarrow> string \<Rightarrow> string option \<Rightarrow> 'a db \<Rightarrow> 'a db" where
  "update_ban_rules payloads actor from_ip db =
     (let db = ensure_security_defaults db;
          db = db\<lparr>rules := update_rule_rows (clock db) payloads (rules db)\<rparr>
      in log_action actor ''security.ban_rules.updated'' (Some ''security_ban_rules'')
           [(''rule_types'', JList (map (\<lambda>(t, _). JStr t) payloads))] from_ip db)"

section \<open>Bans\<close>

definition apply_manual_ban ::
  "string \<Rightarrow> string \<Rightarrow> string \<Rightarrow> bool \<Rightarrow> int \<Rightarrow> bool \<Rightarrow> string \<Rightarrow> string option \<Rightarrow> 'a db
   \<Rightarrow> (admin_error, ban option) result \<times> 'a db" where
  "apply_manual_ban ttype target reason permanent ban_minutes confirm_permanent actor from_ip db =
     (if ttype \<noteq> target_ip \<and> ttype \<noteq> target_username then (Raise BadTargetType, db)
      else (let target_s = strip target;
                go = (\<lambda>t. let (b, db) = apply_ban ttype t
                                (if strip reason = [] then ''Manual ban'' else strip reason)
                                (Some ''manual'') permanent ban_minutes actor from_ip confirm_permanent db
                          in (Ok b, db))
            in if ttype = target_ip
               then (case waf_acl_entry_problem (Some target_s) True of
                       Some problem \<Rightarrow> (Raise (IpRefused problem), db)
                     | None \<Rightarrow> go (case canonical_ip_or_network (Some target_s) of
                                     Some t \<Rightarrow> (if t = [] then target_s else t)
                                   | None \<Rightarrow> target_s))
               else go target_s))"

definition lift_ban :: "int \<Rightarrow> string \<Rightarrow> string option \<Rightarrow> 'a db \<Rightarrow> ban option \<times> 'a db" where
  "lift_ban ban_id actor from_ip db =
     (case find_ban (bans db) ban_id of
        None \<Rightarrow> (None, db)
      | Some b \<Rightarrow>
          (if b_lifted b \<noteq> None then (Some b, db)
           else (let b' = mark_lifted (clock db) actor b;
                     db = db\<lparr>bans := put_ban (bans db) ban_id b'\<rparr>;
                     db = (if b_type b = target_username
                           then snd (clear_failed_login_counters [] [b_target b] db)
                           else if b_type b = target_ip
                           then snd (clear_failed_login_counters [b_target b] [] db)
                           else db)
                 in (Some b',
                     log_action actor ''security.ban.lifted'' (Some (b_type b @ '':'' @ b_target b))
                       [(''ban_id'', JInt (b_id b)), (''manual'', JBool True), (''reason'', JStr (b_reason b))]
                       from_ip db))))"

definition extend_ban_minutes :: "int \<Rightarrow> int \<Rightarrow> 'a db \<Rightarrow> ban option \<times> 'a db" where
  \<comment> \<open>the row object is given by its id\<close>
  "extend_ban_minutes ban_id mins db =
     (case find_ban (bans db) ban_id of
        None \<Rightarrow> (None, db)
      | Some b \<Rightarrow>
          (if b_permanent b then (Some b, db)
           else (let base = (case b_expires b of None \<Rightarrow> clock db | Some e \<Rightarrow> e);
                     b' = b\<lparr>b_expires := Some (base + minutes (max 1 mins))\<rparr>
                 in (Some b', db\<lparr>bans := put_ban (bans db) ban_id b'\<rparr>))))"

definition list_active_bans :: "'a db \<Rightarrow> ban list \<times> 'a db" where
  \<comment> \<open>most recent first; rows of one instant keep a stable order\<close>
  "list_active_bans db =
     (let db = snd (lift_expired_bans ''system'' (ensure_security_defaults db))
      in (sort_key (\<lambda>b. - b_at b) (filter (\<lambda>b. b_lifted b = None) (bans db)), db))"

section \<open>Allow list\<close>

definition add_allowlist_entry ::
  "string \<Rightarrow> string \<Rightarrow> string \<Rightarrow> string \<Rightarrow> string option \<Rightarrow> 'a db \<Rightarrow> (admin_error, allow_entry) result \<times> 'a db" where
  "add_allowlist_entry entry_type value cmt actor from_ip db =
     (if entry_type \<noteq> target_ip \<and> entry_type \<noteq> target_username then (Raise BadEntryType, db)
      else (let raw = (if entry_type = target_username then normalize_username (Some (strip value)) else strip value);
                store = (\<lambda>raw.
                  case first_row (\<lambda>e. al_type e = entry_type \<and> al_value e = raw) (allowlist db) of
                    Some e \<Rightarrow> (Ok e, db)
                  | None \<Rightarrow>
                      (let row = \<lparr>al_id = next_allow db, al_type = entry_type, al_value = raw,
                                  al_comment = str_opt (strip cmt), al_at = clock db, al_by = actor\<rparr>;
                           db = db\<lparr>allowlist := allowlist db @ [row], next_allow := next_allow db + 1\<rparr>
                       in (Ok row, log_action actor ''security.allowlist.added''
                                     (Some (entry_type @ '':'' @ raw))
                                     [(''comment'', jopt (al_comment row))] from_ip db)))
            in if raw = [] then (Raise ValueRequired, db)
               else if entry_type = target_ip
               then (case waf_acl_entry_problem (Some raw) False of
                       Some problem \<Rightarrow> (Raise (IpRefused problem), db)
                     | None \<Rightarrow> store (case canonical_ip_or_network (Some raw) of
                                       Some t \<Rightarrow> (if t = [] then raw else t)
                                     | None \<Rightarrow> raw))
               else store raw))"

definition remove_allowlist_entry :: "int \<Rightarrow> string \<Rightarrow> string option \<Rightarrow> 'a db \<Rightarrow> 'a db" where
  "remove_allowlist_entry entry_id actor from_ip db =
     (case first_row (\<lambda>e. al_id e = entry_id) (allowlist db) of
        None \<Rightarrow> db
      | Some row \<Rightarrow>
          log_action actor ''security.allowlist.removed'' (Some (al_type row @ '':'' @ al_value row)) []
            from_ip (db\<lparr>allowlist := filter (\<lambda>e. al_id e \<noteq> entry_id) (allowlist db)\<rparr>))"

lemmas service_defs [py_defs] =
  update_policy_misc_def merge_names_def merge_ban_rule_config_def resolve_ban_permanent_def
  payload_int_def apply_ban_rule_payload_def update_ban_rules_def apply_manual_ban_def lift_ban_def
  extend_ban_minutes_def list_active_bans_def add_allowlist_entry_def remove_allowlist_entry_def

end
