(* ===== verification/BanMiddleware.thy ===== *)
theory BanMiddleware
  imports BanService
begin

text \<open>
  \<open>app/security/banning/middleware.py\<close>: the check in front of every request, and what becomes of it
  when the check itself fails. The application behind the middleware is the parameter \<open>call_next\<close>,
  a function of the state whose result (a response, or an exception that passes through) is not
  inspected.
\<close>

datatype 'r response =
    Denied int "int option"  \<comment> \<open>status and \<open>Retry-After\<close>\<close>
  | Forwarded 'r

datatype precheck = Refuse int "int option" | Track bool

definition skip_prefixes :: "string list" where
  "skip_prefixes = [''/static/'', ''/media/'', ''/api/health'', ''/health'', ''/ready'']"

definition security_denied_response :: "gate_reason \<Rightarrow> string \<Rightarrow> string \<Rightarrow> 'a db \<Rightarrow> precheck \<times> 'a db" where
  "security_denied_response reason path meth db =
     (if reason = RateLimited
      then (let (retry, db) = rate_limit_retry_after path meth db in (Refuse 429 (Some (max 1 retry)), db))
      else (Refuse (if reason = ConcurrentLimit then 429 else 403) None, db))"

definition pre_check :: "string \<Rightarrow> string \<Rightarrow> string \<Rightarrow> string \<Rightarrow> 'a db \<Rightarrow> precheck \<times> 'a db" where
  "pre_check ip path meth username db =
     (case check_request_allowed ip path meth (str_opt username) db of
        (Ok (allowed, reason, ban), db) \<Rightarrow>
          (if \<not> allowed then security_denied_response reason path meth db
           else (Track True, begin_concurrent ip db))
      | (Raise e, db) \<Rightarrow>
          (if is_login_path path meth then (Refuse 503 (Some 5), db) else (Track False, db)))"

definition dispatch ::
  "net_settings \<Rightarrow> request \<Rightarrow> string \<Rightarrow> string \<Rightarrow> ('a db \<Rightarrow> 'r \<times> 'a db) \<Rightarrow> 'a db \<Rightarrow> 'r response \<times> 'a db" where
  "dispatch cfg rq path meth call_next db =
     (let forward = (\<lambda>db. let (r, db) = call_next db in (Forwarded r, db))
      in if list_ex (\<lambda>p. starts_with p path) skip_prefixes then forward db
         else if \<not> is_sensitive_path path then forward db
         else (let ip = client_ip_from_request cfg rq;
                   username = identity_username_from_headers (rq_header rq)
               in case pre_check ip path meth username db of
                    (Refuse status retry, db) \<Rightarrow> (Denied status retry, db)
                  | (Track tracked, db) \<Rightarrow>
                      (let (r, db) = forward db in (r, if tracked then end_concurrent ip db else db))))"

lemmas middleware_defs [py_defs] =
  skip_prefixes_def security_denied_response_def pre_check_def dispatch_def

section \<open>The counter of open requests\<close>

lemma rate_limit_retry_frame [simp]:
  "concurrent (snd (rate_limit_retry_after path meth db)) = concurrent db"
  by (simp add: rate_limit_retry_after_def Let_def)

lemma check_concurrent: "concurrent (snd (check_request_allowed ip p m u db)) = concurrent db"
  using ban_steps_same(4) [OF check_request_steps] .

lemma pre_check_concurrent:
  assumes "pre_check ip path meth username db = (out, db')"
  shows "concurrent db' = (if out = Track True \<and> ip \<noteq> []
     then (concurrent db)(ip := concurrent db ip + 1) else concurrent db)"
  using assms check_concurrent [of ip path meth "str_opt username" db]
  by (auto simp: pre_check_def security_denied_response_def begin_concurrent_def case_prod_beta
      split: result.splits if_splits prod.splits)

lemma end_begin: "0 \<le> n \<Longrightarrow> max 0 (n + 1 - 1) = (n :: int)"
  by simp

text \<open>C32: the counter of open requests is balanced: whatever the outcome of the check, refusal, failure
  or pass, and whatever the application answers, a request leaves every counter as it found it,
  provided the application itself does.\<close>

theorem dispatch_balanced:
  assumes "\<And>d. concurrent (snd (call_next d)) = concurrent d" and "\<And>a. 0 \<le> concurrent db a"
  shows "concurrent (snd (dispatch cfg rq path meth call_next db)) = concurrent db"
proof -
  let ?ip = "client_ip_from_request cfg rq"
  obtain out d where pre: "pre_check ?ip path meth (identity_username_from_headers (rq_header rq)) db = (out, d)"
    by (cases "pre_check ?ip path meth (identity_username_from_headers (rq_header rq)) db")
  note c = pre_check_concurrent [OF pre]
  show ?thesis
    using assms pre c
    by (cases out) (auto simp: dispatch_def Let_def case_prod_beta end_concurrent_def fun_eq_iff)
qed

theorem dispatch_balanced_witness:
  "concurrent (snd (dispatch \<lparr>trusted_proxy_setting = None, is_test_setting = None, portal_environment = []\<rparr>
     \<lparr>rq_header = (\<lambda>_. None), rq_client = Some ''203.0.113.9''\<rparr> ''/login'' ''GET'' (\<lambda>d. ((), d)) (fresh_db 0)))
   = (\<lambda>_. 0)"
  by (subst dispatch_balanced) (simp_all add: fresh_db_def)

section \<open>When the check fails\<close>

lemma prune_down: "\<not> hot_up db \<Longrightarrow> event_key key \<noteq> [] \<Longrightarrow> prune_and_count k key w db = (Raise SqlError, db)"
  by (simp add: prune_and_count_def Let_def)

text \<open>An outage of the hot store closes the login paths and nothing else. When the counters cannot be
  written, a request to a login path is answered 503 without reaching the application; a request to
  another sensitive path goes through, untracked. (The client is one the hammering rule watches: no
  ban, no exemption, not over the concurrency limit.)\<close>

theorem outage_closes_logins:
  assumes "\<not> hot_up db" and "ready db" and "po_enabled (policy_of db)" and "is_sensitive_path path"
    and "\<not> list_ex (\<lambda>p. starts_with p path) skip_prefixes"
    and "ip = client_ip_from_request cfg rq" and "strip ip \<noteq> []"
    and "uname = normalize_username (str_opt (identity_username_from_headers (rq_header rq)))"
    and "\<not> is_allowlisted db (Some ip) (str_opt uname)" and "\<not> exempt db (Some ip)"
    and "\<forall>b \<in> set (ban_candidates db ip uname). \<not> enforced db b"
    and "rule_of rule_hammering db = Some r" and "rule_active (Some r)"
    and "rule_of rule_concurrent db = Some c" and "rule_active (Some c) \<longrightarrow> concurrent db ip < ru_threshold c"
  shows "dispatch cfg rq path meth call_next db =
    (if is_login_path path meth then (Denied 503 (Some 5), db)
     else (Forwarded (fst (call_next db)), snd (call_next db)))"
proof -
  have key: "event_key ip \<noteq> []" "ip \<noteq> []"
    using assms(7) by (auto simp: event_key_def strip_def lstrip_def rstrip_def)
  have al: "\<not> is_allowlisted db (Some ip) None"
    using assms(9) by (auto simp: is_allowlisted_def opt_str_def normalize_username_def split: if_splits)
  have f: "find_active_ban (Some ip) (str_opt uname) db = (None, db)"
    using assms(8,11)
    by (auto simp: find_active_ban_def Let_def lift_expired_down [OF assms(1)] exempt_ready [OF assms(2)]
        opt_str_def)
  have conc: "concurrent_limit_exceeded ip db = (False, db)" "concurrent_over_threshold ip db = (False, db)"
    using assms(14,15) al
    by (auto simp: concurrent_limit_exceeded_def concurrent_over_threshold_def get_rule_ready [OF assms(2)])
  have "record_sensitive_request ip path meth db = (Raise SqlError, db)"
    using assms(3,10,12,13) key(2) al conc(2)
    by (simp add: record_sensitive_request_def get_policy_ready [OF assms(2)] exempt_ready [OF assms(2)]
        hammer_ban_for_ip_def get_rule_ready [OF assms(2)] apply_hammer_ban_if_threshold_def
        prune_down [OF assms(1) key(1)])
  then have "check_request_allowed ip path meth (str_opt (identity_username_from_headers (rq_header rq))) db
      = (Raise SqlError, db)"
    using assms(3,4,9) f conc(1)
    by (simp add: check_request_allowed_def get_policy_ready [OF assms(2)] assms(8) [symmetric])
  then show ?thesis
    using assms(4,5) by (simp add: dispatch_def Let_def assms(6) [symmetric] pre_check_def case_prod_beta)
qed

theorem outage_closes_logins_witness:
  "dispatch \<lparr>trusted_proxy_setting = None, is_test_setting = None, portal_environment = []\<rparr>
     \<lparr>rq_header = (\<lambda>_. None), rq_client = Some ''203.0.113.9''\<rparr> ''/login'' ''POST'' (\<lambda>d. ((), d))
     ((ensure_security_defaults (fresh_db 0))\<lparr>hot_up := False\<rparr>)
   = (Denied 503 (Some 5), (ensure_security_defaults (fresh_db 0))\<lparr>hot_up := False\<rparr>)"
proof -
  let ?d = "(ensure_security_defaults (fresh_db 0))\<lparr>hot_up := False\<rparr>"
  let ?c = "\<lparr>trusted_proxy_setting = None, is_test_setting = None, portal_environment = []\<rparr>"
  let ?q = "\<lparr>rq_header = (\<lambda>_. None), rq_client = Some ''203.0.113.9''\<rparr>"
  let ?r = "the (rule_of rule_hammering ?d)"
  let ?k = "the (rule_of rule_concurrent ?d)"
  have "\<not> hot_up ?d" "ready ?d" "po_enabled (policy_of ?d)" "is_sensitive_path ''/login''"
    "\<not> list_ex (\<lambda>p. starts_with p ''/login'') skip_prefixes"
    "''203.0.113.9'' = client_ip_from_request ?c ?q" "strip ''203.0.113.9'' \<noteq> []"
    "[] = normalize_username (str_opt (identity_username_from_headers (rq_header ?q)))"
    "\<not> is_allowlisted ?d (Some ''203.0.113.9'') (str_opt [])" "\<not> exempt ?d (Some ''203.0.113.9'')"
    "\<forall>b \<in> set (ban_candidates ?d ''203.0.113.9'' []). \<not> enforced ?d b"
    "rule_of rule_hammering ?d = Some ?r" "rule_active (Some ?r)"
    "rule_of rule_concurrent ?d = Some ?k" "rule_active (Some ?k) \<longrightarrow> concurrent ?d ''203.0.113.9'' < ru_threshold ?k"
    by code_simp+
  moreover have "is_login_path ''/login'' ''POST''" by code_simp
  ultimately show ?thesis
    using outage_closes_logins [of ?d "''/login''" "''203.0.113.9''" ?c ?q "[]" ?r ?k "''POST''" "\<lambda>d. ((), d)"]
    by simp
qed

end
