(* ===== verification/BanSystem.thy ===== *)
theory BanSystem
  imports BanMiddleware
begin

text \<open>
  The anti-abuse subsystem as a state machine: any interleaving of requests (each a sequence of
  engine steps, with its entry in the counter of open requests), ticks of the clock, outages and
  recoveries of the hot store, and the operations of the administration pages. The invariant of
  the tables holds in every reachable state.
\<close>

section \<open>The administration keeps the tables well-formed\<close>

definition allow_value_ok :: "allow_entry \<Rightarrow> bool" where
  "allow_value_ok e \<longleftrightarrow>
     (if al_type e = target_ip
      then (\<exists>raw. waf_acl_entry_problem (Some raw) False = None \<and> canonical_ip_or_network (Some raw) = Some (al_value e))
      else al_type e = target_username \<and> al_value e \<noteq> [] \<and> normalize_username (Some (al_value e)) = al_value e)"

definition allow_wf :: "'a db \<Rightarrow> bool" where
  "allow_wf db \<longleftrightarrow>
     distinct (map al_id (allowlist db)) \<and> distinct (map (\<lambda>e. (al_type e, al_value e)) (allowlist db)) \<and>
     (\<forall>e \<in> set (allowlist db). al_id e < next_allow db \<and> allow_value_ok e)"

definition rule_ok :: "ban_rule \<Rightarrow> bool" where
  "rule_ok r \<longleftrightarrow> 0 \<le> ru_threshold r \<and> 0 \<le> ru_window r \<and> 0 \<le> ru_ban_minutes r"

definition rules_wf :: "'a db \<Rightarrow> bool" where
  "rules_wf db \<longleftrightarrow> distinct (map ru_type (rules db)) \<and> (\<forall>r \<in> set (rules db). rule_ok r)"

definition sec_wf :: "'a db \<Rightarrow> bool" where
  "sec_wf db \<longleftrightarrow> bans_wf db \<and> allow_wf db \<and> rules_wf db \<and> (\<forall>ip. 0 \<le> concurrent db ip)"

lemma compress_hextets_length: "2 \<le> length hs \<Longrightarrow> 2 \<le> length (compress_hextets hs)"
  by (cases hs) (auto simp: compress_hextets_def split: prod.split)

lemma join_with_two: "2 \<le> length ws \<Longrightarrow> sep \<noteq> [] \<Longrightarrow> join_with sep ws \<noteq> []"
  by (cases "(sep, ws)" rule: join_with.cases) auto

lemma show_addr_non_empty: "show_addr a \<noteq> []"
proof (cases a)
  case (IPv4 x)
  then show ?thesis by (simp add: show_ipv4_def)
next
  case (IPv6 x sc)
  have "length (hextets_of n y) = n" for n y by (induction n arbitrary: y) simp_all
  then have "show_ipv6 x \<noteq> []"
    by (simp add: show_ipv6_def join_with_two compress_hextets_length)
  with IPv6 show ?thesis by (cases sc) simp_all
qed

lemma canonical_non_empty: "canonical_ip_or_network (Some s) \<noteq> Some []"
  using show_addr_non_empty by (auto simp: canonical_ip_or_network_def show_net_def split: option.split)

lemma accepted_canonical:
  assumes "waf_acl_entry_problem (Some s) deny = None"
  obtains t where "canonical_ip_or_network (Some s) = Some t" and "t \<noteq> []"
  using assms canonical_non_empty [of s]
  by (cases "canonical_ip_or_network (Some s)")
    (auto simp: waf_acl_entry_problem_def canonical_ip_or_network_def split: option.splits if_splits)

text \<open>Operations that leave a table alone keep its part of the invariant.\<close>

lemma bans_wf_same: "bans db' = bans db \<Longrightarrow> next_ban db' = next_ban db \<Longrightarrow> clock db \<le> clock db' \<Longrightarrow>
    bans_wf db \<Longrightarrow> bans_wf db'"
  by (fastforce simp: bans_wf_def ban_row_ok_def split: option.splits)

lemma allow_wf_same: "allowlist db' = allowlist db \<Longrightarrow> next_allow db' = next_allow db \<Longrightarrow> allow_wf db \<Longrightarrow> allow_wf db'"
  by (simp add: allow_wf_def)

lemma rules_wf_same: "rules db' = rules db \<Longrightarrow> rules_wf db \<Longrightarrow> rules_wf db'"
  by (simp add: rules_wf_def)

lemma default_rules_ok: "r \<in> set (default_rules now) \<Longrightarrow> rule_ok r"
  by (auto simp: default_rules_def default_rule_def rule_ok_def)

lemma rules_wf_ensure: "rules_wf db \<Longrightarrow> rules_wf (ensure_security_defaults db)"
proof -
  assume w: "rules_wf db"
  have "distinct (map ru_type (default_rules (clock db)))"
    unfolding default_rule_types by (simp add: shipped_types_def)
  then have "distinct (map ru_type (filter p (default_rules (clock db))))" for p
    by (rule distinct_map_filter)
  with w show ?thesis
    by (auto simp: rules_wf_def ensure_security_defaults_def default_rules_ok) (metis image_eqI)
qed

lemma ban_step_rules: "ban_step db db' \<Longrightarrow> rules_wf db \<Longrightarrow> rules_wf db'"
  by (induction rule: ban_step.induct) (auto simp: rules_wf_ensure intro: rules_wf_same)

lemma ban_steps_sec_wf: "ban_steps db db' \<Longrightarrow> sec_wf db \<Longrightarrow> sec_wf db'"
proof -
  assume st: "ban_steps db db'" and w: "sec_wf db"
  have "rules_wf db'"
    using st by (induction rule: ban_steps_induct) (use w ban_step_rules in \<open>auto simp: sec_wf_def\<close>)
  moreover have "allow_wf db'" "\<forall>ip. 0 \<le> concurrent db' ip"
    using w ban_steps_setup [OF st] by (auto simp: sec_wf_def same_setup_def intro: allow_wf_same)
  ultimately show ?thesis using ban_steps_wf [OF st] w by (simp add: sec_wf_def)
qed

lemma map_put_ban: "b_id b' = i \<Longrightarrow> map b_id (put_ban bs i b') = map b_id bs"
  by (induction bs) (auto simp: put_ban_def update_rows_def)

lemma bans_wf_put:
  assumes "bans_wf db" and "find_ban (bans db) i = Some b" and "b_id b' = i" and "ban_row_ok (clock db) b'"
  shows "bans_wf (db\<lparr>bans := put_ban (bans db) i b'\<rparr>)"
proof -
  have "i < next_ban db"
    using assms(1,2) first_row_Some [of _ "bans db" b] by (auto simp: bans_wf_def find_ban_def)
  moreover have "set (put_ban (bans db) i b') \<subseteq> insert b' (set (bans db))"
    by (auto simp: put_ban_def set_update_rows)
  ultimately show ?thesis
    using assms(1,3,4) by (auto simp: bans_wf_def map_put_ban)
qed

lemma find_ban_row: "bans_wf db \<Longrightarrow> find_ban (bans db) i = Some b \<Longrightarrow> b_id b = i \<and> ban_row_ok (clock db) b"
  using first_row_Some [of _ "bans db" b] by (auto simp: bans_wf_def find_ban_def)

lemma clear_counters_frame [simp]:
  "next_ban (snd (clear_failed_login_counters ips us db)) = next_ban db"
  "clock (snd (clear_failed_login_counters ips us db)) = clock db"
  "allowlist (snd (clear_failed_login_counters ips us db)) = allowlist db"
  "next_allow (snd (clear_failed_login_counters ips us db)) = next_allow db"
  "rules (snd (clear_failed_login_counters ips us db)) = rules db"
  "concurrent (snd (clear_failed_login_counters ips us db)) = concurrent db"
  by (simp_all add: clear_failed_login_counters_def Let_def)

lemma lift_ban_wf: "sec_wf db \<Longrightarrow> sec_wf (snd (lift_ban i actor fip db))"
proof (cases "find_ban (bans db) i")
  case None
  then show "sec_wf db \<Longrightarrow> ?thesis" by (simp add: lift_ban_def)
next
  case (Some b)
  assume w: "sec_wf db"
  then have b: "b_id b = i" "ban_row_ok (clock db) b" and bw: "bans_wf db"
    using find_ban_row [OF _ Some] by (auto simp: sec_wf_def)
  have put: "bans_wf (db\<lparr>bans := put_ban (bans db) i (mark_lifted (clock db) actor b)\<rparr>)"
    by (rule bans_wf_put [OF bw Some]) (auto simp: b row_ok_lifted)
  have "bans_wf (snd (lift_ban i actor fip db))"
    using bw by (auto simp: lift_ban_def Some Let_def intro!: bans_wf_same [OF _ _ _ put])
  moreover have "allow_wf (snd (lift_ban i actor fip db))" "rules_wf (snd (lift_ban i actor fip db))"
    "concurrent (snd (lift_ban i actor fip db)) = concurrent db"
    using w by (auto simp: sec_wf_def lift_ban_def Some Let_def intro: allow_wf_same rules_wf_same)
  ultimately show ?thesis using w by (simp add: sec_wf_def)
qed

lemma extend_ban_wf: "sec_wf db \<Longrightarrow> sec_wf (snd (extend_ban_minutes i m db))"
proof (cases "find_ban (bans db) i")
  case None
  then show "sec_wf db \<Longrightarrow> ?thesis" by (simp add: extend_ban_minutes_def)
next
  case (Some b)
  assume w: "sec_wf db"
  then have b: "b_id b = i" "ban_row_ok (clock db) b" and bw: "bans_wf db"
    using find_ban_row [OF _ Some] by (auto simp: sec_wf_def)
  have pos: "0 < minutes (max 1 m)" "minutes 1 \<le> minutes (max 1 m)"
    using minutes_pos minutes_mono [of 1 "max 1 m"] by auto
  let ?b = "b\<lparr>b_expires := Some ((case b_expires b of None \<Rightarrow> clock db | Some e \<Rightarrow> e) + minutes (max 1 m))\<rparr>"
  have "bans_wf (db\<lparr>bans := put_ban (bans db) i ?b\<rparr>)" if "\<not> b_permanent b"
    using that pos b minutes_pos
    by (intro bans_wf_put [OF bw Some]) (auto simp: ban_row_ok_def split: option.splits)
  with w show ?thesis
    by (auto simp: sec_wf_def extend_ban_minutes_def Some Let_def intro: allow_wf_same rules_wf_same)
qed

lemma allow_wf_add:
  assumes "allow_wf db" and "al_id e = next_allow db" and "allow_value_ok e"
    and "\<forall>x \<in> set (allowlist db). \<not> (al_type x = al_type e \<and> al_value x = al_value e)"
  shows "allow_wf (log_action a b c d i (db\<lparr>allowlist := allowlist db @ [e], next_allow := next_allow db + 1\<rparr>))"
  using assms unfolding allow_wf_def
  by (simp add: image_iff) force

lemma add_allow_wf: "sec_wf db \<Longrightarrow> sec_wf (snd (add_allowlist_entry ty v c actor fip db))"
proof -
  assume w: "sec_wf db"
  have "allow_wf (snd (add_allowlist_entry ty v c actor fip db))"
  proof (cases "ty = target_ip")
    case True
    with w show ?thesis
      by (auto simp: add_allowlist_entry_def sec_wf_def Let_def allow_value_ok_def
          intro!: allow_wf_add elim: accepted_canonical split: option.splits)
  next
    case False
    with w show ?thesis
      by (auto simp: add_allowlist_entry_def sec_wf_def Let_def allow_value_ok_def
          intro!: allow_wf_add split: option.splits)
  qed
  moreover have "bans (snd (add_allowlist_entry ty v c actor fip db)) = bans db"
    "next_ban (snd (add_allowlist_entry ty v c actor fip db)) = next_ban db"
    "clock (snd (add_allowlist_entry ty v c actor fip db)) = clock db"
    "rules (snd (add_allowlist_entry ty v c actor fip db)) = rules db"
    "concurrent (snd (add_allowlist_entry ty v c actor fip db)) = concurrent db"
    by (auto simp: add_allowlist_entry_def Let_def split: option.split)
  ultimately show ?thesis using w by (simp add: sec_wf_def bans_wf_def rules_wf_def)
qed

lemma remove_allow_wf: "sec_wf db \<Longrightarrow> sec_wf (remove_allowlist_entry i actor fip db)"
proof -
  assume w: "sec_wf db"
  have "allow_wf (remove_allowlist_entry i actor fip db)"
    using w by (auto simp: sec_wf_def allow_wf_def remove_allowlist_entry_def distinct_map_filter
        split: option.split)
  moreover have "bans_wf (remove_allowlist_entry i actor fip db)" "rules_wf (remove_allowlist_entry i actor fip db)"
    "concurrent (remove_allowlist_entry i actor fip db) = concurrent db"
    using w by (auto simp: sec_wf_def remove_allowlist_entry_def intro: bans_wf_same rules_wf_same
        split: option.split)
  ultimately show ?thesis using w by (simp add: sec_wf_def)
qed

lemma payload_rule: "rule_ok r \<Longrightarrow> rule_ok (apply_ban_rule_payload now p r)"
  by (auto simp: rule_ok_def apply_ban_rule_payload_def payload_int_def Let_def split: option.split)

lemma update_rule_rows_wf:
  "distinct (map ru_type rs) \<and> (\<forall>r \<in> set rs. rule_ok r) \<Longrightarrow>
   distinct (map ru_type (update_rule_rows now ps rs)) \<and> (\<forall>r \<in> set (update_rule_rows now ps rs). rule_ok r)"
proof (induction now ps rs rule: update_rule_rows.induct)
  case (2 now t p ps rs)
  have "map ru_type (update_rows (\<lambda>r. ru_type r = t) (apply_ban_rule_payload now p) rs) = map ru_type rs"
    by (intro map_update_rows) (simp add: apply_ban_rule_payload_def Let_def)
  moreover have "\<forall>r \<in> set (update_rows (\<lambda>r. ru_type r = t) (apply_ban_rule_payload now p) rs). rule_ok r"
    using "2.prems" payload_rule unfolding set_update_rows by auto
  ultimately show ?case using "2.IH" "2.prems" by simp
qed simp

lemma update_rules_wf: "sec_wf db \<Longrightarrow> sec_wf (update_ban_rules ps actor fip db)"
proof -
  assume w: "sec_wf db"
  then have "rules_wf (ensure_security_defaults db)" by (simp add: sec_wf_def rules_wf_ensure)
  then have "rules_wf (update_ban_rules ps actor fip db)"
    using update_rule_rows_wf by (simp add: rules_wf_def update_ban_rules_def Let_def)
  with w show ?thesis
    by (auto simp: sec_wf_def update_ban_rules_def Let_def intro: bans_wf_same allow_wf_same)
qed

lemma update_policy_wf: "sec_wf db \<Longrightarrow> sec_wf (snd (update_policy_misc e al de actor fip db))"
proof -
  assume w: "sec_wf db"
  have "rules (snd (update_policy_misc e al de actor fip db)) = rules (ensure_security_defaults db)"
    by (simp add: update_policy_misc_def get_policy_def Let_def)
  then have "rules_wf (snd (update_policy_misc e al de actor fip db))"
    using w rules_wf_ensure rules_wf_same by (fastforce simp: sec_wf_def)
  with w show ?thesis
    by (auto simp: sec_wf_def update_policy_misc_def get_policy_def Let_def intro: bans_wf_same allow_wf_same)
qed

lemma manual_ban_steps: "ban_steps db (snd (apply_manual_ban ty tg re pe mi co actor fip db))"
  by (auto simp: apply_manual_ban_def Let_def case_prod_beta apply_ban_steps split: option.split)

lemma list_active_steps: "ban_steps db (snd (list_active_bans db))"
  using ban_steps_trans [OF steps_defaults lift_expired_steps] by (simp add: list_active_bans_def Let_def)

section \<open>Reachable states\<close>

inductive sec_step :: "'a db \<Rightarrow> 'a db \<Rightarrow> bool" where
  sec_engine: "ban_steps db db' \<Longrightarrow> sec_step db db'"
| sec_tick: "0 \<le> dt \<Longrightarrow> sec_step db (db\<lparr>clock := clock db + dt\<rparr>)"
| sec_outage: "sec_step db (db\<lparr>hot_up := up\<rparr>)"
| sec_begin: "sec_step db (begin_concurrent ip db)"
| sec_end: "sec_step db (end_concurrent ip db)"
| sec_policy: "sec_step db (snd (update_policy_misc e al de actor fip db))"
| sec_rules: "sec_step db (update_ban_rules ps actor fip db)"
| sec_manual: "sec_step db (snd (apply_manual_ban ty tg re pe mi co actor fip db))"
| sec_lift: "sec_step db (snd (lift_ban i actor fip db))"
| sec_extend: "sec_step db (snd (extend_ban_minutes i mi db))"
| sec_list: "sec_step db (snd (list_active_bans db))"
| sec_allow: "sec_step db (snd (add_allowlist_entry ty tg c actor fip db))"
| sec_disallow: "sec_step db (remove_allowlist_entry i actor fip db)"

inductive sec_reachable :: "sec_db \<Rightarrow> bool" where
  sec_start: "sec_reachable (fresh_db now)"
| sec_next: "sec_reachable db \<Longrightarrow> sec_step db db' \<Longrightarrow> sec_reachable db'"

lemma concurrent_wf:
  "sec_wf db \<Longrightarrow> sec_wf (begin_concurrent ip db)" "sec_wf db \<Longrightarrow> sec_wf (end_concurrent ip db)"
  by (auto simp: sec_wf_def begin_concurrent_def end_concurrent_def bans_wf_def allow_wf_def rules_wf_def)

lemma sec_step_wf: "sec_step db db' \<Longrightarrow> sec_wf db \<Longrightarrow> sec_wf db'"
proof (induction rule: sec_step.induct)
  case (sec_engine db db')
  then show ?case by (rule ban_steps_sec_wf)
next
  case (sec_tick dt db)
  have "bans_wf (db\<lparr>clock := clock db + dt\<rparr>)"
    by (rule bans_wf_same [of _ db]) (use sec_tick in \<open>auto simp: sec_wf_def\<close>)
  with sec_tick show ?case by (simp add: sec_wf_def allow_wf_def rules_wf_def)
next
  case (sec_outage db up)
  then show ?case by (simp add: sec_wf_def bans_wf_def allow_wf_def rules_wf_def)
qed (simp_all add: concurrent_wf update_policy_wf update_rules_wf ban_steps_sec_wf [OF manual_ban_steps]
    lift_ban_wf extend_ban_wf ban_steps_sec_wf [OF list_active_steps] add_allow_wf remove_allow_wf)

text \<open>C18: the tables are sound in every reachable state: after any sequence of requests, ticks, outages
  and administration, the ban rows have distinct ids, targets, and ends at least a minute after their
  start (or none, when permanent); the allow list has no duplicate entry and only entries the ACL
  check accepts; every rule exists once with thresholds that are not negative; no counter of open
  requests is negative.\<close>

theorem reachable_tables_sound:
  assumes "sec_reachable db"
  shows "sec_wf db"
  using assms
proof (induction rule: sec_reachable.induct)
  case (sec_start now)
  show ?case by (simp add: sec_wf_def bans_wf_def allow_wf_def rules_wf_def fresh_db_def)
qed (rule sec_step_wf)

theorem reachable_tables_sound_witness:
  "sec_wf (snd (add_allowlist_entry target_ip '' 198.51.100.7/24'' ''ops'' ''admin'' None (fresh_db 0)))"
  by (rule reachable_tables_sound) (rule sec_next [OF sec_start sec_allow])

text \<open>An administrator's unblock is effective: the ban with the given id, if it is active, is lifted now
  by that actor, no other row changes, and while the hot store answers the failed-login counter of
  the address is empty, so that the next failure is counted as the first.\<close>

theorem lift_ban_unblocks:
  assumes "bans_wf db" and "hot_up db" and "find_ban (bans db) i = Some b" and "b_lifted b = None"
    and "b_type b = target_ip" and "strip (b_target b) \<noteq> []"
  shows "find_ban (bans (snd (lift_ban i actor fip db))) i = Some (mark_lifted (clock db) actor b) \<and>
    (\<forall>j. j \<noteq> i \<longrightarrow> find_ban (bans (snd (lift_ban i actor fip db))) j = find_ban (bans db) j) \<and>
    count_events (''fail_ip'', b_target b) c (rate_events (snd (lift_ban i actor fip db))) = 0"
proof -
  have id: "b_id (mark_lifted (clock db) actor b) = i"
    using find_ban_row [OF assms(1,3)] by simp
  have rows: "bans (snd (lift_ban i actor fip db)) = put_ban (bans db) i (mark_lifted (clock db) actor b)"
    using assms(3-5) by (simp add: lift_ban_def Let_def)
  have "count_events (''fail_ip'', b_target b) c (rate_events (snd (lift_ban i actor fip db))) = 0"
    using assms(2-6)
    by (auto simp: lift_ban_def Let_def count_events_def filter_empty_conv clear_counters_events)
  then show ?thesis
    unfolding rows using ban_table.find_put [OF assms(3) id] by simp
qed

theorem lift_ban_unblocks_witness:
  "count_events (''fail_ip'', ''203.0.113.9'') 0
     (rate_events (snd (lift_ban 1 ''admin'' None
       ((fresh_db 5)\<lparr>bans := [sample_ban], next_ban := 2,
         rate_events := [\<lparr>ev_kind = ''fail_ip'', ev_key = ''203.0.113.9'', ev_at = 5\<rparr>]\<rparr>)))) = 0"
proof -
  let ?db = "(fresh_db 5)\<lparr>bans := [sample_ban], next_ban := 2,
         rate_events := [\<lparr>ev_kind = ''fail_ip'', ev_key = ''203.0.113.9'', ev_at = 5\<rparr>]\<rparr>"
  have "bans_wf ?db" "hot_up ?db" "find_ban (bans ?db) 1 = Some sample_ban" "b_lifted sample_ban = None"
    "b_type sample_ban = target_ip" "strip (b_target sample_ban) \<noteq> []"
    by code_simp+
  from lift_ban_unblocks [OF this] have
    "count_events (''fail_ip'', b_target sample_ban) 0 (rate_events (snd (lift_ban 1 ''admin'' None ?db))) = 0"
    by blast
  then show ?thesis by (simp add: sample_ban_def)
qed

text \<open>A manual ban of an address or a network never cuts the infrastructure: what is banned is the
  canonical text of a network that parsed, is no broader than the ACL allows, and contains no loopback
  or Docker address; and it is permanent only when the administrator confirmed that.\<close>

theorem manual_ban_spares_infrastructure:
  assumes "apply_manual_ban target_ip target reason permanent mins confirm actor fip db = (Ok (Some b), db')"
  shows "\<exists>net. parse_ip_network (Some (strip target)) = Some net \<and>
    canonical_ip_or_network (Some (strip target)) = Some (b_target b) \<and>
    waf_acl_min_prefix (net_version net) \<le> net_prefix net \<and>
    (\<forall>m \<in> set infra_hop_networks_all. \<forall>a. in_net a m \<longrightarrow> \<not> in_net a net) \<and>
    \<not> is_allowlisted db (Some (b_target b)) None"
proof -
  have ok: "waf_acl_entry_problem (Some (strip target)) True = None"
    using assms by (auto simp: apply_manual_ban_def Let_def split: option.splits)
  then obtain t where t: "canonical_ip_or_network (Some (strip target)) = Some t" "t \<noteq> []"
    by (rule accepted_canonical)
  obtain re mi where ab: "apply_ban target_ip t re (Some ''manual'') permanent mi actor fip confirm db = (Some b, db')"
    using assms ok t by (auto simp: apply_manual_ban_def Let_def case_prod_beta prod_eq_iff)
  have "b_target b = t" "\<not> is_allowlisted db (Some t) None"
    using apply_ban_result [OF ab] by (auto simp: ban_target_def as_ip_def as_user_def)
  with t acl_deny_spares [OF ok] show ?thesis
    by (cases "parse_ip_network (Some (strip target))") (auto simp: infra_hop_networks_all_def)
qed

theorem manual_ban_spares_infrastructure_witness:
  "\<exists>b db'. apply_manual_ban target_ip '' 203.0.113.77/24 '' [] False 60 False ''admin'' None (fresh_db 0) = (Ok (Some b), db')
     \<and> \<not> is_allowlisted (fresh_db 0) (Some (b_target b)) None"
proof -
  let ?r = "apply_manual_ban target_ip '' 203.0.113.77/24 '' [] False 60 False ''admin'' None (fresh_db 0)"
  have "\<exists>b. fst ?r = Ok (Some b)"
  proof -
    have "(case fst ?r of Ok (Some b) \<Rightarrow> True | _ \<Rightarrow> False)" by code_simp
    then show ?thesis by (auto split: result.splits option.splits)
  qed
  then obtain b db' where r: "?r = (Ok (Some b), db')" by (cases ?r) auto
  with manual_ban_spares_infrastructure [OF r] show ?thesis by blast
qed

end
