(* ===== verification/BanSensor.thy ===== *)
theory BanSensor
  imports BanSystem SqlLike
begin

text \<open>
  \<open>app/security/banning/nginx_ratelimit_sensor.py\<close>: the lines nginx logs for its 429 answers, the
  events recorded from them, and the escalation to a ban. The log file is a parameter: its text at
  each tick, \<^const>\<open>None\<close> when it does not exist; the offset kept per path is the number of
  characters read. The export of the nginx configuration after a ban writes files and is not part
  of the model.
\<close>

section \<open>Parsing\<close>

record limit_event =
  le_ip :: string
  le_method :: string
  le_uri :: string
  le_status :: int
  le_zone :: string
  le_raw_ts :: string

definition infer_zone :: "string \<Rightarrow> string" where
  "infer_zone uri =
     (let path = takeWhile (\<lambda>c. c \<noteq> CHR ''?'') uri
      in if starts_with ''/admin/auth'' path \<or> starts_with ''/auth/'' path \<or> starts_with ''/login'' path
         then ''login''
         else if starts_with ''/api/'' path then ''api''
         else ''standard'')"

fun py_words :: "string \<Rightarrow> string list" where
  \<comment> \<open>the maximal runs of non-space characters, which are what the groups \<open>\S+\<close> and \<open>\d+\<close> of the
      expression can match, as \<open>\s+\<close> separates them\<close>
  "py_words [] = []"
| "py_words (c # s) =
     (if is_space c then py_words s
      else (case s of
              [] \<Rightarrow> [[c]]
            | d # _ \<Rightarrow> if is_space d then [c] # py_words s
                       else (case py_words s of [] \<Rightarrow> [[c]] | w # ws \<Rightarrow> (c # w) # ws)))"

definition parse_rate_limit_line :: "string \<Rightarrow> limit_event option" where
  "parse_rate_limit_line line =
     (let text = strip line
      in if text = [] \<or> starts_with ''#'' text then None
         else (case py_words text of
                 [ip, ts, meth, uri, status, len] \<Rightarrow>
                   (if \<not> list_all is_digit status \<or> \<not> list_all is_digit len then None
                    else if dec_value status \<noteq> 429 then None
                    else Some \<lparr>le_ip = ip, le_method = meth, le_uri = uri, le_status = 429,
                               le_zone = infer_zone uri, le_raw_ts = ts\<rparr>)
               | _ \<Rightarrow> None))"

section \<open>Recording and escalation\<close>

definition kind_nginx_429 :: string where
  "kind_nginx_429 = ''nginx_429''"

definition record_nginx_429 ::
  "string \<Rightarrow> string option \<Rightarrow> int option \<Rightarrow> 'a db \<Rightarrow> (db_error, int) result \<times> 'a db" where
  "record_nginx_429 ip zone occurred_at db =
     (let (rule, db) = get_rule rule_nginx_limit_req db;
          window = (case rule of None \<Rightarrow> 60 | Some r \<Rightarrow> int_or (ru_window r) 60);
          ip_n = strip ip
      in if ip_n = [] then (Ok 0, db)
         else if \<not> hot_up db then (Raise SqlError, db)
         else (let now = (case occurred_at of None \<Rightarrow> clock db | Some t \<Rightarrow> t);
                   key = (if opt_str zone = [] then ip_n else ip_n @ ''|'' @ opt_str zone);
                   es = rate_events db @ [\<lparr>ev_kind = kind_nginx_429, ev_key = key, ev_at = now\<rparr>];
                   cutoff = now - seconds window
               in (Ok (int (length (filter (\<lambda>e. ev_kind e = kind_nginx_429 \<and>
                              (ev_key e = ip_n \<or> like None (ip_n @ ''|%'') (ev_key e)) \<and> cutoff \<le> ev_at e) es))),
                   db\<lparr>rate_events := es\<rparr>)))"

definition maybe_escalate_ip :: "string \<Rightarrow> int \<Rightarrow> string option \<Rightarrow> 'a db \<Rightarrow> ban option \<times> 'a db" where
  "maybe_escalate_ip ip count zone db =
     (let (rule, db) = get_rule rule_nginx_limit_req db
      in case rule of
           None \<Rightarrow> (None, db)
         | Some r \<Rightarrow>
             if \<not> ru_enabled r then (None, db)
             else if count < int_or (ru_threshold r) 30 then (None, db)
             else (let ip_n = strip ip
                   in if ip_n = [] then (None, db)
                      else if is_allowlisted db (Some ip_n) None then (None, db)
                      else (let (ex, db) = is_breakglass_ban_exempt db (Some ip_n)
                            in if ex then (None, db)
                               else apply_nginx_limit_req_ban ip_n count (int_or (ru_window r) 60) zone db)))"

fun put_meta :: "string \<Rightarrow> int \<times> string \<Rightarrow> (string \<times> (int \<times> string)) list \<Rightarrow> (string \<times> (int \<times> string)) list" where
  \<comment> \<open>\<open>per_ip[ip] = ...\<close>: a dictionary keeps the position of an existing key\<close>
  "put_meta k v [] = [(k, v)]"
| "put_meta k v ((k', v') # m) = (if k' = k then (k, v) # m else (k', v') # put_meta k v m)"

fun record_events ::
  "limit_event list \<Rightarrow> (string \<times> (int \<times> string)) list \<Rightarrow> 'a db
   \<Rightarrow> (db_error, (string \<times> (int \<times> string)) list) result \<times> 'a db" where
  "record_events [] per_ip db = (Ok per_ip, db)"
| "record_events (ev # evs) per_ip db =
     (let ip = strip (le_ip ev); zone = le_zone ev
      in if ip = [] then record_events evs per_ip db
         else bind_res (record_nginx_429 ip (Some zone) None db)
                (\<lambda>count db.
                   let cur = map_of per_ip ip
                   in record_events evs
                        (if (case cur of None \<Rightarrow> True | Some (c, _) \<Rightarrow> c \<le> count)
                         then put_meta ip (count, zone) per_ip else per_ip) db))"

fun escalate_all :: "(string \<times> (int \<times> string)) list \<Rightarrow> 'a db \<Rightarrow> ban list \<times> 'a db" where
  "escalate_all [] db = ([], db)"
| "escalate_all ((ip, (count, zone)) # m) db =
     (let (b, db) = maybe_escalate_ip ip count (Some zone) db;
          (bs, db) = escalate_all m db
      in ((case b of None \<Rightarrow> bs | Some x \<Rightarrow> x # bs), db))"

definition ingest_parsed_events :: "limit_event list \<Rightarrow> 'a db \<Rightarrow> (db_error, ban list) result \<times> 'a db" where
  "ingest_parsed_events events db =
     (case record_events events [] db of
        (Raise e, db) \<Rightarrow> (Raise e, db)
      | (Ok per_ip, db) \<Rightarrow> (let (bs, db) = escalate_all per_ip db in (Ok bs, db)))"

section \<open>Reading the log\<close>

definition is_line_break :: "char \<Rightarrow> bool" where
  \<comment> \<open>the boundaries of \<open>splitlines\<close>\<close>
  "is_line_break c \<longleftrightarrow> (10 \<le> cp c \<and> cp c \<le> 13) \<or> (28 \<le> cp c \<and> cp c \<le> 30) \<or> cp c = 133"

fun split_lines :: "string \<Rightarrow> string list" where
  \<comment> \<open>a line break between \<open>\r\<close> and \<open>\n\<close> yields an empty line here, which the caller drops\<close>
  "split_lines [] = []"
| "split_lines (c # s) =
     (if is_line_break c then [] # split_lines s
      else (case s of
              [] \<Rightarrow> [[c]]
            | d # _ \<Rightarrow> if is_line_break d then [c] # split_lines (tl s)
                       else (case split_lines s of [] \<Rightarrow> [[c]] | w # ws \<Rightarrow> (c # w) # ws)))"

definition read_new_log_lines :: "string option \<Rightarrow> nat \<Rightarrow> string list \<times> nat" where
  \<comment> \<open>the new lines and the new offset; a file shorter than the offset was rotated\<close>
  "read_new_log_lines file offset =
     (case file of
        None \<Rightarrow> ([], offset)
      | Some text \<Rightarrow>
          (let offset = (if length text < offset then 0 else offset)
           in (filter (\<lambda>ln. strip ln \<noteq> []) (split_lines (drop offset text)), length text)))"

record tick_report =
  tr_lines :: nat
  tr_events :: nat
  tr_bans :: nat

definition run_sensor_tick ::
  "string option \<Rightarrow> nat \<Rightarrow> 'a db \<Rightarrow> ((db_error, tick_report) result \<times> nat) \<times> 'a db" where
  "run_sensor_tick file offset db =
     (let db = ensure_security_defaults db;
          (lines, offset) = read_new_log_lines file offset;
          events = List.map_filter parse_rate_limit_line lines
      in if events = []
         then ((Ok \<lparr>tr_lines = length lines, tr_events = 0, tr_bans = 0\<rparr>, offset), db)
         else (case ingest_parsed_events events db of
                 (Raise e, db) \<Rightarrow> ((Raise e, offset), db)
               | (Ok bs, db) \<Rightarrow>
                   ((Ok \<lparr>tr_lines = length lines, tr_events = length events, tr_bans = length bs\<rparr>, offset), db)))"

definition count_nginx_429_events_24h :: "'a db \<Rightarrow> nat" where
  "count_nginx_429_events_24h db =
     length (filter (\<lambda>e. ev_kind e = kind_nginx_429 \<and> clock db - seconds 86400 \<le> ev_at e) (rate_events db))"

lemmas sensor_defs [py_defs] =
  infer_zone_def parse_rate_limit_line_def kind_nginx_429_def record_nginx_429_def
  maybe_escalate_ip_def ingest_parsed_events_def is_line_break_def read_new_log_lines_def
  run_sensor_tick_def count_nginx_429_events_24h_def

section \<open>What the sensor sees\<close>

definition word :: "string \<Rightarrow> bool" where
  "word w \<longleftrightarrow> w \<noteq> [] \<and> list_all (\<lambda>c. \<not> is_space c) w"

lemma word_Cons: "word (c # w) \<longleftrightarrow> \<not> is_space c \<and> (w = [] \<or> word w)"
  by (auto simp: word_def)

lemma py_words_step:
  "\<not> is_space c \<Longrightarrow> \<not> is_space d \<Longrightarrow>
    py_words (c # d # s) = (case py_words (d # s) of [] \<Rightarrow> [[c]] | w # ws \<Rightarrow> (c # w) # ws)"
  "\<not> is_space c \<Longrightarrow> is_space d \<Longrightarrow> py_words (c # d # s) = [c] # py_words s"
  by simp_all

lemma py_words_one: "\<not> is_space c \<Longrightarrow> py_words [c] = [[c]]"
  by simp

lemma py_words_word: "word w \<Longrightarrow> py_words w = [w]"
proof (induction w)
  case (Cons c w)
  then show ?case
    by (cases w) (simp_all add: word_Cons py_words_step py_words_one del: py_words.simps)
qed (simp add: word_def)

lemma py_words_append: "word w \<Longrightarrow> is_space x \<Longrightarrow> py_words (w @ x # s) = w # py_words s"
proof (induction w)
  case (Cons c w)
  then show ?case
    by (cases w) (simp_all add: word_Cons py_words_step del: py_words.simps)
qed (simp add: word_def)

lemma py_words_join: "\<forall>w \<in> set ws. word w \<Longrightarrow> py_words (join_with '' '' ws) = ws"
proof (induction "'' ''" ws rule: join_with.induct)
  case (3 w v ws)
  then show ?case by (simp add: py_words_append is_space_def)
qed (simp_all add: py_words_word)

lemma strip_ends:
  assumes "s \<noteq> []" and "\<not> is_space (hd s)" and "\<not> is_space (last s)"
  shows "strip s = s"
proof -
  have "lstrip s = s" using assms(1,2) by (simp add: lstrip_def dropWhile_eq_self_iff)
  moreover have "dropWhile is_space (rev s) = rev s"
    using assms(1,3) by (simp add: dropWhile_eq_self_iff hd_rev)
  ultimately show ?thesis by (simp add: strip_def rstrip_def)
qed

lemma word_ends: "word w \<Longrightarrow> \<not> is_space (hd w) \<and> \<not> is_space (last w)"
  by (auto simp: word_def list_all_iff)

lemma strip_join:
  assumes "\<forall>w \<in> set ws. word w" and "ws \<noteq> []"
  shows "strip (join_with '' '' ws) = join_with '' '' ws"
proof -
  have ne: "join_with '' '' ws \<noteq> []"
    using assms by (cases "('' '', ws)" rule: join_with.cases) (auto simp: word_def)
  have "hd (join_with '' '' ws) = hd (hd ws)"
    using assms by (cases "('' '', ws)" rule: join_with.cases) (auto simp: word_def)
  moreover have "last (join_with '' '' ws) = last (last ws)"
    using assms
  proof (induction "'' ''" ws rule: join_with.induct)
    case (3 w v ws)
    have "join_with '' '' (v # ws) \<noteq> []"
      using 3(2) by (cases "('' '', v # ws)" rule: join_with.cases) (auto simp: word_def)
    with 3 show ?case by simp
  qed auto
  moreover have "\<not> is_space (hd (hd ws))" "\<not> is_space (last (last ws))"
    using assms word_ends [of "hd ws"] word_ends [of "last ws"] by auto
  ultimately have "\<not> is_space (hd (join_with '' '' ws))" "\<not> is_space (last (join_with '' '' ws))" by auto
  with ne show ?thesis by (intro strip_ends)
qed

lemma starts_with_join:
  assumes "word w" and "starts_with [x] (join_with '' '' (w # ws))"
  shows "hd w = x"
  using assms by (cases w; cases ws) (auto simp: word_def)

definition log_line :: "string \<Rightarrow> string \<Rightarrow> string \<Rightarrow> string \<Rightarrow> string \<Rightarrow> string" where
  \<comment> \<open>\<open>log_format bastion_rate_limit '$remote_addr $time_iso8601 $request_method $uri $status $request_length'\<close>
      for a request answered 429; \<open>uri\<close> is the decoded path\<close>
  "log_line ip ts meth uri len = join_with '' '' [ip, ts, meth, uri, ''429'', len]"

text \<open>The sensor does not see every 429. A rejection of a request whose path has no space is parsed
  into its event; but nginx logs the decoded path, and when that path contains a space (the client
  asked for \<open>%20\<close>) the line has a field too many and is dropped, so these rejections never count
  towards the automatic ban.\<close>

theorem sensor_misses_spaces:
  assumes "word ip" and "hd ip \<noteq> CHR ''#''" and "word ts" and "word meth" and "word u" and "word v"
    and "word len" and "list_all is_digit len"
  shows "parse_rate_limit_line (log_line ip ts meth u len) =
      Some \<lparr>le_ip = ip, le_method = meth, le_uri = u, le_status = 429, le_zone = infer_zone u, le_raw_ts = ts\<rparr> \<and>
    parse_rate_limit_line (log_line ip ts meth (u @ '' '' @ v) len) = None"
proof -
  have w429: "word ''429''" by code_simp
  have digits: "list_all is_digit ''429''" "dec_value ''429'' = 429" by code_simp+
  let ?a = "[ip, ts, meth, u, ''429'', len]"
  let ?b = "[ip, ts, meth, u, v, ''429'', len]"
  have ws: "\<forall>w \<in> set ?a. word w" "\<forall>w \<in> set ?b. word w" using assms w429 by auto
  have b: "log_line ip ts meth (u @ '' '' @ v) len = join_with '' '' ?b"
    by (simp add: log_line_def)
  have ne: "join_with '' '' (ip # xs) \<noteq> []" for xs
    using assms(1) by (cases "('' '', ip # xs)" rule: join_with.cases) (auto simp: word_def)
  have hash: "\<not> starts_with ''#'' (join_with '' '' (ip # xs))" for xs
    using starts_with_join [OF assms(1)] assms(2) by metis
  have "py_words (join_with '' '' ?b) = ?b" "py_words (join_with '' '' ?a) = ?a"
    using ws py_words_join by blast+
  moreover have "strip (join_with '' '' ?b) = join_with '' '' ?b" "strip (join_with '' '' ?a) = join_with '' '' ?a"
    using ws strip_join by blast+
  ultimately show ?thesis
    unfolding b unfolding log_line_def parse_rate_limit_line_def
    using ne hash digits assms(8) by (simp del: join_with.simps add: Let_def)
qed

theorem sensor_misses_spaces_witness:
  "parse_rate_limit_line (log_line ''203.0.113.9'' ''2025-01-01T00:00:00+00:00'' ''GET'' (''/login'' @ '' '' @ ''x'') ''512'')
     = None"
proof -
  have "word ''203.0.113.9''" "hd ''203.0.113.9'' \<noteq> CHR ''#''" "word ''2025-01-01T00:00:00+00:00''" "word ''GET''"
    "word ''/login''" "word ''x''" "word ''512''" "list_all is_digit ''512''"
    by code_simp+
  from sensor_misses_spaces [OF this] show ?thesis by blast
qed

section \<open>The sensor bans through the engine\<close>

lemma record_429_steps [reach]: "ban_steps db (snd (record_nginx_429 ip z t db))"
proof -
  have "ban_steps d (d\<lparr>rate_events := es\<rparr>)" for d :: "'a db" and es
    by (intro ban_step_steps step_events)
  then show ?thesis unfolding record_nginx_429_def by (intro reach ban_steps_refl)
qed

lemma escalate_steps [reach]: "ban_steps db (snd (maybe_escalate_ip ip c z db))"
  unfolding maybe_escalate_ip_def by (intro reach ban_steps_refl)

lemma record_events_steps [reach]: "ban_steps db (snd (record_events evs m db))"
proof (induction evs arbitrary: m db)
  case (Cons ev evs)
  then show ?case by (auto simp: Let_def intro!: ban_runs.run_bind record_429_steps)
qed simp

lemma escalate_all_steps [reach]: "ban_steps db (snd (escalate_all m db))"
proof (induction m arbitrary: db)
  case (Cons x m)
  obtain ip c z where x: "x = (ip, c, z)" by (cases x) auto
  have "ban_steps (snd (maybe_escalate_ip ip c (Some z) db))
      (snd (escalate_all m (snd (maybe_escalate_ip ip c (Some z) db))))" by (rule Cons)
  from ban_steps_trans [OF escalate_steps this] show ?case
    by (simp add: x case_prod_beta Let_def)
qed simp

lemma ingest_steps [reach]: "ban_steps db (snd (ingest_parsed_events evs db))"
proof -
  have "ban_steps db (snd (record_events evs [] db))" by (rule record_events_steps)
  then show ?thesis
    by (auto simp: ingest_parsed_events_def case_prod_beta split: result.split
        intro: ban_steps_trans [OF _ escalate_all_steps])
qed

lemma sensor_tick_steps: "ban_steps db (snd (run_sensor_tick file offset db))"
proof -
  have "ban_steps db (snd (ingest_parsed_events evs (ensure_security_defaults db)))" for evs
    using ban_steps_trans [OF steps_defaults ingest_steps] .
  then show ?thesis
    by (auto simp: run_sensor_tick_def Let_def case_prod_beta steps_defaults split: result.split)
qed

definition spared :: "'a db \<Rightarrow> ban \<Rightarrow> bool" where
  \<comment> \<open>a target no new ban may have\<close>
  "spared db b \<longleftrightarrow>
     is_allowlisted db (as_ip (b_type b) (b_target b)) (as_user (b_type b) (b_target b)) \<or>
     (b_type b = target_ip \<and> b_by b = ''system'' \<and> exempt db (Some (b_target b)))"

lemma spared_steps:
  assumes "ban_steps db db'"
  shows "spared db' = spared db"
  by (simp add: spared_def fun_eq_iff ban_steps_same(8,9) [OF assms])

definition same_ban :: "ban \<Rightarrow> ban \<Rightarrow> bool" where
  "same_ban a b \<longleftrightarrow> b_id a = b_id b \<and> b_type a = b_type b \<and> b_target a = b_target b \<and> b_by a = b_by b"

lemma spared_same_ban: "same_ban a b \<Longrightarrow> spared db a = spared db b"
  by (simp add: spared_def same_ban_def)

lemma same_ban_mark: "same_ban b (mark_lifted t a b)"
  by (simp add: same_ban_def mark_lifted_def)

lemma ban_step_spares:
  assumes "ban_step db db'" and "b \<in> set (bans db')"
  shows "(\<exists>old \<in> set (bans db). same_ban old b) \<or> \<not> spared db b"
proof -
  have refl: "same_ban b b" by (simp add: same_ban_def)
  from assms show ?thesis
  proof (induction rule: ban_step.induct)
    case (step_lift db actor)
    then show ?case using refl same_ban_mark by (auto simp: set_update_rows)
  next
    case (step_ban ttype target actor db reason rule permanent mins)
    then show ?case using refl by (auto simp: spared_def may_ban_def)
  qed (use refl in auto)
qed

lemma ban_steps_spare:
  assumes "ban_steps db db'"
  shows "\<forall>b \<in> set (bans db'). (\<exists>old \<in> set (bans db). b_id old = b_id b) \<or> \<not> spared db b"
  using assms
proof (induction rule: ban_steps_induct)
  case refl
  then show ?case by blast
next
  case (step x y)
  show ?case
  proof
    fix b
    assume "b \<in> set (bans y)"
    then have "(\<exists>old \<in> set (bans x). same_ban old b) \<or> \<not> spared db b"
      using ban_step_spares [OF step(2)] spared_steps [OF step(1)] by metis
    then show "(\<exists>old \<in> set (bans db). b_id old = b_id b) \<or> \<not> spared db b"
      using step(3) spared_same_ban unfolding same_ban_def by metis
  qed
qed

text \<open>C29: nothing automatic bans a protected client. Whatever a request, a login or a batch of nginx
  rejections makes the engine do, every ban row it adds has a target that is not on the allow list,
  and an address row of its own is not on an address exempt by the break-glass gate.\<close>

theorem automatic_bans_spare_protected:
  assumes "db' = snd (check_request_allowed ip path meth username db) \<or>
         db' = snd (evaluate_login_attempt ip name success db) \<or>
         db' = snd (record_successful_login ip name db) \<or>
         db' = snd (record_unknown_host_refusal ip hostname uri db) \<or>
         db' = snd (run_sensor_tick file offset db)"
    and "b \<in> set (bans db')" and "b_id b \<notin> b_id ` set (bans db)"
  shows "\<not> is_allowlisted db (as_ip (b_type b) (b_target b)) (as_user (b_type b) (b_target b)) \<and>
    \<not> (b_type b = target_ip \<and> b_by b = ''system'' \<and> exempt db (Some (b_target b)))"
proof -
  have "ban_steps db db'"
    using assms(1) check_request_steps evaluate_login_steps successful_login_steps record_unknown_steps
      sensor_tick_steps by metis
  then have "\<not> spared db b"
    using ban_steps_spare assms(2,3) by (metis image_eqI)
  then show ?thesis by (simp add: spared_def)
qed

theorem automatic_bans_spare_protected_witness:
  "\<exists>b. bans (snd (evaluate_login_attempt ''203.0.113.9'' ''root'' False (fresh_db 0))) = [b] \<and>
     \<not> is_allowlisted (fresh_db 0) (as_ip (b_type b) (b_target b)) (as_user (b_type b) (b_target b))"
proof -
  define d where "d = snd (evaluate_login_attempt ''203.0.113.9'' ''root'' False (fresh_db 0))"
  have "map b_id (bans d) = [1]" unfolding d_def by code_simp
  then obtain b where b: "bans d = [b]" by auto
  have no: "bans (fresh_db 0) = []" by (simp add: fresh_db_def)
  have dis: "d = snd (check_request_allowed ''203.0.113.9'' [] [] None (fresh_db 0)) \<or>
      d = snd (evaluate_login_attempt ''203.0.113.9'' ''root'' False (fresh_db 0)) \<or>
      d = snd (record_successful_login ''203.0.113.9'' ''root'' (fresh_db 0)) \<or>
      d = snd (record_unknown_host_refusal ''203.0.113.9'' None None (fresh_db 0)) \<or>
      d = snd (run_sensor_tick None 0 (fresh_db 0))"
    by (simp only: d_def simp_thms)
  have "\<not> is_allowlisted (fresh_db 0) (as_ip (b_type b) (b_target b)) (as_user (b_type b) (b_target b))"
    by (rule automatic_bans_spare_protected [OF dis, THEN conjunct1]) (simp_all add: b no)
  then show ?thesis using b unfolding d_def by blast
qed

end
