(* ===== verification/Binding.thy ===== *)
theory Binding
  imports BanSensor "HOL-Library.List_Lexorder"
begin

text \<open>
  Identity binding of sessions: \<open>app/security/identity_binding.py\<close> and
  \<open>app/security/session_binding_service.py\<close>. A session row remembers the subnet and the browser
  fingerprint seen at login; later requests are compared with them. The registries of break-glass
  sessions and SSO anchors live in the hot store.

  The digest \<open>hashlib.sha256(text.encode('utf-8')).hexdigest()\<close> is the argument \<open>sha\<close> of the
  definitions that use it. Fresh identifiers (\<open>uuid4\<close>) come from a supply in the state.
\<close>

record web_request = request +
  rq_cookies :: "(string \<times> string) list"

record bg_row =
  bg_jti :: string
  bg_user :: string
  bg_issued :: int
  bg_expires :: int
  bg_revoked :: bool
  bg_revoked_at :: "int option"
  bg_revoked_by :: "string option"
  bg_reason :: "string option"
  bg_first_subnet :: "string option"
  bg_first_fp :: "string option"
  bg_last_subnet :: "string option"
  bg_last_fp :: "string option"
  bg_mismatch :: "int option"
  bg_chain :: "string option"
  bg_superseded_by :: "string option"
  bg_superseded_at :: "int option"
  bg_chain_revoked :: bool

record sso_row =
  ss_hash :: string
  ss_user :: "string option"
  ss_first_subnet :: "string option"
  ss_first_fp :: "string option"
  ss_last_subnet :: "string option"
  ss_last_fp :: "string option"
  ss_mismatch :: int
  ss_first_seen :: int
  ss_last_seen :: int

record session_db = sec_db +
  bg_rows :: "bg_row list"
  sso_rows :: "sso_row list"
  uuids :: "nat \<Rightarrow> string"
  uuid_next :: nat

type_synonym 'a sdb = "'a session_db_scheme"

lemma log_action_session [frame, simp]:
  "bg_rows (log_action a b c d i db) = bg_rows db"
  "sso_rows (log_action a b c d i db) = sso_rows db"
  "uuids (log_action a b c d i db) = uuids db"
  "uuid_next (log_action a b c d i db) = uuid_next db"
  by (simp_all add: log_action_def split: prod.split)

section \<open>Signals\<close>

definition compute_fingerprint :: "(string \<Rightarrow> string) \<Rightarrow> string \<Rightarrow> string \<Rightarrow> string \<Rightarrow> string" where
  "compute_fingerprint sha user_agent accept_language accept_encoding =
     take 32 (sha (user_agent @ ''|'' @ accept_language @ ''|'' @ accept_encoding))"

definition compute_ip_subnet :: "string \<Rightarrow> string" where
  "compute_ip_subnet ip =
     (case ip_address (strip ip) of
        None \<Rightarrow> []
      | Some addr \<Rightarrow>
          (case ip_network (show_addr addr @ ''/'' @ show_int (if ip_version addr = 4 then 24 else 64)) of
             None \<Rightarrow> []
           | Some n \<Rightarrow> show_net n))"

datatype drift = NoDrift | Weak | Strong

definition classify_drift :: "bool \<Rightarrow> bool \<Rightarrow> drift" where
  "classify_drift same_subnet same_fingerprint =
     (if same_subnet \<and> same_fingerprint then NoDrift
      else if same_subnet \<and> \<not> same_fingerprint then Weak
      else Strong)"

definition fingerprint_from_request :: "(string \<Rightarrow> string) \<Rightarrow> request \<Rightarrow> string" where
  "fingerprint_from_request sha rq =
     compute_fingerprint sha (strip (header_or rq ''User-Agent'')) (strip (header_or rq ''Accept-Language''))
       (strip (header_or rq ''Accept-Encoding''))"

definition subnet_from_request :: "net_settings \<Rightarrow> request \<Rightarrow> string" where
  "subnet_from_request cfg rq = compute_ip_subnet (client_ip_from_request cfg rq)"

definition hash_cookie_value :: "(string \<Rightarrow> string) \<Rightarrow> string \<Rightarrow> string" where
  "hash_cookie_value sha v = sha v"

definition is_oauth2_proxy_cookie_name :: "string \<Rightarrow> bool" where
  "is_oauth2_proxy_cookie_name name =
     list_ex (\<lambda>hint. contains_sub hint (lower name)) [''oauth2_proxy'', ''_oauth2'']"

definition oauth2_proxy_cookie_hash :: "(string \<Rightarrow> string) \<Rightarrow> (string \<times> string) list \<Rightarrow> string option" where
  "oauth2_proxy_cookie_hash sha cookies =
     (let parts = map (\<lambda>(n, v). n @ ''='' @ strip v)
            (filter (\<lambda>(n, v). is_oauth2_proxy_cookie_name n \<and> strip v \<noteq> [])
              (sort_key (\<lambda>(n, _). map cp n) cookies))
      in if parts = [] then None else Some (hash_cookie_value sha (join_with ''|'' parts)))"

definition same_signal :: "string option \<Rightarrow> string \<Rightarrow> bool" where
  "same_signal a b \<longleftrightarrow> opt_str a = b"

lemmas signal_defs [py_defs] =
  compute_fingerprint_def compute_ip_subnet_def classify_drift_def fingerprint_from_request_def
  subnet_from_request_def hash_cookie_value_def is_oauth2_proxy_cookie_name_def
  oauth2_proxy_cookie_hash_def same_signal_def

section \<open>Break-glass sessions\<close>

definition find_bg :: "'a sdb \<Rightarrow> string \<Rightarrow> bg_row option" where
  "find_bg db jti = first_row (\<lambda>r. bg_jti r = jti) (bg_rows db)"

definition put_bg :: "'a sdb \<Rightarrow> string \<Rightarrow> bg_row \<Rightarrow> 'a sdb" where
  "put_bg db jti r' = db\<lparr>bg_rows := update_rows (\<lambda>r. bg_jti r = jti) (\<lambda>_. r') (bg_rows db)\<rparr>"

interpretation bg_table: keyed_table find_bg put_bg bg_jti
proof
  show "bg_jti r = k" if "find_bg t k = Some r" for t :: "'a sdb" and k r
    using first_row_Some that unfolding find_bg_def by fast
  show "find_bg (put_bg t k r') k = Some r'" if "find_bg t k = Some r" "bg_jti r' = k" for t :: "'a sdb" and k r r'
  proof -
    have "first_row (\<lambda>r. bg_jti r = k) rs = Some r \<Longrightarrow>
        first_row (\<lambda>r. bg_jti r = k) (update_rows (\<lambda>r. bg_jti r = k) (\<lambda>_. r') rs) = Some r'" for rs
      using that(2) by (induction rs) (auto simp: update_rows_def first_row_cases split: if_splits)
    with that(1) show ?thesis by (simp add: find_bg_def put_bg_def)
  qed
  show "find_bg (put_bg t k r') k' = find_bg t k'" if "k \<noteq> k'" "bg_jti r' = k" for t :: "'a sdb" and k k' r'
  proof -
    have "first_row (\<lambda>r. bg_jti r = k') (update_rows (\<lambda>r. bg_jti r = k) (\<lambda>_. r') rs) =
        first_row (\<lambda>r. bg_jti r = k') rs" for rs
      using that by (induction rs) (auto simp: update_rows_def first_row_cases)
    then show ?thesis by (simp add: find_bg_def put_bg_def)
  qed
qed

definition stamp_signals :: "string \<Rightarrow> string \<Rightarrow> bg_row \<Rightarrow> bg_row" where
  "stamp_signals subnet fp r =
     r\<lparr>bg_first_subnet := str_opt subnet, bg_first_fp := str_opt fp, bg_last_subnet := str_opt subnet,
       bg_last_fp := str_opt fp, bg_mismatch := Some (case bg_mismatch r of None \<Rightarrow> 0 | Some n \<Rightarrow> n)\<rparr>"

definition apply_breakglass_login_anchor ::
  "net_settings \<Rightarrow> (string \<Rightarrow> string) \<Rightarrow> request \<Rightarrow> bg_row \<Rightarrow> bg_row" where
  "apply_breakglass_login_anchor cfg sha rq r =
     stamp_signals (subnet_from_request cfg rq) (fingerprint_from_request sha rq) r"

definition reject_breakglass_strong_drift ::
  "bg_row \<Rightarrow> string \<Rightarrow> string \<Rightarrow> string \<Rightarrow> string \<Rightarrow> string \<Rightarrow> 'a sdb \<Rightarrow> 'a sdb" where
  "reject_breakglass_strong_drift row username jti subnet fp client_ip db =
     (let row = row\<lparr>bg_mismatch := Some (opt_int_or (bg_mismatch row) 0 + 1)\<rparr>
      in log_action (if username = [] then ''breakglass'' else username) ''session_hijack_suspected'' (Some jti)
           [(''family'', JStr ''breakglass''), (''jti'', JStr jti), (''username'', JStr username),
            (''expected_subnet'', jopt (bg_first_subnet row)), (''observed_subnet'', jopt (str_opt subnet)),
            (''expected_fingerprint'', jopt (bg_first_fp row)), (''observed_fingerprint'', jopt (str_opt fp)),
            (''mismatch_count'', JInt (opt_int_or (bg_mismatch row) 0)), (''policy'', JStr ''stepup_401'')]
           (str_opt client_ip) (put_bg db jti row))"

definition evaluate_breakglass_binding ::
  "net_settings \<Rightarrow> (string \<Rightarrow> string) \<Rightarrow> request \<Rightarrow> string \<Rightarrow> string \<Rightarrow> 'a sdb
   \<Rightarrow> (db_error, bool) result \<times> 'a sdb" where
  "evaluate_breakglass_binding cfg sha rq jti username db =
     (if \<not> hot_up db then (Raise SqlError, db)
      else (case find_bg db jti of
        None \<Rightarrow> (Ok True, db)
      | Some row \<Rightarrow>
          (let subnet = subnet_from_request cfg rq;
               fp = fingerprint_from_request sha rq;
               client_ip = client_ip_from_request cfg rq
           in if opt_str (bg_first_subnet row) = [] \<and> opt_str (bg_first_fp row) = []
              then (Ok True, put_bg db jti (stamp_signals subnet fp row))
              else (let d = classify_drift (same_signal (bg_first_subnet row) subnet) (same_signal (bg_first_fp row) fp)
                    in if d = Strong
                       then (Ok False, reject_breakglass_strong_drift row username jti subnet fp client_ip db)
                       else (let db = (if d = Weak
                                       then log_action (if username = [] then ''breakglass'' else username)
                                              ''session_fingerprint_drift'' (Some jti)
                                              [(''family'', JStr ''breakglass''), (''jti'', JStr jti),
                                               (''expected_fingerprint'', jopt (bg_first_fp row)),
                                               (''observed_fingerprint'', jopt (str_opt fp)),
                                               (''subnet'', jopt (str_opt subnet))] (str_opt client_ip) db
                                       else db)
                             in (Ok True, put_bg db jti (row\<lparr>bg_last_subnet := str_opt subnet,
                                                           bg_last_fp := str_opt fp\<rparr>)))))))"

record binding_summary =
  bs_mismatch :: int
  bs_unusual :: bool
  bs_first_subnet :: "string option"
  bs_last_subnet :: "string option"
  bs_first_fp :: "string option"
  bs_last_fp :: "string option"

definition binding_summary_for_breakglass_jti :: "'a sdb \<Rightarrow> string option \<Rightarrow> binding_summary option" where
  "binding_summary_for_breakglass_jti db jti =
     (if opt_str jti = [] then None
      else (case find_bg db (opt_str jti) of
              None \<Rightarrow> None
            | Some row \<Rightarrow>
                (let count = opt_int_or (bg_mismatch row) 0
                 in if count \<le> 0 \<and> opt_str (bg_first_subnet row) = [] then None
                    else Some \<lparr>bs_mismatch = count, bs_unusual = (0 < count),
                               bs_first_subnet = bg_first_subnet row, bs_last_subnet = bg_last_subnet row,
                               bs_first_fp = bg_first_fp row, bs_last_fp = bg_last_fp row\<rparr>)))"

section \<open>SSO anchors\<close>

definition find_sso :: "'a sdb \<Rightarrow> string \<Rightarrow> sso_row option" where
  "find_sso db h = first_row (\<lambda>r. ss_hash r = h) (sso_rows db)"

definition put_sso :: "'a sdb \<Rightarrow> string \<Rightarrow> sso_row \<Rightarrow> 'a sdb" where
  "put_sso db h r' = db\<lparr>sso_rows := update_rows (\<lambda>r. ss_hash r = h) (\<lambda>_. r') (sso_rows db)\<rparr>"

record sso_summary =
  sum_prefix :: string
  sum_mismatch :: int
  sum_drift :: drift
  sum_first_subnet :: "string option"
  sum_last_subnet :: "string option"
  sum_first_fp :: "string option"
  sum_last_fp :: "string option"

definition sso_summary_of :: "drift \<Rightarrow> sso_row \<Rightarrow> sso_summary" where
  "sso_summary_of d r =
     \<lparr>sum_prefix = take 12 (ss_hash r), sum_mismatch = ss_mismatch r, sum_drift = d,
      sum_first_subnet = ss_first_subnet r, sum_last_subnet = ss_last_subnet r,
      sum_first_fp = ss_first_fp r, sum_last_fp = ss_last_fp r\<rparr>"

definition sso_identity :: "string option \<Rightarrow> string option \<Rightarrow> string option \<times> string option" where
  \<comment> \<open>the readable label and the Keycloak identifier\<close>
  "sso_identity username kc_user_id =
     (let readable = human_label [username];
          kc = str_opt (strip (opt_str kc_user_id))
      in if kc = None \<and> looks_like_uuid username then (None, Some (strip (opt_str username)))
         else (readable, kc))"

definition sso_new_row ::
  "string \<Rightarrow> string option \<Rightarrow> string \<Rightarrow> string \<Rightarrow> int \<Rightarrow> sso_row" where
  "sso_new_row h label subnet fp now =
     \<lparr>ss_hash = h, ss_user = str_opt (opt_str label), ss_first_subnet = str_opt subnet, ss_first_fp = str_opt fp,
      ss_last_subnet = str_opt subnet, ss_last_fp = str_opt fp, ss_mismatch = 0, ss_first_seen = now,
      ss_last_seen = now\<rparr>"

definition upgrade_label :: "string option \<Rightarrow> string option \<Rightarrow> sso_row \<Rightarrow> sso_row" where
  "upgrade_label readable label r =
     (if opt_str readable \<noteq> [] \<and> (opt_str (ss_user r) = [] \<or> looks_like_uuid (ss_user r))
      then r\<lparr>ss_user := readable\<rparr>
      else if opt_str label \<noteq> [] \<and> opt_str (ss_user r) = [] then r\<lparr>ss_user := label\<rparr>
      else r)"

definition sso_drift_details ::
  "string \<Rightarrow> string option \<Rightarrow> string option \<Rightarrow> string option \<Rightarrow> sso_row \<Rightarrow> details \<Rightarrow> details" where
  "sso_drift_details h row_label readable kc r extra =
     [(''family'', JStr ''sso''), (''cookie_hash_prefix'', JStr (take 16 h))] @ extra @
     (if opt_str row_label \<noteq> [] then [(''username'', jopt row_label)]
      else if opt_str readable \<noteq> [] then [(''username'', jopt readable)] else []) @
     (if opt_str kc \<noteq> [] then [(''keycloak_user_id'', jopt kc)]
      else if looks_like_uuid (ss_user r) then [(''keycloak_user_id'', jopt (ss_user r))] else [])"

definition evaluate_sso_binding ::
  "net_settings \<Rightarrow> (string \<Rightarrow> string) \<Rightarrow> web_request \<Rightarrow> string option \<Rightarrow> string option \<Rightarrow> 'a sdb
   \<Rightarrow> (db_error, sso_summary option) result \<times> 'a sdb" where
  "evaluate_sso_binding cfg sha rq username kc_user_id db =
     (case oauth2_proxy_cookie_hash sha (rq_cookies rq) of
        None \<Rightarrow> (Ok None, db)
      | Some h \<Rightarrow>
          (let base = request.truncate rq;
               subnet = subnet_from_request cfg base;
               fp = fingerprint_from_request sha base;
               client_ip = client_ip_from_request cfg base;
               (readable, kc) = sso_identity username kc_user_id;
               label = (case readable of Some l \<Rightarrow> Some l | None \<Rightarrow> kc);
               now = clock db
           in if \<not> hot_up db then (Raise SqlError, db)
              else (case find_sso db h of
                 None \<Rightarrow>
                   (let row = sso_new_row h label subnet fp now;
                        db = db\<lparr>sso_rows := sso_rows db @ [row]\<rparr>;
                        (_, db) = record_successful_login client_ip
                          (case label of Some l \<Rightarrow> (if l = [] then ''sso'' else l) | None \<Rightarrow> ''sso'') db
                    in (Ok (Some (sso_summary_of NoDrift row)), db))
               | Some row0 \<Rightarrow>
                   (let row = upgrade_label readable label row0;
                        row_label = human_label [ss_user row];
                        actor = (case readable of Some l \<Rightarrow> l
                                 | None \<Rightarrow> (case row_label of Some l \<Rightarrow> l | None \<Rightarrow> ''unknown''));
                        unseen = (opt_str (ss_first_subnet row) = [] \<and> opt_str (ss_first_fp row) = []);
                        d = (if unseen then NoDrift
                             else classify_drift (same_signal (ss_first_subnet row) subnet)
                                    (same_signal (ss_first_fp row) fp));
                        row = (if unseen then row\<lparr>ss_first_subnet := str_opt subnet, ss_first_fp := str_opt fp\<rparr> else row);
                        row = (if d = Strong then row\<lparr>ss_mismatch := ss_mismatch row + 1\<rparr> else row);
                        db = (if d = Strong
                              then log_action actor ''session_hijack_suspected'' (Some (take 16 h))
                                     (sso_drift_details h row_label readable kc row
                                       [(''expected_subnet'', jopt (ss_first_subnet row)),
                                        (''observed_subnet'', jopt (str_opt subnet)),
                                        (''expected_fingerprint'', jopt (ss_first_fp row)),
                                        (''observed_fingerprint'', jopt (str_opt fp)),
                                        (''mismatch_count'', JInt (ss_mismatch row)),
                                        (''policy'', JStr ''warn_only'')]) (str_opt client_ip) db
                              else if d = Weak
                              then log_action actor ''session_fingerprint_drift'' (Some (take 16 h))
                                     (sso_drift_details h row_label readable kc row
                                       [(''expected_fingerprint'', jopt (ss_first_fp row)),
                                        (''observed_fingerprint'', jopt (str_opt fp)),
                                        (''subnet'', jopt (str_opt subnet))]) (str_opt client_ip) db
                              else db);
                        row = row\<lparr>ss_last_subnet := str_opt subnet, ss_last_fp := str_opt fp, ss_last_seen := now\<rparr>
                    in (Ok (Some (sso_summary_of d row)), put_sso db h row)))))"

definition purge_stale_sso_session_anchors :: "int \<Rightarrow> 'a sdb \<Rightarrow> (db_error, nat) result \<times> 'a sdb" where
  "purge_stale_sso_session_anchors retention_days db =
     (if \<not> hot_up db then (Raise SqlError, db)
      else (let cutoff = clock db - seconds (max 0 retention_days * 86400);
                stale = (\<lambda>r. ss_last_seen r < cutoff)
            in (Ok (length (filter stale (sso_rows db))),
                db\<lparr>sso_rows := filter (\<lambda>r. \<not> stale r) (sso_rows db)\<rparr>)))"

section \<open>What the binding promises\<close>

lemma classify_drift_iff:
  "classify_drift s f = Strong \<longleftrightarrow> \<not> s" "classify_drift s f = Weak \<longleftrightarrow> s \<and> \<not> f"
  "classify_drift s f = NoDrift \<longleftrightarrow> s \<and> f"
  by (auto simp: classify_drift_def)

definition anchors :: "bg_row \<Rightarrow> string option \<times> string option" where
  "anchors r = (bg_first_subnet r, bg_first_fp r)"

definition anchored :: "bg_row \<Rightarrow> bool" where
  "anchored r \<longleftrightarrow> opt_str (bg_first_subnet r) \<noteq> [] \<or> opt_str (bg_first_fp r) \<noteq> []"

lemma binding_outcome:
  assumes "hot_up db" and "find_bg db jti = Some row" and "anchored row"
  obtains row' where
    "evaluate_breakglass_binding cfg sha rq jti username db =
       (Ok (same_signal (bg_first_subnet row) (subnet_from_request cfg rq)),
        snd (evaluate_breakglass_binding cfg sha rq jti username db))"
    and "find_bg (snd (evaluate_breakglass_binding cfg sha rq jti username db)) jti = Some row'"
    and "anchors row' = anchors row" and "bg_chain_revoked row' = bg_chain_revoked row"
    and "bg_revoked row' = bg_revoked row" and "bg_superseded_by row' = bg_superseded_by row"
    and "bg_jti row' = jti" and "bg_chain row' = bg_chain row" and "bg_expires row' = bg_expires row"
proof -
  have jti: "bg_jti row = jti" using bg_table.find_key [OF assms(2)] .
  have log: "find_bg (log_action a b c d i x) k = find_bg x k" for a b c d i k and x :: "'a sdb"
    by (simp add: find_bg_def)
  have put: "find_bg (put_bg x jti r') jti = Some r'" if "find_bg x jti = Some row" "bg_jti r' = jti"
    for x :: "'a sdb" and r'
    using bg_table.find_put_same [OF that] .
  note defs = evaluate_breakglass_binding_def Let_def assms(1,2) anchors_def
  consider (strong) "\<not> same_signal (bg_first_subnet row) (subnet_from_request cfg rq)"
    | (weak) "same_signal (bg_first_subnet row) (subnet_from_request cfg rq)"
        "\<not> same_signal (bg_first_fp row) (fingerprint_from_request sha rq)"
    | (none) "same_signal (bg_first_subnet row) (subnet_from_request cfg rq)"
        "same_signal (bg_first_fp row) (fingerprint_from_request sha rq)"
    by blast
  then show ?thesis
  proof cases
    case strong
    with assms(3) show ?thesis
      by (intro that [of "row\<lparr>bg_mismatch := Some (opt_int_or (bg_mismatch row) 0 + 1)\<rparr>"])
        (auto simp: defs anchored_def classify_drift_def reject_breakglass_strong_drift_def log jti put)
  next
    case weak
    with assms(3) show ?thesis
      by (intro that [of "row\<lparr>bg_last_subnet := str_opt (subnet_from_request cfg rq),
            bg_last_fp := str_opt (fingerprint_from_request sha rq)\<rparr>"])
        (auto simp: defs anchored_def classify_drift_def log jti put)
  next
    case none
    with assms(3) show ?thesis
      by (intro that [of "row\<lparr>bg_last_subnet := str_opt (subnet_from_request cfg rq),
            bg_last_fp := str_opt (fingerprint_from_request sha rq)\<rparr>"])
        (auto simp: defs anchored_def classify_drift_def jti put)
  qed
qed

text \<open>A bound break-glass session follows the network it was opened from: a request is accepted
  exactly when its subnet is the one of the login (the browser may change, which is only journaled), and
  no request, accepted or refused, moves the anchors it is compared with.\<close>

theorem binding_follows_login_subnet:
  assumes "hot_up db" and "find_bg db jti = Some row" and "anchored row"
    and "evaluate_breakglass_binding cfg sha rq jti username db = (res, db')"
  shows "res = Ok (opt_str (bg_first_subnet row) = subnet_from_request cfg rq) \<and>
    (\<exists>row'. find_bg db' jti = Some row' \<and> anchors row' = anchors row)"
proof (rule binding_outcome [OF assms(1-3), where cfg = cfg and sha = sha and rq = rq and username = username],
    goal_cases)
  case (1 row')
  with assms(4) show ?case by (auto simp: same_signal_def)
qed

definition sample_bg :: bg_row where
  "sample_bg = \<lparr>bg_jti = ''j1'', bg_user = ''admin'', bg_issued = 0, bg_expires = seconds 28800,
     bg_revoked = False, bg_revoked_at = None, bg_revoked_by = None, bg_reason = None,
     bg_first_subnet = Some ''10.1.2.0/24'', bg_first_fp = None, bg_last_subnet = None, bg_last_fp = None,
     bg_mismatch = None, bg_chain = Some ''j1'', bg_superseded_by = None, bg_superseded_at = None,
     bg_chain_revoked = False\<rparr>"

definition fresh_sdb :: "int \<Rightarrow> session_db" where
  "fresh_sdb now = sec_db.extend (fresh_db now)
     \<lparr>bg_rows = [sample_bg], sso_rows = [], uuids = (\<lambda>n. ''u'' @ show_int (int n)), uuid_next = 0\<rparr>"

definition test_net :: net_settings where
  "test_net = \<lparr>trusted_proxy_setting = None, is_test_setting = None, portal_environment = []\<rparr>"

definition test_request :: "string \<Rightarrow> request" where
  "test_request ip = \<lparr>rq_header = (\<lambda>_. None), rq_client = Some ip\<rparr>"

theorem binding_follows_login_subnet_witness:
  "fst (evaluate_breakglass_binding test_net (\<lambda>s. s) (test_request ''10.1.2.77'') ''j1'' ''admin'' (fresh_sdb 0)) = Ok True \<and>
   fst (evaluate_breakglass_binding test_net (\<lambda>s. s) (test_request ''10.1.3.77'') ''j1'' ''admin'' (fresh_sdb 0)) = Ok False"
proof -
  have h: "hot_up (fresh_sdb 0)" "find_bg (fresh_sdb 0) ''j1'' = Some sample_bg" "anchored sample_bg"
    by (simp_all add: fresh_sdb_def fresh_db_def find_bg_def first_row_def sample_bg_def sec_db.extend_def
        anchored_def opt_str_def)
  have "subnet_from_request test_net (test_request ''10.1.2.77'') = ''10.1.2.0/24''"
    "subnet_from_request test_net (test_request ''10.1.3.77'') = ''10.1.3.0/24''"
    by code_simp+
  then show ?thesis
    using binding_follows_login_subnet [OF h prod.collapse [symmetric], of test_net "\<lambda>s. s" "test_request ''10.1.2.77''" "''admin''"]
      binding_follows_login_subnet [OF h prod.collapse [symmetric], of test_net "\<lambda>s. s" "test_request ''10.1.3.77''" "''admin''"]
    by (simp add: sample_bg_def opt_str_def)
qed

end
