(* ===== verification/AccessModes.thy ===== *)
theory AccessModes
  imports Prelude
begin

text \<open>
  How an application is reached: the access modes of \<open>app/access_modes.py\<close>, the machine-to-machine policy of
  \<open>app/bastion/m2m_policy.py\<close> (paths and credentials that skip the portal login), and the upstream session
  cookies of \<open>app/robotic/app_session_presence.py\<close>.

  \<open>json.loads\<close> on the stored path list is the parameter \<open>loads\<close>: the texts of the elements when the value
  is a JSON list, None otherwise.
\<close>

section \<open>Access modes\<close>

definition access_modes :: "string list" where
  "access_modes = [''sso_gate'', ''subdomain_proxy'', ''legacy_path_proxy'', ''public_proxy'']"

definition legacy_access_mode_map :: "(string \<times> string) list" where
  "legacy_access_mode_map = [(''sso'', ''sso_gate''), (''direct'', ''sso_gate''), (''robotic'', ''sso_gate''),
     (''subdomain'', ''subdomain_proxy'')]"

definition catalogue_excluded_access_modes :: "string list" where
  "catalogue_excluded_access_modes = [''public_proxy'']"

definition normalize_access_mode :: "string option \<Rightarrow> string" where
  "normalize_access_mode value =
     (if opt_str value = [] then ''sso_gate''
      else if opt_str value \<in> set access_modes then opt_str value
      else (case map_of legacy_access_mode_map (opt_str value) of None \<Rightarrow> ''sso_gate'' | Some m \<Rightarrow> m))"

definition activesync_flags_for :: "string option \<Rightarrow> bool \<Rightarrow> bool \<Rightarrow> bool \<times> bool" where
  "activesync_flags_for access_mode allow_activesync device_control =
     (let allowed = (allow_activesync \<and> normalize_access_mode access_mode = ''subdomain_proxy'')
      in (allowed, device_control \<and> allowed))"

definition is_user_catalogue_mode :: "string option \<Rightarrow> bool" where
  "is_user_catalogue_mode access_mode \<longleftrightarrow> normalize_access_mode access_mode \<notin> set catalogue_excluded_access_modes"

record app_row =
  ap_id :: int
  ap_slug :: string
  ap_label :: string
  ap_enabled :: bool
  ap_mode :: "string option"
  ap_fqdn :: "string option"
  ap_realm :: "string option"
  ap_driver :: "string option"
  ap_m2m_basic :: bool
  ap_m2m_bearer :: bool
  ap_m2m_paths :: "string option"
  ap_activesync :: bool
  ap_device_control :: bool
  ap_control_at :: "int option"

definition uses_cookie_impersonation :: "app_row \<Rightarrow> bool" where
  "uses_cookie_impersonation app \<longleftrightarrow>
     lower (strip (opt_str (ap_driver app))) \<in> {''crushftp'', ''generic_form'', ''teleport''}"

lemmas mode_defs [py_defs] =
  access_modes_def legacy_access_mode_map_def catalogue_excluded_access_modes_def normalize_access_mode_def
  activesync_flags_for_def is_user_catalogue_mode_def uses_cookie_impersonation_def

section \<open>Paths\<close>

fun replace_double :: "string \<Rightarrow> string" where
  \<comment> \<open>\<open>s.replace('//', '/')\<close>\<close>
  "replace_double (c # d # s) = (if c = CHR ''/'' \<and> d = CHR ''/'' then CHR ''/'' # replace_double s
                                 else c # replace_double (d # s))"
| "replace_double s = s"

lemma length_replace_double: "length (replace_double s) \<le> length s"
  by (induction s rule: replace_double.induct) auto

lemma replace_double_shorter: "contains_sub ''//'' s \<Longrightarrow> length (replace_double s) < length s"
proof (induction s rule: replace_double.induct)
  case (1 c d s)
  then show ?case using length_replace_double [of s] by auto
qed auto

function collapse_slashes :: "string \<Rightarrow> string" where
  \<comment> \<open>\<open>while '//' in raw: raw = raw.replace('//', '/')\<close>\<close>
  "collapse_slashes s = (if contains_sub ''//'' s then collapse_slashes (replace_double s) else s)"
  by pat_completeness auto
termination
  by (relation "measure length") (auto dest: replace_double_shorter)

declare collapse_slashes.simps [simp del]

definition path_only :: "string \<Rightarrow> string" where
  "path_only uri =
     (let raw = strip (takeWhile (\<lambda>c. c \<noteq> CHR ''?'') uri);
          raw = (if raw = [] then ''/'' else raw);
          raw = (if starts_with ''/'' raw then raw else CHR ''/'' # raw);
          raw = collapse_slashes raw
      in if raw = [] then ''/'' else raw)"

definition max_bypass_paths :: nat where "max_bypass_paths = 32"
definition max_path_len :: nat where "max_path_len = 256"

definition re2_space :: "char \<Rightarrow> bool" where
  \<comment> \<open>\<open>\s\<close> of the RE2 engine\<close>
  "re2_space c \<longleftrightarrow> cp c \<in> {9, 10, 12, 13, 32}"

definition forbidden_path_char :: "char \<Rightarrow> bool" where
  "forbidden_path_char c \<longleftrightarrow>
     c \<in> set ''*?[]{}()<>|;$'' \<or> c \<in> {CHR 0x5C, CHR 0x22, CHR 0x27, CHR 0x60} \<or> re2_space c"

datatype bypass_value = PathText string | PathList "string list"

fun unix_lines :: "string \<Rightarrow> string" where
  \<comment> \<open>\<open>text.replace('\r\n', '\n')\<close>\<close>
  "unix_lines (c # d # s) = (if c = CHR 0x0D \<and> d = CHR 0x0A then CHR 0x0A # unix_lines s else c # unix_lines (d # s))"
| "unix_lines s = s"

definition parse_bypass_paths :: "(string \<Rightarrow> string list option) \<Rightarrow> bypass_value option \<Rightarrow> string list" where
  "parse_bypass_paths loads raw =
     (let keep = (\<lambda>xs. filter (\<lambda>x. x \<noteq> []) (map strip xs))
      in (case raw of
            None \<Rightarrow> []
          | Some (PathList xs) \<Rightarrow> keep xs
          | Some (PathText t) \<Rightarrow>
              (let text = strip t
               in if text = [] then []
                  else (case (if starts_with ''['' text then loads text else None) of
                          Some data \<Rightarrow> keep data
                        | None \<Rightarrow> keep (split_on (CHR 0x0A) (unix_lines text))))))"

definition serialize_bypass_paths :: "(string list \<Rightarrow> string) \<Rightarrow> string list \<Rightarrow> string option" where
  "serialize_bypass_paths dumps paths =
     (let cleaned = filter (\<lambda>p. p \<noteq> []) paths in if cleaned = [] then None else Some (dumps cleaned))"

definition validate_bypass_path :: "string \<Rightarrow> string option" where
  "validate_bypass_path path =
     (let p = path_only path
      in if p = ''/'' then None
         else if max_path_len < length p then None
         else if list_ex forbidden_path_char p then None
         else if contains_sub ''://'' p \<or> starts_with ''//'' p then None
         else Some p)"

fun collect_bypass_paths :: "string list \<Rightarrow> string list \<Rightarrow> string list \<Rightarrow> string list \<times> string list" where
  \<comment> \<open>the loop over the items; the errors are the refused items\<close>
  "collect_bypass_paths [] out errs = (out, errs)"
| "collect_bypass_paths (item # items) out errs =
     (case validate_bypass_path item of
        None \<Rightarrow> collect_bypass_paths items out (errs @ [item])
      | Some norm \<Rightarrow> if norm \<in> set out then collect_bypass_paths items out errs
                     else collect_bypass_paths items (out @ [norm]) errs)"

definition normalize_bypass_paths :: "(string \<Rightarrow> string list option) \<Rightarrow> bypass_value option \<Rightarrow> string list \<times> string list" where
  "normalize_bypass_paths loads raw =
     (let (out, errs) = collect_bypass_paths (parse_bypass_paths loads raw) [] []
      in if max_bypass_paths < length out then (take max_bypass_paths out, errs @ [''Maximum 32''])
         else (out, errs))"

record m2m_flags =
  mf_basic :: bool
  mf_bearer :: bool
  mf_paths :: "string option"
  mf_long :: bool

definition m2m_flags_for ::
  "(string \<Rightarrow> string list option) \<Rightarrow> (string list \<Rightarrow> string) \<Rightarrow> string option \<Rightarrow> bool \<Rightarrow> bool \<Rightarrow> bypass_value option \<Rightarrow> bool
   \<Rightarrow> m2m_flags" where
  "m2m_flags_for loads dumps access_mode basic bearer paths_raw long_timeout =
     (if normalize_access_mode access_mode \<noteq> ''subdomain_proxy''
      then \<lparr>mf_basic = False, mf_bearer = False, mf_paths = None, mf_long = False\<rparr>
      else (let (paths, _) = normalize_bypass_paths loads paths_raw
            in \<lparr>mf_basic = basic, mf_bearer = bearer, mf_paths = serialize_bypass_paths dumps paths,
                mf_long = (long_timeout \<and> paths \<noteq> [])\<rparr>))"

definition bypass_paths_for_app :: "(string \<Rightarrow> string list option) \<Rightarrow> app_row \<Rightarrow> string list" where
  "bypass_paths_for_app loads app = fst (normalize_bypass_paths loads (map_option PathText (ap_m2m_paths app)))"

definition entry_matches_bypass :: "string \<Rightarrow> string \<Rightarrow> string \<Rightarrow> bool" where
  "entry_matches_bypass req raw entry =
     (if ends_with ''/'' entry
      then (let prefix = (if rstrip_char (CHR ''/'') entry = [] then ''/'' else rstrip_char (CHR ''/'') entry)
            in req = prefix \<or> starts_with (prefix @ ''/'') req \<or> starts_with entry raw)
      else req = (if rstrip_char (CHR ''/'') entry = [] then ''/'' else rstrip_char (CHR ''/'') entry))"

definition uri_matches_bypass :: "string \<Rightarrow> string list \<Rightarrow> bool" where
  "uri_matches_bypass uri paths =
     (let raw = path_only uri;
          req = (if rstrip_char (CHR ''/'') raw = [] then ''/'' else rstrip_char (CHR ''/'') raw)
      in list_ex (entry_matches_bypass req raw) paths)"

definition app_uri_is_m2m_bypass :: "(string \<Rightarrow> string list option) \<Rightarrow> app_row \<Rightarrow> string \<Rightarrow> bool" where
  "app_uri_is_m2m_bypass loads app uri = uri_matches_bypass uri (bypass_paths_for_app loads app)"

definition authorization_scheme :: "string option \<Rightarrow> string option" where
  "authorization_scheme header =
     (let raw = strip (opt_str header);
          scheme = lower (takeWhile (\<lambda>c. \<not> is_space c) raw);
          rest = lstrip (dropWhile (\<lambda>c. \<not> is_space c) raw)
      in if raw \<noteq> [] \<and> scheme \<in> {''basic'', ''bearer''} \<and> strip rest \<noteq> [] then Some scheme else None)"

definition m2m_credential_allows :: "app_row \<Rightarrow> string option \<Rightarrow> string option" where
  "m2m_credential_allows app header =
     (let scheme = authorization_scheme header
      in if scheme = Some ''basic'' \<and> ap_m2m_basic app then Some ''m2m-basic''
         else if scheme = Some ''bearer'' \<and> ap_m2m_bearer app then Some ''m2m-bearer''
         else None)"

datatype location = ExactLocation string | PrefixLocation string  \<comment> \<open>\<open>= path\<close> and \<open>^~ path\<close>\<close>

fun add_locations :: "string list \<Rightarrow> location list \<Rightarrow> location list" where
  "add_locations [] specs = specs"
| "add_locations (p # ps) specs =
     (if ends_with ''/'' p
      then add_locations ps (if PrefixLocation p \<in> set specs then specs else specs @ [PrefixLocation p])
      else (let specs = (if ExactLocation p \<in> set specs then specs else specs @ [ExactLocation p]);
                specs = (if ExactLocation (p @ ''/'') \<in> set specs then specs else specs @ [ExactLocation (p @ ''/'')])
            in add_locations ps specs))"

definition nginx_location_specs :: "string list \<Rightarrow> location list" where
  "nginx_location_specs paths = add_locations paths []"

lemmas m2m_defs [py_defs] =
  path_only_def max_bypass_paths_def max_path_len_def re2_space_def forbidden_path_char_def parse_bypass_paths_def
  serialize_bypass_paths_def validate_bypass_path_def normalize_bypass_paths_def bypass_paths_for_app_def
  entry_matches_bypass_def uri_matches_bypass_def app_uri_is_m2m_bypass_def authorization_scheme_def
  m2m_credential_allows_def nginx_location_specs_def

section \<open>Upstream session cookies\<close>

definition cookie_at :: "string list \<Rightarrow> string \<Rightarrow> string option" where
  \<comment> \<open>\<open>(?:name|...)=([^;]+)\<close> here, ignoring case\<close>
  "cookie_at names s =
     (case filter (\<lambda>n. starts_with (lower n @ ''='') (lower s)) names of
        [] \<Rightarrow> None
      | n # _ \<Rightarrow> (let v = takeWhile (\<lambda>c. c \<noteq> CHR '';'') (drop (length n + 1) s) in if v = [] then None else Some v))"

fun cookie_scan :: "string list \<Rightarrow> string \<Rightarrow> string option" where
  \<comment> \<open>the matches that follow a semicolon\<close>
  "cookie_scan names [] = None"
| "cookie_scan names (c # s) =
     (if c = CHR '';''
      then (case cookie_at names (dropWhile re2_space s) of Some v \<Rightarrow> Some v | None \<Rightarrow> cookie_scan names s)
      else cookie_scan names s)"

definition cookie_search :: "string list \<Rightarrow> string \<Rightarrow> string option" where
  "cookie_search names raw = (case cookie_at names raw of Some v \<Rightarrow> Some v | None \<Rightarrow> cookie_scan names raw)"

definition has_app_session_cookie :: "app_row \<Rightarrow> string \<Rightarrow> bool" where
  "has_app_session_cookie app raw =
     (let driver = lower (strip (opt_str (ap_driver app)));
          found = (\<lambda>names. strip (opt_str (cookie_search names raw)) \<noteq> [])
      in if \<not> uses_cookie_impersonation app then True
         else if driver = ''teleport'' then found [''__Host-session'', ''__Secure-session'']
         else if driver = ''crushftp'' then found [''CrushAuth'']
         else True)"

lemmas presence_defs [py_defs] = cookie_at_def cookie_search_def has_app_session_cookie_def

section \<open>Paths are normalised\<close>

lemma replace_double_keeps:
  "s \<noteq> [] \<Longrightarrow> replace_double s \<noteq> [] \<and> hd (replace_double s) = hd s \<and> last (replace_double s) = last s \<and>
   set (replace_double s) \<subseteq> set s"
proof (induction s rule: replace_double.induct)
  case (1 c d s)
  show ?case
  proof (cases "c = CHR ''/'' \<and> d = CHR ''/''")
    case True
    then have "replace_double (c # d # s) = CHR ''/'' # replace_double s" by simp
    with 1(1) [OF True] True show ?thesis by (cases "s = []") auto
  next
    case False
    then have "replace_double (c # d # s) = c # replace_double (d # s)" by (simp only: replace_double.simps if_False)
    with 1(2) [OF False] show ?thesis by auto
  qed
qed simp_all

lemma collapse_keeps:
  "s \<noteq> [] \<Longrightarrow> collapse_slashes s \<noteq> [] \<and> hd (collapse_slashes s) = hd s \<and> last (collapse_slashes s) = last s \<and>
   set (collapse_slashes s) \<subseteq> set s"
proof (induction s rule: collapse_slashes.induct)
  case (1 s)
  show ?case
  proof (cases "contains_sub ''//'' s")
    case True
    then have e: "collapse_slashes s = collapse_slashes (replace_double s)" by (subst collapse_slashes.simps) simp
    from "1.IH" [OF True] replace_double_keeps [OF "1.prems"] show ?thesis unfolding e by auto
  next
    case False
    with "1.prems" show ?thesis by (simp add: collapse_slashes.simps)
  qed
qed

lemma collapse_no_double: "\<not> contains_sub ''//'' (collapse_slashes s)"
proof (induction s rule: collapse_slashes.induct)
  case (1 s)
  then show ?case by (subst collapse_slashes.simps) auto
qed

definition normal_path :: "string \<Rightarrow> bool" where
  \<comment> \<open>absolute, without query, double slashes or surrounding blanks\<close>
  "normal_path p \<longleftrightarrow> p \<noteq> [] \<and> hd p = CHR ''/'' \<and> \<not> contains_sub ''//'' p \<and> CHR ''?'' \<notin> set p \<and> \<not> is_space (last p)"

lemma starts_slash: "starts_with ''/'' s \<longleftrightarrow> s \<noteq> [] \<and> hd s = CHR ''/''"
  by (cases s) auto

lemma slash_no_space: "\<not> is_space (CHR ''/'')"
  by (simp add: is_space_def)

lemma path_only_normal_aux: "normal_path (path_only uri)"
proof -
  let ?w = "strip (takeWhile (\<lambda>c. c \<noteq> CHR ''?'') uri)"
  let ?raw = "if ?w = [] then ''/'' else ?w"
  let ?abs = "if starts_with ''/'' ?raw then ?raw else CHR ''/'' # ?raw"
  have q: "CHR ''?'' \<notin> set ?w" using set_strip set_takeWhileD by fastforce
  have l: "?w \<noteq> [] \<Longrightarrow> \<not> is_space (last ?w)" using rstrip_last unfolding strip_def by blast
  have abs: "?abs \<noteq> []" "hd ?abs = CHR ''/''" "CHR ''?'' \<notin> set ?abs" "\<not> is_space (last ?abs)"
    using q l by (auto simp: starts_slash slash_no_space)
  define a where "a = ?abs"
  note keep = collapse_keeps [OF abs(1), folded a_def]
  have "path_only uri = (if collapse_slashes a = [] then ''/'' else collapse_slashes a)"
    by (simp only: path_only_def Let_def a_def)
  then have p: "path_only uri = collapse_slashes a" using keep by simp
  have "CHR ''?'' \<notin> set (collapse_slashes a)" using keep abs(3) [folded a_def] by blast
  with keep abs [folded a_def] collapse_no_double [of a] show ?thesis
    by (simp add: p normal_path_def)
qed

lemma path_only_id: "normal_path p \<Longrightarrow> path_only p = p"
proof -
  assume p: "normal_path p"
  then have abs: "p \<noteq> []" "starts_with ''/'' p" "CHR ''?'' \<notin> set p" by (simp_all add: normal_path_def starts_slash)
  have t: "takeWhile (\<lambda>c. c \<noteq> CHR ''?'') p = p"
    using abs(3) by (subst takeWhile_eq_all_conv) blast
  have "strip p = p"
    using p slash_no_space by (simp add: normal_path_def strip_def lstrip_id rstrip_id)
  moreover have "collapse_slashes p = p"
    using p by (subst collapse_slashes.simps) (simp add: normal_path_def)
  ultimately show ?thesis using abs by (simp only: path_only_def Let_def t) simp
qed

text \<open>The loop that collapses slashes ends, and the path compared with the declared entries is in normal
  form: absolute, without query, double slash or surrounding blanks; normalising twice changes nothing,
  so an entry accepted once is accepted again as it is stored.\<close>

theorem path_only_normalises:
  "normal_path (path_only uri) \<and> path_only (path_only uri) = path_only uri"
  using path_only_normal_aux path_only_id by blast

section \<open>The bypass and its nginx locations\<close>




definition stem :: "string \<Rightarrow> string" where
  "stem p = (if rstrip_char (CHR ''/'') p = [] then ''/'' else rstrip_char (CHR ''/'') p)"


lemma rstrip_char_Nil [simp]: "rstrip_char x [] = []"
  by (simp add: rstrip_char_def)
















text \<open>The bypass compares the path as the client sent it: behind a declared prefix, a climb out of it with
  dot segments is still let through without a login, whatever page it designates.\<close>

theorem m2m_bypass_ignores_dot_segments:
  assumes e: "e \<in> set (bypass_paths_for_app loads app)" "ends_with ''/'' e"
    and uri: "normal_path (e @ ''../'' @ page)"
  shows "app_uri_is_m2m_bypass loads app (e @ ''../'' @ page)"
proof -
  have "entry_matches_bypass (stem (e @ ''../'' @ page)) (e @ ''../'' @ page) e"
    using e(2) unfolding entry_matches_bypass_def by (simp add: Let_def del: append.simps)
  with e(1) show ?thesis
    unfolding app_uri_is_m2m_bypass_def uri_matches_bypass_def Let_def path_only_id [OF uri] list_ex_iff stem_def by blast
qed

definition scripts_app :: app_row where
  "scripts_app = \<lparr>ap_id = 1, ap_slug = ''erp'', ap_label = ''ERP'', ap_enabled = True, ap_mode = Some ''subdomain_proxy'',
     ap_fqdn = Some ''erp.corp.test'', ap_realm = Some ''corp'', ap_driver = None, ap_m2m_basic = False, ap_m2m_bearer = False,
     ap_m2m_paths = Some ''/scripts/'', ap_activesync = True, ap_device_control = False, ap_control_at = None\<rparr>"

theorem m2m_bypass_ignores_dot_segments_witness:
  "app_uri_is_m2m_bypass (\<lambda>_. None) scripts_app ''/scripts/../admin'' \<and>
   \<not> app_uri_is_m2m_bypass (\<lambda>_. None) scripts_app ''/admin''"
proof
  have "''/scripts/'' \<in> set (bypass_paths_for_app (\<lambda>_. None) scripts_app)" by code_simp
  moreover have "ends_with ''/'' ''/scripts/''" by code_simp
  moreover have "normal_path (''/scripts/'' @ ''../'' @ ''admin'')" by code_simp
  ultimately have "app_uri_is_m2m_bypass (\<lambda>_. None) scripts_app (''/scripts/'' @ ''../'' @ ''admin'')"
    by (rule m2m_bypass_ignores_dot_segments)
  then show "app_uri_is_m2m_bypass (\<lambda>_. None) scripts_app ''/scripts/../admin''" by simp
  show "\<not> app_uri_is_m2m_bypass (\<lambda>_. None) scripts_app ''/admin''" by code_simp
qed




end
