(* ===== verification/Grants.thy ===== *)
theory Grants
  imports Binding AccessModes
begin

text \<open>
  Access grants: \<open>app/rbac/grants_service.py\<close> and the callers that change them in
  \<open>app/admin/rbac_governance.py\<close> and \<open>app/admin/rbac_access.py\<close>. A grant gives one subject (a group or a user) one level on one
  resource (application, system role, RBAC role, file or folder).

  The grants live in the portal database, which is SQLite: the identifier of a new row is one more than the
  largest, \<open>lower\<close> folds the ASCII letters only, the CHECK constraints of the table are enforced and
  its foreign keys are not. The members of a Keycloak group are the parameter \<open>members\<close>.
\<close>

record grant =
  gr_id :: int
  gr_subject :: string
  gr_group :: "int option"
  gr_user :: "string option"
  gr_display :: "string option"
  gr_resource :: string
  gr_app :: "int option"
  gr_sysrole :: "string option"
  gr_role :: "int option"
  gr_file :: "int option"
  gr_folder :: "int option"
  gr_level :: string
  gr_at :: int
  gr_by :: string

record group_row =
  gp_id :: int
  gp_name :: string
  gp_realm_slug :: "string option"
  gp_realm_id :: "int option"
  gp_kc :: "string option"
  gp_path :: "string option"
  gp_count :: "int option"

record realm_row =
  rl_id :: int
  rl_slug :: string
  rl_default :: bool
  rl_enabled :: bool
  rl_native :: bool
  rl_mfa :: bool
  rl_sync :: bool

record portal_db = session_db +
  apps :: "app_row list"
  grants :: "grant list"
  groups :: "group_row list"
  realms :: "realm_row list"

type_synonym 'a pdb = "'a portal_db_scheme"

lemma log_action_portal [frame, simp]:
  "apps (log_action a b c d i db) = apps db"
  "grants (log_action a b c d i db) = grants db"
  "groups (log_action a b c d i db) = groups db"
  "realms (log_action a b c d i db) = realms db"
  by (simp_all add: log_action_def split: prod.split)

section \<open>Requests\<close>

definition subject_types :: "string list" where
  "subject_types = [''group'', ''user'']"

definition resource_types :: "string list" where
  "resource_types = [''application'', ''system_role'', ''rbac_role'', ''file'', ''folder'']"

definition access_levels :: "string list" where
  "access_levels = [''view'', ''launch'', ''manage'']"

definition system_roles :: "string list" where
  "system_roles = [''portal_admin'', ''portal_auditor'']"

definition access_level_rank :: "string \<Rightarrow> int" where
  \<comment> \<open>\<open>ACCESS_LEVEL_RANK.get(level, 0)\<close>\<close>
  "access_level_rank level =
     (if level = ''view'' then 1 else if level = ''launch'' then 2 else if level = ''manage'' then 3 else 0)"

record grant_request =
  rq_subject :: string
  rq_group :: "int option"
  rq_user :: "string option"
  rq_display :: "string option"
  rq_resource :: string
  rq_app :: "int option"
  rq_sysrole :: "string option"
  rq_role :: "int option"
  rq_file :: "int option"
  rq_folder :: "int option"
  rq_level :: string

definition no_id :: "int option \<Rightarrow> bool" where
  \<comment> \<open>\<open>not x\<close>: absent or zero\<close>
  "no_id v \<longleftrightarrow> opt_int_or v 0 = 0"

definition no_text :: "string option \<Rightarrow> bool" where
  "no_text v \<longleftrightarrow> opt_str v = []"

definition grant_field_errors :: "grant_request \<Rightarrow> string list" where
  \<comment> \<open>the fields the field validators refuse\<close>
  "grant_field_errors rq =
     (if rq_subject rq \<in> set subject_types then [] else [''subject_type'']) @
     (if 128 < length (opt_str (rq_user rq)) then [''keycloak_user_id''] else []) @
     (if 256 < length (opt_str (rq_display rq)) then [''user_display_cache''] else []) @
     (if rq_resource rq \<in> set resource_types then [] else [''resource_type'']) @
     (if rq_sysrole rq \<noteq> None \<and> opt_str (rq_sysrole rq) \<notin> set system_roles then [''system_role''] else []) @
     (if rq_level rq \<in> set access_levels then [] else [''access_level''])"

definition validate_exclusive_fields :: "grant_request \<Rightarrow> string option" where
  "validate_exclusive_fields rq =
     (if rq_subject rq = ''group'' \<and> (no_id (rq_group rq) \<or> \<not> no_text (rq_user rq))
      then Some ''group grants require rbac_group_id only''
      else if rq_subject rq \<noteq> ''group'' \<and> (no_text (rq_user rq) \<or> \<not> no_id (rq_group rq))
      then Some ''user grants require keycloak_user_id only''
      else if rq_resource rq = ''application''
      then (if no_id (rq_app rq) \<or> \<not> no_text (rq_sysrole rq) \<or> \<not> no_id (rq_role rq) \<or> \<not> no_id (rq_file rq) \<or>
               \<not> no_id (rq_folder rq)
            then Some ''application grants require application_id only'' else None)
      else if rq_resource rq = ''system_role''
      then (if no_text (rq_sysrole rq) \<or> \<not> no_id (rq_app rq) \<or> \<not> no_id (rq_role rq) \<or> \<not> no_id (rq_file rq) \<or>
               \<not> no_id (rq_folder rq)
            then Some ''system_role grants require system_role only'' else None)
      else if rq_resource rq = ''rbac_role''
      then (if no_id (rq_role rq) \<or> \<not> no_id (rq_app rq) \<or> \<not> no_text (rq_sysrole rq) \<or> \<not> no_id (rq_file rq) \<or>
               \<not> no_id (rq_folder rq)
            then Some ''rbac_role grants require rbac_role_id only'' else None)
      else if rq_resource rq = ''file''
      then (if no_id (rq_file rq) \<or> \<not> no_id (rq_app rq) \<or> \<not> no_text (rq_sysrole rq) \<or> \<not> no_id (rq_role rq) \<or>
               \<not> no_id (rq_folder rq)
            then Some ''file grants require file_id only'' else None)
      else (if no_id (rq_folder rq) \<or> \<not> no_id (rq_app rq) \<or> \<not> no_text (rq_sysrole rq) \<or> \<not> no_id (rq_role rq) \<or>
               \<not> no_id (rq_file rq)
            then Some ''folder grants require folder_id only'' else None))"

definition access_grant_create :: "grant_request \<Rightarrow> (string list, grant_request) result" where
  \<comment> \<open>\<open>AccessGrantCreate.model_validate\<close>: the fields first, then the model\<close>
  "access_grant_create rq =
     (if grant_field_errors rq \<noteq> [] then Raise (grant_field_errors rq)
      else case validate_exclusive_fields rq of Some e \<Rightarrow> Raise [e] | None \<Rightarrow> Ok rq)"

section \<open>The table\<close>

datatype grant_error = IntegrityError | GrantNotFound | SelfRevoke | InvalidRequest

definition subject_exclusive_check :: "grant \<Rightarrow> bool" where
  "subject_exclusive_check g \<longleftrightarrow>
     (gr_subject g = ''group'' \<and> gr_group g \<noteq> None \<and> gr_user g = None) \<or>
     (gr_subject g = ''user'' \<and> gr_user g \<noteq> None \<and> gr_group g = None)"

definition target_set :: "grant \<Rightarrow> string list" where
  \<comment> \<open>the resource types whose target column is set\<close>
  "target_set g =
     (if gr_app g \<noteq> None then [''application''] else []) @ (if gr_sysrole g \<noteq> None then [''system_role''] else []) @
     (if gr_role g \<noteq> None then [''rbac_role''] else []) @ (if gr_file g \<noteq> None then [''file''] else []) @
     (if gr_folder g \<noteq> None then [''folder''] else [])"

definition resource_exclusive_check :: "grant \<Rightarrow> bool" where
  "resource_exclusive_check g \<longleftrightarrow> target_set g = [gr_resource g]"

definition grant_key where
  \<comment> \<open>subject and resource, the columns \<open>create_grant\<close> looks up\<close>
  "grant_key g = (gr_subject g, gr_group g, gr_user g, gr_resource g, gr_app g, gr_sysrole g, gr_role g, gr_file g,
     gr_folder g)"

definition request_key where
  "request_key rq = (rq_subject rq, rq_group rq, rq_user rq, rq_resource rq, rq_app rq, rq_sysrole rq, rq_role rq,
     rq_file rq, rq_folder rq)"

definition next_rowid :: "grant list \<Rightarrow> int" where
  "next_rowid gs = 1 + foldr max (map gr_id gs) 0"

definition new_grant :: "int \<Rightarrow> grant_request \<Rightarrow> int \<Rightarrow> string \<Rightarrow> grant" where
  "new_grant i rq now by =
     \<lparr>gr_id = i, gr_subject = rq_subject rq, gr_group = rq_group rq, gr_user = rq_user rq, gr_display = rq_display rq,
      gr_resource = rq_resource rq, gr_app = rq_app rq, gr_sysrole = rq_sysrole rq, gr_role = rq_role rq,
      gr_file = rq_file rq, gr_folder = rq_folder rq, gr_level = rq_level rq, gr_at = now, gr_by = by\<rparr>"

definition add_grant :: "grant \<Rightarrow> 'a pdb \<Rightarrow> (grant_error, grant) result \<times> 'a pdb" where
  \<comment> \<open>\<open>db.add\<close> and \<open>db.flush\<close>: the CHECK constraints\<close>
  "add_grant g db =
     (if subject_exclusive_check g \<and> resource_exclusive_check g
      then (Ok g, db\<lparr>grants := grants db @ [g]\<rparr>) else (Raise IntegrityError, db))"

definition create_grant :: "grant_request \<Rightarrow> string \<Rightarrow> 'a pdb \<Rightarrow> (grant_error, grant) result \<times> 'a pdb" where
  "create_grant data granted_by db =
     (case first_row (\<lambda>g. grant_key g = request_key data) (grants db) of
        Some g \<Rightarrow>
          (if access_level_rank (gr_level g) < access_level_rank (rq_level data)
           then (let g' = g\<lparr>gr_level := rq_level data, gr_by := granted_by\<rparr>
                 in (Ok g', db\<lparr>grants := update_rows (\<lambda>r. gr_id r = gr_id g) (\<lambda>_. g') (grants db)\<rparr>))
           else (Ok g, db))
      | None \<Rightarrow> add_grant (new_grant (next_rowid (grants db)) data (clock db) granted_by) db)"

definition delete_grant :: "int \<Rightarrow> 'a pdb \<Rightarrow> grant option \<times> 'a pdb" where
  "delete_grant i db =
     (first_row (\<lambda>g. gr_id g = i) (grants db), db\<lparr>grants := filter (\<lambda>g. gr_id g \<noteq> i) (grants db)\<rparr>)"

definition is_portal_admin_system_grant :: "grant \<Rightarrow> bool" where
  "is_portal_admin_system_grant g \<longleftrightarrow> gr_resource g = ''system_role'' \<and> opt_str (gr_sysrole g) = ''portal_admin''"

definition is_self_portal_admin_grant :: "grant \<Rightarrow> string option \<Rightarrow> bool" where
  "is_self_portal_admin_grant g actor_id =
     (if \<not> is_portal_admin_system_grant g then False
      else if gr_subject g \<noteq> ''user'' then False
      else strip (opt_str actor_id) \<noteq> [] \<and> strip (opt_str actor_id) = strip (opt_str (gr_user g)))"

definition admin_rbac_grants_delete :: "int \<Rightarrow> string option \<Rightarrow> 'a pdb \<Rightarrow> (grant_error, grant) result \<times> 'a pdb" where
  \<comment> \<open>the handler, up to the journal and the redirections\<close>
  "admin_rbac_grants_delete i actor_id db =
     (case first_row (\<lambda>g. gr_id g = i) (grants db) of
        None \<Rightarrow> (Raise GrantNotFound, db)
      | Some existing \<Rightarrow>
          (if is_self_portal_admin_grant existing actor_id then (Raise SelfRevoke, db)
           else (case delete_grant i db of (None, db) \<Rightarrow> (Raise GrantNotFound, db) | (Some g, db) \<Rightarrow> (Ok g, db))))"

fun delete_grants :: "int list \<Rightarrow> 'a pdb \<Rightarrow> 'a pdb" where
  "delete_grants [] db = db"
| "delete_grants (i # is) db = delete_grants is (snd (delete_grant i db))"

definition mode_is_total :: "string \<Rightarrow> bool" where
  "mode_is_total mode \<longleftrightarrow> mode \<in> {''total'', ''full'', ''acces_total''}"

definition role_request :: "int \<Rightarrow> int \<Rightarrow> string \<Rightarrow> grant_request" where
  "role_request group_id role_id mode =
     \<lparr>rq_subject = ''group'', rq_group = Some group_id, rq_user = None, rq_display = None, rq_resource = ''rbac_role'',
      rq_app = None, rq_sysrole = None, rq_role = Some role_id, rq_file = None, rq_folder = None,
      rq_level = (if mode_is_total mode then ''manage'' else ''view'')\<rparr>"

definition replace_group_rbac_role_grants ::
  "int \<Rightarrow> int option \<Rightarrow> string \<Rightarrow> string \<Rightarrow> 'a pdb \<Rightarrow> (grant_error, unit) result \<times> 'a pdb" where
  "replace_group_rbac_role_grants group_id role mode granted_by db =
     (let old = filter (\<lambda>g. gr_subject g = ''group'' \<and> gr_group g = Some group_id \<and> gr_resource g = ''rbac_role'') (grants db);
          db = delete_grants (map gr_id old) db
      in case role of
           None \<Rightarrow> (Ok (), db)
         | Some role_id \<Rightarrow>
             (case access_grant_create (role_request group_id role_id mode) of
                Raise _ \<Rightarrow> (Raise InvalidRequest, db)
              | Ok data \<Rightarrow> (case create_grant data granted_by db of
                              (Raise e, db) \<Rightarrow> (Raise e, db) | (Ok _, db) \<Rightarrow> (Ok (), db))))"

lemmas grant_defs [py_defs] =
  subject_types_def resource_types_def access_levels_def system_roles_def access_level_rank_def no_id_def no_text_def
  grant_field_errors_def validate_exclusive_fields_def access_grant_create_def subject_exclusive_check_def
  target_set_def resource_exclusive_check_def grant_key_def request_key_def next_rowid_def new_grant_def add_grant_def
  create_grant_def delete_grant_def is_portal_admin_system_grant_def is_self_portal_admin_grant_def
  admin_rbac_grants_delete_def mode_is_total_def role_request_def replace_group_rbac_role_grants_def

section \<open>The abstract table\<close>

text \<open>
  What the table means: a partial map from a subject and a resource to a level. A row reads as an entry of
  the map when it meets the constraints of the table and its level is one of the three.
\<close>

datatype subject = GroupSubject int | UserSubject string

datatype resource = Application int | SystemRole string | RbacRole int | FileResource int | FolderResource int

datatype level = View | Launch | Manage

fun level_rank :: "level \<Rightarrow> nat" where
  "level_rank View = 1" | "level_rank Launch = 2" | "level_rank Manage = 3"

instantiation level :: linorder
begin

definition less_eq_level :: "level \<Rightarrow> level \<Rightarrow> bool" where
  "less_eq_level a b = (level_rank a \<le> level_rank b)"

definition less_level :: "level \<Rightarrow> level \<Rightarrow> bool" where
  "less_level a b = (level_rank a < level_rank b)"

instance
proof
  fix a b c :: level
  show "a < b \<longleftrightarrow> a \<le> b \<and> \<not> b \<le> a" by (auto simp: less_level_def less_eq_level_def)
  show "a \<le> a" by (simp add: less_eq_level_def)
  show "a \<le> b \<Longrightarrow> b \<le> c \<Longrightarrow> a \<le> c" by (simp add: less_eq_level_def)
  show "a \<le> b \<Longrightarrow> b \<le> a \<Longrightarrow> a = b" by (cases a; cases b) (simp_all add: less_eq_level_def)
  show "a \<le> b \<or> b \<le> a" by (auto simp: less_eq_level_def)
qed

end

definition read_level :: "string \<Rightarrow> level option" where
  "read_level t = (if t = ''view'' then Some View else if t = ''launch'' then Some Launch
                   else if t = ''manage'' then Some Manage else None)"

definition subject_of :: "string \<Rightarrow> int option \<Rightarrow> string option \<Rightarrow> subject option" where
  "subject_of st gid uid = (if st = ''group'' then map_option GroupSubject gid else map_option UserSubject uid)"

definition resource_of ::
  "string \<Rightarrow> int option \<Rightarrow> string option \<Rightarrow> int option \<Rightarrow> int option \<Rightarrow> int option \<Rightarrow> resource option" where
  "resource_of rt a s r f d =
     (if rt = ''application'' then map_option Application a else if rt = ''system_role'' then map_option SystemRole s
      else if rt = ''rbac_role'' then map_option RbacRole r else if rt = ''file'' then map_option FileResource f
      else map_option FolderResource d)"

fun key_abs where
  "key_abs (st, gid, uid, rt, a, s, r, f, d) =
     (case (subject_of st gid uid, resource_of rt a s r f d) of (Some x, Some y) \<Rightarrow> Some (x, y) | _ \<Rightarrow> None)"

definition typed :: "grant \<Rightarrow> bool" where
  "typed g \<longleftrightarrow> subject_exclusive_check g \<and> resource_exclusive_check g \<and> gr_level g \<in> set access_levels"

definition grants_wf :: "grant list \<Rightarrow> bool" where
  "grants_wf gs \<longleftrightarrow> list_all typed gs \<and> distinct (map gr_id gs) \<and> distinct (map grant_key gs)"

definition grant_table :: "grant list \<Rightarrow> subject \<times> resource \<Rightarrow> level option" where
  "grant_table gs k =
     (case first_row (\<lambda>g. key_abs (grant_key g) = Some k) gs of None \<Rightarrow> None | Some g \<Rightarrow> read_level (gr_level g))"

definition raise_level :: "level option \<Rightarrow> level \<Rightarrow> level" where
  "raise_level old l = (case old of None \<Rightarrow> l | Some l0 \<Rightarrow> max l0 l)"

lemma resource_exclusive_cases:
  "resource_exclusive_check g \<longleftrightarrow>
     (gr_resource g = ''application'' \<and> gr_app g \<noteq> None \<and> gr_sysrole g = None \<and> gr_role g = None \<and> gr_file g = None \<and> gr_folder g = None) \<or>
     (gr_resource g = ''system_role'' \<and> gr_app g = None \<and> gr_sysrole g \<noteq> None \<and> gr_role g = None \<and> gr_file g = None \<and> gr_folder g = None) \<or>
     (gr_resource g = ''rbac_role'' \<and> gr_app g = None \<and> gr_sysrole g = None \<and> gr_role g \<noteq> None \<and> gr_file g = None \<and> gr_folder g = None) \<or>
     (gr_resource g = ''file'' \<and> gr_app g = None \<and> gr_sysrole g = None \<and> gr_role g = None \<and> gr_file g \<noteq> None \<and> gr_folder g = None) \<or>
     (gr_resource g = ''folder'' \<and> gr_app g = None \<and> gr_sysrole g = None \<and> gr_role g = None \<and> gr_file g = None \<and> gr_folder g \<noteq> None)"
  by (cases "gr_app g"; cases "gr_sysrole g"; cases "gr_role g"; cases "gr_file g"; cases "gr_folder g")
    (auto simp: resource_exclusive_check_def target_set_def)

lemma subject_cases:
  assumes "subject_exclusive_check g"
  obtains i where "gr_subject g = ''group''" "gr_group g = Some i" "gr_user g = None"
  | u where "gr_subject g = ''user''" "gr_user g = Some u" "gr_group g = None"
  using assms by (auto simp: subject_exclusive_check_def)

lemma resource_cases:
  assumes "resource_exclusive_check g"
  obtains i where "gr_resource g = ''application''" "gr_app g = Some i" "gr_sysrole g = None" "gr_role g = None" "gr_file g = None" "gr_folder g = None"
  | s where "gr_resource g = ''system_role''" "gr_app g = None" "gr_sysrole g = Some s" "gr_role g = None" "gr_file g = None" "gr_folder g = None"
  | i where "gr_resource g = ''rbac_role''" "gr_app g = None" "gr_sysrole g = None" "gr_role g = Some i" "gr_file g = None" "gr_folder g = None"
  | i where "gr_resource g = ''file''" "gr_app g = None" "gr_sysrole g = None" "gr_role g = None" "gr_file g = Some i" "gr_folder g = None"
  | i where "gr_resource g = ''folder''" "gr_app g = None" "gr_sysrole g = None" "gr_role g = None" "gr_file g = None" "gr_folder g = Some i"
  using assms unfolding resource_exclusive_cases by blast

definition key_subject :: "subject \<Rightarrow> string \<times> int option \<times> string option" where
  "key_subject x = (case x of GroupSubject i \<Rightarrow> (''group'', Some i, None) | UserSubject u \<Rightarrow> (''user'', None, Some u))"

definition key_resource ::
  "resource \<Rightarrow> string \<times> int option \<times> string option \<times> int option \<times> int option \<times> int option" where
  "key_resource y =
     (case y of Application i \<Rightarrow> (''application'', Some i, None, None, None, None)
      | SystemRole s \<Rightarrow> (''system_role'', None, Some s, None, None, None)
      | RbacRole i \<Rightarrow> (''rbac_role'', None, None, Some i, None, None)
      | FileResource i \<Rightarrow> (''file'', None, None, None, Some i, None)
      | FolderResource i \<Rightarrow> (''folder'', None, None, None, None, Some i))"

lemma typed_key:
  assumes "subject_exclusive_check g" and "resource_exclusive_check g"
  obtains x y where "key_abs (grant_key g) = Some (x, y)"
    and "(gr_subject g, gr_group g, gr_user g) = key_subject x"
    and "(gr_resource g, gr_app g, gr_sysrole g, gr_role g, gr_file g, gr_folder g) = key_resource y"
proof -
  obtain x where x: "subject_of (gr_subject g) (gr_group g) (gr_user g) = Some x"
      "(gr_subject g, gr_group g, gr_user g) = key_subject x"
    using assms(1) by (cases rule: subject_cases) (auto simp: subject_of_def key_subject_def)
  obtain y where y: "resource_of (gr_resource g) (gr_app g) (gr_sysrole g) (gr_role g) (gr_file g) (gr_folder g) = Some y"
      "(gr_resource g, gr_app g, gr_sysrole g, gr_role g, gr_file g, gr_folder g) = key_resource y"
    using assms(2) by (cases rule: resource_cases) (auto simp: resource_of_def key_resource_def)
  have "key_abs (grant_key g) = Some (x, y)" by (simp add: grant_key_def x(1) y(1))
  then show ?thesis using x(2) y(2) by (rule that)
qed

lemma key_abs_inj:
  assumes "subject_exclusive_check g" "resource_exclusive_check g" "subject_exclusive_check h" "resource_exclusive_check h"
  shows "key_abs (grant_key g) = key_abs (grant_key h) \<longleftrightarrow> grant_key g = grant_key h"
proof
  obtain x y where g: "key_abs (grant_key g) = Some (x, y)" "(gr_subject g, gr_group g, gr_user g) = key_subject x"
    "(gr_resource g, gr_app g, gr_sysrole g, gr_role g, gr_file g, gr_folder g) = key_resource y"
    using assms(1,2) by (rule typed_key)
  obtain x' y' where h: "key_abs (grant_key h) = Some (x', y')" "(gr_subject h, gr_group h, gr_user h) = key_subject x'"
    "(gr_resource h, gr_app h, gr_sysrole h, gr_role h, gr_file h, gr_folder h) = key_resource y'"
    using assms(3,4) by (rule typed_key)
  assume "key_abs (grant_key g) = key_abs (grant_key h)"
  with g h have "(gr_subject g, gr_group g, gr_user g) = (gr_subject h, gr_group h, gr_user h)"
    "(gr_resource g, gr_app g, gr_sysrole g, gr_role g, gr_file g, gr_folder g) =
     (gr_resource h, gr_app h, gr_sysrole h, gr_role h, gr_file h, gr_folder h)" by simp_all
  then show "grant_key g = grant_key h" by (simp add: grant_key_def)
qed simp

lemma typed_abs: "typed g \<Longrightarrow> \<exists>k. key_abs (grant_key g) = Some k"
  unfolding typed_def by (metis typed_key)

lemma read_level_typed: "t \<in> set access_levels \<Longrightarrow> \<exists>l. read_level t = Some l"
  by (auto simp: read_level_def access_levels_def)

lemma rank_read: "read_level t = Some l \<Longrightarrow> access_level_rank t = int (level_rank l)"
  by (auto simp: read_level_def access_level_rank_def split: if_splits)

lemma grants_wfD:
  assumes "grants_wf gs" "g \<in> set gs"
  shows "typed g" and "h \<in> set gs \<Longrightarrow> gr_id g = gr_id h \<Longrightarrow> g = h" and "h \<in> set gs \<Longrightarrow> grant_key g = grant_key h \<Longrightarrow> g = h"
  using assms by (auto simp: grants_wf_def list_all_iff distinct_map dest: inj_onD)

lemma same_entry:
  assumes wf: "grants_wf gs" and g: "g \<in> set gs" "key_abs (grant_key g) = Some k"
    and h: "h \<in> set gs" "key_abs (grant_key h) = Some k"
  shows "h = g"
proof -
  have "typed g" "typed h" using grants_wfD(1) [OF wf] g(1) h(1) by blast+
  moreover have "key_abs (grant_key h) = key_abs (grant_key g)" unfolding g(2) h(2) ..
  ultimately have "grant_key h = grant_key g" using key_abs_inj [of h g] unfolding typed_def by blast
  with grants_wfD(3) [OF wf h(1) g(1)] show ?thesis .
qed

lemma table_at:
  assumes wf: "grants_wf gs" and g: "g \<in> set gs" "key_abs (grant_key g) = Some k"
  shows "grant_table gs k = read_level (gr_level g)"
proof (cases "first_row (\<lambda>g. key_abs (grant_key g) = Some k) gs")
  case None
  with g show ?thesis by simp
next
  case (Some h)
  note h = conjunct1 [OF first_row_Some [OF Some]] conjunct2 [OF first_row_Some [OF Some]]
  have "h = g" by (rule same_entry [OF wf g h])
  then show ?thesis by (simp only: grant_table_def Some option.case)
qed

lemma table_none: "\<forall>g \<in> set gs. key_abs (grant_key g) \<noteq> Some k \<Longrightarrow> grant_table gs k = None"
proof -
  assume "\<forall>g \<in> set gs. key_abs (grant_key g) \<noteq> Some k"
  then have "first_row (\<lambda>g. key_abs (grant_key g) = Some k) gs = None" by (simp only: first_row_None)
  then show ?thesis by (simp only: grant_table_def option.case)
qed

lemma table_cong:
  assumes "grants_wf gs" "grants_wf hs"
    and "\<And>g. key_abs (grant_key g) = Some k \<Longrightarrow> g \<in> set gs \<longleftrightarrow> g \<in> set hs"
  shows "grant_table gs k = grant_table hs k"
proof (cases "\<exists>g \<in> set gs. key_abs (grant_key g) = Some k")
  case True
  then obtain g where "g \<in> set gs" "key_abs (grant_key g) = Some k" by blast
  with table_at [of gs g k] table_at [of hs g k] assms show ?thesis by simp
next
  case False
  with assms(3) have "\<forall>g \<in> set gs. key_abs (grant_key g) \<noteq> Some k" "\<forall>g \<in> set hs. key_abs (grant_key g) \<noteq> Some k" by blast+
  then show ?thesis by (simp add: table_none)
qed

lemma validated:
  assumes "access_grant_create rq = Ok data"
  shows "data = rq" and "rq_level data \<in> set access_levels" and "validate_exclusive_fields data = None"
    and "rq_subject data \<in> set subject_types" and "rq_resource data \<in> set resource_types"
    and "rq_sysrole data = None \<or> opt_str (rq_sysrole data) \<in> set system_roles"
  using assms by (auto simp: access_grant_create_def grant_field_errors_def split: if_splits option.splits)

definition blank_columns :: "grant_request \<Rightarrow> bool" where
  \<comment> \<open>a column that holds a falsy value instead of nothing\<close>
  "blank_columns rq \<longleftrightarrow> rq_user rq = Some [] \<or>
     Some 0 \<in> {rq_group rq, rq_app rq, rq_role rq, rq_file rq, rq_folder rq}"

lemma no_id_iff: "no_id v \<longleftrightarrow> v = None \<or> v = Some 0"
  by (auto simp: no_id_def opt_int_or_def int_or_def split: option.splits)

lemma no_text_iff: "no_text v \<longleftrightarrow> v = None \<or> v = Some []"
  by (auto simp: no_text_def opt_str_def split: option.splits)

lemma request_checks:
  assumes v: "access_grant_create rq = Ok data" and b: "\<not> blank_columns data"
  shows "subject_exclusive_check (new_grant i data now by) \<and> resource_exclusive_check (new_grant i data now by)"
proof
  note facts = validated [OF v]
  have ids: "no_id (rq_group data) = (rq_group data = None)" "no_id (rq_app data) = (rq_app data = None)"
    "no_id (rq_role data) = (rq_role data = None)" "no_id (rq_file data) = (rq_file data = None)"
    "no_id (rq_folder data) = (rq_folder data = None)" "no_text (rq_user data) = (rq_user data = None)"
    using b by (auto simp: no_id_iff no_text_iff blank_columns_def)
  have sr: "no_text (rq_sysrole data) = (rq_sysrole data = None)"
    using facts(6) by (auto simp: no_text_iff system_roles_def opt_str_def)
  note ex = facts(3) [unfolded validate_exclusive_fields_def ids sr]
  show "subject_exclusive_check (new_grant i data now by)"
    using facts(4) ex by (auto simp: subject_exclusive_check_def new_grant_def subject_types_def split: if_splits)
  show "resource_exclusive_check (new_grant i data now by)"
    using facts(5) ex by (auto simp: resource_exclusive_cases new_grant_def resource_types_def split: if_splits)
qed

lemma key_new_grant: "grant_key (new_grant i rq now by) = request_key rq"
  by (simp add: grant_key_def request_key_def new_grant_def)

lemma next_rowid_fresh: "g \<in> set gs \<Longrightarrow> gr_id g < next_rowid gs"
proof -
  have "g \<in> set gs \<Longrightarrow> gr_id g \<le> foldr max (map gr_id gs) 0" by (induction gs) auto
  then show "g \<in> set gs \<Longrightarrow> gr_id g < next_rowid gs" by (simp add: next_rowid_def)
qed

lemma wf_append:
  assumes wf: "grants_wf gs" and g: "typed g" "\<forall>h \<in> set gs. gr_id h \<noteq> gr_id g" "\<forall>h \<in> set gs. grant_key h \<noteq> grant_key g"
  shows "grants_wf (gs @ [g])"
  using assms by (auto simp: grants_wf_def)

lemma wf_filter: "grants_wf gs \<Longrightarrow> grants_wf (filter p gs)"
  by (auto simp: grants_wf_def list_all_iff distinct_map_filter)

definition relevel :: "grant \<Rightarrow> string \<Rightarrow> string \<Rightarrow> grant" where
  "relevel g l by = g\<lparr>gr_level := l, gr_by := by\<rparr>"

lemma relevel_simps [simp]: "grant_key (relevel g l by) = grant_key g" "gr_id (relevel g l by) = gr_id g"
  "gr_level (relevel g l by) = l"
  by (simp_all add: relevel_def grant_key_def)

lemma typed_relevel: "typed g \<Longrightarrow> l \<in> set access_levels \<Longrightarrow> typed (relevel g l by)"
  by (simp add: typed_def relevel_def subject_exclusive_check_def resource_exclusive_cases)

lemma relevel_rows:
  fixes w :: string
  assumes wf: "grants_wf gs" and g: "g \<in> set gs" and l: "l \<in> set access_levels"
  defines "hs \<equiv> update_rows (\<lambda>r. gr_id r = gr_id g) (\<lambda>_. relevel g l w) gs"
  shows "grants_wf hs" and "set hs = insert (relevel g l w) (set gs - {g})"
proof -
  have row: "(if gr_id r = gr_id g then relevel g l w else r) = (if r = g then relevel g l w else r)" if "r \<in> set gs" for r
    using grants_wfD(2) [OF wf that g] by auto
  have eq: "hs = map (\<lambda>r. if r = g then relevel g l w else r) gs"
    unfolding hs_def update_rows_def using row by (intro map_cong refl) auto
  have "map gr_id hs = map gr_id gs" "map grant_key hs = map grant_key gs" unfolding eq by simp_all
  moreover have "list_all typed hs"
    using wf grants_wfD(1) [OF wf g] typed_relevel l unfolding eq by (auto simp: grants_wf_def list_all_iff)
  ultimately show "grants_wf hs" using wf unfolding grants_wf_def by presburger
  show "set hs = insert (relevel g l w) (set gs - {g})" unfolding eq using g by auto
qed

lemma table_relevel:
  assumes wf: "grants_wf gs" and g: "g \<in> set gs" "key_abs (grant_key g) = Some k" and l: "l \<in> set access_levels"
  shows "grant_table (update_rows (\<lambda>r. gr_id r = gr_id g) (\<lambda>_. relevel g l w) gs) = (grant_table gs)(k := read_level l)"
    (is "grant_table ?hs = _")
proof
  fix k'
  note rows = relevel_rows [OF wf g(1) l, of w]
  show "grant_table ?hs k' = ((grant_table gs)(k := read_level l)) k'"
  proof (cases "k' = k")
    case True
    have "relevel g l w \<in> set ?hs" unfolding rows(2) by blast
    then show ?thesis using table_at [OF rows(1), of "relevel g l w" k] g(2) True by simp
  next
    case False
    have "grant_table ?hs k' = grant_table gs k'"
      by (rule table_cong [OF rows(1) wf]) (use False g(2) in \<open>auto simp: rows(2)\<close>)
    with False show ?thesis by simp
  qed
qed

lemma table_append:
  assumes wf: "grants_wf (gs @ [g])" and g: "key_abs (grant_key g) = Some k"
  shows "grant_table (gs @ [g]) = (grant_table gs)(k := read_level (gr_level g))"
proof
  fix k'
  have wf': "grants_wf gs" using wf by (auto simp: grants_wf_def)
  show "grant_table (gs @ [g]) k' = ((grant_table gs)(k := read_level (gr_level g))) k'"
  proof (cases "k' = k")
    case True
    then show ?thesis using table_at [OF wf, of g k] g by simp
  next
    case False
    have "grant_table (gs @ [g]) k' = grant_table gs k'"
      by (rule table_cong [OF wf wf']) (use False g in auto)
    with False show ?thesis by simp
  qed
qed

section \<open>The operations on the abstract table\<close>

lemma raise_level_rank:
  assumes "read_level t = Some l0" and "read_level u = Some l"
  shows "access_level_rank t < access_level_rank u \<Longrightarrow> max l0 l = l" and "\<not> access_level_rank t < access_level_rank u \<Longrightarrow> max l0 l = l0"
  using rank_read [OF assms(1)] rank_read [OF assms(2)] by (cases l0; cases l; simp add: max_def less_eq_level_def)+

definition created :: "grant_request \<Rightarrow> 'a pdb \<Rightarrow> grant \<Rightarrow> 'a pdb \<Rightarrow> bool" where
  \<comment> \<open>the entry of the request is raised to its level, and the row that holds it is returned\<close>
  "created data db g db' \<longleftrightarrow> grants_wf (grants db') \<and> db' = db\<lparr>grants := grants db'\<rparr> \<and> g \<in> set (grants db') \<and>
     (\<exists>k l. key_abs (request_key data) = Some k \<and> key_abs (grant_key g) = Some k \<and> read_level (rq_level data) = Some l \<and>
       grant_table (grants db') = (grant_table (grants db))(k \<mapsto> raise_level (grant_table (grants db) k) l))"

lemma create_existing:
  assumes wf: "grants_wf (grants db)" and v: "access_grant_create rq = Ok data"
    and g: "first_row (\<lambda>g. grant_key g = request_key data) (grants db) = Some g"
    and ok: "create_grant data w db = (Ok g', db')"
  shows "created data db g' db'"
proof -
  note row = conjunct1 [OF first_row_Some [OF g]] and key = conjunct2 [OF first_row_Some [OF g]]
  obtain l where l: "read_level (rq_level data) = Some l" using read_level_typed validated(2) [OF v] by blast
  have t: "typed g" using grants_wfD(1) [OF wf row] .
  obtain l0 where l0: "read_level (gr_level g) = Some l0" using read_level_typed t by (auto simp: typed_def)
  obtain k where k: "key_abs (grant_key g) = Some k" using typed_abs [OF t] by blast
  have at: "grant_table (grants db) k = Some l0" using table_at [OF wf row k] l0 by simp
  note rk = k [unfolded key]
  show ?thesis
  proof (cases "access_level_rank (gr_level g) < access_level_rank (rq_level data)")
    case True
    have run: "create_grant data w db = (Ok (relevel g (rq_level data) w),
        db\<lparr>grants := update_rows (\<lambda>r. gr_id r = gr_id g) (\<lambda>_. relevel g (rq_level data) w) (grants db)\<rparr>)"
      using g True by (simp add: create_grant_def Let_def relevel_def)
    note rows = relevel_rows [OF wf row validated(2) [OF v], of w]
    have "grant_table (update_rows (\<lambda>r. gr_id r = gr_id g) (\<lambda>_. relevel g (rq_level data) w) (grants db)) =
        (grant_table (grants db))(k \<mapsto> raise_level (grant_table (grants db) k) l)"
      using table_relevel [OF wf row k validated(2) [OF v], of w] l raise_level_rank(1) [OF l0 l True] at
      by (simp add: raise_level_def)
    moreover have g': "g' = relevel g (rq_level data) w"
      and db': "db' = db\<lparr>grants := update_rows (\<lambda>r. gr_id r = gr_id g) (\<lambda>_. relevel g (rq_level data) w) (grants db)\<rparr>"
      using run [symmetric, unfolded ok] by blast+
    ultimately show ?thesis
      unfolding created_def using rows k rk l by (intro conjI exI [of _ k] exI [of _ l]) (simp_all add: g' db')
  next
    case False
    have run: "create_grant data w db = (Ok g, db)" using g False by (simp add: create_grant_def)
    have "(grant_table (grants db))(k \<mapsto> raise_level (grant_table (grants db) k) l) = grant_table (grants db)"
      using at raise_level_rank(2) [OF l0 l False] by (auto simp: raise_level_def)
    moreover have "g' = g" "db' = db" using ok run by simp_all
    ultimately show ?thesis
      unfolding created_def using row k rk l wf by (intro conjI exI [of _ k] exI [of _ l]) simp_all
  qed
qed

lemma create_fresh:
  assumes wf: "grants_wf (grants db)" and v: "access_grant_create rq = Ok data"
    and g: "first_row (\<lambda>g. grant_key g = request_key data) (grants db) = None"
    and ok: "create_grant data w db = (Ok g', db')"
  shows "created data db g' db'"
proof -
  let ?g = "new_grant (next_rowid (grants db)) data (clock db) w"
  obtain l where l: "read_level (rq_level data) = Some l" using read_level_typed validated(2) [OF v] by blast
  have checks: "subject_exclusive_check ?g" "resource_exclusive_check ?g" and run: "g' = ?g" "db' = db\<lparr>grants := grants db @ [?g]\<rparr>"
    using ok g by (auto simp: create_grant_def add_grant_def split: if_splits)
  have t: "typed ?g" using checks validated(2) [OF v] by (simp add: typed_def new_grant_def)
  obtain k where k: "key_abs (grant_key ?g) = Some k" using typed_abs [OF t] by blast
  have ids: "\<forall>h \<in> set (grants db). gr_id h \<noteq> gr_id ?g" using next_rowid_fresh by (fastforce simp: new_grant_def)
  have keys: "\<forall>h \<in> set (grants db). grant_key h \<noteq> grant_key ?g" using g by (simp add: key_new_grant)
  have wf': "grants_wf (grants db @ [?g])" by (rule wf_append [OF wf t ids keys])
  have "grant_table (grants db) k = None"
  proof (rule table_none, rule ballI, rule notI)
    fix h assume h: "h \<in> set (grants db)" "key_abs (grant_key h) = Some k"
    have "typed h" using grants_wfD(1) [OF wf h(1)] .
    moreover have "key_abs (grant_key h) = key_abs (grant_key ?g)" unfolding h(2) k ..
    ultimately have "grant_key h = grant_key ?g" using key_abs_inj [of h ?g] checks unfolding typed_def by blast
    with keys h(1) show False by blast
  qed
  then have "grant_table (grants db @ [?g]) = (grant_table (grants db))(k \<mapsto> raise_level (grant_table (grants db) k) l)"
    using table_append [OF wf' k] l by (simp add: raise_level_def new_grant_def)
  then show ?thesis
    unfolding created_def using k l wf'
    by (intro conjI exI [of _ k] exI [of _ l]) (simp_all add: run key_new_grant)
qed

lemma create_refused:
  assumes v: "access_grant_create rq = Ok data" and r: "create_grant data w db = (Raise e, db')"
  shows "e = IntegrityError \<and> db' = db \<and> blank_columns data"
  using r request_checks [OF v] by (auto simp: create_grant_def add_grant_def Let_def split: option.splits if_splits)

text \<open>C19: creating a grant refines the update of the map from subjects and resources to levels: a request the
  validation accepted raises the level of its entry to at least the level asked for, never lowers it,
  and touches no other entry; the only other outcome is a constraint error that leaves the table as it
  was, for a request with a zero or an empty text in a column that should be absent.\<close>

theorem create_grant_refines:
  assumes wf: "grants_wf (grants db)" and v: "access_grant_create rq = Ok data"
    and run: "create_grant data w db = (res, db')"
  shows "case res of
      Ok g \<Rightarrow> grants_wf (grants db') \<and> db' = db\<lparr>grants := grants db'\<rparr> \<and> g \<in> set (grants db') \<and>
        (\<exists>k l. key_abs (request_key data) = Some k \<and> key_abs (grant_key g) = Some k \<and> read_level (rq_level data) = Some l \<and>
          grant_table (grants db') = (grant_table (grants db))(k \<mapsto> raise_level (grant_table (grants db) k) l))
    | Raise e \<Rightarrow> e = IntegrityError \<and> db' = db \<and> blank_columns data"
proof (cases res)
  case (Raise e)
  with create_refused [OF v] run show ?thesis by simp
next
  case (Ok g)
  have "created data db g db'"
    using create_fresh [OF wf v _ run [unfolded Ok]] create_existing [OF wf v _ run [unfolded Ok]]
    by (cases "first_row (\<lambda>g. grant_key g = request_key data) (grants db)") blast+
  then show ?thesis unfolding Ok result.case created_def .
qed

lemma table_delete:
  assumes wf: "grants_wf gs" and g: "g \<in> set gs" "key_abs (grant_key g) = Some k"
  shows "grant_table (filter (\<lambda>h. gr_id h \<noteq> gr_id g) gs) = (grant_table gs)(k := None)"
proof
  fix k'
  let ?hs = "filter (\<lambda>h. gr_id h \<noteq> gr_id g) gs"
  show "grant_table ?hs k' = ((grant_table gs)(k := None)) k'"
  proof (cases "k' = k")
    case True
    have "h = g" if "h \<in> set gs" "key_abs (grant_key h) = Some k" for h by (rule same_entry [OF wf g that])
    then have "\<forall>h \<in> set ?hs. key_abs (grant_key h) \<noteq> Some k" by auto
    with True show ?thesis by (simp add: table_none)
  next
    case False
    have "h \<in> set ?hs \<longleftrightarrow> h \<in> set gs" if "key_abs (grant_key h) = Some k'" for h
    proof -
      have "h \<noteq> g" using that False g(2) by auto
      then show ?thesis using grants_wfD(2) [OF wf g(1), of h] by auto
    qed
    then have "grant_table ?hs k' = grant_table gs k'" by (rule table_cong [OF wf_filter [OF wf] wf])
    with False show ?thesis by simp
  qed
qed

definition own_admin_key :: "string option \<Rightarrow> subject \<times> resource \<Rightarrow> bool" where
  \<comment> \<open>the entry that makes the acting administrator a portal administrator\<close>
  "own_admin_key actor_id k \<longleftrightarrow>
     (\<exists>u. k = (UserSubject u, SystemRole ''portal_admin'') \<and> strip (opt_str actor_id) = strip u \<and> strip u \<noteq> [])"

lemma own_admin:
  assumes "typed g" and "key_abs (grant_key g) = Some k" and "own_admin_key actor_id k"
  shows "is_self_portal_admin_grant g actor_id"
proof -
  obtain u where u: "k = (UserSubject u, SystemRole ''portal_admin'')" "strip (opt_str actor_id) = strip u" "strip u \<noteq> []"
    using assms(3) by (auto simp: own_admin_key_def)
  obtain x y where g: "key_abs (grant_key g) = Some (x, y)" "(gr_subject g, gr_group g, gr_user g) = key_subject x"
    "(gr_resource g, gr_app g, gr_sysrole g, gr_role g, gr_file g, gr_folder g) = key_resource y"
    using assms(1) typed_key unfolding typed_def by blast
  have "x = UserSubject u" "y = SystemRole ''portal_admin''" using g(1) assms(2) u(1) by simp_all
  with g u(2,3) show ?thesis
    by (simp add: is_self_portal_admin_grant_def is_portal_admin_system_grant_def key_subject_def key_resource_def opt_str_def)
qed

text \<open>C20: deleting a grant removes exactly its entry from the map and returns it; nobody can delete the grant
  that makes himself, by his own user id, portal administrator (a grant of one of his groups he can), and a deletion is
  refused only then and for an id without a grant, changing nothing.\<close>

theorem delete_grant_refines:
  assumes wf: "grants_wf (grants db)" and run: "admin_rbac_grants_delete i actor_id db = (res, db')"
  shows "case res of
      Ok g \<Rightarrow> grants_wf (grants db') \<and> db' = db\<lparr>grants := grants db'\<rparr> \<and> gr_id g = i \<and>
        (\<exists>k. key_abs (grant_key g) = Some k \<and> \<not> own_admin_key actor_id k \<and> grant_table (grants db) k \<noteq> None \<and>
          grant_table (grants db') = (grant_table (grants db))(k := None))
    | Raise e \<Rightarrow> db' = db \<and> (\<forall>g \<in> set (grants db). gr_id g = i \<longrightarrow> is_self_portal_admin_grant g actor_id)"
proof (cases "first_row (\<lambda>g. gr_id g = i) (grants db)")
  case None
  with run show ?thesis by (auto simp: admin_rbac_grants_delete_def)
next
  case (Some g)
  have row: "g \<in> set (grants db)" "gr_id g = i" using first_row_Some [OF Some] by blast+
  show ?thesis
  proof (cases "is_self_portal_admin_grant g actor_id")
    case True
    have "h = g" if "h \<in> set (grants db)" "gr_id h = i" for h using grants_wfD(2) [OF wf row(1) that(1)] row(2) that(2) by simp
    with True run Some show ?thesis by (auto simp: admin_rbac_grants_delete_def)
  next
    case False
    have t: "typed g" using grants_wfD(1) [OF wf row(1)] .
    obtain k where k: "key_abs (grant_key g) = Some k" using typed_abs [OF t] by blast
    have res: "res = Ok g" and db': "db' = db\<lparr>grants := filter (\<lambda>h. gr_id h \<noteq> gr_id g) (grants db)\<rparr>"
      using run Some False row(2) by (auto simp: admin_rbac_grants_delete_def delete_grant_def)
    have "grant_table (grants db) k \<noteq> None"
      using table_at [OF wf row(1) k] read_level_typed t by (auto simp: typed_def)
    with False own_admin [OF t k] wf_filter [OF wf] table_delete [OF wf row(1) k] k row(2) show ?thesis
      unfolding res db' by auto
  qed
qed

inductive grant_step :: "'a pdb \<Rightarrow> 'a pdb \<Rightarrow> bool" where
  create: "access_grant_create rq = Ok data \<Longrightarrow> create_grant data w db = (res, db') \<Longrightarrow> grant_step db db'"
| delete: "admin_rbac_grants_delete i actor_id db = (res, db') \<Longrightarrow> grant_step db db'"
| roles: "replace_group_rbac_role_grants gid role mode w db = (u, db') \<Longrightarrow> grant_step db db'"

lemma delete_grants_wf: "grants_wf (grants db) \<Longrightarrow> grants_wf (grants (delete_grants is db))"
  by (induction "is" db rule: delete_grants.induct) (auto simp: delete_grant_def wf_filter)

lemma create_wf:
  assumes "grants_wf (grants db)" and "access_grant_create rq = Ok data" and "create_grant data w db = (res, db')"
  shows "grants_wf (grants db')"
proof (cases res)
  case (Raise e)
  have "db' = db" using create_refused [OF assms(2) assms(3) [unfolded Raise]] by blast
  with assms(1) show ?thesis by simp
next
  case (Ok g)
  then have "created data db g db'"
    using create_fresh [OF assms(1,2)] create_existing [OF assms(1,2)] assms(3)
    by (cases "first_row (\<lambda>g. grant_key g = request_key data) (grants db)") blast+
  then show ?thesis by (simp add: created_def)
qed

lemma roles_wf:
  assumes wf: "grants_wf (grants db)" and run: "replace_group_rbac_role_grants gid role mode w db = (u, db')"
  shows "grants_wf (grants db')"
proof -
  define db1 where "db1 = delete_grants (map gr_id (filter (\<lambda>g. gr_subject g = ''group'' \<and> gr_group g = Some gid \<and>
    gr_resource g = ''rbac_role'') (grants db))) db"
  have wf1: "grants_wf (grants db1)" unfolding db1_def by (rule delete_grants_wf [OF wf])
  show ?thesis
  proof (cases role)
    case None
    with run wf1 show ?thesis by (simp add: replace_group_rbac_role_grants_def db1_def Let_def)
  next
    case (Some role_id)
    show ?thesis
    proof (cases "access_grant_create (role_request gid role_id mode)")
      case (Raise e)
      with Some run wf1 show ?thesis by (simp add: replace_group_rbac_role_grants_def db1_def Let_def)
    next
      case (Ok data)
      obtain res db2 where c: "create_grant data w db1 = (res, db2)" by fastforce
      have "grants_wf (grants db2)" by (rule create_wf [OF wf1 Ok c])
      moreover have "db' = db2"
        using Some Ok c run by (cases res) (simp_all add: replace_group_rbac_role_grants_def db1_def Let_def)
      ultimately show ?thesis by simp
    qed
  qed
qed

lemma delete_wf:
  assumes "grants_wf (grants db)" and "admin_rbac_grants_delete i actor_id db = (res, db')"
  shows "grants_wf (grants db')"
  using assms by (auto simp: admin_rbac_grants_delete_def delete_grant_def wf_filter split: option.splits if_splits)

lemma grant_steps_wf: "grant_step\<^sup>*\<^sup>* db db' \<Longrightarrow> grants_wf (grants db) \<Longrightarrow> grants_wf (grants db')"
  by (induction rule: rtranclp_induct) (auto elim!: grant_step.cases intro: create_wf roles_wf delete_wf)

text \<open>C28: grants are well typed: whatever validated requests, deletions and role changes follow each other, every
  row reads as one subject, one resource and one of the three levels, and it is the only row for that subject
  and resource.\<close>

theorem grants_well_typed:
  assumes "grants_wf (grants db)" and "grant_step\<^sup>*\<^sup>* db db'" and g: "g \<in> set (grants db')"
  shows "\<exists>x y l. key_abs (grant_key g) = Some (x, y) \<and> read_level (gr_level g) = Some l \<and>
    grant_table (grants db') (x, y) = Some l \<and>
    (\<forall>h \<in> set (grants db'). key_abs (grant_key h) = Some (x, y) \<longrightarrow> h = g)"
proof -
  have wf: "grants_wf (grants db')" using grant_steps_wf assms by blast
  have t: "typed g" using grants_wfD(1) [OF wf g] .
  obtain k where k: "key_abs (grant_key g) = Some k" using typed_abs [OF t] by blast
  obtain l where l: "read_level (gr_level g) = Some l" using t read_level_typed unfolding typed_def by blast
  have "h = g" if "h \<in> set (grants db')" "key_abs (grant_key h) = Some k" for h by (rule same_entry [OF wf g k that])
  moreover have "grant_table (grants db') k = Some l" using table_at [OF wf g k] l by simp
  ultimately show ?thesis using k l by (intro exI [of _ "fst k"] exI [of _ "snd k"] exI [of _ l]) simp
qed

end
