(* ===== verification/EffectiveAccess.thy ===== *)
theory EffectiveAccess
  imports Grants
begin

text \<open>
  What a session may open: \<open>app/realm_lookup.py\<close>, \<open>app/rbac/group_lookup.py\<close> and
  \<open>app/rbac/effective_access_service.py\<close>. The grants of the user and of the groups named in the
  token are merged per application, the highest level first; only enabled applications of the user catalogue
  count. The order of rows a query without ORDER BY returns is the order of the tables.

  The abstract specification is \<open>allowed_level\<close>: the levels the table of grants gives to the subjects of
  the session.
\<close>

section \<open>Realms and groups\<close>

definition sql_lower_char :: "char \<Rightarrow> char" where
  "sql_lower_char c = (if 65 \<le> cp c \<and> cp c \<le> 90 then char_of (cp c + 32) else c)"

definition sql_lower :: "string \<Rightarrow> string" where
  \<comment> \<open>SQLite's \<open>lower\<close>: ASCII letters only\<close>
  "sql_lower s = map sql_lower_char s"

definition find_realm :: "'a pdb \<Rightarrow> string option \<Rightarrow> realm_row option" where
  "find_realm db slug =
     (let wanted = strip (opt_str slug)
      in if wanted = [] then None
         else (case first_row (\<lambda>r. rl_slug r = wanted) (realms db) of
                 Some r \<Rightarrow> Some r
               | None \<Rightarrow> first_row (\<lambda>r. sql_lower (rl_slug r) = lower wanted) (realms db)))"

definition session_realm :: "'a pdb \<Rightarrow> string option \<Rightarrow> realm_row option" where
  "session_realm db realm_slug =
     (if strip (opt_str realm_slug) \<noteq> [] then find_realm db realm_slug
      else first_row rl_default (realms db))"

definition in_session_realm :: "realm_row option \<Rightarrow> string \<Rightarrow> group_row \<Rightarrow> bool" where
  \<comment> \<open>the \<open>scope\<close> of the query\<close>
  "in_session_realm realm slug g =
     (let unscoped = (gp_realm_id g = None \<and> gp_realm_slug g = None);
          legacy = (gp_realm_id g = None \<and> map_option sql_lower (gp_realm_slug g) = Some slug)
      in case realm of
           None \<Rightarrow> (if slug \<noteq> [] then unscoped \<or> legacy else unscoped)
         | Some r \<Rightarrow> gp_realm_id g = Some (rl_id r) \<or> legacy \<or> (rl_default r \<and> unscoped))"

definition resolve_rbac_groups :: "'a pdb \<Rightarrow> string option \<Rightarrow> string list \<Rightarrow> group_row list" where
  "resolve_rbac_groups db realm_slug group_names =
     (let names = map (\<lambda>n. lower (strip n)) (filter (\<lambda>n. strip n \<noteq> []) group_names)
      in if names = [] then []
         else (let realm = session_realm db realm_slug;
                   slug = lower (strip (case realm of Some r \<Rightarrow> rl_slug r | None \<Rightarrow> opt_str realm_slug))
               in filter (\<lambda>g. in_session_realm realm slug g \<and> sql_lower (gp_name g) \<in> set names) (groups db)))"

lemmas lookup_defs [py_defs] =
  sql_lower_char_def sql_lower_def find_realm_def session_realm_def in_session_realm_def resolve_rbac_groups_def

section \<open>Effective access\<close>

record effective_access =
  ea_app :: app_row
  ea_level :: string
  ea_sources :: "string list"
  ea_ids :: "int list"

definition can_launch :: "effective_access \<Rightarrow> bool" where
  "can_launch e \<longleftrightarrow> access_level_rank ''launch'' \<le> access_level_rank (ea_level e)"

definition upgrade_entry :: "string \<Rightarrow> string \<Rightarrow> int \<Rightarrow> effective_access \<Rightarrow> effective_access" where
  "upgrade_entry level source gid e =
     e\<lparr>ea_level := (if access_level_rank (ea_level e) < access_level_rank level then level else ea_level e),
       ea_sources := (if source \<in> set (ea_sources e) then ea_sources e else ea_sources e @ [source]),
       ea_ids := (if gid \<in> set (ea_ids e) then ea_ids e else ea_ids e @ [gid])\<rparr>"

definition merge_candidate ::
  "effective_access list \<Rightarrow> app_row \<Rightarrow> string \<Rightarrow> string \<Rightarrow> int \<Rightarrow> effective_access list" where
  "merge_candidate by_app app level source gid =
     (if list_ex (\<lambda>e. ap_id (ea_app e) = ap_id app) by_app
      then map (\<lambda>e. if ap_id (ea_app e) = ap_id app then upgrade_entry level source gid e else e) by_app
      else by_app @ [\<lparr>ea_app = app, ea_level = level, ea_sources = [source], ea_ids = [gid]\<rparr>])"

definition subject_filter ::
  "'a pdb \<Rightarrow> string option \<Rightarrow> string option \<Rightarrow> string list \<Rightarrow> (grant \<Rightarrow> bool) option \<times> group_row list" where
  "subject_filter db uid realm_slug group_names =
     (let gs = resolve_rbac_groups db realm_slug group_names;
          direct = (\<lambda>g. gr_subject g = ''user'' \<and> gr_user g = uid);
          via = (\<lambda>g. gr_subject g = ''group'' \<and> gr_group g \<in> Some ` gp_id ` set gs)
      in (if opt_str uid \<noteq> [] then (if gs \<noteq> [] then Some (\<lambda>g. direct g \<or> via g) else Some direct)
          else if gs \<noteq> [] then Some via else None, gs))"

definition grant_source :: "group_row list \<Rightarrow> grant \<Rightarrow> string" where
  "grant_source gs g =
     (if gr_subject g = ''user'' then ''direct''
      else (case first_row (\<lambda>r. Some (gp_id r) = gr_group g) gs of
              Some r \<Rightarrow> ''via groupe '' @ gp_name r | None \<Rightarrow> ''via groupe''))"

definition grant_candidates ::
  "'a pdb \<Rightarrow> (grant \<Rightarrow> bool) \<Rightarrow> int option \<Rightarrow> (grant \<times> app_row) list" where
  \<comment> \<open>the joined rows of the query, without the modes outside the catalogue\<close>
  "grant_candidates db subj application_id =
     filter (\<lambda>(g, a). gr_app g = Some (ap_id a) \<and> subj g \<and> gr_resource g = ''application'' \<and> ap_enabled a \<and>
               (case application_id of None \<Rightarrow> True | Some i \<Rightarrow> ap_id a = i) \<and> is_user_catalogue_mode (ap_mode a))
       (List.product (grants db) (apps db))"

definition grant_level :: "grant \<Rightarrow> string" where
  \<comment> \<open>\<open>grant.access_level or "view"\<close>\<close>
  "grant_level g = (if gr_level g = [] then ''view'' else gr_level g)"

definition get_effective_apps_for_user ::
  "'a pdb \<Rightarrow> string option \<Rightarrow> string list \<Rightarrow> string option \<Rightarrow> int option \<Rightarrow> effective_access list" where
  "get_effective_apps_for_user db uid group_names realm_slug application_id =
     (case subject_filter db uid realm_slug group_names of
        (None, _) \<Rightarrow> []
      | (Some subj, gs) \<Rightarrow>
          sort_key (\<lambda>e. map cp (lower (ap_label (ea_app e))))
            (fold (\<lambda>(g, a) by_app. merge_candidate by_app a (grant_level g) (grant_source gs g) (gr_id g))
               (grant_candidates db subj application_id) []))"

definition user_can_launch_application :: "'a pdb \<Rightarrow> int \<Rightarrow> string option \<Rightarrow> string list \<Rightarrow> string option \<Rightarrow> bool" where
  "user_can_launch_application db application_id uid group_names realm_slug =
     list_ex can_launch (get_effective_apps_for_user db uid group_names realm_slug (Some application_id))"

definition user_has_portal_admin_role :: "'a pdb \<Rightarrow> string option \<Rightarrow> string list \<Rightarrow> string option \<Rightarrow> bool" where
  "user_has_portal_admin_role db uid group_names realm_slug =
     (case subject_filter db uid realm_slug group_names of
        (None, _) \<Rightarrow> False
      | (Some subj, _) \<Rightarrow>
          list_ex (\<lambda>g. subj g \<and> gr_resource g = ''system_role'' \<and> gr_sysrole g = Some ''portal_admin'') (grants db))"

lemmas access_defs [py_defs] =
  can_launch_def upgrade_entry_def merge_candidate_def subject_filter_def grant_source_def grant_candidates_def
  grant_level_def get_effective_apps_for_user_def user_can_launch_application_def user_has_portal_admin_role_def

section \<open>The specification\<close>

definition session_subjects :: "'a pdb \<Rightarrow> string option \<Rightarrow> string list \<Rightarrow> string option \<Rightarrow> subject set" where
  "session_subjects db uid group_names realm_slug =
     (if opt_str uid = [] then {} else {UserSubject (opt_str uid)}) \<union>
     GroupSubject ` gp_id ` set (resolve_rbac_groups db realm_slug group_names)"

definition allowed_level :: "'a pdb \<Rightarrow> subject set \<Rightarrow> resource \<Rightarrow> level \<Rightarrow> bool" where
  "allowed_level db ss y l \<longleftrightarrow> (\<exists>x \<in> ss. grant_table (grants db) (x, y) = Some l)"

definition open_app :: "'a pdb \<Rightarrow> app_row \<Rightarrow> bool" where
  "open_app db a \<longleftrightarrow> a \<in> set (apps db) \<and> ap_enabled a \<and> is_user_catalogue_mode (ap_mode a)"

definition apps_wf :: "app_row list \<Rightarrow> bool" where
  "apps_wf as \<longleftrightarrow> distinct (map ap_id as)"

lemma upgrade_sel [simp]: "ea_app (upgrade_entry level source gid e) = ea_app e"
  by (simp add: upgrade_entry_def)

definition entry_at :: "effective_access list \<Rightarrow> int \<Rightarrow> effective_access option" where
  "entry_at es i = first_row (\<lambda>e. ap_id (ea_app e) = i) es"

lemma entry_at_simps [simp]:
  "entry_at [] i = None"
  "entry_at (e # es) i = (if ap_id (ea_app e) = i then Some e else entry_at es i)"
  by (simp_all add: entry_at_def first_row_cases)

lemma entry_at_append: "entry_at (es @ [e]) i = (case entry_at es i of None \<Rightarrow> entry_at [e] i | Some x \<Rightarrow> Some x)"
  by (induction es) auto

lemma entry_at_ex: "list_ex (\<lambda>e. ap_id (ea_app e) = i) es \<longleftrightarrow> entry_at es i \<noteq> None"
  by (induction es) auto

lemma entry_at_map:
  "entry_at (map (\<lambda>e. if ap_id (ea_app e) = j then upgrade_entry level source gid e else e) es) i =
     map_option (\<lambda>e. if i = j then upgrade_entry level source gid e else e) (entry_at es i)"
  by (induction es) auto

definition merged_entry :: "effective_access option \<Rightarrow> app_row \<Rightarrow> string \<Rightarrow> string \<Rightarrow> int \<Rightarrow> effective_access" where
  "merged_entry old app level source gid =
     (case old of None \<Rightarrow> \<lparr>ea_app = app, ea_level = level, ea_sources = [source], ea_ids = [gid]\<rparr>
      | Some e \<Rightarrow> upgrade_entry level source gid e)"

lemma entry_at_merge:
  "entry_at (merge_candidate es app level source gid) i =
     (if i = ap_id app then Some (merged_entry (entry_at es i) app level source gid) else entry_at es i)"
  unfolding merge_candidate_def entry_at_ex
  by (auto simp: entry_at_map entry_at_append merged_entry_def split: option.split)

lemma merge_distinct:
  assumes "distinct (map (ap_id \<circ> ea_app) es)"
  shows "distinct (map (ap_id \<circ> ea_app) (merge_candidate es app level source gid))"
proof (cases "list_ex (\<lambda>e. ap_id (ea_app e) = ap_id app) es")
  case True
  have "map (ap_id \<circ> ea_app) (map (\<lambda>e. if ap_id (ea_app e) = ap_id app then upgrade_entry level source gid e else e) es) =
      map (ap_id \<circ> ea_app) es" by simp
  with True assms show ?thesis by (simp only: merge_candidate_def if_True)
next
  case False
  with assms show ?thesis by (auto simp: merge_candidate_def list_ex_iff)
qed

lemma entry_at_mem: "distinct (map (ap_id \<circ> ea_app) es) \<Longrightarrow> e \<in> set es \<longleftrightarrow> entry_at es (ap_id (ea_app e)) = Some e"
proof (induction es)
  case (Cons x es)
  then show ?case by (cases "ap_id (ea_app x) = ap_id (ea_app e)") force+
qed simp

abbreviation merge_all :: "group_row list \<Rightarrow> (grant \<times> app_row) list \<Rightarrow> effective_access list" where
  "merge_all gs cs \<equiv> fold (\<lambda>(g, a) by_app. merge_candidate by_app a (grant_level g) (grant_source gs g) (gr_id g)) cs []"

definition best_of :: "(grant \<times> app_row) list \<Rightarrow> int \<Rightarrow> effective_access option \<Rightarrow> bool" where
  \<comment> \<open>the entry of an application carries the best level of its candidates\<close>
  "best_of cs i e \<longleftrightarrow>
     (case e of
        None \<Rightarrow> (\<forall>(g, a) \<in> set cs. ap_id a \<noteq> i)
      | Some x \<Rightarrow> (\<exists>(g, a) \<in> set cs. ap_id a = i \<and> ea_level x = grant_level g) \<and> ap_id (ea_app x) = i \<and>
          ea_app x \<in> snd ` set cs \<and>
          (\<forall>(g, a) \<in> set cs. ap_id a = i \<longrightarrow> access_level_rank (grant_level g) \<le> access_level_rank (ea_level x)))"

lemma best_of_step:
  assumes "best_of cs i old"
  shows "best_of (cs @ [(g, a)]) i
    (if i = ap_id a then Some (merged_entry old a (grant_level g) source gid) else old)"
proof (cases "i = ap_id a")
  case False
  with assms show ?thesis by (cases old) (auto simp: best_of_def)
next
  case True
  show ?thesis
  proof (cases old)
    case None
    with assms True show ?thesis by (auto simp: best_of_def merged_entry_def)
  next
    case (Some x)
    with assms True show ?thesis
      by (cases "access_level_rank (ea_level x) < access_level_rank (grant_level g)")
        (fastforce simp: best_of_def merged_entry_def upgrade_entry_def)+
  qed
qed

lemma merge_all_spec: "best_of cs i (entry_at (merge_all gs cs) i) \<and> distinct (map (ap_id \<circ> ea_app) (merge_all gs cs))"
proof (induction cs rule: rev_induct)
  case Nil
  then show ?case by (simp add: best_of_def)
next
  case (snoc c cs)
  obtain g a where c: "c = (g, a)" by (cases c)
  from snoc have b: "best_of cs i (entry_at (merge_all gs cs) i)" and d: "distinct (map (ap_id \<circ> ea_app) (merge_all gs cs))" by blast+
  have m: "merge_all gs (cs @ [c]) = merge_candidate (merge_all gs cs) a (grant_level g) (grant_source gs g) (gr_id g)"
    by (simp add: c)
  show ?case unfolding m entry_at_merge unfolding c using best_of_step [OF b] merge_distinct [OF d] by blast
qed

section \<open>Candidates and the abstract table\<close>

lemma table_Some:
  assumes "grants_wf gs"
  shows "grant_table gs k = Some l \<longleftrightarrow> (\<exists>g \<in> set gs. key_abs (grant_key g) = Some k \<and> read_level (gr_level g) = Some l)"
proof
  assume t: "grant_table gs k = Some l"
  show "\<exists>g \<in> set gs. key_abs (grant_key g) = Some k \<and> read_level (gr_level g) = Some l"
  proof (rule ccontr)
    assume n: "\<not> ?thesis"
    have "\<forall>g \<in> set gs. key_abs (grant_key g) \<noteq> Some k"
      using n t table_at [OF assms] by metis
    then show False using t table_none by fastforce
  qed
next
  assume "\<exists>g \<in> set gs. key_abs (grant_key g) = Some k \<and> read_level (gr_level g) = Some l"
  then obtain g where "g \<in> set gs" "key_abs (grant_key g) = Some k" "read_level (gr_level g) = Some l" by blast
  then show "grant_table gs k = Some l" using table_at [OF assms, of g k] by simp
qed

lemma subject_filter_None: "fst (subject_filter db uid slug names) = None \<longleftrightarrow> session_subjects db uid names slug = {}"
  by (auto simp: subject_filter_def session_subjects_def Let_def)

lemma subject_filter_Some:
  assumes f: "fst (subject_filter db uid slug names) = Some subj" and t: "typed g"
  shows "subj g \<longleftrightarrow> (\<exists>x y. key_abs (grant_key g) = Some (x, y) \<and> x \<in> session_subjects db uid names slug)"
proof -
  let ?gs = "resolve_rbac_groups db slug names"
  obtain x y where k: "key_abs (grant_key g) = Some (x, y)" "(gr_subject g, gr_group g, gr_user g) = key_subject x"
    using t typed_key unfolding typed_def by blast
  have "subj g \<longleftrightarrow> (opt_str uid \<noteq> [] \<and> gr_subject g = ''user'' \<and> gr_user g = uid) \<or>
      (gr_subject g = ''group'' \<and> gr_group g \<in> Some ` gp_id ` set ?gs)"
    using f by (auto simp: subject_filter_def Let_def split: if_splits)
  also have "\<dots> \<longleftrightarrow> x \<in> session_subjects db uid names slug"
  proof (cases x)
    case (GroupSubject i)
    with k(2) show ?thesis by (auto simp: key_subject_def session_subjects_def)
  next
    case (UserSubject u)
    with k(2) show ?thesis by (cases uid) (auto simp: key_subject_def session_subjects_def opt_str_def)
  qed
  finally show ?thesis using k(1) by simp
qed

lemma typed_application:
  assumes "typed g" and "key_abs (grant_key g) = Some (x, y)"
  shows "gr_resource g = ''application'' \<and> gr_app g = Some i \<longleftrightarrow> y = Application i"
proof -
  obtain x' y' where k: "key_abs (grant_key g) = Some (x', y')"
    "(gr_resource g, gr_app g, gr_sysrole g, gr_role g, gr_file g, gr_folder g) = key_resource y'"
    using assms(1) typed_key unfolding typed_def by blast
  with assms(2) have "y' = y" by simp
  with k(2) show ?thesis by (cases y) (auto simp: key_resource_def)
qed

lemma typed_level: "typed g \<Longrightarrow> grant_level g = gr_level g"
  by (auto simp: typed_def grant_level_def access_levels_def)

definition asked :: "int option \<Rightarrow> app_row \<Rightarrow> bool" where
  "asked application_id a \<longleftrightarrow> (case application_id of None \<Rightarrow> True | Some i \<Rightarrow> ap_id a = i)"

lemma candidate_iff:
  assumes f: "fst (subject_filter db uid slug names) = Some subj" and wf: "grants_wf (grants db)"
  shows "(g, a) \<in> set (grant_candidates db subj i) \<longleftrightarrow> g \<in> set (grants db) \<and> open_app db a \<and> asked i a \<and>
    (\<exists>x \<in> session_subjects db uid names slug. key_abs (grant_key g) = Some (x, Application (ap_id a)))"
proof (cases "g \<in> set (grants db)")
  case True
  then have t: "typed g" by (rule grants_wfD(1) [OF wf])
  obtain x y where k: "key_abs (grant_key g) = Some (x, y)" using typed_abs [OF t] by auto
  have "subj g \<longleftrightarrow> x \<in> session_subjects db uid names slug" using subject_filter_Some [OF f t] k by simp
  moreover have "gr_resource g = ''application'' \<and> gr_app g = Some (ap_id a) \<longleftrightarrow> y = Application (ap_id a)"
    by (rule typed_application [OF t k])
  ultimately show ?thesis using True k by (auto simp: grant_candidates_def open_app_def asked_def)
next
  case False
  then show ?thesis by (auto simp: grant_candidates_def)
qed

lemma allowed_iff:
  assumes f: "fst (subject_filter db uid slug names) = Some subj" and wf: "grants_wf (grants db)"
    and a: "open_app db a" "asked i a"
  shows "allowed_level db (session_subjects db uid names slug) (Application (ap_id a)) l \<longleftrightarrow>
    (\<exists>g. (g, a) \<in> set (grant_candidates db subj i) \<and> read_level (grant_level g) = Some l)"
  unfolding allowed_level_def table_Some [OF wf] candidate_iff [OF f wf]
  using a typed_level grants_wfD(1) [OF wf] by metis

definition greatest :: "(level \<Rightarrow> bool) \<Rightarrow> level \<Rightarrow> bool" where
  "greatest p l \<longleftrightarrow> p l \<and> (\<forall>m. p m \<longrightarrow> m \<le> l)"

lemma rank_le: "read_level t = Some l \<Longrightarrow> read_level u = Some m \<Longrightarrow> l \<le> m \<longleftrightarrow> access_level_rank t \<le> access_level_rank u"
  by (simp add: rank_read less_eq_level_def)

lemma merged_mem:
  "e \<in> set (merge_all gs cs) \<longleftrightarrow> entry_at (merge_all gs cs) (ap_id (ea_app e)) = Some e"
  using entry_at_mem merge_all_spec by blast

lemma best_level:
  assumes f: "fst (subject_filter db uid slug names) = Some subj" and wf: "grants_wf (grants db)" "apps_wf (apps db)"
    and b: "best_of (grant_candidates db subj i) j (Some e)"
  obtains a l where "ea_app e = a" "open_app db a" "asked i a" "ap_id a = j" "read_level (ea_level e) = Some l"
    "greatest (allowed_level db (session_subjects db uid names slug) (Application j)) l"
proof -
  let ?cs = "grant_candidates db subj i" and ?S = "session_subjects db uid names slug"
  obtain g a' where c: "(g, a') \<in> set ?cs" "ap_id a' = j" "ea_level e = grant_level g"
    using b by (auto simp: best_of_def)
  obtain h where h: "(h, ea_app e) \<in> set ?cs" "ap_id (ea_app e) = j" using b by (auto simp: best_of_def)
  have a: "open_app db (ea_app e)" "asked i (ea_app e)" using h candidate_iff [OF f wf(1)] by blast+
  have "open_app db a'" using c(1) candidate_iff [OF f wf(1)] by blast
  then have eq: "a' = ea_app e" using a(1) c(2) h(2) wf(2) by (auto simp: open_app_def apps_wf_def distinct_map dest: inj_onD)
  have t: "typed x" if "(x, y) \<in> set ?cs" for x y using that candidate_iff [OF f wf(1)] grants_wfD(1) [OF wf(1)] by blast
  have lev: "\<exists>m. read_level (grant_level x) = Some m" if "(x, y) \<in> set ?cs" for x y
    using t [OF that] typed_level read_level_typed by (simp add: typed_def)
  obtain l where l: "read_level (ea_level e) = Some l" using lev [OF c(1)] c(3) by auto
  note al = allowed_iff [OF f wf(1) a, unfolded h(2)]
  have "greatest (allowed_level db ?S (Application j)) l"
    unfolding greatest_def al
  proof (intro conjI allI impI)
    show "\<exists>g. (g, ea_app e) \<in> set ?cs \<and> read_level (grant_level g) = Some l" using c(1,3) eq l by auto
    fix m assume "\<exists>g. (g, ea_app e) \<in> set ?cs \<and> read_level (grant_level g) = Some m"
    then obtain g' where "(g', ea_app e) \<in> set ?cs" "read_level (grant_level g') = Some m" by blast
    then show "m \<le> l" using b h(2) rank_le [OF _ l] by (auto simp: best_of_def)
  qed
  then show ?thesis using that [of "ea_app e" l] a h(2) l by simp
qed

lemma effective_entries:
  assumes wf: "grants_wf (grants db)" "apps_wf (apps db)"
  shows "(\<lambda>e. (ea_app e, read_level (ea_level e))) ` set (get_effective_apps_for_user db uid names slug i) =
    {(a, Some l) | a l. open_app db a \<and> asked i a \<and>
       greatest (allowed_level db (session_subjects db uid names slug) (Application (ap_id a))) l}"
proof (cases "subject_filter db uid slug names")
  case (Pair sf gs)
  let ?S = "session_subjects db uid names slug"
  show ?thesis
  proof (cases sf)
    case None
    then have "?S = {}" using subject_filter_None [of db uid slug names] Pair by simp
    with Pair None show ?thesis by (simp add: get_effective_apps_for_user_def greatest_def allowed_level_def)
  next
    case (Some subj)
    let ?cs = "grant_candidates db subj i"
    let ?es = "merge_all gs ?cs"
    have f: "fst (subject_filter db uid slug names) = Some subj" using Pair Some by simp
    have b: "best_of ?cs j (entry_at ?es j)" for j using merge_all_spec by blast
    have set: "set (get_effective_apps_for_user db uid names slug i) = set ?es"
      using Pair Some by (simp add: get_effective_apps_for_user_def)
    show ?thesis unfolding set
    proof (intro set_eqI iffI)
      fix p assume "p \<in> (\<lambda>e. (ea_app e, read_level (ea_level e))) ` set ?es"
      then obtain e where e: "p = (ea_app e, read_level (ea_level e))" "e \<in> set ?es" by blast
      have at: "entry_at ?es (ap_id (ea_app e)) = Some e" using e(2) unfolding merged_mem .
      have "best_of ?cs (ap_id (ea_app e)) (Some e)" using b [of "ap_id (ea_app e)"] unfolding at .
      from best_level [OF f wf this]
      obtain l where "open_app db (ea_app e)" "asked i (ea_app e)" "read_level (ea_level e) = Some l"
        "greatest (allowed_level db ?S (Application (ap_id (ea_app e)))) l" by blast
      with e(1) show "p \<in> {(a, Some l) | a l. open_app db a \<and> asked i a \<and> greatest (allowed_level db ?S (Application (ap_id a))) l}"
        by (intro CollectI exI [of _ "ea_app e"] exI [of _ l]) simp
    next
      fix p assume "p \<in> {(a, Some l) | a l. open_app db a \<and> asked i a \<and> greatest (allowed_level db ?S (Application (ap_id a))) l}"
      then obtain a l where p: "p = (a, Some l)" and a: "open_app db a" "asked i a"
        and l: "greatest (allowed_level db ?S (Application (ap_id a))) l" by blast
      obtain g where g: "(g, a) \<in> set ?cs" using l allowed_iff [OF f wf(1) a] by (auto simp: greatest_def)
      obtain e where e: "entry_at ?es (ap_id a) = Some e"
        using b [of "ap_id a"] g by (cases "entry_at ?es (ap_id a)") (auto simp: best_of_def)
      from best_level [OF f wf b [of "ap_id a", unfolded e]]
      obtain l' where e': "open_app db (ea_app e)" "ap_id (ea_app e) = ap_id a" "read_level (ea_level e) = Some l'"
        "greatest (allowed_level db ?S (Application (ap_id a))) l'" by blast
      have "ea_app e = a" using e'(1,2) a(1) wf(2) by (auto simp: open_app_def apps_wf_def distinct_map dest: inj_onD)
      moreover have "l' = l" using l e'(4) by (auto simp: greatest_def intro: antisym)
      moreover have "e \<in> set ?es" unfolding merged_mem e'(2) by (rule e)
      ultimately show "p \<in> (\<lambda>e. (ea_app e, read_level (ea_level e))) ` set ?es" using e'(3) p by force
    qed
  qed
qed

text \<open>C5: the effective applications of a session are what the abstract table of grants allows: one entry for
  every enabled application of the catalogue on which a subject of the session (the user, or a group of the
  session realm named in the token) holds a level, with the greatest of these levels, and no other.\<close>

theorem effective_access_refines:
  assumes "grants_wf (grants db)" and "apps_wf (apps db)"
  shows "(\<lambda>e. (ea_app e, read_level (ea_level e))) ` set (get_effective_apps_for_user db uid names slug i) =
    {(a, Some l) | a l. open_app db a \<and> asked i a \<and>
       greatest (allowed_level db (session_subjects db uid names slug) (Application (ap_id a))) l}"
  using assms by (rule effective_entries)

lemma can_launch_iff: "read_level (ea_level e) = Some l \<Longrightarrow> can_launch e \<longleftrightarrow> Launch \<le> l"
  using rank_le [of "''launch''" Launch "ea_level e" l] by (simp add: can_launch_def read_level_def)

lemma greatest_exists: "p m \<Longrightarrow> \<exists>l. greatest p l \<and> m \<le> l"
proof -
  assume m: "p m"
  consider "p Manage" | "\<not> p Manage" "p Launch" | "\<not> p Manage" "\<not> p Launch" "p View" using m by (cases m) auto
  then show ?thesis
  proof cases
    case 1
    have le: "l \<le> Manage" for l by (cases l) (auto simp: less_eq_level_def)
    with 1 show ?thesis unfolding greatest_def by blast
  next
    case 2
    have le: "l \<le> Launch" if "p l" for l using that 2(1) by (cases l) (auto simp: less_eq_level_def)
    with 2 m show ?thesis unfolding greatest_def by blast
  next
    case 3
    have le: "l \<le> View" if "p l" for l using that 3(1,2) by (cases l) (auto simp: less_eq_level_def)
    with 3 m show ?thesis unfolding greatest_def by blast
  qed
qed

lemma greatest_above: "(\<exists>l. greatest p l \<and> m \<le> l) \<longleftrightarrow> (\<exists>l. m \<le> l \<and> p l)"
proof
  assume "\<exists>l. m \<le> l \<and> p l"
  then obtain l where "m \<le> l" "p l" by blast
  moreover obtain l' where "greatest p l'" "l \<le> l'" using greatest_exists [of p, OF \<open>p l\<close>] by blast
  ultimately show "\<exists>l. greatest p l \<and> m \<le> l" by (meson order_trans)
qed (auto simp: greatest_def)

lemma launch_iff:
  assumes wf: "grants_wf (grants db)" "apps_wf (apps db)"
  shows "user_can_launch_application db j uid names slug \<longleftrightarrow>
    (\<exists>a l. open_app db a \<and> ap_id a = j \<and> Launch \<le> l \<and>
       allowed_level db (session_subjects db uid names slug) (Application j) l)"
proof -
  let ?es = "set (get_effective_apps_for_user db uid names slug (Some j))"
  let ?al = "\<lambda>a. allowed_level db (session_subjects db uid names slug) (Application (ap_id a))"
  note e = effective_entries [OF wf, of uid names slug "Some j"]
  have "user_can_launch_application db j uid names slug \<longleftrightarrow> (\<exists>x \<in> ?es. can_launch x)"
    by (simp add: user_can_launch_application_def list_ex_iff)
  also have "\<dots> \<longleftrightarrow> (\<exists>a l. (a, Some l) \<in> (\<lambda>e. (ea_app e, read_level (ea_level e))) ` ?es \<and> Launch \<le> l)"
  proof
    assume "\<exists>x \<in> ?es. can_launch x"
    then obtain x where x: "x \<in> ?es" "can_launch x" by blast
    have "(ea_app x, read_level (ea_level x)) \<in> (\<lambda>e. (ea_app e, read_level (ea_level e))) ` ?es" using x(1) by blast
    moreover from this obtain l where "read_level (ea_level x) = Some l" unfolding e by blast
    ultimately show "\<exists>a l. (a, Some l) \<in> (\<lambda>e. (ea_app e, read_level (ea_level e))) ` ?es \<and> Launch \<le> l"
      using can_launch_iff x(2) by metis
  next
    assume "\<exists>a l. (a, Some l) \<in> (\<lambda>e. (ea_app e, read_level (ea_level e))) ` ?es \<and> Launch \<le> l"
    then obtain x l where "x \<in> ?es" "Some l = read_level (ea_level x)" "Launch \<le> l" by blast
    then show "\<exists>x \<in> ?es. can_launch x" using can_launch_iff [of x l] by auto
  qed
  also have "\<dots> \<longleftrightarrow> (\<exists>a l. open_app db a \<and> ap_id a = j \<and> greatest (?al a) l \<and> Launch \<le> l)"
    unfolding e asked_def by auto
  also have "\<dots> \<longleftrightarrow> (\<exists>a l. open_app db a \<and> ap_id a = j \<and> Launch \<le> l \<and> ?al a l)"
    unfolding ex_simps(2) [symmetric] using greatest_above [of "?al _" Launch] by blast
  finally show ?thesis by metis
qed

text \<open>C21: the decision to open an application is exact: a session may launch an application just when it is an
  enabled application of the catalogue and some subject of the session holds the level launch or manage on it.\<close>

theorem launch_decision_exact:
  assumes "grants_wf (grants db)" and "apps_wf (apps db)"
  shows "user_can_launch_application db j uid names slug \<longleftrightarrow>
    (\<exists>a l. open_app db a \<and> ap_id a = j \<and> Launch \<le> l \<and>
       allowed_level db (session_subjects db uid names slug) (Application j) l)"
  using assms by (rule launch_iff)

text \<open>The role of portal administrator is held just when a subject of the session has an entry for it.\<close>

theorem portal_admin_exact:
  assumes wf: "grants_wf (grants db)"
  shows "user_has_portal_admin_role db uid names slug \<longleftrightarrow>
    (\<exists>l. allowed_level db (session_subjects db uid names slug) (SystemRole ''portal_admin'') l)"
proof (cases "subject_filter db uid slug names")
  case (Pair sf gs)
  show ?thesis
  proof (cases sf)
    case None
    then have "session_subjects db uid names slug = {}" using subject_filter_None [of db uid slug names] Pair by simp
    with Pair None show ?thesis by (simp add: user_has_portal_admin_role_def allowed_level_def)
  next
    case (Some subj)
    have f: "fst (subject_filter db uid slug names) = Some subj" using Pair Some by simp
    have row: "subj g \<and> gr_resource g = ''system_role'' \<and> gr_sysrole g = Some ''portal_admin'' \<longleftrightarrow>
        (\<exists>x \<in> session_subjects db uid names slug. key_abs (grant_key g) = Some (x, SystemRole ''portal_admin''))"
      if "g \<in> set (grants db)" for g
    proof -
      have t: "typed g" by (rule grants_wfD(1) [OF wf that])
      obtain x y where k: "key_abs (grant_key g) = Some (x, y)"
        "(gr_resource g, gr_app g, gr_sysrole g, gr_role g, gr_file g, gr_folder g) = key_resource y"
        using t typed_key unfolding typed_def by blast
      have "gr_resource g = ''system_role'' \<and> gr_sysrole g = Some ''portal_admin'' \<longleftrightarrow> y = SystemRole ''portal_admin''"
        using k(2) by (cases y) (auto simp: key_resource_def)
      with subject_filter_Some [OF f t] k(1) show ?thesis by auto
    qed
    have "user_has_portal_admin_role db uid names slug \<longleftrightarrow> (\<exists>g \<in> set (grants db). \<exists>x \<in> session_subjects db uid names slug.
        key_abs (grant_key g) = Some (x, SystemRole ''portal_admin''))"
      using Pair Some row by (simp add: user_has_portal_admin_role_def list_ex_iff)
    also have "\<dots> \<longleftrightarrow> (\<exists>l. allowed_level db (session_subjects db uid names slug) (SystemRole ''portal_admin'') l)"
      unfolding allowed_level_def table_Some [OF wf]
      using grants_wfD(1) [OF wf] read_level_typed unfolding typed_def by meson
    finally show ?thesis .
  qed
qed

lemma resolved_group:
  assumes "g \<in> set (resolve_rbac_groups db slug names)"
  shows "g \<in> set (groups db)" and "\<exists>n \<in> set names. sql_lower (gp_name g) = lower (strip n)"
    and "gp_realm_id g = Some rid \<Longrightarrow> \<exists>r. session_realm db slug = Some r \<and> rl_id r = rid"
  using assms by (auto simp: resolve_rbac_groups_def in_session_realm_def Let_def split: if_splits option.splits)


section \<open>Accented group names\<close>

definition accented_capital :: "char \<Rightarrow> bool" where
  "accented_capital c \<longleftrightarrow> 192 \<le> cp c \<and> cp c \<le> 222 \<and> cp c \<noteq> 215"

lemma lower_not_accented: "c \<in> set (lower s) \<Longrightarrow> \<not> accented_capital c"
proof -
  have "\<not> accented_capital (lower_char x)" for x
  proof (cases "(65 \<le> cp x \<and> cp x \<le> 90) \<or> (192 \<le> cp x \<and> cp x \<le> 222 \<and> cp x \<noteq> 215)")
    case True
    then have "cp (lower_char x) = cp x + 32" by (auto simp: lower_char_def)
    with True show ?thesis by (auto simp: accented_capital_def)
  next
    case False
    then show ?thesis by (auto simp: lower_char_def accented_capital_def)
  qed
  then show "c \<in> set (lower s) \<Longrightarrow> \<not> accented_capital c" by (auto simp: lower_def)
qed

text \<open>A group whose name holds an accented capital letter is never found, not even for a token that carries
  exactly its name: the names of the token are folded by Python, the column by SQLite's \<open>lower\<close>, which
  leaves accented letters alone.\<close>

theorem accented_group_never_matches:
  assumes "list_ex accented_capital (gp_name g)"
  shows "g \<notin> set (resolve_rbac_groups db slug names)"
proof
  assume "g \<in> set (resolve_rbac_groups db slug names)"
  then obtain n where n: "sql_lower (gp_name g) = lower (strip n)" using resolved_group(2) by blast
  obtain c where c: "c \<in> set (gp_name g)" "accented_capital c" using assms by (auto simp: list_ex_iff)
  have "sql_lower_char c = c" using c(2) by (auto simp: sql_lower_char_def accented_capital_def)
  then have "c \<in> set (sql_lower (gp_name g))" using c(1) by (force simp: sql_lower_def)
  with n c(2) lower_not_accented show False by simp
qed

end
