(* ===== verification/Presence.thy ===== *)
theory Presence
  imports EffectiveAccess
begin

text \<open>
  The heartbeat of application sessions in \<open>app/web/sessions_service.py\<close>: every request let through by the
  subdomain check refreshes the row of its user and application in the table of active sessions, at most once a
  minute. The row's details are a JSON object, an association list in insertion order.

  \<open>isofmt\<close> is the text of an instant (\<open>datetime.isoformat\<close>).
\<close>

record active_row =
  as_id :: string
  as_kind :: string
  as_email :: string
  as_username :: string
  as_realm :: string
  as_protocol :: string
  as_target :: string
  as_ip :: "string option"
  as_status :: string
  as_started :: int
  as_seen :: int
  as_details :: "details option"

record presence_db = portal_db +
  active :: "active_row list"

type_synonym 'a adb = "'a presence_db_scheme"

lemma log_action_active [frame, simp]: "active (log_action a b c d i db) = active db"
  by (simp add: log_action_def split: prod.split)

section \<open>JSON objects\<close>

fun truthy :: "jval \<Rightarrow> bool" where
  "truthy JNull = False"
| "truthy (JBool b) = b"
| "truthy (JInt i) = (i \<noteq> 0)"
| "truthy (JStr s) = (s \<noteq> [])"
| "truthy (JList xs) = (xs \<noteq> [])"

definition has_truthy :: "details \<Rightarrow> string \<Rightarrow> bool" where
  "has_truthy d k = (case map_of d k of None \<Rightarrow> False | Some v \<Rightarrow> truthy v)"

definition dict_put :: "string \<Rightarrow> jval \<Rightarrow> details \<Rightarrow> details" where
  "dict_put k v d =
     (if map_of d k = None then d @ [(k, v)] else map (\<lambda>(k', w). if k' = k then (k', v) else (k', w)) d)"

definition dict_update :: "details \<Rightarrow> details \<Rightarrow> details" where
  "dict_update d patch = fold (\<lambda>(k, v). dict_put k v) patch d"

definition dict_pop :: "string \<Rightarrow> details \<Rightarrow> details" where
  "dict_pop k d = filter (\<lambda>(k', _). k' \<noteq> k) d"

definition sealed_key :: string where "sealed_key = ''session_cookies_sealed''"
definition legacy_key :: string where "legacy_key = ''session_cookies''"

definition has_session_cookies :: "details \<Rightarrow> bool" where
  "has_session_cookies d \<longleftrightarrow> has_truthy d sealed_key \<or> has_truthy d legacy_key"

definition keep_stored :: "details \<Rightarrow> string \<Rightarrow> details \<Rightarrow> details" where
  \<comment> \<open>an empty incoming value does not replace a stored one\<close>
  "keep_stored out k patch = (if \<not> has_truthy patch k \<and> has_truthy out k then dict_pop k patch else patch)"

definition merge_details :: "details option \<Rightarrow> details option \<Rightarrow> details option" where
  "merge_details existing incoming =
     (let ex = (case existing of None \<Rightarrow> [] | Some d \<Rightarrow> d); inc = (case incoming of None \<Rightarrow> [] | Some d \<Rightarrow> d)
      in if ex = [] \<and> inc = [] then None
         else (let out = dict_pop legacy_key ex
               in if inc = [] then Some out
                  else Some (dict_update out
                         (fold (keep_stored out) [''user_agent'', ''user_agent_label'', sealed_key, ''verify_base_url''] inc))))"

section \<open>The heartbeat\<close>

definition presence_throttle_seconds :: int where "presence_throttle_seconds = 60"

definition app_session_id :: "string \<Rightarrow> string \<Rightarrow> string" where
  "app_session_id email slug = ''app:'' @ lower email @ '':'' @ slug"

definition looks_like_email :: "string option \<Rightarrow> bool" where
  "looks_like_email value \<longleftrightarrow> CHR 0x40 \<in> set (strip (opt_str value))"

definition protocol_for_app :: "app_row \<Rightarrow> string" where
  \<comment> \<open>every mode of the table and every other mode map to the same protocol\<close>
  "protocol_for_app app = ''HTTPS''"

definition short_names :: "string \<Rightarrow> string option \<Rightarrow> string list" where
  \<comment> \<open>the names under which the same user may have been stored\<close>
  "short_names full username =
     (let u = lower (strip (opt_str username)); local = takeWhile (\<lambda>c. c \<noteq> CHR 0x40) full
      in (if u \<noteq> [] \<and> CHR 0x40 \<notin> set u then [u] else []) @ (if local \<noteq> [] \<and> local \<noteq> full then [local] else []))"

definition heal_short_session_emails :: "string \<Rightarrow> string option \<Rightarrow> active_row list \<Rightarrow> active_row list" where
  "heal_short_session_emails full_email username rows =
     (if \<not> looks_like_email (Some full_email) then rows
      else (let full = lower (strip full_email)
            in update_rows (\<lambda>r. as_email r \<in> set (short_names full username)) (\<lambda>r. r\<lparr>as_email := full\<rparr>) rows))"

definition presence_patch :: "(int \<Rightarrow> string) \<Rightarrow> int \<Rightarrow> app_row \<Rightarrow> string \<Rightarrow> details \<Rightarrow> details" where
  "presence_patch isofmt now app auth_source existing =
     (let src = strip (if auth_source = [] then ''oidc'' else auth_source)
      in [(''source'', JStr ''subdomain_auth''), (''auth_source'', JStr (if src = [] then ''oidc'' else src)),
          (''last_presence_at'', JStr (isofmt now))] @
         (if ap_label app \<noteq> [] \<and> map_of existing ''app_label'' = None then [(''app_label'', JStr (ap_label app))] else []) @
         [(''presence_only'', JBool (\<not> has_session_cookies existing))])"

definition presence_identity :: "string \<Rightarrow> string option \<Rightarrow> string \<times> string" where
  "presence_identity email username =
     (let email_n = lower (strip (if email \<noteq> [] then email else if opt_str username \<noteq> [] then opt_str username else ''unknown''));
          uname = strip (if opt_str username \<noteq> [] then opt_str username else email_n)
      in (email_n, if uname = [] then email_n else uname))"

definition presence_realm :: "string \<Rightarrow> string option \<Rightarrow> app_row \<Rightarrow> string \<Rightarrow> string" where
  "presence_realm default_setting realm app auth_source =
     (if lower (strip auth_source) = ''breakglass'' then []
      else (let default = strip (if default_setting = [] then ''default'' else default_setting);
                r = strip (if opt_str realm \<noteq> [] then opt_str realm
                           else if opt_str (ap_realm app) \<noteq> [] then opt_str (ap_realm app) else default)
            in if r = [] then default else r))"

definition refreshed_row ::
  "string \<Rightarrow> string \<Rightarrow> app_row \<Rightarrow> string option \<Rightarrow> int \<Rightarrow> details \<Rightarrow> details \<Rightarrow> active_row \<Rightarrow> active_row" where
  "refreshed_row email_n uname app ip now existing patch r =
     (let r = r\<lparr>as_email := email_n\<rparr>;
          r = (if as_status r \<noteq> ''isolated''
               then r\<lparr>as_status := ''active'', as_protocol := protocol_for_app app, as_username := uname\<rparr> else r)
      in r\<lparr>as_ip := prefer_client_ip (as_ip r) ip, as_seen := now,
           as_details := merge_details (if existing = [] then None else Some existing) (Some patch)\<rparr>)"

definition new_active_row ::
  "string \<Rightarrow> string \<Rightarrow> string \<Rightarrow> string \<Rightarrow> app_row \<Rightarrow> string option \<Rightarrow> int \<Rightarrow> details \<Rightarrow> active_row" where
  "new_active_row sid email_n uname realm_n app ip now patch =
     \<lparr>as_id = sid, as_kind = ''app'', as_email = email_n, as_username = uname, as_realm = realm_n,
      as_protocol = protocol_for_app app, as_target = ap_slug app, as_ip = ip, as_status = ''active'', as_started = now,
      as_seen = now, as_details = Some patch\<rparr>"

definition touch_app_presence ::
  "(int \<Rightarrow> string) \<Rightarrow> string \<Rightarrow> string \<Rightarrow> string option \<Rightarrow> string option \<Rightarrow> app_row \<Rightarrow> string option \<Rightarrow> string
   \<Rightarrow> 'a adb \<Rightarrow> 'a adb" where
  \<comment> \<open>never raises: without the hot store nothing is written\<close>
  "touch_app_presence isofmt default_setting email username realm app source_ip auth_source db =
     (let (email_n, uname) = presence_identity email username;
          sid = app_session_id email_n (ap_slug app);
          now = clock db
      in if email_n = [] \<or> email_n = ''unknown'' then db
         else if \<not> hot_up db then db
         else (case first_row (\<lambda>r. as_id r = sid) (active db) of
                 Some row \<Rightarrow>
                   (if 0 < presence_throttle_seconds \<and> now - seconds presence_throttle_seconds \<le> as_seen row then db
                    else (let existing = (case as_details row of None \<Rightarrow> [] | Some d \<Rightarrow> d);
                              patch = presence_patch isofmt now app auth_source existing;
                              rows = (if looks_like_email (Some email_n)
                                      then heal_short_session_emails email_n (Some uname) (active db) else active db)
                          in db\<lparr>active := update_rows (\<lambda>r. as_id r = sid)
                                  (refreshed_row email_n uname app source_ip now existing patch) rows\<rparr>))
               | None \<Rightarrow>
                   (let rows = (if looks_like_email (Some email_n)
                                then heal_short_session_emails email_n (Some uname) (active db) else active db);
                        row = new_active_row sid email_n uname (presence_realm default_setting realm app auth_source) app
                                source_ip now (presence_patch isofmt now app auth_source [])
                    in db\<lparr>active := rows @ [row]\<rparr>)))"

lemmas presence_row_defs [py_defs] =
  has_truthy_def dict_put_def dict_update_def dict_pop_def sealed_key_def legacy_key_def has_session_cookies_def
  keep_stored_def merge_details_def presence_throttle_seconds_def app_session_id_def looks_like_email_def
  protocol_for_app_def short_names_def heal_short_session_emails_def presence_patch_def presence_identity_def
  presence_realm_def refreshed_row_def new_active_row_def touch_app_presence_def

section \<open>The table of active sessions\<close>

definition active_wf :: "active_row list \<Rightarrow> bool" where
  "active_wf rows \<longleftrightarrow> distinct (map as_id rows)"

lemma heal_ids: "map as_id (heal_short_session_emails full u rows) = map as_id rows"
  by (simp add: heal_short_session_emails_def Let_def map_update_rows)

lemma refreshed_id [simp]: "as_id (refreshed_row e u app ip now ex patch r) = as_id r"
  by (simp add: refreshed_row_def Let_def)

lemma touch_frame [frame]: "touch_app_presence isofmt ds e u rl app ip src db = db\<lparr>active := active (touch_app_presence isofmt ds e u rl app ip src db)\<rparr>"
  by (simp add: touch_app_presence_def Let_def case_prod_beta split: option.split)

lemma update_rows_mem: "r \<in> set rows \<Longrightarrow> (if p r then f r else r) \<in> set (update_rows p f rows)"
  unfolding set_update_rows by blast

lemma heal_row:
  "r \<in> set rows \<Longrightarrow> \<exists>r' \<in> set (heal_short_session_emails full u rows). as_id r' = as_id r \<and> as_status r' = as_status r \<and>
     as_username r' = as_username r \<and> as_seen r' = as_seen r"
proof -
  assume r: "r \<in> set rows"
  let ?p = "\<lambda>r. as_email r \<in> set (short_names (lower (strip full)) u)" and ?f = "\<lambda>r. r\<lparr>as_email := lower (strip full)\<rparr>"
  show ?thesis
  proof (cases "looks_like_email (Some full)")
    case True
    then have "(if ?p r then ?f r else r) \<in> set (heal_short_session_emails full u rows)"
      unfolding heal_short_session_emails_def Let_def using update_rows_mem [OF r, of ?p ?f] by simp
    then show ?thesis by (rule bexI [rotated]) simp
  next
    case False
    with r show ?thesis by (auto simp: heal_short_session_emails_def)
  qed
qed

lemma refreshed_isolated:
  "as_status r = ''isolated'' \<Longrightarrow> as_status (refreshed_row e u app ip now ex patch r) = ''isolated'' \<and>
     as_username (refreshed_row e u app ip now ex patch r) = as_username r"
  by (simp add: refreshed_row_def Let_def)

text \<open>The heartbeat never revives an isolated session, keeps one row per user and application, and within a
  minute of the last one it writes nothing.\<close>

theorem heartbeat_safe:
  assumes wf: "active_wf (active db)"
    and db'_def: "db' = touch_app_presence isofmt ds email username rl app ip src db"
  shows "active_wf (active db') \<and> db' = db\<lparr>active := active db'\<rparr> \<and>
    (\<forall>r \<in> set (active db). as_status r = ''isolated'' \<longrightarrow>
       (\<exists>r' \<in> set (active db'). as_id r' = as_id r \<and> as_status r' = ''isolated'' \<and> as_username r' = as_username r)) \<and>
    (\<forall>r \<in> set (active db). as_id r = app_session_id (fst (presence_identity email username)) (ap_slug app) \<longrightarrow>
       clock db - seconds presence_throttle_seconds \<le> as_seen r \<longrightarrow> active db' = active db)"
proof -
  obtain e u where id: "presence_identity email username = (e, u)" by fastforce
  let ?sid = "app_session_id e (ap_slug app)"
  define rows where "rows = (if looks_like_email (Some e) then heal_short_session_emails e (Some u) (active db) else active db)"
  have ids: "map as_id rows = map as_id (active db)" by (simp add: rows_def heal_ids)
  have healed: "\<exists>r' \<in> set rows. as_id r' = as_id r \<and> as_status r' = as_status r \<and> as_username r' = as_username r"
    if "r \<in> set (active db)" for r
    using heal_row [OF that, of e "Some u"] that by (auto simp: rows_def)
  have uniq: "r = s" if "r \<in> set (active db)" "s \<in> set (active db)" "as_id r = as_id s" for r s
    using wf that by (auto simp: active_wf_def distinct_map dest: inj_onD)
  have frame: "db' = db\<lparr>active := active db'\<rparr>" unfolding db'_def by (rule touch_frame)
  consider (none) "db' = db"
    | (refresh) row ex patch where "first_row (\<lambda>r. as_id r = ?sid) (active db) = Some row"
        "\<not> clock db - seconds presence_throttle_seconds \<le> as_seen row"
        "active db' = update_rows (\<lambda>r. as_id r = ?sid) (refreshed_row e u app ip (clock db) ex patch) rows"
    | (new) row where "first_row (\<lambda>r. as_id r = ?sid) (active db) = None" "as_id row = ?sid" "active db' = rows @ [row]"
  proof (cases "e = [] \<or> e = ''unknown'' \<or> \<not> hot_up db")
    case True
    then have "db' = db" unfolding db'_def touch_app_presence_def by (auto simp: id Let_def)
    then show ?thesis by (rule none)
  next
    case False
    show ?thesis
    proof (cases "first_row (\<lambda>r. as_id r = ?sid) (active db)")
      case None
      let ?row = "new_active_row ?sid e u (presence_realm ds rl app src) app ip (clock db) (presence_patch isofmt (clock db) app src [])"
      have "active db' = rows @ [?row]"
        using False unfolding db'_def touch_app_presence_def Let_def id prod.case None option.case rows_def by simp
      then show ?thesis by (intro new [OF None, of ?row]) (simp_all add: new_active_row_def)
    next
      case (Some row)
      show ?thesis
      proof (cases "clock db - seconds presence_throttle_seconds \<le> as_seen row")
        case True
        with False Some have "db' = db"
          by (simp add: db'_def touch_app_presence_def id Let_def presence_throttle_seconds_def)
        then show ?thesis by (rule none)
      next
        case old: False
        let ?ex = "case as_details row of None \<Rightarrow> [] | Some d \<Rightarrow> d"
        have "active db' = update_rows (\<lambda>r. as_id r = ?sid)
            (refreshed_row e u app ip (clock db) ?ex (presence_patch isofmt (clock db) app src ?ex)) rows"
          using False old unfolding db'_def touch_app_presence_def Let_def id prod.case Some option.case rows_def by simp
        then show ?thesis by (rule refresh [OF Some old])
      qed
    qed
  qed
  then show ?thesis
  proof cases
    case none
    with wf show ?thesis by auto
  next
    case (refresh row ex patch)
    have "map as_id (active db') = map as_id rows" unfolding refresh(3) by (rule map_update_rows) simp
    then have "active_wf (active db')" using wf ids by (simp add: active_wf_def)
    moreover have "\<exists>r' \<in> set (active db'). as_id r' = as_id r \<and> as_status r' = ''isolated'' \<and> as_username r' = as_username r"
      if asm: "r \<in> set (active db)" "as_status r = ''isolated''" for r
    proof -
      obtain r1 where r1: "r1 \<in> set rows" "as_id r1 = as_id r" "as_status r1 = ''isolated''" "as_username r1 = as_username r"
        using healed [OF asm(1)] asm(2) by auto
      from update_rows_mem [OF r1(1), of "\<lambda>r. as_id r = ?sid" "refreshed_row e u app ip (clock db) ex patch"]
      show ?thesis unfolding refresh(3) [symmetric]
        by (rule bexI [rotated]) (use r1 refreshed_isolated [OF r1(3)] in auto)
    qed
    moreover have "r = row" if "r \<in> set (active db)" "as_id r = ?sid" for r
      using first_row_Some [OF refresh(1)] uniq [OF that(1)] that(2) by simp
    ultimately show ?thesis using frame refresh(2) unfolding id fst_conv by blast
  next
    case (new row)
    have "as_id row \<notin> set (map as_id rows)" unfolding ids using new(1,2) by auto
    then have "active_wf (active db')" using wf ids unfolding new(3) active_wf_def by simp
    moreover have "\<exists>r' \<in> set (active db'). as_id r' = as_id r \<and> as_status r' = ''isolated'' \<and> as_username r' = as_username r"
      if that: "r \<in> set (active db)" "as_status r = ''isolated''" for r
      using healed [OF that(1)] that(2) unfolding new(3) by force
    moreover have "as_id r \<noteq> ?sid" if "r \<in> set (active db)" for r using new(1) that by simp
    ultimately show ?thesis using frame unfolding id fst_conv by blast
  qed
qed

end
