(* ===== verification/Breakglass.thy ===== *)
theory Breakglass
  imports Binding
begin

text \<open>
  \<open>app/auth/breakglass.py\<close>: the emergency session. A cookie is a signed token whose \<open>jti\<close> names a
  row of the registry; every rotation supersedes the row by a new one of the same chain, a superseded
  cookie is honoured for a grace period and cuts the whole chain afterwards.

  The token library is the parameter \<open>lib\<close>: encoding claims with a secret, and decoding a token with a
  secret, with or without the check of the expiry. The secrets stored by other services (generated in
  the administration pages, cached, seeded on demand) are given by their values in \<open>secret_view\<close>. The
  password check (\<open>bcrypt\<close> on the stored hash) is the parameter \<open>verify\<close> of the login. Claims carry
  whole seconds, as the encoder writes them.
\<close>

datatype audience = NoAud | AudText string | AudList "string list" | AudOther

record claims =
  cl_sub :: "string option"
  cl_iat :: "int option"
  cl_exp :: "int option"
  cl_last :: "int option"
  cl_type :: "string option"
  cl_jti :: "string option"
  cl_aud :: audience

record jwt_lib =
  jw_encode :: "claims \<Rightarrow> string \<Rightarrow> string"
  jw_decode :: "bool \<Rightarrow> int \<Rightarrow> string \<Rightarrow> string \<Rightarrow> claims option"
    \<comment> \<open>whether the expiry is checked, the instant, the token, the secret\<close>

record bg_settings =
  st_secret :: string
  st_legacy :: string
  st_fallback :: bool
  st_production :: bool
  st_audience :: "string option"
  st_aud_strict :: bool
  st_net :: net_settings
  st_rfc1918 :: "string list"

record secret_view =
  sv_ui :: "string option"
  sv_cached :: "string option"
  sv_previous :: "string option"
  sv_seeded :: "string option"  \<comment> \<open>what a lookup finds after the runtime secrets were ensured\<close>
  sv_ephemeral :: string

datatype auth_error = SecretRequired | SessionNotFound | AuthForbidden | InvalidCredentials | SecretUnavailable | AuthSql

datatype secret_source = FromEnv | FromUi | FromLegacy | FromEphemeral | FromUiPrevious

definition cookie_max_age :: int where "cookie_max_age = 8 * 3600"
definition idle_timeout_seconds :: int where "idle_timeout_seconds = 30 * 60"
definition rotation_min_interval_seconds :: int where "rotation_min_interval_seconds = 60"
definition session_retention_days :: int where "session_retention_days = 7"
definition grace_window_seconds :: int where "grace_window_seconds = 5"
definition degraded_token_ttl_sec :: int where "degraded_token_ttl_sec = 30 * 60"

definition default_breakglass_audience :: string where
  "default_breakglass_audience = ''bastion-breakglass''"

definition now_seconds :: "'a core_db_scheme \<Rightarrow> int" where
  "now_seconds db = clock db div 1000000"

lemmas bg_constants [py_defs] =
  cookie_max_age_def idle_timeout_seconds_def rotation_min_interval_seconds_def
  session_retention_days_def grace_window_seconds_def degraded_token_ttl_sec_def
  default_breakglass_audience_def now_seconds_def

section \<open>Audience and secrets\<close>

definition jwt_audience_matches :: "audience \<Rightarrow> string \<Rightarrow> bool \<Rightarrow> bool" where
  "jwt_audience_matches aud expected strict =
     (case aud of
        NoAud \<Rightarrow> \<not> strict
      | AudText a \<Rightarrow> (if a = [] then \<not> strict else a = expected)
      | AudList as \<Rightarrow> expected \<in> set as
      | AudOther \<Rightarrow> False)"

definition resolve_breakglass_jwt_audience :: "bg_settings \<Rightarrow> string" where
  "resolve_breakglass_jwt_audience st =
     (let raw = strip (opt_str (st_audience st)) in if raw = [] then default_breakglass_audience else raw)"

definition first_secret :: "string option list \<Rightarrow> string option" where
  "first_secret vs = (case filter (\<lambda>v. opt_str v \<noteq> []) vs of [] \<Rightarrow> None | v # _ \<Rightarrow> v)"

definition resolve_signing_secret ::
  "bg_settings \<Rightarrow> secret_view \<Rightarrow> (auth_error, string \<times> secret_source) result" where
  "resolve_signing_secret st sv =
     (let dedicated = strip (st_secret st)
      in if dedicated \<noteq> [] then Ok (dedicated, FromEnv)
         else (case first_secret [sv_ui sv, sv_cached sv, sv_seeded sv] of
                 Some s \<Rightarrow> Ok (s, FromUi)
               | None \<Rightarrow>
                   if st_production st then Raise SecretRequired
                   else (let legacy = strip (st_legacy st)
                         in if legacy \<noteq> [] then Ok (legacy, FromLegacy)
                            else Ok (sv_ephemeral sv, FromEphemeral))))"

definition validation_secrets ::
  "bg_settings \<Rightarrow> secret_view \<Rightarrow> (auth_error, (string \<times> secret_source) list) result" where
  "validation_secrets st sv =
     (case resolve_signing_secret st sv of
        Raise e \<Rightarrow> Raise e
      | Ok (primary, source) \<Rightarrow>
          (let add = (\<lambda>v label out. if opt_str v = [] \<or> opt_str v \<in> fst ` set out then out
                                    else out @ [(opt_str v, label)])
           in Ok ((if st_fallback st then add (Some (strip (st_legacy st))) FromLegacy else (\<lambda>out. out))
                   (add (sv_previous sv) FromUiPrevious
                     (add (sv_ui sv) FromUi (add (Some primary) source []))))))"

section \<open>Tokens\<close>

definition create_breakglass_token ::
  "jwt_lib \<Rightarrow> int \<Rightarrow> string \<Rightarrow> string \<Rightarrow> string \<Rightarrow> int \<Rightarrow> string option \<Rightarrow> string" where
  \<comment> \<open>\<open>now\<close> in microseconds\<close>
  "create_breakglass_token lib now username secret jti ttl_seconds aud =
     jw_encode lib
       \<lparr>cl_sub = Some username, cl_iat = Some (now div 1000000),
        cl_exp = Some ((now + seconds ttl_seconds) div 1000000), cl_last = Some (now div 1000000),
        cl_type = Some ''bg'', cl_jti = Some jti,
        cl_aud = AudText (strip (if opt_str aud = [] then default_breakglass_audience else opt_str aud))\<rparr> secret"

definition encode_breakglass_claims ::
  "jwt_lib \<Rightarrow> int \<Rightarrow> claims \<Rightarrow> string \<Rightarrow> string \<Rightarrow> bool \<Rightarrow> string" where
  "encode_breakglass_claims lib now payload secret jti touch_last =
     (let now_ts = now div 1000000;
          exp = (case cl_exp payload of Some e \<Rightarrow> e | None \<Rightarrow> (now + seconds cookie_max_age) div 1000000);
          act = (if touch_last then now_ts else opt_int_or (cl_last payload) now_ts);
          aud = (case cl_aud payload of
                   AudText a \<Rightarrow> if strip a = [] then default_breakglass_audience else strip a
                 | _ \<Rightarrow> default_breakglass_audience)
      in jw_encode lib
           \<lparr>cl_sub = cl_sub payload, cl_iat = cl_iat payload, cl_exp = Some exp, cl_last = Some act,
            cl_type = Some ''bg'', cl_jti = Some jti, cl_aud = AudText aud\<rparr> secret)"

definition decode_breakglass_token ::
  "jwt_lib \<Rightarrow> int \<Rightarrow> string \<Rightarrow> string \<Rightarrow> string option \<Rightarrow> bool \<Rightarrow> claims option" where
  "decode_breakglass_token lib now cookie secret aud strict =
     (if secret = [] \<or> cookie = [] then None
      else (case jw_decode lib True now cookie secret of
              None \<Rightarrow> None
            | Some payload \<Rightarrow>
                (if cl_type payload \<noteq> Some ''bg'' then None
                 else if (case aud of None \<Rightarrow> False
                          | Some a \<Rightarrow> \<not> jwt_audience_matches (cl_aud payload) a strict) then None
                 else if cl_exp payload = None then None
                 else (case (case cl_last payload of None \<Rightarrow> cl_iat payload | Some l \<Rightarrow> Some l) of
                         None \<Rightarrow> None
                       | Some act \<Rightarrow>
                           if idle_timeout_seconds < now div 1000000 - act then None else Some payload))))"

fun decode_with_secrets ::
  "jwt_lib \<Rightarrow> int \<Rightarrow> string \<Rightarrow> string \<Rightarrow> bool \<Rightarrow> (string \<times> secret_source) list \<Rightarrow> (claims \<times> bool) option" where
  "decode_with_secrets lib now cookie aud strict [] = None"
| "decode_with_secrets lib now cookie aud strict ((secret, label) # rest) =
     (case decode_breakglass_token lib now cookie secret (Some aud) strict of
        Some payload \<Rightarrow> Some (payload, label = FromLegacy)
      | None \<Rightarrow> decode_with_secrets lib now cookie aud strict rest)"

definition decode_breakglass_token_with_fallback ::
  "jwt_lib \<Rightarrow> bg_settings \<Rightarrow> secret_view \<Rightarrow> int \<Rightarrow> string \<Rightarrow> (auth_error, (claims \<times> bool) option) result" where
  "decode_breakglass_token_with_fallback lib st sv now cookie =
     (case validation_secrets st sv of
        Raise e \<Rightarrow> Raise e
      | Ok ss \<Rightarrow> Ok (decode_with_secrets lib now cookie (resolve_breakglass_jwt_audience st) (st_aud_strict st) ss))"

section \<open>The registry\<close>

definition chain_of :: "bg_row \<Rightarrow> string" where
  \<comment> \<open>\<open>ensure_breakglass_chain_id\<close>: a row without a chain is its own chain\<close>
  "chain_of r = (if strip (opt_str (bg_chain r)) = [] then bg_jti r else opt_str (bg_chain r))"

definition ensure_chain_id :: "bg_row \<Rightarrow> bg_row" where
  "ensure_chain_id r = r\<lparr>bg_chain := Some (chain_of r)\<rparr>"

definition take_uuid :: "'a sdb \<Rightarrow> string \<times> 'a sdb" where
  "take_uuid db = (uuids db (uuid_next db), db\<lparr>uuid_next := uuid_next db + 1\<rparr>)"

definition new_bg_row :: "string \<Rightarrow> string \<Rightarrow> int \<Rightarrow> int \<Rightarrow> string \<Rightarrow> bg_row" where
  "new_bg_row jti username issued expires chain =
     \<lparr>bg_jti = jti, bg_user = username, bg_issued = issued, bg_expires = expires, bg_revoked = False,
      bg_revoked_at = None, bg_revoked_by = None, bg_reason = None, bg_first_subnet = None,
      bg_first_fp = None, bg_last_subnet = None, bg_last_fp = None, bg_mismatch = None,
      bg_chain = Some chain, bg_superseded_by = None, bg_superseded_at = None, bg_chain_revoked = False\<rparr>"

definition issue_breakglass_token ::
  "jwt_lib \<Rightarrow> net_settings \<Rightarrow> (string \<Rightarrow> string) \<Rightarrow> string \<Rightarrow> string \<Rightarrow> request option \<Rightarrow> string option \<Rightarrow> 'a sdb
   \<Rightarrow> (string \<times> string) \<times> 'a sdb" where
  \<comment> \<open>a registry that cannot be reached leaves a short-lived token without a row\<close>
  "issue_breakglass_token lib cfg sha username secret rq aud db =
     (let (jti, db) = take_uuid db; now = clock db
      in if \<not> hot_up db
         then ((create_breakglass_token lib now username secret jti degraded_token_ttl_sec aud, jti), db)
         else (let row = (new_bg_row jti username now (now + seconds cookie_max_age) jti)\<lparr>bg_mismatch := Some 0\<rparr>;
                   row = (case rq of None \<Rightarrow> row | Some r \<Rightarrow> apply_breakglass_login_anchor cfg sha r row)
               in ((create_breakglass_token lib now username secret jti cookie_max_age aud, jti),
                   db\<lparr>bg_rows := bg_rows db @ [row]\<rparr>)))"

definition within_grace :: "int \<Rightarrow> bg_row \<Rightarrow> bool" where
  "within_grace now r \<longleftrightarrow>
     opt_str (bg_superseded_by r) \<noteq> [] \<and>
     (case bg_superseded_at r of None \<Rightarrow> False | Some t \<Rightarrow> now - t \<le> seconds grace_window_seconds)"

definition current_chain_tip :: "'a sdb \<Rightarrow> string \<Rightarrow> bg_row option" where
  "current_chain_tip db chain_id =
     (case sort_key (\<lambda>r. - bg_issued r)
             (filter (\<lambda>r. bg_chain r = Some chain_id \<and> bg_superseded_by r = None) (bg_rows db)) of
        [] \<Rightarrow> None
      | r # _ \<Rightarrow> Some r)"

definition mark_chain_revoked :: "string \<Rightarrow> 'a sdb \<Rightarrow> int \<times> 'a sdb" where
  "mark_chain_revoked chain_id db =
     (int (length (filter (\<lambda>r. bg_chain r = Some chain_id) (bg_rows db))),
      db\<lparr>bg_rows := update_rows (\<lambda>r. bg_chain r = Some chain_id) (\<lambda>r. r\<lparr>bg_chain_revoked := True\<rparr>) (bg_rows db)\<rparr>)"

definition is_breakglass_jti_revoked :: "'a sdb \<Rightarrow> string \<Rightarrow> bool" where
  "is_breakglass_jti_revoked db jti =
     (if jti = [] then True
      else if \<not> hot_up db then False
      else (case find_bg db jti of
              None \<Rightarrow> False
            | Some row \<Rightarrow>
                if bg_chain_revoked row \<or> bg_revoked row then True
                else opt_str (bg_superseded_by row) \<noteq> [] \<and> \<not> within_grace (clock db) row))"

definition revoke_breakglass_jti ::
  "string \<Rightarrow> string \<Rightarrow> string option \<Rightarrow> 'a sdb \<Rightarrow> (auth_error, bg_row) result \<times> 'a sdb" where
  "revoke_breakglass_jti jti revoked_by reason db =
     (if \<not> hot_up db then (Raise AuthSql, db)
      else (case find_bg db jti of
        None \<Rightarrow> (Raise SessionNotFound, db)
      | Some row \<Rightarrow>
          (let row = ensure_chain_id row;
               row = (if bg_revoked row then row
                      else row\<lparr>bg_revoked := True, bg_revoked_at := Some (clock db),
                               bg_revoked_by := Some revoked_by, bg_reason := str_opt (strip (opt_str reason))\<rparr>);
               db = snd (mark_chain_revoked (chain_of row) (put_bg db jti row))
           in (Ok (row\<lparr>bg_chain_revoked := True\<rparr>), db))))"

definition rotate_breakglass_session ::
  "jwt_lib \<Rightarrow> bg_row \<Rightarrow> claims \<Rightarrow> string \<Rightarrow> 'a sdb \<Rightarrow> (string \<times> bg_row) \<times> 'a sdb" where
  "rotate_breakglass_session lib row payload secret db =
     (let row = ensure_chain_id row;
          (jti_next, db) = take_uuid db;
          now = clock db;
          new_row = (new_bg_row jti_next (bg_user row) now (bg_expires row) (chain_of row))
            \<lparr>bg_first_subnet := bg_first_subnet row, bg_first_fp := bg_first_fp row,
             bg_last_subnet := bg_last_subnet row, bg_last_fp := bg_last_fp row,
             bg_mismatch := Some (opt_int_or (bg_mismatch row) 0)\<rparr>;
          db = put_bg db (bg_jti row) (row\<lparr>bg_superseded_by := Some jti_next, bg_superseded_at := Some now\<rparr>);
          db = db\<lparr>bg_rows := bg_rows db @ [new_row]\<rparr>
      in ((encode_breakglass_claims lib now payload secret jti_next True, new_row), db))"

section \<open>The request pipeline\<close>

record auth_result =
  ar_ok :: bool
  ar_payload :: "claims option"
  ar_set_cookie :: "string option"
  ar_username :: string
  ar_jti :: string
  ar_chain :: "string option"

definition auth_refused :: auth_result where
  "auth_refused = \<lparr>ar_ok = False, ar_payload = None, ar_set_cookie = None, ar_username = [], ar_jti = [],
     ar_chain = None\<rparr>"

definition auth_ok :: "claims \<Rightarrow> string option \<Rightarrow> string \<Rightarrow> string \<Rightarrow> string option \<Rightarrow> auth_result" where
  "auth_ok payload cookie username jti chain =
     \<lparr>ar_ok = True, ar_payload = Some payload, ar_set_cookie = cookie, ar_username = username, ar_jti = jti,
      ar_chain = chain\<rparr>"

definition process_grace ::
  "jwt_lib \<Rightarrow> net_settings \<Rightarrow> (string \<Rightarrow> string) \<Rightarrow> request \<Rightarrow> bg_row \<Rightarrow> claims \<Rightarrow> string \<Rightarrow> string \<Rightarrow> string
   \<Rightarrow> bool \<Rightarrow> 'a sdb \<Rightarrow> (auth_error, auth_result) result \<times> 'a sdb" where
  \<comment> \<open>a superseded cookie within its grace period is answered for the tip of its chain\<close>
  "process_grace lib cfg sha rq row payload username jti secret rot db =
     (let chain_id = chain_of row;
          tip = (case current_chain_tip db chain_id of Some t \<Rightarrow> t | None \<Rightarrow> row);
          db = (if rot
                then log_action username ''breakglass_cookie_grace_reuse'' (Some chain_id)
                       [(''chain_id'', JStr chain_id), (''jti_presented'', JStr jti), (''jti_current'', JStr (bg_jti tip))]
                       (str_opt (client_ip_from_request cfg rq)) db
                else db)
      in (case evaluate_breakglass_binding cfg sha rq (bg_jti tip) username db of
            (Raise e, db) \<Rightarrow> (Raise AuthSql, db)
          | (Ok False, db) \<Rightarrow> (Ok auth_refused, db)
          | (Ok True, db) \<Rightarrow>
              (if \<not> rot then (Ok (auth_ok payload None username (bg_jti tip) (Some chain_id)), db)
               else (Ok (auth_ok payload
                      (Some (encode_breakglass_claims lib (clock db) payload secret (bg_jti tip) True))
                      username (bg_jti tip) (Some chain_id)), db))))"

definition process_replay ::
  "net_settings \<Rightarrow> (string \<Rightarrow> string) \<Rightarrow> request \<Rightarrow> bg_row \<Rightarrow> string \<Rightarrow> string \<Rightarrow> 'a sdb
   \<Rightarrow> (auth_error, auth_result) result \<times> 'a sdb" where
  "process_replay cfg sha rq row username jti db =
     (let chain_id = chain_of row
      in (Ok auth_refused,
          log_action username ''breakglass_cookie_replay_detected'' (Some chain_id)
            [(''severity'', JStr ''high''), (''chain_id'', JStr chain_id), (''jti_presented'', JStr jti),
             (''username'', JStr username), (''fingerprint'', JStr (fingerprint_from_request sha rq)),
             (''superseded_by'', jopt (bg_superseded_by row))]
            (str_opt (client_ip_from_request cfg rq)) (snd (mark_chain_revoked chain_id db))))"

definition process_current ::
  "jwt_lib \<Rightarrow> net_settings \<Rightarrow> (string \<Rightarrow> string) \<Rightarrow> request \<Rightarrow> bg_row \<Rightarrow> claims \<Rightarrow> string \<Rightarrow> string \<Rightarrow> string
   \<Rightarrow> bool \<Rightarrow> 'a sdb \<Rightarrow> (auth_error, auth_result) result \<times> 'a sdb" where
  "process_current lib cfg sha rq row payload username jti secret rot db =
     (let chain_id = chain_of row
      in (case evaluate_breakglass_binding cfg sha rq jti username db of
            (Raise e, db) \<Rightarrow> (Ok (auth_ok payload None username jti (Some chain_id)), db)
          | (Ok False, db) \<Rightarrow> (Ok auth_refused, db)
          | (Ok True, db) \<Rightarrow>
              (if \<not> rot then (Ok (auth_ok payload None username jti (Some chain_id)), db)
               else (case find_bg db jti of
                       None \<Rightarrow> (Ok auth_refused, db)
                     | Some row \<Rightarrow>
                         (if opt_str (bg_superseded_by row) \<noteq> [] \<or> bg_chain_revoked row \<or> bg_revoked row
                          then (Ok auth_refused, db)
                          else (let ((token, new_row), db) = rotate_breakglass_session lib row payload secret db
                                in (Ok (auth_ok payload (Some token) username (bg_jti new_row) (Some chain_id)),
                                    db)))))))"

definition process_row ::
  "jwt_lib \<Rightarrow> bg_settings \<Rightarrow> secret_view \<Rightarrow> (string \<Rightarrow> string) \<Rightarrow> request \<Rightarrow> bg_row \<Rightarrow> claims \<Rightarrow> string \<Rightarrow> string
   \<Rightarrow> bool \<Rightarrow> 'a sdb \<Rightarrow> (auth_error, auth_result) result \<times> 'a sdb" where
  \<comment> \<open>the pipeline once the row of the token is known\<close>
  "process_row lib st sv sha rq row payload username jti rot db =
     (if bg_chain_revoked row \<or> bg_revoked row then (Ok auth_refused, db)
      else (case resolve_signing_secret st sv of
              Raise e \<Rightarrow> (Raise e, db)
            | Ok (secret, _) \<Rightarrow>
                (if bg_superseded_by row \<noteq> None
                 then (if within_grace (clock db) row
                       then process_grace lib (st_net st) sha rq row payload username jti secret rot db
                       else process_replay (st_net st) sha rq row username jti db)
                 else process_current lib (st_net st) sha rq row payload username jti secret rot db)))"

definition process_breakglass_auth_request ::
  "jwt_lib \<Rightarrow> bg_settings \<Rightarrow> secret_view \<Rightarrow> (string \<Rightarrow> string) \<Rightarrow> request \<Rightarrow> string \<Rightarrow> bool \<Rightarrow> 'a sdb
   \<Rightarrow> (auth_error, auth_result) result \<times> 'a sdb" where
  "process_breakglass_auth_request lib st sv sha rq cookie rot db =
     (case decode_breakglass_token_with_fallback lib st sv (clock db) cookie of
        Raise e \<Rightarrow> (Raise e, db)
      | Ok None \<Rightarrow> (Ok auth_refused, db)
      | Ok (Some (payload, _)) \<Rightarrow>
          (let jti = opt_str (cl_jti payload);
               username = (if opt_str (cl_sub payload) = [] then ''breakglass'' else opt_str (cl_sub payload))
           in if jti = [] then (Ok auth_refused, db)
              else if \<not> hot_up db then (Ok (auth_ok payload None username jti None), db)
              else (case find_bg db jti of
                      None \<Rightarrow> (Ok (auth_ok payload None username jti None), db)
                    | Some row \<Rightarrow> process_row lib st sv sha rq (ensure_chain_id row) payload username jti rot
                                    (put_bg db jti (ensure_chain_id row)))))"

definition jti_allowed :: "'a sdb \<Rightarrow> claims \<Rightarrow> bool" where
  "jti_allowed db payload \<longleftrightarrow> opt_str (cl_jti payload) \<noteq> [] \<and> \<not> is_breakglass_jti_revoked db (opt_str (cl_jti payload))"

definition validate_breakglass_cookie ::
  "jwt_lib \<Rightarrow> bg_settings \<Rightarrow> secret_view \<Rightarrow> string \<Rightarrow> 'a sdb \<Rightarrow> (auth_error, bool) result" where
  "validate_breakglass_cookie lib st sv cookie db =
     (case decode_breakglass_token_with_fallback lib st sv (clock db) cookie of
        Raise e \<Rightarrow> Raise e
      | Ok None \<Rightarrow> Ok False
      | Ok (Some (payload, _)) \<Rightarrow> Ok (jti_allowed db payload))"

section \<open>Logout, login, purge, listing\<close>

fun decode_for_revocation ::
  "jwt_lib \<Rightarrow> int \<Rightarrow> string \<Rightarrow> (string \<times> secret_source) list \<Rightarrow> claims option" where
  \<comment> \<open>the signature alone: an idle or expired cookie can still be revoked\<close>
  "decode_for_revocation lib now cookie [] = None"
| "decode_for_revocation lib now cookie ((secret, _) # rest) =
     (case jw_decode lib False now cookie secret of
        Some payload \<Rightarrow> if cl_type payload = Some ''bg'' then Some payload
                        else decode_for_revocation lib now cookie rest
      | None \<Rightarrow> decode_for_revocation lib now cookie rest)"

definition revoke_session_from_request ::
  "jwt_lib \<Rightarrow> bg_settings \<Rightarrow> secret_view \<Rightarrow> string option \<Rightarrow> 'a sdb \<Rightarrow> (auth_error, string) result \<times> 'a sdb" where
  "revoke_session_from_request lib st sv cookie db =
     (if opt_str cookie = [] then (Ok ''unknown'', db)
      else (case validation_secrets st sv of
              Raise e \<Rightarrow> (Raise e, db)
            | Ok ss \<Rightarrow>
                (case decode_for_revocation lib (clock db) (opt_str cookie) ss of
                   None \<Rightarrow> (Ok ''unknown'', db)
                 | Some payload \<Rightarrow>
                     (let username = (if opt_str (cl_sub payload) = [] then ''unknown'' else opt_str (cl_sub payload));
                          jti = opt_str (cl_jti payload)
                      in if jti = [] then (Ok username, db)
                         else (case revoke_breakglass_jti jti username (Some ''logout'') db of
                                 (Raise SessionNotFound, db) \<Rightarrow> (Ok username, db)
                               | (Raise e, db) \<Rightarrow> (Raise e, db)
                               | (Ok _, db) \<Rightarrow> (Ok username, db))))))"

definition deny_breakglass_if_ip_blocked ::
  "bg_settings \<Rightarrow> string \<Rightarrow> string \<Rightarrow> 'a sdb \<Rightarrow> (auth_error, unit) result \<times> 'a sdb" where
  "deny_breakglass_if_ip_blocked st username client_ip db =
     (let (ok, db) = is_breakglass_ip_allowed db client_ip (st_rfc1918 st)
      in if ok then (Ok (), db)
         else (Raise AuthForbidden,
               log_action username ''breakglass.login_denied_non_lan'' None
                 [(''reason'', JStr ''breakglass_ip_not_allowed''), (''via'', JStr ''api'')] (str_opt client_ip) db))"

definition breakglass_login ::
  "jwt_lib \<Rightarrow> bg_settings \<Rightarrow> secret_view \<Rightarrow> (string \<Rightarrow> string) \<Rightarrow> (string \<Rightarrow> string \<Rightarrow> bool) \<Rightarrow> (string \<Rightarrow> bool)
   \<Rightarrow> request \<Rightarrow> string \<Rightarrow> string \<Rightarrow> 'a sdb \<Rightarrow> (auth_error, string) result \<times> 'a sdb" where
  \<comment> \<open>the result is the cookie; \<open>verify\<close> checks the password, \<open>exists\<close> finds the account (for the journal)\<close>
  "breakglass_login lib st sv sha verify exists rq username password db =
     (case resolve_signing_secret st sv of
        Raise e \<Rightarrow> (Raise SecretUnavailable, db)
      | Ok (signing, _) \<Rightarrow>
          (let client_ip = client_ip_from_request (st_net st) rq
           in bind_res (deny_breakglass_if_ip_blocked st username client_ip db) (\<lambda>_ db.
              let (pre, db) = evaluate_login_attempt client_ip username True db
              in if \<not> le_allowed pre then (Raise AuthForbidden, db)
                 else if \<not> verify username password
                 then (let (_, db) = evaluate_login_attempt client_ip username False db
                       in (Raise InvalidCredentials,
                           log_action username ''breakglass.login_failed'' None
                             [(''via'', JStr ''api''),
                              (''reason'', JStr (if exists username then ''bad_password'' else ''unknown_username'')),
                              (''user_agent'', jopt (str_opt (take 160 (header_or rq ''user-agent''))))]
                             (str_opt client_ip) db))
                 else (let ((token, jti), db) = issue_breakglass_token lib (st_net st) sha username signing (Some rq)
                                (Some (resolve_breakglass_jwt_audience st)) db;
                           (_, db) = record_successful_login client_ip username db
                       in (Ok token,
                           log_action username ''breakglass.login'' None [(''jti'', JStr jti)] (str_opt client_ip) db)))))"

definition chain_key :: "bg_row \<Rightarrow> string" where
  \<comment> \<open>\<open>_chain_key\<close>: SQL \<open>trim\<close> removes blanks only\<close>
  "chain_key r =
     (let c = rstrip_char (CHR '' '') (dropWhile (\<lambda>x. x = CHR '' '') (opt_str (bg_chain r)))
      in if c = [] then bg_jti r else c)"

definition listing_chain :: "bg_row \<Rightarrow> string" where
  "listing_chain r =
     (let c = strip (if opt_str (bg_chain r) = [] then bg_jti r else opt_str (bg_chain r))
      in if c = [] then bg_jti r else c)"

definition purge_expired_breakglass_sessions :: "int \<Rightarrow> 'a sdb \<Rightarrow> (auth_error, int) result \<times> 'a sdb" where
  \<comment> \<open>whole chains whose newest expiry is older than the retention\<close>
  "purge_expired_breakglass_sessions retention_days db =
     (if \<not> hot_up db then (Raise AuthSql, db)
      else (let cutoff = clock db - seconds (max 0 retention_days * 86400);
                stale = (\<lambda>r. list_all (\<lambda>m. bg_expires m < cutoff)
                               (filter (\<lambda>m. chain_key m = chain_key r) (bg_rows db)))
            in (Ok (int (length (filter stale (bg_rows db)))),
                db\<lparr>bg_rows := filter (\<lambda>r. \<not> stale r) (bg_rows db)\<rparr>)))"

datatype chain_status = ChainRevoked | ChainExpired | ChainActive

record chain_entry =
  ce_chain :: string
  ce_user :: string
  ce_rotations :: nat
  ce_jti :: string
  ce_issued :: int
  ce_expires :: int
  ce_status :: chain_status

definition breakglass_chain_entry :: "int \<Rightarrow> string \<Rightarrow> bg_row list \<Rightarrow> chain_entry option" where
  "breakglass_chain_entry now chain_id members =
     (case members of
        [] \<Rightarrow> None
      | first # _ \<Rightarrow>
          (let tip = (case first_row (\<lambda>m. opt_str (bg_superseded_by m) = []) (rev members) of
                        Some t \<Rightarrow> t | None \<Rightarrow> List.last members);
               max_exp = foldr (\<lambda>m. max (bg_expires m)) members (bg_expires first)
           in Some \<lparr>ce_chain = chain_id, ce_user = (if bg_user tip = [] then bg_user first else bg_user tip),
                    ce_rotations = length members - 1, ce_jti = bg_jti tip, ce_issued = bg_issued first,
                    ce_expires = max_exp,
                    ce_status = (if list_ex bg_chain_revoked members then ChainRevoked
                                 else if max_exp \<le> now then ChainExpired else ChainActive)\<rparr>))"

definition list_breakglass_chains :: "bool \<Rightarrow> int \<Rightarrow> 'a sdb \<Rightarrow> chain_entry list" where
  "list_breakglass_chains include_expired limit db =
     (let rows = sort_key bg_issued (bg_rows db);
          ids = dedup_from [] (map listing_chain rows);
          chains = List.map_filter (\<lambda>cid. breakglass_chain_entry (clock db) cid (filter (\<lambda>r. listing_chain r = cid) rows)) ids;
          kept = filter (\<lambda>e. include_expired \<or> ce_status e = ChainActive) chains
      in take (nat (max 1 (min limit 500))) (sort_key (\<lambda>e. - ce_issued e) kept))"

lemmas breakglass_defs [py_defs] =
  jwt_audience_matches_def resolve_breakglass_jwt_audience_def first_secret_def resolve_signing_secret_def
  validation_secrets_def create_breakglass_token_def encode_breakglass_claims_def
  decode_breakglass_token_def decode_breakglass_token_with_fallback_def chain_of_def ensure_chain_id_def
  take_uuid_def new_bg_row_def issue_breakglass_token_def within_grace_def current_chain_tip_def
  mark_chain_revoked_def is_breakglass_jti_revoked_def revoke_breakglass_jti_def
  rotate_breakglass_session_def auth_refused_def auth_ok_def process_grace_def process_replay_def
  process_current_def process_row_def process_breakglass_auth_request_def jti_allowed_def
  validate_breakglass_cookie_def revoke_session_from_request_def deny_breakglass_if_ip_blocked_def
  breakglass_login_def chain_key_def listing_chain_def purge_expired_breakglass_sessions_def breakglass_chain_entry_def
  list_breakglass_chains_def

end
