(* ===== verification/OidcSession.thy ===== *)
theory OidcSession
  imports Presence Breakglass
begin

text \<open>
  Native portal sessions: the registry and the cookie of \<open>app/auth/oidc_bff.py\<close>, the audience of
  \<open>app/auth/jwt_audience.py\<close>, the signing key of \<open>app/auth/oidc_bff_config_service.py\<close> and the pilot gate of
  \<open>app/auth/oidc_native_session.py\<close>. A cookie is a signed token whose \<open>jti\<close> names a row of the registry.

  The token library is the parameter \<open>lib\<close>; a payload is a JSON object. The keys other than the environment's
  (the process cache, the portal settings) are given by their values. The registry lives in the hot store.
\<close>

record oidc_row =
  os_jti :: string
  os_sub :: string
  os_user :: "string option"
  os_realm :: string
  os_issued :: int
  os_expires :: int
  os_revoked :: bool
  os_revoked_at :: "int option"
  os_revoked_by :: "string option"
  os_reason :: "string option"

record gate_db = presence_db +
  oidc_rows :: "oidc_row list"

type_synonym 'a gdb = "'a gate_db_scheme"

lemma log_action_oidc [frame, simp]: "oidc_rows (log_action a b c d i db) = oidc_rows db"
  by (simp add: log_action_def split: prod.split)

record oidc_lib =
  ol_encode :: "details \<Rightarrow> string \<Rightarrow> string"
  ol_decode :: "bool \<Rightarrow> int \<Rightarrow> string \<Rightarrow> string \<Rightarrow> details option"
    \<comment> \<open>whether the expiry is checked, the instant, the token, the key\<close>

record portal_settings =
  ps_secret :: string
  ps_cached :: "string option"
  ps_stored :: "string option"
  ps_audience :: "string option"
  ps_aud_strict :: bool
  ps_cookie :: string
  ps_native :: string
  ps_bypass :: bool
  ps_cidrs :: "string list"
  ps_cache_ttl :: int
  ps_default_realm :: string
  ps_net :: net_settings

record oidc_claims =
  oc_sub :: string
  oc_user :: "string option"
  oc_realm :: string
  oc_jti :: string
  oc_exp :: int
  oc_groups :: "string list"
  oc_email :: "string option"
  oc_sid :: "string option"

definition default_oidc_audience :: string where "default_oidc_audience = ''bastion-portal''"

definition resolve_oidc_session_jwt_audience :: "portal_settings \<Rightarrow> string" where
  "resolve_oidc_session_jwt_audience ps =
     (let raw = strip (opt_str (ps_audience ps)) in if raw = [] then default_oidc_audience else raw)"

definition resolve_oidc_session_jwt_secret :: "portal_settings \<Rightarrow> string" where
  "resolve_oidc_session_jwt_secret ps =
     (let env = strip (ps_secret ps)
      in if env \<noteq> [] then env
         else if opt_str (ps_cached ps) \<noteq> [] then opt_str (ps_cached ps)
         else opt_str (ps_stored ps))"

section \<open>Tokens\<close>

definition create_oidc_session_token ::
  "oidc_lib \<Rightarrow> int \<Rightarrow> string \<Rightarrow> string option \<Rightarrow> string \<Rightarrow> string \<Rightarrow> string \<Rightarrow> int \<Rightarrow> string list \<Rightarrow> string option
   \<Rightarrow> string option \<Rightarrow> string option \<Rightarrow> string" where
  "create_oidc_session_token lib now sub username realm jti secret max_age gs email aud kc_sid =
     ol_encode lib
       ([(''sub'', JStr sub), (''username'', jopt username), (''realm'', JStr realm), (''jti'', JStr jti),
         (''iat'', JInt (now div 1000000)), (''exp'', JInt ((now + seconds max_age) div 1000000)),
         (''type'', JStr ''oidc''),
         (''aud'', JStr (strip (if opt_str aud = [] then default_oidc_audience else opt_str aud))),
         (''groups'', JList (map JStr (filter (\<lambda>g. strip g \<noteq> []) gs)))] @
        (if opt_str email \<noteq> [] then [(''email'', jopt email)] else []) @
        (if opt_str kc_sid \<noteq> [] then [(''sid'', jopt kc_sid)] else [])) secret"

fun group_text :: "jval \<Rightarrow> string option" where
  \<comment> \<open>\<open>str(g)\<close> for a text or an integer\<close>
  "group_text (JStr s) = Some s"
| "group_text (JInt i) = Some (show_int i)"
| "group_text (JBool b) = Some (if b then ''True'' else ''False'')"
| "group_text _ = None"

definition parse_oidc_groups :: "jval option \<Rightarrow> string list" where
  "parse_oidc_groups raw =
     (case raw of
        Some (JList xs) \<Rightarrow> filter (\<lambda>g. g \<noteq> []) (map strip (List.map_filter group_text xs))
      | Some (JStr s) \<Rightarrow> (if strip s = [] then [] else filter (\<lambda>g. g \<noteq> []) (map strip (split_on (CHR '','') s)))
      | _ \<Rightarrow> [])"

definition text_claim :: "details \<Rightarrow> string \<Rightarrow> string option" where
  \<comment> \<open>a claim that must be a text\<close>
  "text_claim payload k = (case map_of payload k of Some (JStr s) \<Rightarrow> Some s | _ \<Rightarrow> None)"

definition int_claim :: "details \<Rightarrow> string \<Rightarrow> int option" where
  \<comment> \<open>\<open>isinstance(v, int)\<close>, which a boolean satisfies\<close>
  "int_claim payload k =
     (case map_of payload k of Some (JInt i) \<Rightarrow> Some i | Some (JBool b) \<Rightarrow> Some (if b then 1 else 0) | _ \<Rightarrow> None)"

definition oidc_claims_from_payload :: "details \<Rightarrow> oidc_claims option" where
  "oidc_claims_from_payload payload =
     (let jti = opt_str (text_claim payload ''jti''); sub = opt_str (text_claim payload ''sub'');
          realm = opt_str (text_claim payload ''realm'')
      in if jti = [] \<or> sub = [] \<or> realm = [] then None
         else (case int_claim payload ''exp'' of
                 None \<Rightarrow> None
               | Some exp \<Rightarrow>
                   Some \<lparr>oc_sub = sub, oc_user = text_claim payload ''username'', oc_realm = realm, oc_jti = jti,
                         oc_exp = exp, oc_groups = parse_oidc_groups (map_of payload ''groups''),
                         oc_email = str_opt (strip (opt_str (text_claim payload ''email''))),
                         oc_sid = str_opt (opt_str (text_claim payload ''sid''))\<rparr>))"

definition audience_claim :: "details \<Rightarrow> audience" where
  \<comment> \<open>the shapes \<open>jwt_audience_matches\<close> tells apart\<close>
  "audience_claim payload =
     (case map_of payload ''aud'' of
        None \<Rightarrow> NoAud | Some JNull \<Rightarrow> NoAud | Some (JStr s) \<Rightarrow> AudText s
      | Some (JList xs) \<Rightarrow> AudList (List.map_filter (\<lambda>v. case v of JStr s \<Rightarrow> Some s | _ \<Rightarrow> None) xs)
      | Some _ \<Rightarrow> AudOther)"

section \<open>The registry\<close>

definition find_oidc :: "'a gdb \<Rightarrow> string \<Rightarrow> oidc_row option" where
  "find_oidc db jti = first_row (\<lambda>r. os_jti r = jti) (oidc_rows db)"

definition register_oidc_session ::
  "string \<Rightarrow> string \<Rightarrow> string option \<Rightarrow> string \<Rightarrow> int \<Rightarrow> int \<Rightarrow> 'a gdb \<Rightarrow> (db_error, oidc_row) result \<times> 'a gdb" where
  "register_oidc_session jti sub username realm expires issued db =
     (if \<not> hot_up db then (Raise SqlError, db)
      else (let row = \<lparr>os_jti = jti, os_sub = sub, os_user = username, os_realm = realm, os_issued = issued,
                       os_expires = expires, os_revoked = False, os_revoked_at = None, os_revoked_by = None,
                       os_reason = None\<rparr>
            in (Ok row, db\<lparr>oidc_rows := oidc_rows db @ [row]\<rparr>)))"

definition issue_oidc_session ::
  "oidc_lib \<Rightarrow> string \<Rightarrow> string option \<Rightarrow> string \<Rightarrow> string \<Rightarrow> int \<Rightarrow> string list \<Rightarrow> string option \<Rightarrow> string option
   \<Rightarrow> string option \<Rightarrow> 'a gdb \<Rightarrow> (db_error, string \<times> string) result \<times> 'a gdb" where
  "issue_oidc_session lib sub username realm secret max_age gs email aud kc_sid db =
     (let (jti, db) = take_uuid db;
          token = create_oidc_session_token lib (clock db) sub username realm jti secret max_age gs email aud kc_sid
      in case register_oidc_session jti sub username realm (clock db + seconds max_age) (clock db) db of
           (Raise e, db) \<Rightarrow> (Raise e, db)
         | (Ok _, db) \<Rightarrow> (Ok (token, jti), db))"

definition revoke_values :: "string \<Rightarrow> string \<Rightarrow> int \<Rightarrow> oidc_row \<Rightarrow> oidc_row" where
  "revoke_values revoked_by reason now r =
     r\<lparr>os_revoked := True, os_revoked_at := Some now, os_revoked_by := Some revoked_by, os_reason := Some reason\<rparr>"

definition purge_expired_oidc_sessions :: "'a gdb \<Rightarrow> (db_error, nat) result \<times> 'a gdb" where
  "purge_expired_oidc_sessions db =
     (if \<not> hot_up db then (Raise SqlError, db)
      else (let old = (\<lambda>r. \<not> os_revoked r \<and> os_expires r \<le> clock db)
            in (Ok (length (filter old (oidc_rows db))),
                db\<lparr>oidc_rows := update_rows old (revoke_values ''system'' ''expired'' (clock db)) (oidc_rows db)\<rparr>)))"

definition is_oidc_jti_revoked :: "'a gdb \<Rightarrow> string \<Rightarrow> (db_error, bool) result" where
  "is_oidc_jti_revoked db jti =
     (if jti = [] then Ok True
      else if \<not> hot_up db then Raise SqlError
      else (case find_oidc db jti of
              None \<Rightarrow> Ok True
            | Some row \<Rightarrow> Ok (os_revoked row \<or> os_expires row \<le> clock db)))"

datatype revoke_error = OidcNotFound | RevokeSql

definition revoke_oidc_jti ::
  "string \<Rightarrow> string \<Rightarrow> string option \<Rightarrow> 'a gdb \<Rightarrow> (revoke_error, unit) result \<times> 'a gdb" where
  "revoke_oidc_jti jti revoked_by reason db =
     (if \<not> hot_up db then (Raise RevokeSql, db)
      else (case find_oidc db jti of
              None \<Rightarrow> (Raise OidcNotFound, db)
            | Some row \<Rightarrow>
                (Ok (), if os_revoked row then db
                        else db\<lparr>oidc_rows := update_rows (\<lambda>r. os_jti r = jti)
                               (\<lambda>r. r\<lparr>os_revoked := True, os_revoked_at := Some (clock db), os_revoked_by := Some revoked_by,
                                     os_reason := str_opt (strip (opt_str reason))\<rparr>) (oidc_rows db)\<rparr>)))"

section \<open>Cookies\<close>

definition validate_oidc_session_cookie ::
  "oidc_lib \<Rightarrow> portal_settings \<Rightarrow> 'a gdb \<Rightarrow> string \<Rightarrow> (db_error, oidc_claims option) result" where
  "validate_oidc_session_cookie lib ps db cookie =
     (let key = resolve_oidc_session_jwt_secret ps
      in if cookie = [] \<or> key = [] then Ok None
         else (case ol_decode lib True (clock db) cookie key of
                 None \<Rightarrow> Ok None
               | Some payload \<Rightarrow>
                   (if map_of payload ''type'' \<noteq> Some (JStr ''oidc'') then Ok None
                    else if \<not> jwt_audience_matches (audience_claim payload) (resolve_oidc_session_jwt_audience ps) (ps_aud_strict ps)
                    then Ok None
                    else (case oidc_claims_from_payload payload of
                            None \<Rightarrow> Ok None
                          | Some c \<Rightarrow>
                              (case is_oidc_jti_revoked db (oc_jti c) of
                                 Raise e \<Rightarrow> Raise e
                               | Ok revoked \<Rightarrow> Ok (if revoked then None else Some c))))))"

definition unverified_oidc_payload :: "oidc_lib \<Rightarrow> portal_settings \<Rightarrow> 'a gdb \<Rightarrow> string \<Rightarrow> details option" where
  "unverified_oidc_payload lib ps db raw =
     (let key = resolve_oidc_session_jwt_secret ps
      in if key = [] then None
         else (case ol_decode lib False (clock db) raw key of
                 None \<Rightarrow> None
               | Some payload \<Rightarrow> if map_of payload ''type'' = Some (JStr ''oidc'') then Some payload else None))"

definition realm_slug_from_oidc_cookie :: "oidc_lib \<Rightarrow> portal_settings \<Rightarrow> 'a gdb \<Rightarrow> string \<Rightarrow> string option" where
  "realm_slug_from_oidc_cookie lib ps db raw =
     (case unverified_oidc_payload lib ps db raw of
        None \<Rightarrow> None | Some payload \<Rightarrow> str_opt (strip (opt_str (text_claim payload ''realm''))))"

definition actor_jti_from_unverified :: "oidc_lib \<Rightarrow> portal_settings \<Rightarrow> 'a gdb \<Rightarrow> string \<Rightarrow> string \<times> string option" where
  \<comment> \<open>for payloads whose user name and subject are texts\<close>
  "actor_jti_from_unverified lib ps db raw =
     (case unverified_oidc_payload lib ps db raw of
        None \<Rightarrow> (''unknown'', None)
      | Some payload \<Rightarrow>
          (let u = opt_str (text_claim payload ''username''); s = opt_str (text_claim payload ''sub'')
           in (if u \<noteq> [] then u else if s \<noteq> [] then s else ''unknown'', text_claim payload ''jti'')))"

definition revoke_oidc_session_from_request ::
  "oidc_lib \<Rightarrow> portal_settings \<Rightarrow> web_request \<Rightarrow> 'a gdb \<Rightarrow> (db_error, string) result \<times> 'a gdb" where
  "revoke_oidc_session_from_request lib ps rq db =
     (let raw = opt_str (map_of (rq_cookies rq) (ps_cookie ps))
      in if raw = [] then (Ok ''unknown'', db)
         else (case validate_oidc_session_cookie lib ps db raw of
                 Raise e \<Rightarrow> (Raise e, db)
               | Ok v \<Rightarrow>
                   (let (actor, jti) = (case v of
                            Some c \<Rightarrow> (if opt_str (oc_user c) \<noteq> [] then opt_str (oc_user c) else oc_sub c, Some (oc_jti c))
                          | None \<Rightarrow> actor_jti_from_unverified lib ps db raw)
                    in if opt_str jti = [] then (Ok actor, db)
                       else (case revoke_oidc_jti (opt_str jti) actor (Some ''logout'') db of
                               (Raise RevokeSql, db) \<Rightarrow> (Raise SqlError, db)
                             | (Raise OidcNotFound, db) \<Rightarrow> (Ok actor, db)
                             | (Ok _, db) \<Rightarrow> (Ok actor, db)))))"

section \<open>The pilot gate\<close>

definition parse_oidc_native_session_enabled_realms :: "portal_settings \<Rightarrow> string list" where
  "parse_oidc_native_session_enabled_realms ps =
     (let raw = strip (ps_native ps)
      in if raw = [] then [] else map (\<lambda>p. lower (strip p)) (filter (\<lambda>p. strip p \<noteq> []) (split_on (CHR '','') raw)))"

definition is_oidc_native_session_enabled_for_realm :: "'a pdb \<Rightarrow> string option \<Rightarrow> portal_settings \<Rightarrow> bool" where
  "is_oidc_native_session_enabled_for_realm db realm_slug ps =
     (let slug = strip (opt_str realm_slug)
      in if slug = [] then False
         else if lower slug \<in> set (parse_oidc_native_session_enabled_realms ps) then True
         else (case find_realm db (Some slug) of None \<Rightarrow> False | Some r \<Rightarrow> rl_native r))"

definition is_oidc_mfa_enabled_for_realm :: "'a pdb \<Rightarrow> string option \<Rightarrow> realm_row option \<Rightarrow> bool" where
  "is_oidc_mfa_enabled_for_realm db realm_slug realm =
     (case (case realm of Some r \<Rightarrow> Some r | None \<Rightarrow> find_realm db realm_slug) of None \<Rightarrow> False | Some r \<Rightarrow> rl_mfa r)"

definition set_oidc_native_session_enabled :: "int \<Rightarrow> bool \<Rightarrow> 'a pdb \<Rightarrow> bool \<times> 'a pdb" where
  "set_oidc_native_session_enabled rid wanted db =
     (case first_row (\<lambda>r. rl_id r = rid) (realms db) of
        None \<Rightarrow> (False, db)
      | Some r \<Rightarrow> (if rl_native r = wanted then (False, db)
                   else (True, db\<lparr>realms := update_rows (\<lambda>r. rl_id r = rid) (\<lambda>r. r\<lparr>rl_native := wanted\<rparr>) (realms db)\<rparr>)))"

definition set_oidc_mfa_enabled :: "int \<Rightarrow> bool \<Rightarrow> 'a pdb \<Rightarrow> bool \<times> 'a pdb" where
  "set_oidc_mfa_enabled rid wanted db =
     (case first_row (\<lambda>r. rl_id r = rid) (realms db) of
        None \<Rightarrow> (False, db)
      | Some r \<Rightarrow> (if rl_mfa r = wanted then (False, db)
                   else (True, db\<lparr>realms := update_rows (\<lambda>r. rl_id r = rid) (\<lambda>r. r\<lparr>rl_mfa := wanted\<rparr>) (realms db)\<rparr>)))"

lemmas oidc_defs [py_defs] =
  default_oidc_audience_def resolve_oidc_session_jwt_audience_def resolve_oidc_session_jwt_secret_def
  create_oidc_session_token_def parse_oidc_groups_def text_claim_def int_claim_def oidc_claims_from_payload_def
  audience_claim_def find_oidc_def register_oidc_session_def issue_oidc_session_def revoke_values_def
  purge_expired_oidc_sessions_def is_oidc_jti_revoked_def revoke_oidc_jti_def validate_oidc_session_cookie_def
  unverified_oidc_payload_def realm_slug_from_oidc_cookie_def actor_jti_from_unverified_def
  revoke_oidc_session_from_request_def parse_oidc_native_session_enabled_realms_def
  is_oidc_native_session_enabled_for_realm_def is_oidc_mfa_enabled_for_realm_def
  set_oidc_native_session_enabled_def set_oidc_mfa_enabled_def

section \<open>What the registry promises\<close>

definition oidc_ended :: "'a gdb \<Rightarrow> string \<Rightarrow> bool" where
  "oidc_ended db jti \<longleftrightarrow> (\<exists>r. find_oidc db jti = Some r \<and> os_revoked r)"

inductive oidc_step :: "'a gdb \<Rightarrow> 'a gdb \<Rightarrow> bool" where
  issue: "issue_oidc_session lib sub u realm secret max_age gs email aud sid db = (res, db') \<Longrightarrow> oidc_step db db'"
| revoke: "revoke_oidc_jti jti w reason db = (ans, db') \<Longrightarrow> oidc_step db db'"
| purge: "purge_expired_oidc_sessions db = (n, db') \<Longrightarrow> oidc_step db db'"
| logout: "revoke_oidc_session_from_request lib ps rq db = (out, db') \<Longrightarrow> oidc_step db db'"
| other: "oidc_rows db' = oidc_rows db \<Longrightarrow> oidc_step db db'"
  \<comment> \<open>the other components and the passing of time\<close>

definition ends_only :: "oidc_row list \<Rightarrow> oidc_row list \<Rightarrow> bool" where
  \<comment> \<open>rows are marked and appended, a revoked row stays revoked\<close>
  "ends_only rows rows' \<longleftrightarrow>
     (\<exists>f extra. rows' = map f rows @ extra \<and> (\<forall>r \<in> set rows. os_jti (f r) = os_jti r \<and> (os_revoked r \<longrightarrow> os_revoked (f r))))"

lemma ends_only_refl: "ends_only rows rows"
  unfolding ends_only_def by (intro exI [of _ id] exI [of _ "[]"]) simp

lemma ends_only_append: "ends_only rows (rows @ extra)"
  unfolding ends_only_def by (intro exI [of _ id] exI [of _ extra]) simp

lemma ends_only_update:
  "(\<And>r. os_jti (f r) = os_jti r \<and> (os_revoked r \<longrightarrow> os_revoked (f r))) \<Longrightarrow> ends_only rows (update_rows p f rows)"
  unfolding ends_only_def update_rows_def
  by (intro exI [of _ "\<lambda>r. if p r then f r else r"] exI [of _ "[]"]) simp

lemma revoke_jti_rows: "ends_only (oidc_rows db) (oidc_rows (snd (revoke_oidc_jti jti w reason db)))"
  by (auto simp: revoke_oidc_jti_def ends_only_refl intro!: ends_only_update split: option.split)

lemma logout_rows: "ends_only (oidc_rows db) (oidc_rows (snd (revoke_oidc_session_from_request lib ps rq db)))"
proof -
  have "snd (revoke_oidc_session_from_request lib ps rq db) = db \<or>
      (\<exists>jti w. snd (revoke_oidc_session_from_request lib ps rq db) = snd (revoke_oidc_jti jti w (Some ''logout'') db))"
    unfolding revoke_oidc_session_from_request_def Let_def case_prod_beta
    by (auto split: result.split revoke_error.split prod.split)
  then show ?thesis using revoke_jti_rows ends_only_refl by metis
qed

lemma step_rows: "oidc_step db db' \<Longrightarrow> ends_only (oidc_rows db) (oidc_rows db')"
proof (induction rule: oidc_step.induct)
  case (issue lib sub u realm secret max_age gs email aud sid db res db')
  then show ?case
    by (auto simp: issue_oidc_session_def register_oidc_session_def take_uuid_def Let_def ends_only_refl ends_only_append
        split: if_splits)
next
  case (revoke jti w reason db ans db')
  then show ?case using revoke_jti_rows [of db jti w reason] by simp
next
  case (purge db n db')
  then show ?case
    by (auto simp: purge_expired_oidc_sessions_def Let_def ends_only_refl revoke_values_def intro!: ends_only_update split: if_splits)
next
  case (logout lib ps rq db out db')
  then show ?case using logout_rows [of db lib ps rq] by simp
next
  case (other db' db)
  then show ?case by (simp add: ends_only_refl)
qed

lemma first_row_map:
  "(\<forall>r \<in> set rows. key (f r) = key r) \<Longrightarrow> first_row (\<lambda>r. key r = k) (map f rows) = map_option f (first_row (\<lambda>r. key r = k) rows)"
  by (induction rows) (auto simp: first_row_cases)

lemma first_row_update:
  "(\<And>r. key (f r) = key r) \<Longrightarrow>
   first_row (\<lambda>r. key r = k) (update_rows (\<lambda>r. key r = k) f rows) = map_option f (first_row (\<lambda>r. key r = k) rows)"
  by (induction rows) (auto simp: update_rows_def first_row_cases)

lemma first_row_later: "\<forall>r \<in> set rows. \<not> p r \<Longrightarrow> first_row p (rows @ qs) = first_row p qs"
  by (induction rows) (auto simp: first_row_cases)

lemma ended_rows:
  assumes "ends_only (oidc_rows db) (oidc_rows db')" and "oidc_ended db jti"
  shows "oidc_ended db' jti"
proof -
  obtain f extra where f: "oidc_rows db' = map f (oidc_rows db) @ extra"
    "\<forall>r \<in> set (oidc_rows db). os_jti (f r) = os_jti r \<and> (os_revoked r \<longrightarrow> os_revoked (f r))"
    using assms(1) unfolding ends_only_def by blast
  obtain r where r: "first_row (\<lambda>r. os_jti r = jti) (oidc_rows db) = Some r" "os_revoked r"
    using assms(2) by (auto simp: oidc_ended_def find_oidc_def)
  have "first_row (\<lambda>r. os_jti r = jti) (map f (oidc_rows db)) = Some (f r)"
    using first_row_map [of "oidc_rows db" os_jti f jti] f(2) r(1) by simp
  then have "find_oidc db' jti = Some (f r)" by (simp add: find_oidc_def f(1) first_row_append)
  moreover have "os_revoked (f r)" using f(2) r first_row_Some [OF r(1)] by blast
  ultimately show ?thesis by (simp add: oidc_ended_def)
qed

lemma oidc_ended_steps: "oidc_step\<^sup>*\<^sup>* db db' \<Longrightarrow> oidc_ended db jti \<Longrightarrow> oidc_ended db' jti"
  by (induction rule: rtranclp_induct) (auto intro: ended_rows step_rows)

lemma revoke_ends_session: "revoke_oidc_jti jti w reason db = (Ok u, db') \<Longrightarrow> oidc_ended db' jti"
proof -
  assume run: "revoke_oidc_jti jti w reason db = (Ok u, db')"
  then obtain row where row: "find_oidc db jti = Some row"
    by (auto simp: revoke_oidc_jti_def split: if_splits option.splits)
  let ?f = "\<lambda>r. r\<lparr>os_revoked := True, os_revoked_at := Some (clock db), os_revoked_by := Some w,
    os_reason := str_opt (strip (opt_str reason))\<rparr>"
  show ?thesis
  proof (cases "os_revoked row")
    case True
    with run row show ?thesis by (auto simp: revoke_oidc_jti_def oidc_ended_def split: if_splits)
  next
    case False
    have "find_oidc db' jti = map_option ?f (find_oidc db jti)"
      using run row False by (auto simp: revoke_oidc_jti_def find_oidc_def first_row_update split: if_splits)
    with row show ?thesis by (simp add: oidc_ended_def)
  qed
qed

lemma validatedD:
  assumes "validate_oidc_session_cookie lib ps db cookie = Ok (Some c)"
  obtains payload row where "ol_decode lib True (clock db) cookie (resolve_oidc_session_jwt_secret ps) = Some payload"
    "map_of payload ''type'' = Some (JStr ''oidc'')" "oidc_claims_from_payload payload = Some c"
    "jwt_audience_matches (audience_claim payload) (resolve_oidc_session_jwt_audience ps) (ps_aud_strict ps)"
    "find_oidc db (oc_jti c) = Some row" "\<not> os_revoked row" "clock db < os_expires row" "hot_up db"
  using assms
  by (auto simp: validate_oidc_session_cookie_def is_oidc_jti_revoked_def Let_def split: if_splits option.splits result.splits)

text \<open>C14: a revoked portal session stays out: once a session is revoked, no cookie of that session is accepted again,
  whatever sessions are issued, revoked, purged or logged out afterwards, and whatever the rest of the
  portal does.\<close>

theorem revoked_cookie_stays_out:
  assumes "revoke_oidc_jti jti w reason db = (Ok u, db1)" and "oidc_step\<^sup>*\<^sup>* db1 db2"
    and "validate_oidc_session_cookie lib ps db2 cookie = Ok (Some c)"
  shows "oc_jti c \<noteq> jti"
  using validatedD [OF assms(3)] oidc_ended_steps [OF assms(2) revoke_ends_session [OF assms(1)]]
  unfolding oidc_ended_def by (metis option.inject)

definition faithful_oidc :: "oidc_lib \<Rightarrow> bool" where
  \<comment> \<open>a token decodes with its key to its payload, if that passes the library's checks at the instant: it
    has an integer \<open>iat\<close> not in the future, no \<open>nbf\<close>, an integer \<open>exp\<close> in the future, a text as \<open>sub\<close> and as \<open>jti\<close>\<close>
  "faithful_oidc lib \<longleftrightarrow>
     (\<forall>now payload key issued e sub jti. key \<noteq> [] \<longrightarrow> distinct (map fst payload) \<longrightarrow>
        map_of payload ''iat'' = Some (JInt issued) \<longrightarrow> seconds issued \<le> now \<longrightarrow> map_of payload ''nbf'' = None \<longrightarrow>
        map_of payload ''exp'' = Some (JInt e) \<longrightarrow> now < seconds e \<longrightarrow>
        map_of payload ''sub'' = Some (JStr sub) \<longrightarrow> map_of payload ''jti'' = Some (JStr jti) \<longrightarrow>
        ol_encode lib payload key \<noteq> [] \<and> ol_decode lib True now (ol_encode lib payload key) key = Some payload)"

lemma map_filter_group_text: "List.map_filter group_text (map JStr gs) = gs"
  by (induction gs) (simp_all add: List.map_filter_simps)

text \<open>C33: a portal session issued while the hot store is up is read back as it was issued: from the moment of its
  issue until it expires, its cookie is accepted with the subject, user name, realm, groups and e-mail
  address of the login. Of the token library it supposes only that a token is read back with its key when
  its payload passes the library's checks of \<open>iat\<close>, \<open>nbf\<close>, \<open>exp\<close>, \<open>sub\<close> and \<open>jti\<close> at that moment.\<close>

theorem oidc_session_roundtrip:
  assumes lib: "faithful_oidc lib" and up: "hot_up db"
    and ids: "sub \<noteq> []" "realm \<noteq> []" "uuids db (uuid_next db) \<noteq> []" "find_oidc db (uuids db (uuid_next db)) = None"
    and key: "resolve_oidc_session_jwt_secret ps \<noteq> []"
    and run: "issue_oidc_session lib sub username realm (resolve_oidc_session_jwt_secret ps) max_age gs email
        (Some (resolve_oidc_session_jwt_audience ps)) sid db = (Ok (token, jti), db')"
    and t: "clock db \<le> t" "t < seconds ((clock db + seconds max_age) div 1000000)"
  shows "validate_oidc_session_cookie lib ps (db'\<lparr>clock := t\<rparr>) token = Ok (Some
    \<lparr>oc_sub = sub, oc_user = username, oc_realm = realm, oc_jti = jti, oc_exp = (clock db + seconds max_age) div 1000000,
     oc_groups = filter (\<lambda>g. g \<noteq> []) (map strip gs), oc_email = str_opt (strip (opt_str email)),
     oc_sid = str_opt (opt_str sid)\<rparr>)"
proof -
  let ?jti = "uuids db (uuid_next db)" and ?exp = "(clock db + seconds max_age) div 1000000"
  define payload where "payload = [(''sub'', JStr sub), (''username'', jopt username), (''realm'', JStr realm), (''jti'', JStr ?jti),
         (''iat'', JInt (clock db div 1000000)), (''exp'', JInt ?exp), (''type'', JStr ''oidc''),
         (''aud'', JStr (resolve_oidc_session_jwt_audience ps)),
         (''groups'', JList (map JStr (filter (\<lambda>g. strip g \<noteq> []) gs)))] @
        (if opt_str email \<noteq> [] then [(''email'', jopt email)] else []) @
        (if opt_str sid \<noteq> [] then [(''sid'', jopt sid)] else [])"
  let ?key = "resolve_oidc_session_jwt_secret ps"
  have aud: "resolve_oidc_session_jwt_audience ps \<noteq> []" "strip (resolve_oidc_session_jwt_audience ps) = resolve_oidc_session_jwt_audience ps"
    by (simp_all add: resolve_oidc_session_jwt_audience_def Let_def default_oidc_audience_def) code_simp?
  have tok: "token = ol_encode lib payload ?key" "jti = ?jti"
    and db': "oidc_rows db' = oidc_rows db @ [\<lparr>os_jti = ?jti, os_sub = sub, os_user = username, os_realm = realm,
      os_issued = clock db, os_expires = clock db + seconds max_age, os_revoked = False, os_revoked_at = None,
      os_revoked_by = None, os_reason = None\<rparr>]" "hot_up db'"
    using run up aud
    by (auto simp: issue_oidc_session_def take_uuid_def register_oidc_session_def create_oidc_session_token_def payload_def
        opt_str_def Let_def)
  have exp: "int_claim payload ''exp'' = Some ?exp" by (simp add: payload_def int_claim_def)
  have keys: "distinct (map fst payload)" "map_of payload ''iat'' = Some (JInt (clock db div 1000000))"
    "map_of payload ''nbf'' = None" "map_of payload ''exp'' = Some (JInt ?exp)" "map_of payload ''sub'' = Some (JStr sub)"
    "map_of payload ''jti'' = Some (JStr ?jti)"
    by (simp_all add: payload_def)
  have "seconds (clock db div 1000000) \<le> t" using t(1) by (simp add: seconds_def)
  then have dec: "token \<noteq> []" "ol_decode lib True t token ?key = Some payload"
    using lib [unfolded faithful_oidc_def, rule_format, OF key keys(1,2) _ keys(3,4) t(2) keys(5,6)] unfolding tok by blast+
  have row: "find_oidc (db'\<lparr>clock := t\<rparr>) jti = Some (last (oidc_rows db'))"
    using ids(4) by (simp add: find_oidc_def db' first_row_later first_row_cases tok)
  have "?exp * 1000000 \<le> clock db + seconds max_age" by simp
  then have "t < clock db + seconds max_age" using t(2) by (simp add: seconds_def)
  then have live: "is_oidc_jti_revoked (db'\<lparr>clock := t\<rparr>) jti = Ok False"
    using row ids(3) by (simp add: is_oidc_jti_revoked_def db' tok)
  have claims: "oidc_claims_from_payload payload = Some \<lparr>oc_sub = sub, oc_user = username, oc_realm = realm, oc_jti = ?jti,
      oc_exp = ?exp, oc_groups = filter (\<lambda>g. g \<noteq> []) (map strip gs), oc_email = str_opt (strip (opt_str email)),
      oc_sid = str_opt (opt_str sid)\<rparr>"
  proof -
    have texts: "text_claim payload ''jti'' = Some ?jti" "text_claim payload ''sub'' = Some sub"
      "text_claim payload ''realm'' = Some realm" "text_claim payload ''username'' = username"
      by (auto simp: text_claim_def payload_def jopt_def split: option.split)
    have email: "opt_str (text_claim payload ''email'') = opt_str email" "opt_str (text_claim payload ''sid'') = opt_str sid"
      by (auto simp: text_claim_def payload_def jopt_def opt_str_def split: option.split)
    have "parse_oidc_groups (map_of payload ''groups'') = filter (\<lambda>g. g \<noteq> []) (map strip (filter (\<lambda>g. strip g \<noteq> []) gs))"
      by (simp add: payload_def parse_oidc_groups_def map_filter_group_text)
    also have "\<dots> = filter (\<lambda>g. g \<noteq> []) (map strip gs)" by (simp add: filter_map comp_def)
    finally show ?thesis using ids(1-3) exp by (simp add: oidc_claims_from_payload_def Let_def texts email opt_str_def [of "Some _"])
  qed
  show ?thesis
    using dec key live claims
    by (simp add: validate_oidc_session_cookie_def Let_def payload_def audience_claim_def jwt_audience_matches_def aud tok)
qed

end
