(* ===== verification/BgLaws.thy ===== *)
theory BgLaws
  imports Breakglass
begin

text \<open>
  The registry of break-glass sessions as a state machine. Every operation of
  \<open>app/auth/breakglass.py\<close> is a sequence of the steps below; what the steps keep is proved once and
  holds for the operations. The anti-abuse subsystem shares the state and leaves the registry alone.
\<close>

section \<open>Steps of the registry\<close>

definition core :: "bg_row \<Rightarrow> bg_row" where
  \<comment> \<open>a row without the signals of its last requests\<close>
  "core r = r\<lparr>bg_first_subnet := None, bg_first_fp := None, bg_last_subnet := None, bg_last_fp := None,
     bg_mismatch := None, bg_chain := Some (chain_of r)\<rparr>"

definition live :: "bg_row \<Rightarrow> bool" where
  "live r \<longleftrightarrow> \<not> bg_chain_revoked r \<and> \<not> bg_revoked r"

lemma core_sel:
  "bg_jti (core r) = bg_jti r" "bg_user (core r) = bg_user r" "bg_issued (core r) = bg_issued r"
  "bg_expires (core r) = bg_expires r" "bg_revoked (core r) = bg_revoked r"
  "bg_superseded_by (core r) = bg_superseded_by r" "bg_superseded_at (core r) = bg_superseded_at r"
  "bg_chain_revoked (core r) = bg_chain_revoked r" "the (bg_chain (core r)) = chain_of r"
  by (simp_all add: core_def)

lemma core_eqD:
  assumes "core r' = core r"
  shows "bg_jti r' = bg_jti r" "bg_user r' = bg_user r" "bg_issued r' = bg_issued r"
    "bg_expires r' = bg_expires r" "bg_revoked r' = bg_revoked r" "bg_superseded_by r' = bg_superseded_by r"
    "bg_superseded_at r' = bg_superseded_at r" "bg_chain_revoked r' = bg_chain_revoked r"
    "chain_of r' = chain_of r"
  using assms by (metis core_sel)+

lemma core_signals [simp]:
  "core (stamp_signals s f r) = core r"
  "core (r\<lparr>bg_last_subnet := s', bg_last_fp := f'\<rparr>) = core r"
  "core (r\<lparr>bg_mismatch := c\<rparr>) = core r"
  "core (ensure_chain_id r) = core r"
  by (simp_all add: core_def stamp_signals_def chain_of_def ensure_chain_id_def opt_str_def)

definition same_registry :: "'a sdb \<Rightarrow> 'a sdb \<Rightarrow> bool" where
  "same_registry db db' \<longleftrightarrow>
     bg_rows db' = bg_rows db \<and> uuids db' = uuids db \<and> uuid_next db' = uuid_next db \<and> clock db \<le> clock db'"

inductive reg_step :: "'a sdb \<Rightarrow> 'a sdb \<Rightarrow> bool" where
  reg_same: "same_registry db db' \<Longrightarrow> reg_step db db'"
| reg_touch: "find_bg db jti = Some r \<Longrightarrow> core r' = core r \<Longrightarrow> bg_chain r' \<in> {bg_chain r, Some (chain_of r)} \<Longrightarrow>
     reg_step db (put_bg db jti r')"
| reg_uuid: "reg_step db (snd (take_uuid db))"
| reg_issue: "take_uuid db = (jti, db1) \<Longrightarrow>
     core r = core (new_bg_row jti username (clock db) (clock db + seconds cookie_max_age) jti) \<Longrightarrow>
     bg_chain r = Some jti \<Longrightarrow> reg_step db (db1\<lparr>bg_rows := bg_rows db @ [r]\<rparr>)"
| reg_rotate: "find_bg db jti = Some row \<Longrightarrow> live row \<Longrightarrow> opt_str (bg_superseded_by row) = [] \<Longrightarrow>
     reg_step db (snd (rotate_breakglass_session lib row payload secret db))"
| reg_mark: "reg_step db (snd (mark_chain_revoked chain_id db))"
| reg_revoke: "find_bg db jti = Some r \<Longrightarrow>
     reg_step db (put_bg db jti ((ensure_chain_id r)\<lparr>bg_revoked := True, bg_revoked_at := at, bg_revoked_by := by,
       bg_reason := why\<rparr>))"
| reg_purge: "(\<And>r r'. r \<in> set (bg_rows db) \<Longrightarrow> r' \<in> set (bg_rows db) \<Longrightarrow> bg_chain r = bg_chain r' \<Longrightarrow> gone r = gone r') \<Longrightarrow>
     (\<And>r. r \<in> set (bg_rows db) \<Longrightarrow> gone r \<Longrightarrow> bg_expires r < clock db) \<Longrightarrow>
     reg_step db (db\<lparr>bg_rows := filter (\<lambda>r. \<not> gone r) (bg_rows db)\<rparr>)"

definition reg_runs :: "'a sdb \<Rightarrow> 'a sdb \<Rightarrow> bool" where
  "reg_runs = rtranclp reg_step"

lemma reg_runs_refl [simp, intro]: "reg_runs db db"
  by (simp add: reg_runs_def)

lemma reg_runs_trans [trans]: "reg_runs a b \<Longrightarrow> reg_runs b c \<Longrightarrow> reg_runs a c"
  unfolding reg_runs_def by (rule rtranclp_trans)

lemma reg_step_runs [intro]: "reg_step a b \<Longrightarrow> reg_runs a b"
  by (auto simp: reg_runs_def)

interpretation reg: run_relation reg_runs
  by unfold_locales (auto intro: reg_runs_trans)

lemma reg_runs_invariant:
  assumes "reg_runs a b" and "P a" and "\<And>x y. reg_step x y \<Longrightarrow> P x \<Longrightarrow> P y"
  shows "P b"
  using assms unfolding reg_runs_def by (induction rule: rtranclp_induct) auto

section \<open>The anti-abuse operations leave the registry alone\<close>

lemma ban_step_registry: "ban_step db db' \<Longrightarrow> same_registry db db'"
  by (induction rule: ban_step.induct)
    (simp_all add: same_registry_def ensure_security_defaults_def insert_ban_def Let_def log_action_def split: prod.split)

lemma same_registry_trans: "same_registry a b \<Longrightarrow> same_registry b c \<Longrightarrow> same_registry a c"
  by (auto simp: same_registry_def)

lemma ban_steps_registry: "ban_steps db db' \<Longrightarrow> same_registry db db'"
  by (induction rule: ban_steps_induct)
    (auto simp: same_registry_def dest: ban_step_registry intro: same_registry_trans)

lemma ban_steps_runs: "ban_steps db db' \<Longrightarrow> reg_runs db db'"
  by (intro reg_step_runs reg_same ban_steps_registry)

named_theorems reg_reach \<open>operations are sequences of registry steps\<close>

lemma reg_log [reg_reach]: "reg_runs db (log_action a b c d i db)"
  by (intro reg_step_runs reg_same) (simp add: same_registry_def)

section \<open>The operations are runs of the registry\<close>

lemma reg_put:
  "find_bg db jti = Some r \<Longrightarrow> core r' = core r \<Longrightarrow> bg_chain r' = bg_chain r \<Longrightarrow> reg_runs db (put_bg db jti r')"
  by (intro reg_step_runs reg_touch) auto

lemma reg_ensure: "find_bg db jti = Some r \<Longrightarrow> reg_runs db (put_bg db jti (ensure_chain_id r))"
proof (intro reg_step_runs reg_touch)
  show "bg_chain (ensure_chain_id r) \<in> {bg_chain r, Some (chain_of r)}" by (simp add: ensure_chain_id_def)
qed simp_all

lemma reg_log_put:
  assumes "find_bg db jti = Some r" and "core r' = core r" and "bg_chain r' = bg_chain r"
  shows "reg_runs db (put_bg (log_action a b c d i db) jti r')"
proof (rule reg_runs_trans [OF reg_log reg_put])
  show "find_bg (log_action a b c d i db) jti = Some r" using assms(1) by (simp add: find_bg_def)
qed (use assms in simp_all)

lemma stamp_chain [simp]: "bg_chain (stamp_signals s f r) = bg_chain r"
  by (simp add: stamp_signals_def)

lemma reg_reject [reg_reach]:
  "find_bg db jti = Some row \<Longrightarrow> reg_runs db (reject_breakglass_strong_drift row u jti s f ip db)"
  unfolding reject_breakglass_strong_drift_def Let_def
  by (rule reg_runs_trans [OF reg_put reg_log]) auto

lemma reg_binding [reg_reach]: "reg_runs db (snd (evaluate_breakglass_binding cfg sha rq jti u db))"
proof (cases "find_bg db jti")
  case (Some row)
  have "reg_runs db (snd (x, put_bg (if c then log_action a b t d i db else db) jti
      (row\<lparr>bg_last_subnet := s, bg_last_fp := f\<rparr>)))" for c a b t d i s f and x :: "(db_error, bool) result"
    using Some by (auto intro: reg_put reg_log_put)
  then show ?thesis
    unfolding evaluate_breakglass_binding_def Let_def Some option.case
    by (intro reg.run_if) (auto intro!: reg_put reg_reject Some)
qed (simp add: evaluate_breakglass_binding_def)

lemma reg_mark_runs [reg_reach]: "reg_runs db (snd (mark_chain_revoked c db))"
  by (intro reg_step_runs reg_mark)

lemma reg_grace [reg_reach]: "reg_runs db (snd (process_grace lib cfg sha rq row p u jti s rot db))"
proof -
  have "reg_runs db (snd (evaluate_breakglass_binding cfg sha rq k u (if rot then log_action a b c d i db else db)))"
    for k a b c d i
    by (cases rot) (auto intro: reg_reach reg_runs_trans [OF reg_log])
  then show ?thesis
    unfolding process_grace_def Let_def
    by (intro reg.run_pair reg.run_result reg.run_bool reg.run_if reg.run_snd reg_runs_refl)
qed

lemma reg_replay [reg_reach]: "reg_runs db (snd (process_replay cfg sha rq row u jti db))"
  unfolding process_replay_def Let_def by (intro reg.run_snd reg_runs_trans [OF reg_mark_runs reg_log])

lemma reg_current [reg_reach]: "reg_runs db (snd (process_current lib cfg sha rq row p u jti s rot db))"
proof -
  have rotate: "reg_runs db (snd (rotate_breakglass_session lib row p s db))"
    if "find_bg db jti = Some row" "\<not> (opt_str (bg_superseded_by row) \<noteq> [] \<or> bg_chain_revoked row \<or> bg_revoked row)"
    for db :: "'a sdb" and row
    using that by (auto intro!: reg_step_runs reg_rotate simp: live_def)
  show ?thesis
    unfolding process_current_def Let_def
    by (intro reg.run_intros reg_binding rotate reg_runs_refl)
qed

lemma reg_row [reg_reach]: "reg_runs db (snd (process_row lib st sv sha rq row p u jti rot db))"
  unfolding process_row_def by (auto split: result.split simp: reg_grace reg_replay reg_current)

lemma reg_process [reg_reach]:
  "reg_runs db (snd (process_breakglass_auth_request lib st sv sha rq cookie rot db))"
proof -
  have "reg_runs db (snd (process_row lib st sv sha rq r p u jti rot (put_bg db k (ensure_chain_id r'))))"
    if "find_bg db k = Some r'" for r p u jti k r'
    using that by (rule reg_runs_trans [OF reg_ensure reg_row])
  then show ?thesis
    unfolding process_breakglass_auth_request_def Let_def
    by (auto split: result.split option.split)
qed

lemma reg_revoke_jti [reg_reach]: "reg_runs db (snd (revoke_breakglass_jti jti who why db))"
proof (cases "find_bg db jti")
  case (Some r)
  let ?set = "r\<lparr>bg_chain := Some (chain_of r), bg_revoked := True, bg_revoked_at := Some (clock db),
    bg_revoked_by := Some who, bg_reason := str_opt (strip (opt_str why))\<rparr>"
  have "reg_step db (put_bg db jti ?set)"
    using reg_step.reg_revoke [OF Some] by (simp add: ensure_chain_id_def)
  with reg_ensure [OF Some] show ?thesis
    unfolding revoke_breakglass_jti_def Let_def Some
    by (auto simp: ensure_chain_id_def intro: reg_runs_trans [OF _ reg_mark_runs])
qed (simp add: revoke_breakglass_jti_def)

lemma reg_logout [reg_reach]: "reg_runs db (snd (revoke_session_from_request lib st sv cookie db))"
proof -
  have "reg_runs db s" if "revoke_breakglass_jti jti who why db = (x, s)" for x s jti who why
    using reg_revoke_jti [of db jti who why] that by simp
  then show ?thesis
    unfolding revoke_session_from_request_def Let_def
    by (auto split: result.split option.split auth_error.split prod.split)
qed

lemma new_row_sel [simp]:
  "bg_jti (new_bg_row j u i e c) = j" "bg_chain (new_bg_row j u i e c) = Some c"
  "bg_expires (new_bg_row j u i e c) = e" "bg_issued (new_bg_row j u i e c) = i"
  "bg_superseded_by (new_bg_row j u i e c) = None" "bg_chain_revoked (new_bg_row j u i e c) = False"
  "bg_revoked (new_bg_row j u i e c) = False"
  by (simp_all add: new_bg_row_def)

lemma reg_issue_token [reg_reach]:
  "reg_runs db (snd (issue_breakglass_token lib cfg sha u s rq aud db))"
proof -
  have "reg_step db (db\<lparr>uuid_next := Suc (uuid_next db), bg_rows := bg_rows db @ [r]\<rparr>)"
    if "core r = core (new_bg_row (uuids db (uuid_next db)) u (clock db) (clock db + seconds cookie_max_age) (uuids db (uuid_next db)))"
      "bg_chain r = Some (uuids db (uuid_next db))" for r
    using that reg_issue [of db "uuids db (uuid_next db)" _ r u] by (simp add: take_uuid_def)
  moreover have "reg_step db (db\<lparr>uuid_next := Suc (uuid_next db)\<rparr>)"
    using reg_uuid [of db] by (simp add: take_uuid_def)
  ultimately show ?thesis
    unfolding issue_breakglass_token_def take_uuid_def
    by (auto simp: Let_def apply_breakglass_login_anchor_def intro!: reg_step_runs split: option.split)
qed

lemma breakglass_ip_steps: "ban_steps db (snd (is_breakglass_ip_allowed db ip rf))"
  using get_policy_steps [of db] by (simp add: is_breakglass_ip_allowed_def case_prod_beta)

lemma reg_deny_ip [reg_reach]: "reg_runs db (snd (deny_breakglass_if_ip_blocked st u ip db))"
proof -
  have "reg_runs db (snd (is_breakglass_ip_allowed db ip rf))" for rf
    using ban_steps_runs [OF breakglass_ip_steps] .
  then show ?thesis
    unfolding deny_breakglass_if_ip_blocked_def by (intro reg.run_let reg.run_pair reg.run_if reg.run_snd reg_runs_refl reg_log)
qed

lemma reg_login [reg_reach]:
  "reg_runs db (snd (breakglass_login lib st sv sha verify exists rq u pw db))"
proof -
  have "reg_runs db (snd (evaluate_login_attempt ip u ok db))" "reg_runs db (snd (record_successful_login ip u db))"
    for ip ok and db :: "'a sdb"
    by (intro ban_steps_runs reach)+
  then show ?thesis
    unfolding breakglass_login_def Let_def
    by (intro reg.run_intros reg_deny_ip reg_issue_token reg_log reg_runs_refl)
qed

lemma blank_strip_Nil: "rstrip_char x (dropWhile (\<lambda>c. c = x) s) = [] \<Longrightarrow> \<forall>c \<in> set s. c = x"
proof (cases "dropWhile (\<lambda>c. c = x) s = []")
  case True
  then show ?thesis unfolding dropWhile_eq_Nil_conv .
next
  case False
  assume "rstrip_char x (dropWhile (\<lambda>c. c = x) s) = []"
  then have "\<forall>c \<in> set (dropWhile (\<lambda>c. c = x) s). c = x"
    unfolding rstrip_char_def rev_is_Nil_conv dropWhile_eq_Nil_conv set_rev .
  with False hd_in_set hd_dropWhile [OF False] show ?thesis by blast
qed

lemma blank_is_space: "is_space (CHR '' '')"
  by (simp add: is_space_def)

lemma strip_blanks: "\<forall>c \<in> set s. c = CHR '' '' \<Longrightarrow> strip s = []"
proof -
  assume blank: "\<forall>c \<in> set s. c = CHR '' ''"
  have "\<forall>c \<in> set s. is_space c"
  proof
    fix c assume "c \<in> set s"
    then have "c = CHR '' ''" using blank by (rule bspec [rotated])
    then show "is_space c" by (simp only: blank_is_space)
  qed
  then have "lstrip s = []" unfolding lstrip_def dropWhile_eq_Nil_conv .
  then show ?thesis by (simp add: strip_def rstrip_def)
qed

lemma chain_key_chained:
  assumes "bg_chain r = Some c" and "strip c \<noteq> []"
  shows "chain_key r = rstrip_char (CHR '' '') (dropWhile (\<lambda>x. x = CHR '' '') c)"
proof -
  have "rstrip_char (CHR '' '') (dropWhile (\<lambda>x. x = CHR '' '') c) \<noteq> []"
    using assms(2) strip_blanks [OF blank_strip_Nil] by (rule contrapos_nn)
  with assms(1) show ?thesis by (simp add: chain_key_def Let_def opt_str_def)
qed

definition chained :: "'a sdb \<Rightarrow> bool" where
  "chained db \<longleftrightarrow> (\<forall>r \<in> set (bg_rows db). \<exists>c. bg_chain r = Some c \<and> strip c \<noteq> [])"

lemma reg_purge_sessions:
  assumes "chained db"
  shows "reg_runs db (snd (purge_expired_breakglass_sessions days db))"
proof -
  let ?stale = "\<lambda>r. list_all (\<lambda>m. bg_expires m < clock db - seconds (max 0 days * 86400))
      (filter (\<lambda>m. chain_key m = chain_key r) (bg_rows db))"
  have "reg_step db (db\<lparr>bg_rows := filter (\<lambda>r. \<not> ?stale r) (bg_rows db)\<rparr>)"
  proof (rule reg_purge)
    fix r r'
    assume "r \<in> set (bg_rows db)" "r' \<in> set (bg_rows db)" "bg_chain r = bg_chain r'"
    with assms have "chain_key r = chain_key r'"
      unfolding chained_def by (metis chain_key_chained)
    then show "?stale r = ?stale r'" by simp
  next
    fix r
    assume "r \<in> set (bg_rows db)" "?stale r"
    then have "bg_expires r < clock db - seconds (max 0 days * 86400)"
      by (auto simp: list_all_iff)
    then show "bg_expires r < clock db" by (simp add: seconds_def)
  qed
  then show ?thesis
    by (auto simp: purge_expired_breakglass_sessions_def Let_def)
qed

lemma same_registry_runs: "same_registry a b \<Longrightarrow> reg_runs b c \<Longrightarrow> reg_runs a c"
  by (rule reg_runs_trans [OF reg_step_runs [OF reg_same]])

lemma reg_sso [reg_reach]: "reg_runs db (snd (evaluate_sso_binding cfg sha rq u kc db))"
proof -
  have new: "reg_runs db (snd (x, snd (record_successful_login ip l (db\<lparr>sso_rows := rs\<rparr>))))"
    for ip l rs and x :: "(db_error, sso_summary option) result"
    unfolding snd_conv
    by (rule same_registry_runs [OF _ ban_steps_runs [OF successful_login_steps]]) (simp add: same_registry_def)
  have old: "reg_runs db (snd (x, put_sso d h r))" if "reg_runs db d" for d h r and x :: "(db_error, sso_summary option) result"
    unfolding snd_conv
    by (rule reg_runs_trans [OF that reg_step_runs [OF reg_same]]) (simp add: same_registry_def put_sso_def)
  show ?thesis
    unfolding evaluate_sso_binding_def Let_def case_prod_beta
    by (intro reg.run_option reg.run_if new old reg.run_if_state reg_log reg.run_snd reg_runs_refl)
qed

lemma reg_purge_sso [reg_reach]: "reg_runs db (snd (purge_stale_sso_session_anchors days db))"
  by (auto simp: purge_stale_sso_session_anchors_def Let_def same_registry_def intro!: reg_step_runs reg_same)

section \<open>The invariant of the registry\<close>

definition supply_ok :: "'a sdb \<Rightarrow> bool" where
  "supply_ok db \<longleftrightarrow> inj (uuids db) \<and> (\<forall>n. strip (uuids db n) \<noteq> [])"

definition drawn :: "'a sdb \<Rightarrow> string set" where
  "drawn db = uuids db ` {..<uuid_next db}"

definition row_ok :: "'a sdb \<Rightarrow> bg_row \<Rightarrow> bool" where
  "row_ok db r \<longleftrightarrow> bg_jti r \<in> drawn db \<and> (\<exists>c \<in> drawn db. bg_chain r = Some c) \<and>
     bg_issued r \<le> clock db \<and> bg_expires r \<le> clock db + seconds cookie_max_age"

definition is_tip :: "bg_row \<Rightarrow> bool" where
  "is_tip r \<longleftrightarrow> opt_str (bg_superseded_by r) = []"

definition chains_ok :: "bg_row list \<Rightarrow> bool" where
  \<comment> \<open>one expiry and at most one tip per chain\<close>
  "chains_ok rs \<longleftrightarrow>
     (\<forall>r \<in> set rs. \<forall>r' \<in> set rs. bg_chain r = bg_chain r' \<longrightarrow>
        bg_expires r = bg_expires r' \<and> (is_tip r \<and> is_tip r' \<longrightarrow> bg_jti r = bg_jti r'))"

definition reg_wf :: "'a sdb \<Rightarrow> bool" where
  "reg_wf db \<longleftrightarrow>
     supply_ok db \<and> distinct (map bg_jti (bg_rows db)) \<and> (\<forall>r \<in> set (bg_rows db). row_ok db r) \<and>
     chains_ok (bg_rows db)"

lemma chains_okD:
  assumes "chains_ok rs" and "r \<in> set rs" and "r' \<in> set rs" and "bg_chain r = bg_chain r'"
  shows "bg_expires r = bg_expires r'" and "is_tip r \<Longrightarrow> is_tip r' \<Longrightarrow> bg_jti r = bg_jti r'"
  using assms unfolding chains_ok_def by blast+

lemma reg_wf_chained: "reg_wf db \<Longrightarrow> chained db"
  unfolding reg_wf_def chained_def row_ok_def drawn_def supply_ok_def by blast

lemma chained_chain_of: "chained db \<Longrightarrow> r \<in> set (bg_rows db) \<Longrightarrow> bg_chain r = Some (chain_of r)"
  by (force simp: chained_def chain_of_def opt_str_def)

lemma find_bg_row: "find_bg db jti = Some r \<Longrightarrow> r \<in> set (bg_rows db) \<and> bg_jti r = jti"
  using first_row_Some unfolding find_bg_def by fast

lemma reg_wf_unique:
  "reg_wf db \<Longrightarrow> r \<in> set (bg_rows db) \<Longrightarrow> r' \<in> set (bg_rows db) \<Longrightarrow> bg_jti r = bg_jti r' \<Longrightarrow> r = r'"
  unfolding reg_wf_def distinct_map by (blast dest: inj_onD)

definition keeps_place :: "(bg_row \<Rightarrow> bg_row) \<Rightarrow> bg_row \<Rightarrow> bool" where
  "keeps_place f r \<longleftrightarrow> bg_jti (f r) = bg_jti r \<and> bg_chain (f r) = bg_chain r \<and>
     bg_expires (f r) = bg_expires r \<and> bg_issued (f r) = bg_issued r \<and> (is_tip (f r) \<longrightarrow> is_tip r)"

lemma chains_ok_map:
  assumes "chains_ok rs" and "\<And>r. r \<in> set rs \<Longrightarrow> keeps_place f r"
  shows "chains_ok (map f rs)"
  unfolding chains_ok_def set_map ball_simps
proof (intro ballI impI)
  fix r r'
  assume r: "r \<in> set rs" "r' \<in> set rs" and e: "bg_chain (f r) = bg_chain (f r')"
  from assms(2) r have "keeps_place f r" "keeps_place f r'" by blast+
  with chains_okD [OF assms(1) r] e
  show "bg_expires (f r) = bg_expires (f r') \<and> (is_tip (f r) \<and> is_tip (f r') \<longrightarrow> bg_jti (f r) = bg_jti (f r'))"
    by (simp add: keeps_place_def)
qed

lemma chains_ok_append:
  assumes "chains_ok rs"
    and "\<And>x. x \<in> set rs \<Longrightarrow> bg_chain x = bg_chain r \<Longrightarrow> bg_expires x = bg_expires r \<and> \<not> is_tip x"
  shows "chains_ok (rs @ [r])"
  unfolding chains_ok_def
proof (intro ballI impI)
  fix x y
  assume xy: "x \<in> set (rs @ [r])" "y \<in> set (rs @ [r])" and e: "bg_chain x = bg_chain y"
  consider "x \<in> set rs" "y \<in> set rs" | "x \<in> set rs" "y = r" | "x = r" "y \<in> set rs" | "x = r" "y = r"
    using xy by auto
  then show "bg_expires x = bg_expires y \<and> (is_tip x \<and> is_tip y \<longrightarrow> bg_jti x = bg_jti y)"
    by cases (use assms chains_okD e in metis)+
qed

lemma row_ok_mono:
  "row_ok db r \<Longrightarrow> drawn db \<subseteq> drawn db' \<Longrightarrow> clock db \<le> clock db' \<Longrightarrow> row_ok db' r"
  unfolding row_ok_def by (meson add_right_mono order_trans subsetD)

lemma reg_wf_map:
  assumes wf: "reg_wf db" and f: "\<And>r. r \<in> set (bg_rows db) \<Longrightarrow> keeps_place f r"
  shows "reg_wf (db\<lparr>bg_rows := map f (bg_rows db)\<rparr>)"
proof -
  have keys: "map bg_jti (map f (bg_rows db)) = map bg_jti (bg_rows db)"
    using f by (simp add: keeps_place_def)
  have "distinct (map bg_jti (map f (bg_rows db)))"
    unfolding keys using wf by (simp add: reg_wf_def)
  moreover have "row_ok (db\<lparr>bg_rows := rs\<rparr>) (f r)" if "r \<in> set (bg_rows db)" for r rs
    using wf f [OF that] that by (auto simp: row_ok_def keeps_place_def drawn_def reg_wf_def)
  moreover have "chains_ok (map f (bg_rows db))"
    using chains_ok_map f wf by (simp add: reg_wf_def)
  moreover have "supply_ok (db\<lparr>bg_rows := map f (bg_rows db)\<rparr>)"
    using wf by (simp add: reg_wf_def supply_ok_def)
  ultimately show ?thesis using wf by (simp add: reg_wf_def)
qed

lemma reg_wf_put:
  assumes "reg_wf db" and "find_bg db jti = Some r" and "keeps_place (\<lambda>_. r') r"
  shows "reg_wf (put_bg db jti r')"
proof -
  have "x = r" if "x \<in> set (bg_rows db)" "bg_jti x = jti" for x
    using reg_wf_unique [OF assms(1) that(1), of r] that(2) find_bg_row [OF assms(2)] by simp
  with assms(3) show ?thesis
    unfolding put_bg_def update_rows_def using assms(1) by (intro reg_wf_map) (auto simp: keeps_place_def)
qed

lemma reg_wf_filter: "reg_wf db \<Longrightarrow> reg_wf (db\<lparr>bg_rows := filter p (bg_rows db)\<rparr>)"
proof -
  assume wf: "reg_wf db"
  then have "chains_ok (filter p (bg_rows db))"
    unfolding reg_wf_def chains_ok_def set_filter by blast
  with wf show ?thesis
    by (simp add: reg_wf_def supply_ok_def row_ok_def drawn_def distinct_map_filter)
qed

lemma reg_wf_later:
  assumes "reg_wf db" and "bg_rows db' = bg_rows db" and "uuids db' = uuids db" and "uuid_next db \<le> uuid_next db'"
    and "clock db \<le> clock db'"
  shows "reg_wf db'"
proof -
  have "drawn db \<subseteq> drawn db'" using assms(3,4) by (auto simp: drawn_def)
  with assms row_ok_mono [of db _ db'] show ?thesis by (simp add: reg_wf_def supply_ok_def)
qed

lemma fresh_id: "supply_ok db \<Longrightarrow> uuids db (uuid_next db) \<notin> drawn db"
  by (auto simp: supply_ok_def drawn_def dest: injD)

lemma reg_wf_append:
  assumes wf: "reg_wf db" and jti: "bg_jti r = uuids db (uuid_next db)" and chain: "bg_chain r = Some c"
    and c: "c \<in> insert (bg_jti r) (drawn db)"
    and same: "\<And>x. x \<in> set (bg_rows db) \<Longrightarrow> bg_chain x = bg_chain r \<Longrightarrow> bg_expires x = bg_expires r \<and> \<not> is_tip x"
    and at: "bg_issued r \<le> clock db" "bg_expires r \<le> clock db + seconds cookie_max_age"
  shows "reg_wf (db\<lparr>uuid_next := Suc (uuid_next db), bg_rows := bg_rows db @ [r]\<rparr>)" (is "reg_wf ?db")
proof -
  have drawn: "drawn ?db = insert (bg_jti r) (drawn db)"
    by (auto simp: drawn_def jti less_Suc_eq)
  have "supply_ok ?db" using wf by (simp add: reg_wf_def supply_ok_def)
  moreover have "bg_jti r \<notin> bg_jti ` set (bg_rows db)"
    using wf fresh_id by (fastforce simp: jti reg_wf_def row_ok_def)
  moreover have "row_ok ?db x" if "x \<in> set (bg_rows db)" for x
    using row_ok_mono [of db x ?db] that wf by (auto simp: drawn reg_wf_def)
  moreover have "row_ok ?db r" using chain c at by (simp add: row_ok_def drawn)
  moreover have "chains_ok (bg_rows db @ [r])"
    using wf same by (intro chains_ok_append) (auto simp: reg_wf_def)
  ultimately show ?thesis using wf by (simp add: reg_wf_def)
qed

text \<open>Every step is a map over the rows, an appended row, a filter, or leaves the rows alone.\<close>

definition quiet :: "(bg_row \<Rightarrow> bg_row) \<Rightarrow> bg_row \<Rightarrow> bool" where
  "quiet f r \<longleftrightarrow> keeps_place f r \<and> (live (f r) \<longrightarrow> live r)"

lemma put_shape:
  assumes "reg_wf db" and "find_bg db jti = Some r" and "quiet (\<lambda>_. r') r"
  shows "\<exists>f. put_bg db jti r' = db\<lparr>bg_rows := map f (bg_rows db)\<rparr> \<and> (\<forall>x \<in> set (bg_rows db). quiet f x)"
proof (intro exI conjI ballI)
  show "put_bg db jti r' = db\<lparr>bg_rows := map (\<lambda>x. if bg_jti x = jti then r' else x) (bg_rows db)\<rparr>"
    by (simp add: put_bg_def update_rows_def)
  show "quiet (\<lambda>x. if bg_jti x = jti then r' else x) x" if "x \<in> set (bg_rows db)" for x
    using assms(3) reg_wf_unique [OF assms(1) that, of r] find_bg_row [OF assms(2)]
    by (auto simp: quiet_def keeps_place_def)
qed

lemma reg_step_shape:
  assumes "reg_step db db'" and "reg_wf db"
  obtains
    (map) f where "db' = db\<lparr>bg_rows := map f (bg_rows db)\<rparr>" "\<And>r. r \<in> set (bg_rows db) \<Longrightarrow> quiet f r"
  | (later) "bg_rows db' = bg_rows db" "uuids db' = uuids db" "uuid_next db \<le> uuid_next db'" "clock db \<le> clock db'"
  | (issue) r where "db' = db\<lparr>uuid_next := Suc (uuid_next db), bg_rows := bg_rows db @ [r]\<rparr>"
      "bg_jti r = uuids db (uuid_next db)" "bg_chain r = Some (bg_jti r)" "bg_issued r = clock db"
      "bg_expires r = clock db + seconds cookie_max_age"
  | (rotate) row f new where "row \<in> set (bg_rows db)" "live row" "is_tip row"
      "\<And>r. r \<in> set (bg_rows db) \<Longrightarrow> quiet f r" "\<And>r. r \<in> set (bg_rows db) \<Longrightarrow> bg_chain r = bg_chain row \<Longrightarrow> \<not> is_tip (f r)"
      "bg_jti new = uuids db (uuid_next db)" "bg_chain new = bg_chain row" "bg_expires new = bg_expires row"
      "bg_issued new = clock db"
      "db' = db\<lparr>uuid_next := Suc (uuid_next db), bg_rows := map f (bg_rows db) @ [new]\<rparr>"
  | (filter) gone where "db' = db\<lparr>bg_rows := filter (\<lambda>r. \<not> gone r) (bg_rows db)\<rparr>"
      "\<And>r. r \<in> set (bg_rows db) \<Longrightarrow> gone r \<Longrightarrow> bg_expires r < clock db"
  using assms(1)
proof cases
  case reg_same
  then show ?thesis by (intro later) (auto simp: same_registry_def)
next
  case (reg_touch jti r r')
  have r: "r \<in> set (bg_rows db)" "bg_jti r = jti" using find_bg_row reg_touch by blast+
  then have "bg_chain r = Some (chain_of r)" using chained_chain_of reg_wf_chained assms(2) by blast
  then have q: "quiet (\<lambda>_. r') r"
    using reg_touch(4) core_eqD [OF reg_touch(3)] by (auto simp: quiet_def keeps_place_def live_def is_tip_def)
  show ?thesis using put_shape [OF assms(2) reg_touch(2) q] reg_touch(1) map by metis
next
  case reg_uuid
  then show ?thesis by (intro later) (auto simp: take_uuid_def)
next
  case (reg_issue jti db1 r username)
  then show ?thesis
    using core_eqD [OF reg_issue(3)] by (intro issue [of r]) (auto simp: take_uuid_def)
next
  case (reg_rotate jti row lib payload secret)
  have r: "row \<in> set (bg_rows db)" "bg_jti row = jti" using find_bg_row reg_rotate by blast+
  then have c: "bg_chain row = Some (chain_of row)" using chained_chain_of reg_wf_chained assms(2) by blast
  then have e: "ensure_chain_id row = row" by (simp add: ensure_chain_id_def)
  let ?row = "row\<lparr>bg_superseded_by := Some (uuids db (uuid_next db)), bg_superseded_at := Some (clock db)\<rparr>"
  let ?f = "\<lambda>x. if bg_jti x = jti then ?row else x"
  have nt: "\<not> is_tip ?row"
    using assms(2) unfolding is_tip_def reg_wf_def supply_ok_def by (auto simp: opt_str_def) (metis strip_Nil)
  let ?new = "(new_bg_row (uuids db (uuid_next db)) (bg_user row) (clock db) (bg_expires row) (chain_of row))
    \<lparr>bg_first_subnet := bg_first_subnet row, bg_first_fp := bg_first_fp row, bg_last_subnet := bg_last_subnet row,
     bg_last_fp := bg_last_fp row, bg_mismatch := Some (opt_int_or (bg_mismatch row) 0)\<rparr>"
  show ?thesis
  proof (rule rotate [of row ?f ?new])
    show "quiet ?f x" if "x \<in> set (bg_rows db)" for x
      using reg_wf_unique [OF assms(2) that r(1)] r(2) nt by (auto simp: quiet_def keeps_place_def live_def)
    show "\<not> is_tip (?f x)" if x: "x \<in> set (bg_rows db)" "bg_chain x = bg_chain row" for x
    proof (cases "bg_jti x = jti")
      case False
      have "chains_ok (bg_rows db)" using assms(2) by (simp add: reg_wf_def)
      from chains_okD(2) [OF this x(1) r(1) x(2)] False r reg_rotate(4) show ?thesis by (auto simp: is_tip_def)
    qed (use nt in simp)
  qed (use r reg_rotate c e in \<open>auto simp: rotate_breakglass_session_def Let_def take_uuid_def
      put_bg_def update_rows_def is_tip_def new_bg_row_def\<close>)
next
  case (reg_mark chain_id)
  then show ?thesis
    by (intro map [of "\<lambda>r. if bg_chain r = Some chain_id then r\<lparr>bg_chain_revoked := True\<rparr> else r"])
      (auto simp: mark_chain_revoked_def update_rows_def quiet_def keeps_place_def is_tip_def live_def)
next
  case (reg_revoke jti r w b a)
  have "r \<in> set (bg_rows db)" using find_bg_row reg_revoke by blast
  then have "bg_chain r = Some (chain_of r)" using chained_chain_of reg_wf_chained assms(2) by blast
  then have e: "ensure_chain_id r = r" by (simp add: ensure_chain_id_def)
  let ?set = "r\<lparr>bg_revoked := True, bg_revoked_at := a, bg_revoked_by := b, bg_reason := w\<rparr>"
  have "quiet (\<lambda>_. ?set) r"
    by (simp add: quiet_def keeps_place_def live_def is_tip_def)
  from put_shape [OF assms(2) reg_revoke(2) this] obtain f where
    f: "put_bg db jti ?set = db\<lparr>bg_rows := List.map f (bg_rows db)\<rparr>" "\<forall>x \<in> set (bg_rows db). quiet f x"
    by blast
  show ?thesis
  proof (rule map)
    show "db' = db\<lparr>bg_rows := List.map f (bg_rows db)\<rparr>" using reg_revoke(1) f(1) unfolding e by (rule trans)
    show "quiet f x" if "x \<in> set (bg_rows db)" for x using f(2) that by blast
  qed
next
  case (reg_purge gone)
  show ?thesis using reg_purge(1,3) by (rule filter)
qed

lemma reg_step_wf: "reg_step db db' \<Longrightarrow> reg_wf db \<Longrightarrow> reg_wf db'"
proof (erule (1) reg_step_shape)
  fix f
  assume "reg_wf db" "db' = db\<lparr>bg_rows := map f (bg_rows db)\<rparr>" "\<And>r. r \<in> set (bg_rows db) \<Longrightarrow> quiet f r"
  then show "reg_wf db'" using reg_wf_map by (auto simp: quiet_def)
next
  fix r
  assume wf: "reg_wf db" and db': "db' = db\<lparr>uuid_next := Suc (uuid_next db), bg_rows := bg_rows db @ [r]\<rparr>"
    and r: "bg_jti r = uuids db (uuid_next db)" "bg_chain r = Some (bg_jti r)" "bg_issued r = clock db"
      "bg_expires r = clock db + seconds cookie_max_age"
  have "bg_chain x \<noteq> bg_chain r" if "x \<in> set (bg_rows db)" for x
    using that wf fresh_id r(1,2) by (fastforce simp: reg_wf_def row_ok_def)
  then show "reg_wf db'" unfolding db' using wf r by (intro reg_wf_append) auto
next
  fix row f new
  assume wf: "reg_wf db" and row: "row \<in> set (bg_rows db)"
    and f: "\<And>r. r \<in> set (bg_rows db) \<Longrightarrow> quiet f r"
      "\<And>r. r \<in> set (bg_rows db) \<Longrightarrow> bg_chain r = bg_chain row \<Longrightarrow> \<not> is_tip (f r)"
    and new: "bg_jti new = uuids db (uuid_next db)" "bg_chain new = bg_chain row" "bg_expires new = bg_expires row"
      "bg_issued new = clock db"
    and db': "db' = db\<lparr>uuid_next := Suc (uuid_next db), bg_rows := map f (bg_rows db) @ [new]\<rparr>"
  let ?db = "db\<lparr>bg_rows := map f (bg_rows db)\<rparr>"
  have mapped: "reg_wf ?db" using reg_wf_map [OF wf] f(1) by (simp add: quiet_def)
  have ok: "row_ok db row" "chains_ok (bg_rows db)" using wf row by (simp_all add: reg_wf_def)
  then obtain c where c: "bg_chain row = Some c" "c \<in> drawn db" by (auto simp: row_ok_def)
  have "reg_wf (?db\<lparr>uuid_next := Suc (uuid_next ?db), bg_rows := bg_rows ?db @ [new]\<rparr>)"
  proof (rule reg_wf_append [OF mapped])
    fix x assume "x \<in> set (bg_rows ?db)" "bg_chain x = bg_chain new"
    then obtain r where r: "x = f r" "r \<in> set (bg_rows db)" "bg_chain r = bg_chain row"
      using new(2) f(1) by (auto simp: quiet_def keeps_place_def)
    then show "bg_expires x = bg_expires new \<and> \<not> is_tip x"
      using f chains_okD(1) [OF ok(2) r(2) row r(3)] new(3) by (auto simp: quiet_def keeps_place_def)
  qed (use c new ok in \<open>auto simp: drawn_def row_ok_def\<close>)
  then show "reg_wf db'" by (simp add: db')
qed (auto intro: reg_wf_later reg_wf_filter)

lemma reg_runs_wf: "reg_runs db db' \<Longrightarrow> reg_wf db \<Longrightarrow> reg_wf db'"
  by (rule reg_runs_invariant [of db db' reg_wf]) (auto intro: reg_step_wf)

text \<open>A session that was cut stays cut: no row of its chain is live, and once the rows of an identifier
  are purged its lifetime is over.\<close>

definition ended :: "string \<Rightarrow> string \<Rightarrow> int \<Rightarrow> 'a sdb \<Rightarrow> bool" where
  "ended chain_id jti expiry db \<longleftrightarrow>
     chain_id \<in> drawn db \<and> jti \<in> drawn db \<and>
     (\<forall>r \<in> set (bg_rows db). bg_chain r = Some chain_id \<longrightarrow> \<not> live r) \<and>
     (\<forall>r \<in> set (bg_rows db). bg_jti r = jti \<longrightarrow> bg_chain r = Some chain_id \<and> expiry \<le> bg_expires r) \<and>
     (jti \<notin> bg_jti ` set (bg_rows db) \<longrightarrow> expiry < clock db)"

lemma ended_map:
  assumes "ended c j e db" and f: "\<And>r. r \<in> set (bg_rows db) \<Longrightarrow> quiet f r"
  shows "ended c j e (db\<lparr>bg_rows := map f (bg_rows db)\<rparr>)"
proof -
  have "bg_jti ` set (map f (bg_rows db)) = bg_jti ` set (bg_rows db)"
    using f by (auto simp: quiet_def keeps_place_def image_iff)
  then show ?thesis
    using assms by (auto simp: ended_def quiet_def keeps_place_def drawn_def)
qed

lemma ended_append:
  assumes "ended c j e db" and "bg_jti r \<notin> drawn db" and "bg_chain r \<noteq> Some c"
  shows "ended c j e (db\<lparr>uuid_next := Suc (uuid_next db), bg_rows := bg_rows db @ [r]\<rparr>)"
  using assms by (auto simp: ended_def drawn_def less_Suc_eq)

lemma ended_step: "reg_step db db' \<Longrightarrow> reg_wf db \<Longrightarrow> ended c j e db \<Longrightarrow> ended c j e db'"
proof (erule (1) reg_step_shape)
  fix f
  assume "ended c j e db" "db' = db\<lparr>bg_rows := map f (bg_rows db)\<rparr>" "\<And>r. r \<in> set (bg_rows db) \<Longrightarrow> quiet f r"
  then show "ended c j e db'" using ended_map by blast
next
  assume "ended c j e db" "bg_rows db' = bg_rows db" "uuids db' = uuids db" "uuid_next db \<le> uuid_next db'"
    "clock db \<le> clock db'"
  then show "ended c j e db'" by (auto simp: ended_def drawn_def)
next
  fix r
  assume wf: "reg_wf db" and e: "ended c j e db"
    and db': "db' = db\<lparr>uuid_next := Suc (uuid_next db), bg_rows := bg_rows db @ [r]\<rparr>"
    and r: "bg_jti r = uuids db (uuid_next db)" "bg_chain r = Some (bg_jti r)"
  have "bg_jti r \<notin> drawn db" using wf fresh_id [of db] r(1) by (simp add: reg_wf_def)
  moreover from this have "bg_chain r \<noteq> Some c" using e r(2) by (auto simp: ended_def)
  ultimately show "ended c j e db'" unfolding db' by (rule ended_append [OF e])
next
  fix row f new
  assume wf: "reg_wf db" and e: "ended c j e db" and row: "row \<in> set (bg_rows db)" "live row"
    and f: "\<And>r. r \<in> set (bg_rows db) \<Longrightarrow> quiet f r"
    and new: "bg_jti new = uuids db (uuid_next db)" "bg_chain new = bg_chain row"
    and db': "db' = db\<lparr>uuid_next := Suc (uuid_next db), bg_rows := map f (bg_rows db) @ [new]\<rparr>"
  let ?db = "db\<lparr>bg_rows := map f (bg_rows db)\<rparr>"
  have "bg_chain new \<noteq> Some c" using e row new(2) by (auto simp: ended_def)
  moreover have "bg_jti new \<notin> drawn ?db" using wf fresh_id [of db] new(1) by (auto simp: reg_wf_def drawn_def)
  ultimately have "ended c j e (?db\<lparr>uuid_next := Suc (uuid_next ?db), bg_rows := bg_rows ?db @ [new]\<rparr>)"
    using ended_map [OF e f] by (intro ended_append) auto
  then show "ended c j e db'" by (simp add: db')
next
  fix gone
  assume e: "ended c j e db" and db': "db' = db\<lparr>bg_rows := filter (\<lambda>r. \<not> gone r) (bg_rows db)\<rparr>"
    and gone: "\<And>r. r \<in> set (bg_rows db) \<Longrightarrow> gone r \<Longrightarrow> bg_expires r < clock db"
  have "e < clock db" if out: "j \<notin> bg_jti ` set (filter (\<lambda>r. \<not> gone r) (bg_rows db))"
  proof (cases "j \<in> bg_jti ` set (bg_rows db)")
    case True
    then obtain r where r: "r \<in> set (bg_rows db)" "bg_jti r = j" by blast
    with out have "gone r" by auto
    then have "bg_expires r < clock db" using gone r(1) by blast
    moreover have "e \<le> bg_expires r" using e r unfolding ended_def by blast
    ultimately show ?thesis by simp
  next
    case False
    with e show ?thesis unfolding ended_def by blast
  qed
  moreover have "drawn db' = drawn db" "clock db' = clock db" by (simp_all add: db' drawn_def)
  ultimately show "ended c j e db'" using e unfolding ended_def by (simp add: db')
qed

lemma ended_runs: "reg_runs db db' \<Longrightarrow> reg_wf db \<Longrightarrow> ended c j e db \<Longrightarrow> ended c j e db'"
  using reg_runs_invariant [of db db' "\<lambda>d. reg_wf d \<and> ended c j e d"] reg_step_wf ended_step by blast

end
