(* ===== verification/BgClaims.thy ===== *)
theory BgClaims
  imports BgLaws
begin

text \<open>
  The break-glass sessions as a system: requests, logins, logouts, revocations, purges, SSO requests and
  the whole anti-abuse subsystem, in any order, with outages and the passing of time. The claims about
  rotation, revocation and replay hold in every state this system reaches.
\<close>

section \<open>The system\<close>

inductive bg_step :: "'a sdb \<Rightarrow> 'a sdb \<Rightarrow> bool" where
  bg_request: "bg_step db (snd (process_breakglass_auth_request lib st sv sha rq cookie rot db))"
| bg_login: "bg_step db (snd (breakglass_login lib st sv sha verify exists rq u pw db))"
| bg_logout: "bg_step db (snd (revoke_session_from_request lib st sv cookie_opt db))"
| bg_admin_revoke: "bg_step db (snd (revoke_breakglass_jti jti who why db))"
| bg_purge: "bg_step db (snd (purge_expired_breakglass_sessions days db))"
| bg_sso: "bg_step db (snd (evaluate_sso_binding cfg sha wrq user kc db))"
| bg_sso_purge: "bg_step db (snd (purge_stale_sso_session_anchors days db))"
| bg_security: "sec_step db db' \<Longrightarrow> bg_step db db'"

definition bg_steps :: "'a sdb \<Rightarrow> 'a sdb \<Rightarrow> bool" where
  "bg_steps = rtranclp bg_step"

inductive bg_reachable :: "session_db \<Rightarrow> bool" where
  bg_start: "bg_rows db = [] \<Longrightarrow> supply_ok db \<Longrightarrow> bg_reachable db"
| bg_next: "bg_reachable db \<Longrightarrow> bg_step db db' \<Longrightarrow> bg_reachable db'"

lemma sec_step_registry: "sec_step db db' \<Longrightarrow> same_registry db db'"
proof (induction rule: sec_step.induct)
  case (sec_engine db db')
  then show ?case by (rule ban_steps_registry)
next
  case (sec_manual db ty tg re pe mi co actor fip)
  show ?case by (rule ban_steps_registry [OF manual_ban_steps])
next
  case (sec_list db)
  show ?case by (rule ban_steps_registry [OF list_active_steps])
qed (auto simp: same_registry_def begin_concurrent_def end_concurrent_def update_policy_misc_def get_policy_def
    update_ban_rules_def lift_ban_def extend_ban_minutes_def add_allowlist_entry_def remove_allowlist_entry_def
    ensure_security_defaults_def clear_failed_login_counters_def Let_def split: option.splits)

lemma bg_step_runs: "bg_step db db' \<Longrightarrow> reg_wf db \<Longrightarrow> reg_runs db db'"
  by (induction rule: bg_step.induct)
    (auto intro: reg_reach reg_purge_sessions reg_wf_chained reg_step_runs [OF reg_same] sec_step_registry)

lemma bg_step_wf: "bg_step db db' \<Longrightarrow> reg_wf db \<Longrightarrow> reg_wf db'"
  using bg_step_runs reg_runs_wf by blast

lemma bg_steps_invariant:
  assumes "bg_steps a b" and "P a" and "\<And>x y. bg_step x y \<Longrightarrow> P x \<Longrightarrow> P y"
  shows "P b"
  using assms unfolding bg_steps_def by (induction rule: rtranclp_induct) auto

lemma ended_steps: "bg_steps db db' \<Longrightarrow> reg_wf db \<Longrightarrow> ended c j e db \<Longrightarrow> reg_wf db' \<and> ended c j e db'"
  using bg_steps_invariant [of db db' "\<lambda>d. reg_wf d \<and> ended c j e d"] bg_step_runs bg_step_wf ended_runs by blast

text \<open>C15: the registry is sound in every reachable state, whatever requests, logins, logouts, revocations,
  purges, outages and anti-abuse operations happened: identifiers are distinct and come from the
  generator, every row belongs to a chain, all rows of a chain share one expiry (rotation never prolongs
  a session, and none outlives the eight hours from now), and a chain has at most one current row.\<close>

theorem registry_sound:
  assumes "bg_reachable db"
  shows "reg_wf db"
  using assms
proof (induction rule: bg_reachable.induct)
  case (bg_start db)
  then show ?case by (simp add: reg_wf_def chains_ok_def)
qed (rule bg_step_wf)

section \<open>Revoked sessions\<close>

definition checks_expiry :: "jwt_lib \<Rightarrow> bool" where
  \<comment> \<open>the token library refuses a token at its expiry\<close>
  "checks_expiry lib \<longleftrightarrow>
     (\<forall>now token secret p e. jw_decode lib True now token secret = Some p \<longrightarrow> cl_exp p = Some e \<longrightarrow> now < seconds e)"

definition carries :: "jwt_lib \<Rightarrow> string \<Rightarrow> string \<Rightarrow> int \<Rightarrow> bool" where
  \<comment> \<open>the cookie names the session \<open>jti\<close> and expires by \<open>expiry\<close>\<close>
  "carries lib cookie jti expiry \<longleftrightarrow>
     (\<forall>v now secret p. jw_decode lib v now cookie secret = Some p \<longrightarrow>
        cl_jti p = Some jti \<and> (\<exists>e. cl_exp p = Some e \<and> seconds e \<le> expiry))"

lemma decode_tokenD:
  "decode_breakglass_token lib now cookie secret aud strict = Some p \<Longrightarrow>
   jw_decode lib True now cookie secret = Some p \<and> cl_exp p \<noteq> None"
  by (auto simp: decode_breakglass_token_def split: if_splits option.splits)

lemma decode_secretsD:
  "decode_with_secrets lib now cookie aud strict ss = Some (p, b) \<Longrightarrow>
   \<exists>secret. jw_decode lib True now cookie secret = Some p \<and> cl_exp p \<noteq> None"
  by (induction lib now cookie aud strict ss rule: decode_with_secrets.induct)
    (auto dest: decode_tokenD split: option.splits)

lemma decode_fallbackD:
  "decode_breakglass_token_with_fallback lib st sv now cookie = Ok (Some (p, b)) \<Longrightarrow>
   \<exists>secret. jw_decode lib True now cookie secret = Some p \<and> cl_exp p \<noteq> None"
  by (auto simp: decode_breakglass_token_with_fallback_def split: result.splits dest: decode_secretsD)

lemma carries_decoded:
  assumes "decode_breakglass_token_with_fallback lib st sv now cookie = Ok (Some (p, b))"
    and "carries lib cookie jti expiry" and "checks_expiry lib"
  shows "cl_jti p = Some jti" and "now < expiry"
proof -
  obtain secret where d: "jw_decode lib True now cookie secret = Some p" using decode_fallbackD [OF assms(1)] by blast
  then obtain e where e: "cl_jti p = Some jti" "cl_exp p = Some e" "seconds e \<le> expiry"
    using assms(2) unfolding carries_def by blast
  then show "cl_jti p = Some jti" by simp
  have "now < seconds e" using assms(3) d e(2) unfolding checks_expiry_def by blast
  with e(3) show "now < expiry" by simp
qed

lemma drawn_nonempty: "reg_wf db \<Longrightarrow> j \<in> drawn db \<Longrightarrow> j \<noteq> []"
  by (auto simp: reg_wf_def supply_ok_def drawn_def) (metis strip_Nil)

lemma ended_lookup:
  assumes "reg_wf db" and "ended c j e db" and "clock db < e"
  obtains r where "find_bg db j = Some r" "\<not> live r"
proof -
  have "j \<in> bg_jti ` set (bg_rows db)" using assms(2,3) unfolding ended_def by auto
  then obtain r where r: "find_bg db j = Some r"
    by (cases "find_bg db j") (auto simp: find_bg_def)
  then have "r \<in> set (bg_rows db)" "bg_jti r = j" using find_bg_row by blast+
  then have "\<not> live r" using assms(2) unfolding ended_def by blast
  with r show ?thesis by (rule that)
qed

lemma live_ensure [simp]: "live (ensure_chain_id r) = live r"
  by (simp add: live_def ensure_chain_id_def)

lemma ended_refused:
  assumes wf: "reg_wf db" and ended: "ended c j e db" and up: "hot_up db"
    and cookie: "carries lib cookie j e" "checks_expiry lib"
  shows "fst (process_breakglass_auth_request lib st sv sha rq cookie rot db) = Ok res \<Longrightarrow> \<not> ar_ok res"
    and "validate_breakglass_cookie lib st sv cookie db \<noteq> Ok True"
proof -
  have j: "j \<noteq> []" using drawn_nonempty [OF wf] ended unfolding ended_def by blast
  have row: "\<exists>r. find_bg db j = Some r \<and> \<not> live r"
    if "decode_breakglass_token_with_fallback lib st sv (clock db) cookie = Ok (Some (p, b))" for p b
    using ended_lookup [OF wf ended carries_decoded(2) [OF that cookie]] by blast
  note jti = carries_decoded(1) [OF _ cookie]
  show "\<not> ar_ok res" if "fst (process_breakglass_auth_request lib st sv sha rq cookie rot db) = Ok res"
    using that j row jti
    by (fastforce simp: process_breakglass_auth_request_def process_row_def Let_def opt_str_def up auth_refused_def
        live_def ensure_chain_id_def split: result.splits option.splits prod.splits if_splits)
  show "validate_breakglass_cookie lib st sv cookie db \<noteq> Ok True"
    using j row jti
    by (fastforce simp: validate_breakglass_cookie_def jti_allowed_def is_breakglass_jti_revoked_def opt_str_def up
        live_def split: result.splits option.splits prod.splits if_splits)
qed

lemma mark_ends:
  assumes wf: "reg_wf db" and j: "find_bg db j = Some r" and c: "bg_chain r = Some c"
  shows "ended c j (bg_expires r) (snd (mark_chain_revoked c db))"
proof -
  let ?f = "\<lambda>r. if bg_chain r = Some c then r\<lparr>bg_chain_revoked := True\<rparr> else r"
  have r: "r \<in> set (bg_rows db)" "bg_jti r = j" using find_bg_row [OF j] by blast+
  have rows: "set (bg_rows (snd (mark_chain_revoked c db))) = ?f ` set (bg_rows db)"
    by (auto simp: mark_chain_revoked_def update_rows_def)
  have "drawn (snd (mark_chain_revoked c db)) = drawn db"
    by (simp add: drawn_def mark_chain_revoked_def)
  moreover have "c \<in> drawn db" "j \<in> drawn db"
    using wf r c unfolding reg_wf_def row_ok_def by auto
  moreover have "\<not> live (?f x)" if "bg_chain (?f x) = Some c" for x
    using that by (auto simp: live_def split: if_splits)
  moreover have "bg_chain (?f x) = Some c \<and> bg_expires r \<le> bg_expires (?f x)"
    if x: "x \<in> set (bg_rows db)" "bg_jti (?f x) = j" for x
  proof -
    have "bg_jti x = bg_jti r" using x(2) r(2) by (simp split: if_splits)
    then have "x = r" by (rule reg_wf_unique [OF wf x(1) r(1)])
    then show ?thesis using c by simp
  qed
  moreover have "j \<in> bg_jti ` ?f ` set (bg_rows db)"
    by (rule image_eqI [OF _ imageI [OF r(1)]]) (simp add: r(2))
  ultimately show ?thesis
    unfolding ended_def rows by (simp only: ball_simps) blast
qed

lemma mark_after_ends:
  \<comment> \<open>marking the chain of a row that is touched first\<close>
  assumes wf: "reg_wf db" and q: "find_bg db jti = Some row" "quiet (\<lambda>_. row') row"
    and j: "find_bg db j = Some r" and c: "bg_chain r = bg_chain row"
  shows "ended (chain_of row) j (bg_expires r) (snd (mark_chain_revoked (chain_of row) (put_bg db jti row')))"
proof -
  have keep: "bg_jti row' = jti" "keeps_place (\<lambda>_. row') row"
    using q find_bg_row [OF q(1)] by (auto simp: quiet_def keeps_place_def)
  have chain: "bg_chain row = Some (chain_of row)"
    using chained_chain_of [OF reg_wf_chained [OF wf]] find_bg_row [OF q(1)] by blast
  obtain r' where r': "find_bg (put_bg db jti row') j = Some r'" "bg_expires r' = bg_expires r"
    "bg_chain r' = bg_chain row"
  proof (cases "j = jti")
    case True
    with j q(1) have "r = row" by simp
    with True bg_table.find_put_same [OF q(1) keep(1)] keep(2) show ?thesis
      by (intro that [of row']) (auto simp: keeps_place_def)
  next
    case False
    then show ?thesis using j c bg_table.find_put_other [of jti j row' db] keep(1) by (intro that [of r]) auto
  qed
  have "reg_wf (put_bg db jti row')" by (rule reg_wf_put [OF wf q(1) keep(2)])
  from mark_ends [OF this r'(1)] r' chain show ?thesis by simp
qed

lemma revoke_ends:
  assumes wf: "reg_wf db" and rev: "revoke_breakglass_jti jti who why db = (Ok row, db1)"
    and j: "find_bg db j = Some r" and c: "chain_of r = chain_of row"
  shows "\<exists>c. ended c j (bg_expires r) db1"
proof -
  obtain row0 where row0: "find_bg db jti = Some row0"
    using rev by (auto simp: revoke_breakglass_jti_def split: if_splits option.splits)
  have chains: "bg_chain row0 = Some (chain_of row0)" "bg_chain r = Some (chain_of r)"
    using chained_chain_of [OF reg_wf_chained [OF wf]] find_bg_row row0 j by blast+
  then have e: "ensure_chain_id row0 = row0" by (simp add: ensure_chain_id_def)
  let ?row = "if bg_revoked row0 then row0
    else row0\<lparr>bg_revoked := True, bg_revoked_at := Some (clock db), bg_revoked_by := Some who,
      bg_reason := str_opt (strip (opt_str why))\<rparr>"
  have same: "chain_of ?row = chain_of row0" by (simp add: chain_of_def)
  have q: "quiet (\<lambda>_. ?row) row0" by (auto simp: quiet_def keeps_place_def live_def is_tip_def)
  have db1: "db1 = snd (mark_chain_revoked (chain_of row0) (put_bg db jti ?row))" "chain_of row = chain_of row0"
    using rev row0 e same by (auto simp: revoke_breakglass_jti_def Let_def chain_of_def split: if_splits)
  have "ended (chain_of row0) j (bg_expires r) db1"
    unfolding db1(1) by (rule mark_after_ends [OF wf row0 q j]) (use chains c db1(2) in simp)
  then show ?thesis by blast
qed

definition shut_out :: "jwt_lib \<Rightarrow> string \<Rightarrow> int \<Rightarrow> 'a sdb \<Rightarrow> bool" where
  \<comment> \<open>whatever happens from \<open>db\<close> on, a cookie of the session is refused by every request and check made
    while the registry can be read; with the hot store down the code takes any correctly signed cookie\<close>
  "shut_out lib jti expiry db \<longleftrightarrow>
     (\<forall>cookie db2 st sv sha rq rot. carries lib cookie jti expiry \<longrightarrow> bg_steps db db2 \<longrightarrow> hot_up db2 \<longrightarrow>
        (\<forall>res. fst (process_breakglass_auth_request lib st sv sha rq cookie rot db2) = Ok res \<longrightarrow> \<not> ar_ok res) \<and>
        validate_breakglass_cookie lib st sv cookie db2 \<noteq> Ok True)"

lemma ended_shut_out: "reg_wf db \<Longrightarrow> ended c j e db \<Longrightarrow> checks_expiry lib \<Longrightarrow> shut_out lib j e db"
  unfolding shut_out_def
proof (intro allI impI conjI)
  fix cookie db2 st sv sha rq rot res
  assume a: "reg_wf db" "ended c j e db" "checks_expiry lib" "carries lib cookie j e" "bg_steps db db2" "hot_up db2"
  then have now: "reg_wf db2" "ended c j e db2" using ended_steps by blast+
  show "validate_breakglass_cookie lib st sv cookie db2 \<noteq> Ok True"
    by (rule ended_refused(2) [OF now a(6,4,3)])
  assume "fst (process_breakglass_auth_request lib st sv sha rq cookie rot db2) = Ok res"
  then show "\<not> ar_ok res" by (rule ended_refused(1) [OF now a(6,4,3)])
qed

text \<open>C13: a revoked break-glass session stays out: once an administrator or a logout revoked a session, every
  cookie of its rotation chain is refused by every later request and check made while the registry (the
  hot store) can be read, whatever happened in between (requests, logins, purges of the registry,
  outages, bans). A purged row does not revive its cookie, because the cookie has expired by then. While
  the hot store is down the code, by design, accepts any correctly signed cookie, a revoked one
  included; the claim says nothing of those moments. It holds from a sound registry, for a token library
  that refuses a token at its expiry.\<close>

theorem revoked_session_stays_out:
  assumes "reg_wf db" and "revoke_breakglass_jti jti who why db = (Ok row, db1)" and "checks_expiry lib"
    and "find_bg db j = Some r" and "chain_of r = chain_of row"
  shows "shut_out lib j (bg_expires r) db1"
proof -
  obtain c where "ended c j (bg_expires r) db1" using revoke_ends [OF assms(1,2,4,5)] by blast
  moreover have "reg_wf db1" using reg_runs_wf [OF reg_revoke_jti assms(1)] assms(2) by (metis snd_conv)
  ultimately show ?thesis using ended_shut_out assms(3) by blast
qed

text \<open>C25: replaying a stolen cookie cuts both sides: a cookie that rotation has superseded, presented after
  its five seconds of grace while the registry (the hot store) can be read, is refused, the reuse is
  journaled, and from then on every cookie of the chain, the newest included, is refused by every request
  and check made while the registry can be read. While the hot store is down the code, by design, accepts
  any correctly signed cookie. It holds from a sound registry, for a chain that is not revoked yet and a
  token library that refuses a token at its expiry.\<close>

theorem replay_cuts_chain:
  assumes "reg_wf db" and "hot_up db" and "checks_expiry lib"
    and "decode_breakglass_token_with_fallback lib st sv (clock db) cookie = Ok (Some (payload, legacy))"
    and "find_bg db (opt_str (cl_jti payload)) = Some row" and "live row"
    and "\<not> is_tip row" and "\<not> within_grace (clock db) row"
    and "resolve_signing_secret st sv = Ok (secret, source)"
    and "process_breakglass_auth_request lib st sv sha rq cookie rot db = (res, db')"
  shows "res = Ok auth_refused \<and>
    (\<exists>a \<in> set (audit db'). au_action a = ''breakglass_cookie_replay_detected'' \<and> au_target a = Some (chain_of row)) \<and>
    (\<forall>j r. find_bg db j = Some r \<longrightarrow> chain_of r = chain_of row \<longrightarrow> shut_out lib j (bg_expires r) db')"
proof -
  let ?jti = "opt_str (cl_jti payload)" and ?row = "ensure_chain_id row"
  have jti: "?jti \<noteq> []"
    using find_bg_row [OF assms(5)] drawn_nonempty [OF assms(1)] assms(1) by (auto simp: reg_wf_def row_ok_def)
  have chain: "chain_of ?row = chain_of row" "bg_chain row = Some (chain_of row)"
    using chained_chain_of [OF reg_wf_chained [OF assms(1)]] find_bg_row [OF assms(5)]
    by (simp_all add: chain_of_def ensure_chain_id_def opt_str_def)
  then have e: "?row = row" by (simp add: ensure_chain_id_def)
  have "bg_superseded_by row \<noteq> None" using assms(7) by (auto simp: is_tip_def opt_str_def split: option.splits)
  then obtain u where run: "process_breakglass_auth_request lib st sv sha rq cookie rot db =
      process_replay (st_net st) sha rq row u ?jti (put_bg db ?jti row)"
    using assms(2,4-9) jti e
    by (simp add: process_breakglass_auth_request_def process_row_def Let_def live_def put_bg_def)
  obtain actor d ip where db': "db' = log_action actor ''breakglass_cookie_replay_detected'' (Some (chain_of row)) d ip
      (snd (mark_chain_revoked (chain_of row) (put_bg db ?jti row)))" and res: "res = Ok auth_refused"
    using assms(10) unfolding run process_replay_def by (auto simp: Let_def)
  have "reg_wf db'" using reg_runs_wf [OF reg_process assms(1)] assms(10) by (metis snd_conv)
  moreover have "ended (chain_of row) j (bg_expires r) db'"
    if "find_bg db j = Some r" "chain_of r = chain_of row" for j r
  proof -
    have "bg_chain r = Some (chain_of r)"
      using chained_chain_of [OF reg_wf_chained [OF assms(1)]] find_bg_row [OF that(1)] by blast
    then have "bg_chain r = bg_chain row" using that(2) chain(2) by simp
    from mark_after_ends [OF assms(1,5) _ that(1) this, of row] show ?thesis
      by (simp add: db' ended_def drawn_def quiet_def keeps_place_def)
  qed
  ultimately have "shut_out lib j (bg_expires r) db'"
    if "find_bg db j = Some r" "chain_of r = chain_of row" for j r
    using that ended_shut_out assms(3) by blast
  moreover have "hot_up (snd (mark_chain_revoked (chain_of row) (put_bg db ?jti row)))"
    using assms(2) by (simp add: mark_chain_revoked_def put_bg_def)
  then have "\<exists>a \<in> set (audit db'). au_action a = ''breakglass_cookie_replay_detected'' \<and> au_target a = Some (chain_of row)"
    by (auto simp: db' log_action_def split: prod.split)
  ultimately show ?thesis using res by blast
qed

section \<open>The nginx check and rotation\<close>

definition place :: "bg_row \<Rightarrow> string \<times> string option" where
  "place r = (bg_jti r, bg_superseded_by r)"

definition keeps_chain :: "'a sdb \<Rightarrow> 'a sdb \<Rightarrow> bool" where
  "keeps_chain a b \<longleftrightarrow> (reg_wf a \<longrightarrow> reg_wf b \<and> map place (bg_rows b) = map place (bg_rows a))"

interpretation fixed: run_relation keeps_chain
  by unfold_locales (auto simp: keeps_chain_def)

lemma fixed_log: "keeps_chain db (log_action a b c d i db)"
  using reg_runs_wf [OF reg_log] by (auto simp: keeps_chain_def)

lemma fixed_put:
  assumes "find_bg db jti = Some r" and "core r' = core r" and "bg_chain r' = bg_chain r"
  shows "keeps_chain db (put_bg db jti r')"
  unfolding keeps_chain_def
proof (intro impI conjI)
  assume wf: "reg_wf db"
  then show "reg_wf (put_bg db jti r')" by (rule reg_runs_wf [OF reg_put [OF assms]])
  have "place (if bg_jti x = jti then r' else x) = place x" if "x \<in> set (bg_rows db)" for x
    using reg_wf_unique [OF wf that, of r] find_bg_row [OF assms(1)] core_eqD [OF assms(2)]
    by (auto simp: place_def)
  then show "map place (bg_rows (put_bg db jti r')) = map place (bg_rows db)"
    by (simp add: put_bg_def update_rows_def)
qed

lemma fixed_log_put:
  assumes "find_bg db jti = Some r" and "core r' = core r" and "bg_chain r' = bg_chain r"
  shows "keeps_chain db (put_bg (log_action a b c d i db) jti r')"
proof (rule fixed.runs_trans [OF fixed_log fixed_put])
  show "find_bg (log_action a b c d i db) jti = Some r" using assms(1) by (simp add: find_bg_def)
qed (use assms in simp_all)

lemma fixed_mark: "keeps_chain db (snd (mark_chain_revoked c db))"
  using reg_runs_wf [OF reg_mark_runs]
  by (auto simp: keeps_chain_def mark_chain_revoked_def update_rows_def place_def)

lemma fixed_binding: "keeps_chain db (snd (evaluate_breakglass_binding cfg sha rq jti u db))"
proof (cases "find_bg db jti")
  case (Some row)
  have reject: "keeps_chain db (reject_breakglass_strong_drift row u jti s f ip db)" for s f ip
    unfolding reject_breakglass_strong_drift_def Let_def
    by (rule fixed.runs_trans [OF fixed_put fixed_log]) (auto simp: Some)
  have "keeps_chain db (snd (x, put_bg (if c then log_action a b t d i db else db) jti
      (row\<lparr>bg_last_subnet := s, bg_last_fp := f\<rparr>)))" for c a b t d i s f and x :: "(db_error, bool) result"
    using Some by (auto intro: fixed_put fixed_log_put)
  then show ?thesis
    unfolding evaluate_breakglass_binding_def Let_def Some option.case
    by (intro fixed.run_if) (auto intro!: fixed_put reject Some fixed.runs_refl)
qed (simp add: evaluate_breakglass_binding_def fixed.runs_refl)

lemma fixed_row: "keeps_chain db (snd (process_row lib st sv sha rq row p u jti False db))"
proof -
  have "keeps_chain db (snd (process_grace lib cfg sha rq row p u jti s False db))" for cfg s
    unfolding process_grace_def Let_def
    by (auto intro!: fixed.run_pair fixed.run_result fixed.run_bool fixed_binding fixed.run_snd fixed.runs_refl)
  moreover have "keeps_chain db (snd (process_replay cfg sha rq row u jti db))" for cfg
    unfolding process_replay_def Let_def by (intro fixed.run_snd fixed.runs_trans [OF fixed_mark fixed_log])
  moreover have "keeps_chain db (snd (process_current lib cfg sha rq row p u jti s False db))" for cfg s
    unfolding process_current_def Let_def
    by (auto intro!: fixed.run_pair fixed.run_result fixed.run_bool fixed_binding fixed.run_snd fixed.runs_refl)
  ultimately show ?thesis
    unfolding process_row_def by (auto split: result.split intro: fixed.runs_refl)
qed

lemma unrotated_cookie:
  "fst (process_row lib st sv sha rq row p u jti False db) = Ok res \<Longrightarrow> ar_set_cookie res = None"
  by (auto simp: process_row_def process_grace_def process_replay_def process_current_def auth_refused_def
      auth_ok_def Let_def split: if_splits result.splits prod.splits bool.splits)

text \<open>The check nginx makes before each request (\<open>rotate=False\<close>) never advances a chain: it sets no
  cookie, supersedes no row and issues none, so the cookie the browser still holds stays current.\<close>

theorem check_never_rotates:
  assumes "reg_wf db"
    and "process_breakglass_auth_request lib st sv sha rq cookie False db = (res, db')"
  shows "(\<forall>r. res = Ok r \<longrightarrow> ar_set_cookie r = None) \<and>
    map bg_jti (bg_rows db') = map bg_jti (bg_rows db) \<and>
    map bg_superseded_by (bg_rows db') = map bg_superseded_by (bg_rows db)"
proof -
  have ensure: "keeps_chain db (put_bg db jti (ensure_chain_id r))" if "find_bg db jti = Some r" for jti r
  proof -
    have "ensure_chain_id r = r"
      using chained_chain_of [OF reg_wf_chained [OF assms(1)]] find_bg_row [OF that] by (simp add: ensure_chain_id_def)
    with fixed_put [OF that] show ?thesis by simp
  qed
  have "keeps_chain db (snd (process_breakglass_auth_request lib st sv sha rq cookie False db))"
    unfolding process_breakglass_auth_request_def Let_def
    by (auto split: result.split option.split intro: fixed.runs_refl fixed.runs_trans [OF ensure fixed_row])
  then have "map place (bg_rows db') = map place (bg_rows db)"
    using assms by (simp add: keeps_chain_def)
  then have "map (fst \<circ> place) (bg_rows db') = map (fst \<circ> place) (bg_rows db)"
    "map (snd \<circ> place) (bg_rows db') = map (snd \<circ> place) (bg_rows db)"
    by (simp_all flip: map_map)
  moreover have "fst \<circ> place = bg_jti" "snd \<circ> place = bg_superseded_by"
    by (auto simp: place_def)
  moreover have "ar_set_cookie r = None" if "res = Ok r" for r
    using assms(2) unfolding process_breakglass_auth_request_def that Let_def
    by (auto simp: auth_ok_def auth_refused_def dest!: arg_cong [of _ "(Ok r, db')" fst] dest: unrotated_cookie
        split: result.splits option.splits prod.splits if_splits)
  ultimately show ?thesis by simp
qed

section \<open>Login\<close>

definition same_session :: "'a sdb \<Rightarrow> 'a sdb \<Rightarrow> bool" where
  "same_session db db' \<longleftrightarrow> same_registry db db' \<and> hot_up db' = hot_up db \<and> clock db' = clock db"

lemma ban_steps_session: "ban_steps db db' \<Longrightarrow> same_session db db'"
  using ban_steps_registry [of db db'] ban_steps_setup [of db db'] by (simp add: same_session_def same_setup_def)

lemma same_session_trans: "same_session a b \<Longrightarrow> same_session b c \<Longrightarrow> same_session a c"
  by (auto simp: same_session_def same_registry_def)

lemma log_session: "same_session db (log_action a b c d i db)"
  by (rule ban_steps_session [OF steps_log])

lemma login_cases:
  assumes "breakglass_login lib st sv sha verify exists rq u pw db = (res, db')"
  obtains (refused) e where "res = Raise e" "same_session db db'"
  | (opened) db1 db2 db3 signing source tok jti where
      "resolve_signing_secret st sv = Ok (signing, source)"
      "is_breakglass_ip_allowed db (client_ip_from_request (st_net st) rq) (st_rfc1918 st) = (True, db1)"
      "le_allowed (fst (evaluate_login_attempt (client_ip_from_request (st_net st) rq) u True db1))"
      "verify u pw" "same_session db db2" "res = Ok tok" "same_session db3 db'"
      "issue_breakglass_token lib (st_net st) sha u signing (Some rq) (Some (resolve_breakglass_jwt_audience st)) db2
        = ((tok, jti), db3)"
proof -
  let ?ip = "client_ip_from_request (st_net st) rq"
  obtain ok db1 where gate: "is_breakglass_ip_allowed db ?ip (st_rfc1918 st) = (ok, db1)" by fastforce
  obtain pre db2 where pre: "evaluate_login_attempt ?ip u True db1 = (pre, db2)" by fastforce
  have "same_session db db1" using ban_steps_session [OF breakglass_ip_steps, of db ?ip "st_rfc1918 st"] gate by simp
  then have s2: "same_session db db2" and s1: "same_session db db1"
    using ban_steps_session [OF evaluate_login_steps, of db1 ?ip u True] pre same_session_trans by fastforce+
  have fail: "same_session db (log_action a b c d i (snd (evaluate_login_attempt ?ip u False db2)))" for a b c d i
    by (rule same_session_trans [OF s2 same_session_trans [OF ban_steps_session [OF evaluate_login_steps] log_session]])
  have win: "same_session d (log_action a b c e i (snd (record_successful_login ?ip u d)))" for a b c d e i
    by (rule same_session_trans [OF ban_steps_session [OF successful_login_steps] log_session])
  show ?thesis
  proof (cases "resolve_signing_secret st sv")
    case (Raise e)
    with assms show ?thesis
      using refused [of SecretUnavailable] by (simp add: breakglass_login_def same_session_def same_registry_def)
  next
    case (Ok v)
    then obtain signing source where res: "resolve_signing_secret st sv = Ok (signing, source)" by (cases v) auto
    obtain tok jti db3 where issue: "issue_breakglass_token lib (st_net st) sha u signing (Some rq)
        (Some (resolve_breakglass_jwt_audience st)) db2 = ((tok, jti), db3)" by (metis prod.exhaust)
    note run = assms [unfolded breakglass_login_def Let_def deny_breakglass_if_ip_blocked_def]
    consider "\<not> ok" | "ok" "\<not> le_allowed pre" | "ok" "le_allowed pre" "\<not> verify u pw" | "ok" "le_allowed pre" "verify u pw"
      by blast
    then show ?thesis
    proof cases
      case 1
      with run gate res s1 same_session_trans [OF s1 log_session] show ?thesis by (auto intro: refused)
    next
      case 2
      with run gate res pre s2 show ?thesis by (auto intro: refused)
    next
      case 3
      with run gate res pre fail show ?thesis by (auto intro: refused simp: case_prod_beta)
    next
      case 4
      with run gate res pre issue win [of db3] show ?thesis
        by (intro opened [of signing source db1 db2 tok db3 jti]) (auto simp: case_prod_beta s2)
    qed
  qed
qed

definition opened_row :: "bg_settings \<Rightarrow> (string \<Rightarrow> string) \<Rightarrow> request \<Rightarrow> string \<Rightarrow> string \<Rightarrow> int \<Rightarrow> bg_row" where
  \<comment> \<open>the row of a session opened now by this request\<close>
  "opened_row st sha rq u jti now =
     apply_breakglass_login_anchor (st_net st) sha rq
       ((new_bg_row jti u now (now + seconds cookie_max_age) jti)\<lparr>bg_mismatch := Some 0\<rparr>)"

lemma issue_up:
  assumes "hot_up db" and "issue_breakglass_token lib (st_net st) sha u signing (Some rq) aud db = ((tok, jti), db3)"
  shows "jti = uuids db (uuid_next db)"
    and "tok = create_breakglass_token lib (clock db) u signing jti cookie_max_age aud"
    and "db3 = db\<lparr>uuid_next := Suc (uuid_next db), bg_rows := bg_rows db @ [opened_row st sha rq u jti (clock db)]\<rparr>"
  using assms by (auto simp: issue_breakglass_token_def take_uuid_def Let_def opened_row_def)

lemma issue_down:
  assumes "\<not> hot_up db" and "issue_breakglass_token lib (st_net st) sha u signing rq aud db = ((tok, jti), db3)"
  shows "jti = uuids db (uuid_next db)" and "bg_rows db3 = bg_rows db"
    and "tok = create_breakglass_token lib (clock db) u signing jti degraded_token_ttl_sec aud"
  using assms by (auto simp: issue_breakglass_token_def take_uuid_def Let_def)

text \<open>C26: the sign-in handler of the API opens a break-glass session only for a client in the allowed networks
  that the anti-abuse engine lets try, with the right password. While the hot store can be reached the
  session is then one new row, of that user, bound to the network and browser of the login, and its row
  and token end eight hours later; during an outage it is a token of thirty minutes and no row at all. A
  refused login changes no row. (The sign-in page and the first-run set-up are other handlers, outside
  this claim.)\<close>

theorem login_is_guarded:
  assumes "breakglass_login lib st sv sha verify exists rq u pw db = (res, db')"
  shows "(\<forall>e. res = Raise e \<longrightarrow> bg_rows db' = bg_rows db) \<and>
    (\<forall>tok. res = Ok tok \<longrightarrow>
       verify u pw \<and> breakglass_gate (policy_of db) (client_ip_from_request (st_net st) rq) (st_rfc1918 st) \<and>
       le_allowed (fst (evaluate_login_attempt (client_ip_from_request (st_net st) rq) u True
         (snd (is_breakglass_ip_allowed db (client_ip_from_request (st_net st) rq) (st_rfc1918 st))))) \<and>
       (\<exists>signing source. resolve_signing_secret st sv = Ok (signing, source) \<and>
          tok = create_breakglass_token lib (clock db) u signing (uuids db (uuid_next db))
            (if hot_up db then cookie_max_age else degraded_token_ttl_sec)
            (Some (resolve_breakglass_jwt_audience st))) \<and>
       bg_rows db' = bg_rows db @
         (if hot_up db then [opened_row st sha rq u (uuids db (uuid_next db)) (clock db)] else []))"
  using assms(1)
proof (cases rule: login_cases)
  case (refused e)
  then show ?thesis by (simp add: same_session_def same_registry_def)
next
  case (opened db1 db2 db3 signing source tok jti)
  have gate: "breakglass_gate (policy_of db) (client_ip_from_request (st_net st) rq) (st_rfc1918 st)"
    and db1: "db1 = snd (is_breakglass_ip_allowed db (client_ip_from_request (st_net st) rq) (st_rfc1918 st))"
    using opened(2) by (simp_all add: is_breakglass_ip_allowed_def get_policy_def Let_def)
  have db2: "hot_up db2 = hot_up db" "clock db2 = clock db" "uuids db2 = uuids db" "uuid_next db2 = uuid_next db"
    "bg_rows db2 = bg_rows db" and rows: "bg_rows db' = bg_rows db3"
    using opened(5,7) by (simp_all add: same_session_def same_registry_def)
  have "tok = create_breakglass_token lib (clock db) u signing (uuids db (uuid_next db))
      (if hot_up db then cookie_max_age else degraded_token_ttl_sec) (Some (resolve_breakglass_jwt_audience st)) \<and>
    bg_rows db' = bg_rows db @
      (if hot_up db then [opened_row st sha rq u (uuids db (uuid_next db)) (clock db)] else [])"
    using issue_up [OF _ opened(8)] issue_down [OF _ opened(8)] by (cases "hot_up db") (simp_all add: db2 rows)
  then show ?thesis using opened(1,3,4,6) gate unfolding db1 by simp
qed

definition bg_claims :: "string \<Rightarrow> int \<Rightarrow> int \<Rightarrow> int \<Rightarrow> string \<Rightarrow> string \<Rightarrow> claims" where
  \<comment> \<open>the claims of an issued token\<close>
  "bg_claims sub iat exp act jti aud =
     \<lparr>cl_sub = Some sub, cl_iat = Some iat, cl_exp = Some exp, cl_last = Some act, cl_type = Some ''bg'',
      cl_jti = Some jti, cl_aud = AudText aud\<rparr>"

definition faithful :: "jwt_lib \<Rightarrow> bool" where
  \<comment> \<open>no token is the empty text, and a token issued with a key decodes with it to the claims it was made
    of, from the second of its issue until it expires\<close>
  "faithful lib \<longleftrightarrow>
     (\<forall>c secret. jw_encode lib c secret \<noteq> []) \<and>
     (\<forall>now sub iat exp act jti aud secret. secret \<noteq> [] \<longrightarrow> seconds iat \<le> now \<longrightarrow> now < seconds exp \<longrightarrow>
        jw_decode lib True now (jw_encode lib (bg_claims sub iat exp act jti aud) secret) secret =
          Some (bg_claims sub iat exp act jti aud))"

lemma resolve_audience: "resolve_breakglass_jwt_audience st \<noteq> [] \<and>
    strip (resolve_breakglass_jwt_audience st) = resolve_breakglass_jwt_audience st"
proof -
  have "strip default_breakglass_audience = default_breakglass_audience \<and> default_breakglass_audience \<noteq> []" by code_simp
  then show ?thesis by (simp add: resolve_breakglass_jwt_audience_def Let_def)
qed

lemma validation_head:
  assumes "resolve_signing_secret st sv = Ok (s, src)" and "s \<noteq> []"
  shows "\<exists>rest. validation_secrets st sv = Ok ((s, src) # rest)"
  using assms by (auto simp: validation_secrets_def Let_def opt_str_def)

definition login_claims :: "bg_settings \<Rightarrow> string \<Rightarrow> string \<Rightarrow> int \<Rightarrow> claims" where
  "login_claims st u jti now =
     bg_claims u (now div 1000000) ((now + seconds cookie_max_age) div 1000000) (now div 1000000) jti
       (resolve_breakglass_jwt_audience st)"

lemma login_token_decodes:
  assumes "faithful lib" and "resolve_signing_secret st sv = Ok (s, src)" and "s \<noteq> []"
    and "0 \<le> dt" and "dt \<le> seconds idle_timeout_seconds"
  shows "\<exists>b. decode_breakglass_token_with_fallback lib st sv (now + dt)
      (create_breakglass_token lib now u s jti cookie_max_age (Some (resolve_breakglass_jwt_audience st)))
    = Ok (Some (login_claims st u jti now, b))"
proof -
  let ?c = "login_claims st u jti now"
  have tok: "create_breakglass_token lib now u s jti cookie_max_age (Some (resolve_breakglass_jwt_audience st))
      = jw_encode lib ?c s"
    using resolve_audience [of st] by (simp add: create_breakglass_token_def login_claims_def bg_claims_def opt_str_def)
  have "now + dt < seconds ((now + seconds cookie_max_age) div 1000000)"
    using assms(5) by (simp add: seconds_def cookie_max_age_def idle_timeout_seconds_def)
  moreover have "seconds (now div 1000000) \<le> now + dt"
    using assms(4) div_mult_mod_eq [of now 1000000] pos_mod_sign [of 1000000 now] by (simp add: seconds_def)
  ultimately have dec: "jw_encode lib ?c s \<noteq> []" "jw_decode lib True (now + dt) (jw_encode lib ?c s) s = Some ?c"
    using assms(1,3) unfolding faithful_def login_claims_def by blast+
  have "(now + dt) div 1000000 - now div 1000000 \<le> idle_timeout_seconds"
    using assms(5) zdiv_mono1 [of "now + dt" "now + 1800 * 1000000" 1000000]
    by (simp add: seconds_def idle_timeout_seconds_def)
  then have "decode_breakglass_token lib (now + dt) (jw_encode lib ?c s) s
      (Some (resolve_breakglass_jwt_audience st)) strict = Some ?c" for strict
    using dec assms(3) resolve_audience [of st]
    by (simp add: decode_breakglass_token_def login_claims_def bg_claims_def jwt_audience_matches_def)
  then show ?thesis
    using validation_head [OF assms(2,3)] unfolding tok
    by (auto simp: decode_breakglass_token_with_fallback_def)
qed

lemma binding_accepts:
  assumes "hot_up db" and "find_bg db jti = Some row"
    and "anchored row \<Longrightarrow> opt_str (bg_first_subnet row) = subnet_from_request cfg rq"
  obtains db2 row2 where "evaluate_breakglass_binding cfg sha rq jti u db = (Ok True, db2)"
    "find_bg db2 jti = Some row2" "live row2 = live row" "bg_superseded_by row2 = bg_superseded_by row"
proof (cases "anchored row")
  case True
  obtain row2 where "evaluate_breakglass_binding cfg sha rq jti u db =
      (Ok (same_signal (bg_first_subnet row) (subnet_from_request cfg rq)), snd (evaluate_breakglass_binding cfg sha rq jti u db))"
    "find_bg (snd (evaluate_breakglass_binding cfg sha rq jti u db)) jti = Some row2"
    "bg_chain_revoked row2 = bg_chain_revoked row" "bg_revoked row2 = bg_revoked row"
    "bg_superseded_by row2 = bg_superseded_by row"
    using binding_outcome [OF assms(1,2) True] by metis
  with assms(3) [OF True] show ?thesis
    by (intro that [of "snd (evaluate_breakglass_binding cfg sha rq jti u db)" row2]) (simp_all add: same_signal_def live_def)
next
  case False
  let ?row = "stamp_signals (subnet_from_request cfg rq) (fingerprint_from_request sha rq) row"
  have "bg_jti ?row = jti" using bg_table.find_key [OF assms(2)] by (simp add: stamp_signals_def)
  from bg_table.find_put_same [OF assms(2) this] False assms(1,2) show ?thesis
    by (intro that [of "put_bg db jti ?row" ?row])
      (auto simp: evaluate_breakglass_binding_def anchored_def Let_def stamp_signals_def live_def)
qed

lemma current_accepted:
  assumes "hot_up db" and "find_bg db jti = Some row" and "live row" and "bg_superseded_by row = None"
    and "anchored row \<Longrightarrow> opt_str (bg_first_subnet row) = subnet_from_request cfg rq"
  shows "\<exists>res db'. process_current lib cfg sha rq row p u jti s rot db = (Ok res, db') \<and> ar_ok res \<and>
    ar_username res = u \<and> (\<exists>now next. ar_set_cookie res = (if rot then Some (encode_breakglass_claims lib now p s next True) else None))"
proof -
  obtain db2 row2 where b: "evaluate_breakglass_binding cfg sha rq jti u db = (Ok True, db2)"
    "find_bg db2 jti = Some row2" "live row2 = live row" "bg_superseded_by row2 = bg_superseded_by row"
    using binding_accepts [OF assms(1,2,5)] by blast
  with assms(3,4) show ?thesis
    by (auto simp: process_current_def rotate_breakglass_session_def Let_def auth_ok_def live_def opt_str_def split: prod.split)
qed

end
