(* ===== verification/SubdomainAuth.thy ===== *)
theory SubdomainAuth
  imports OidcSession BgClaims
begin

text \<open>
  The decision nginx asks for before it forwards a request to a published application:
  \<open>app/subdomain/subdomain_auth.py\<close>, with the helpers of \<open>app/auth/auth_request.py\<close> and the group header of
  \<open>app/web/user_context.py\<close>. The order is the code's: LAN bypass, application of the host, machine-to-machine
  rules, native session, oauth2-proxy, break-glass.

  The answer of oauth2-proxy is the argument \<open>idp\<close>, a function of the URL and the cookies; the URL of a
  realm's proxy (settings and port) is the argument \<open>proxy_url\<close>. The second database phase reads the
  state the first one left; what other requests do in between is not part of the handler.
\<close>

section \<open>Headers and groups\<close>

type_synonym headers = "(string \<times> string) list"

record response =
  rp_status :: int
  rp_headers :: headers

definition header_of :: "headers \<Rightarrow> string list \<Rightarrow> string" where
  \<comment> \<open>\<open>_header\<close>: names without case, the last of equal names, the first non-empty value\<close>
  "header_of hs names =
     (let value = (\<lambda>n. opt_str (map_of (rev (map (\<lambda>(k, v). (lower k, v)) hs)) (lower n)))
      in case filter (\<lambda>n. value n \<noteq> []) names of [] \<Rightarrow> [] | n # _ \<Rightarrow> strip (value n))"

definition normalize_group_name :: "string \<Rightarrow> string" where
  "normalize_group_name raw =
     (let name = strip raw
      in if CHR ''/'' \<in> set name then rev (takeWhile (\<lambda>c. c \<noteq> CHR ''/'') (rev (rstrip_char (CHR ''/'') name))) else name)"

definition parse_groups_header :: "string \<Rightarrow> string list" where
  "parse_groups_header raw =
     (if raw = [] then [] else map normalize_group_name (filter (\<lambda>g. strip g \<noteq> []) (split_on (CHR '','') raw)))"

definition strict_network :: "string \<Rightarrow> ip_net option" where
  \<comment> \<open>\<open>ipaddress.ip_network\<close>, which refuses host bits\<close>
  "strict_network s =
     (case (ip_network s, ip_address (hd (split_on (CHR ''/'') s))) of
        (Some n, Some a) \<Rightarrow> if ip_val a = ip_val (net_addr n) then Some n else None
      | _ \<Rightarrow> None)"

definition is_rfc1918 :: "string \<Rightarrow> string list \<Rightarrow> bool" where
  \<comment> \<open>the networks are tried in order; a network that does not parse ends the search with no\<close>
  "is_rfc1918 ip cidrs =
     (case ip_address ip of
        None \<Rightarrow> False
      | Some a \<Rightarrow>
          (let known = takeWhile (\<lambda>c. strict_network c \<noteq> None) cidrs
           in list_ex (\<lambda>c. case strict_network c of None \<Rightarrow> False | Some n \<Rightarrow> in_net a n) known))"

definition cookie_value_from_header :: "string \<Rightarrow> string \<Rightarrow> string option" where
  \<comment> \<open>the last match wins\<close>
  "cookie_value_from_header cookie_header name =
     (if cookie_header = [] \<or> name = [] then None
      else (case rev (filter (starts_with (name @ ''='')) (map strip (split_on (CHR '';'') cookie_header))) of
              [] \<Rightarrow> None
            | piece # _ \<Rightarrow> str_opt (strip (drop (length name + 1) piece))))"

definition iter_oidc_session_cookie_candidates :: "web_request \<Rightarrow> portal_settings \<Rightarrow> string list" where
  "iter_oidc_session_cookie_candidates rq ps =
     (let name = (if strip (ps_cookie ps) = [] then ''bastion_session'' else strip (ps_cookie ps));
          base = request.truncate rq
      in dedup_from [] (filter (\<lambda>c. c \<noteq> []) (map (\<lambda>v. strip (opt_str v))
           [rq_header base ''X-Bastion-Session-Cookie'', rq_header base ''X-Bastion-Session-From-Jar'',
            map_of (rq_cookies rq) name, cookie_value_from_header (header_or base ''Cookie'') name])))"

definition extract_oidc_session_cookie_raw :: "web_request \<Rightarrow> portal_settings \<Rightarrow> string option" where
  "extract_oidc_session_cookie_raw rq ps =
     (case iter_oidc_session_cookie_candidates rq ps of [] \<Rightarrow> None | c # _ \<Rightarrow> Some c)"

fun first_native_claims ::
  "oidc_lib \<Rightarrow> portal_settings \<Rightarrow> 'a gdb \<Rightarrow> string list \<Rightarrow> (db_error, oidc_claims option) result" where
  "first_native_claims lib ps db [] = Ok None"
| "first_native_claims lib ps db (raw # raws) =
     (case validate_oidc_session_cookie lib ps db raw of
        Raise e \<Rightarrow> Raise e
      | Ok None \<Rightarrow> first_native_claims lib ps db raws
      | Ok (Some c) \<Rightarrow> if is_oidc_native_session_enabled_for_realm db (Some (oc_realm c)) ps then Ok (Some c)
                       else first_native_claims lib ps db raws)"

definition native_headers :: "oidc_claims \<Rightarrow> headers" where
  "native_headers c =
     (let username = strip (opt_str (oc_user c)); email = strip (opt_str (oc_email c)); realm = strip (oc_realm c)
      in [(''X-Auth-Request-User'', oc_sub c)] @
         (if username \<noteq> [] then [(''X-Auth-Request-Preferred-Username'', username)] else []) @
         (if email \<noteq> [] then [(''X-Auth-Request-Email'', email)]
          else if username \<noteq> [] \<and> CHR 0x40 \<in> set username then [(''X-Auth-Request-Email'', username)] else []) @
         (if oc_groups c \<noteq> [] then [(''X-Auth-Request-Groups'', join_with '','' (oc_groups c))] else []) @
         (if realm \<noteq> [] then [(''X-Auth-Request-Realm'', realm)] else []))"

definition native_oidc_auth_response ::
  "oidc_lib \<Rightarrow> portal_settings \<Rightarrow> web_request \<Rightarrow> 'a gdb \<Rightarrow> (db_error, headers option) result" where
  "native_oidc_auth_response lib ps rq db =
     (case first_native_claims lib ps db (iter_oidc_session_cookie_candidates rq ps) of
        Raise e \<Rightarrow> Raise e | Ok None \<Rightarrow> Ok None | Ok (Some c) \<Rightarrow> Ok (Some (native_headers c)))"

definition get_realm_proxy_url :: "(realm_row option \<Rightarrow> string) \<Rightarrow> 'a pdb \<Rightarrow> string option \<Rightarrow> string" where
  "get_realm_proxy_url proxy_url db realm_slug =
     (let named = (if opt_str realm_slug = [] then None
                   else first_row (\<lambda>r. rl_slug r = opt_str realm_slug \<and> rl_enabled r) (realms db))
      in case named of
           Some r \<Rightarrow> proxy_url (Some r)
         | None \<Rightarrow> proxy_url (first_row (\<lambda>r. rl_default r \<and> rl_enabled r) (realms db)))"

section \<open>The handler\<close>

definition crushftp_login_uri :: string where "crushftp_login_uri = ''/WebInterface/login.html''"

definition host_name :: "string \<Rightarrow> string" where
  "host_name host = lower (strip (takeWhile (\<lambda>c. c \<noteq> CHR '':'') host))"

definition resolve_app_by_host :: "'a pdb \<Rightarrow> string \<Rightarrow> app_row option" where
  "resolve_app_by_host db host =
     (let h = host_name host
      in if h = [] then None
         else (case first_row (\<lambda>a. ap_enabled a \<and> map_option sql_lower (ap_fqdn a) = Some h) (apps db) of
                 Some a \<Rightarrow> Some a
               | None \<Rightarrow> first_row (\<lambda>a. ap_slug a = takeWhile (\<lambda>c. c \<noteq> CHR ''.'') h \<and> ap_enabled a) (apps db)))"

definition find_app :: "'a pdb \<Rightarrow> int \<Rightarrow> app_row option" where
  "find_app db i = first_row (\<lambda>a. ap_id a = i) (apps db)"

record identity =
  id_user :: string
  id_email :: string
  id_preferred :: string
  id_groups :: "string list"

definition identity_of :: "headers \<Rightarrow> identity" where
  "identity_of hs =
     \<lparr>id_user = header_of hs [''X-Auth-Request-User'', ''X-Auth-User''],
      id_email = header_of hs [''X-Auth-Request-Email'', ''X-Auth-Email''],
      id_preferred = header_of hs [''X-Auth-Request-Preferred-Username'', ''X-Auth-Preferred-Username''],
      id_groups = parse_groups_header (header_of hs [''X-Auth-Request-Groups'', ''X-Auth-Groups''])\<rparr>"

definition allow_identity_headers :: "string \<Rightarrow> string \<Rightarrow> identity \<Rightarrow> headers" where
  "allow_identity_headers app_slug auth_source i =
     (let preferred = strip (id_preferred i); email0 = strip (id_email i);
          email = (if email0 = [] \<and> CHR 0x40 \<in> set preferred then preferred else email0);
          user = or_text (id_user i) (or_text preferred email);
          display = or_text preferred (or_text email (or_text (id_user i) user))
      in [(''X-Auth-Source'', auth_source), (''X-Auth-User'', user), (''X-Auth-App'', app_slug)] @
         (if email \<noteq> [] then [(''X-Auth-Email'', email), (''X-Auth-Request-Email'', email)] else []) @
         (if preferred \<noteq> [] \<or> email \<noteq> [] then [(''X-Auth-Preferred-Username'', or_text preferred email)] else []) @
         (if display \<noteq> [] then [(''X-Auth-Display-Name'', display)] else []) @
         (if id_groups i \<noteq> [] then [(''X-Auth-Groups'', join_with '','' (id_groups i))] else []))"

definition allow_cache_headers :: "portal_settings \<Rightarrow> string \<Rightarrow> headers" where
  "allow_cache_headers ps uri =
     (if ps_cache_ttl ps \<le> 0 \<or> starts_with crushftp_login_uri uri then []
      else [(''X-Accel-Expires'', show_int (ps_cache_ttl ps))])"

definition deny_no_app_session :: "app_row \<Rightarrow> response" where
  "deny_no_app_session app =
     \<lparr>rp_status = 401, rp_headers = [(''X-Auth-Error'', ''no-app-session''), (''X-Auth-App'', ap_slug app)]\<rparr>"

definition require_app_session_cookie :: "app_row option \<Rightarrow> string \<Rightarrow> response option" where
  "require_app_session_cookie app cookie_header =
     (case app of None \<Rightarrow> None
      | Some a \<Rightarrow> if has_app_session_cookie a cookie_header then None else Some (deny_no_app_session a))"

definition deny_no_grant ::
  "string \<Rightarrow> app_row \<Rightarrow> string \<Rightarrow> string \<Rightarrow> string \<Rightarrow> string \<Rightarrow> 'a gdb \<Rightarrow> response \<times> 'a gdb" where
  "deny_no_grant actor app ip auth_source uri host db =
     (\<lparr>rp_status = 401, rp_headers = [(''X-Auth-Error'', ''access_denied_no_grant''), (''X-Auth-App'', ap_slug app)]\<rparr>,
      log_action (or_text actor ''unknown'') ''access_denied_no_grant'' (Some (ap_slug app))
        [(''reason'', JStr ''access_denied_no_grant''), (''application_id'', JInt (ap_id app)),
         (''auth_source'', JStr auth_source), (''uri'', JStr (take 1024 (or_text uri ''/''))),
         (''host'', jopt (str_opt (take 255 host)))] (str_opt ip) db)"

definition deny_no_app :: "string \<Rightarrow> string \<Rightarrow> string \<Rightarrow> 'a gdb \<Rightarrow> response \<times> 'a gdb" where
  "deny_no_app host uri ip db =
     (\<lparr>rp_status = 401,
       rp_headers = [(''X-Auth-Error'', ''no-app-for-host:'' @ or_text (take 80 (host_name host)) ''-'')]\<rparr>,
      log_action ''anonymous'' ''access_denied_no_app'' (str_opt (take 255 host))
        [(''reason'', JStr ''no_app_for_host''), (''uri'', JStr (take 1024 (or_text uri ''/''))),
         (''host'', jopt (str_opt (take 255 host)))] (str_opt ip) db)"

datatype gate_error = GateSql | GateAuth auth_error

record gate_env =
  \<comment> \<open>settings and the libraries\<close>
  ge_ps :: portal_settings
  ge_bg :: bg_settings
  ge_sv :: secret_view
  ge_oidc :: oidc_lib
  ge_jwt :: jwt_lib
  ge_sha :: "string \<Rightarrow> string"
  ge_loads :: "string \<Rightarrow> string list option"
  ge_iso :: "int \<Rightarrow> string"
  ge_proxy :: "realm_row option \<Rightarrow> string"

definition session_decision ::
  "gate_env \<Rightarrow> web_request \<Rightarrow> app_row \<Rightarrow> string \<Rightarrow> string \<Rightarrow> string \<Rightarrow> identity \<Rightarrow> string \<Rightarrow> string option \<Rightarrow> 'a gdb
   \<Rightarrow> response \<times> 'a gdb" where
  \<comment> \<open>an authenticated session: grant, binding, heartbeat, application cookie; the same text for the native session
     and for oauth2-proxy\<close>
  "session_decision env rq app0 uri host client_ip i auth_source realm_slug db =
     (let actor = or_text (id_email i) (or_text (id_preferred i) (or_text (id_user i) ''unknown''));
          cookie_header = header_or (request.truncate rq) ''Cookie''
      in if \<not> user_can_launch_application db (ap_id app0) (str_opt (id_user i)) (id_groups i) realm_slug
         then (case find_app db (ap_id app0) of
                 None \<Rightarrow> (\<lparr>rp_status = 401, rp_headers = [(''X-Auth-Error'', ''no-app-for-host'')]\<rparr>, db)
               | Some app \<Rightarrow> deny_no_grant actor app client_ip auth_source uri host db)
         else (let db = (case evaluate_sso_binding (ps_net (ge_ps env)) (ge_sha env) rq
                                (str_opt (or_text (id_email i) (id_preferred i))) (str_opt (id_user i)) db of
                           (Raise _, _) \<Rightarrow> db | (Ok _, db') \<Rightarrow> db');
                   app_row = find_app db (ap_id app0);
                   db = (case app_row of
                           None \<Rightarrow> db
                         | Some app \<Rightarrow>
                             touch_app_presence (ge_iso env) (ps_default_realm (ge_ps env))
                               (or_text (id_email i) (or_text (id_preferred i) (id_user i)))
                               (str_opt (or_text (id_preferred i) (id_email i))) (ap_realm app) app (Some client_ip)
                               auth_source db)
               in case require_app_session_cookie app_row cookie_header of
                    Some r \<Rightarrow> (r, db)
                  | None \<Rightarrow>
                      (\<lparr>rp_status = 200,
                        rp_headers = allow_identity_headers (ap_slug app0) auth_source i @ allow_cache_headers (ge_ps env) uri\<rparr>,
                       db)))"

datatype before_idp = Decided response | AskIdp app_row

definition request_host :: "request \<Rightarrow> string" where
  "request_host rq = or_text (header_or rq ''X-Original-Host'') (or_text (header_or rq ''X-Forwarded-Host'') (header_or rq ''Host''))"

definition request_uri :: "request \<Rightarrow> string" where
  "request_uri rq = or_text (header_or rq ''X-Original-URI'') ''/internal/subdomain-auth''"

definition lan_bypass :: "gate_env \<Rightarrow> request \<Rightarrow> bool" where
  "lan_bypass env rq \<longleftrightarrow> ps_bypass (ge_ps env) \<and> is_rfc1918 (client_ip_from_request (ps_net (ge_ps env)) rq) (ps_cidrs (ge_ps env))"

definition subdomain_auth_before_idp ::
  "gate_env \<Rightarrow> web_request \<Rightarrow> 'a gdb \<Rightarrow> (gate_error, before_idp) result \<times> 'a gdb" where
  "subdomain_auth_before_idp env rq db =
     (let base = request.truncate rq; host = request_host base; uri = request_uri base;
          client_ip = client_ip_from_request (ps_net (ge_ps env)) base;
          ok = (\<lambda>hs. Ok (Decided \<lparr>rp_status = 200, rp_headers = hs\<rparr>))
      in if lan_bypass env base
         then (let lan_app = resolve_app_by_host db host
               in case native_oidc_auth_response (ge_oidc env) (ge_ps env) rq db of
                    Raise _ \<Rightarrow> (Raise GateSql, db)
                  | Ok (Some hs) \<Rightarrow>
                      (ok (allow_identity_headers (case lan_app of Some a \<Rightarrow> ap_slug a | None \<Rightarrow> ''lan'')
                             ''rfc1918-bypass+oidc-native'' (identity_of hs)), db)
                  | Ok None \<Rightarrow> (ok [(''X-Auth-Source'', ''rfc1918-bypass'')], db))
         else (case resolve_app_by_host db host of
                 None \<Rightarrow> (let (r, db) = deny_no_app host uri client_ip db in (Ok (Decided r), db))
               | Some app \<Rightarrow>
                   (if app_uri_is_m2m_bypass (ge_loads env) app uri
                    then (ok [(''X-Auth-Source'', ''m2m-path-bypass'')], db)
                    else (case m2m_credential_allows app (rq_header base ''Authorization'') of
                            Some src \<Rightarrow> (ok [(''X-Auth-Source'', src)], db)
                          | None \<Rightarrow>
                              (case native_oidc_auth_response (ge_oidc env) (ge_ps env) rq db of
                                 Raise _ \<Rightarrow> (Raise GateSql, db)
                               | Ok (Some hs) \<Rightarrow>
                                   (let (r, db) = session_decision env rq app uri host client_ip (identity_of hs) ''oidc-native''
                                          (str_opt (header_of hs [''X-Auth-Request-Realm''])) db
                                    in (Ok (Decided r), db))
                               | Ok None \<Rightarrow> (Ok (AskIdp app), db))))))"

datatype idp_reply = IdpUnreachable | IdpReply int headers

definition idp_accepts :: "idp_reply \<Rightarrow> headers option" where
  "idp_accepts reply =
     (case reply of IdpReply status hs \<Rightarrow> if status \<in> {200, 202} then Some hs else None | IdpUnreachable \<Rightarrow> None)"

definition bg_cookie_name :: string where "bg_cookie_name = ''bg_session''"

definition subdomain_auth_after_idp ::
  "gate_env \<Rightarrow> web_request \<Rightarrow> app_row \<Rightarrow> idp_reply \<Rightarrow> 'a gdb \<Rightarrow> (gate_error, response) result \<times> 'a gdb" where
  "subdomain_auth_after_idp env rq app reply db =
     (let base = request.truncate rq; host = request_host base; uri = request_uri base;
          client_ip = client_ip_from_request (ps_net (ge_ps env)) base;
          bg_cookie = opt_str (map_of (rq_cookies rq) bg_cookie_name)
      in case idp_accepts reply of
           Some hs \<Rightarrow>
             (let (r, db) = session_decision env rq app uri host client_ip (identity_of hs) ''oidc'' (ap_realm app) db
              in (Ok r, db))
         | None \<Rightarrow>
             (if bg_cookie \<noteq> []
              then (case process_breakglass_auth_request (ge_jwt env) (ge_bg env) (ge_sv env) (ge_sha env) base bg_cookie False db of
                      (Raise e, db) \<Rightarrow> (Raise (GateAuth e), db)
                    | (Ok result, db) \<Rightarrow>
                        (if \<not> ar_ok result then (Ok \<lparr>rp_status = 401, rp_headers = []\<rparr>, db)
                         else (let user = or_text (ar_username result) ''breakglass'';
                                   db = (case find_app db (ap_id app) of
                                           None \<Rightarrow> db
                                         | Some a \<Rightarrow> touch_app_presence (ge_iso env) (ps_default_realm (ge_ps env)) user (Some user)
                                                        (ap_realm a) a (Some client_ip) ''breakglass'' db)
                               in (Ok \<lparr>rp_status = 200,
                                      rp_headers = allow_identity_headers (ap_slug app) ''breakglass''
                                        \<lparr>id_user = [], id_email = [], id_preferred = user, id_groups = []\<rparr>\<rparr>, db))))
              else if reply = IdpUnreachable
              then (Ok \<lparr>rp_status = 401, rp_headers = [(''X-Auth-Error'', ''oauth2-unreachable'')]\<rparr>, db)
              else (let had_native = (extract_oidc_session_cookie_raw rq (ge_ps env) \<noteq> None);
                        had_x = (strip (header_or base ''X-Bastion-Session-Cookie'') \<noteq> [] \<or>
                                 strip (header_or base ''X-Bastion-Session-From-Jar'') \<noteq> [])
                    in (Ok \<lparr>rp_status = 401,
                           rp_headers = [(''X-Auth-Error'',
                             (if had_native then ''native-session-rejected''
                              else ''no-session:ck='' @ show_int (int (length (header_or base ''Cookie''))) @ '':x='' @
                                   (if had_x then ''1'' else ''0''))),
                             (''X-Auth-App'', ap_slug app)]\<rparr>, db))))"

definition subdomain_auth ::
  "gate_env \<Rightarrow> (string \<Rightarrow> string \<Rightarrow> idp_reply) \<Rightarrow> web_request \<Rightarrow> 'a gdb \<Rightarrow> (gate_error, response) result \<times> 'a gdb" where
  "subdomain_auth env idp rq db =
     (case subdomain_auth_before_idp env rq db of
        (Raise e, db) \<Rightarrow> (Raise e, db)
      | (Ok (Decided r), db) \<Rightarrow> (Ok r, db)
      | (Ok (AskIdp app), db) \<Rightarrow>
          subdomain_auth_after_idp env rq app
            (idp (get_realm_proxy_url (ge_proxy env) db (ap_realm app) @ ''/oauth2/auth'')
                 (header_or (request.truncate rq) ''Cookie'')) db)"

definition native_subdomain_auth_would_allow :: "gate_env \<Rightarrow> web_request \<Rightarrow> string \<Rightarrow> 'a gdb \<Rightarrow> (gate_error, bool) result" where
  "native_subdomain_auth_would_allow env rq host db =
     (case resolve_app_by_host db host of
        None \<Rightarrow> Ok False
      | Some app \<Rightarrow>
          (case native_oidc_auth_response (ge_oidc env) (ge_ps env) rq db of
             Raise _ \<Rightarrow> Raise GateSql
           | Ok None \<Rightarrow> Ok False
           | Ok (Some hs) \<Rightarrow>
               Ok (user_can_launch_application db (ap_id app) (str_opt (id_user (identity_of hs))) (id_groups (identity_of hs))
                     (str_opt (header_of hs [''X-Auth-Request-Realm''])))))"

end
