(* ===== verification/SubdomainLaws.thy ===== *)
theory SubdomainLaws
  imports SubdomainAuth
begin

text \<open>
  What the decision for published applications promises: which evidence a 200 rests on, that it reads the rights
  and never changes them, and that taking a right away closes the application.
\<close>

section \<open>The decision changes no right\<close>

definition keeps_rest :: "'a sdb \<Rightarrow> 'a sdb \<Rightarrow> bool" where
  \<comment> \<open>the portal tables, the clock and the hot store\<close>
  "keeps_rest db db' \<longleftrightarrow>
     session_db.more db' = session_db.more db \<and> clock db' = clock db \<and> hot_up db' = hot_up db"

interpretation rest: run_relation keeps_rest
  by unfold_locales (simp_all add: keeps_rest_def)

named_theorems rest_reach \<open>operations that keep the rest of the portal\<close>

lemma rest_log [rest_reach]: "keeps_rest db (log_action a b c d i db)"
  by (simp add: keeps_rest_def log_action_def split: prod.split)

lemma rest_put [rest_reach]: "keeps_rest db (put_bg db jti r)"
  by (simp add: keeps_rest_def put_bg_def)

lemma rest_ban_step: "ban_step db db' \<Longrightarrow> keeps_rest db db'"
  by (induction rule: ban_step.induct)
    (simp_all add: keeps_rest_def ensure_security_defaults_def insert_ban_def Let_def log_action_def split: prod.split)

lemma rest_ban_steps: "ban_steps db db' \<Longrightarrow> keeps_rest db db'"
  by (induction rule: ban_steps_induct) (auto intro: rest.runs_refl rest.runs_trans rest_ban_step)

lemma rest_mark [rest_reach]: "keeps_rest db (snd (mark_chain_revoked c db))"
  by (simp add: mark_chain_revoked_def keeps_rest_def)

lemma rest_log_put [rest_reach]: "keeps_rest db (put_bg (log_action a b c d i db) jti r)"
  by (rule rest.runs_trans [OF rest_log rest_put])

lemma rest_reject [rest_reach]: "keeps_rest db (reject_breakglass_strong_drift row u jti s f ip db)"
  unfolding reject_breakglass_strong_drift_def Let_def by (rule rest.runs_trans [OF rest_put rest_log])

lemma rest_binding [rest_reach]: "keeps_rest db (snd (evaluate_breakglass_binding cfg sha rq jti u db))"
  unfolding evaluate_breakglass_binding_def Let_def
  by (auto intro!: rest_reach rest.runs_refl split: option.split)

lemma rest_rotate [rest_reach]: "keeps_rest db (snd (rotate_breakglass_session lib row p s db))"
  by (simp add: rotate_breakglass_session_def take_uuid_def put_bg_def keeps_rest_def Let_def)

lemma rest_row [rest_reach]: "keeps_rest db (snd (process_row lib st sv sha rq row p u jti rot db))"
proof -
  have "keeps_rest db (snd (evaluate_breakglass_binding cfg sha rq k u (if rot then log_action a b c d i db else db)))"
    for cfg k a b c d i
    by (cases rot) (auto intro: rest_reach rest.runs_trans [OF rest_log])
  then have "keeps_rest db (snd (process_grace lib cfg sha rq row p u jti s rot db))" for cfg s
    unfolding process_grace_def Let_def
    by (intro rest.run_pair rest.run_result rest.run_bool rest.run_if rest.run_snd rest.runs_refl)
  moreover have "keeps_rest db (snd (process_replay cfg sha rq row u jti db))" for cfg
    unfolding process_replay_def Let_def by (intro rest.run_snd rest.runs_trans [OF rest_mark rest_log])
  moreover have "keeps_rest db (snd (process_current lib cfg sha rq row p u jti s rot db))" for cfg s
    unfolding process_current_def Let_def by (intro rest.run_intros rest_binding rest_rotate rest.runs_refl)
  ultimately show ?thesis
    unfolding process_row_def by (auto split: result.split intro: rest.runs_refl)
qed

lemma rest_process [rest_reach]: "keeps_rest db (snd (process_breakglass_auth_request lib st sv sha rq cookie rot db))"
  unfolding process_breakglass_auth_request_def Let_def
  by (auto split: result.split option.split intro: rest.runs_refl rest.runs_trans [OF rest_put rest_row])

lemma rest_sso [rest_reach]: "keeps_rest db (snd (evaluate_sso_binding cfg sha rq u kc db))"
proof -
  have new: "keeps_rest db (snd (x, snd (record_successful_login ip l (db\<lparr>sso_rows := rs\<rparr>))))"
    for ip l rs and x :: "(db_error, sso_summary option) result"
  proof -
    have "keeps_rest db (db\<lparr>sso_rows := rs\<rparr>)" by (simp add: keeps_rest_def)
    then show ?thesis using rest.runs_trans rest_ban_steps [OF successful_login_steps] by fastforce
  qed
  have old: "keeps_rest db (snd (x, put_sso d h r))" if "keeps_rest db d" for d h r and x :: "(db_error, sso_summary option) result"
    using that by (simp add: keeps_rest_def put_sso_def)
  show ?thesis
    unfolding evaluate_sso_binding_def Let_def case_prod_beta
    by (intro rest.run_option rest.run_if new old rest.run_if_state rest_log rest.run_snd rest.runs_refl)
qed

definition same_rights :: "'a gdb \<Rightarrow> 'a gdb \<Rightarrow> bool" where
  "same_rights db db' \<longleftrightarrow> apps db' = apps db \<and> grants db' = grants db \<and> groups db' = groups db \<and> realms db' = realms db \<and>
     oidc_rows db' = oidc_rows db \<and> clock db' = clock db \<and> hot_up db' = hot_up db"

interpretation rights: run_relation same_rights
  by unfold_locales (simp_all add: same_rights_def)

lemma rest_rights: "keeps_rest db db' \<Longrightarrow> same_rights db db'"
  by (cases db; cases db') (simp add: keeps_rest_def same_rights_def)

lemma rights_touch: "same_rights db (touch_app_presence isofmt ds e u rl app ip src db)"
  by (subst touch_frame) (simp add: same_rights_def)

lemma rights_log: "same_rights db (log_action a b c d i db)"
  by (rule rest_rights [OF rest_log])

lemma rights_sso:
  "same_rights db (case evaluate_sso_binding cfg sha rq u kc db of (Raise e, x) \<Rightarrow> db | (Ok v, db') \<Rightarrow> db')"
  using rest_rights [OF rest_sso, of db cfg sha rq u kc]
  by (auto split: prod.split result.split intro: rights.runs_refl)

lemma rights_session: "same_rights db (snd (session_decision env rq app uri host ip i src rs db))"
proof -
  let ?sso = "case evaluate_sso_binding (ps_net (ge_ps env)) (ge_sha env) rq (str_opt (or_text (id_email i) (id_preferred i)))
    (str_opt (id_user i)) db of (Raise e, x) \<Rightarrow> db | (Ok v, db') \<Rightarrow> db'"
  have sso: "same_rights db ?sso" by (rule rights_sso)
  have touch: "same_rights db (case r of None \<Rightarrow> ?sso | Some a \<Rightarrow> touch_app_presence (ge_iso env) (ps_default_realm (ge_ps env))
      e u (ap_realm a) a c src ?sso)" for r e u c
    using sso rights.runs_trans [OF sso rights_touch] by (cases r) auto
  show ?thesis
    unfolding session_decision_def Let_def deny_no_grant_def
    by (intro rights.run_if rights.run_option rights.run_snd rights_log touch rights.runs_refl)
qed

lemma rights_before: "same_rights db (snd (subdomain_auth_before_idp env rq db))"
  unfolding subdomain_auth_before_idp_def Let_def deny_no_app_def
  by (intro rights.run_intros rights_session rights_log rights.runs_refl)

lemma rights_process:
  "process_breakglass_auth_request lib st sv sha rq cookie rot db = (x, db') \<Longrightarrow> same_rights db db'"
  using rest_rights [OF rest_process, of db lib st sv sha rq cookie rot] by simp

lemma rights_after: "same_rights db (snd (subdomain_auth_after_idp env rq app reply db))"
proof -
  have touch: "same_rights db' (case r of None \<Rightarrow> db' | Some a \<Rightarrow> touch_app_presence isofmt ds e u (ap_realm a) a c src db')"
    for r e u c isofmt ds src and db' :: "'a gdb"
    by (cases r) (auto intro: rights_touch rights.runs_refl)
  show ?thesis
    unfolding subdomain_auth_after_idp_def Let_def
    by (intro rights.run_option rights.run_pair rights.run_if rights.run_result rights_session rest_rights rest_process touch
        rights.run_snd rights.runs_refl)
qed

lemma rights_gate: "same_rights db (snd (subdomain_auth env idp rq db))"
proof (cases "subdomain_auth_before_idp env rq db")
  case (Pair b db1)
  then have 1: "same_rights db db1" using rights_before [of db env rq] by simp
  show ?thesis
  proof (cases b)
    case (Raise e)
    with 1 Pair show ?thesis by (simp add: subdomain_auth_def)
  next
    case (Ok d)
    show ?thesis
    proof (cases d)
      case (Decided r)
      with 1 Pair Ok show ?thesis by (simp add: subdomain_auth_def)
    next
      case (AskIdp app)
      with Pair Ok show ?thesis using rights.runs_trans [OF 1 rights_after] by (simp add: subdomain_auth_def)
    qed
  qed
qed

text \<open>Deciding changes no right: whatever the request and whatever oauth2-proxy answers, the applications, the
  grants, the groups, the realms and the registry of portal sessions are left as they were.\<close>

theorem gate_changes_no_right:
  "apps (snd (subdomain_auth env idp rq db)) = apps db \<and> grants (snd (subdomain_auth env idp rq db)) = grants db \<and>
   groups (snd (subdomain_auth env idp rq db)) = groups db \<and> realms (snd (subdomain_auth env idp rq db)) = realms db \<and>
   oidc_rows (snd (subdomain_auth env idp rq db)) = oidc_rows db"
  using rights_gate unfolding same_rights_def by blast

section \<open>What a 200 rests on\<close>

definition may_launch :: "'a gdb \<Rightarrow> app_row \<Rightarrow> identity \<Rightarrow> string option \<Rightarrow> bool" where
  \<comment> \<open>an enabled application of the catalogue on which a subject of the session holds launch or manage\<close>
  "may_launch db app i realm \<longleftrightarrow> open_app db app \<and>
     (\<exists>l. Launch \<le> l \<and>
       allowed_level db (session_subjects db (str_opt (id_user i)) (id_groups i) realm) (Application (ap_id app)) l)"

definition native_session :: "gate_env \<Rightarrow> web_request \<Rightarrow> 'a gdb \<Rightarrow> oidc_claims \<Rightarrow> bool" where
  \<comment> \<open>a cookie of the request is a live portal session of a realm that may use them\<close>
  "native_session env rq db c \<longleftrightarrow>
     (\<exists>raw \<in> set (iter_oidc_session_cookie_candidates rq (ge_ps env)).
        validate_oidc_session_cookie (ge_oidc env) (ge_ps env) db raw = Ok (Some c)) \<and>
     is_oidc_native_session_enabled_for_realm db (Some (oc_realm c)) (ge_ps env)"

definition native_realm :: "oidc_claims \<Rightarrow> string option" where
  "native_realm c = str_opt (header_of (native_headers c) [''X-Auth-Request-Realm''])"

lemma first_native:
  "first_native_claims lib ps db raws = Ok (Some c) \<Longrightarrow>
   (\<exists>raw \<in> set raws. validate_oidc_session_cookie lib ps db raw = Ok (Some c)) \<and>
   is_oidc_native_session_enabled_for_realm db (Some (oc_realm c)) ps"
  by (induction lib ps db raws rule: first_native_claims.induct) (auto split: result.splits option.splits if_splits)

lemma native_response:
  assumes "native_oidc_auth_response (ge_oidc env) (ge_ps env) rq db = Ok (Some hs)"
  obtains c where "hs = native_headers c" "native_session env rq db c"
proof -
  obtain c where "first_native_claims (ge_oidc env) (ge_ps env) db (iter_oidc_session_cookie_candidates rq (ge_ps env)) = Ok (Some c)"
    "hs = native_headers c"
    using assms by (auto simp: native_oidc_auth_response_def split: result.splits option.splits)
  with first_native that show ?thesis unfolding native_session_def by blast
qed

lemma resolved_app: "resolve_app_by_host db host = Some app \<Longrightarrow> app \<in> set (apps db) \<and> ap_enabled app"
  by (auto simp: resolve_app_by_host_def Let_def dest!: first_row_Some split: if_splits option.splits)

lemma launch_app:
  assumes wf: "grants_wf (grants db)" "apps_wf (apps db)" and app: "app \<in> set (apps db)"
  shows "user_can_launch_application db (ap_id app) (str_opt (id_user i)) (id_groups i) realm \<longleftrightarrow> may_launch db app i realm"
proof -
  have "a = app" if "open_app db a" "ap_id a = ap_id app" for a
    using that app wf(2) by (auto simp: open_app_def apps_wf_def distinct_map dest: inj_onD)
  then show ?thesis unfolding launch_iff [OF wf] may_launch_def by blast
qed

lemma session_200:
  assumes "session_decision env rq app uri host ip i src realm db = (r, db')" and "rp_status r = 200"
  shows "user_can_launch_application db (ap_id app) (str_opt (id_user i)) (id_groups i) realm"
  using assms by (auto simp: session_decision_def deny_no_grant_def Let_def split: if_splits option.splits)

lemma before_decided:
  assumes wf: "grants_wf (grants db)" "apps_wf (apps db)"
    and run: "subdomain_auth_before_idp env rq db = (Ok (Decided r), db')" and ok: "rp_status r = 200"
  shows "lan_bypass env (request.truncate rq) \<or>
    (\<exists>app. resolve_app_by_host db (request_host (request.truncate rq)) = Some app \<and>
      (app_uri_is_m2m_bypass (ge_loads env) app (request_uri (request.truncate rq)) \<or>
       m2m_credential_allows app (rq_header (request.truncate rq) ''Authorization'') \<noteq> None \<or>
       (\<exists>c. native_session env rq db c \<and> may_launch db app (identity_of (native_headers c)) (native_realm c))))"
proof (cases "lan_bypass env (request.truncate rq)")
  case False
  note run' = run [unfolded subdomain_auth_before_idp_def Let_def if_not_P [OF False]]
  obtain app where app: "resolve_app_by_host db (request_host (request.truncate rq)) = Some app"
    using run' ok by (cases "resolve_app_by_host db (request_host (request.truncate rq))") (auto simp: deny_no_app_def)
  show ?thesis
  proof (cases "app_uri_is_m2m_bypass (ge_loads env) app (request_uri (request.truncate rq)) \<or>
       m2m_credential_allows app (rq_header (request.truncate rq) ''Authorization'') \<noteq> None")
    case True
    with app show ?thesis by blast
  next
    case no_m2m: False
    obtain hs where hs: "native_oidc_auth_response (ge_oidc env) (ge_ps env) rq db = Ok (Some hs)"
      and d: "session_decision env rq app (request_uri (request.truncate rq)) (request_host (request.truncate rq))
        (client_ip_from_request (ps_net (ge_ps env)) (request.truncate rq)) (identity_of hs) ''oidc-native''
        (str_opt (header_of hs [''X-Auth-Request-Realm''])) db = (r, db')"
      using run' app no_m2m by (auto split: result.splits option.splits prod.splits)
    obtain c where c: "hs = native_headers c" "native_session env rq db c" using hs by (rule native_response)
    have "app \<in> set (apps db)" using resolved_app [OF app] by blast
    from session_200 [OF d ok, unfolded launch_app [OF wf this]] c app show ?thesis unfolding native_realm_def by blast
  qed
qed simp

lemma before_ask:
  "subdomain_auth_before_idp env rq db = (Ok (AskIdp app), db') \<Longrightarrow>
   db' = db \<and> resolve_app_by_host db (request_host (request.truncate rq)) = Some app"
  by (auto simp: subdomain_auth_before_idp_def Let_def deny_no_app_def split: if_splits result.splits option.splits prod.splits)

lemma after_accepts:
  assumes "subdomain_auth_after_idp env rq app reply db = (Ok r, db')" and "idp_accepts reply = Some hs"
  obtains ip where "session_decision env rq app (request_uri (request.truncate rq)) (request_host (request.truncate rq)) ip
    (identity_of hs) ''oidc'' (ap_realm app) db = (r, db')"
  using assms by (auto simp: subdomain_auth_after_idp_def Let_def split: prod.splits)

lemma after_breakglass:
  assumes "subdomain_auth_after_idp env rq app reply db = (Ok r, db')" and "idp_accepts reply = None" and "rp_status r = 200"
  shows "\<exists>res. fst (process_breakglass_auth_request (ge_jwt env) (ge_bg env) (ge_sv env) (ge_sha env) (request.truncate rq)
    (opt_str (map_of (rq_cookies rq) bg_cookie_name)) False db) = Ok res \<and> ar_ok res"
  using assms by (auto simp: subdomain_auth_after_idp_def Let_def split: if_splits prod.splits result.splits)

text \<open>C1: a request reaches a published application only on evidence: it comes from the LAN while the LAN bypass is
  switched on; or it is addressed to a declared machine-to-machine path or carries a credential scheme the
  application accepts; or it carries a live portal session, or oauth2-proxy vouches for it, and in both cases
  a subject of the session holds launch or manage on that enabled application; or it carries an accepted
  break-glass cookie.\<close>

theorem gate_evidence:
  assumes wf: "grants_wf (grants db)" "apps_wf (apps db)"
    and run: "subdomain_auth env idp rq db = (Ok r, db')" and ok: "rp_status r = 200"
  defines "base \<equiv> request.truncate rq"
  shows "lan_bypass env base \<or>
    (\<exists>app. resolve_app_by_host db (request_host base) = Some app \<and>
      (app_uri_is_m2m_bypass (ge_loads env) app (request_uri base) \<or>
       m2m_credential_allows app (rq_header base ''Authorization'') \<noteq> None \<or>
       (\<exists>c. native_session env rq db c \<and> may_launch db app (identity_of (native_headers c)) (native_realm c)) \<or>
       (\<exists>hs. idp_accepts (idp (get_realm_proxy_url (ge_proxy env) db (ap_realm app) @ ''/oauth2/auth'') (header_or base ''Cookie'')) =
            Some hs \<and> may_launch db app (identity_of hs) (ap_realm app)) \<or>
       (\<exists>res. fst (process_breakglass_auth_request (ge_jwt env) (ge_bg env) (ge_sv env) (ge_sha env) base
            (opt_str (map_of (rq_cookies rq) bg_cookie_name)) False db) = Ok res \<and> ar_ok res)))"
proof (cases "subdomain_auth_before_idp env rq db")
  case (Pair b db1)
  show ?thesis
  proof (cases "\<exists>app. b = Ok (AskIdp app)")
    case False
    then have "subdomain_auth_before_idp env rq db = (Ok (Decided r), db')"
      using run Pair by (auto simp: subdomain_auth_def split: result.splits before_idp.splits)
    from before_decided [OF wf this ok] show ?thesis unfolding base_def by blast
  next
    case True
    then obtain app where b: "b = Ok (AskIdp app)" by blast
    have ask: "db1 = db" "resolve_app_by_host db (request_host base) = Some app"
      using before_ask [OF Pair [unfolded b]] unfolding base_def by blast+
    let ?reply = "idp (get_realm_proxy_url (ge_proxy env) db (ap_realm app) @ ''/oauth2/auth'') (header_or base ''Cookie'')"
    have after: "subdomain_auth_after_idp env rq app ?reply db = (Ok r, db')"
      using run Pair b ask(1) by (simp add: subdomain_auth_def base_def)
    have app: "app \<in> set (apps db)" using resolved_app [OF ask(2)] by blast
    show ?thesis
    proof (cases "idp_accepts ?reply")
      case (Some hs)
      obtain ip where d: "session_decision env rq app (request_uri base) (request_host base) ip (identity_of hs) ''oidc'' (ap_realm app) db = (r, db')"
        using after_accepts [OF after Some] unfolding base_def by blast
      from session_200 [OF d ok, unfolded launch_app [OF wf app]] Some ask(2) show ?thesis by blast
    next
      case None
      from after_breakglass [OF after None ok] ask(2) show ?thesis unfolding base_def by blast
    qed
  qed
qed

text \<open>The answers are the ones nginx understands: 200 or 401, whatever happens before the answer.\<close>

theorem gate_answers_200_or_401:
  "\<forall>r. fst (subdomain_auth env idp rq db) = Ok r \<longrightarrow> rp_status r \<in> {200, 401}"
proof -
  have session: "rp_status (fst (session_decision env rq app uri host ip i src realm d)) \<in> {200, 401}"
    for app uri host ip i src realm and d :: "'a gdb"
    by (auto simp: session_decision_def deny_no_grant_def require_app_session_cookie_def deny_no_app_session_def Let_def
        split: option.split)
  then have session': "session_decision env rq app uri host ip i src realm d = (r, d') \<Longrightarrow> rp_status r \<in> {200, 401}"
    for app uri host ip i src realm r and d d' :: "'a gdb"
    by (metis fst_conv)
  have before: "rp_status r \<in> {200, 401}" if "subdomain_auth_before_idp env rq db = (Ok (Decided r), db')" for r db'
    using that session'
    by (auto simp: subdomain_auth_before_idp_def deny_no_app_def Let_def split: if_splits option.splits result.splits prod.splits)
  have after: "rp_status r \<in> {200, 401}" if "subdomain_auth_after_idp env rq app reply d = (Ok r, d')"
    for r app reply and d d' :: "'a gdb"
    using that session'
    by (auto simp: subdomain_auth_after_idp_def Let_def split: if_splits option.splits result.splits prod.splits)
  show ?thesis
    using before after by (auto simp: subdomain_auth_def split: prod.splits result.splits before_idp.splits) (metis fst_conv surjective_pairing)+
qed

section \<open>Sessions that hold no right\<close>

definition judged_session :: "gate_env \<Rightarrow> web_request \<Rightarrow> 'a gdb \<Rightarrow> app_row \<Rightarrow> oidc_claims \<Rightarrow> bool" where
  \<comment> \<open>the request is decided on its portal session alone\<close>
  "judged_session env rq db app c \<longleftrightarrow>
     \<not> lan_bypass env (request.truncate rq) \<and>
     resolve_app_by_host db (request_host (request.truncate rq)) = Some app \<and>
     \<not> app_uri_is_m2m_bypass (ge_loads env) app (request_uri (request.truncate rq)) \<and>
     m2m_credential_allows app (rq_header (request.truncate rq) ''Authorization'') = None \<and>
     first_native_claims (ge_oidc env) (ge_ps env) db (iter_oidc_session_cookie_candidates rq (ge_ps env)) = Ok (Some c)"

lemma judged_decision:
  assumes "judged_session env rq db app c"
  shows "subdomain_auth env idp rq db =
    (let (r, db') = session_decision env rq app (request_uri (request.truncate rq)) (request_host (request.truncate rq))
        (client_ip_from_request (ps_net (ge_ps env)) (request.truncate rq)) (identity_of (native_headers c)) ''oidc-native''
        (native_realm c) db
     in (Ok r, db'))"
  using assms
  by (simp add: judged_session_def subdomain_auth_def subdomain_auth_before_idp_def Let_def native_oidc_auth_response_def
      native_realm_def split: prod.split)

lemma judged_up: "judged_session env rq db app c \<Longrightarrow> hot_up db"
  unfolding judged_session_def using first_native validatedD by blast

lemma found_app: "apps_wf (apps db) \<Longrightarrow> app \<in> set (apps db) \<Longrightarrow> find_app db (ap_id app) = Some app"
proof -
  assume wf: "apps_wf (apps db)" and app: "app \<in> set (apps db)"
  then obtain a where a: "find_app db (ap_id app) = Some a"
    unfolding find_app_def by (cases "first_row (\<lambda>a. ap_id a = ap_id app) (apps db)") auto
  have "a \<in> set (apps db)" "ap_id a = ap_id app" using first_row_Some [OF a [unfolded find_app_def]] by blast+
  with wf app a show ?thesis by (auto simp: apps_wf_def distinct_map dest: inj_onD)
qed

lemma judged_denied:
  assumes wf: "grants_wf (grants db)" "apps_wf (apps db)" and j: "judged_session env rq db app c"
    and no: "\<not> may_launch db app (identity_of (native_headers c)) (native_realm c)"
  obtains r a where "fst (subdomain_auth env idp rq db) = Ok r" "rp_status r = 401"
    "(''X-Auth-Error'', ''access_denied_no_grant'') \<in> set (rp_headers r)"
    "audit (snd (subdomain_auth env idp rq db)) = audit db @ [a]" "au_action a = ''access_denied_no_grant''"
    "au_target a = Some (ap_slug app)"
proof -
  have app: "app \<in> set (apps db)" using j resolved_app unfolding judged_session_def by blast
  note no' = no [folded launch_app [OF wf app]]
  obtain r d where rd: "session_decision env rq app (request_uri (request.truncate rq)) (request_host (request.truncate rq))
        (client_ip_from_request (ps_net (ge_ps env)) (request.truncate rq)) (identity_of (native_headers c)) ''oidc-native''
        (native_realm c) db = (r, d)" by fastforce
  have gate: "subdomain_auth env idp rq db = (Ok r, d)" unfolding judged_decision [OF j] rd by simp
  have "rp_status r = 401" "(''X-Auth-Error'', ''access_denied_no_grant'') \<in> set (rp_headers r)"
    "\<exists>a. audit d = audit db @ [a] \<and> au_action a = ''access_denied_no_grant'' \<and> au_target a = Some (ap_slug app)"
    using rd no' found_app [OF wf(2) app] judged_up [OF j]
    by (auto simp: session_decision_def deny_no_grant_def Let_def log_action_def split: prod.splits)
  with gate that show ?thesis by auto
qed

text \<open>C24: a portal session without the right is refused: when a request is decided on its portal session and no
  subject of the session holds launch or manage on the application, the answer is the 401 that names the
  missing grant, and the refusal is the one entry added to the journal.\<close>

theorem session_without_grant_denied:
  assumes "grants_wf (grants db)" "apps_wf (apps db)" and "judged_session env rq db app c"
    and "\<not> may_launch db app (identity_of (native_headers c)) (native_realm c)"
  shows "\<exists>r a. fst (subdomain_auth env idp rq db) = Ok r \<and> rp_status r = 401 \<and>
    (''X-Auth-Error'', ''access_denied_no_grant'') \<in> set (rp_headers r) \<and>
    audit (snd (subdomain_auth env idp rq db)) = audit db @ [a] \<and> au_action a = ''access_denied_no_grant'' \<and>
    au_target a = Some (ap_slug app)"
  using judged_denied [OF assms, of idp] by metis












text \<open>The check the login page makes before it sends a browser back to an application agrees with the decision
  except for one answer: when it says yes, the request is let through, or it is sent away for lack of the
  application's own session cookie, which the check does not look at.\<close>

theorem login_check_agrees:
  assumes "native_subdomain_auth_would_allow env rq (request_host (request.truncate rq)) db = Ok True"
  shows "\<exists>r db'. subdomain_auth env idp rq db = (Ok r, db') \<and>
    (rp_status r = 200 \<or> (''X-Auth-Error'', ''no-app-session'') \<in> set (rp_headers r))"
proof -
  obtain app hs where app: "resolve_app_by_host db (request_host (request.truncate rq)) = Some app"
    and hs: "native_oidc_auth_response (ge_oidc env) (ge_ps env) rq db = Ok (Some hs)"
    and l: "user_can_launch_application db (ap_id app) (str_opt (id_user (identity_of hs))) (id_groups (identity_of hs))
      (str_opt (header_of hs [''X-Auth-Request-Realm'']))"
    using assms by (auto simp: native_subdomain_auth_would_allow_def split: option.splits result.splits)
  have "rp_status (fst (session_decision env rq app uri host ip (identity_of hs) src (str_opt (header_of hs [''X-Auth-Request-Realm''])) db)) = 200 \<or>
      (''X-Auth-Error'', ''no-app-session'') \<in> set (rp_headers (fst (session_decision env rq app uri host ip (identity_of hs) src
        (str_opt (header_of hs [''X-Auth-Request-Realm''])) db)))" for uri host ip src
    using l by (auto simp: session_decision_def Let_def require_app_session_cookie_def deny_no_app_session_def split: option.splits if_splits)
  then show ?thesis
    using app hs
    by (auto simp: subdomain_auth_def subdomain_auth_before_idp_def Let_def split: option.split prod.splits) (metis fst_conv)+
qed

section \<open>Group names with commas\<close>

lemma split_on_join_any: "split_on x (a @ x # b) = split_on x a @ split_on x b"
  by (induction a) (auto split: list.split)

lemma split_join: "gs \<noteq> [] \<Longrightarrow> split_on x (join_with [x] gs) = concat (map (split_on x) gs)"
  by (induction "[x]" gs rule: join_with.induct) (simp_all add: split_on_join_any)

lemma lower_names:
  "lower ''X-Auth-Request-User'' = ''x-auth-request-user''" "lower ''X-Auth-User'' = ''x-auth-user''"
  "lower ''X-Auth-Request-Preferred-Username'' = ''x-auth-request-preferred-username''"
  "lower ''X-Auth-Request-Email'' = ''x-auth-request-email''" "lower ''X-Auth-Request-Groups'' = ''x-auth-request-groups''"
  "lower ''X-Auth-Groups'' = ''x-auth-groups''" "lower ''X-Auth-Request-Realm'' = ''x-auth-request-realm''"
  by code_simp+

lemma native_groups_header:
  "header_of (native_headers c) [''X-Auth-Request-Groups'', ''X-Auth-Groups''] =
     (if oc_groups c = [] then [] else strip (join_with '','' (oc_groups c)))"
  by (simp add: header_of_def native_headers_def Let_def lower_names opt_str_def map_add_def)

definition clean_group :: "string \<Rightarrow> bool" where
  "clean_group g \<longleftrightarrow> g \<noteq> [] \<and> strip g = g"

lemma join_ends:
  "gs \<noteq> [] \<Longrightarrow> list_all clean_group gs \<Longrightarrow>
     join_with [x] gs \<noteq> [] \<and> hd (join_with [x] gs) = hd (hd gs) \<and> last (join_with [x] gs) = last (last gs)"
  by (induction "[x]" gs rule: join_with.induct) (auto simp: clean_group_def)

lemma clean_ends: "clean_group g \<Longrightarrow> \<not> is_space (hd g) \<and> \<not> is_space (last g)"
  using strip_hd [of g] rstrip_last [of "lstrip g"] unfolding clean_group_def strip_def by auto

lemma strip_join_clean: "list_all clean_group gs \<Longrightarrow> gs \<noteq> [] \<Longrightarrow> strip (join_with [x] gs) = join_with [x] gs"
proof -
  assume c: "list_all clean_group gs" and ne: "gs \<noteq> []"
  have "clean_group (hd gs)" "clean_group (last gs)" using c ne by (auto simp: list_all_iff)
  then have "\<not> is_space (hd (join_with [x] gs))" "\<not> is_space (last (join_with [x] gs))"
    using join_ends [OF ne c, of x] clean_ends by auto
  then show ?thesis unfolding strip_def by (simp add: lstrip_id rstrip_id)
qed

lemma parsed_groups_clean: "list_all clean_group (parse_oidc_groups v)"
proof (cases v)
  case (Some w)
  then show ?thesis by (cases w) (auto simp: parse_oidc_groups_def clean_group_def list_all_iff)
qed (simp add: parse_oidc_groups_def)

lemma session_groups_clean: "native_session env rq db c \<Longrightarrow> list_all clean_group (oc_groups c)"
proof -
  assume "native_session env rq db c"
  then obtain raw where "validate_oidc_session_cookie (ge_oidc env) (ge_ps env) db raw = Ok (Some c)"
    unfolding native_session_def by blast
  then obtain payload where "oidc_claims_from_payload payload = Some c" by (rule validatedD)
  then have "oc_groups c = parse_oidc_groups (map_of payload ''groups'')"
    by (auto simp: oidc_claims_from_payload_def Let_def split: if_splits option.splits)
  then show ?thesis using parsed_groups_clean by simp
qed

text \<open>The groups of a portal session pass through a comma-separated header: the names the decision uses are the
  pieces of the names in the session between commas, each reduced to the last component of its path. A
  group whose own name holds a comma counts as several other groups.\<close>

theorem session_groups_split_at_commas:
  assumes "native_session env rq db c"
  shows "id_groups (identity_of (native_headers c)) =
    map normalize_group_name (filter (\<lambda>p. strip p \<noteq> []) (concat (map (split_on (CHR '','')) (oc_groups c))))"
proof (cases "oc_groups c = []")
  case True
  then show ?thesis by (simp add: identity_of_def native_groups_header parse_groups_header_def)
next
  case False
  note clean = session_groups_clean [OF assms]
  have "join_with '','' (oc_groups c) \<noteq> []" using join_ends [OF False clean] by blast
  then show ?thesis
    using False by (simp add: identity_of_def native_groups_header strip_join_clean [OF clean False] parse_groups_header_def split_join)
qed

end
