(* ===== verification/Csrf.thy ===== *)
theory Csrf
  imports SubdomainAuth
begin

text \<open>
  The protection of forms and of writes: \<open>app/web/csrf.py\<close>. A browser holds a random nonce in a cookie and a page
  shows the HMAC of that nonce; a write that a browser marks as coming from another origin is refused before any
  route runs. The keys of all signed values of the portal come from one root secret, one key per purpose.

  \<open>mac key text\<close> is HMAC-SHA-256 in hexadecimal. A request carries its method, path and query, what the standard
  library's \<open>SimpleCookie\<close> finds for the nonce (the middleware reads the header with it; the routes read the
  cookies Starlette parsed), and the nonce of \<open>request.state\<close>.
\<close>

section \<open>Keys\<close>

record sign_settings =
  si_secret :: string
  si_cached :: "string option"
  si_production :: bool
  si_token :: string  \<comment> \<open>\<open>vault_portal_internal_token\<close>\<close>

datatype sign_error = SigningSecretMissing | EmptySecret | NotAscii

definition dev_signing_secret :: string where "dev_signing_secret = ''dev-insecure''"

definition portal_signing_base :: "(string \<Rightarrow> string \<Rightarrow> string) \<Rightarrow> sign_settings \<Rightarrow> (sign_error, string) result" where
  "portal_signing_base mac st =
     (if strip (si_secret st) \<noteq> [] then Ok (strip (si_secret st))
      else if opt_str (si_cached st) \<noteq> [] then Ok (opt_str (si_cached st))
      else if si_production st then Raise SigningSecretMissing
      else if strip (si_token st) \<noteq> [] then Ok (mac (strip (si_token st)) ''bastion-dev-signing-fallback'')
      else Ok dev_signing_secret)"

definition portal_signing_secret ::
  "(string \<Rightarrow> string \<Rightarrow> string) \<Rightarrow> sign_settings \<Rightarrow> string \<Rightarrow> (sign_error, string) result" where
  "portal_signing_secret mac st purpose =
     (case portal_signing_base mac st of
        Raise e \<Rightarrow> Raise e
      | Ok base \<Rightarrow> Ok (mac base (''bastion:'' @ purpose @ '':v1'')))"

definition compare_digest :: "string \<Rightarrow> string \<Rightarrow> (sign_error, bool) result" where
  \<comment> \<open>\<open>hmac.compare_digest\<close> raises a \<open>TypeError\<close> on text that is not ASCII\<close>
  "compare_digest a b = (if is_ascii a \<and> is_ascii b then Ok (a = b) else Raise NotAscii)"

section \<open>Form tokens\<close>

record page_request = web_request +
  pg_method :: string
  pg_path :: string
  pg_query :: string
  pg_names :: "string list"  \<comment> \<open>the names of the headers in the order they came, in lower case\<close>
  pg_jar :: string  \<comment> \<open>the nonce \<open>SimpleCookie\<close> finds\<close>
  pg_state :: string  \<comment> \<open>the nonce of \<open>request.state\<close>\<close>

abbreviation page_base :: "page_request \<Rightarrow> request" where
  "page_base rq \<equiv> request.truncate rq"

abbreviation page_header :: "page_request \<Rightarrow> string \<Rightarrow> string" where
  "page_header rq name \<equiv> opt_str (rq_header rq name)"

abbreviation page_cookie :: "page_request \<Rightarrow> string \<Rightarrow> string" where
  "page_cookie rq name \<equiv> opt_str (map_of (rq_cookies rq) name)"

definition csrf_cookie :: string where "csrf_cookie = ''bastion_csrf''"

definition csrf_nonce :: "page_request \<Rightarrow> string" where
  "csrf_nonce rq = or_text (pg_state rq) (page_cookie rq csrf_cookie)"

definition make_csrf_token ::
  "(string \<Rightarrow> string \<Rightarrow> string) \<Rightarrow> page_request \<Rightarrow> string \<Rightarrow> (sign_error, string) result" where
  "make_csrf_token mac rq secret =
     (if secret = [] then Raise EmptySecret else Ok (mac secret (''csrf:'' @ csrf_nonce rq)))"

fun any_equal :: "string \<Rightarrow> string list \<Rightarrow> (sign_error, bool) result" where
  \<comment> \<open>\<open>any(c and compare_digest(c, expected) for c in candidates)\<close>\<close>
  "any_equal expected [] = Ok False"
| "any_equal expected (c # cs) =
     (if c = [] then any_equal expected cs
      else (case compare_digest c expected of
              Raise e \<Rightarrow> Raise e | Ok True \<Rightarrow> Ok True | Ok False \<Rightarrow> any_equal expected cs))"

definition verify_csrf_token ::
  "(string \<Rightarrow> string \<Rightarrow> string) \<Rightarrow> page_request \<Rightarrow> string \<Rightarrow> string \<Rightarrow> (sign_error, bool) result" where
  "verify_csrf_token mac rq secret csrf_token =
     (if page_cookie rq csrf_cookie = [] then Ok False
      else (case make_csrf_token mac rq secret of
              Raise e \<Rightarrow> Raise e
            | Ok expected \<Rightarrow> any_equal expected [strip csrf_token, strip (page_header rq ''X-CSRF-Token'')]))"

definition csrf_cookie_middleware ::
  "string \<Rightarrow> (page_request \<Rightarrow> 's \<Rightarrow> response \<times> 's) \<Rightarrow> page_request \<Rightarrow> 's \<Rightarrow> response \<times> 's" where
  \<comment> \<open>\<open>nonce\<close> is the random text of this request; only pages get the cookie\<close>
  "csrf_cookie_middleware nonce app rq s =
     (if pg_jar rq \<noteq> [] then app rq s
      else (let (r, s) = app (rq\<lparr>pg_state := nonce\<rparr>) s
            in if list_ex (\<lambda>(k, v). lower k = ''content-type'' \<and> starts_with ''text/html'' (lower v)) (rp_headers r)
               then (r\<lparr>rp_headers := rp_headers r @
                       [(''set-cookie'', csrf_cookie @ ''='' @ nonce @ ''; Path=/; HttpOnly; Secure; SameSite=Strict'')]\<rparr>, s)
               else (r, s)))"

section \<open>Writes from other origins\<close>

definition unsafe_methods :: "string list" where
  \<comment> \<open>compared without case, so written in lower case here\<close>
  "unsafe_methods = [''post'', ''put'', ''patch'', ''delete'']"

definition trusted_fetch_sites :: "string list" where "trusted_fetch_sites = [''same-origin'', ''none'']"

fun after_scheme :: "string \<Rightarrow> string" where
  \<comment> \<open>\<open>origin.partition("://")[2]\<close>\<close>
  "after_scheme [] = []"
| "after_scheme (c # s) = (if starts_with ''://'' (c # s) then drop 2 s else after_scheme s)"

definition host_of :: "string \<Rightarrow> string" where
  "host_of origin = lower (takeWhile (\<lambda>c. c \<noteq> CHR ''/'') (after_scheme origin))"

definition own_hosts :: "page_request \<Rightarrow> string list" where
  "own_hosts rq =
     map (\<lambda>h. lower (strip h))
       (filter (\<lambda>h. strip h \<noteq> [])
         (strip (page_header rq ''Host'') # split_on (CHR '','') (strip (page_header rq ''X-Forwarded-Host''))))"

definition is_cross_origin_browser_write :: "page_request \<Rightarrow> bool" where
  "is_cross_origin_browser_write rq =
     (let site = lower (strip (page_header rq ''Sec-Fetch-Site'')); origin = strip (page_header rq ''Origin'')
      in if lower (pg_method rq) \<notin> set unsafe_methods then False
         else if starts_with ''/internal/'' (pg_path rq) then False
         else if strip (page_header rq ''Cookie'') = [] \<or> strip (page_header rq ''Authorization'') \<noteq> [] then False
         else if site \<noteq> [] then site \<notin> set trusted_fetch_sites
         else if origin = [] then False
         else origin = ''null'' \<or> host_of origin \<notin> set (own_hosts rq))"

definition cross_origin_blocked :: response where
  "cross_origin_blocked =
     \<lparr>rp_status = 403, rp_headers = [(''content-type'', ''application/json''), (''content-length'', ''41'')]\<rparr>"

definition cross_origin_write_middleware ::
  "(page_request \<Rightarrow> 's \<Rightarrow> response \<times> 's) \<Rightarrow> page_request \<Rightarrow> 's \<Rightarrow> response \<times> 's" where
  "cross_origin_write_middleware app rq s =
     (if is_cross_origin_browser_write rq then (cross_origin_blocked, s) else app rq s)"

lemmas csrf_defs [py_defs] =
  dev_signing_secret_def portal_signing_base_def portal_signing_secret_def compare_digest_def csrf_cookie_def csrf_nonce_def
  make_csrf_token_def verify_csrf_token_def csrf_cookie_middleware_def unsafe_methods_def trusted_fetch_sites_def host_of_def
  own_hosts_def is_cross_origin_browser_write_def cross_origin_blocked_def cross_origin_write_middleware_def

end
