(* ===== verification/UserIdentity.thy ===== *)
theory UserIdentity
  imports Csrf
begin

text \<open>
  Who a page request is from: \<open>app/web/user_context.py\<close>, with \<open>nginx_identity_trusted\<close> of
  \<open>app/security/__init__.py\<close> and \<open>get_default_idp_realm\<close> of \<open>app/auth/flow.py\<close>. nginx copies the identity it got
  from the identity provider into headers and signs the request with a shared token; a break-glass session is the
  only identity the portal reads by itself. The names shown for a person (\<open>identity_first_name\<close>,
  \<open>identity_last_name\<close>) are left out: no decision reads them.
\<close>

section \<open>State and settings\<close>

record mfa_row =
  mf_email :: string
  mf_secret :: "string option"
  mf_totp :: bool
  mf_key_id :: "string option"
  mf_public_key :: "string option"
  mf_sign_count :: int
  mf_transports :: "string list option"
  mf_webauthn :: bool
  mf_updated :: int

record admin_db = gate_db +
  mono :: int  \<comment> \<open>\<open>time.monotonic()\<close>, in microseconds\<close>
  spoof_seen :: "(string \<times> int) list"
  mfa_rows :: "mfa_row list"

type_synonym 'a adb = "'a admin_db_scheme"

lemma log_action_admin [frame, simp]:
  "mono (log_action a b c d i db) = mono db" "spoof_seen (log_action a b c d i db) = spoof_seen db"
  "mfa_rows (log_action a b c d i db) = mfa_rows db"
  by (simp_all add: log_action_def split: prod.split)

record admin_env = gate_env +
  ae_mac :: "string \<Rightarrow> string \<Rightarrow> string"
  ae_sign :: sign_settings
  ae_admin_groups :: "string list"
  ae_mfa_required :: bool
  ae_mfa_pivot :: "int option"
  ae_mfa_grace :: "int option"
  ae_domain :: "string option"

datatype access_error =
  Unauthenticated | AdminRequired | MfaChallengeRequired string | MfaEnrollmentRequired string
| AccessSign sign_error | AccessSql db_error | AccessSession auth_error

section \<open>Trust in headers\<close>

definition nginx_identity_trusted :: "admin_env \<Rightarrow> page_request \<Rightarrow> (sign_error, bool) result" where
  "nginx_identity_trusted env rq =
     (let expected = strip (si_token (ae_sign env)); header = strip (page_header rq ''X-Portal-Internal-Token'');
          auth = strip (page_header rq ''Authorization''); token = strip (drop 7 auth);
          bearer = (if starts_with ''bearer '' (lower auth) \<and> token \<noteq> [] then compare_digest token expected else Ok False)
      in if expected = [] then Ok False
         else if header = [] then bearer
         else (case compare_digest header expected of
                 Raise e \<Rightarrow> Raise e | Ok True \<Rightarrow> Ok True | Ok False \<Rightarrow> bearer))"

definition identity_header_names :: "(string \<times> string) list" where
  "identity_header_names =
     [(''x-email'', ''X-Email''), (''x-groups'', ''X-Groups''), (''x-user'', ''X-User''),
      (''x-preferred-username'', ''X-Preferred-Username''), (''x-user-id'', ''X-User-Id''), (''x-given-name'', ''X-Given-Name''),
      (''x-family-name'', ''X-Family-Name''), (''x-portal-auth-source'', ''X-Portal-Auth-Source''),
      (''x-portal-realm-slug'', ''X-Portal-Realm-Slug'')]"

definition identity_headers_present :: "page_request \<Rightarrow> string list" where
  "identity_headers_present rq =
     filter (\<lambda>n. case map_of identity_header_names n of None \<Rightarrow> False | Some h \<Rightarrow> strip (page_header rq h) \<noteq> []) (pg_names rq)"

definition spoof_audit_ttl_sec :: int where "spoof_audit_ttl_sec = 300"

definition maybe_audit_identity_header_spoof :: "admin_env \<Rightarrow> page_request \<Rightarrow> 'a adb \<Rightarrow> 'a adb" where
  "maybe_audit_identity_header_spoof env rq db =
     (let present = identity_headers_present rq;
          ip = or_text (client_ip_from_request (ps_net (ge_ps env)) (page_base rq)) (or_text (opt_str (rq_client rq)) ''unknown'');
          now = mono db; seen = (case map_of (spoof_seen db) ip of None \<Rightarrow> 0 | Some t \<Rightarrow> t);
          entries = (ip, now) # filter (\<lambda>e. fst e \<noteq> ip) (spoof_seen db);
          kept = (if 4096 < length entries then filter (\<lambda>e. \<not> snd e < now - seconds spoof_audit_ttl_sec) entries else entries)
      in if present = [] \<or> now - seen < seconds spoof_audit_ttl_sec then db
         else log_action ''anonymous'' ''security.identity_header_spoof'' (Some (''ip:'' @ ip))
                [(''path'', JStr (pg_path rq)), (''method'', JStr (pg_method rq)), (''headers_present'', JList (map JStr present)),
                 (''token_header_present'', JBool (strip (page_header rq ''X-Portal-Internal-Token'') \<noteq> []))]
                (Some ip) (db\<lparr>spoof_seen := kept\<rparr>))"

section \<open>Administrators by group\<close>

definition admin_group_key :: "string \<Rightarrow> string" where
  \<comment> \<open>the full path of a group\<close>
  "admin_group_key raw =
     (let name = rstrip_char (CHR ''/'') (strip raw)
      in if name = [] then [] else if starts_with ''/'' name then name else CHR ''/'' # name)"

definition raw_group_paths :: "string option \<Rightarrow> string list" where
  "raw_group_paths raw =
     (if opt_str raw = [] then [] else filter (\<lambda>k. k \<noteq> []) (map admin_group_key (split_on (CHR '','') (opt_str raw))))"

definition get_default_idp_realm :: "'a pdb \<Rightarrow> realm_row option" where
  "get_default_idp_realm db = first_row (\<lambda>r. rl_default r \<and> rl_enabled r) (realms db)"

definition default_realm_slug :: "admin_env \<Rightarrow> string" where
  "default_realm_slug env = or_text (strip (ps_default_realm (ge_ps env))) ''default''"

definition portal_default_realm_slugs :: "admin_env \<Rightarrow> 'a pdb \<Rightarrow> string list" where
  "portal_default_realm_slugs env db =
     default_realm_slug env #
       (case get_default_idp_realm db of
          None \<Rightarrow> [] | Some r \<Rightarrow> if strip (rl_slug r) = [] then [] else [strip (rl_slug r)])"

definition is_admin_via_groups :: "admin_env \<Rightarrow> 'a pdb \<Rightarrow> string list \<Rightarrow> bool \<Rightarrow> string \<Rightarrow> bool" where
  "is_admin_via_groups env db group_paths breakglass realm_slug =
     (if breakglass then True
      else if strip realm_slug \<notin> set (portal_default_realm_slugs env db) then False
      else (let admin_groups = filter (\<lambda>k. k \<noteq> []) (map admin_group_key (ae_admin_groups env))
            in list_ex (\<lambda>g. admin_group_key g \<in> set admin_groups) group_paths))"

section \<open>The user of a request\<close>

record user_context =
  uc_email :: string
  uc_username :: string
  uc_groups :: "string list"
  uc_realm :: string
  uc_breakglass :: bool
  uc_admin :: bool
  uc_kc :: "string option"
  uc_given :: "string option"
  uc_family :: "string option"

definition display_cache_for_user :: "'a pdb \<Rightarrow> string option \<Rightarrow> string option" where
  \<comment> \<open>the label of the newest grant that has one\<close>
  "display_cache_for_user db uid =
     (if opt_str uid = [] then None
      else (case sort_key (\<lambda>g. - gr_at g)
                   (filter (\<lambda>g. gr_subject g = ''user'' \<and> gr_user g = uid \<and> opt_str (gr_display g) \<noteq> []) (grants db)) of
              [] \<Rightarrow> None
            | g # _ \<Rightarrow> (let label = strip (opt_str (gr_display g))
                      in if label \<noteq> [] \<and> \<not> looks_like_uuid (Some label) then Some label else None)))"

definition enrich_user_identity :: "'a pdb \<Rightarrow> user_context \<Rightarrow> user_context" where
  "enrich_user_identity db u =
     (let cache = display_cache_for_user db (uc_kc u);
          u = (if looks_like_uuid (Some (uc_username u))
               then u\<lparr>uc_username := or_text (opt_str (human_label [cache, Some (uc_email u), uc_given u])) (uc_username u)\<rparr> else u);
          u = (if looks_like_uuid (Some (uc_email u))
               then u\<lparr>uc_email := or_text (opt_str (human_label [cache, Some (uc_username u), uc_given u])) (uc_email u)\<rparr> else u)
      in if opt_str cache \<noteq> [] \<and> looks_like_uuid (Some (uc_username u)) \<and> looks_like_uuid (Some (uc_email u))
         then u\<lparr>uc_username := opt_str cache\<rparr> else u)"

definition breakglass_email_domain :: string where "breakglass_email_domain = ''breakglass.local''"

definition is_breakglass_email :: "string \<Rightarrow> bool" where
  "is_breakglass_email email = ends_with (CHR 0x40 # breakglass_email_domain) (lower (strip email))"

definition realm_from_bastion_session :: "admin_env \<Rightarrow> page_request \<Rightarrow> 'a gdb \<Rightarrow> (db_error, string) result" where
  "realm_from_bastion_session env rq db =
     (case extract_oidc_session_cookie_raw (web_request.truncate rq) (ge_ps env) of
        None \<Rightarrow> Ok []
      | Some raw \<Rightarrow>
          (case validate_oidc_session_cookie (ge_oidc env) (ge_ps env) db raw of
             Raise e \<Rightarrow> Raise e | Ok None \<Rightarrow> Ok [] | Ok (Some c) \<Rightarrow> Ok (strip (oc_realm c))))"

definition resolve_portal_realm_slug :: "admin_env \<Rightarrow> page_request \<Rightarrow> 'a gdb \<Rightarrow> (db_error, string) result" where
  "resolve_portal_realm_slug env rq db =
     (let header = strip (page_header rq ''X-Portal-Realm-Slug'')
      in if header \<noteq> [] then Ok header
         else (case realm_from_bastion_session env rq db of
                 Raise e \<Rightarrow> Raise e
               | Ok from_jwt \<Rightarrow> Ok (or_text from_jwt (default_realm_slug env))))"

record stated_identity =
  \<comment> \<open>what the headers of a request say, and nothing when they are not trusted\<close>
  hi_email :: string
  hi_preferred :: string
  hi_user :: string
  hi_uid :: string
  hi_groups :: "string list"
  hi_paths :: "string list"
  hi_realm :: string
  hi_given :: "string option"
  hi_family :: "string option"

definition nothing_stated :: "admin_env \<Rightarrow> stated_identity" where
  "nothing_stated env = \<lparr>hi_email = [], hi_preferred = [], hi_user = [], hi_uid = [], hi_groups = [], hi_paths = [],
     hi_realm = default_realm_slug env, hi_given = None, hi_family = None\<rparr>"

definition read_identity_headers :: "admin_env \<Rightarrow> page_request \<Rightarrow> 'a gdb \<Rightarrow> (db_error, stated_identity) result" where
  "read_identity_headers env rq db =
     (case resolve_portal_realm_slug env rq db of
        Raise e \<Rightarrow> Raise e
      | Ok realm \<Rightarrow> Ok
          \<lparr>hi_email = strip (page_header rq ''X-Email''), hi_preferred = strip (page_header rq ''X-Preferred-Username''),
           hi_user = strip (page_header rq ''X-User''), hi_uid = strip (page_header rq ''X-User-Id''),
           hi_groups = parse_groups_header (page_header rq ''X-Groups''), hi_paths = raw_group_paths (rq_header rq ''X-Groups''),
           hi_realm = realm,
           hi_given = str_opt (or_text (strip (page_header rq ''X-Given-Name'')) (strip (page_header rq ''X-Auth-Request-Given-Name''))),
           hi_family = str_opt (or_text (strip (page_header rq ''X-Family-Name'')) (strip (page_header rq ''X-Auth-Request-Family-Name'')))\<rparr>)"

definition breakglass_user :: "admin_env \<Rightarrow> page_request \<Rightarrow> 'a gdb \<Rightarrow> (auth_error, string option) result" where
  \<comment> \<open>the name of the break-glass session of the request\<close>
  "breakglass_user env rq db =
     (let cookie = page_cookie rq bg_cookie_name
      in if cookie = [] then Ok None
         else (case validate_breakglass_cookie (ge_jwt env) (ge_bg env) (ge_sv env) cookie db of
                 Raise e \<Rightarrow> Raise e
               | Ok False \<Rightarrow> Ok None
               | Ok True \<Rightarrow>
                   (case decode_breakglass_token_with_fallback (ge_jwt env) (ge_bg env) (ge_sv env) (clock db) cookie of
                      Raise e \<Rightarrow> Raise e
                    | Ok None \<Rightarrow> Ok None
                    | Ok (Some (payload, _)) \<Rightarrow> Ok (Some (case cl_sub payload of None \<Rightarrow> ''breakglass'' | Some s \<Rightarrow> s)))))"

definition kc_from_candidates :: "string \<Rightarrow> string \<Rightarrow> string list \<Rightarrow> string option" where
  \<comment> \<open>a header that holds the subject of the provider instead of a name\<close>
  "kc_from_candidates email preferred =
     find (\<lambda>c. c \<noteq> [] \<and> (looks_like_uuid (Some c) \<or> (c \<noteq> email \<and> CHR 0x40 \<notin> set c \<and> preferred = [])))"

definition finish_user :: "admin_env \<Rightarrow> bool \<Rightarrow> stated_identity \<Rightarrow> user_context \<Rightarrow> 'a gdb \<Rightarrow> user_context" where
  \<comment> \<open>the tail all identities share: e-mail, subject, administrator, labels\<close>
  "finish_user env trusted h u db =
     (let u = u\<lparr>uc_email := or_text (uc_email u) (uc_username u)\<rparr>;
          u = (if trusted \<and> uc_kc u = None
               then u\<lparr>uc_kc := kc_from_candidates (uc_email u) (hi_preferred h) [hi_uid h, hi_user h]\<rparr> else u);
          u = u\<lparr>uc_admin := is_admin_via_groups env db (hi_paths h) (uc_breakglass u) (uc_realm u)\<rparr>;
          u = (if \<not> uc_admin u \<and> user_has_portal_admin_role db (uc_kc u) (uc_groups u) (Some (uc_realm u))
               then u\<lparr>uc_admin := True\<rparr> else u)
      in enrich_user_identity db u)"

definition user_of_identity ::
  "admin_env \<Rightarrow> page_request \<Rightarrow> bool \<Rightarrow> stated_identity \<Rightarrow> 'a gdb \<Rightarrow> (access_error, user_context option) result" where
  "user_of_identity env rq trusted h db =
     (let username = or_text (opt_str (human_label [Some (hi_preferred h), Some (hi_user h), Some (hi_email h)]))
                       (or_text (hi_preferred h) (or_text (hi_user h) (hi_email h)));
          u = \<lparr>uc_email = hi_email h, uc_username = username, uc_groups = hi_groups h, uc_realm = hi_realm h,
               uc_breakglass = False, uc_admin = False, uc_kc = str_opt (hi_uid h), uc_given = hi_given h, uc_family = hi_family h\<rparr>
      in if hi_email h = [] \<and> username = []
         then (case breakglass_user env rq db of
                 Raise e \<Rightarrow> Raise (AccessSession e)
               | Ok None \<Rightarrow> Ok None
               | Ok (Some name) \<Rightarrow> Ok (Some (finish_user env trusted h
                   (u\<lparr>uc_email := name @ CHR 0x40 # breakglass_email_domain, uc_username := name, uc_groups := ae_admin_groups env,
                      uc_realm := [], uc_breakglass := True, uc_kc := None\<rparr>) db)))
         else Ok (Some (finish_user env trusted h u db)))"

definition get_user_context ::
  "admin_env \<Rightarrow> page_request \<Rightarrow> 'a adb \<Rightarrow> (access_error, user_context option) result \<times> 'a adb" where
  "get_user_context env rq db =
     (case nginx_identity_trusted env rq of
        Raise e \<Rightarrow> (Raise (AccessSign e), db)
      | Ok False \<Rightarrow>
          (let db = maybe_audit_identity_header_spoof env rq db
           in (user_of_identity env rq False (nothing_stated env) db, db))
      | Ok True \<Rightarrow>
          (case read_identity_headers env rq db of
             Raise e \<Rightarrow> (Raise (AccessSql e), db)
           | Ok h \<Rightarrow>
               (if list_ex is_breakglass_email [hi_email h, hi_preferred h, hi_user h] then (Ok None, db)
                else (user_of_identity env rq True h db, db))))"

definition is_portal_admin :: "'a pdb \<Rightarrow> user_context \<Rightarrow> bool" where
  "is_portal_admin db u \<longleftrightarrow>
     uc_admin u \<or> user_has_portal_admin_role db (uc_kc u) (uc_groups u) (Some (uc_realm u))"

definition elevate_portal_admin :: "'a pdb \<Rightarrow> user_context \<Rightarrow> user_context" where
  "elevate_portal_admin db u = (if is_portal_admin db u then u\<lparr>uc_admin := True\<rparr> else u)"

definition require_user ::
  "admin_env \<Rightarrow> page_request \<Rightarrow> 'a adb \<Rightarrow> (access_error, user_context) result \<times> 'a adb" where
  "require_user env rq db =
     bind_res (get_user_context env rq db)
       (\<lambda>u db. case u of None \<Rightarrow> (Raise Unauthenticated, db) | Some u \<Rightarrow> (Ok u, db))"

definition require_admin_mfa_exempt ::
  "admin_env \<Rightarrow> page_request \<Rightarrow> 'a adb \<Rightarrow> (access_error, user_context) result \<times> 'a adb" where
  "require_admin_mfa_exempt env rq db =
     bind_res (require_user env rq db)
       (\<lambda>u db. if is_portal_admin db u then (Ok (enrich_user_identity db (u\<lparr>uc_admin := True\<rparr>)), db)
               else (Raise AdminRequired, db))"

lemmas identity_defs [py_defs] =
  nginx_identity_trusted_def identity_header_names_def identity_headers_present_def spoof_audit_ttl_sec_def
  maybe_audit_identity_header_spoof_def admin_group_key_def raw_group_paths_def get_default_idp_realm_def default_realm_slug_def
  portal_default_realm_slugs_def is_admin_via_groups_def display_cache_for_user_def enrich_user_identity_def
  breakglass_email_domain_def is_breakglass_email_def realm_from_bastion_session_def resolve_portal_realm_slug_def nothing_stated_def
  read_identity_headers_def breakglass_user_def kc_from_candidates_def finish_user_def user_of_identity_def get_user_context_def
  is_portal_admin_def elevate_portal_admin_def require_user_def require_admin_mfa_exempt_def

end
