(* ===== verification/EasDevice.thy ===== *)
theory EasDevice
  imports AuditLog
begin

text \<open>
  Which device a mail client names in its request: \<open>app/subdomain/eas_device.py\<close>. The query is either a list of
  named parameters or one base64 text whose bytes are the protocol version, the command, the locale and then the
  device id, the policy key and the device type, each behind its length.

  Percent escapes of bytes above 127 are outside the model (they decode to the byte's character), and so is a target
  whose authority part holds a bracket. A byte of the device type above 127 is shown as a question mark.
\<close>

section \<open>The query of a target\<close>

definition url_query :: "string \<Rightarrow> string" where
  \<comment> \<open>\<open>urlsplit(uri).query\<close>: leading control characters and the line breaks are dropped, then the fragment\<close>
  "url_query uri =
     (let u = filter (\<lambda>c. cp c \<notin> {9, 10, 13}) (dropWhile (\<lambda>c. cp c \<le> 32) uri);
          u = takeWhile (\<lambda>c. c \<noteq> CHR ''#'') u
      in drop 1 (dropWhile (\<lambda>c. c \<noteq> CHR 0x3F) u))"

definition split_query :: "string \<Rightarrow> string" where
  "split_query uri =
     (let q = url_query uri
      in if q = [] then drop 1 (dropWhile (\<lambda>c. c \<noteq> CHR 0x3F) uri) else q)"

definition path_of :: "string \<Rightarrow> string" where
  "path_of uri = takeWhile (\<lambda>c. c \<noteq> CHR 0x3F) (if uri = [] then ''/'' else uri)"

definition is_autodiscover_uri :: "string \<Rightarrow> bool" where
  "is_autodiscover_uri uri =
     (let p = lower (path_of uri)
      in starts_with ''/autodiscover'' p \<and> (drop 13 p = [] \<or> starts_with ''/'' (drop 13 p)))"

definition is_activesync_path :: "string \<Rightarrow> bool" where
  "is_activesync_path uri = starts_with ''/microsoft-server-activesync'' (lower (path_of uri))"

definition hex_val :: "char \<Rightarrow> int option" where
  "hex_val c =
     (if is_digit c then Some (cp c - 48)
      else if 97 \<le> cp c \<and> cp c \<le> 102 then Some (cp c - 87)
      else if 65 \<le> cp c \<and> cp c \<le> 70 then Some (cp c - 55) else None)"

fun unquote :: "string \<Rightarrow> string" where
  "unquote [] = []"
| "unquote (c # s) =
     (if c = CHR 0x25
      then (case s of
              a # b # r \<Rightarrow>
                (case (hex_val a, hex_val b) of
                   (Some x, Some y) \<Rightarrow> char_of (16 * x + y) # unquote r
                 | _ \<Rightarrow> c # unquote s)
            | _ \<Rightarrow> c # unquote s)
      else c # unquote s)"

definition plus_space :: "string \<Rightarrow> string" where
  "plus_space s = map (\<lambda>c. if c = CHR ''+'' then CHR '' '' else c) s"

definition parse_qs :: "string \<Rightarrow> (string \<times> string) list" where
  \<comment> \<open>the pairs in their order; blank values are not kept\<close>
  "parse_qs query =
     List.map_filter (\<lambda>piece.
       let name = takeWhile (\<lambda>c. c \<noteq> CHR ''='') piece; v = drop (length name + 1) piece
       in if v = [] then None else Some (unquote (plus_space name), unquote (plus_space v)))
     (split_on (CHR ''&'') query)"

section \<open>Named parameters\<close>

definition max_device_id_len :: nat where "max_device_id_len = 128"
definition max_device_type_len :: nat where "max_device_type_len = 64"

definition device_id_keys :: "string list" where
  "device_id_keys = [''DeviceId'', ''deviceId'', ''device_id'', ''DeviceID'', ''deviceid'']"

definition device_type_keys :: "string list" where
  "device_type_keys = [''DeviceType'', ''deviceType'', ''device_type'', ''devicetype'']"

definition clean_text :: "string \<Rightarrow> nat \<Rightarrow> string option" where
  "clean_text value limit = (let s = strip value in if s = [] then None else Some (take limit s))"

fun first_clean :: "(string \<times> string) list \<Rightarrow> nat \<Rightarrow> string list \<Rightarrow> string option" where
  "first_clean params limit [] = None"
| "first_clean params limit (k # ks) =
     (case map_of params k of
        None \<Rightarrow> first_clean params limit ks
      | Some v \<Rightarrow> (case clean_text v limit of Some x \<Rightarrow> Some x | None \<Rightarrow> first_clean params limit ks))"

definition from_plain_query :: "string \<Rightarrow> string option \<times> string option" where
  "from_plain_query query =
     (let params = parse_qs query
      in (first_clean params max_device_id_len device_id_keys,
          first_clean params max_device_type_len device_type_keys))"

section \<open>The base64 form\<close>

definition b64_val :: "char \<Rightarrow> int option" where
  \<comment> \<open>both alphabets\<close>
  "b64_val c =
     (if 65 \<le> cp c \<and> cp c \<le> 90 then Some (cp c - 65)
      else if 97 \<le> cp c \<and> cp c \<le> 122 then Some (cp c - 71)
      else if is_digit c then Some (cp c + 4)
      else if c = CHR ''+'' \<or> c = CHR ''-'' then Some 62
      else if c = CHR ''/'' \<or> c = CHR ''_'' then Some 63 else None)"

definition base64_query :: "string \<Rightarrow> bool" where
  "base64_query s =
     (let body = takeWhile (\<lambda>c. b64_val c \<noteq> None) s; pad = drop (length body) s
      in body \<noteq> [] \<and> pad \<in> {[], ''='', ''==''})"

fun b64_bytes :: "int list \<Rightarrow> int list" where
  "b64_bytes (a # b # c # d # r) =
     (a * 4 + b div 16) # ((b mod 16) * 16 + c div 4) # ((c mod 4) * 64 + d) # b64_bytes r"
| "b64_bytes [a, b, c] = [a * 4 + b div 16, (b mod 16) * 16 + c div 4]"
| "b64_bytes [a, b] = [a * 4 + b div 16]"
| "b64_bytes _ = []"

definition b64decode :: "string \<Rightarrow> int list option" where
  "b64decode query =
     (let candidate = strip query
      in if candidate = [] \<or> \<not> base64_query candidate then None
         else (let body = rstrip_char (CHR ''='') candidate
               in if length body mod 4 = 1 then None else Some (b64_bytes (List.map_filter b64_val body))))"

datatype miss = MissNone | NoQuery | NamedWithoutId | NotBase64 | Undecodable | Truncated | EmptyDeviceId

definition hex_upper :: "int \<Rightarrow> char" where
  "hex_upper d = char_of (if d < 10 then 48 + d else 55 + d)"

definition hex_bytes :: "int list \<Rightarrow> string" where
  "hex_bytes bs = concat (map (\<lambda>b. [hex_upper (b div 16), hex_upper (b mod 16)]) bs)"

definition ascii_text :: "int list \<Rightarrow> string" where
  "ascii_text bs = map (\<lambda>b. if b < 128 then char_of b else CHR 0x3F) bs"

definition type_field :: "int list \<Rightarrow> string option" where
  \<comment> \<open>what follows the device id: the policy key, then the device type\<close>
  "type_field bs =
     (case bs of
        [] \<Rightarrow> None
      | key_len # r \<Rightarrow>
          (case drop (nat key_len) r of
             [] \<Rightarrow> None
           | n # t \<Rightarrow> if n \<noteq> 0 \<and> nat n \<le> length t then Some (ascii_text (take (nat n) t)) else None))"

definition from_base64_query :: "string \<Rightarrow> string option \<times> string option \<times> miss" where
  "from_base64_query query =
     (case b64decode query of
        None \<Rightarrow> (None, None, Undecodable)
      | Some raw \<Rightarrow>
          (if length raw < 6 then (None, None, Truncated)
           else (case drop 4 raw of
                   [] \<Rightarrow> (None, None, Truncated)
                 | n # r \<Rightarrow>
                     (if n = 0 then (None, None, EmptyDeviceId)
                      else if length r < nat n then (None, None, Truncated)
                      else (clean_text (hex_bytes (take (nat n) r)) max_device_id_len,
                            (case type_field (drop (nat n) r) of
                               None \<Rightarrow> None | Some t \<Rightarrow> clean_text t max_device_type_len),
                            MissNone)))))"

definition extract_eas :: "string \<Rightarrow> string option \<times> string option \<times> miss" where
  "extract_eas uri =
     (let query = split_query uri
      in if query = [] then (None, None, NoQuery)
         else (let (device_id, device_type) = from_plain_query query
               in if device_id \<noteq> None then (device_id, device_type, MissNone)
                  else if base64_query (strip query) then from_base64_query query
                  else if CHR ''='' \<in> set query then (None, None, NamedWithoutId)
                  else (None, None, NotBase64)))"

definition extract_eas_device :: "string \<Rightarrow> string option \<times> string option" where
  "extract_eas_device uri = (let (i, t, _) = extract_eas uri in (i, t))"

definition explain_eas_device_miss :: "string \<Rightarrow> miss" where
  "explain_eas_device_miss uri = snd (snd (extract_eas uri))"

fun miss_name :: "miss \<Rightarrow> string" where
  "miss_name MissNone = ''none''"
| "miss_name NoQuery = ''no_query''"
| "miss_name NamedWithoutId = ''named_query_without_device_id''"
| "miss_name NotBase64 = ''query_not_base64''"
| "miss_name Undecodable = ''base64_undecodable''"
| "miss_name Truncated = ''base64_truncated''"
| "miss_name EmptyDeviceId = ''base64_empty_device_id''"

fun miss_family :: "miss \<Rightarrow> string" where
  "miss_family MissNone = ''none''"
| "miss_family NoQuery = ''no_device_sent''"
| "miss_family NamedWithoutId = ''no_device_sent''"
| "miss_family EmptyDeviceId = ''no_device_sent''"
| "miss_family _ = ''decoder_failure''"

lemmas eas_device_defs [py_defs] =
  url_query_def split_query_def path_of_def is_autodiscover_uri_def is_activesync_path_def hex_val_def plus_space_def
  parse_qs_def max_device_id_len_def max_device_type_len_def device_id_keys_def device_type_keys_def clean_text_def
  from_plain_query_def b64_val_def base64_query_def b64decode_def hex_upper_def hex_bytes_def ascii_text_def
  type_field_def from_base64_query_def extract_eas_def extract_eas_device_def explain_eas_device_miss_def

section \<open>The base64 form is read back\<close>

fun b64_digits :: "int list \<Rightarrow> int list" where
  "b64_digits (x # y # z # r) =
     (x div 4) # ((x mod 4) * 16 + y div 16) # ((y mod 16) * 4 + z div 64) # (z mod 64) # b64_digits r"
| "b64_digits [x, y] = [x div 4, (x mod 4) * 16 + y div 16, (y mod 16) * 4]"
| "b64_digits [x] = [x div 4, (x mod 4) * 16]"
| "b64_digits [] = []"

definition b64_char :: "int \<Rightarrow> char" where
  "b64_char d = char_of (if d < 26 then 65 + d else if d < 52 then 71 + d else if d < 62 then d - 4 else if d = 62 then 43 else 47)"

definition b64_pad :: "int list \<Rightarrow> string" where
  "b64_pad bs = replicate ((3 - length bs mod 3) mod 3) (CHR ''='')"

definition b64_encode :: "int list \<Rightarrow> string" where
  \<comment> \<open>what a client sends\<close>
  "b64_encode bs = map b64_char (b64_digits bs) @ b64_pad bs"

definition is_byte :: "int \<Rightarrow> bool" where
  "is_byte b \<longleftrightarrow> 0 \<le> b \<and> b < 256"

definition eas_blob :: "int list \<Rightarrow> int list \<Rightarrow> int list \<Rightarrow> int list \<Rightarrow> int list" where
  "eas_blob head device key ty =
     head @ int (length device) # device @ int (length key) # key @ int (length ty) # ty"

lemma byte_parts:
  "is_byte y \<Longrightarrow> 0 \<le> y div 4 \<and> y div 4 < 64" "is_byte y \<Longrightarrow> 0 \<le> y div 16 \<and> y div 16 < 16"
  "is_byte y \<Longrightarrow> 0 \<le> y div 64 \<and> y div 64 < 4"
  unfolding is_byte_def by presburger+

lemma glue_byte:
  "is_byte y \<Longrightarrow> y div 16 div 16 = 0" "is_byte y \<Longrightarrow> y div 16 mod 16 = y div 16"
  "is_byte z \<Longrightarrow> z div 64 div 4 = 0" "is_byte z \<Longrightarrow> z div 64 mod 4 = z div 64"
  using byte_parts(2) [of y] byte_parts(3) [of z] by simp_all

lemma bytes_digits: "list_all is_byte bs \<Longrightarrow> b64_bytes (b64_digits bs) = bs"
  by (induction bs rule: b64_digits.induct) (simp_all add: glue_byte)

definition six_bits :: "int \<Rightarrow> bool" where
  "six_bits d \<longleftrightarrow> 0 \<le> d \<and> d < 64"

lemma digit_sum: "0 \<le> a \<Longrightarrow> a < m \<Longrightarrow> 0 \<le> b \<Longrightarrow> b < k \<Longrightarrow> 0 \<le> a * k + b \<and> a * k + b < m * (k :: int)"
proof -
  assume a: "0 \<le> a" "a < m" and b: "0 \<le> b" "b < k"
  have "a * k + b < (a + 1) * k" using b by (simp add: algebra_simps)
  also have "\<dots> \<le> m * k" using a b by (intro mult_right_mono) auto
  finally show ?thesis using a b by simp
qed

lemma six_bits_parts:
  "is_byte x \<Longrightarrow> six_bits (x div 4)" "six_bits (z mod 64)"
  "is_byte y \<Longrightarrow> six_bits (x mod 4 * 16 + y div 16)" "is_byte z \<Longrightarrow> six_bits (y mod 16 * 4 + z div 64)"
  "six_bits (x mod 4 * 16)" "six_bits (y mod 16 * 4)"
  using byte_parts(1) [of x] digit_sum [of "x mod 4" 4 "y div 16" 16] byte_parts(2) [of y]
    digit_sum [of "y mod 16" 16 "z div 64" 4] byte_parts(3) [of z] digit_sum [of "x mod 4" 4 0 16]
    digit_sum [of "y mod 16" 16 0 4]
  by (simp_all add: six_bits_def)

lemma digits_bound: "list_all is_byte bs \<Longrightarrow> list_all six_bits (b64_digits bs)"
  by (induction bs rule: b64_digits.induct) (simp_all add: six_bits_parts)

lemma b64_char_facts:
  assumes "six_bits d"
  shows "b64_val (b64_char d) = Some d" and "\<not> is_space (b64_char d)"
    and "b64_char d \<notin> {CHR ''='', CHR ''&'', CHR ''#'', CHR 0x25, CHR 0x3F}"
    and "32 < cp (b64_char d)"
proof -
  have "list_all (\<lambda>d. b64_val (b64_char d) = Some d \<and> \<not> is_space (b64_char d) \<and>
      b64_char d \<notin> {CHR ''='', CHR ''&'', CHR ''#'', CHR 0x25, CHR 0x3F} \<and> 32 < cp (b64_char d)) (map int [0..<64])"
    by code_simp
  moreover have "d \<in> set (map int [0..<64])"
    using assms by (auto simp: six_bits_def image_iff intro!: bexI [of _ "nat d"])
  ultimately show "b64_val (b64_char d) = Some d" "\<not> is_space (b64_char d)"
    "b64_char d \<notin> {CHR ''='', CHR ''&'', CHR ''#'', CHR 0x25, CHR 0x3F}" "32 < cp (b64_char d)"
    unfolding list_all_iff by blast+
qed

lemma digits_length: "length (b64_digits bs) mod 4 = (if length bs mod 3 = 0 then 0 else length bs mod 3 + 1)"
proof (induction bs rule: b64_digits.induct)
  case (1 x y z r)
  have "Suc (Suc (Suc n)) mod 3 = n mod 3" "Suc (Suc (Suc (Suc m))) mod 4 = m mod 4" for n m :: nat by presburger+
  with 1 show ?case by simp
qed simp_all

lemma enc_chars:
  assumes "list_all is_byte bs" and "c \<in> set (map b64_char (b64_digits bs))"
  shows "b64_val c \<noteq> None \<and> \<not> is_space c \<and> c \<notin> {CHR ''='', CHR ''&'', CHR ''#'', CHR 0x25, CHR 0x3F} \<and> 32 < cp c"
proof -
  obtain d where d: "c = b64_char d" "six_bits d"
    using assms digits_bound by (auto simp: list_all_iff)
  show ?thesis unfolding d(1) using b64_char_facts [OF d(2)] by simp
qed

lemma enc_vals: "list_all six_bits ds \<Longrightarrow> List.map_filter b64_val (map b64_char ds) = ds"
  by (induction ds) (simp_all add: b64_char_facts(1) List.map_filter_simps)

lemma b64_pad_cases: "b64_pad bs = (if length bs mod 3 = 0 then [] else if length bs mod 3 = 1 then ''=='' else ''='')"
proof -
  consider "length bs mod 3 = 0" | "length bs mod 3 = 1" | "length bs mod 3 = 2" by linarith
  then show ?thesis by cases (simp_all add: b64_pad_def numeral_2_eq_2)
qed

lemma takeWhile_app: "\<forall>c \<in> set xs. p c \<Longrightarrow> takeWhile p ys = [] \<Longrightarrow> takeWhile p (xs @ ys) = xs"
  by (induction xs) simp_all

lemma dropWhile_none: "x \<notin> set s \<Longrightarrow> dropWhile (\<lambda>c. c = x) s = s"
  by (cases s) auto

lemma rstrip_char_pad: "x \<notin> set s \<Longrightarrow> rstrip_char x (s @ replicate n x) = s"
proof -
  assume "x \<notin> set s"
  then have "dropWhile (\<lambda>c. c = x) (rev s) = rev s" by (simp add: dropWhile_none)
  moreover have "dropWhile (\<lambda>c. c = x) (replicate n x @ t) = dropWhile (\<lambda>c. c = x) t" for t by (induction n) simp_all
  ultimately show ?thesis by (simp add: rstrip_char_def)
qed

lemma encoded_char:
  assumes "list_all is_byte bs" and "c \<in> set (b64_encode bs)"
  shows "c = CHR ''='' \<or> c \<in> set (map b64_char (b64_digits bs))"
  using assms(2) by (auto simp: b64_encode_def b64_pad_def split: if_splits)

lemma encoded_plain:
  assumes "list_all is_byte bs" and "c \<in> set (b64_encode bs)"
  shows "\<not> is_space c \<and> c \<notin> {CHR ''&'', CHR ''#'', CHR 0x25, CHR 0x3F} \<and> 32 < cp c"
  using encoded_char [OF assms] enc_chars [OF assms(1)] by (auto simp: is_space_def)

lemma digits_some: "bs \<noteq> [] \<Longrightarrow> b64_digits bs \<noteq> []"
  by (cases bs rule: b64_digits.cases) simp_all

lemma encoded_body:
  assumes "list_all is_byte bs"
  shows "takeWhile (\<lambda>c. b64_val c \<noteq> None) (b64_encode bs) = map b64_char (b64_digits bs)"
proof -
  have "b64_val (CHR ''='') = None" by code_simp
  then have "takeWhile (\<lambda>c. b64_val c \<noteq> None) (b64_pad bs) = []" by (simp add: b64_pad_cases)
  moreover have "\<forall>c \<in> set (map b64_char (b64_digits bs)). b64_val c \<noteq> None" using enc_chars [OF assms] by blast
  ultimately show ?thesis unfolding b64_encode_def by (intro takeWhile_app)
qed

lemma encoded_query: "list_all is_byte bs \<Longrightarrow> bs \<noteq> [] \<Longrightarrow> base64_query (b64_encode bs)"
  unfolding base64_query_def Let_def encoded_body using digits_some
  by (simp add: b64_encode_def b64_pad_cases)

lemma encoded_strip: "list_all is_byte bs \<Longrightarrow> strip (b64_encode bs) = b64_encode bs"
  using encoded_plain by (intro strip_no_space) blast

lemma decode_encoded: "list_all is_byte bs \<Longrightarrow> bs \<noteq> [] \<Longrightarrow> b64decode (b64_encode bs) = Some bs"
proof -
  assume bs: "list_all is_byte bs" "bs \<noteq> []"
  have "CHR ''='' \<notin> set (map b64_char (b64_digits bs))" using enc_chars [OF bs(1)] by blast
  then have body: "rstrip_char (CHR ''='') (b64_encode bs) = map b64_char (b64_digits bs)"
    unfolding b64_encode_def b64_pad_def by (rule rstrip_char_pad)
  have "b64_encode bs \<noteq> []" using digits_some [OF bs(2)] by (simp add: b64_encode_def)
  moreover have "length (b64_digits bs) mod 4 \<noteq> 1" by (simp add: digits_length)
  ultimately show ?thesis
    using encoded_query [OF bs] enc_vals [OF digits_bound [OF bs(1)]] bytes_digits [OF bs(1)]
    by (simp add: b64decode_def encoded_strip [OF bs(1)] body)
qed

lemma unquote_plain: "CHR 0x25 \<notin> set s \<Longrightarrow> unquote s = s"
  by (induction s) auto

lemma encoded_no_param: "list_all is_byte bs \<Longrightarrow> fst (from_plain_query (b64_encode bs)) = None"
proof -
  assume bs: "list_all is_byte bs"
  let ?b = "map b64_char (b64_digits bs)"
  have one: "split_on (CHR ''&'') (b64_encode bs) = [b64_encode bs]"
    using encoded_plain [OF bs, of "CHR ''&''"] by (intro split_on_no_occ) blast
  have eq: "CHR ''='' \<notin> set ?b" and pct: "CHR 0x25 \<notin> set (plus_space ?b)"
    using enc_chars [OF bs] by (auto simp: plus_space_def)
  have "takeWhile (\<lambda>c. c \<noteq> CHR ''='') (b64_pad bs) = []" by (simp add: b64_pad_cases)
  then have name: "takeWhile (\<lambda>c. c \<noteq> CHR ''='') (b64_encode bs) = ?b"
    unfolding b64_encode_def using eq by (intro takeWhile_app) blast+
  have v: "drop (length ?b + 1) (b64_encode bs) = (if length bs mod 3 = 1 then ''='' else [])"
    by (simp add: b64_encode_def b64_pad_cases)
  have "unquote (plus_space ''='') = ''=''" by code_simp
  then have params: "parse_qs (b64_encode bs) = (if length bs mod 3 = 1 then [(plus_space ?b, ''='')] else [])"
    unfolding parse_qs_def one List.map_filter_simps Let_def name v unquote_plain [OF pct] by simp
  have "plus_space ?b \<notin> set device_id_keys" if "length bs mod 3 = 1"
  proof
    assume "plus_space ?b \<in> set device_id_keys"
    then have "length (plus_space ?b) \<in> {8, 9}" by (auto simp: device_id_keys_def)
    moreover have "length (plus_space ?b) mod 4 = 2" using that digits_length [of bs] by (simp add: plus_space_def)
    ultimately show False by auto
  qed
  then have "first_clean (parse_qs (b64_encode bs)) n ks = None" if "set ks \<subseteq> set device_id_keys" for n ks
    using that by (induction ks) (auto simp: params)
  then show ?thesis by (simp add: from_plain_query_def Let_def)
qed

lemma split_query_plain:
  assumes "q \<noteq> []" and "\<And>c. c \<in> set q \<Longrightarrow> c \<noteq> CHR ''#'' \<and> 32 < cp c"
  shows "split_query (''/Microsoft-Server-ActiveSync?'' @ q) = q"
proof -
  have f: "filter (\<lambda>c. cp c \<noteq> 9 \<and> cp c \<noteq> 10 \<and> cp c \<noteq> 13) q = q" "takeWhile (\<lambda>c. c \<noteq> CHR ''#'') q = q"
    using assms(2) by (auto simp: filter_id_conv takeWhile_eq_all_conv dest!: assms(2))
  have "url_query (''/Microsoft-Server-ActiveSync?'' @ q) = q"
    by (simp add: url_query_def f del: takeWhile_eq_all_conv)
  then show ?thesis using assms(1) by (simp add: split_query_def Let_def)
qed

lemma hex_bytes_facts:
  assumes "list_all is_byte bs"
  shows "length (hex_bytes bs) = 2 * length bs" and "\<And>c. c \<in> set (hex_bytes bs) \<Longrightarrow> \<not> is_space c"
proof -
  show "length (hex_bytes bs) = 2 * length bs" by (induction bs) (simp_all add: hex_bytes_def)
  have digit: "\<not> is_space (hex_upper d)" if "0 \<le> d" "d < 16" for d
  proof -
    have "list_all (\<lambda>d. \<not> is_space (hex_upper d)) (map int [0..<16])" by code_simp
    moreover have "d \<in> set (map int [0..<16])" using that by (auto simp: image_iff intro!: bexI [of _ "nat d"])
    ultimately show ?thesis unfolding list_all_iff by blast
  qed
  show "\<not> is_space c" if "c \<in> set (hex_bytes bs)" for c
    using that assms byte_parts(2) digit by (auto simp: hex_bytes_def list_all_iff)
qed

lemma ascii_text_back: "is_ascii t \<Longrightarrow> ascii_text (map cp t) = t"
  by (induction t) (simp_all add: ascii_text_def is_ascii_def)

lemma char_bytes: "list_all is_byte (map cp t)"
proof -
  have "is_byte (cp c)" for c
    unfolding is_byte_def using of_char_eq_iff by (cases c) (simp add: of_char_def horner_sum_simps)
  then show ?thesis by (simp add: list_all_iff)
qed

lemma clean_text_id: "strip s = s \<Longrightarrow> s \<noteq> [] \<Longrightarrow> length s \<le> n \<Longrightarrow> clean_text s n = Some s"
  by (simp add: clean_text_def)

lemma blob_fields:
  assumes "length head = 4" "device \<noteq> []" "length device \<le> 64" "length key < 256" "is_ascii t" "t \<noteq> []"
  shows "length (eas_blob head device key (map cp t)) \<ge> 6"
    and "drop 4 (eas_blob head device key (map cp t)) = int (length device) # device @ int (length key) # key @ int (length t) # map cp t"
    and "type_field (int (length key) # key @ int (length t) # map cp t) = Some t"
  using assms by (simp_all add: eas_blob_def type_field_def ascii_text_back Suc_le_eq)

text \<open>The base64 form of the query is read back: for every device id of at most 64 bytes, policy key and
  printable device type, the request a client builds from them yields the id in upper-case hexadecimal
  and the type.\<close>

theorem eas_query_roundtrip:
  assumes head: "length head = 4" "list_all is_byte head"
    and device: "list_all is_byte device" "device \<noteq> []" "length device \<le> 64"
    and key: "list_all is_byte key" "length key < 256"
    and type: "is_ascii t" "t \<noteq> []" "strip t = t" "length t \<le> 64"
  shows "extract_eas_device (''/Microsoft-Server-ActiveSync?'' @ b64_encode (eas_blob head device key (map cp t))) =
    (Some (hex_bytes device), Some t)"
proof -
  let ?bs = "eas_blob head device key (map cp t)"
  have bs: "list_all is_byte ?bs" "?bs \<noteq> []"
    using head(2) device key type(4) char_bytes by (auto simp: eas_blob_def is_byte_def)
  note fields = blob_fields [OF head(1) device(2,3) key(2) type(1,2)]
  have ne: "b64_encode ?bs \<noteq> []" using digits_some [OF bs(2)] by (simp add: b64_encode_def)
  then have q: "split_query (''/Microsoft-Server-ActiveSync?'' @ b64_encode ?bs) = b64_encode ?bs"
    by (rule split_query_plain) (use encoded_plain [OF bs(1)] in blast)
  have plain: "from_plain_query (b64_encode ?bs) = (None, snd (from_plain_query (b64_encode ?bs)))"
    using encoded_no_param [OF bs(1)] by (simp add: prod_eq_iff)
  have "hex_bytes device \<noteq> []" using hex_bytes_facts(1) [OF device(1)] device(2) by fastforce
  then have id: "clean_text (hex_bytes device) max_device_id_len = Some (hex_bytes device)"
    using hex_bytes_facts [OF device(1)] device(3) by (intro clean_text_id strip_no_space) (auto simp: max_device_id_len_def)
  have ty: "clean_text t max_device_type_len = Some t" using type by (intro clean_text_id) (simp_all add: max_device_type_len_def)
  have "from_base64_query (b64_encode ?bs) = (Some (hex_bytes device), Some t, MissNone)"
    using device(2) fields(1) by (simp add: from_base64_query_def decode_encoded [OF bs] fields(2,3) id ty)
  then show ?thesis
    unfolding extract_eas_device_def extract_eas_def Let_def q
    using ne by (subst plain) (simp add: encoded_strip [OF bs(1)] encoded_query [OF bs])
qed

theorem eas_query_roundtrip_witness:
  "extract_eas_device (''/Microsoft-Server-ActiveSync?'' @ b64_encode (eas_blob [140, 0, 9, 4] [1, 2, 255] [] (map cp ''iPhone''))) =
     (Some ''0102FF'', Some ''iPhone'')"
proof -
  have "hex_bytes [1, 2, 255] = ''0102FF''" by code_simp
  moreover have "list_all is_byte [140, 0, 9, 4]" "list_all is_byte [1, 2, 255]" "is_ascii ''iPhone''" "strip ''iPhone'' = ''iPhone''"
    by code_simp+
  ultimately show ?thesis using eas_query_roundtrip [of "[140, 0, 9, 4]" "[1, 2, 255]" "[]" "''iPhone''"] by simp
qed

lemma clean_text_bounds: "clean_text s n = Some x \<Longrightarrow> 0 < n \<Longrightarrow> x \<noteq> [] \<and> length x \<le> n"
  by (auto simp: clean_text_def Let_def split: if_splits)

lemma first_clean_bounds: "first_clean ps n ks = Some x \<Longrightarrow> 0 < n \<Longrightarrow> x \<noteq> [] \<and> length x \<le> n"
  by (induction ps n ks rule: first_clean.induct) (auto dest: clean_text_bounds split: option.splits)

lemma eas_device_bounds:
  "extract_eas_device uri = (Some i, ty) \<Longrightarrow> i \<noteq> [] \<and> length i \<le> 128"
  using first_clean_bounds [of _ max_device_id_len device_id_keys i] clean_text_bounds [of _ max_device_id_len i]
  by (auto simp: extract_eas_device_def extract_eas_def from_base64_query_def from_plain_query_def Let_def max_device_id_len_def
      split: if_splits option.splits list.splits)

end
