(* ===== verification/EasInventory.thy ===== *)
theory EasInventory
  imports SubdomainLaws EasDevice SqlLike "HOL-Library.AList" "HOL-Library.Product_Lexorder"
begin

text \<open>
  The inventory of mail devices: \<open>app/subdomain/activesync_device_service.py\<close>. A row is the device of one
  application under the identity its Basic header names; rows of the same application and DeviceId are folded into
  one. Every request reads its row, and writes it at most once a minute; the requests in between are counted in memory.

  The rows live in the portal database, whose UNIQUE constraint (application, identity, DeviceId) is checked by each
  statement; a flush sends the updates before the deletes. The dictionaries of the process are association lists,
  \<open>uptime\<close> is the monotonic clock in microseconds. The branches for a database that fails otherwise, and for a
  concurrent worker, are not modelled; a queued mail is its recipient. The labels \<open>eas_device_identity.py\<close> adds
  to a journal entry are left out.
\<close>

section \<open>State\<close>

record account_row =
  ac_id :: int
  ac_username :: string
  ac_email :: string

record device =
  dv_id :: int
  dv_app :: int
  dv_user :: string
  dv_kc :: "string option"
  dv_realm :: "int option"
  dv_device :: string
  dv_type :: "string option"
  dv_name :: "string option"
  dv_agent :: "string option"
  dv_kind :: "string option"
  dv_status :: string
  dv_source :: string
  dv_first :: int
  dv_last :: int
  dv_count :: int
  dv_ip :: "string option"
  dv_ips :: "string list"
  dv_by :: "string option"
  dv_at :: "int option"
  dv_note :: "string option"
  dv_blocked :: bool

type_synonym sight_key = "int \<times> string \<times> string"

record eas_db = gate_db +
  accounts :: "account_row list"
  devices :: "device list"
  uptime :: int
  sightings :: "(sight_key \<times> (int \<times> int \<times> string list)) list"
  unidentified_log :: "((string \<times> string) \<times> int) list"
  denial_log :: "((int \<times> string) \<times> int) list"
  allow_log :: "((string \<times> string \<times> string \<times> string) \<times> int) list"
  notify_log :: "(string \<times> int list) list"
  outbox :: "string list"

type_synonym 'a edb = "'a eas_db_scheme"

lemma log_action_eas [frame, simp]:
  "accounts (log_action a b c d i db) = accounts db" "devices (log_action a b c d i db) = devices db"
  "uptime (log_action a b c d i db) = uptime db" "sightings (log_action a b c d i db) = sightings db"
  "unidentified_log (log_action a b c d i db) = unidentified_log db" "denial_log (log_action a b c d i db) = denial_log db"
  "allow_log (log_action a b c d i db) = allow_log db" "notify_log (log_action a b c d i db) = notify_log db"
  "outbox (log_action a b c d i db) = outbox db"
  by (simp_all add: log_action_def split: prod.split)

definition device_pending :: string where "device_pending = ''pending''"
definition device_approved :: string where "device_approved = ''approved''"
definition device_rejected :: string where "device_rejected = ''rejected''"
definition device_blocked :: string where "device_blocked = ''blocked''"
definition max_sample_ips :: nat where "max_sample_ips = 10"

definition sighting_write_interval_sec :: int where "sighting_write_interval_sec = 60"
definition unidentified_log_interval_sec :: int where "unidentified_log_interval_sec = 3600"
definition denial_log_interval_sec :: int where "denial_log_interval_sec = 3600"
definition cache_max_entries :: nat where "cache_max_entries = 5000"

lemmas eas_constants [py_defs] =
  device_pending_def device_approved_def device_rejected_def device_blocked_def max_sample_ips_def
  sighting_write_interval_sec_def unidentified_log_interval_sec_def denial_log_interval_sec_def cache_max_entries_def

definition normalize_user_key :: "string \<Rightarrow> string" where
  \<comment> \<open>what follows the last backslash\<close>
  "normalize_user_key raw =
     (let value = lower (strip raw);
          value = (if CHR 0x5C \<in> set value then strip (rev (takeWhile (\<lambda>c. c \<noteq> CHR 0x5C) (rev value))) else value)
      in take 255 value)"

section \<open>Throttles of the process\<close>

definition claim_sighting :: "sight_key \<Rightarrow> string \<Rightarrow> 'a edb \<Rightarrow> (bool \<times> int \<times> string list) \<times> 'a edb" where
  "claim_sighting key ip db =
     (let now = uptime db; cache = (if cache_max_entries < length (sightings db) then [] else sightings db)
      in case map_of cache key of
           None \<Rightarrow> ((True, 1, if ip = [] then [] else [ip]), db\<lparr>sightings := AList.update key (now, 0, []) cache\<rparr>)
         | Some (written, hits, ips) \<Rightarrow>
             (let hits = hits + 1;
                  ips = (if ip \<noteq> [] \<and> ip \<notin> set ips \<and> length ips < max_sample_ips then ips @ [ip] else ips)
              in if now - written < seconds sighting_write_interval_sec
                 then ((False, 0, []), db\<lparr>sightings := AList.update key (written, hits, ips) cache\<rparr>)
                 else ((True, hits, ips), db\<lparr>sightings := AList.update key (now, 0, []) cache\<rparr>)))"

definition forget_sighting :: "sight_key \<Rightarrow> 'a edb \<Rightarrow> 'a edb" where
  "forget_sighting key db = db\<lparr>sightings := AList.delete key (sightings db)\<rparr>"

definition should_log_denial :: "int \<Rightarrow> string \<Rightarrow> 'a edb \<Rightarrow> bool \<times> 'a edb" where
  "should_log_denial app_id device_id db =
     (let now = uptime db; seen = (case map_of (denial_log db) (app_id, device_id) of None \<Rightarrow> 0 | Some t \<Rightarrow> t)
      in if seen \<noteq> 0 \<and> now - seen < seconds denial_log_interval_sec then (False, db)
         else (True, db\<lparr>denial_log := AList.update (app_id, device_id) now
                           (if cache_max_entries < length (denial_log db) then [] else denial_log db)\<rparr>))"

definition should_log_unidentified :: "string \<Rightarrow> string \<Rightarrow> 'a edb \<Rightarrow> bool \<times> 'a edb" where
  "should_log_unidentified app_slug user_agent db =
     (let key = (or_text app_slug ''-'', take 120 (or_text user_agent ''-'')); now = uptime db;
          seen = (case map_of (unidentified_log db) key of None \<Rightarrow> 0 | Some t \<Rightarrow> t)
      in if now - seen < seconds unidentified_log_interval_sec then (False, db)
         else (True, db\<lparr>unidentified_log := AList.update key now
                           (if cache_max_entries < length (unidentified_log db) then [] else unidentified_log db)\<rparr>))"

lemmas eas_throttle_defs [py_defs] =
  normalize_user_key_def claim_sighting_def forget_sighting_def should_log_denial_def should_log_unidentified_def

section \<open>Rows of one device\<close>

definition list_device_siblings :: "'a edb \<Rightarrow> int \<Rightarrow> string \<Rightarrow> device list" where
  "list_device_siblings db app_id device_id = filter (\<lambda>d. dv_app d = app_id \<and> dv_device d = device_id) (devices db)"

definition status_merge_rank :: "string \<Rightarrow> int" where
  "status_merge_rank s =
     (if s = device_blocked then 4 else if s = device_approved then 3 else if s = device_rejected then 2
      else if s = device_pending then 1 else 0)"

definition device_merge_score :: "device \<Rightarrow> int \<times> int \<times> int \<times> int \<times> int" where
  "device_merge_score d =
     (if dv_blocked d then 1 else 0, status_merge_rank (dv_status d), if CHR 0x5C \<in> set (dv_user d) then 0 else 1,
      dv_count d, - dv_id d)"

fun pick_from :: "device \<Rightarrow> device list \<Rightarrow> device" where
  \<comment> \<open>\<open>max\<close>: the first of the greatest\<close>
  "pick_from best [] = best"
| "pick_from best (d # ds) = pick_from (if device_merge_score best < device_merge_score d then d else best) ds"

definition pick_device_winner :: "device list \<Rightarrow> device" where
  "pick_device_winner ds = pick_from (hd ds) (tl ds)"

definition get_device :: "'a edb \<Rightarrow> int \<Rightarrow> string \<Rightarrow> string \<Rightarrow> device option" where
  "get_device db app_id user_key device_id =
     (let candidates = list_device_siblings db app_id device_id;
          exact = filter (\<lambda>d. dv_user d = user_key) candidates;
          legacy = filter (\<lambda>d. ends_with (CHR 0x5C # user_key) (dv_user d)) candidates
      in if exact \<noteq> [] then Some (pick_device_winner exact)
         else if user_key \<noteq> [] \<and> legacy \<noteq> [] then Some (pick_device_winner legacy)
         else None)"

definition keep_first :: "string option \<Rightarrow> string option \<Rightarrow> string option" where
  \<comment> \<open>the second value when the first is empty and the second is not\<close>
  "keep_first w l = (if opt_str l \<noteq> [] \<and> opt_str w = [] then l else w)"

definition merge_ips :: "string list \<Rightarrow> string list \<Rightarrow> string list" where
  "merge_ips = foldl (\<lambda>merged ip. if ip \<noteq> [] \<and> ip \<notin> set merged \<and> length merged < max_sample_ips then merged @ [ip] else merged)"

definition take_decision :: "device \<Rightarrow> device \<Rightarrow> device" where
  \<comment> \<open>the stronger decision, and the author of an equal one\<close>
  "take_decision l w =
     (if status_merge_rank (dv_status w) < status_merge_rank (dv_status l)
      then w\<lparr>dv_status := dv_status l, dv_source := dv_source l, dv_by := dv_by l, dv_at := dv_at l, dv_note := dv_note l\<rparr>
      else if opt_str (dv_by l) \<noteq> [] \<and> opt_str (dv_by w) = [] \<and> dv_status w = dv_status l
      then w\<lparr>dv_by := dv_by l, dv_at := dv_at l, dv_note := dv_note l\<rparr>
      else w)"

definition absorb_device :: "device \<Rightarrow> device \<Rightarrow> device" where
  "absorb_device w l =
     (let w = w\<lparr>dv_count := dv_count w + dv_count l, dv_first := min (dv_first w) (dv_first l)\<rparr>;
          w = (if dv_last w < dv_last l
               then w\<lparr>dv_last := dv_last l, dv_ip := (if opt_str (dv_ip l) \<noteq> [] then dv_ip l else dv_ip w)\<rparr> else w);
          w = w\<lparr>dv_type := keep_first (dv_type w) (dv_type l),
                 dv_agent := (if opt_str (dv_agent l) \<noteq> [] \<and>
                     (opt_str (dv_agent w) = [] \<or> length (opt_str (dv_agent w)) < length (opt_str (dv_agent l)))
                   then dv_agent l else dv_agent w),
                 dv_kind := keep_first (dv_kind w) (dv_kind l), dv_kc := keep_first (dv_kc w) (dv_kc l),
                 dv_realm := (if opt_int_or (dv_realm l) 0 \<noteq> 0 \<and> opt_int_or (dv_realm w) 0 = 0 then dv_realm l else dv_realm w),
                 dv_name := keep_first (dv_name w) (dv_name l), dv_blocked := (dv_blocked w \<or> dv_blocked l)\<rparr>;
          w = (take_decision l w)\<lparr>dv_ips := merge_ips (dv_ips w) (dv_ips l)\<rparr>;
          clean = or_text (normalize_user_key (dv_user w)) (normalize_user_key (dv_user l))
      in if clean = [] then w else w\<lparr>dv_user := clean\<rparr>)"

lemmas eas_row_defs [py_defs] =
  list_device_siblings_def status_merge_rank_def device_merge_score_def pick_device_winner_def get_device_def
  keep_first_def merge_ips_def take_decision_def absorb_device_def

section \<open>Writes\<close>

definition put_device :: "device \<Rightarrow> 'a edb \<Rightarrow> 'a edb" where
  "put_device d db = db\<lparr>devices := update_rows (\<lambda>r. dv_id r = dv_id d) (\<lambda>_. d) (devices db)\<rparr>"

definition same_place :: "device \<Rightarrow> device \<Rightarrow> bool" where
  "same_place d r \<longleftrightarrow> dv_app r = dv_app d \<and> dv_user r = dv_user d \<and> dv_device r = dv_device d"

definition device_conflict :: "device \<Rightarrow> 'a edb \<Rightarrow> bool" where
  "device_conflict d db \<longleftrightarrow> list_ex (\<lambda>r. dv_id r \<noteq> dv_id d \<and> same_place d r) (devices db)"

fun update_devices :: "device list \<Rightarrow> 'a edb \<Rightarrow> 'a edb option" where
  "update_devices [] db = Some db"
| "update_devices (d # ds) db = (if device_conflict d db then None else update_devices ds (put_device d db))"

definition flush_devices :: "device list \<Rightarrow> int list \<Rightarrow> 'a edb \<Rightarrow> 'a edb option" where
  \<comment> \<open>a commit: the updates, then the deletes; nothing is written when a statement fails\<close>
  "flush_devices changed gone db =
     (case update_devices changed db of
        None \<Rightarrow> None
      | Some db \<Rightarrow> Some (db\<lparr>devices := filter (\<lambda>r. dv_id r \<notin> set gone) (devices db)\<rparr>))"

definition clean_key :: "device \<Rightarrow> device" where
  "clean_key d = (let clean = normalize_user_key (dv_user d) in if clean = [] then d else d\<lparr>dv_user := clean\<rparr>)"

definition merge_device_group :: "device list \<Rightarrow> bool \<times> device \<times> int list" where
  \<comment> \<open>whether something changed, the survivor, the rows to delete\<close>
  "merge_device_group rows =
     (case rows of
        [only] \<Rightarrow> (clean_key only \<noteq> only, clean_key only, [])
      | _ \<Rightarrow> (let winner = pick_device_winner rows; losers = filter (\<lambda>d. dv_id d \<noteq> dv_id winner) rows
             in (True, foldl absorb_device winner losers, map dv_id losers)))"

definition device_key :: "device \<Rightarrow> int \<times> string" where
  "device_key d = (dv_app d, dv_device d)"

definition group_devices :: "device list \<Rightarrow> device list list" where
  "group_devices ds = map (\<lambda>k. filter (\<lambda>d. device_key d = k) ds) (dedup_from [] (map device_key ds))"

fun keep_unseen :: "(int \<times> string) list \<Rightarrow> device list \<Rightarrow> device list" where
  "keep_unseen seen [] = []"
| "keep_unseen seen (d # ds) =
     (if device_key d \<in> set seen then keep_unseen seen ds else d # keep_unseen (device_key d # seen) ds)"

definition dedupe_devices_in_memory :: "device list \<Rightarrow> device list" where
  \<comment> \<open>\<open>sorted(reverse=True)\<close> keeps the order of equal scores\<close>
  "dedupe_devices_in_memory ds = keep_unseen [] (rev (sort_key device_merge_score (rev ds)))"

definition merge_device_duplicates :: "device list \<Rightarrow> 'a edb \<Rightarrow> device list \<times> 'a edb" where
  "merge_device_duplicates ds db =
     (let results = map merge_device_group (group_devices ds); survivors = map (\<lambda>(_, d, _). d) results;
          changed = filter (\<lambda>(c, _). c) results
      in if changed = [] then (survivors, db)
         else (case flush_devices (map (\<lambda>(_, d, _). d) changed) (concat (map (\<lambda>(_, _, gone). gone) changed)) db of
                 Some db \<Rightarrow> (survivors, db)
               | None \<Rightarrow> (dedupe_devices_in_memory ds, db)))"

definition collapse_siblings_for_device :: "int \<Rightarrow> string \<Rightarrow> device \<Rightarrow> 'a edb \<Rightarrow> device \<times> 'a edb" where
  "collapse_siblings_for_device app_id device_id keep db =
     (let siblings = list_device_siblings db app_id device_id
      in if length siblings \<le> 1
         then (let only = (case siblings of d # _ \<Rightarrow> d | [] \<Rightarrow> keep)
               in if clean_key only = only then (only, db)
                  else (case flush_devices [clean_key only] [] db of Some db \<Rightarrow> (clean_key only, db) | None \<Rightarrow> (only, db)))
         else (let (merged, db) = merge_device_duplicates siblings db
               in (case merged of d # _ \<Rightarrow> d | [] \<Rightarrow> keep, db)))"

definition reconcile_duplicate_devices :: "nat \<Rightarrow> 'a edb \<Rightarrow> int \<times> 'a edb" where
  \<comment> \<open>SQL leaves open which of the doubled keys the limit keeps; here the first ones\<close>
  "reconcile_duplicate_devices limit db =
     (let keys = map device_key (devices db);
          doubled = take limit (filter (\<lambda>k. 1 < length (filter ((=) k) keys)) (dedup_from [] keys));
          ds = concat (map (\<lambda>(app_id, device_id). list_device_siblings db app_id device_id) doubled)
      in if doubled = [] then (0, db)
         else (let (survivors, db) = merge_device_duplicates ds db
               in (max 0 (int (length ds) - int (length survivors)), db)))"

lemmas eas_write_defs [py_defs] =
  put_device_def same_place_def device_conflict_def flush_devices_def clean_key_def merge_device_group_def device_key_def
  group_devices_def dedupe_devices_in_memory_def merge_device_duplicates_def collapse_siblings_for_device_def
  reconcile_duplicate_devices_def

end
