(* ===== verification/EasRegister.thy ===== *)
theory EasRegister
  imports EasInventory
begin

text \<open>
  The second half of \<open>app/subdomain/activesync_device_service.py\<close>: what a request writes to the inventory, the
  caps on new rows, the notification of the owner (with the queue of \<open>app/mail/outbox.py\<close>), the decisions of
  administrators and owners, the per-application control, and the rows of a person.
\<close>

section \<open>Notifications\<close>

definition notify_max_per_address_per_hour :: nat where "notify_max_per_address_per_hour = 3"
definition notify_max_per_ip_per_hour :: nat where "notify_max_per_ip_per_hour = 10"
definition pending_max_per_ip_per_day :: nat where "pending_max_per_ip_per_day = 10"
definition pending_max_per_app :: nat where "pending_max_per_app = 1000"
definition notify_window_s :: int where "notify_window_s = 3600"
definition max_queued_mails :: nat where "max_queued_mails = 100"

definition recent_events :: "string \<Rightarrow> int \<Rightarrow> (string \<times> int list) list \<Rightarrow> int list" where
  "recent_events key now events =
     filter (\<lambda>t. now - t < seconds notify_window_s) (case map_of events key of None \<Rightarrow> [] | Some ts \<Rightarrow> ts)"

definition quota_take :: "string \<Rightarrow> nat \<Rightarrow> int \<Rightarrow> (string \<times> int list) list \<Rightarrow> bool \<times> (string \<times> int list) list" where
  "quota_take key limit now events =
     (let ts = recent_events key now events
      in if limit \<le> length ts then (False, AList.update key ts events)
         else (True, AList.update key (ts @ [now]) events))"

definition notify_quota_take :: "string \<Rightarrow> string option \<Rightarrow> 'a edb \<Rightarrow> bool \<times> 'a edb" where
  "notify_quota_take address ip db =
     (let now = uptime db;
          (free, events) = (if opt_str ip = [] then (True, notify_log db)
                            else quota_take (''ip:'' @ opt_str ip) notify_max_per_ip_per_hour now (notify_log db))
      in if \<not> free then (False, db\<lparr>notify_log := events\<rparr>)
         else (let (free, events) = quota_take (''to:'' @ lower address) notify_max_per_address_per_hour now events
               in (free, db\<lparr>notify_log := events\<rparr>)))"

definition account_exists_for_email :: "'a edb \<Rightarrow> app_row \<Rightarrow> string \<Rightarrow> (db_error, bool) result" where
  \<comment> \<open>the active sessions are a table of the hot store\<close>
  "account_exists_for_email db app address =
     (let email = lower (strip address)
      in if CHR 0x40 \<notin> set email then Ok False
         else if list_ex (\<lambda>a. sql_lower (ac_email a) = email) (accounts db) then Ok True
         else if \<not> hot_up db then Raise SqlError
         else if list_ex (\<lambda>r. sql_lower (as_email r) = email) (active db) then Ok True
         else Ok (list_ex (\<lambda>d. dv_app d = ap_id app \<and> sql_lower (dv_user d) = email \<and> dv_status d = device_approved) (devices db)))"

definition enqueue_mail :: "string \<Rightarrow> 'a edb \<Rightarrow> 'a edb" where
  "enqueue_mail to_email db = (if max_queued_mails \<le> length (outbox db) then db else db\<lparr>outbox := outbox db @ [to_email]\<rparr>)"

definition send_queued_mail :: "'a edb \<Rightarrow> 'a edb" where
  \<comment> \<open>the worker thread: sent or failed, the slot is released\<close>
  "send_queued_mail db = db\<lparr>outbox := tl (outbox db)\<rparr>"

definition maybe_notify_owner_new_pending :: "device \<Rightarrow> app_row \<Rightarrow> 'a edb \<Rightarrow> 'a edb" where
  "maybe_notify_owner_new_pending d app db =
     (let to_addr = strip (dv_user d)
      in if \<not> ap_device_control app \<or> CHR 0x40 \<notin> set to_addr then db
         else (case account_exists_for_email db app to_addr of
                 Raise _ \<Rightarrow> db
               | Ok False \<Rightarrow> db
               | Ok True \<Rightarrow>
                   (let (free, db) = notify_quota_take to_addr (dv_ip d) db
                    in if free then enqueue_mail to_addr db else db)))"

section \<open>A sighting\<close>

record sighting =
  \<comment> \<open>what the request says of the device; the empty string for an absent address, agent or kind\<close>
  sg_type :: "string option"
  sg_agent :: string
  sg_kind :: string
  sg_ip :: string

definition apply_sighting_update :: "string \<Rightarrow> int \<Rightarrow> string list \<Rightarrow> sighting \<Rightarrow> int \<Rightarrow> device \<Rightarrow> device" where
  "apply_sighting_update user_key hits ips s now d =
     d\<lparr>dv_user := user_key, dv_last := now, dv_count := dv_count d + max 1 hits,
       dv_ip := (if sg_ip s = [] then dv_ip d else Some (sg_ip s)), dv_ips := merge_ips (dv_ips d) (ips @ [sg_ip s]),
       dv_type := (if opt_str (sg_type s) = [] then dv_type d else sg_type s),
       dv_agent := (if sg_agent s = [] then dv_agent d else Some (take 512 (sg_agent s))),
       dv_kind := (if sg_kind s = [] then dv_kind d else Some (sg_kind s))\<rparr>"

datatype cap_scope = CapApp | CapIp  \<comment> \<open>\<open>PendingDeviceCapExceeded\<close>\<close>

definition pending_of :: "'a edb \<Rightarrow> int \<Rightarrow> device list" where
  "pending_of db app_id = filter (\<lambda>d. dv_app d = app_id \<and> dv_status d = device_pending) (devices db)"

definition assert_pending_capacity :: "app_row \<Rightarrow> string \<Rightarrow> 'a edb \<Rightarrow> (cap_scope, unit) result" where
  "assert_pending_capacity app ip db =
     (if pending_max_per_app \<le> length (pending_of db (ap_id app)) then Raise CapApp
      else if ip \<noteq> [] \<and>
              pending_max_per_ip_per_day \<le>
                length (filter (\<lambda>d. dv_ip d = Some ip \<and> clock db - seconds 86400 \<le> dv_first d) (pending_of db (ap_id app)))
           then Raise CapIp
      else Ok ())"

definition realm_id_for_app :: "'a edb \<Rightarrow> app_row \<Rightarrow> int option" where
  "realm_id_for_app db app =
     (let slug = strip (opt_str (ap_realm app))
      in if slug = [] then None else map_option rl_id (first_row (\<lambda>r. rl_slug r = slug) (realms db)))"

definition next_device_id :: "device list \<Rightarrow> int" where
  "next_device_id ds = 1 + foldr max (map dv_id ds) 0"

definition new_device :: "app_row \<Rightarrow> string \<Rightarrow> string \<Rightarrow> sighting \<Rightarrow> 'a edb \<Rightarrow> device" where
  "new_device app user_key device_id s db =
     \<lparr>dv_id = next_device_id (devices db), dv_app = ap_id app, dv_user = user_key, dv_kc = None,
      dv_realm = realm_id_for_app db app, dv_device = device_id, dv_type = sg_type s, dv_name = None,
      dv_agent = str_opt (take 512 (sg_agent s)), dv_kind = Some (sg_kind s), dv_status = device_pending,
      dv_source = ''observed'', dv_first = clock db, dv_last = clock db, dv_count = 1, dv_ip = Some (sg_ip s),
      dv_ips = (if sg_ip s = [] then [] else [sg_ip s]), dv_by = None, dv_at = None, dv_note = None, dv_blocked = False\<rparr>"

definition store_sighting :: "app_row \<Rightarrow> device \<Rightarrow> device \<Rightarrow> 'a edb \<Rightarrow> device \<times> 'a edb" where
  \<comment> \<open>the commit of a changed row; after a refusal the rows of the device are read and folded again\<close>
  "store_sighting app d d' db =
     (case flush_devices [d'] [] db of
        Some db \<Rightarrow> (d', db)
      | None \<Rightarrow> collapse_siblings_for_device (ap_id app) (dv_device d) d db)"

definition create_device ::
  "app_row \<Rightarrow> string \<Rightarrow> string \<Rightarrow> sighting \<Rightarrow> 'a edb \<Rightarrow> (cap_scope, device option) result \<times> 'a edb" where
  "create_device app user_key device_id s db =
     (case list_device_siblings db (ap_id app) device_id of
        sib # _ \<Rightarrow>
          (let (d, db) = collapse_siblings_for_device (ap_id app) device_id sib db;
               (d, db) = store_sighting app d (apply_sighting_update user_key 1 [] s (clock db) d) db
           in (Ok (Some d), db))
      | [] \<Rightarrow>
          (case assert_pending_capacity app (sg_ip s) db of
             Raise e \<Rightarrow> (Raise e, db)
           | Ok _ \<Rightarrow>
               (let d = new_device app user_key device_id s db;
                    db = db\<lparr>devices := devices db @ [d]\<rparr>;
                    db = log_action user_key ''activesync.device_discovered'' (Some (ap_slug app))
                           [(''application_id'', JInt (ap_id app)), (''device_id'', JStr device_id),
                            (''device_type'', jopt (sg_type s)), (''client_kind'', JStr (sg_kind s)),
                            (''user_agent'', jopt (str_opt (take 512 (sg_agent s)))), (''status'', JStr (dv_status d)),
                            (''device_control'', JBool (ap_device_control app))] (Some (sg_ip s)) db
                in (Ok (Some d), maybe_notify_owner_new_pending d app db))))"

definition record_sighting ::
  "app_row \<Rightarrow> string \<Rightarrow> string \<Rightarrow> sighting \<Rightarrow> 'a edb \<Rightarrow> (cap_scope, device option) result \<times> 'a edb" where
  "record_sighting app user_key device_id s db =
     (if user_key = [] \<or> device_id = [] then (Ok None, db)
      else (let key = (ap_id app, user_key, device_id)
            in case get_device db (ap_id app) user_key device_id of
                 None \<Rightarrow> create_device app user_key device_id s (forget_sighting key db)
               | Some d \<Rightarrow>
                   (let (d, db) = collapse_siblings_for_device (ap_id app) device_id d db;
                        ((should_write, hits, ips), db) = claim_sighting key (sg_ip s) db
                    in if \<not> should_write then (Ok (Some d), db)
                       else (let (d, db) = store_sighting app d (apply_sighting_update user_key hits ips s (clock db) d) db
                             in (Ok (Some d), db)))))"

definition query_sample_max :: nat where "query_sample_max = 120"

definition query_sample :: "string \<Rightarrow> string option" where
  \<comment> \<open>the ellipsis character U+2026 is written as three points\<close>
  "query_sample uri =
     (let query = split_query uri
      in if query = [] then None
         else Some (if query_sample_max < length query then take query_sample_max query @ ''...'' else query))"

definition log_unidentified_device :: "app_row \<Rightarrow> string \<Rightarrow> string \<Rightarrow> sighting \<Rightarrow> 'a edb \<Rightarrow> 'a edb" where
  "log_unidentified_device app actor uri s db =
     (let (first_time, db) = should_log_unidentified (ap_slug app) (sg_agent s) db
      in if \<not> first_time then db
         else (let reason = explain_eas_device_miss uri
               in log_action (or_text actor ''anonymous'') ''activesync.device_unidentified'' (Some (ap_slug app))
                    [(''application_id'', JInt (ap_id app)), (''path'', JStr (take 256 (path_of (or_text uri ''/'')))),
                     (''query_sample'', jopt (query_sample uri)), (''query_len'', JInt (int (length (split_query uri)))),
                     (''miss_reason'', JStr (miss_name reason)), (''miss_family'', JStr (miss_family reason)),
                     (''user_agent'', jopt (str_opt (take 512 (sg_agent s)))), (''client_kind'', JStr (sg_kind s))]
                    (Some (sg_ip s)) db))"

lemmas eas_sighting_defs [py_defs] =
  notify_max_per_address_per_hour_def notify_max_per_ip_per_hour_def pending_max_per_ip_per_day_def pending_max_per_app_def
  notify_window_s_def max_queued_mails_def recent_events_def quota_take_def notify_quota_take_def account_exists_for_email_def
  enqueue_mail_def send_queued_mail_def maybe_notify_owner_new_pending_def apply_sighting_update_def pending_of_def
  assert_pending_capacity_def realm_id_for_app_def next_device_id_def new_device_def store_sighting_def create_device_def
  record_sighting_def query_sample_max_def query_sample_def log_unidentified_device_def

section \<open>Decisions\<close>

datatype decision_error = ReasonRequired | BlockedByAdmin | ActivesyncNotAllowed  \<comment> \<open>\<open>DeviceDecisionError\<close>\<close>

definition app_slug_of :: "'a edb \<Rightarrow> int \<Rightarrow> string option" where
  "app_slug_of db app_id = map_option ap_slug (find_app db app_id)"

definition apply_decision ::
  "device \<Rightarrow> string \<Rightarrow> string \<Rightarrow> string \<Rightarrow> string option \<Rightarrow> bool \<Rightarrow> string \<Rightarrow> details \<Rightarrow> 'a edb \<Rightarrow> device \<times> 'a edb" where
  "apply_decision d status src actor note blocked action extra db =
     (let d = d\<lparr>dv_status := status, dv_source := src, dv_by := Some actor, dv_at := Some (clock db), dv_note := note,
                dv_blocked := blocked\<rparr>
      in (d, log_action actor action (app_slug_of db (dv_app d))
               ([(''application_id'', JInt (dv_app d)), (''device_id'', JStr (dv_device d)), (''device_type'', jopt (dv_type d)),
                 (''user_key'', JStr (dv_user d)), (''status'', JStr status), (''by'', JStr src)] @
                (if opt_str note = [] then [] else [(''reason'', JStr (take 512 (opt_str note)))]) @ extra) None
               (put_device d db)))"

definition admin_block_device :: "device \<Rightarrow> string \<Rightarrow> string \<Rightarrow> 'a edb \<Rightarrow> (decision_error, device) result \<times> 'a edb" where
  "admin_block_device d actor reason db =
     (let cleaned = strip reason
      in if cleaned = [] then (Raise ReasonRequired, db)
         else (let (d, db) = apply_decision d device_blocked ''admin'' actor (Some cleaned) True ''activesync.device_blocked'' [] db
               in (Ok d, db)))"

definition admin_unblock_device :: "device \<Rightarrow> string \<Rightarrow> 'a edb \<Rightarrow> device \<times> 'a edb" where
  "admin_unblock_device d actor =
     apply_decision d device_pending ''admin'' actor None False ''activesync.device_unblocked'' []"

definition admin_approve_device :: "device \<Rightarrow> string \<Rightarrow> 'a edb \<Rightarrow> device \<times> 'a edb" where
  "admin_approve_device d actor =
     apply_decision d device_approved ''admin'' actor None False ''activesync.device_approved'' []"

definition user_decision ::
  "device \<Rightarrow> string \<Rightarrow> string \<Rightarrow> string \<Rightarrow> 'a edb \<Rightarrow> (decision_error, device) result \<times> 'a edb" where
  \<comment> \<open>what the three operations of an owner share; the key \<open>by\<close> of the details is overwritten, with the same value\<close>
  "user_decision d status actor action db =
     (if dv_blocked d then (Raise BlockedByAdmin, db)
      else (let (d, db) = apply_decision d status ''user'' actor None False action [] db in (Ok d, db)))"

definition user_approve_device ::
  "device \<Rightarrow> string \<Rightarrow> string option \<Rightarrow> 'a edb \<Rightarrow> (decision_error, device) result \<times> 'a edb" where
  "user_approve_device d actor friendly_name db =
     user_decision (case friendly_name of None \<Rightarrow> d
                    | Some name \<Rightarrow> if dv_blocked d then d else d\<lparr>dv_name := str_opt (take 120 (strip name))\<rparr>)
       device_approved actor ''activesync.device_approved'' db"

definition user_reject_device :: "device \<Rightarrow> string \<Rightarrow> 'a edb \<Rightarrow> (decision_error, device) result \<times> 'a edb" where
  "user_reject_device d actor = user_decision d device_rejected actor ''activesync.device_rejected''"

definition user_revoke_device :: "device \<Rightarrow> string \<Rightarrow> 'a edb \<Rightarrow> (decision_error, device) result \<times> 'a edb" where
  "user_revoke_device d actor = user_decision d device_pending actor ''activesync.device_revoked''"

section \<open>The devices of a person\<close>

definition session_keys :: "string option \<Rightarrow> string option \<Rightarrow> string list" where
  "session_keys email username =
     filter (\<lambda>k. k \<noteq> []) [normalize_user_key (opt_str email), normalize_user_key (opt_str username)]"

definition device_owned_by_session :: "device \<Rightarrow> string option \<Rightarrow> string option \<Rightarrow> string option \<Rightarrow> bool" where
  "device_owned_by_session d email username kc \<longleftrightarrow>
     (dv_user d \<noteq> [] \<and> dv_user d \<in> set (session_keys email username)) \<or>
     (opt_str kc \<noteq> [] \<and> dv_kc d = kc) \<or>
     (dv_user d \<noteq> [] \<and> list_ex (\<lambda>k. ends_with (CHR 0x5C # k) (dv_user d)) (session_keys email username))"

definition domain_form_like :: "string \<Rightarrow> string \<Rightarrow> bool" where
  \<comment> \<open>\<open>user_key.endswith('\' + k)\<close> as SQL: LIKE without an escape character, letters compared without case\<close>
  "domain_form_like k user_key = like None (sql_lower (''%'' @ CHR 0x5C # k)) (sql_lower user_key)"

definition devices_for_identities :: "string list \<Rightarrow> string option \<Rightarrow> 'a edb \<Rightarrow> device list" where
  \<comment> \<open>rows seen at the same time come out in the order of the table\<close>
  "devices_for_identities user_keys kc db =
     (let keys = filter (\<lambda>k. k \<noteq> []) (map normalize_user_key user_keys)
      in if keys = [] \<and> opt_str kc = [] then []
         else sort_key (\<lambda>d. - dv_last d)
                (filter (\<lambda>d. dv_user d \<in> set keys \<or> list_ex (\<lambda>k. domain_form_like k (dv_user d)) keys \<or>
                             (opt_str kc \<noteq> [] \<and> dv_kc d = kc)) (devices db)))"

definition link_device :: "string option \<Rightarrow> int option \<Rightarrow> device \<Rightarrow> device" where
  "link_device kc realm d =
     (let d = (if opt_str (dv_kc d) = [] then d\<lparr>dv_kc := kc\<rparr> else d)
      in if opt_int_or realm 0 \<noteq> 0 \<and> opt_int_or (dv_realm d) 0 = 0 then d\<lparr>dv_realm := realm\<rparr> else d)"

definition link_devices_to_keycloak_user ::
  "device list \<Rightarrow> string option \<Rightarrow> int option \<Rightarrow> 'a edb \<Rightarrow> device list \<times> 'a edb" where
  \<comment> \<open>the rows as the caller holds them afterwards; no key changes, so the commit is not refused\<close>
  "link_devices_to_keycloak_user ds kc realm db =
     (if opt_str kc = [] then (ds, db)
      else (map (link_device kc realm) ds, fold put_device (map (link_device kc realm) ds) db))"

definition portal_activesync_devices ::
  "string option \<Rightarrow> string option \<Rightarrow> string option \<Rightarrow> 'a edb \<Rightarrow> device list \<times> 'a edb" where
  \<comment> \<open>\<open>_portal_activesync_context\<close>: the rows listed on the page of the person\<close>
  "portal_activesync_devices email username kc db =
     (let (ds, db) = merge_device_duplicates (devices_for_identities [opt_str email, opt_str username] kc db) db;
          (ds, db) = link_devices_to_keycloak_user ds kc None db
      in (filter (\<lambda>d. device_owned_by_session d email username kc) ds, db))"

definition user_devices_context ::
  "string list \<Rightarrow> string option \<Rightarrow> int option \<Rightarrow> 'a edb \<Rightarrow> device list \<times> 'a edb" where
  \<comment> \<open>\<open>build_user_devices_context\<close>: the rows on the page administrators have of a person\<close>
  "user_devices_context user_keys kc realm db =
     (if \<not> list_ex ap_activesync (apps db) then ([], db)
      else (let (ds, db) = merge_device_duplicates (devices_for_identities user_keys kc db) db
            in link_devices_to_keycloak_user ds kc realm db))"

definition owned_device :: "int \<Rightarrow> string option \<Rightarrow> string option \<Rightarrow> string option \<Rightarrow> 'a edb \<Rightarrow> device option" where
  \<comment> \<open>\<open>_owned_device_or_404\<close>\<close>
  "owned_device i email username kc db =
     (case first_row (\<lambda>d. dv_id d = i) (devices db) of
        None \<Rightarrow> None
      | Some d \<Rightarrow> if device_owned_by_session d email username kc then Some d else None)"

section \<open>The control of an application\<close>

record control_preview =
  pv_pending :: "device list"
  pv_approved :: "device list"
  pv_blocked :: "device list"
  pv_rejected :: "device list"
  pv_total :: nat
  pv_users :: nat
  pv_since :: "int option"

definition preview_device_control :: "'a edb \<Rightarrow> app_row \<Rightarrow> control_preview" where
  "preview_device_control db app =
     (let rows = sort_key dv_first (filter (\<lambda>d. dv_app d = ap_id app) (devices db));
          of_status = (\<lambda>st. filter (\<lambda>d. dv_status d = st) rows)
      in \<lparr>pv_pending = of_status device_pending, pv_approved = of_status device_approved, pv_blocked = of_status device_blocked,
          pv_rejected = of_status device_rejected, pv_total = length rows,
          pv_users = length (remdups (filter (\<lambda>u. u \<noteq> []) (map dv_user rows))),
          pv_since = (case rows of [] \<Rightarrow> None | d # _ \<Rightarrow> Some (dv_first d))\<rparr>)"

definition backfill :: "string \<Rightarrow> int \<Rightarrow> device \<Rightarrow> device" where
  "backfill actor now d =
     d\<lparr>dv_status := device_approved, dv_source := ''backfill'', dv_by := Some (''backfill:'' @ actor), dv_at := Some now,
       dv_note := None\<rparr>"

definition set_control :: "app_row \<Rightarrow> bool \<Rightarrow> int option \<Rightarrow> 'a edb \<Rightarrow> 'a edb" where
  "set_control app armed at db =
     db\<lparr>apps := update_rows (\<lambda>a. ap_id a = ap_id app) (\<lambda>a. a\<lparr>ap_device_control := armed, ap_control_at := at\<rparr>) (apps db)\<rparr>"

definition enable_device_control :: "app_row \<Rightarrow> string \<Rightarrow> 'a edb \<Rightarrow> (decision_error, nat) result \<times> 'a edb" where
  "enable_device_control app actor db =
     (if \<not> ap_activesync app then (Raise ActivesyncNotAllowed, db)
      else (let pv = preview_device_control db app; chosen = filter (\<lambda>d. \<not> dv_blocked d) (pv_pending pv);
                db = fold put_device (map (backfill actor (clock db)) chosen) db;
                db = set_control app True (Some (clock db)) db
            in (Ok (length chosen),
                log_action actor ''activesync.device_control_enabled'' (Some (ap_slug app))
                  [(''application_id'', JInt (ap_id app)), (''approved_from_pending'', JInt (int (length chosen))),
                   (''already_approved'', JInt (int (length (pv_approved pv)))),
                   (''blocked_left'', JInt (int (length (pv_blocked pv)))),
                   (''rejected_left'', JInt (int (length (pv_rejected pv)))),
                   (''inventory_total'', JInt (int (pv_total pv))), (''user_count'', JInt (int (pv_users pv)))] None db)))"

definition disable_device_control :: "app_row \<Rightarrow> string \<Rightarrow> 'a edb \<Rightarrow> 'a edb" where
  "disable_device_control app actor db =
     (if \<not> ap_device_control app then db
      else log_action actor ''activesync.device_control_enabled'' (Some (ap_slug app))
             [(''application_id'', JInt (ap_id app)), (''enabled'', JBool False), (''note'', JStr ''control_suspended'')] None
             (set_control app False (ap_control_at app) db))"

lemmas eas_decision_defs [py_defs] =
  app_slug_of_def apply_decision_def admin_block_device_def admin_unblock_device_def admin_approve_device_def
  user_decision_def user_approve_device_def user_reject_device_def user_revoke_device_def session_keys_def
  device_owned_by_session_def domain_form_like_def devices_for_identities_def link_device_def
  link_devices_to_keycloak_user_def portal_activesync_devices_def user_devices_context_def owned_device_def preview_device_control_def backfill_def
  set_control_def enable_device_control_def disable_device_control_def

end
