(* ===== verification/EasAuth.thy ===== *)
theory EasAuth
  imports EasRegister
begin

text \<open>
  The decision for mail clients, \<open>app/subdomain/activesync_auth.py\<close>: nginx asks before it forwards an
  ActiveSync or Autodiscover request to an application that publishes them. A client that sends HTTP Basic is let
  through for the application to check its password, unless the inventory of devices refuses its device; without
  Basic a portal session with a grant, or a break-glass session, is asked for.

  As in the check for published applications the answer of oauth2-proxy is an argument. The text of the Basic
  credentials is UTF-8; a code point above U+00FF is written as a question mark.
\<close>

section \<open>What the request says\<close>

definition classify_mobile_client :: "string \<Rightarrow> string" where
  "classify_mobile_client user_agent =
     (let ua = lower user_agent; has = (\<lambda>t. contains_sub t ua)
      in if has ''apple-iphone'' \<or> has ''iphone'' then ''iphone''
         else if has ''apple-ipad'' \<or> has ''ipad'' then ''ipad''
         else if has ''apple-mail'' \<or> (has ''mac os x'' \<and> has ''mail'') then ''apple_mail''
         else if has ''outlook'' \<or> has ''microsoft office'' then ''outlook''
         else if has ''android'' \<or> has ''dalvik'' then ''android''
         else if has ''activesync'' \<or> has ''eas'' then ''activesync_generic''
         else ''other'')"

definition is_activesync_uri :: "string \<Rightarrow> bool" where
  "is_activesync_uri uri =
     (let path = lower (takeWhile (\<lambda>c. c \<noteq> CHR 0x3F) (or_text uri ''/''))
      in starts_with ''/microsoft-server-activesync'' path \<or> path = ''/autodiscover'' \<or> starts_with ''/autodiscover/'' path)"

definition std_b64_val :: "char \<Rightarrow> int option" where
  "std_b64_val c = (if c = CHR ''-'' \<or> c = CHR ''_'' then None else b64_val c)"

fun lenient_digits :: "int list \<Rightarrow> nat \<Rightarrow> string \<Rightarrow> int list option" where
  \<comment> \<open>\<open>base64.b64decode\<close> without validation: other characters are skipped, the padding ends the text;
     the digits so far (the last first) and the padding seen since the last digit\<close>
  "lenient_digits ds pads [] = (if length ds mod 4 = 0 then Some (rev ds) else None)"
| "lenient_digits ds pads (c # s) =
     (if c = CHR ''=''
      then (if 2 \<le> length ds mod 4 \<and> 4 \<le> length ds mod 4 + (pads + 1) then Some (rev ds)
            else lenient_digits ds (if 2 \<le> length ds mod 4 then pads + 1 else pads) s)
      else (case std_b64_val c of None \<Rightarrow> lenient_digits ds pads s | Some v \<Rightarrow> lenient_digits (v # ds) 0 s))"

definition b64decode_lenient :: "string \<Rightarrow> int list option" where
  "b64decode_lenient s = (if is_ascii s then map_option b64_bytes (lenient_digits [] 0 s) else None)"

fun utf8_text :: "int list \<Rightarrow> string" where
  "utf8_text [] = []"
| "utf8_text [b] = (if b < 128 then [char_of b] else ''?'')"
| "utf8_text (b # c # bs) =
     (if b < 128 then char_of b # utf8_text (c # bs)
      else if (b = 194 \<or> b = 195) \<and> 128 \<le> c \<and> c < 192 then char_of ((b - 192) * 64 + (c - 128)) # utf8_text bs
      else CHR 0x3F # utf8_text (c # bs))"

definition basic_username :: "string \<Rightarrow> string option" where
  "basic_username authorization =
     (let raw = strip authorization
      in if \<not> starts_with ''basic '' (lower raw) then None
         else (case b64decode_lenient (strip (drop 6 raw)) of
                 None \<Rightarrow> None
               | Some bs \<Rightarrow>
                   (let decoded = utf8_text bs
                    in if CHR '':'' \<notin> set decoded then None
                       else str_opt (strip (takeWhile (\<lambda>c. c \<noteq> CHR '':'') decoded)))))"

record eas_request =
  eq_host :: string
  eq_uri :: string
  eq_ip :: string
  eq_agent :: string
  eq_kind :: string
  eq_device :: "string option"
  eq_type :: "string option"
  eq_exempt :: bool

definition is_device_exempt :: "string \<Rightarrow> string \<Rightarrow> bool" where
  "is_device_exempt uri meth \<longleftrightarrow> lower meth = ''options'' \<or> is_autodiscover_uri uri"

definition eas_request_of :: "gate_env \<Rightarrow> request \<Rightarrow> eas_request" where
  "eas_request_of env rq =
     (let uri = or_text (header_or rq ''X-Original-URI'') ''/internal/activesync-auth''; agent = header_or rq ''User-Agent'';
          (device_id, device_type) = extract_eas_device uri
      in \<lparr>eq_host = or_text (header_or rq ''X-Original-Host'') (header_or rq ''Host''), eq_uri = uri,
          eq_ip = client_ip_from_request (ps_net (ge_ps env)) rq, eq_agent = agent, eq_kind = classify_mobile_client agent,
          eq_device = device_id, eq_type = device_type,
          eq_exempt = is_device_exempt uri (header_or rq ''X-Original-Method'')\<rparr>)"

section \<open>The journal\<close>

definition allow_log_interval_sec :: int where "allow_log_interval_sec = 60"

definition should_log_allow :: "string \<Rightarrow> string \<Rightarrow> string \<Rightarrow> string option \<Rightarrow> 'a edb \<Rightarrow> bool \<times> 'a edb" where
  "should_log_allow app_slug ip actor device_id db =
     (let key = (app_slug, or_text ip ''-'', or_text actor ''-'', or_text (opt_str device_id) ''-''); now = uptime db;
          seen = (case map_of (allow_log db) key of None \<Rightarrow> 0 | Some t \<Rightarrow> t)
      in if now - seen < seconds allow_log_interval_sec then (False, db)
         else (let entries = AList.update key now (allow_log db)
               in (True, db\<lparr>allow_log := (if cache_max_entries < length entries then [(key, now)] else entries)\<rparr>)))"

record eas_note =
  en_source :: string
  en_reason :: string
  en_device :: "string option"
  en_type :: "string option"
  en_status :: "string option"

definition plain_note :: "string \<Rightarrow> string \<Rightarrow> eas_note" where
  "plain_note src reason = \<lparr>en_source = src, en_reason = reason, en_device = None, en_type = None, en_status = None\<rparr>"

definition device_note :: "string \<Rightarrow> string \<Rightarrow> eas_request \<Rightarrow> string option \<Rightarrow> eas_note" where
  "device_note src reason q status =
     \<lparr>en_source = src, en_reason = reason, en_device = eq_device q, en_type = eq_type q, en_status = status\<rparr>"

definition field :: "string \<Rightarrow> string \<Rightarrow> details" where
  "field k v = (if v = [] then [] else [(k, JStr v)])"

definition activesync_audit_details :: "app_row option \<Rightarrow> eas_request \<Rightarrow> eas_note \<Rightarrow> details" where
  "activesync_audit_details app q n =
     [(''uri'', JStr (take 1024 (or_text (eq_uri q) ''/''))), (''host'', jopt (str_opt (take 255 (eq_host q)))),
      (''user_agent'', jopt (str_opt (take 512 (eq_agent q)))), (''client_kind'', JStr (eq_kind q)), (''activesync'', JBool True)] @
     field ''source_ip'' (eq_ip q) @ field ''auth_source'' (en_source n) @ field ''reason'' (en_reason n) @
     field ''device_id'' (opt_str (en_device n)) @ field ''device_type'' (opt_str (en_type n)) @
     field ''device_status'' (opt_str (en_status n)) @
     (case app of
        None \<Rightarrow> []
      | Some a \<Rightarrow> [(''application_id'', JInt (ap_id a)), (''allow_activesync'', JBool (ap_activesync a)),
                   (''activesync_device_control'', JBool (ap_device_control a))])"

definition log_activesync :: "string \<Rightarrow> app_row option \<Rightarrow> string \<Rightarrow> eas_request \<Rightarrow> eas_note \<Rightarrow> 'a edb \<Rightarrow> 'a edb" where
  "log_activesync action app actor q n db =
     log_action (or_text actor ''anonymous'') action
       (case app of Some a \<Rightarrow> Some (ap_slug a) | None \<Rightarrow> str_opt (take 255 (eq_host q)))
       (activesync_audit_details app q n) (str_opt (eq_ip q)) db"

section \<open>The device gate\<close>

definition deny_device_response :: "app_row \<Rightarrow> string \<Rightarrow> response" where
  "deny_device_response app error = \<lparr>rp_status = 403, rp_headers = [(''X-Auth-Error'', error), (''X-Auth-App'', ap_slug app)]\<rparr>"

definition log_device_denial ::
  "app_row \<Rightarrow> string \<Rightarrow> eas_request \<Rightarrow> string \<Rightarrow> string option \<Rightarrow> 'a edb \<Rightarrow> 'a edb" where
  "log_device_denial app actor q reason status db =
     (let (due, db) = should_log_denial (ap_id app) (or_text (opt_str (eq_device q)) ''__unidentified__'') db
      in if due then log_activesync ''activesync.device_denied'' (Some app) actor q (device_note [] reason q status) db else db)"

definition sighting_of :: "eas_request \<Rightarrow> sighting" where
  "sighting_of q = \<lparr>sg_type = eq_type q, sg_agent = eq_agent q, sg_kind = eq_kind q, sg_ip = eq_ip q\<rparr>"

definition evaluate_device ::
  "app_row \<Rightarrow> string \<Rightarrow> eas_request \<Rightarrow> bool \<Rightarrow> 'a edb \<Rightarrow> (device option \<times> response option) \<times> 'a edb" where
  "evaluate_device app actor q enforce db =
     (let control = ap_device_control app; user_key = normalize_user_key actor;
          deny = (\<lambda>d reason status error db.
            ((d, Some (deny_device_response app error)), log_device_denial app actor q reason status db))
      in if eq_exempt q then ((None, None), db)
         else if opt_str (eq_device q) = []
         then (if enforce \<and> control then deny None ''device_unidentified'' None ''activesync-device-unidentified'' db
               else ((None, None), db))
         else if user_key = [] then ((None, None), db)
         else (case record_sighting app user_key (opt_str (eq_device q)) (sighting_of q) db of
                 (Raise _, db) \<Rightarrow>
                   (if enforce \<and> control then deny None ''device_pending_cap'' None ''activesync-device-not-approved'' db
                    else ((None, None), db))
               | (Ok None, db) \<Rightarrow> ((None, None), db)
               | (Ok (Some d), db) \<Rightarrow>
                   (if \<not> enforce \<or> (\<not> dv_blocked d \<and> (\<not> control \<or> dv_status d = device_approved)) then ((Some d, None), db)
                    else deny (Some d) (if dv_blocked d then ''device_blocked_by_admin'' else ''device_status_'' @ or_text (dv_status d) ''unknown'')
                           (Some (dv_status d)) ''activesync-device-not-approved'' db)))"

section \<open>The handler\<close>

definition www_authenticate_eas :: string where
  "www_authenticate_eas = ''Basic realm='' @ [CHR 0x22] @ ''ActiveSync'' @ [CHR 0x22]"

definition eas_unauthorized :: "string \<Rightarrow> string \<Rightarrow> response" where
  "eas_unauthorized error app_slug =
     \<lparr>rp_status = 401,
      rp_headers = [(''X-Auth-Error'', error)] @ (if app_slug = [] then [] else [(''X-Auth-App'', app_slug)]) @
        [(''WWW-Authenticate'', www_authenticate_eas)]\<rparr>"

definition eas_allowed :: "string \<Rightarrow> string \<Rightarrow> app_row \<Rightarrow> response" where
  "eas_allowed src user app =
     \<lparr>rp_status = 200, rp_headers = [(''X-Auth-Source'', src), (''X-Auth-User'', user), (''X-Auth-App'', ap_slug app)]\<rparr>"

definition log_allow :: "app_row \<Rightarrow> string \<Rightarrow> string \<Rightarrow> eas_request \<Rightarrow> device option \<Rightarrow> 'a edb \<Rightarrow> 'a edb" where
  "log_allow app src actor q d db =
     (let (due, db) = should_log_allow (ap_slug app) (eq_ip q) actor (eq_device q) db
      in if due then log_activesync ''activesync.allowed'' (Some app) actor q (device_note src [] q (map_option dv_status d)) db
         else db)"

definition gated_answer :: "app_row \<Rightarrow> string \<Rightarrow> string \<Rightarrow> string \<Rightarrow> string \<Rightarrow> eas_request \<Rightarrow> bool \<Rightarrow> 'a edb \<Rightarrow> response \<times> 'a edb" where
  \<comment> \<open>the tail the three identities share: device gate, journal, answer\<close>
  "gated_answer app src device_actor actor user q enforce db =
     (case evaluate_device app device_actor q enforce db of
        ((_, Some denied), db) \<Rightarrow> (denied, db)
      | ((d, None), db) \<Rightarrow> (eas_allowed src user app, log_allow app src actor q d db))"

definition activesync_auth_before_idp :: "gate_env \<Rightarrow> web_request \<Rightarrow> 'a edb \<Rightarrow> before_idp \<times> 'a edb" where
  "activesync_auth_before_idp env rq db =
     (let base = request.truncate rq; q = eas_request_of env base; auth = basic_username (header_or base ''Authorization'')
      in case resolve_app_by_host db (eq_host q) of
           None \<Rightarrow>
             (Decided (eas_unauthorized ''no-app-for-host'' []),
              log_activesync ''activesync.denied'' None ''anonymous'' q (plain_note [] ''no_app_for_host'') db)
         | Some app \<Rightarrow>
             (if \<not> ap_activesync app
              then (Decided (eas_unauthorized ''activesync_disabled'' (ap_slug app)),
                    log_activesync ''activesync.denied'' (Some app) ''anonymous'' q (plain_note [] ''activesync_disabled'') db)
              else (let db = (if opt_str (eq_device q) = [] \<and> \<not> eq_exempt q
                              then log_unidentified_device app (or_text (opt_str auth) ''anonymous'') (eq_uri q) (sighting_of q) db
                              else db)
                    in case auth of
                         Some user \<Rightarrow> (let (r, db) = gated_answer app ''basic'' user user user q True db in (Decided r, db))
                       | None \<Rightarrow> (AskIdp app, db))))"

definition activesync_auth_after_idp ::
  "gate_env \<Rightarrow> web_request \<Rightarrow> app_row \<Rightarrow> headers option \<Rightarrow> 'a edb \<Rightarrow> (auth_error, response) result \<times> 'a edb" where
  "activesync_auth_after_idp env rq app0 oauth2_headers db =
     (let base = request.truncate rq; q = eas_request_of env base; bg_cookie = opt_str (map_of (rq_cookies rq) bg_cookie_name);
          gone = eas_unauthorized ''no_app_for_host'' [];
          refuse = (\<lambda>db. (Ok (eas_unauthorized ''not_authenticated'' (ap_slug app0)),
            log_activesync ''activesync.denied'' (Some (case find_app db (ap_id app0) of Some a \<Rightarrow> a | None \<Rightarrow> app0)) ''anonymous'' q
              (device_note [] ''not_authenticated'' q None) db))
      in case oauth2_headers of
           Some hs \<Rightarrow>
             (let i = identity_of hs; actor = or_text (id_email i) (or_text (id_preferred i) (or_text (id_user i) ''unknown''))
              in case find_app db (ap_id app0) of
                   None \<Rightarrow> (Ok gone, db)
                 | Some app \<Rightarrow>
                     (if \<not> user_can_launch_application db (ap_id app0) (str_opt (id_user i)) (id_groups i) (ap_realm app)
                      then (Ok \<lparr>rp_status = 403,
                                rp_headers = [(''X-Auth-Error'', ''access_denied_no_grant''), (''X-Auth-App'', ap_slug app0)]\<rparr>,
                            log_activesync ''activesync.denied'' (Some app) actor q (plain_note ''oidc'' ''access_denied_no_grant'') db)
                      else (let (r, db) = gated_answer app ''oidc'' (or_text (id_email i) (id_preferred i)) actor
                                            (or_text (id_user i) (or_text (id_preferred i) (id_email i))) q True db
                            in (Ok r, db))))
         | None \<Rightarrow>
             (if bg_cookie = [] then refuse db
              else (case process_breakglass_auth_request (ge_jwt env) (ge_bg env) (ge_sv env) (ge_sha env) base bg_cookie False db of
                      (Raise e, db) \<Rightarrow> (Raise e, db)
                    | (Ok result, db) \<Rightarrow>
                        (if \<not> ar_ok result then refuse db
                         else (case find_app db (ap_id app0) of
                                 None \<Rightarrow> (Ok gone, db)
                               | Some app \<Rightarrow>
                                   (let actor = or_text (ar_username result) ''breakglass'';
                                        (r, db) = gated_answer app ''breakglass'' actor actor actor q False db
                                    in (Ok r, db)))))))"

definition activesync_auth ::
  "gate_env \<Rightarrow> (string \<Rightarrow> string \<Rightarrow> idp_reply) \<Rightarrow> web_request \<Rightarrow> 'a edb \<Rightarrow> (auth_error, response) result \<times> 'a edb" where
  "activesync_auth env idp rq db =
     (case activesync_auth_before_idp env rq db of
        (Decided r, db) \<Rightarrow> (Ok r, db)
      | (AskIdp app, db) \<Rightarrow>
          activesync_auth_after_idp env rq app
            (idp_accepts (idp (get_realm_proxy_url (ge_proxy env) db (ap_realm app) @ ''/oauth2/auth'')
                              (header_or (request.truncate rq) ''Cookie''))) db)"

lemmas eas_auth_defs [py_defs] =
  classify_mobile_client_def is_activesync_uri_def std_b64_val_def b64decode_lenient_def basic_username_def is_device_exempt_def
  eas_request_of_def allow_log_interval_sec_def should_log_allow_def plain_note_def device_note_def field_def
  activesync_audit_details_def log_activesync_def deny_device_response_def log_device_denial_def sighting_of_def
  evaluate_device_def www_authenticate_eas_def eas_unauthorized_def eas_allowed_def log_allow_def gated_answer_def
  activesync_auth_before_idp_def activesync_auth_after_idp_def activesync_auth_def

end
