(* ===== verification/Mfa.thy ===== *)
theory Mfa
  imports UserIdentity EasAuth
begin

text \<open>
  The second factor of administrators: the cookie that proves it (\<open>app/auth/mfa_cookie.py\<close>), the stored factors
  (\<open>app/auth/totp_service.py\<close>, \<open>app/auth/webauthn_service.py\<close>), the gate of the administration pages
  (\<open>app/auth/mfa_gate.py\<close>, \<open>require_admin\<close>) and the handlers of \<open>app/admin/mfa.py\<close>.

  pyotp, Fernet and py\_webauthn are the argument \<open>lib\<close>; random values are arguments of the handlers. A challenge is
  its base64url text. An answer is its status, its headers and the cookies it sets; flash messages are left out.
\<close>

section \<open>Text\<close>

definition py_int :: "string \<Rightarrow> int option" where
  \<comment> \<open>\<open>int(s)\<close>, None for a \<open>ValueError\<close>\<close>
  "py_int s =
     (let t = strip s; sign = (case t of [] \<Rightarrow> [] | c # _ \<Rightarrow> if c = CHR ''-'' \<or> c = CHR ''+'' then [c] else []);
          ws = split_on (CHR ''_'') (drop (length sign) t)
      in if list_all (\<lambda>w. w \<noteq> [] \<and> list_all is_digit w) ws \<and> length (concat ws) \<le> 4300
         then Some ((if sign = ''-'' then -1 else 1) * dec_value (concat ws)) else None)"

definition hex_upper :: "int \<Rightarrow> char" where
  "hex_upper d = char_of (if d < 10 then 48 + d else 55 + d)"

definition percent :: "int \<Rightarrow> string" where
  "percent b = [CHR 0x25, hex_upper (b div 16), hex_upper (b mod 16)]"

definition quote_safe :: "string \<Rightarrow> string \<Rightarrow> string" where
  \<comment> \<open>\<open>urllib.parse.quote(s, safe)\<close>, the escapes of the UTF-8 text\<close>
  "quote_safe safe s =
     concat (map (\<lambda>c. if is_digit c \<or> (65 \<le> cp c \<and> cp c \<le> 90) \<or> (97 \<le> cp c \<and> cp c \<le> 122) \<or> c \<in> set ''_.-~'' \<or> c \<in> set safe
                      then [c]
                      else if cp c < 128 then percent (cp c)
                      else percent (192 + cp c div 64) @ percent (128 + cp c mod 64)) s)"

fun unquote_from :: "int list \<Rightarrow> string \<Rightarrow> string" where
  \<comment> \<open>\<open>urllib.parse.unquote\<close>; the bytes read so far, the last first\<close>
  "unquote_from bs [] = utf8_text (rev bs)"
| "unquote_from bs (c # s) =
     (if 128 \<le> cp c then utf8_text (rev bs) @ c # unquote_from [] s
      else (case s of
              a # b # r \<Rightarrow>
                (case (if c = CHR 0x25 then hex_val a else None, hex_val b) of
                   (Some x, Some y) \<Rightarrow> unquote_from ((16 * x + y) # bs) r
                 | _ \<Rightarrow> unquote_from (cp c # bs) s)
            | _ \<Rightarrow> unquote_from (cp c # bs) s))"

definition unquote_text :: "string \<Rightarrow> string" where "unquote_text = unquote_from []"

section \<open>The cookie\<close>

definition mfa_cookie_name :: string where "mfa_cookie_name = ''bastion_mfa_ok''"
definition mfa_ttl_seconds :: int where "mfa_ttl_seconds = 8 * 3600"

definition normalize_email :: "string \<Rightarrow> string" where "normalize_email email = lower (strip email)"

definition signing_key :: "admin_env \<Rightarrow> string \<Rightarrow> (sign_error, string) result" where
  "signing_key env = portal_signing_secret (ae_mac env) (ae_sign env)"

definition generate_mfa_signature :: "(string \<Rightarrow> string \<Rightarrow> string) \<Rightarrow> string \<Rightarrow> string \<Rightarrow> int \<Rightarrow> string" where
  "generate_mfa_signature mac secret user_email expires_at =
     mac secret (normalize_email user_email @ CHR '':'' # show_int expires_at)"

definition set_mfa_ok_cookie :: "admin_env \<Rightarrow> string \<Rightarrow> int \<Rightarrow> int \<Rightarrow> (sign_error, (string \<times> string) list) result" where
  \<comment> \<open>the cookies the answer gets\<close>
  "set_mfa_ok_cookie env user_email ttl_seconds now =
     (let email = normalize_email user_email; expires_at = now div 1000000 + ttl_seconds
      in if email = [] then Ok []
         else (case signing_key env ''mfa-cookie'' of
                 Raise e \<Rightarrow> Raise e
               | Ok secret \<Rightarrow> Ok [(mfa_cookie_name, email @ CHR ''|'' # show_int expires_at @ CHR ''|'' #
                                   generate_mfa_signature (ae_mac env) secret email expires_at)]))"

definition is_mfa_cookie_valid :: "admin_env \<Rightarrow> page_request \<Rightarrow> string \<Rightarrow> int \<Rightarrow> (sign_error, bool) result" where
  "is_mfa_cookie_valid env rq expected_email now =
     (case split_on (CHR ''|'') (strip (page_cookie rq mfa_cookie_name)) of
        email # expires # signature # rest \<Rightarrow>
          (let signature = join_with ''|'' (signature # rest)
           in if normalize_email email \<noteq> normalize_email expected_email then Ok False
              else (case py_int expires of
                      None \<Rightarrow> Ok False
                    | Some expires_at \<Rightarrow>
                        (if seconds expires_at < now then Ok False
                         else (case signing_key env ''mfa-cookie'' of
                                 Raise e \<Rightarrow> Raise e
                               | Ok secret \<Rightarrow> compare_digest signature
                                   (generate_mfa_signature (ae_mac env) secret email expires_at)))))
      | _ \<Rightarrow> Ok False)"

definition challenge_redirect_url :: "string \<Rightarrow> string" where
  "challenge_redirect_url next_path =
     (let target = or_text (strip (or_text next_path ''/admin'')) ''/admin'';
          target = (if \<not> starts_with ''/'' target \<or> starts_with ''//'' target then ''/admin'' else target)
      in ''/admin/auth/mfa/challenge?next='' @ quote_safe ''/?&='' target)"

section \<open>Factors\<close>

record factor_lib =
  fl_configured :: bool
  fl_encrypt :: "string \<Rightarrow> string"
  fl_decrypt :: "string \<Rightarrow> string option"
  fl_totp :: "string \<Rightarrow> string \<Rightarrow> int \<Rightarrow> bool"  \<comment> \<open>secret, code, instant\<close>
  fl_register :: "string \<times> string \<Rightarrow> string \<Rightarrow> string \<Rightarrow> (string \<times> string \<times> int) option"
    \<comment> \<open>relying party and origin, credential, challenge; the key id, the public key, the counter\<close>
  fl_transports :: "string \<Rightarrow> string list option"
  fl_assert :: "string \<times> string \<Rightarrow> string \<Rightarrow> string \<Rightarrow> string \<Rightarrow> int \<Rightarrow> int option"
    \<comment> \<open>credential, challenge, public key, counter; the new counter\<close>

datatype factor_error = EncryptionMissing | AttestationInvalid | NoPasskey | AssertionInvalid | KeyIdTaken

definition find_mfa :: "'a adb \<Rightarrow> string \<Rightarrow> mfa_row option" where
  "find_mfa db email = first_row (\<lambda>r. mf_email r = email) (mfa_rows db)"

definition put_mfa :: "mfa_row \<Rightarrow> 'a adb \<Rightarrow> 'a adb" where
  "put_mfa row db = db\<lparr>mfa_rows := update_rows (\<lambda>r. mf_email r = mf_email row) (\<lambda>_. row) (mfa_rows db)\<rparr>"

definition new_mfa_row :: "string \<Rightarrow> int \<Rightarrow> mfa_row" where
  "new_mfa_row email now = \<lparr>mf_email = email, mf_secret = None, mf_totp = False, mf_key_id = None, mf_public_key = None,
     mf_sign_count = 0, mf_transports = None, mf_webauthn = False, mf_updated = now\<rparr>"

definition get_or_create_credential :: "string \<Rightarrow> 'a adb \<Rightarrow> mfa_row \<times> 'a adb" where
  "get_or_create_credential user_email db =
     (let email = normalize_email user_email
      in case find_mfa db email of
           Some row \<Rightarrow> (row, db)
         | None \<Rightarrow> (let row = new_mfa_row email (clock db) in (row, db\<lparr>mfa_rows := mfa_rows db @ [row]\<rparr>)))"

definition has_secret :: "mfa_row \<Rightarrow> bool" where
  "has_secret row \<longleftrightarrow> strip (opt_str (mf_secret row)) \<noteq> []"

definition totp_enabled_for :: "'a adb \<Rightarrow> string \<Rightarrow> bool" where
  "totp_enabled_for db user_email =
     (let email = normalize_email user_email
      in if email = [] then False
         else (case find_mfa db email of None \<Rightarrow> False | Some row \<Rightarrow> mf_totp row \<and> has_secret row))"

definition generate_new_totp_setup :: "factor_lib \<Rightarrow> string \<Rightarrow> string \<Rightarrow> 'a adb \<Rightarrow> (factor_error, string) result \<times> 'a adb" where
  \<comment> \<open>the secret that is shown; \<open>raw\<close> is the random one\<close>
  "generate_new_totp_setup lib raw user_email db =
     (if \<not> fl_configured lib then (Raise EncryptionMissing, db)
      else (let (row, db) = get_or_create_credential (normalize_email user_email) db
            in (Ok raw, put_mfa (row\<lparr>mf_secret := Some (fl_encrypt lib raw), mf_totp := False, mf_updated := clock db\<rparr>) db)))"

definition is_py_digit :: "char \<Rightarrow> bool" where
  \<comment> \<open>\<open>isdigit\<close> holds of the superscripts, too\<close>
  "is_py_digit c \<longleftrightarrow> is_digit c \<or> cp c = 178 \<or> cp c = 179 \<or> cp c = 185"

definition verify_totp_token :: "factor_lib \<Rightarrow> string \<Rightarrow> string \<Rightarrow> int \<Rightarrow> bool" where
  "verify_totp_token lib encrypted_secret token now =
     (let code = replace_char (CHR '' '') [] (strip token)
      in if \<not> list_all is_py_digit code \<or> length code \<noteq> 6 then False
         else (case fl_decrypt lib encrypted_secret of None \<Rightarrow> False | Some raw \<Rightarrow> fl_totp lib raw code now))"

definition confirm_totp_enrollment :: "factor_lib \<Rightarrow> string \<Rightarrow> string \<Rightarrow> 'a adb \<Rightarrow> bool \<times> 'a adb" where
  "confirm_totp_enrollment lib user_email token db =
     (let (row, db) = get_or_create_credential user_email db
      in if \<not> has_secret row \<or> \<not> verify_totp_token lib (opt_str (mf_secret row)) token (clock db) then (False, db)
         else (True, put_mfa (row\<lparr>mf_totp := True, mf_updated := clock db\<rparr>) db))"

definition disable_totp :: "factor_lib \<Rightarrow> string \<Rightarrow> string \<Rightarrow> 'a adb \<Rightarrow> bool \<times> 'a adb" where
  "disable_totp lib user_email token db =
     (let (row, db) = get_or_create_credential user_email db;
          off = put_mfa (row\<lparr>mf_secret := None, mf_totp := False, mf_updated := clock db\<rparr>) db
      in if \<not> mf_totp row \<or> \<not> has_secret row then (True, off)
         else if \<not> verify_totp_token lib (opt_str (mf_secret row)) token (clock db) then (False, db)
         else (True, off))"

definition verify_login_totp :: "factor_lib \<Rightarrow> string \<Rightarrow> string \<Rightarrow> 'a adb \<Rightarrow> bool \<times> 'a adb" where
  "verify_login_totp lib user_email token db =
     (let (row, db) = get_or_create_credential user_email db
      in (mf_totp row \<and> has_secret row \<and> verify_totp_token lib (opt_str (mf_secret row)) token (clock db), db))"

record mfa_status =
  ms_totp :: bool
  ms_pending :: bool
  ms_webauthn :: bool
  ms_key_id :: "string option"
  ms_any :: bool

definition mfa_status_dict :: "'a adb \<Rightarrow> string \<Rightarrow> mfa_status" where
  "mfa_status_dict db user_email =
     (case find_mfa db (normalize_email user_email) of
        None \<Rightarrow> \<lparr>ms_totp = False, ms_pending = False, ms_webauthn = False, ms_key_id = None, ms_any = False\<rparr>
      | Some row \<Rightarrow> \<lparr>ms_totp = mf_totp row, ms_pending = has_secret row \<and> \<not> mf_totp row, ms_webauthn = mf_webauthn row,
                     ms_key_id = (if mf_webauthn row then mf_key_id row else None), ms_any = mf_totp row \<or> mf_webauthn row\<rparr>)"

lemmas mfa_factor_defs [py_defs] =
  py_int_def hex_upper_def percent_def quote_safe_def unquote_text_def mfa_cookie_name_def mfa_ttl_seconds_def normalize_email_def
  signing_key_def generate_mfa_signature_def set_mfa_ok_cookie_def is_mfa_cookie_valid_def challenge_redirect_url_def find_mfa_def
  put_mfa_def new_mfa_row_def get_or_create_credential_def has_secret_def totp_enabled_for_def generate_new_totp_setup_def
  is_py_digit_def verify_totp_token_def confirm_totp_enrollment_def disable_totp_def verify_login_totp_def mfa_status_dict_def

end
