(* ===== verification/BgRotation.thy ===== *)
theory BgRotation
  imports BgClaims Presence Mfa
begin

text \<open>
  \<open>app/auth/breakglass_cookie_middleware.py\<close>: after a successful response of the portal, a break-glass cookie whose
  last activity is at least a minute old is rotated. The nginx check itself never rotates, for its answer cannot
  reach the browser.

  \<open>loads\<close> gives the JSON object that a segment of base64url text encodes: None where \<open>base64\<close> or \<open>json\<close> raises or
  the value is no object. A response is its status; what \<open>dispatch\<close> adds to it is the cookie it sets, if any.
\<close>

section \<open>The middleware\<close>

definition rotation_skip_prefixes :: "string list" where
  "rotation_skip_prefixes = [''/internal/'', ''/static/'', ''/media/'', ''/health'', ''/ready'']"

definition unverified_payload :: "(string \<Rightarrow> details option) \<Rightarrow> string \<Rightarrow> details option" where
  "unverified_payload loads raw =
     (case split_on (CHR ''.'') raw of
        _ # part # _ \<Rightarrow> loads (part @ replicate (nat (- int (length part) mod 4)) (CHR ''=''))
      | _ \<Rightarrow> None)"

definition py_int_value :: "jval option \<Rightarrow> int option" where
  \<comment> \<open>\<open>int(v)\<close>, None for a \<open>TypeError\<close> or a \<open>ValueError\<close>\<close>
  "py_int_value v =
     (case v of
        Some (JInt i) \<Rightarrow> Some i | Some (JBool b) \<Rightarrow> Some (if b then 1 else 0) | Some (JStr s) \<Rightarrow> py_int s | _ \<Rightarrow> None)"

definition rotation_due :: "(string \<Rightarrow> details option) \<Rightarrow> int \<Rightarrow> string \<Rightarrow> bool" where
  "rotation_due loads now raw =
     (case unverified_payload loads raw of
        None \<Rightarrow> False
      | Some claims \<Rightarrow>
          (case py_int_value (if has_truthy claims ''last'' then map_of claims ''last'' else map_of claims ''iat'') of
             None \<Rightarrow> True
           | Some act \<Rightarrow> seconds rotation_min_interval_seconds \<le> now - seconds act))"

definition rotate_cookie ::
  "jwt_lib \<Rightarrow> bg_settings \<Rightarrow> secret_view \<Rightarrow> (string \<Rightarrow> string) \<Rightarrow> request \<Rightarrow> string \<Rightarrow> 'a sdb \<Rightarrow> string option \<times> 'a sdb" where
  \<comment> \<open>\<open>_rotate\<close>; where the pipeline raises, the journal entry it wrote is committed already\<close>
  "rotate_cookie lib st sv sha rq raw db =
     (case process_breakglass_auth_request lib st sv sha rq raw True db of
        (Ok res, db) \<Rightarrow> (if ar_ok res then str_opt (opt_str (ar_set_cookie res)) else None, db)
      | (Raise e, db) \<Rightarrow> (None, db))"

definition rotation_dispatch ::
  "(string \<Rightarrow> details option) \<Rightarrow> jwt_lib \<Rightarrow> bg_settings \<Rightarrow> secret_view \<Rightarrow> (string \<Rightarrow> string) \<Rightarrow> request \<Rightarrow> string
   \<Rightarrow> string option \<Rightarrow> int \<Rightarrow> 'a sdb \<Rightarrow> string option \<times> 'a sdb" where
  \<comment> \<open>the cookie set on a response of this status to a request for \<open>path\<close> with this \<open>bg_session\<close> cookie\<close>
  "rotation_dispatch loads lib st sv sha rq path cookie status db =
     (if 400 \<le> status \<or> list_ex (\<lambda>p. starts_with p path) rotation_skip_prefixes then (None, db)
      else if opt_str cookie = [] \<or> \<not> rotation_due loads (clock db) (opt_str cookie) then (None, db)
      else rotate_cookie lib st sv sha rq (opt_str cookie) db)"

lemma dispatch_step: "bg_steps db (snd (rotation_dispatch loads lib st sv sha rq path cookie status db))"
  \<comment> \<open>the middleware is a request of the registry's system, or nothing\<close>
proof -
  have "bg_step db (snd (rotate_cookie lib st sv sha rq raw db))" for raw
    using bg_request [of db lib st sv sha rq raw True]
    by (cases "process_breakglass_auth_request lib st sv sha rq raw True db"; cases "fst (process_breakglass_auth_request lib st sv sha rq raw True db)")
      (simp_all add: rotate_cookie_def)
  then show ?thesis
    unfolding bg_steps_def rotation_dispatch_def by (auto intro: r_into_rtranclp)
qed

section \<open>A fresh session\<close>

definition readable_tokens :: "(string \<Rightarrow> details option) \<Rightarrow> jwt_lib \<Rightarrow> bool" where
  \<comment> \<open>a token's second segment is the encoded text of its claims\<close>
  "readable_tokens loads lib \<longleftrightarrow>
     (\<forall>sub iat exp act jti aud key. \<exists>d. unverified_payload loads (jw_encode lib (bg_claims sub iat exp act jti aud) key) = Some d \<and>
        map_of d ''last'' = Some (JInt act) \<and> map_of d ''iat'' = Some (JInt iat))"

lemma rotation_due_exact:
  assumes "readable_tokens loads lib"
  shows "rotation_due loads now (jw_encode lib (bg_claims sub iat exp iat jti aud) key) \<longleftrightarrow>
    seconds rotation_min_interval_seconds \<le> now - seconds iat"
proof -
  obtain d where "unverified_payload loads (jw_encode lib (bg_claims sub iat exp iat jti aud) key) = Some d"
    "map_of d ''last'' = Some (JInt iat)" "map_of d ''iat'' = Some (JInt iat)"
    using assms unfolding readable_tokens_def by blast
  then show ?thesis by (simp add: rotation_due_def py_int_value_def)
qed

lemma fresh_cookie_accepted:
  assumes "faithful lib" and "reg_wf db" and "hot_up db" and "sv_ephemeral sv \<noteq> []"
    and "breakglass_login lib st sv sha verify exists rq u pw db = (Ok tok, db')"
    and "0 \<le> dt" and "dt \<le> seconds idle_timeout_seconds"
    and "subnet_from_request (st_net st) rq' = subnet_from_request (st_net st) rq"
  shows "\<exists>res db'' c. process_breakglass_auth_request lib st sv sha rq' tok rot (db'\<lparr>clock := clock db' + dt\<rparr>) = (Ok res, db'') \<and>
    ar_ok res \<and> ar_username res = (if u = [] then ''breakglass'' else u) \<and>
    ar_set_cookie res = (if rot then Some c else None) \<and> c \<noteq> []"
  using assms(5)
proof (cases rule: login_cases)
  case (refused e)
  then show ?thesis by simp
next
  case (opened db1 db2 db3 signing source token jti)
  let ?db = "db'\<lparr>clock := clock db' + dt\<rparr>" and ?row = "opened_row st sha rq u jti (clock db2)"
  have up2: "hot_up db2" using opened(5) assms(3) by (simp add: same_session_def)
  note issued = issue_up [OF up2 opened(8)]
  have wf2: "reg_wf db2"
    by (rule reg_wf_later [OF assms(2)]) (use opened(5) in \<open>simp_all add: same_session_def same_registry_def\<close>)
  have jti: "jti \<notin> bg_jti ` set (bg_rows db2)" "strip jti \<noteq> []"
    using wf2 fresh_id [of db2] unfolding issued(1) reg_wf_def row_ok_def by (auto simp: supply_ok_def)
  have rows: "bg_rows ?db = bg_rows db2 @ [?row]" and up: "hot_up ?db" and now: "clock ?db = clock db2 + dt"
    using opened(7) issued(3) up2 by (simp_all add: same_session_def same_registry_def)
  have row: "bg_jti ?row = jti" "live ?row" "bg_superseded_by ?row = None" "ensure_chain_id ?row = ?row"
    "bg_first_subnet ?row = str_opt (subnet_from_request (st_net st) rq)"
    using jti(2) by (simp_all add: opened_row_def apply_breakglass_login_anchor_def stamp_signals_def new_bg_row_def
        live_def ensure_chain_id_def chain_of_def opt_str_def)
  have find: "find_bg ?db jti = Some ?row"
  proof -
    have none: "first_row (\<lambda>r. bg_jti r = jti) (bg_rows db2) = None" using jti(1) by auto
    show ?thesis unfolding find_bg_def rows first_row_append none by (simp add: first_row_cases row(1))
  qed
  have "signing \<noteq> []"
    using opened(1) assms(4) by (auto simp: resolve_signing_secret_def first_secret_def Let_def opt_str_def
        split: if_splits option.splits list.splits dest!: filter_eq_ConsD)
  from login_token_decodes [OF assms(1) opened(1) this assms(6,7), of "clock db2" u jti] obtain b where
    dec: "decode_breakglass_token_with_fallback lib st sv (clock ?db) tok = Ok (Some (login_claims st u jti (clock db2), b))"
    using issued(2) opened(6) now by auto
  let ?put = "put_bg ?db jti ?row"
  have put: "find_bg ?put jti = Some ?row" "hot_up ?put"
    using bg_table.find_put_same [OF find row(1)] up by (simp_all add: put_bg_def)
  have name: "cl_jti (login_claims st u jti n) = Some jti" "cl_sub (login_claims st u jti n) = Some u" for n
    by (simp_all add: login_claims_def bg_claims_def)
  have "process_breakglass_auth_request lib st sv sha rq' tok rot ?db =
      process_current lib (st_net st) sha rq' ?row (login_claims st u jti (clock db2))
        (if u = [] then ''breakglass'' else u) jti signing rot ?put"
    using dec find up row jti(2) opened(1)
    by (auto simp: process_breakglass_auth_request_def process_row_def Let_def name opt_str_def live_def)
  moreover have anchor: "opt_str (bg_first_subnet ?row) = subnet_from_request (st_net st) rq'" using row(5) assms(8) by simp
  moreover have "\<exists>c. ar_set_cookie res = (if rot then Some c else None) \<and> c \<noteq> []"
    if "ar_set_cookie res = (if rot then Some (encode_breakglass_claims lib n p key nx True) else None)" for res n p key nx
    using that assms(1) by (auto simp: encode_breakglass_claims_def faithful_def Let_def)
  moreover obtain res db'' n nx where "process_current lib (st_net st) sha rq' ?row (login_claims st u jti (clock db2))
        (if u = [] then ''breakglass'' else u) jti signing rot ?put = (Ok res, db'')" "ar_ok res"
      "ar_username res = (if u = [] then ''breakglass'' else u)"
      "ar_set_cookie res = (if rot then Some (encode_breakglass_claims lib n (login_claims st u jti (clock db2)) signing nx True) else None)"
    using current_accepted [OF put(2,1) row(2,3) anchor] by blast
  ultimately show ?thesis by metis
qed

lemma login_token_shape:
  assumes "breakglass_login lib st sv sha verify exists rq u pw db = (Ok tok, db')" and "hot_up db"
  obtains jti key where "tok = jw_encode lib (login_claims st u jti (clock db')) key"
  using assms(1)
proof (cases rule: login_cases)
  case (opened db1 db2 db3 signing source token jti)
  have "hot_up db2" using opened(5) assms(2) by (simp add: same_session_def)
  note issued = issue_up [OF this opened(8)]
  have "clock db' = clock db2" using opened(7) issued(3) by (simp add: same_session_def)
  then have "tok = jw_encode lib (login_claims st u jti (clock db')) signing"
    using issued(2) opened(6) resolve_audience [of st]
    by (simp add: create_breakglass_token_def login_claims_def bg_claims_def opt_str_def)
  then show ?thesis by (rule that)
qed simp

text \<open>C39: a fresh session works: after a successful break-glass login in the API, in a sound registry while the hot store is up, a
  request that presents the cookie within the half hour of idle time, from the network of the login, is
  accepted by the nginx check as that user, without a new cookie; and on a successful response to such a
  request, outside the paths the middleware skips, the middleware sets a rotated cookie exactly when at
  least a minute has passed since the second in which the session was opened. Of the token library it
  supposes that an issued token is read back from the second of its issue until its expiry, and that its
  second segment encodes its claims.\<close>

theorem fresh_session_accepted:
  assumes "faithful lib" and "readable_tokens loads lib" and "reg_wf db" and "hot_up db" and "sv_ephemeral sv \<noteq> []"
    and "breakglass_login lib st sv sha verify exists rq u pw db = (Ok tok, db')"
    and "0 \<le> dt" and "dt \<le> seconds idle_timeout_seconds" and "later = db'\<lparr>clock := clock db' + dt\<rparr>"
    and "subnet_from_request (st_net st) rq' = subnet_from_request (st_net st) rq"
    and "status < 400" and "\<not> list_ex (\<lambda>p. starts_with p path) rotation_skip_prefixes"
  shows "(\<exists>res db''. process_breakglass_auth_request lib st sv sha rq' tok False later = (Ok res, db'') \<and>
      ar_ok res \<and> ar_username res = (if u = [] then ''breakglass'' else u) \<and> ar_set_cookie res = None) \<and>
    (fst (rotation_dispatch loads lib st sv sha rq' path (Some tok) status later) \<noteq> None \<longleftrightarrow>
      seconds rotation_min_interval_seconds \<le> clock later - seconds (clock db' div 1000000))"
proof -
  note accepted = fresh_cookie_accepted [OF assms(1,3,4,5,6,7,8,10)]
  obtain jti key where tok: "tok = jw_encode lib (login_claims st u jti (clock db')) key"
    by (rule login_token_shape [OF assms(6,4)])
  have "tok \<noteq> []" using assms(1) unfolding tok faithful_def by blast
  moreover have "rotation_due loads (clock later) tok \<longleftrightarrow>
      seconds rotation_min_interval_seconds \<le> clock later - seconds (clock db' div 1000000)"
    unfolding tok login_claims_def by (rule rotation_due_exact [OF assms(2)])
  moreover obtain res db'' c where "process_breakglass_auth_request lib st sv sha rq' tok True later = (Ok res, db'')"
      "ar_ok res" "ar_set_cookie res = Some c" "c \<noteq> []"
    using accepted [of True] unfolding assms(9) by auto
  then have "fst (rotate_cookie lib st sv sha rq' tok later) = Some c" by (simp add: rotate_cookie_def opt_str_def str_opt_def)
  ultimately have "fst (rotation_dispatch loads lib st sv sha rq' path (Some tok) status later) \<noteq> None \<longleftrightarrow>
      seconds rotation_min_interval_seconds \<le> clock later - seconds (clock db' div 1000000)"
    using assms(11,12) by (simp add: rotation_dispatch_def opt_str_def [of "Some _"])
  moreover have "\<exists>res db''. process_breakglass_auth_request lib st sv sha rq' tok False later = (Ok res, db'') \<and>
      ar_ok res \<and> ar_username res = (if u = [] then ''breakglass'' else u) \<and> ar_set_cookie res = None"
    using accepted [of False] unfolding assms(9) by auto
  ultimately show ?thesis by blast
qed

end
