(* ===== verification/JwtExample.thy ===== *)
theory JwtExample
  imports BgRotation
begin

text \<open>
  A token library that meets the documented behaviour the break-glass claims rely on, and the instances of
  those claims at concrete sessions. A token has three segments
  separated by dots: a header, the text of its two times, and the list of the claims with the secret, each
  field coded with an escape before every character.
\<close>

section \<open>A token library\<close>

definition enc_field :: "string \<Rightarrow> string" where
  "enc_field w = concat (map (\<lambda>c. [CHR ''+'', c]) w) @ ''|''"

fun dec_field :: "string \<Rightarrow> string \<times> string" where
  "dec_field (x # c # t) = (if x = CHR ''+'' then (let (w, r) = dec_field t in (c # w, r)) else ([], c # t))"
| "dec_field _ = ([], [])"

fun dec_fields :: "nat \<Rightarrow> string \<Rightarrow> string list" where
  "dec_fields 0 s = []"
| "dec_fields (Suc n) s = (let (w, r) = dec_field s in w # dec_fields n r)"

lemma dec_enc_field [simp]: "dec_field (enc_field w @ rest) = (w, rest)"
proof (induction w)
  case Nil
  then show ?case by (cases rest) (simp_all add: enc_field_def)
qed (simp add: enc_field_def)

lemma dec_enc_fields: "dec_fields (length ws) (concat (map enc_field ws)) = ws"
  by (induction ws) simp_all

definition read_int :: "string \<Rightarrow> int" where
  "read_int s = (case s of [] \<Rightarrow> 0 | c # t \<Rightarrow> if c = CHR ''-'' then - dec_value t else dec_value s)"

lemma read_show [simp]: "read_int (show_int n) = n"
proof (cases "n < 0")
  case False
  then have n: "0 \<le> n" "show_int n = show_base 10 n" by (simp_all add: show_int_def)
  obtain c t where ct: "show_base 10 n = c # t" by (cases "show_base 10 n") simp_all
  then have "is_digit c" using show_base_digits [OF n(1), of c] by simp
  then have "c \<noteq> CHR ''-''" by (auto simp: is_digit_def)
  then show ?thesis using n ct dec_value_show [OF n(1)] by (simp add: read_int_def)
qed (simp add: show_int_def read_int_def dec_value_show)

lemma show_int_signs: "c \<in> set (show_int n) \<Longrightarrow> is_digit c \<or> c = CHR ''-''"
  using show_base_digits [of n c] show_base_digits [of "- n" c] by (auto simp: show_int_def split: if_splits)

lemma show_int_marks [simp]: "CHR ''.'' \<notin> set (show_int n)" "CHR ''|'' \<notin> set (show_int n)"
  using show_int_signs [of "CHR ''.''" n] show_int_signs [of "CHR ''|''" n] by (auto simp: is_digit_def)

definition times_text :: "int \<Rightarrow> int \<Rightarrow> string" where
  "times_text act iat = show_int act @ ''|'' @ show_int iat @ ''|''"

definition sample_loads :: "string \<Rightarrow> details option" where
  "sample_loads s =
     (case split_on (CHR ''|'') s of
        act # iat # _ \<Rightarrow> Some [(''last'', JInt (read_int act)), (''iat'', JInt (read_int iat))]
      | _ \<Rightarrow> None)"

lemma sample_loads_times [simp]:
  "sample_loads (times_text act iat @ w) = Some [(''last'', JInt act), (''iat'', JInt iat)]"
proof -
  have "split_on (CHR ''|'') (times_text act iat @ w) = show_int act # show_int iat # split_on (CHR ''|'') w"
    using split_on_append [of "CHR ''|''" "show_int act" "show_int iat @ CHR ''|'' # w"]
      split_on_append [of "CHR ''|''" "show_int iat" w] by (simp add: times_text_def)
  then show ?thesis by (simp add: sample_loads_def)
qed

lemma times_text_dot [simp]: "CHR ''.'' \<notin> set (times_text act iat)"
  by (simp add: times_text_def)

definition sample_jwt :: jwt_lib where
  "sample_jwt =
     \<lparr>jw_encode = (\<lambda>c secret. ''h.'' @ times_text (opt_int_or (cl_last c) 0) (opt_int_or (cl_iat c) 0) @ ''.'' @
        concat (map enc_field
        [secret, opt_str (cl_sub c), show_int (opt_int_or (cl_iat c) 0), show_int (opt_int_or (cl_exp c) 0),
         show_int (opt_int_or (cl_last c) 0), opt_str (cl_jti c), (case cl_aud c of AudText a \<Rightarrow> a | _ \<Rightarrow> [])])),
      jw_decode = (\<lambda>check now token secret.
        (case dec_fields 7 (tl (dropWhile (\<lambda>c. c \<noteq> CHR ''.'') (drop 2 token))) of
           [key, sub, iat, exp, act, jti, aud] \<Rightarrow>
             if key = secret \<and> (check \<longrightarrow> now < seconds (read_int exp))
             then Some (bg_claims sub (read_int iat) (read_int exp) (read_int act) jti aud)
             else None
         | _ \<Rightarrow> None))\<rparr>"

lemma sample_decode:
  "jw_decode sample_jwt check now (jw_encode sample_jwt (bg_claims sub iat exp act jti aud) key) secret =
   (if key = secret \<and> (check \<longrightarrow> now < seconds exp) then Some (bg_claims sub iat exp act jti aud) else None)"
proof -
  have i: "opt_int_or (Some n) 0 = n" for n by (simp add: opt_int_or_def int_or_def)
  have cut: "tl (dropWhile (\<lambda>c. c \<noteq> CHR ''.'') (times_text act iat @ CHR ''.'' # w)) = w" for w
    using times_text_dot [of act iat] by (subst dropWhile_append2) auto
  have "dec_fields 7 (concat (map enc_field [key, sub, show_int iat, show_int exp, show_int act, jti, aud]))
      = [key, sub, show_int iat, show_int exp, show_int act, jti, aud]"
    using dec_enc_fields [of "[key, sub, show_int iat, show_int exp, show_int act, jti, aud]"]
    by (simp add: eval_nat_numeral del: dec_fields.simps concat.simps)
  then show ?thesis by (simp add: sample_jwt_def bg_claims_def i cut opt_str_def del: dec_fields.simps concat.simps)
qed

lemma sample_faithful: "faithful sample_jwt"
proof -
  have "jw_encode sample_jwt c secret \<noteq> []" for c secret by (simp add: sample_jwt_def)
  then show ?thesis by (simp add: faithful_def sample_decode)
qed

lemma sample_readable: "readable_tokens sample_loads sample_jwt"
proof -
  have "unverified_payload sample_loads (jw_encode sample_jwt (bg_claims sub iat exp act jti aud) key)
      = Some [(''last'', JInt act), (''iat'', JInt iat)]" for sub iat exp act jti aud key
  proof -
    obtain w where tok: "jw_encode sample_jwt (bg_claims sub iat exp act jti aud) key = ''h.'' @ times_text act iat @ CHR ''.'' # w"
      by (simp add: sample_jwt_def bg_claims_def opt_int_or_def int_or_def)
    have "split_on (CHR ''.'') (''h.'' @ times_text act iat @ CHR ''.'' # w) = ''h'' # times_text act iat # split_on (CHR ''.'') w"
      using split_on_append [OF times_text_dot, of act iat w] by simp
    then show ?thesis by (simp add: unverified_payload_def tok)
  qed
  then show ?thesis by (simp add: readable_tokens_def)
qed

lemma sample_checks_expiry: "checks_expiry sample_jwt"
  by (auto simp: checks_expiry_def sample_jwt_def bg_claims_def split: list.splits if_splits)

lemma sample_carries:
  "seconds exp \<le> expiry \<Longrightarrow> carries sample_jwt (jw_encode sample_jwt (bg_claims sub iat exp act jti aud) key) jti expiry"
  by (auto simp: carries_def sample_decode split: if_splits) (simp_all add: bg_claims_def)

section \<open>A registry with a rotated session\<close>

definition id_supply :: "nat \<Rightarrow> string" where
  "id_supply n = ''u'' @ show_base 10 (int n)"

lemma supply_inj: "inj id_supply"
proof (rule injI)
  fix m n
  assume "id_supply m = id_supply n"
  then have "dec_value (show_base 10 (int m)) = dec_value (show_base 10 (int n))" by (simp add: id_supply_def)
  then show "m = n" by (simp add: dec_value_show)
qed

lemma supply_text: "strip (id_supply n) \<noteq> []"
proof -
  have "\<not> is_space c" if "c \<in> set (id_supply n)" for c
    using that show_base_digits [of "int n" c] by (auto simp: id_supply_def is_space_def is_digit_def)
  then show ?thesis by (subst strip_no_space) (auto simp: id_supply_def)
qed

definition old_row :: bg_row where
  "old_row = (new_bg_row ''u0'' ''admin'' 0 (seconds 28800) ''u0'')\<lparr>bg_first_subnet := Some ''10.1.2.0/24'',
     bg_superseded_by := Some ''u1'', bg_superseded_at := Some (seconds 60)\<rparr>"

definition tip_row :: bg_row where
  "tip_row = (new_bg_row ''u1'' ''admin'' (seconds 60) (seconds 28800) ''u0'')\<lparr>bg_first_subnet := Some ''10.1.2.0/24''\<rparr>"

definition rotated_sdb :: "int \<Rightarrow> session_db" where
  "rotated_sdb now = sec_db.extend (fresh_db now)
     \<lparr>bg_rows = [old_row, tip_row], sso_rows = [], uuids = id_supply, uuid_next = 2\<rparr>"

lemma rotated_sel [simp]:
  "bg_rows (rotated_sdb now) = [old_row, tip_row]" "uuids (rotated_sdb now) = id_supply"
  "uuid_next (rotated_sdb now) = 2" "clock (rotated_sdb now) = now" "hot_up (rotated_sdb now)"
  by (simp_all add: rotated_sdb_def sec_db.extend_def fresh_db_def)

lemma supply_01: "id_supply 0 = ''u0''" "id_supply 1 = ''u1''"
  by code_simp+

lemma rotated_wf: "seconds 60 \<le> now \<Longrightarrow> reg_wf (rotated_sdb now)"
proof -
  assume now: "seconds 60 \<le> now"
  have "drawn (rotated_sdb now) = {''u0'', ''u1''}"
    using supply_01 by (auto simp: drawn_def numeral_2_eq_2 lessThan_Suc)
  then show ?thesis
    using now supply_inj supply_text
    by (simp add: reg_wf_def supply_ok_def row_ok_def chains_ok_def is_tip_def old_row_def tip_row_def opt_str_def
        seconds_def cookie_max_age_def)
qed

definition sample_st :: bg_settings where
  "sample_st = \<lparr>st_secret = ''k'', st_legacy = [], st_fallback = False, st_production = True, st_audience = None,
     st_aud_strict = True, st_net = test_net, st_rfc1918 = [''10.0.0.0/8'']\<rparr>"

definition sample_sv :: secret_view where
  "sample_sv = \<lparr>sv_ui = None, sv_cached = None, sv_previous = None, sv_seeded = None, sv_ephemeral = ''e''\<rparr>"

definition cookie_of :: "string \<Rightarrow> string" where
  "cookie_of jti = jw_encode sample_jwt (bg_claims ''admin'' 0 28800 0 jti ''bastion-breakglass'') ''k''"

theorem registry_sound_witness: "reg_wf (snd (purge_stale_sso_session_anchors 30 (rotated_sdb 0 \<lparr>bg_rows := []\<rparr>)))"
proof (rule registry_sound [OF bg_next [OF bg_start bg_sso_purge]])
  show "bg_rows (rotated_sdb 0 \<lparr>bg_rows := []\<rparr>) = []" by simp
  show "supply_ok (rotated_sdb 0 \<lparr>bg_rows := []\<rparr>)" using supply_inj supply_text by (simp add: supply_ok_def)
qed

lemma rotated_find [simp]:
  "find_bg (rotated_sdb now) ''u0'' = Some old_row" "find_bg (rotated_sdb now) ''u1'' = Some tip_row"
  by (simp_all add: find_bg_def first_row_cases old_row_def tip_row_def)

lemma rotated_chains: "chain_of old_row = ''u0''" "chain_of tip_row = ''u0''" "bg_expires tip_row = seconds 28800"
  by code_simp+

theorem revoked_session_stays_out_witness:
  "\<exists>row db1. revoke_breakglass_jti ''u0'' ''root'' None (rotated_sdb (seconds 100)) = (Ok row, db1) \<and>
     carries sample_jwt (cookie_of ''u1'') ''u1'' (bg_expires tip_row) \<and>
     shut_out sample_jwt ''u1'' (bg_expires tip_row) db1"
proof -
  obtain row db1 where rev: "revoke_breakglass_jti ''u0'' ''root'' None (rotated_sdb (seconds 100)) = (Ok row, db1)"
    "chain_of row = ''u0''"
  proof -
    have "case fst (revoke_breakglass_jti ''u0'' ''root'' None (rotated_sdb (seconds 100))) of
        Ok row \<Rightarrow> chain_of row = ''u0'' | Raise e \<Rightarrow> False"
      by code_simp
    with that show ?thesis by (cases "revoke_breakglass_jti ''u0'' ''root'' None (rotated_sdb (seconds 100))") (auto split: result.splits)
  qed
  have "reg_wf (rotated_sdb (seconds 100))" by (rule rotated_wf) (simp add: seconds_def)
  from revoked_session_stays_out [OF this rev(1) sample_checks_expiry, of "''u1''" tip_row]
  have "shut_out sample_jwt ''u1'' (bg_expires tip_row) db1" using rev(2) rotated_chains by simp
  moreover have "carries sample_jwt (cookie_of ''u1'') ''u1'' (bg_expires tip_row)"
    unfolding cookie_of_def by (rule sample_carries) (simp add: rotated_chains)
  ultimately show ?thesis using rev by blast
qed

lemma sample_secret: "resolve_signing_secret sample_st sample_sv = Ok (''k'', FromEnv)"
  by code_simp

lemma cookie_decodes:
  "now \<le> seconds 1800 \<Longrightarrow> decode_breakglass_token_with_fallback sample_jwt sample_st sample_sv now (cookie_of jti)
     = Ok (Some (bg_claims ''admin'' 0 28800 0 jti ''bastion-breakglass'', False))"
proof -
  assume now: "now \<le> seconds 1800"
  have vs: "validation_secrets sample_st sample_sv = Ok [(''k'', FromEnv)]"
    and aud: "resolve_breakglass_jwt_audience sample_st = ''bastion-breakglass''" and strict: "st_aud_strict sample_st"
    by code_simp+
  have "cookie_of jti \<noteq> []" by (simp add: cookie_of_def sample_jwt_def enc_field_def)
  moreover have "now < seconds 28800" "now div 1000000 \<le> 1800"
    using now zdiv_mono1 [of now "1800 * 1000000" 1000000] by (simp_all add: seconds_def)
  moreover from this have "jw_decode sample_jwt True now (cookie_of jti) ''k''
      = Some (bg_claims ''admin'' 0 28800 0 jti ''bastion-breakglass'')"
    by (simp add: cookie_of_def sample_decode)
  ultimately show ?thesis
    by (simp add: decode_breakglass_token_with_fallback_def vs aud strict decode_breakglass_token_def
        bg_claims_def jwt_audience_matches_def) (simp add: idle_timeout_seconds_def)
qed

theorem replay_cuts_chain_witness:
  "\<exists>db'. process_breakglass_auth_request sample_jwt sample_st sample_sv (\<lambda>s. s) (test_request ''10.1.2.77'')
      (cookie_of ''u0'') True (rotated_sdb (seconds 100)) = (Ok auth_refused, db') \<and>
    shut_out sample_jwt ''u1'' (bg_expires tip_row) db'"
proof -
  let ?run = "process_breakglass_auth_request sample_jwt sample_st sample_sv (\<lambda>s. s) (test_request ''10.1.2.77'')
      (cookie_of ''u0'') True (rotated_sdb (seconds 100))"
  have wf: "reg_wf (rotated_sdb (seconds 100))" by (rule rotated_wf) (simp add: seconds_def)
  have dec: "decode_breakglass_token_with_fallback sample_jwt sample_st sample_sv (clock (rotated_sdb (seconds 100)))
      (cookie_of ''u0'') = Ok (Some (bg_claims ''admin'' 0 28800 0 ''u0'' ''bastion-breakglass'', False))"
    by (subst cookie_decodes) (simp_all add: seconds_def)
  have find: "find_bg (rotated_sdb (seconds 100)) (opt_str (cl_jti (bg_claims ''admin'' 0 28800 0 ''u0'' aud))) = Some old_row" for aud
    by (simp add: bg_claims_def opt_str_def)
  have row: "live old_row" "\<not> is_tip old_row" "\<not> within_grace (clock (rotated_sdb (seconds 100))) old_row"
    by (simp_all add: live_def is_tip_def within_grace_def old_row_def opt_str_def seconds_def grace_window_seconds_def)
  obtain res db' where run: "?run = (res, db')" by fastforce
  note cut = replay_cuts_chain [OF wf rotated_sel(5) sample_checks_expiry dec find row sample_secret run]
  have "chain_of tip_row = chain_of old_row" by (simp only: rotated_chains)
  with cut [THEN conjunct2, THEN conjunct2, rule_format, OF rotated_find(2)]
  have "shut_out sample_jwt ''u1'' (bg_expires tip_row) db'" by (rule meta_mp)
  with run cut [THEN conjunct1] show ?thesis by (intro exI [of _ db']) (simp only: simp_thms)
qed

theorem check_never_rotates_witness:
  "map bg_jti (bg_rows (snd (process_breakglass_auth_request sample_jwt sample_st sample_sv (\<lambda>s. s)
     (test_request ''10.1.2.77'') (cookie_of ''u1'') False (rotated_sdb (seconds 100))))) = [''u0'', ''u1'']"
proof -
  have "reg_wf (rotated_sdb (seconds 100))" by (rule rotated_wf) (simp add: seconds_def)
  from check_never_rotates [OF this prod.collapse [symmetric]] show ?thesis
    by (simp add: old_row_def tip_row_def)
qed

definition sample_login :: "(auth_error, string) result \<times> session_db" where
  "sample_login = breakglass_login sample_jwt sample_st sample_sv (\<lambda>s. s) (\<lambda>u p. p = ''pw'') (\<lambda>_. True)
     (test_request ''10.1.2.77'') ''admin'' ''pw'' (rotated_sdb (seconds 100))"

lemma sample_login_ok: "is_ok (fst sample_login)"
  by code_simp

lemma sample_login_result:
  obtains tok db' where "sample_login = (Ok tok, db')"
proof -
  obtain tok where "fst sample_login = Ok tok" using sample_login_ok by (rule is_okE)
  then show ?thesis by (intro that [of tok "snd sample_login"]) (simp add: prod_eq_iff)
qed

theorem login_is_guarded_witness:
  "\<exists>tok db'. sample_login = (Ok tok, db') \<and> length (bg_rows db') = 3"
proof -
  obtain tok db' where run: "sample_login = (Ok tok, db')" by (rule sample_login_result)
  from login_is_guarded [OF run [unfolded sample_login_def]]
  have "bg_rows db' = bg_rows (rotated_sdb (seconds 100)) @
      [opened_row sample_st (\<lambda>s. s) (test_request ''10.1.2.77'') ''admin'' (uuids (rotated_sdb (seconds 100)) (uuid_next (rotated_sdb (seconds 100)))) (clock (rotated_sdb (seconds 100)))]"
    by simp
  with run show ?thesis by (intro exI [of _ tok] exI [of _ db']) simp
qed

lemma sample_login_clock: "clock (snd sample_login) = seconds 100"
  by code_simp

theorem fresh_session_accepted_witness:
  "\<exists>tok db' res db''. sample_login = (Ok tok, db') \<and>
     process_breakglass_auth_request sample_jwt sample_st sample_sv (\<lambda>s. s) (test_request ''10.1.2.99'') tok False
       (db'\<lparr>clock := clock db' + seconds 1800\<rparr>) = (Ok res, db'') \<and> ar_ok res \<and> ar_username res = ''admin'' \<and>
     fst (rotation_dispatch sample_loads sample_jwt sample_st sample_sv (\<lambda>s. s) (test_request ''10.1.2.99'') ''/admin''
       (Some tok) 200 (db'\<lparr>clock := clock db' + seconds 1800\<rparr>)) \<noteq> None"
proof -
  obtain tok db' where run: "sample_login = (Ok tok, db')" by (rule sample_login_result)
  have wf: "reg_wf (rotated_sdb (seconds 100))" by (rule rotated_wf) (simp add: seconds_def)
  have e: "sv_ephemeral sample_sv \<noteq> []" by (simp add: sample_sv_def)
  have dt: "0 \<le> seconds 1800" "seconds 1800 \<le> seconds idle_timeout_seconds"
    by (simp_all add: seconds_def idle_timeout_seconds_def)
  have net: "subnet_from_request (st_net sample_st) (test_request ''10.1.2.99'') =
      subnet_from_request (st_net sample_st) (test_request ''10.1.2.77'')"
    by code_simp
  have path: "\<not> list_ex (\<lambda>p. starts_with p ''/admin'') rotation_skip_prefixes" by code_simp
  have now: "clock db' = seconds 100" using sample_login_clock unfolding run by simp
  have due: "seconds rotation_min_interval_seconds \<le>
      clock (db'\<lparr>clock := clock db' + seconds 1800\<rparr>) - seconds (clock db' div 1000000)"
    by (simp add: now rotation_min_interval_seconds_def seconds_def)
  have ok: "(200::int) < 400" by simp
  note fresh = fresh_session_accepted [OF sample_faithful sample_readable wf rotated_sel(5) e run [unfolded sample_login_def]
      dt refl net ok path]
  have u: "(if ''admin'' = [] then ''breakglass'' else ''admin'') = ''admin''" by simp
  show ?thesis using run fresh [THEN conjunct1, unfolded u] fresh [THEN conjunct2, THEN iffD2, OF due] by blast
qed

end
