(* ===== verification/PortalExample.thy ===== *)
theory PortalExample
  imports SubdomainLaws JwtExample
begin

text \<open>
  A library for the tokens of portal sessions that meets the documented behaviour the round trip relies on, a small
  portal (one application, one realm, one group, two grants, two sessions), and the instances of the claims on
  grants, effective access, the heartbeat, portal sessions and the decision for published applications.
\<close>

section \<open>A token library\<close>

fun enc_val :: "jval \<Rightarrow> string" where
  "enc_val JNull = ''n''"
| "enc_val (JBool b) = (if b then ''t'' else ''f'')"
| "enc_val (JInt i) = CHR ''i'' # enc_field (show_int i)"
| "enc_val (JStr s) = CHR ''s'' # enc_field s"
| "enc_val (JList xs) = CHR ''l'' # concat (map (\<lambda>x. CHR '','' # enc_val x) xs) @ '']''"

definition enc_vals :: "jval list \<Rightarrow> string" where
  "enc_vals xs = concat (map (\<lambda>x. CHR '','' # enc_val x) xs) @ '']''"

fun dec_val :: "nat \<Rightarrow> string \<Rightarrow> jval \<times> string" and dec_vals :: "nat \<Rightarrow> string \<Rightarrow> jval list \<times> string" where
  "dec_val (Suc n) (c # s) =
     (if c = CHR ''n'' then (JNull, s)
      else if c = CHR ''t'' then (JBool True, s)
      else if c = CHR ''f'' then (JBool False, s)
      else if c = CHR ''i'' then (let (w, r) = dec_field s in (JInt (read_int w), r))
      else if c = CHR ''s'' then (let (w, r) = dec_field s in (JStr w, r))
      else (let (vs, r) = dec_vals n s in (JList vs, r)))"
| "dec_val _ s = (JNull, s)"
| "dec_vals (Suc n) (c # s) =
     (if c = CHR '']'' then ([], s)
      else (let (v, r) = dec_val n s; (vs, r') = dec_vals n r in (v # vs, r')))"
| "dec_vals _ s = ([], s)"

lemma dec_enc_val:
  "length (enc_val v) \<le> n \<Longrightarrow> dec_val n (enc_val v @ rest) = (v, rest)"
  "length (enc_vals vs) \<le> n \<Longrightarrow> dec_vals n (enc_vals vs @ rest) = (vs, rest)"
proof (induction n arbitrary: v vs rest)
  case 0
  { case 1 then show ?case by (cases v) (simp_all split: if_splits) }
  { case 2 then show ?case by (simp add: enc_vals_def) }
next
  case (Suc n)
  { case 1
    then show ?case
    proof (cases v)
      case (JList xs)
      with 1 have "length (enc_vals xs) \<le> n" by (simp add: enc_vals_def)
      from Suc.IH(2) [OF this, of rest] JList show ?thesis by (simp add: enc_vals_def)
    qed simp_all }
  { case 2
    then show ?case
    proof (cases vs)
      case (Cons x xs)
      with 2 have "length (enc_val x) \<le> n" "length (enc_vals xs) \<le> n" by (simp_all add: enc_vals_def)
      from Suc.IH(1) [OF this(1), of "enc_vals xs @ rest"] Suc.IH(2) [OF this(2), of rest] Cons
      show ?thesis by (simp add: enc_vals_def)
    qed (simp add: enc_vals_def) }
qed

fun to_fields :: "details \<Rightarrow> jval list" where
  "to_fields [] = []"
| "to_fields ((k, v) # d) = JStr k # v # to_fields d"

fun of_fields :: "jval list \<Rightarrow> details" where
  "of_fields (JStr k # v # vs) = (k, v) # of_fields vs"
| "of_fields _ = []"

lemma of_to_fields [simp]: "of_fields (to_fields d) = d"
  by (induction d rule: to_fields.induct) simp_all

definition sample_oidc :: oidc_lib where
  "sample_oidc =
     \<lparr>ol_encode = (\<lambda>payload key. enc_field key @ enc_vals (to_fields payload)),
      ol_decode = (\<lambda>check now token key.
        (let (k, body) = dec_field token; payload = of_fields (fst (dec_vals (length token) body))
         in if k = key \<and> (check \<longrightarrow> (case int_claim payload ''exp'' of None \<Rightarrow> True | Some e \<Rightarrow> now < seconds e))
            then Some payload else None))\<rparr>"

lemma enc_field_nonempty [simp]: "enc_field w \<noteq> []"
  by (simp add: enc_field_def)

lemma sample_oidc_faithful: "faithful_oidc sample_oidc"
proof -
  have dec: "dec_vals (length (enc_field key) + length (enc_vals fs)) (enc_vals fs) = (fs, [])" for key fs
    using dec_enc_val(2) [of fs "length (enc_field key) + length (enc_vals fs)" "[]"] by simp
  then show ?thesis by (simp add: faithful_oidc_def sample_oidc_def dec int_claim_def)
qed

section \<open>A portal\<close>

definition corp_realm :: realm_row where
  "corp_realm = \<lparr>rl_id = 2, rl_slug = ''corp'', rl_default = False, rl_enabled = True, rl_native = True, rl_mfa = False,
     rl_sync = False\<rparr>"

definition finance_group :: group_row where
  "finance_group = \<lparr>gp_id = 5, gp_name = ''finance'', gp_realm_slug = None, gp_realm_id = Some 2, gp_kc = None,
     gp_path = None, gp_count = None\<rparr>"

definition erp_request :: "string \<Rightarrow> grant_request" where
  "erp_request l = \<lparr>rq_subject = ''group'', rq_group = Some 5, rq_user = None, rq_display = None,
     rq_resource = ''application'', rq_app = Some 1, rq_sysrole = None, rq_role = None, rq_file = None, rq_folder = None,
     rq_level = l\<rparr>"

definition admin_request :: grant_request where
  "admin_request = \<lparr>rq_subject = ''user'', rq_group = None, rq_user = Some ''u-7'', rq_display = None,
     rq_resource = ''system_role'', rq_app = None, rq_sysrole = Some ''portal_admin'', rq_role = None, rq_file = None,
     rq_folder = None, rq_level = ''manage''\<rparr>"

definition erp_grant :: grant where "erp_grant = new_grant 1 (erp_request ''launch'') 0 ''root''"
definition admin_grant :: grant where "admin_grant = new_grant 2 admin_request 0 ''root''"

definition session_row :: "string \<Rightarrow> string \<Rightarrow> oidc_row" where
  "session_row jti sub = \<lparr>os_jti = jti, os_sub = sub, os_user = Some sub, os_realm = ''corp'', os_issued = 0,
     os_expires = seconds 3600, os_revoked = False, os_revoked_at = None, os_revoked_by = None, os_reason = None\<rparr>"

definition sample_portal :: gate_db where
  "sample_portal = session_db.extend (rotated_sdb (seconds 100))
     \<lparr>apps = [scripts_app], grants = [erp_grant, admin_grant], groups = [finance_group], realms = [corp_realm], active = [],
      oidc_rows = [session_row ''s1'' ''ann'', session_row ''s2'' ''bob'']\<rparr>"

definition sample_ps :: portal_settings where
  "sample_ps = \<lparr>ps_secret = ''k'', ps_cached = None, ps_stored = None, ps_audience = None, ps_aud_strict = True,
     ps_cookie = ''bastion_session'', ps_native = [], ps_bypass = False, ps_cidrs = [''10.0.0.0/8''], ps_cache_ttl = 30,
     ps_default_realm = ''default'', ps_net = test_net\<rparr>"

definition sample_env :: gate_env where
  "sample_env = \<lparr>ge_ps = sample_ps, ge_bg = sample_st, ge_sv = sample_sv, ge_oidc = sample_oidc, ge_jwt = sample_jwt,
     ge_sha = (\<lambda>s. s), ge_loads = (\<lambda>_. None), ge_iso = show_int, ge_proxy = (\<lambda>_. ''http://oauth2-proxy'')\<rparr>"

definition session_cookie :: "string \<Rightarrow> string \<Rightarrow> string list \<Rightarrow> string" where
  "session_cookie jti sub gs =
     create_oidc_session_token sample_oidc 0 sub (Some sub) ''corp'' jti ''k'' 3600 gs None None None"

definition erp_visit :: "string \<Rightarrow> web_request" where
  "erp_visit cookie = \<lparr>rq_header = (\<lambda>n. if n = ''X-Original-Host'' then Some ''erp.corp.test'' else None),
     rq_client = Some ''203.0.113.9'', rq_cookies = [(''bastion_session'', cookie)]\<rparr>"

definition ann :: web_request where "ann = erp_visit (session_cookie ''s1'' ''ann'' [''/corp/finance''])"
definition bob :: web_request where "bob = erp_visit (session_cookie ''s2'' ''bob'' [''sales''])"

definition no_idp :: "string \<Rightarrow> string \<Rightarrow> idp_reply" where "no_idp url cookies = IdpUnreachable"

lemma sample_tables: "grants_wf (grants sample_portal)" "apps_wf (apps sample_portal)" "hot_up sample_portal"
  "scripts_app \<in> set (apps sample_portal)"
  by code_simp+

section \<open>Grants\<close>

theorem create_grant_refines_witness:
  "\<exists>g db'. create_grant (erp_request ''manage'') ''root'' sample_portal = (Ok g, db') \<and> grants_wf (grants db') \<and>
     grant_table (grants db') (GroupSubject 5, Application 1) = Some Manage"
proof -
  have v: "access_grant_create (erp_request ''manage'') = Ok (erp_request ''manage'')" by code_simp
  have "is_ok (fst (create_grant (erp_request ''manage'') ''root'' sample_portal))" by code_simp
  then obtain g db' where run: "create_grant (erp_request ''manage'') ''root'' sample_portal = (Ok g, db')"
    by (metis is_okE prod.collapse)
  have at: "key_abs (request_key (erp_request ''manage'')) = Some (GroupSubject 5, Application 1)"
    "read_level (rq_level (erp_request ''manage'')) = Some Manage"
    "raise_level (grant_table (grants sample_portal) (GroupSubject 5, Application 1)) Manage = Manage"
    by code_simp+
  from create_grant_refines [OF sample_tables(1) v run] at run show ?thesis by auto
qed

theorem delete_grant_refines_witness:
  "\<exists>g db'. admin_rbac_grants_delete 1 (Some ''u-7'') sample_portal = (Ok g, db') \<and>
     grant_table (grants db') (GroupSubject 5, Application 1) = None"
proof -
  have "case fst (admin_rbac_grants_delete 1 (Some ''u-7'') sample_portal) of Ok g \<Rightarrow> g = erp_grant | Raise e \<Rightarrow> False"
    by code_simp
  then obtain db' where run: "admin_rbac_grants_delete 1 (Some ''u-7'') sample_portal = (Ok erp_grant, db')"
    by (cases "admin_rbac_grants_delete 1 (Some ''u-7'') sample_portal") (auto split: result.splits)
  have "key_abs (grant_key erp_grant) = Some (GroupSubject 5, Application 1)" by code_simp
  with delete_grant_refines [OF sample_tables(1) run] run show ?thesis by auto
qed

theorem grants_well_typed_witness:
  "\<exists>x y l. key_abs (grant_key admin_grant) = Some (x, y) \<and> read_level (gr_level admin_grant) = Some l"
proof -
  have v: "access_grant_create (erp_request ''manage'') = Ok (erp_request ''manage'')" by code_simp
  have step: "grant_step sample_portal (snd (create_grant (erp_request ''manage'') ''root'' sample_portal))"
    by (rule grant_step.create [OF v prod.collapse [symmetric]])
  have "admin_grant \<in> set (grants (snd (create_grant (erp_request ''manage'') ''root'' sample_portal)))" by code_simp
  from grants_well_typed [OF sample_tables(1) r_into_rtranclp [of grant_step, OF step] this] show ?thesis by blast
qed

section \<open>Effective access\<close>

theorem effective_access_refines_witness:
  "greatest (allowed_level sample_portal (session_subjects sample_portal (Some ''ann'') [''Finance''] (Some ''corp'')) (Application 1))
     Launch"
proof -
  have "(scripts_app, Some Launch) \<in> (\<lambda>e. (ea_app e, read_level (ea_level e))) `
      set (get_effective_apps_for_user sample_portal (Some ''ann'') [''Finance''] (Some ''corp'') None)"
    by code_simp
  moreover have "ap_id scripts_app = 1" by code_simp
  ultimately show ?thesis
    unfolding effective_access_refines [OF sample_tables(1,2)] by auto
qed

theorem launch_decision_exact_witness:
  "\<exists>a l. open_app sample_portal a \<and> ap_id a = 1 \<and> Launch \<le> l \<and>
     allowed_level sample_portal (session_subjects sample_portal (Some ''ann'') [''Finance''] (Some ''corp'')) (Application 1) l"
proof -
  have "user_can_launch_application sample_portal 1 (Some ''ann'') [''Finance''] (Some ''corp'')" by code_simp
  then show ?thesis unfolding launch_decision_exact [OF sample_tables(1,2)] .
qed

theorem portal_admin_exact_witness:
  "\<exists>l. allowed_level sample_portal (session_subjects sample_portal (Some ''u-7'') [] None) (SystemRole ''portal_admin'') l"
proof -
  have "user_has_portal_admin_role sample_portal (Some ''u-7'') [] None" by code_simp
  then show ?thesis unfolding portal_admin_exact [OF sample_tables(1)] .
qed


theorem accented_group_never_matches_witness:
  "finance_group\<lparr>gp_name := [CHR 0xC9, CHR ''t'', CHR ''e'']\<rparr> \<notin>
     set (resolve_rbac_groups sample_portal (Some ''corp'') [[CHR 0xC9, CHR ''t'', CHR ''e'']])"
  by (rule accented_group_never_matches) code_simp

section \<open>The heartbeat\<close>

definition isolated_row :: active_row where
  "isolated_row = \<lparr>as_id = ''app:ann@corp.test:erp'', as_kind = ''app'', as_email = ''ann@corp.test'', as_username = ''ann'',
     as_realm = ''corp'', as_protocol = ''HTTPS'', as_target = ''erp'', as_ip = None, as_status = ''isolated'',
     as_started = 0, as_seen = 0, as_details = None\<rparr>"

theorem heartbeat_safe_witness:
  "\<exists>r \<in> set (active (touch_app_presence show_int ''default'' ''Ann@corp.test'' (Some ''ann'') None scripts_app None ''oidc''
     (sample_portal\<lparr>active := [isolated_row]\<rparr>))). as_id r = as_id isolated_row \<and> as_status r = ''isolated''"
proof -
  have "active_wf (active (sample_portal\<lparr>active := [isolated_row]\<rparr>))"
    "isolated_row \<in> set (active (sample_portal\<lparr>active := [isolated_row]\<rparr>))" "as_status isolated_row = ''isolated''"
    by code_simp+
  with heartbeat_safe [OF this(1) refl, of show_int "''default''" "''Ann@corp.test''" "Some ''ann''" None scripts_app None "''oidc''"]
  show ?thesis by blast
qed

section \<open>Portal sessions\<close>

lemma bob_cookie:
  "validate_oidc_session_cookie sample_oidc sample_ps sample_portal (session_cookie ''s2'' ''bob'' []) = Ok (Some
     \<lparr>oc_sub = ''bob'', oc_user = Some ''bob'', oc_realm = ''corp'', oc_jti = ''s2'', oc_exp = 3600, oc_groups = [],
      oc_email = None, oc_sid = None\<rparr>)"
  by code_simp

theorem revoked_cookie_stays_out_witness:
  "\<exists>u db1 c. revoke_oidc_jti ''s1'' ''admin'' (Some ''lost laptop'') sample_portal = (Ok u, db1) \<and>
     validate_oidc_session_cookie sample_oidc sample_ps (db1\<lparr>clock := seconds 200\<rparr>) (session_cookie ''s2'' ''bob'' []) = Ok (Some c) \<and>
     oc_jti c \<noteq> ''s1''"
proof -
  let ?db = "snd (revoke_oidc_jti ''s1'' ''admin'' (Some ''lost laptop'') sample_portal)"
  have run: "revoke_oidc_jti ''s1'' ''admin'' (Some ''lost laptop'') sample_portal = (Ok (), ?db)"
    by (rule prod_eqI) (code_simp, simp)
  have "oidc_step ?db (?db\<lparr>clock := seconds 200\<rparr>)" by (rule oidc_step.other) simp
  note steps = r_into_rtranclp [of oidc_step, OF this]
  have "\<exists>c. validate_oidc_session_cookie sample_oidc sample_ps (?db\<lparr>clock := seconds 200\<rparr>) (session_cookie ''s2'' ''bob'' []) = Ok (Some c)"
    by (rule exI [of _ "\<lparr>oc_sub = ''bob'', oc_user = Some ''bob'', oc_realm = ''corp'', oc_jti = ''s2'', oc_exp = 3600,
      oc_groups = [], oc_email = None, oc_sid = None\<rparr>"]) code_simp
  then obtain c where c: "validate_oidc_session_cookie sample_oidc sample_ps (?db\<lparr>clock := seconds 200\<rparr>)
      (session_cookie ''s2'' ''bob'' []) = Ok (Some c)" by blast
  from revoked_cookie_stays_out [OF run steps c] run c show ?thesis by blast
qed

theorem oidc_session_roundtrip_witness:
  "\<exists>token jti db' c. issue_oidc_session sample_oidc ''eve'' (Some ''eve'') ''corp'' ''k'' 3600 ['' finance ''] (Some ''eve@corp.test'')
       (Some ''bastion-portal'') None sample_portal = (Ok (token, jti), db') \<and>
     validate_oidc_session_cookie sample_oidc sample_ps (db'\<lparr>clock := seconds 1000\<rparr>) token = Ok (Some c) \<and>
     oc_groups c = [''finance''] \<and> oc_email c = Some ''eve@corp.test''"
proof -
  let ?run = "issue_oidc_session sample_oidc ''eve'' (Some ''eve'') ''corp'' (resolve_oidc_session_jwt_secret sample_ps) 3600 ['' finance '']
    (Some ''eve@corp.test'') (Some (resolve_oidc_session_jwt_audience sample_ps)) None sample_portal"
  have args: "resolve_oidc_session_jwt_secret sample_ps = ''k''" "resolve_oidc_session_jwt_audience sample_ps = ''bastion-portal''"
    by code_simp+
  have "is_ok (fst ?run)" by code_simp
  then obtain token jti db' where run: "?run = (Ok (token, jti), db')" by (metis is_okE prod.collapse)
  have ids: "''eve'' \<noteq> []" "''corp'' \<noteq> []" "uuids sample_portal (uuid_next sample_portal) \<noteq> []"
    "find_oidc sample_portal (uuids sample_portal (uuid_next sample_portal)) = None"
    "resolve_oidc_session_jwt_secret sample_ps \<noteq> []"
    "clock sample_portal \<le> seconds 1000" "seconds 1000 < seconds ((clock sample_portal + seconds 3600) div 1000000)"
    by code_simp+
  have out: "filter (\<lambda>g. g \<noteq> []) (map strip ['' finance '']) = [''finance'']"
    "str_opt (strip (opt_str (Some ''eve@corp.test''))) = Some ''eve@corp.test''"
    by code_simp+
  from oidc_session_roundtrip [OF sample_oidc_faithful sample_tables(3) ids(1-5) run ids(6,7)] run
  show ?thesis unfolding args out by fastforce
qed

section \<open>The decision for published applications\<close>

definition claims_of :: "string \<Rightarrow> string \<Rightarrow> string list \<Rightarrow> oidc_claims" where
  "claims_of jti sub gs = \<lparr>oc_sub = sub, oc_user = Some sub, oc_realm = ''corp'', oc_jti = jti, oc_exp = 3600, oc_groups = gs,
     oc_email = None, oc_sid = None\<rparr>"

lemma judged:
  "judged_session sample_env ann sample_portal scripts_app (claims_of ''s1'' ''ann'' [''/corp/finance''])"
  "judged_session sample_env bob sample_portal scripts_app (claims_of ''s2'' ''bob'' [''sales''])"
  by code_simp+

theorem gate_evidence_witness:
  "\<exists>c. native_session sample_env ann sample_portal c \<and>
     may_launch sample_portal scripts_app (identity_of (native_headers c)) (native_realm c)"
proof -
  let ?run = "subdomain_auth sample_env no_idp ann sample_portal" and ?rq = "request.truncate ann"
  have "case fst ?run of Ok r \<Rightarrow> rp_status r = 200 | Raise e \<Rightarrow> False" by code_simp
  then obtain r db' where run: "?run = (Ok r, db')" "rp_status r = 200" by (cases ?run) (auto split: result.splits)
  have no: "\<not> lan_bypass sample_env ?rq" "resolve_app_by_host sample_portal (request_host ?rq) = Some scripts_app"
    "\<not> app_uri_is_m2m_bypass (ge_loads sample_env) scripts_app (request_uri ?rq)"
    "m2m_credential_allows scripts_app (rq_header ?rq ''Authorization'') = None"
    by code_simp+
  have idp: "idp_accepts (no_idp u c) = None" for u c by (simp add: no_idp_def idp_accepts_def)
  have bg: "case fst (process_breakglass_auth_request (ge_jwt sample_env) (ge_bg sample_env) (ge_sv sample_env) (ge_sha sample_env) ?rq
      (opt_str (map_of (rq_cookies ann) bg_cookie_name)) False sample_portal) of Ok res \<Rightarrow> \<not> ar_ok res | Raise e \<Rightarrow> True"
    by code_simp
  from gate_evidence [OF sample_tables(1,2) run] no idp bg show ?thesis by auto
qed

theorem session_without_grant_denied_witness:
  "\<exists>r. fst (subdomain_auth sample_env no_idp bob sample_portal) = Ok r \<and> rp_status r = 401 \<and>
     (''X-Auth-Error'', ''access_denied_no_grant'') \<in> set (rp_headers r)"
proof -
  let ?c = "claims_of ''s2'' ''bob'' [''sales'']"
  have "\<not> user_can_launch_application sample_portal (ap_id scripts_app) (str_opt (id_user (identity_of (native_headers ?c))))
      (id_groups (identity_of (native_headers ?c))) (native_realm ?c)"
    by code_simp
  from session_without_grant_denied [OF sample_tables(1,2) judged(2) this [unfolded launch_app [OF sample_tables(1,2,4)]], of no_idp]
  show ?thesis by blast
qed


theorem login_check_agrees_witness:
  "\<exists>r db'. subdomain_auth sample_env no_idp ann sample_portal = (Ok r, db') \<and>
     (rp_status r = 200 \<or> (''X-Auth-Error'', ''no-app-session'') \<in> set (rp_headers r))"
proof -
  have "native_subdomain_auth_would_allow sample_env ann (request_host (request.truncate ann)) sample_portal = Ok True"
    by code_simp
  from login_check_agrees [OF this, of no_idp] show ?thesis .
qed

theorem session_groups_split_at_commas_witness:
  "native_session sample_env (erp_visit (session_cookie ''s1'' ''ann'' [''staff,finance''])) sample_portal
     (claims_of ''s1'' ''ann'' [''staff,finance'']) \<and>
   id_groups (identity_of (native_headers (claims_of ''s1'' ''ann'' [''staff,finance'']))) = [''staff'', ''finance'']"
proof -
  have s: "native_session sample_env (erp_visit (session_cookie ''s1'' ''ann'' [''staff,finance''])) sample_portal
     (claims_of ''s1'' ''ann'' [''staff,finance''])" by code_simp
  have "map normalize_group_name (filter (\<lambda>p. strip p \<noteq> []) (concat (map (split_on (CHR '','')) (oc_groups (claims_of ''s1'' ''ann'' [''staff,finance'']))))) =
      [''staff'', ''finance'']" by code_simp
  with s session_groups_split_at_commas [OF s] show ?thesis by simp
qed

end
