(* ===== verification/EasFold.thy ===== *)
theory EasFold
  imports EasRegister
begin

text \<open>
  Folding the rows of one mail device: the tables stay well formed, the group of a device leaves one row, and what
  was decided about the device survives, whether the commit goes through or is refused.
\<close>

section \<open>Tables of devices\<close>

definition devices_wf :: "device list \<Rightarrow> bool" where
  "devices_wf ds \<longleftrightarrow> distinct (map dv_id ds) \<and> (\<forall>d \<in> set ds. \<forall>r \<in> set ds. same_place d r \<longrightarrow> d = r)"

lemma same_id: "devices_wf ds \<Longrightarrow> d \<in> set ds \<Longrightarrow> r \<in> set ds \<Longrightarrow> dv_id d = dv_id r \<Longrightarrow> d = r"
  by (auto simp: devices_wf_def distinct_map inj_on_def)

lemma put_set: "dv_id d \<in> dv_id ` set (devices db) \<Longrightarrow>
    set (devices (put_device d db)) = insert d {r \<in> set (devices db). dv_id r \<noteq> dv_id d}"
  by (auto simp: put_device_def update_rows_def)

lemma put_ids [simp]: "map dv_id (devices (put_device d db)) = map dv_id (devices db)"
  by (auto simp: put_device_def update_rows_def)

lemma put_wf:
  assumes "devices_wf (devices db)" and "\<not> device_conflict d db"
  shows "devices_wf (devices (put_device d db))"
proof -
  have "\<forall>r \<in> set (devices db). dv_id r \<noteq> dv_id d \<longrightarrow> \<not> same_place d r \<and> \<not> same_place r d"
    using assms(2) by (auto simp: device_conflict_def list_ex_iff same_place_def)
  moreover have "distinct (map dv_id (devices (put_device d db)))"
    using assms(1) unfolding put_ids by (simp add: devices_wf_def)
  ultimately show ?thesis
    using assms(1) by (auto simp: devices_wf_def put_device_def update_rows_def split: if_splits)
qed

definition only_devices :: "'a edb \<Rightarrow> 'a edb \<Rightarrow> bool" where
  "only_devices db db' \<longleftrightarrow> (\<exists>ds. db' = db\<lparr>devices := ds\<rparr>)"

lemma only_refl [simp]: "only_devices db db"
  unfolding only_devices_def by (rule exI [of _ "devices db"]) simp

lemma only_trans: "only_devices db d \<Longrightarrow> only_devices d db' \<Longrightarrow> only_devices db db'"
  by (auto simp: only_devices_def)

lemma only_put [simp]: "only_devices db (put_device d db)"
  by (auto simp: only_devices_def put_device_def)

lemma update_devices_rows:
  assumes "update_devices ups db = Some db'" and "devices_wf (devices db)" and "distinct (map dv_id ups)"
    and "dv_id ` set ups \<subseteq> dv_id ` set (devices db)"
  shows "only_devices db db' \<and> devices_wf (devices db') \<and> map dv_id (devices db') = map dv_id (devices db) \<and>
    set (devices db') = set ups \<union> {r \<in> set (devices db). dv_id r \<notin> dv_id ` set ups}"
  using assms
proof (induction ups arbitrary: db)
  case Nil
  then show ?case by auto
next
  case (Cons d ups)
  let ?db = "put_device d db"
  have run: "\<not> device_conflict d db" "update_devices ups ?db = Some db'"
    using Cons.prems(1) by (simp_all split: if_splits)
  have ids: "dv_id ` set (devices ?db) = dv_id ` set (devices db)"
    by (metis list.set_map put_ids)
  have "only_devices ?db db' \<and> devices_wf (devices db') \<and> map dv_id (devices db') = map dv_id (devices ?db) \<and>
      set (devices db') = set ups \<union> {r \<in> set (devices ?db). dv_id r \<notin> dv_id ` set ups}"
    using Cons.prems by (intro Cons.IH run put_wf) (simp_all add: ids)
  moreover have "set (devices ?db) = insert d {r \<in> set (devices db). dv_id r \<noteq> dv_id d}"
    using Cons.prems(4) by (intro put_set) simp
  moreover have "dv_id d \<notin> dv_id ` set ups" using Cons.prems(3) by (simp add: image_iff)
  ultimately show ?case using only_trans [OF only_put] unfolding put_ids by auto
qed

lemma flush_rows:
  assumes "flush_devices ups gone db = Some db'" and "devices_wf (devices db)" and "distinct (map dv_id ups)"
    and "dv_id ` set ups \<subseteq> dv_id ` set (devices db)"
  shows "only_devices db db' \<and> devices_wf (devices db') \<and>
    set (devices db') = {r. (r \<in> set ups \<or> (r \<in> set (devices db) \<and> dv_id r \<notin> dv_id ` set ups)) \<and> dv_id r \<notin> set gone}"
proof -
  obtain d where d: "update_devices ups db = Some d" "db' = d\<lparr>devices := filter (\<lambda>r. dv_id r \<notin> set gone) (devices d)\<rparr>"
    using assms(1) by (auto simp: flush_devices_def split: option.splits)
  have u: "only_devices db d" "devices_wf (devices d)"
    "set (devices d) = set ups \<union> {r \<in> set (devices db). dv_id r \<notin> dv_id ` set ups}"
    using update_devices_rows [OF d(1) assms(2-4)] by blast+
  have "devices_wf (filter (\<lambda>r. dv_id r \<notin> set gone) (devices d))"
    using u(2) by (auto simp: devices_wf_def distinct_map inj_on_def)
  moreover have "only_devices db db'" using d(2) u(1) by (auto simp: only_devices_def)
  ultimately show ?thesis using d(2) u(3) by auto
qed

section \<open>Folding\<close>

definition covers :: "device \<Rightarrow> device \<Rightarrow> bool" where
  "covers d r \<longleftrightarrow> device_key d = device_key r \<and> (dv_blocked r \<longrightarrow> dv_blocked d)"

definition grounded :: "device list \<Rightarrow> device \<Rightarrow> bool" where
  \<comment> \<open>the status and the lock come from rows of the same device\<close>
  "grounded rs d \<longleftrightarrow>
     (\<exists>r \<in> set rs. device_key r = device_key d \<and> dv_status r = dv_status d) \<and>
     (dv_blocked d \<longrightarrow> (\<exists>r \<in> set rs. device_key r = device_key d \<and> dv_blocked r))"

lemma covers_refl [simp]: "covers d d"
  by (simp add: covers_def)

lemma covers_trans: "covers a b \<Longrightarrow> covers b c \<Longrightarrow> covers a c"
  by (auto simp: covers_def)

lemma grounded_self: "d \<in> set rs \<Longrightarrow> grounded rs d"
  by (auto simp: grounded_def)

lemma grounded_trans: "grounded qs d \<Longrightarrow> \<forall>r \<in> set qs. grounded rs r \<Longrightarrow> grounded rs d"
  unfolding grounded_def by metis

lemma pick_from: "pick_from b ds \<in> insert b (set ds) \<and> (\<forall>d \<in> insert b (set ds). device_merge_score d \<le> device_merge_score (pick_from b ds))"
  by (induction b ds rule: pick_from.induct) (auto split: if_splits)

lemma winner_in: "ds \<noteq> [] \<Longrightarrow> pick_device_winner ds \<in> set ds"
  using pick_from [of "hd ds" "tl ds"] unfolding pick_device_winner_def by (metis list.exhaust_sel list.set(2))

lemma winner_max: "d \<in> set ds \<Longrightarrow> device_merge_score d \<le> device_merge_score (pick_device_winner ds)"
  using pick_from [of "hd ds" "tl ds"] unfolding pick_device_winner_def by (metis list.exhaust_sel list.set(2) list.set_cases neq_Nil_conv)

lemma score_lock: "device_merge_score r \<le> device_merge_score d \<Longrightarrow> dv_blocked r \<Longrightarrow> dv_blocked d"
  by (auto simp: device_merge_score_def less_eq_prod_def split: if_splits)

lemma clean_key_sel [simp]:
  "dv_id (clean_key d) = dv_id d" "device_key (clean_key d) = device_key d" "dv_blocked (clean_key d) = dv_blocked d"
  "dv_status (clean_key d) = dv_status d" "dv_count (clean_key d) = dv_count d"
  by (simp_all add: clean_key_def device_key_def Let_def)

lemma take_decision_sel [simp]:
  "dv_id (take_decision l w) = dv_id w" "dv_app (take_decision l w) = dv_app w" "dv_device (take_decision l w) = dv_device w"
  "dv_user (take_decision l w) = dv_user w" "dv_blocked (take_decision l w) = dv_blocked w" "dv_count (take_decision l w) = dv_count w"
  "dv_status (take_decision l w) \<in> {dv_status l, dv_status w}"
  by (simp_all add: take_decision_def)

lemma absorb_sel [simp]:
  "dv_id (absorb_device w l) = dv_id w" "device_key (absorb_device w l) = device_key w"
  "dv_blocked (absorb_device w l) \<longleftrightarrow> dv_blocked w \<or> dv_blocked l" "dv_count (absorb_device w l) = dv_count w + dv_count l"
  by (simp_all add: absorb_device_def device_key_def Let_def)

lemma take_decision_status:
  "dv_status (take_decision l w) = (if status_merge_rank (dv_status w) < status_merge_rank (dv_status l) then dv_status l else dv_status w)"
  by (simp add: take_decision_def)

lemma absorb_status:
  "dv_status (absorb_device w l) = (if status_merge_rank (dv_status w) < status_merge_rank (dv_status l) then dv_status l else dv_status w)"
  by (simp add: absorb_device_def Let_def take_decision_status)

lemma absorb_all:
  "dv_id (foldl absorb_device w ls) = dv_id w \<and> device_key (foldl absorb_device w ls) = device_key w \<and>
   (dv_blocked (foldl absorb_device w ls) \<longleftrightarrow> (\<exists>r \<in> insert w (set ls). dv_blocked r)) \<and>
   dv_count (foldl absorb_device w ls) = dv_count w + sum_list (map dv_count ls) \<and>
   (\<exists>r \<in> insert w (set ls). dv_status r = dv_status (foldl absorb_device w ls)) \<and>
   (\<forall>r \<in> insert w (set ls). status_merge_rank (dv_status r) \<le> status_merge_rank (dv_status (foldl absorb_device w ls)))"
proof (induction ls arbitrary: w)
  case Nil
  then show ?case by simp
next
  case (Cons l ls)
  have "status_merge_rank (dv_status w) \<le> status_merge_rank (dv_status (absorb_device w l))"
    "status_merge_rank (dv_status l) \<le> status_merge_rank (dv_status (absorb_device w l))"
    "dv_status (absorb_device w l) = dv_status w \<or> dv_status (absorb_device w l) = dv_status l"
    by (simp_all add: absorb_status)
  then show ?case using Cons.IH [of "absorb_device w l"] by (simp del: foldl_Cons add: foldl_Cons [of _ w]) (smt (verit))
qed

lemma sum_split:
  fixes f :: "device \<Rightarrow> int"
  shows "distinct (map dv_id g) \<Longrightarrow> w \<in> set g \<Longrightarrow>
    f w + sum_list (map f (filter (\<lambda>d. dv_id d \<noteq> dv_id w) g)) = sum_list (map f g)"
proof (induction g)
  case Nil
  then show ?case by simp
next
  case (Cons d g)
  show ?case
  proof (cases "dv_id d = dv_id w")
    case True
    then have "\<forall>x \<in> set g. dv_id x \<noteq> dv_id w" using Cons.prems(1) by (metis distinct.simps(2) image_eqI list.map(2) list.set_map)
    then have "filter (\<lambda>d. dv_id d \<noteq> dv_id w) g = g" by (simp add: filter_id_conv)
    moreover have "d = w" using True Cons.prems by (auto simp: image_iff)
    ultimately show ?thesis by simp
  next
    case False
    then show ?thesis using Cons by auto
  qed
qed

lemma merge_group:
  assumes "merge_device_group g = (c, d, gone)" and "g \<noteq> []" and "distinct (map dv_id g)" and "\<forall>x \<in> set g. device_key x = k"
  shows "dv_id d \<in> dv_id ` set g" and "device_key d = k" and "dv_blocked d \<longleftrightarrow> (\<exists>x \<in> set g. dv_blocked x)"
    and "\<exists>x \<in> set g. dv_status x = dv_status d" and "dv_count d = sum_list (map dv_count g)"
    and "\<forall>x \<in> set g. status_merge_rank (dv_status x) \<le> status_merge_rank (dv_status d)"
    and "set gone = dv_id ` set g - {dv_id d}" and "\<not> c \<Longrightarrow> g = [d]"
proof -
  let ?w = "pick_device_winner g" and ?ls = "filter (\<lambda>d. dv_id d \<noteq> dv_id (pick_device_winner g)) g"
  consider (one) only where "g = [only]" "c = (clean_key only \<noteq> only)" "d = clean_key only" "gone = []"
    | (many) "c" "d = foldl absorb_device ?w ?ls" "gone = map dv_id ?ls"
  proof (cases "\<exists>only. g = [only]")
    case True
    then obtain only where one: "g = [only]" ..
    have "(c, d, gone) = (clean_key only \<noteq> only, clean_key only, [])"
      unfolding assms(1) [symmetric] one by (simp add: merge_device_group_def)
    then have "c = (clean_key only \<noteq> only)" "d = clean_key only" "gone = []" by blast+
    then show ?thesis using one that(1) by blast
  next
    case False
    then have "merge_device_group g = (True, foldl absorb_device ?w ?ls, map dv_id ?ls)"
      using assms(2) unfolding merge_device_group_def Let_def by (cases g rule: remdups_adj.cases) simp_all
    then have "(c, d, gone) = (True, foldl absorb_device ?w ?ls, map dv_id ?ls)" using assms(1) by (simp only:)
    then show ?thesis using that(2) by (simp only: prod.inject)
  qed
  then have "dv_id d \<in> dv_id ` set g \<and> device_key d = k \<and> (dv_blocked d \<longleftrightarrow> (\<exists>x \<in> set g. dv_blocked x)) \<and>
    (\<exists>x \<in> set g. dv_status x = dv_status d) \<and> dv_count d = sum_list (map dv_count g) \<and>
    (\<forall>x \<in> set g. status_merge_rank (dv_status x) \<le> status_merge_rank (dv_status d)) \<and>
    set gone = dv_id ` set g - {dv_id d} \<and> (\<not> c \<longrightarrow> g = [d])"
  proof cases
    case one
    then show ?thesis using assms(4) by auto
  next
    case many
    have w: "?w \<in> set g" using assms(2) by (rule winner_in)
    have rows: "insert ?w (set ?ls) = set g"
      using w assms(3) by (auto simp: distinct_map dest: inj_onD)
    have gone: "dv_id ` set ?ls = dv_id ` set g - {dv_id ?w}" by auto
    note all = absorb_all [of ?w ?ls, folded many(2), unfolded rows]
    have "dv_blocked d \<longleftrightarrow> (\<exists>x \<in> set g. dv_blocked x)" using all by blast
    moreover have "\<exists>x \<in> set g. dv_status x = dv_status d" using all by blast
    moreover have "\<forall>x \<in> set g. status_merge_rank (dv_status x) \<le> status_merge_rank (dv_status d)" using all by blast
    moreover have "dv_count d = sum_list (map dv_count g)" using all sum_split [OF assms(3) w, of dv_count] by simp
    moreover have "dv_id d = dv_id ?w" "device_key d = k" using all w assms(4) by auto
    ultimately show ?thesis using w gone many(1,3) by simp
  qed
  then show "dv_id d \<in> dv_id ` set g" "device_key d = k" "dv_blocked d \<longleftrightarrow> (\<exists>x \<in> set g. dv_blocked x)"
    "\<exists>x \<in> set g. dv_status x = dv_status d" "dv_count d = sum_list (map dv_count g)"
    "\<forall>x \<in> set g. status_merge_rank (dv_status x) \<le> status_merge_rank (dv_status d)"
    "set gone = dv_id ` set g - {dv_id d}" "\<not> c \<Longrightarrow> g = [d]"
    by blast+
qed

lemma group_facts:
  assumes "g \<in> set (group_devices ds)"
  obtains k where "g = filter (\<lambda>d. device_key d = k) ds" "g \<noteq> []"
proof -
  obtain k where k: "k \<in> set (map device_key ds)" "g = filter (\<lambda>d. device_key d = k) ds"
    using assms by (auto simp: group_devices_def set_dedup_from)
  moreover have "g \<noteq> []" using k by (auto simp: filter_empty_conv)
  ultimately show thesis using that by blast
qed

lemma group_of: "r \<in> set ds \<Longrightarrow> filter (\<lambda>d. device_key d = device_key r) ds \<in> set (group_devices ds)"
  by (auto simp: group_devices_def set_dedup_from)

definition survivor :: "device list \<Rightarrow> device" where
  "survivor g = fst (snd (merge_device_group g))"

definition gone_ids :: "device list \<Rightarrow> int list" where
  "gone_ids g = snd (snd (merge_device_group g))"

definition regroups :: "device list \<Rightarrow> bool" where
  "regroups g = fst (merge_device_group g)"

lemma group_split: "merge_device_group g = (regroups g, survivor g, gone_ids g)"
  by (simp add: regroups_def survivor_def gone_ids_def)

lemma group_merge:
  assumes "g \<in> set (group_devices ds)" and "distinct (map dv_id ds)"
  shows "dv_id (survivor g) \<in> dv_id ` set g" and "\<forall>x \<in> set g. device_key x = device_key (survivor g)"
    and "\<forall>x \<in> set g. covers (survivor g) x" and "grounded g (survivor g)" and "set g \<subseteq> set ds"
    and "set (gone_ids g) = dv_id ` set g - {dv_id (survivor g)}" and "\<not> regroups g \<Longrightarrow> g = [survivor g]"
    and "g = filter (\<lambda>d. device_key d = device_key (survivor g)) ds"
proof -
  obtain k where g: "g = filter (\<lambda>d. device_key d = k) ds" "g \<noteq> []" using group_facts [OF assms(1)] .
  have "distinct (map dv_id g)" unfolding g(1) by (rule distinct_map_filter [OF assms(2)])
  note facts = merge_group [OF group_split g(2) this, of k]
  have k: "\<forall>x \<in> set g. device_key x = k" by (simp add: g(1))
  note facts = facts [OF this]
  show "dv_id (survivor g) \<in> dv_id ` set g" "set (gone_ids g) = dv_id ` set g - {dv_id (survivor g)}"
    "\<not> regroups g \<Longrightarrow> g = [survivor g]" by (fact facts)+
  show "\<forall>x \<in> set g. device_key x = device_key (survivor g)" unfolding facts(2) by (rule k)
  show "set g \<subseteq> set ds" by (subst g(1)) (rule filter_is_subset)
  show "\<forall>x \<in> set g. covers (survivor g) x" using facts(3) k unfolding covers_def facts(2) by auto
  show "grounded g (survivor g)" using facts(3,4) k unfolding grounded_def facts(2) by blast
  show "g = filter (\<lambda>d. device_key d = device_key (survivor g)) ds" unfolding facts(2) by (rule g(1))
qed

lemma survivors_distinct:
  assumes "distinct (map dv_id ds)"
  shows "distinct (map (dv_id \<circ> survivor) (group_devices ds))"
proof -
  have "g = h" if gh: "g \<in> set (group_devices ds)" "h \<in> set (group_devices ds)" "dv_id (survivor g) = dv_id (survivor h)" for g h
  proof -
    note fg = group_merge [OF gh(1) assms] and fh = group_merge [OF gh(2) assms]
    obtain x y where xy: "x \<in> set g" "y \<in> set h" "dv_id x = dv_id y" using fg(1) fh(1) gh(3) by auto
    then have "x = y" using fg(5) fh(5) assms by (auto simp: distinct_map dest: inj_onD)
    then have "device_key (survivor g) = device_key (survivor h)" using fg(2) fh(2) xy by metis
    then show ?thesis using fg(8) fh(8) by simp
  qed
  moreover have "distinct (group_devices ds)"
    unfolding group_devices_def distinct_map
  proof (intro conjI inj_onI)
    fix k k' assume "k \<in> set (dedup_from [] (map device_key ds))" "k' \<in> set (dedup_from [] (map device_key ds))"
      and eq: "filter (\<lambda>d. device_key d = k) ds = filter (\<lambda>d. device_key d = k') ds"
    then obtain d where d: "d \<in> set (filter (\<lambda>d. device_key d = k) ds)" by (auto simp: set_dedup_from)
    then have "d \<in> set (filter (\<lambda>d. device_key d = k') ds)" by (simp only: eq)
    with d show "k = k'" by simp
  qed (rule distinct_dedup_from)
  ultimately show ?thesis by (auto simp: distinct_map inj_on_def)
qed

lemma keep_unseen_set: "set (keep_unseen seen ds) \<subseteq> set ds"
  by (induction seen ds rule: keep_unseen.induct) auto

lemma keep_unseen_best:
  "sorted_wrt (\<lambda>a b. device_merge_score b \<le> device_merge_score a) ds \<Longrightarrow> r \<in> set ds \<Longrightarrow> device_key r \<notin> set seen \<Longrightarrow>
   \<exists>d \<in> set (keep_unseen seen ds). device_key d = device_key r \<and> device_merge_score r \<le> device_merge_score d"
proof (induction seen ds rule: keep_unseen.induct)
  case (2 seen d ds)
  show ?case
  proof (cases "device_key d \<in> set seen")
    case True
    then show ?thesis using 2 by auto
  next
    case False
    then show ?thesis using 2 by (cases "device_key r = device_key d") auto
  qed
qed simp

lemma dedupe_set: "set (dedupe_devices_in_memory ds) \<subseteq> set ds"
  using keep_unseen_set by (fastforce simp: dedupe_devices_in_memory_def)

lemma dedupe_covers: "r \<in> set ds \<Longrightarrow> \<exists>d \<in> set (dedupe_devices_in_memory ds). covers d r"
proof -
  assume r: "r \<in> set ds"
  have "sorted (map device_merge_score (sort_key device_merge_score (rev ds)))" by simp
  then have "sorted_wrt (\<lambda>a b. device_merge_score b \<le> device_merge_score a) (rev (sort_key device_merge_score (rev ds)))"
    by (simp add: sorted_wrt_rev sorted_wrt_map)
  then have "\<exists>d \<in> set (dedupe_devices_in_memory ds). device_key d = device_key r \<and> device_merge_score r \<le> device_merge_score d"
    unfolding dedupe_devices_in_memory_def using r by (intro keep_unseen_best) simp_all
  then show ?thesis using score_lock unfolding covers_def by blast
qed

lemma merge_form:
  "merge_device_duplicates ds db =
     (let gs = group_devices ds; changed = filter regroups gs
      in if changed = [] then (map survivor gs, db)
         else (case flush_devices (map survivor changed) (concat (map gone_ids changed)) db of
                 Some db \<Rightarrow> (map survivor gs, db) | None \<Rightarrow> (dedupe_devices_in_memory ds, db)))"
proof -
  have "map (\<lambda>(_, d, _). d) (map merge_device_group gs) = map survivor gs"
    "filter (\<lambda>(c, _). c) (map merge_device_group gs) = map merge_device_group (filter regroups gs)"
    "map (\<lambda>(_, _, gone). gone) (map merge_device_group gs) = map gone_ids gs" for gs
    by (simp_all add: group_split filter_map comp_def)
  then show ?thesis unfolding merge_device_duplicates_def Let_def by (simp only: map_is_Nil_conv)
qed

definition pending_rows :: "int \<Rightarrow> 'a edb \<Rightarrow> device set" where
  "pending_rows a db = {d \<in> set (devices db). dv_app d = a \<and> dv_status d = device_pending}"

lemma replaced_pending:
  assumes "set (devices db') \<subseteq> insert d (set (devices db) - g)" and "g \<noteq> {}" and "g \<subseteq> set (devices db)"
    and "d \<in> pending_rows a db' \<Longrightarrow> \<exists>r \<in> g. r \<in> pending_rows a db"
  shows "card (pending_rows a db') \<le> card (pending_rows a db)"
proof (cases "d \<in> pending_rows a db'")
  case True
  then obtain r where r: "r \<in> g" "r \<in> pending_rows a db" using assms(4) by blast
  have "pending_rows a db' \<subseteq> insert d (pending_rows a db - {r})" using assms(1) r(1) by (auto simp: pending_rows_def)
  then have "card (pending_rows a db') \<le> card (insert d (pending_rows a db - {r}))" by (intro card_mono) (simp_all add: pending_rows_def)
  also have "\<dots> \<le> Suc (card (pending_rows a db - {r}))" by (simp add: card_insert_if pending_rows_def)
  also have "\<dots> = card (pending_rows a db)" using r(2) by (intro card_Suc_Diff1) (simp_all add: pending_rows_def)
  finally show ?thesis .
next
  case False
  then have "pending_rows a db' \<subseteq> pending_rows a db" using assms(1) by (auto simp: pending_rows_def)
  then show ?thesis by (intro card_mono) (simp_all add: pending_rows_def)
qed

definition devices_kept :: "'a edb \<Rightarrow> 'a edb \<Rightarrow> bool" where
  \<comment> \<open>every row of before has a row of after that covers it, every row of after is grounded before, and no
     application has more pending rows\<close>
  "devices_kept db db' \<longleftrightarrow>
     devices_wf (devices db') \<and> (\<forall>r \<in> set (devices db). \<exists>d \<in> set (devices db'). covers d r) \<and>
     (\<forall>d \<in> set (devices db'). grounded (devices db) d) \<and> (\<forall>a. card (pending_rows a db') \<le> card (pending_rows a db))"

lemma kept_refl: "devices_wf (devices db) \<Longrightarrow> devices_kept db db"
  by (auto simp: devices_kept_def grounded_self intro: covers_refl)

lemma kept_trans: "devices_kept a b \<Longrightarrow> devices_kept b c \<Longrightarrow> devices_kept a c"
  unfolding devices_kept_def by (meson covers_trans grounded_trans le_trans)

definition group_rows :: "device list \<Rightarrow> device set" where
  "group_rows ds = {d \<in> set ds. regroups (filter (\<lambda>x. device_key x = device_key d) ds)}"

lemma regroup_rows:
  assumes "distinct (map dv_id ds)" and "gs = filter regroups (group_devices ds)"
  shows "(\<Union>g \<in> set gs. set g) = group_rows ds" and "dv_id ` set (map survivor gs) \<subseteq> dv_id ` group_rows ds"
    and "set (concat (map gone_ids gs)) = dv_id ` group_rows ds - dv_id ` set (map survivor gs)"
proof -
  have mem: "g \<in> set gs \<longleftrightarrow> g \<in> set (group_devices ds) \<and> regroups g" for g using assms(2) by auto
  have own: "g = filter (\<lambda>x. device_key x = device_key d) ds" if "g \<in> set gs" "d \<in> set g" for g d
    using group_merge(2,8) [OF _ assms(1)] that mem by metis
  show rows: "(\<Union>g \<in> set gs. set g) = group_rows ds"
  proof (intro equalityI subsetI)
    fix d assume "d \<in> (\<Union>g \<in> set gs. set g)"
    then obtain g where g: "g \<in> set gs" "d \<in> set g" by blast
    then show "d \<in> group_rows ds" using own [OF g] group_merge(5) [OF _ assms(1)] mem by (auto simp: group_rows_def)
  next
    fix d assume d: "d \<in> group_rows ds"
    then have "filter (\<lambda>x. device_key x = device_key d) ds \<in> set gs" using group_of mem by (auto simp: group_rows_def)
    moreover have "d \<in> set (filter (\<lambda>x. device_key x = device_key d) ds)" using d by (simp add: group_rows_def)
    ultimately show "d \<in> (\<Union>g \<in> set gs. set g)" by blast
  qed
  show ids: "dv_id ` set (map survivor gs) \<subseteq> dv_id ` group_rows ds"
    unfolding rows [symmetric] using group_merge(1) [OF _ assms(1)] mem by (fastforce simp: image_UN)
  show "set (concat (map gone_ids gs)) = dv_id ` group_rows ds - dv_id ` set (map survivor gs)"
  proof -
    have one: "dv_id x = dv_id (survivor g) \<Longrightarrow> x \<in> set g' \<Longrightarrow> g' \<in> set gs \<Longrightarrow> g \<in> set gs \<Longrightarrow> g = g'" for x g g'
    proof -
      assume a: "dv_id x = dv_id (survivor g)" "x \<in> set g'" "g' \<in> set gs" "g \<in> set gs"
      obtain y where y: "y \<in> set g" "dv_id y = dv_id x" using group_merge(1) [OF _ assms(1)] a(1,4) mem by (metis imageE)
      have "x \<in> set ds" "y \<in> set ds" using group_merge(5) [OF _ assms(1)] a y mem by blast+
      then have "y = x" using y(2) assms(1) by (auto simp: distinct_map dest: inj_onD)
      then show "g = g'" using own [OF a(4) y(1)] own [OF a(3,2)] by simp
    qed
    have "set (gone_ids g) = dv_id ` set g - {dv_id (survivor g)}" if "g \<in> set gs" for g
      using group_merge(6) [OF _ assms(1)] that mem by blast
    then have "set (concat (map gone_ids gs)) = (\<Union>g \<in> set gs. dv_id ` set g - {dv_id (survivor g)})" by simp
    also have "\<dots> = (\<Union>g \<in> set gs. dv_id ` set g) - dv_id ` set (map survivor gs)"
      using one by (auto simp: image_iff) (metis one)+
    finally show ?thesis by (simp add: rows [symmetric] image_UN)
  qed
qed

lemma grounded_key: "grounded rs d \<Longrightarrow> \<exists>r \<in> set rs. device_key r = device_key d"
  unfolding grounded_def by blast

lemma grounded_mono: "grounded rs d \<Longrightarrow> set rs \<subseteq> set qs \<Longrightarrow> grounded qs d"
  unfolding grounded_def by blast

lemma survivors_rows:
  assumes "distinct (map dv_id ds)"
  shows "\<forall>r \<in> set ds. \<exists>d \<in> survivor ` set (group_devices ds). covers d r"
    and "\<forall>d \<in> survivor ` set (group_devices ds). grounded ds d"
proof -
  show "\<forall>r \<in> set ds. \<exists>d \<in> survivor ` set (group_devices ds). covers d r"
  proof
    fix r assume r: "r \<in> set ds"
    let ?g = "filter (\<lambda>d. device_key d = device_key r) ds"
    have "r \<in> set ?g" using r by simp
    then have "covers (survivor ?g) r" using group_merge(3) [OF group_of [OF r] assms] by blast
    then show "\<exists>d \<in> survivor ` set (group_devices ds). covers d r" using group_of [OF r] by blast
  qed
  show "\<forall>d \<in> survivor ` set (group_devices ds). grounded ds d"
    using group_merge(4,5) [OF _ assms] grounded_mono by blast
qed

lemma survivor_keys:
  assumes "distinct (map dv_id ds)"
  shows "inj_on device_key (survivor ` set (group_devices ds))"
proof (intro inj_onI)
  fix d r assume "d \<in> survivor ` set (group_devices ds)" "r \<in> survivor ` set (group_devices ds)" "device_key d = device_key r"
  then obtain g h where gh: "g \<in> set (group_devices ds)" "d = survivor g" "h \<in> set (group_devices ds)" "r = survivor h" by blast
  have "g = filter (\<lambda>x. device_key x = device_key d) ds" using group_merge(8) [OF gh(1) assms, folded gh(2)] .
  also have "\<dots> = filter (\<lambda>x. device_key x = device_key r) ds" by (simp only: \<open>device_key d = device_key r\<close>)
  also have "\<dots> = h" using group_merge(8) [OF gh(3) assms, folded gh(4)] by (rule sym)
  finally have "g = h" .
  then show "d = r" unfolding gh(2,4) by (simp only:)
  qed

lemma pending_survivors:
  assumes ds: "set ds \<subseteq> set (devices db)" "distinct (map dv_id ds)"
    and sub: "set (devices db') \<subseteq> survivor ` set (group_devices ds) \<union> (set (devices db) - set ds)"
  shows "card (pending_rows a db') \<le> card (pending_rows a db)"
proof -
  let ?new = "{d \<in> survivor ` set (group_devices ds). dv_app d = a \<and> dv_status d = device_pending}"
  let ?old = "{d \<in> set ds. dv_app d = a \<and> dv_status d = device_pending}" and ?rest = "pending_rows a db - set ds"
  define f where "f d = (SOME r. r \<in> ?old \<and> device_key r = device_key d)" for d
  have f: "f d \<in> ?old \<and> device_key (f d) = device_key d" if "d \<in> ?new" for d
  proof -
    have "grounded ds d" using that survivors_rows(2) [OF ds(2)] by blast
    then obtain r where "r \<in> set ds" "device_key r = device_key d" "dv_status r = dv_status d" by (auto simp: grounded_def)
    then have "r \<in> ?old \<and> device_key r = device_key d" using that by (auto simp: device_key_def)
    then show ?thesis unfolding f_def by (rule someI)
  qed
  have "inj_on f ?new"
  proof (intro inj_onI)
    fix d e assume d: "d \<in> ?new" and e: "e \<in> ?new" and eq: "f d = f e"
    have "device_key d = device_key e" using f [OF d] f [OF e] eq by metis
    then show "d = e" using survivor_keys [OF ds(2)] d e by (metis (mono_tags, lifting) inj_onD mem_Collect_eq)
  qed
  then have new: "card ?new \<le> card ?old" by (rule card_inj_on_le) (use f in auto)
  have "pending_rows a db' \<subseteq> ?new \<union> ?rest" using sub by (auto simp: pending_rows_def)
  then have "card (pending_rows a db') \<le> card (?new \<union> ?rest)" by (intro card_mono) (simp_all add: pending_rows_def)
  also have "\<dots> \<le> card ?new + card ?rest" by (rule card_Un_le)
  also have "\<dots> \<le> card ?old + card ?rest" using new by simp
  also have "\<dots> = card (?old \<union> ?rest)" by (intro card_Un_disjoint [symmetric]) (auto simp: pending_rows_def)
  also have "?old \<union> ?rest = pending_rows a db" using ds(1) by (auto simp: pending_rows_def)
  finally show ?thesis .
qed

lemma merge_commit:
  assumes wf: "devices_wf (devices db)" and ds: "set ds \<subseteq> set (devices db)" "distinct (map dv_id ds)"
    and gs: "gs = filter regroups (group_devices ds)"
    and flush: "flush_devices (map survivor gs) (concat (map gone_ids gs)) db = Some db'"
  shows "only_devices db db' \<and> devices_kept db db' \<and> survivor ` set (group_devices ds) \<subseteq> set (devices db') \<and>
    set (devices db') \<subseteq> survivor ` set (group_devices ds) \<union> (set (devices db) - set ds)"
proof -
  let ?ups = "set (map survivor gs)" and ?all = "survivor ` set (group_devices ds)"
  note rows = regroup_rows [OF ds(2) gs]
  have groups: "group_rows ds \<subseteq> set ds" by (auto simp: group_rows_def)
  have "distinct (map dv_id (map survivor gs))"
    unfolding gs using survivors_distinct [OF ds(2)] distinct_map_filter [of "dv_id \<circ> survivor"] by simp
  moreover have "dv_id ` ?ups \<subseteq> dv_id ` set (devices db)" using rows(2) groups ds(1) by blast
  ultimately have f: "only_devices db db'" "devices_wf (devices db')"
    "set (devices db') = {r. (r \<in> ?ups \<or> (r \<in> set (devices db) \<and> dv_id r \<notin> dv_id ` ?ups)) \<and> dv_id r \<notin> set (concat (map gone_ids gs))}"
    using flush_rows [OF flush wf] by blast+
  have keep: "r \<in> set (devices db')" if r: "r \<in> set (devices db)" "r \<notin> group_rows ds" for r
  proof -
    have "dv_id r \<notin> dv_id ` group_rows ds" using r groups ds(1) same_id [OF wf] by blast
    then have "dv_id r \<notin> dv_id ` ?ups" "dv_id r \<notin> set (concat (map gone_ids gs))"
      using rows(2) unfolding rows(3) by blast+
    then show ?thesis using r(1) unfolding f(3) by simp
  qed
  have all: "?all \<subseteq> set (devices db')"
  proof
    fix d assume "d \<in> ?all"
    then obtain g where g: "g \<in> set (group_devices ds)" "d = survivor g" by blast
    show "d \<in> set (devices db')"
    proof (cases "regroups g")
      case True
      then have "d \<in> ?ups" using g gs by auto
      then have "dv_id d \<notin> set (concat (map gone_ids gs))" unfolding rows(3) by simp
      then show ?thesis using \<open>d \<in> ?ups\<close> unfolding f(3) by simp
    next
      case False
      then have single: "g = [d]" using group_merge(7) [OF g(1) ds(2)] g(2) by simp
      have "filter (\<lambda>x. device_key x = device_key d) ds = g"
        using group_merge(8) [OF g(1) ds(2), folded g(2)] by (rule sym)
      then have "d \<notin> group_rows ds" using False by (simp add: group_rows_def)
      moreover have "d \<in> set g" by (subst single) simp
      ultimately show ?thesis using group_merge(5) [OF g(1) ds(2)] ds(1) by (intro keep) blast+
    qed
  qed
  have cover: "\<exists>d \<in> set (devices db'). covers d r" if "r \<in> set (devices db)" for r
    using survivors_rows(1) [OF ds(2)] all keep [OF that] covers_refl by (cases "r \<in> group_rows ds") (use groups in blast)+
  have ground: "grounded (devices db) d" if "d \<in> set (devices db')" for d
  proof (cases "d \<in> set (devices db)")
    case False
    then have "d \<in> ?all" using that gs unfolding f(3) by auto
    then show ?thesis using survivors_rows(2) [OF ds(2)] grounded_mono ds(1) by blast
  qed (rule grounded_self)
  have "d \<in> ?all" if d: "d \<in> set (devices db')" "d \<in> set ds" for d
  proof (cases "d \<in> ?ups")
    case False
    have "dv_id d \<notin> dv_id ` group_rows ds \<or> d \<in> ?ups" using d(1) unfolding f(3) rows(3) by blast
    then have "d \<notin> group_rows ds" using False by blast
    then have single: "\<not> regroups (filter (\<lambda>x. device_key x = device_key d) ds)" using d(2) by (simp add: group_rows_def)
    let ?g = "filter (\<lambda>x. device_key x = device_key d) ds"
    have "?g = [survivor ?g]" by (rule group_merge(7) [OF group_of [OF d(2)] ds(2) single])
    moreover have "d \<in> set ?g" using d(2) by simp
    ultimately have "d = survivor ?g" by (metis empty_iff list.set(1) set_ConsD)
    then show ?thesis using group_of [OF d(2)] by blast
  qed (use gs in auto)
  moreover have "?ups \<subseteq> ?all" using gs by auto
  ultimately have sub: "set (devices db') \<subseteq> ?all \<union> (set (devices db) - set ds)" unfolding f(3) by blast
  have "card (pending_rows a db') \<le> card (pending_rows a db)" for a
    by (rule pending_survivors [OF ds sub])
  then show ?thesis using f(1,2) all sub cover ground by (simp add: devices_kept_def)
qed

lemma merge_kept:
  assumes wf: "devices_wf (devices db)" and ds: "set ds \<subseteq> set (devices db)" "distinct (map dv_id ds)"
    and run: "merge_device_duplicates ds db = (ss, db')"
  shows "only_devices db db'" and "devices_kept db db'" and "set ss \<subseteq> set (devices db')"
    and "\<forall>r \<in> set ds. \<exists>d \<in> set ss. covers d r" and "\<forall>d \<in> set ss. grounded ds d"
    and "db' = db \<or> set (devices db') \<subseteq> set ss \<union> (set (devices db) - set ds)"
proof -
  let ?gs = "filter regroups (group_devices ds)"
  consider (same) "?gs = []" "ss = map survivor (group_devices ds)" "db' = db"
    | (commit) "flush_devices (map survivor ?gs) (concat (map gone_ids ?gs)) db = Some db'" "ss = map survivor (group_devices ds)"
    | (refused) "ss = dedupe_devices_in_memory ds" "db' = db"
    using run unfolding merge_form Let_def by (auto split: if_splits option.splits)
  then have "only_devices db db' \<and> devices_kept db db' \<and> set ss \<subseteq> set (devices db') \<and>
    (\<forall>r \<in> set ds. \<exists>d \<in> set ss. covers d r) \<and> (\<forall>d \<in> set ss. grounded ds d) \<and>
    (db' = db \<or> set (devices db') \<subseteq> set ss \<union> (set (devices db) - set ds))"
  proof cases
    case same
    have "survivor ` set (group_devices ds) \<subseteq> set ds"
    proof
      fix d assume "d \<in> survivor ` set (group_devices ds)"
      then obtain g where g: "g \<in> set (group_devices ds)" "d = survivor g" by blast
      then have "g = [d]" using same(1) group_merge(7) [OF g(1) ds(2)] by (simp add: filter_empty_conv)
      then have "d \<in> set g" by simp
      then show "d \<in> set ds" using group_merge(5) [OF g(1) ds(2)] by blast
    qed
    then show ?thesis using survivors_rows [OF ds(2)] ds(1) wf by (simp add: same(2,3) kept_refl)
  next
    case commit
    then show ?thesis using merge_commit [OF wf ds refl commit(1)] survivors_rows [OF ds(2)] by simp
  next
    case refused
    have sub: "set ss \<subseteq> set ds" unfolding refused(1) by (rule dedupe_set)
    moreover have "\<forall>r \<in> set ds. \<exists>d \<in> set ss. covers d r" unfolding refused(1) using dedupe_covers by blast
    ultimately show ?thesis using wf ds(1) grounded_self unfolding refused(2) by (simp add: kept_refl) blast
  qed
  then show "only_devices db db'" "devices_kept db db'" "set ss \<subseteq> set (devices db')"
    "\<forall>r \<in> set ds. \<exists>d \<in> set ss. covers d r" "\<forall>d \<in> set ss. grounded ds d"
    "db' = db \<or> set (devices db') \<subseteq> set ss \<union> (set (devices db) - set ds)" by blast+
qed

lemma keep_unseen_keys: "inj_on device_key (set (keep_unseen seen ds)) \<and> (\<forall>d \<in> set (keep_unseen seen ds). device_key d \<notin> set seen)"
proof (induction seen ds rule: keep_unseen.induct)
  case (2 seen d ds)
  show ?case
  proof (cases "device_key d \<in> set seen")
    case True
    then show ?thesis using 2 by simp
  next
    case False
    then have "inj_on device_key (set (keep_unseen (device_key d # seen) ds))"
      "device_key d \<notin> device_key ` set (keep_unseen (device_key d # seen) ds)"
      "\<forall>x \<in> set (keep_unseen (device_key d # seen) ds). device_key x \<notin> set seen"
      using "2.IH"(2) by (simp_all add: image_iff) metis
    then show ?thesis using False by (simp add: inj_on_insert) blast
  qed
qed simp

lemma merge_keys:
  assumes "distinct (map dv_id ds)" and "merge_device_duplicates ds db = (ss, db')"
  shows "inj_on device_key (set ss)"
proof -
  have "inj_on device_key (survivor ` set (group_devices ds))" by (rule survivor_keys [OF assms(1)])
  moreover have "inj_on device_key (set (dedupe_devices_in_memory ds))"
    unfolding dedupe_devices_in_memory_def using keep_unseen_keys by blast
  ultimately show ?thesis using assms(2) unfolding merge_form Let_def by (auto split: if_splits option.splits)
qed

lemma flush_one:
  assumes "flush_devices [d] [] db = Some db'" and "devices_wf (devices db)" and "r \<in> set (devices db)" and "dv_id d = dv_id r"
  shows "only_devices db db'" and "devices_wf (devices db')" and "set (devices db') = insert d (set (devices db) - {r})"
proof -
  have f: "only_devices db db' \<and> devices_wf (devices db') \<and>
      set (devices db') = {x. (x \<in> set [d] \<or> (x \<in> set (devices db) \<and> dv_id x \<notin> dv_id ` set [d])) \<and> dv_id x \<notin> set ([] :: int list)}"
    using assms by (intro flush_rows) auto
  then show "only_devices db db'" "devices_wf (devices db')" by blast+
  show "set (devices db') = insert d (set (devices db) - {r})"
    using f assms(3,4) same_id [OF assms(2) _ assms(3)] by auto
qed

lemma flush_one_kept:
  assumes "flush_devices [d] [] db = Some db'" and "devices_wf (devices db)" and "r \<in> set (devices db)" and "dv_id d = dv_id r"
    and "covers d r" and "grounded [r] d"
  shows "only_devices db db'" and "devices_kept db db'" and "d \<in> set (devices db')"
proof -
  note f = flush_one [OF assms(1-4)]
  show "only_devices db db'" "d \<in> set (devices db')" using f by simp_all
  have "grounded (devices db) d" using assms(3,6) grounded_mono by fastforce
  moreover have "card (pending_rows a db') \<le> card (pending_rows a db)" for a
    using f(3) assms(3,5,6) by (intro replaced_pending [of db' d db "{r}"]) (auto simp: pending_rows_def grounded_def covers_def device_key_def)
  ultimately show "devices_kept db db'"
    unfolding devices_kept_def f(3) using f(2) assms(5) grounded_self covers_refl by blast
qed

lemma siblings_in: "d \<in> set (list_device_siblings db a i) \<longleftrightarrow> d \<in> set (devices db) \<and> device_key d = (a, i)"
  by (auto simp: list_device_siblings_def device_key_def)

lemma siblings_distinct: "devices_wf (devices db) \<Longrightarrow> distinct (map dv_id (list_device_siblings db a i))"
  by (simp add: devices_wf_def list_device_siblings_def distinct_map_filter)

lemma clean_covers: "covers (clean_key d) d" "grounded [d] (clean_key d)"
  by (simp_all add: covers_def grounded_def)

lemma collapse_kept:
  assumes wf: "devices_wf (devices db)" and sibs: "list_device_siblings db a i \<noteq> []"
    and run: "collapse_siblings_for_device a i keep db = (d, db')"
  shows "only_devices db db'" and "devices_kept db db'" and "d \<in> set (devices db')" and "device_key d = (a, i)"
    and "\<forall>r \<in> set (list_device_siblings db a i). covers d r" and "grounded (list_device_siblings db a i) d"
    and "db' = db \<or> set (devices db') \<subseteq> insert d (set (devices db) - set (list_device_siblings db a i))"
proof -
  let ?sibs = "list_device_siblings db a i"
  have "only_devices db db' \<and> devices_kept db db' \<and> d \<in> set (devices db') \<and> (\<forall>r \<in> set ?sibs. covers d r) \<and> grounded ?sibs d \<and>
    (db' = db \<or> set (devices db') \<subseteq> insert d (set (devices db) - set ?sibs))"
  proof (cases "length ?sibs \<le> 1")
    case True
    then obtain r where r: "?sibs = [r]" using sibs by (metis One_nat_def le_Suc_eq length_0_conv le_zero_eq length_Suc_conv)
    then have mem: "r \<in> set (devices db)" using siblings_in [of r db a i] by simp
    consider (same) "d = r" "db' = db" | (clean) "d = clean_key r" "flush_devices [clean_key r] [] db = Some db'"
      using run r by (auto simp: collapse_siblings_for_device_def Let_def split: if_splits option.splits)
    then show ?thesis
    proof cases
      case same
      then show ?thesis using kept_refl [OF wf] mem by (simp add: r grounded_self)
    next
      case clean
      have "set (devices db') = insert d (set (devices db) - {r})"
        using flush_one(3) [OF clean(2) wf mem] clean(1) by simp
      then show ?thesis using clean flush_one_kept [OF clean(2) wf mem] clean_covers by (simp add: r)
    qed
  next
    case False
    then obtain ss where m: "merge_device_duplicates ?sibs db = (ss, db')" "d = (case ss of x # _ \<Rightarrow> x | [] \<Rightarrow> keep)"
      using run by (auto simp: collapse_siblings_for_device_def Let_def split: prod.splits)
    have in_db: "set ?sibs \<subseteq> set (devices db)" using siblings_in by blast
    note k = merge_kept [OF wf in_db siblings_distinct [OF wf] m(1)]
    have "ss \<noteq> []" using k(4) sibs by (metis ex_in_conv set_empty)
    then have d: "d \<in> set ss" using m(2) by (cases ss) simp_all
    have key: "device_key x = (a, i)" if "x \<in> set ss" for x
      using k(5) that siblings_in grounded_key by metis
    have "x = d" if "x \<in> set ss" for x
      using that merge_keys [OF siblings_distinct [OF wf] m(1)] key d by (metis inj_onD)
    then have "set ss = {d}" using d by blast
    then show ?thesis using k d by simp
  qed
  then show "only_devices db db'" "devices_kept db db'" "d \<in> set (devices db')" "\<forall>r \<in> set ?sibs. covers d r" "grounded ?sibs d"
    "db' = db \<or> set (devices db') \<subseteq> insert d (set (devices db) - set ?sibs)"
    by blast+
  then show "device_key d = (a, i)" using siblings_in grounded_key by metis
qed

end
