(* ===== verification/EasLaws.thy ===== *)
theory EasLaws
  imports EasFold EasAuth
begin

text \<open>
  What the inventory of mail devices promises: an administrator's lock holds whatever clients and owners do, an armed
  gate lets in approved devices only, sightings are counted, and what the limits bound.
\<close>

section \<open>A sighting keeps the locks\<close>

definition locks_kept :: "'a edb \<Rightarrow> 'a edb \<Rightarrow> bool" where
  "locks_kept db db' \<longleftrightarrow> (devices_wf (devices db) \<longrightarrow>
     devices_wf (devices db') \<and> (\<forall>r \<in> set (devices db). \<exists>d \<in> set (devices db'). covers d r))"

interpretation locks: run_relation locks_kept
proof
  show "locks_kept s s" for s :: "'a edb" by (auto simp: locks_kept_def intro: covers_refl)
  show "locks_kept a c" if "locks_kept a b" "locks_kept b c" for a b c :: "'a edb"
    using that unfolding locks_kept_def by (meson covers_trans)
qed

lemma locks_refl [simp]: "locks_kept db db"
  by (rule locks.runs_refl)

lemma kept_locks: "devices_kept db db' \<Longrightarrow> locks_kept db db'"
  by (simp add: devices_kept_def locks_kept_def)

lemma same_locks: "devices db' = devices db \<Longrightarrow> locks_kept db db'"
  by (auto simp: locks_kept_def intro: covers_refl)

lemma claim_frame [simp]:
  "devices (snd (claim_sighting k ip db)) = devices db" "devices (forget_sighting k db) = devices db"
  by (simp_all add: claim_sighting_def forget_sighting_def Let_def split: option.split prod.split)

lemma quota_frame [simp]: "devices (snd (notify_quota_take a ip db)) = devices db"
  by (simp add: notify_quota_take_def Let_def case_prod_beta)

lemma notify_frame [simp]: "devices (maybe_notify_owner_new_pending d app db) = devices db"
  by (simp add: maybe_notify_owner_new_pending_def enqueue_mail_def Let_def case_prod_beta split: result.split bool.split)

lemma sighting_sel [simp]:
  "dv_id (apply_sighting_update u h ips s now d) = dv_id d" "device_key (apply_sighting_update u h ips s now d) = device_key d"
  "dv_blocked (apply_sighting_update u h ips s now d) = dv_blocked d" "dv_status (apply_sighting_update u h ips s now d) = dv_status d"
  "dv_user (apply_sighting_update u h ips s now d) = u" "dv_count (apply_sighting_update u h ips s now d) = dv_count d + max 1 h"
  by (simp_all add: apply_sighting_update_def device_key_def)

lemma sighting_covers: "covers (apply_sighting_update u h ips s now d) d" "grounded [d] (apply_sighting_update u h ips s now d)"
  by (simp_all add: covers_def grounded_def)

definition follows :: "device list \<Rightarrow> device \<Rightarrow> bool" where
  \<comment> \<open>a row that stands for all the rows of a device\<close>
  "follows sibs d \<longleftrightarrow> (\<forall>r \<in> set sibs. covers d r) \<and> grounded sibs d"

lemma follows_trans: "follows qs d \<Longrightarrow> \<forall>q \<in> set qs. grounded rs q \<Longrightarrow> \<forall>r \<in> set rs. \<exists>q \<in> set qs. covers q r \<Longrightarrow> follows rs d"
  unfolding follows_def by (meson covers_trans grounded_trans)

lemma siblings_kept:
  assumes "devices_kept db db'"
  shows "\<forall>q \<in> set (list_device_siblings db' a i). grounded (list_device_siblings db a i) q"
    and "\<forall>r \<in> set (list_device_siblings db a i). \<exists>q \<in> set (list_device_siblings db' a i). covers q r"
proof -
  show "\<forall>q \<in> set (list_device_siblings db' a i). grounded (list_device_siblings db a i) q"
    using assms unfolding devices_kept_def grounded_def by (metis siblings_in)
  show "\<forall>r \<in> set (list_device_siblings db a i). \<exists>q \<in> set (list_device_siblings db' a i). covers q r"
    using assms unfolding devices_kept_def covers_def by (metis siblings_in)
qed

lemma store_kept:
  assumes wf: "devices_wf (devices db)" and d: "d \<in> set (devices db)" "device_key d = (ap_id app, i)"
    and u: "dv_id d' = dv_id d" "covers d' d" "grounded [d] d'"
    and sibs: "follows sibs d" "sibs = list_device_siblings db0 (ap_id app) i" "devices_kept db0 db"
    and run: "store_sighting app d d' db = (e, db')"
  shows "devices_kept db db'" and "e \<in> set (devices db')" and "device_key e = (ap_id app, i)" and "follows sibs e"
proof -
  let ?sibs = "list_device_siblings db (ap_id app) i"
  have i: "dv_device d = i" using d(2) by (simp add: device_key_def)
  have ne: "?sibs \<noteq> []" using d siblings_in [of d db] by (metis list.set(1) empty_iff)
  have "devices_kept db db' \<and> e \<in> set (devices db') \<and> device_key e = (ap_id app, i) \<and> follows sibs e"
  proof (cases "flush_devices [d'] [] db")
    case None
    then have run: "collapse_siblings_for_device (ap_id app) i d db = (e, db')" using run by (simp add: store_sighting_def i)
    note c = collapse_kept [OF wf ne run]
    have "follows ?sibs e" using c(5,6) by (simp add: follows_def)
    then have "follows sibs e" unfolding sibs(2) using siblings_kept [OF sibs(3)] by (rule follows_trans)
    then show ?thesis using c by blast
  next
    case (Some x)
    then have e: "e = d'" "db' = x" using run by (simp_all add: store_sighting_def)
    have "follows sibs d'" using sibs(1) u(2,3) unfolding follows_def covers_def grounded_def by (auto simp: covers_def)
    then show ?thesis using flush_one_kept [OF Some wf d(1) u] d(2) u(2) by (simp add: e covers_def)
  qed
  then show "devices_kept db db'" "e \<in> set (devices db')" "device_key e = (ap_id app, i)" "follows sibs e" by blast+
qed

lemma kept_devices: "devices db' = devices db \<Longrightarrow> devices_kept a db' = devices_kept a db" "devices db' = devices db \<Longrightarrow> devices_kept db' a = devices_kept db a"
  by (simp_all add: devices_kept_def pending_rows_def)

lemma siblings_same: "devices db' = devices db \<Longrightarrow> list_device_siblings db' a i = list_device_siblings db a i"
  by (simp add: list_device_siblings_def)

lemma sighting_stored:
  assumes wf: "devices_wf (devices db)" and sibs: "list_device_siblings db (ap_id app) i \<noteq> []"
    and c: "collapse_siblings_for_device (ap_id app) i keep db = (d, db1)" and same: "devices db2 = devices db1"
    and run: "store_sighting app d (apply_sighting_update u h ips s now d) db2 = (e, db')"
  shows "devices_kept db db' \<and> e \<in> set (devices db') \<and> device_key e = (ap_id app, i) \<and>
    follows (list_device_siblings db (ap_id app) i) e"
proof -
  note k = collapse_kept [OF wf sibs c]
  have kept: "devices_kept db db2" using k(2) kept_devices(1) [OF same] by blast
  have f: "follows (list_device_siblings db (ap_id app) i) d" "d \<in> set (devices db2)" "devices_wf (devices db2)"
    using k(2,3,5,6) same by (simp_all add: devices_kept_def follows_def)
  note facts = f(3,2) k(4) sighting_sel(1) sighting_covers f(1) refl kept run
  note stored = store_kept [OF facts]
  show ?thesis using kept_trans [OF kept stored(1)] stored(2-4) by (intro conjI)
qed

lemma get_device_sibling: "get_device db a u i = Some d \<Longrightarrow> d \<in> set (list_device_siblings db a i)"
proof -
  assume g: "get_device db a u i = Some d"
  let ?e = "filter (\<lambda>d. dv_user d = u) (list_device_siblings db a i)"
    and ?l = "filter (\<lambda>d. ends_with (CHR 0x5C # u) (dv_user d)) (list_device_siblings db a i)"
  have "d = pick_device_winner ?e \<and> ?e \<noteq> [] \<or> d = pick_device_winner ?l \<and> ?l \<noteq> []"
    using g unfolding get_device_def Let_def by (auto split: if_splits)
  then have "d \<in> set ?e \<or> d \<in> set ?l" using winner_in by blast
  then show ?thesis by auto
qed

lemma sighting_known:
  assumes wf: "devices_wf (devices db)" and sibs: "list_device_siblings db (ap_id app) i \<noteq> []" and names: "u \<noteq> []" "i \<noteq> []"
  obtains d db' where "record_sighting app u i s db = (Ok (Some d), db')" and "devices_kept db db'" and "d \<in> set (devices db')"
    and "device_key d = (ap_id app, i)" and "follows (list_device_siblings db (ap_id app) i) d"
proof (cases "get_device db (ap_id app) u i")
  case None
  let ?db = "forget_sighting (ap_id app, u, i) db"
  obtain sib rest where sr: "list_device_siblings ?db (ap_id app) i = sib # rest"
    using sibs siblings_same [of ?db db] by (cases "list_device_siblings ?db (ap_id app) i") auto
  obtain d db1 where c: "collapse_siblings_for_device (ap_id app) i sib ?db = (d, db1)" by fastforce
  obtain e db' where st: "store_sighting app d (apply_sighting_update u 1 [] s (clock db1) d) db1 = (e, db')" by fastforce
  have run: "record_sighting app u i s db = (Ok (Some e), db')"
    using names by (simp add: record_sighting_def None create_device_def sr c st)
  have "devices_kept ?db db' \<and> e \<in> set (devices db') \<and> device_key e = (ap_id app, i) \<and>
      follows (list_device_siblings ?db (ap_id app) i) e"
    by (rule sighting_stored [OF _ _ c refl st]) (simp_all add: wf sr)
  then have "devices_kept db db'" "e \<in> set (devices db')" "device_key e = (ap_id app, i)"
    "follows (list_device_siblings db (ap_id app) i) e"
    using kept_devices(2) [of ?db db] siblings_same [of ?db db] by simp_all
  then show thesis using that run by blast
next
  case (Some d0)
  obtain d db1 where c: "collapse_siblings_for_device (ap_id app) i d0 db = (d, db1)" by fastforce
  note k = collapse_kept [OF wf sibs c]
  obtain w h ips db2 where cl: "claim_sighting (ap_id app, u, i) (sg_ip s) db1 = ((w, h, ips), db2)"
    by (metis prod_cases4 prod.exhaust)
  have same: "devices db2 = devices db1" using claim_frame(1) [of "(ap_id app, u, i)" "sg_ip s" db1] by (simp add: cl)
  show thesis
  proof (cases w)
    case False
    then have run: "record_sighting app u i s db = (Ok (Some d), db2)"
      using names by (simp add: record_sighting_def Some c cl)
    show thesis
      by (rule that [OF run]) (use k same kept_devices(1) [OF same, of db] in \<open>simp_all add: follows_def\<close>)
  next
    case True
    obtain e db' where st: "store_sighting app d (apply_sighting_update u h ips s (clock db2) d) db2 = (e, db')" by fastforce
    have run: "record_sighting app u i s db = (Ok (Some e), db')"
      using st names True by (simp add: record_sighting_def Some c cl)
    show thesis by (rule that [OF run]) (use sighting_stored [OF wf sibs c same st] in simp_all)
  qed
qed

lemma next_device_fresh: "d \<in> set ds \<Longrightarrow> dv_id d < next_device_id ds"
  by (induction ds) (auto simp: next_device_id_def)

lemma sighting_new:
  assumes wf: "devices_wf (devices db)" and sibs: "list_device_siblings db (ap_id app) i = []" and names: "u \<noteq> []" "i \<noteq> []"
    and run: "record_sighting app u i s db = (res, db')"
  shows "(\<exists>e. res = Raise e \<and> devices db' = devices db) \<or>
    (\<exists>d. res = Ok (Some d) \<and> devices db' = devices db @ [d] \<and> d = new_device app u i s db \<and> devices_wf (devices db') \<and>
      length (pending_of db (ap_id app)) < pending_max_per_app)"
proof -
  let ?db = "forget_sighting (ap_id app, u, i) db"
  have none: "get_device db (ap_id app) u i = None" using get_device_sibling [of db "ap_id app" u i] sibs by fastforce
  have sib: "list_device_siblings ?db (ap_id app) i = []" using sibs siblings_same [of ?db db] by simp
  let ?d = "new_device app u i s ?db"
  have new: "?d = new_device app u i s db"
    by (simp add: new_device_def realm_id_for_app_def forget_sighting_def Let_def)
  have "\<forall>r \<in> set (devices db). dv_id r \<noteq> dv_id ?d"
    using next_device_fresh [of _ "devices db"] by (fastforce simp: new_device_def)
  moreover have "\<forall>r \<in> set (devices db). \<not> same_place ?d r \<and> \<not> same_place r ?d"
    using sibs by (auto simp: list_device_siblings_def filter_empty_conv same_place_def new_device_def)
  ultimately have "devices_wf (devices db @ [?d])" using wf by (auto simp: devices_wf_def image_iff)
  moreover have "pending_of ?db (ap_id app) = pending_of db (ap_id app)" by (simp add: pending_of_def)
  then have "length (pending_of db (ap_id app)) < pending_max_per_app" if "assert_pending_capacity app (sg_ip s) ?db = Ok ()"
    using that by (auto simp: assert_pending_capacity_def split: if_splits)
  ultimately show ?thesis
    using run names new unfolding record_sighting_def Let_def
    by (cases "assert_pending_capacity app (sg_ip s) ?db") (auto simp: none create_device_def sib Let_def)
qed

lemma new_device_sel: "device_key (new_device app u i s db) = (ap_id app, i)" "dv_status (new_device app u i s db) = device_pending"
  "\<not> dv_blocked (new_device app u i s db)" "dv_count (new_device app u i s db) = 1"
  by (simp_all add: new_device_def device_key_def)

lemma sighting_locks: "locks_kept db (snd (record_sighting app u i s db))"
proof (cases "devices_wf (devices db) \<and> u \<noteq> [] \<and> i \<noteq> []")
  case True
  then have wf: "devices_wf (devices db)" and names: "u \<noteq> []" "i \<noteq> []" by blast+
  show ?thesis
  proof (cases "list_device_siblings db (ap_id app) i = []")
    case True
    obtain res db' where run: "record_sighting app u i s db = (res, db')" by fastforce
    show ?thesis
      using sighting_new [OF wf True names run] by (auto simp: run locks_kept_def intro: covers_refl)
  next
    case False
    show ?thesis by (rule sighting_known [OF wf False names, of s]) (simp add: kept_locks)
  qed
next
  case False
  then show ?thesis by (auto simp: locks_kept_def record_sighting_def intro: covers_refl)
qed

section \<open>Every operation keeps the locks\<close>

named_theorems lock_reach \<open>operations that keep the locks\<close>

lemma put_locks:
  assumes "devices_wf (devices db)" and "r \<in> set (devices db)" and "dv_id d = dv_id r" and "same_place d r"
  shows "devices_wf (devices (put_device d db))" and "set (devices (put_device d db)) = insert d (set (devices db) - {r})"
proof -
  have "\<not> device_conflict d db"
    using assms(1,2,4) assms(3) unfolding device_conflict_def list_ex_iff devices_wf_def same_place_def by metis
  then show "devices_wf (devices (put_device d db))" by (rule put_wf [OF assms(1)])
  have "dv_id d \<in> dv_id ` set (devices db)" using assms(2,3) by auto
  then show "set (devices (put_device d db)) = insert d (set (devices db) - {r})"
    using put_set same_id [OF assms(1)] assms(2,3) by auto
qed

lemma put_locks_kept:
  "devices_wf (devices db) \<Longrightarrow> r \<in> set (devices db) \<Longrightarrow> dv_id d = dv_id r \<Longrightarrow> same_place d r \<Longrightarrow> covers d r \<Longrightarrow>
   locks_kept db (put_device d db)"
  using put_locks [of db r d] covers_refl unfolding locks_kept_def by blast

definition stays :: "device \<Rightarrow> device \<Rightarrow> bool" where
  "stays d r \<longleftrightarrow> dv_id d = dv_id r \<and> same_place d r \<and> covers d r"

lemma stays_refl [simp]: "stays d d"
  by (simp add: stays_def same_place_def)

lemma fold_put_locks:
  assumes "devices_wf (devices db)" and "inj_on dv_id (set ds)" and id: "\<And>d. dv_id (f d) = dv_id d"
    and "\<forall>d \<in> set ds. \<exists>r \<in> set (devices db). stays (f d) r"
  shows "locks_kept db (fold put_device (map f ds) db)"
  using assms(1,2,4)
proof (induction ds arbitrary: db)
  case Nil
  then show ?case by simp
next
  case (Cons d ds)
  obtain r where r: "r \<in> set (devices db)" "stays (f d) r" using Cons.prems(3) by auto
  let ?db = "put_device (f d) db"
  have p: "devices_wf (devices ?db)" "set (devices ?db) = insert (f d) (set (devices db) - {r})"
    using put_locks [OF Cons.prems(1) r(1)] r(2) by (simp_all add: stays_def)
  have "\<exists>x \<in> set (devices ?db). stays (f e) x" if e: "e \<in> set ds" for e
  proof -
    obtain x where x: "x \<in> set (devices db)" "stays (f e) x" using Cons.prems(3) e by auto
    show ?thesis
    proof (cases "x = r")
      case False
      then show ?thesis using x p(2) by blast
    next
      case True
      then have "dv_id (f e) = dv_id (f d)" using x(2) r(2) by (simp add: stays_def)
      then have "e = d" using Cons.prems(2) e id by (simp add: inj_on_def)
      then show ?thesis using p(2) stays_refl by blast
    qed
  qed
  then have "locks_kept ?db (fold put_device (map f ds) ?db)"
    using Cons.prems(2) by (intro Cons.IH p(1)) auto
  moreover have "locks_kept db ?db"
    using put_locks_kept [OF Cons.prems(1) r(1)] r(2) by (simp add: stays_def)
  ultimately show ?case using locks.runs_trans by simp
qed

lemma device_key_upd [simp]:
  "device_key (d\<lparr>dv_status := a\<rparr>) = device_key d" "device_key (d\<lparr>dv_source := b\<rparr>) = device_key d"
  "device_key (d\<lparr>dv_by := c\<rparr>) = device_key d" "device_key (d\<lparr>dv_at := e\<rparr>) = device_key d"
  "device_key (d\<lparr>dv_note := c\<rparr>) = device_key d" "device_key (d\<lparr>dv_blocked := f\<rparr>) = device_key d"
  "device_key (d\<lparr>dv_name := c\<rparr>) = device_key d" "device_key (d\<lparr>dv_kc := c\<rparr>) = device_key d"
  by (simp_all add: device_key_def)

lemma decision_locks:
  assumes "r \<in> set (devices db)" and "stays d r" and "dv_blocked r \<longrightarrow> blocked"
  shows "locks_kept db (snd (apply_decision d st src actor note blocked act extra db))"
proof (cases "devices_wf (devices db)")
  case True
  let ?d = "d\<lparr>dv_status := st, dv_source := src, dv_by := Some actor, dv_at := Some (clock db), dv_note := note, dv_blocked := blocked\<rparr>"
  have "locks_kept db (put_device ?d db)"
    using assms(2,3) by (intro put_locks_kept [OF True assms(1)]) (simp_all add: stays_def covers_def same_place_def)
  then show ?thesis
    unfolding apply_decision_def Let_def snd_conv by (rule locks.runs_trans [OF _ same_locks [OF log_action_eas(2)]])
qed (simp add: locks_kept_def)

lemma block_locks [lock_reach]: "d \<in> set (devices db) \<Longrightarrow> locks_kept db (snd (admin_block_device d actor reason db))"
  using decision_locks [of d db d True] by (simp add: admin_block_device_def Let_def case_prod_beta)

lemma named_decision: "d \<in> set (devices db) \<Longrightarrow> stays e d \<Longrightarrow> (dv_blocked d \<longrightarrow> dv_blocked e) \<Longrightarrow> locks_kept db (snd (user_decision e st actor act db))"
  using decision_locks [of d db e False] by (auto simp: user_decision_def case_prod_beta)

lemma owner_locks [lock_reach]:
  "d \<in> set (devices db) \<Longrightarrow> locks_kept db (snd (user_approve_device d actor n db))"
  "d \<in> set (devices db) \<Longrightarrow> locks_kept db (snd (user_reject_device d actor db))"
  "d \<in> set (devices db) \<Longrightarrow> locks_kept db (snd (user_revoke_device d actor db))"
  unfolding user_approve_device_def user_reject_device_def user_revoke_device_def
  by (auto intro!: named_decision [of d db] simp: stays_def same_place_def covers_def device_key_def split: option.split)

lemma merge_locks [lock_reach]:
  assumes "set ds \<subseteq> set (devices db)" and "distinct (map dv_id ds)"
  shows "locks_kept db (snd (merge_device_duplicates ds db))"
proof (cases "devices_wf (devices db)")
  case True
  obtain ss db' where m: "merge_device_duplicates ds db = (ss, db')" by fastforce
  show ?thesis using kept_locks [OF merge_kept(2) [OF True assms m]] by (simp add: m)
qed (simp add: locks_kept_def)

lemma person_rows:
  "set (devices_for_identities keys kc db) \<subseteq> set (devices db)"
  "devices_wf (devices db) \<Longrightarrow> distinct (map dv_id (devices_for_identities keys kc db))"
  by (auto simp: devices_for_identities_def Let_def devices_wf_def distinct_map inj_on_def)

lemma link_stays [simp]: "stays (link_device kc realm d) d" "dv_id (link_device kc realm d) = dv_id d"
  by (simp_all add: link_device_def stays_def same_place_def covers_def device_key_def Let_def)

lemma link_locks:
  assumes "devices_wf (devices db)" and "set ds \<subseteq> set (devices db)"
  shows "locks_kept db (snd (link_devices_to_keycloak_user ds kc realm db))"
proof -
  have "inj_on dv_id (set ds)" using assms same_id by (meson inj_onI subsetD)
  moreover have "\<forall>d \<in> set ds. \<exists>r \<in> set (devices db). stays (link_device kc realm d) r" using assms(2) by (meson link_stays subsetD)
  ultimately have "locks_kept db (fold put_device (map (link_device kc realm) ds) db)"
    by (intro fold_put_locks assms(1)) simp_all
  then show ?thesis by (simp add: link_devices_to_keycloak_user_def)
qed

lemma person_locks:
  "locks_kept db (snd (case merge_device_duplicates (devices_for_identities keys kc db) db of
     (ds, db) \<Rightarrow> link_devices_to_keycloak_user ds kc' realm db))"
proof (cases "devices_wf (devices db)")
  case True
  obtain ss db' where m: "merge_device_duplicates (devices_for_identities keys kc db) db = (ss, db')" by fastforce
  note k = merge_kept [OF True person_rows(1) person_rows(2) [OF True] m]
  have "locks_kept db' (snd (link_devices_to_keycloak_user ss kc' realm db'))"
    using k(2,3) by (intro link_locks) (simp_all add: devices_kept_def)
  then show ?thesis using locks.runs_trans [OF kept_locks [OF k(2)]] by (simp add: m)
qed (simp add: locks_kept_def)

lemma portal_page_locks [lock_reach]: "locks_kept db (snd (portal_activesync_devices e u kc db))"
  using person_locks [where db = db and keys = "[opt_str e, opt_str u]" and kc = kc and kc' = kc and realm = None]
  by (simp add: portal_activesync_devices_def case_prod_beta)

lemma admin_page_locks [lock_reach]: "locks_kept db (snd (user_devices_context keys kc realm db))"
  by (simp add: user_devices_context_def person_locks)

lemma doubled_rows:
  assumes "devices_wf (devices db)" and "distinct keys"
  shows "distinct (map dv_id (concat (map (\<lambda>(a, i). list_device_siblings db a i) keys)))"
  using assms(2)
proof (induction keys)
  case (Cons k keys)
  have "dv_id d \<noteq> dv_id r" if "d \<in> set (list_device_siblings db (fst k) (snd k))" "r \<in> set (list_device_siblings db (fst k') (snd k'))" "k' \<in> set keys" for d r k'
    using that Cons.prems same_id [OF assms(1)] unfolding siblings_in by (metis distinct.simps(2) prod.collapse)
  then show ?case using Cons siblings_distinct [OF assms(1), of "fst k" "snd k"] by (auto simp: case_prod_beta)
qed simp

lemma reconcile_locks [lock_reach]: "locks_kept db (snd (reconcile_duplicate_devices n db))"
proof (cases "devices_wf (devices db)")
  case True
  let ?keys = "take n (filter (\<lambda>k. 1 < length (filter ((=) k) (map device_key (devices db)))) (dedup_from [] (map device_key (devices db))))"
  let ?ds = "concat (map (\<lambda>(a, i). list_device_siblings db a i) ?keys)"
  have "distinct (map dv_id ?ds)"
    by (intro doubled_rows [OF True] distinct_take distinct_filter distinct_dedup_from)
  moreover have "set ?ds \<subseteq> set (devices db)" using siblings_in by fastforce
  ultimately have "locks_kept db (snd (merge_device_duplicates ?ds db))" by (rule merge_locks [rotated])
  then show ?thesis
    by (simp add: reconcile_duplicate_devices_def Let_def case_prod_beta del: filter_map)
qed (simp add: locks_kept_def)

lemma enable_locks [lock_reach]: "locks_kept db (snd (enable_device_control app actor db))"
proof (cases "devices_wf (devices db) \<and> ap_activesync app")
  case True
  let ?chosen = "filter (\<lambda>d. \<not> dv_blocked d) (pv_pending (preview_device_control db app))"
  have in_db: "set ?chosen \<subseteq> set (devices db)" by (auto simp: preview_device_control_def Let_def)
  have "inj_on dv_id (set ?chosen)" using in_db True same_id by (meson inj_onI subsetD)
  moreover have "stays (backfill actor (clock db) d) d" if "\<not> dv_blocked d" for d
    using that by (simp add: backfill_def stays_def same_place_def covers_def)
  then have "\<forall>d \<in> set ?chosen. \<exists>r \<in> set (devices db). stays (backfill actor (clock db) d) r" using in_db by fastforce
  ultimately have l: "locks_kept db (fold put_device (map (backfill actor (clock db)) ?chosen) db)"
    using True by (intro fold_put_locks) (simp_all add: backfill_def)
  show ?thesis
    using True locks.runs_trans [OF l same_locks] by (simp add: enable_device_control_def Let_def set_control_def)
next
  case False
  then show ?thesis by (cases "ap_activesync app") (simp_all add: enable_device_control_def locks_kept_def)
qed

lemma disable_locks [lock_reach]: "locks_kept db (disable_device_control app actor db)"
  by (intro same_locks) (simp add: disable_device_control_def set_control_def)

lemma journal_devices [simp]:
  "devices (log_activesync act app actor q n db) = devices db" "devices (log_device_denial app' actor q r st db) = devices db"
  "devices (log_allow app' src actor q d db) = devices db" "devices (log_unidentified_device app' actor uri sg db) = devices db"
  by (simp_all add: log_activesync_def log_device_denial_def log_allow_def log_unidentified_device_def should_log_denial_def
      should_log_allow_def should_log_unidentified_def Let_def split: prod.split)

lemma evaluate_locks: "locks_kept db (snd (evaluate_device app actor q enforce db))"
proof -
  obtain res db' where r: "record_sighting app (normalize_user_key actor) (opt_str (eq_device q)) (sighting_of q) db = (res, db')" by fastforce
  have "locks_kept db db'" using sighting_locks [of db app "normalize_user_key actor" "opt_str (eq_device q)" "sighting_of q"] by (simp add: r)
  moreover have "locks_kept db x" if "devices x = devices db'" for x
    using locks.runs_trans [OF calculation same_locks [OF that]] .
  ultimately show ?thesis
    by (auto simp: evaluate_device_def Let_def r same_locks split: result.split option.split)
qed

lemma answer_locks: "locks_kept db (snd (gated_answer app src da actor user q enforce db))"
proof -
  obtain r db' where e: "evaluate_device app da q enforce db = (r, db')" by fastforce
  have l: "locks_kept db db'" using evaluate_locks [of db app da q enforce] by (simp add: e)
  then show ?thesis
    using locks.runs_trans [OF l same_locks] by (cases r) (auto simp: gated_answer_def e split: option.split)
qed

lemma rest_devices: "keeps_rest db db' \<Longrightarrow> devices db' = devices db"
  by (cases db; cases db') (simp add: keeps_rest_def)

lemma request_locks [lock_reach]: "locks_kept db (snd (activesync_auth env idp rq db))"
proof -
  have before: "locks_kept d (snd (activesync_auth_before_idp env rq d))" for d :: "'a edb"
  proof -
    have gate: "locks_kept d (snd (gated_answer app src u v w q b x))" if "devices x = devices d" for app src u v w q b x
      using locks.runs_trans [OF same_locks [OF that] answer_locks] .
    show ?thesis
      unfolding activesync_auth_before_idp_def Let_def
      by (intro locks.run_option locks.run_if locks.run_pair locks.run_snd locks_refl gate) (simp_all add: same_locks)
  qed
  have bg: "locks_kept d (snd (process_breakglass_auth_request a b c e f g h d))" for d :: "'a edb" and a b c e f g h
    by (intro same_locks rest_devices rest_process)
  have after: "locks_kept d (snd (activesync_auth_after_idp env rq app hs d))" for d :: "'a edb" and app hs
    unfolding activesync_auth_after_idp_def Let_def
    by (intro locks.run_option locks.run_if locks.run_pair locks.run_result locks.run_snd answer_locks bg locks_refl same_locks journal_devices)
  obtain b d where b: "activesync_auth_before_idp env rq db = (b, d)" by fastforce
  then have "locks_kept db d" using before [of db] by simp
  then show ?thesis
    using locks.runs_trans [OF _ after] by (cases b) (simp_all add: activesync_auth_def b)
qed

end
