(* ===== verification/EasClaims.thy ===== *)
theory EasClaims
  imports EasLaws
begin

text \<open>
  The inventory of mail devices as a system: requests of any client, pages, decisions of owners and administrators,
  in any order. What it promises of locks, of the armed gate, of the counters and of the limits.
\<close>

section \<open>The system\<close>







section \<open>What a 200 rests on\<close>







end
