(* ===== verification/EasLimits.thy ===== *)
theory EasLimits
  imports EasClaims
begin

text \<open>
  What is counted and what is limited: pending rows, sightings and notifications; and what the inventory does with
  rows that cannot be folded, with a device seen under another name, and with names that hold an underscore.
\<close>

section \<open>Pending rows\<close>

lemma pending_count: "devices_wf (devices db) \<Longrightarrow> length (pending_of db a) = card (pending_rows a db)"
proof -
  assume "devices_wf (devices db)"
  then have "distinct (pending_of db a)" by (auto simp: devices_wf_def pending_of_def distinct_map)
  moreover have "set (pending_of db a) = pending_rows a db" by (auto simp: pending_of_def pending_rows_def)
  ultimately show ?thesis using distinct_card by metis
qed

text \<open>C31: requests alone never take the rows of an application that wait for a decision above the cap: a sighting leaves
  at most one thousand of them, or no more than there were.\<close>

theorem pending_rows_capped:
  assumes wf: "devices_wf (devices db)"
  shows "length (pending_of (snd (record_sighting app u i s db)) a) \<le> max pending_max_per_app (length (pending_of db a))"
proof (cases "u = [] \<or> i = []")
  case True
  then show ?thesis by (simp add: record_sighting_def)
next
  case False
  obtain res db' where run: "record_sighting app u i s db = (res, db')" by fastforce
  show ?thesis
  proof (cases "list_device_siblings db (ap_id app) i = []")
    case True
    consider "devices db' = devices db"
      | d where "devices db' = devices db @ [d]" "dv_app d = ap_id app" "length (pending_of db (ap_id app)) < pending_max_per_app"
      using sighting_new [OF wf True _ _ run] False by (auto simp: new_device_def)
    then show ?thesis by cases (auto simp: run pending_of_def)
  next
    case sibs: False
    have "devices_kept db db'"
      by (rule sighting_known [OF wf sibs, of u s]) (use False run in auto)
    then show ?thesis using pending_count wf unfolding devices_kept_def by (metis le_max_iff_disj run snd_conv)
  qed
qed

section \<open>Counted sightings\<close>

definition counted :: "int \<Rightarrow> string \<Rightarrow> 'a edb \<Rightarrow> int" where
  "counted a i db = sum_list (map dv_count (list_device_siblings db a i))"

definition waiting_hits :: "sight_key \<Rightarrow> 'a edb \<Rightarrow> int" where
  "waiting_hits key db = (case map_of (sightings db) key of None \<Rightarrow> 0 | Some (_, hits, _) \<Rightarrow> hits)"

definition named_cleanly :: "device \<Rightarrow> bool" where
  "named_cleanly d \<longleftrightarrow> dv_user d \<noteq> [] \<and> normalize_user_key (dv_user d) = dv_user d"

lemma clean_named [simp]: "named_cleanly d \<Longrightarrow> clean_key d = d"
  by (simp add: named_cleanly_def clean_key_def)

lemma absorb_user: "named_cleanly w \<Longrightarrow> dv_user (absorb_device w l) = dv_user w"
  by (simp add: named_cleanly_def absorb_device_def or_text_def Let_def)

lemma absorb_all_user: "named_cleanly w \<Longrightarrow> dv_user (foldl absorb_device w ls) = dv_user w"
proof (induction ls arbitrary: w)
  case (Cons l ls)
  have "named_cleanly (absorb_device w l)" using Cons.prems by (simp add: named_cleanly_def absorb_user [OF Cons.prems])
  then show ?case using Cons.IH [of "absorb_device w l"] absorb_user [OF Cons.prems] by simp
qed simp

lemma dedup_const: "xs \<noteq> [] \<Longrightarrow> \<forall>x \<in> set xs. x = k \<Longrightarrow> dedup_from [] xs = [k]"
proof -
  have "\<forall>x \<in> set ys. x = k \<Longrightarrow> dedup_from [k] ys = []" for ys by (induction ys) auto
  then show "xs \<noteq> [] \<Longrightarrow> \<forall>x \<in> set xs. x = k \<Longrightarrow> dedup_from [] xs = [k]" by (cases xs) auto
qed

lemma one_group: "ds \<noteq> [] \<Longrightarrow> \<forall>d \<in> set ds. device_key d = k \<Longrightarrow> group_devices ds = [ds]"
  by (simp add: group_devices_def dedup_const [of _ k])

lemma only_sibling:
  assumes "devices_wf (devices db)" and "d \<in> set (devices db)" and "device_key d = (a, i)"
    and "set (devices db) \<subseteq> insert d {r. device_key r \<noteq> (a, i)}"
  shows "list_device_siblings db a i = [d]"
proof -
  have "set (list_device_siblings db a i) = {d}" using assms(2-4) siblings_in [of _ db a i] by blast
  moreover have "distinct (list_device_siblings db a i)" using siblings_distinct [OF assms(1)] unfolding distinct_map by blast
  ultimately show ?thesis by (cases "list_device_siblings db a i") (auto simp: distinct_length_2_or_more subset_singleton_iff)
qed

lemma fold_commits:
  assumes wf: "devices_wf (devices db)" and sibs: "list_device_siblings db a i = sibs" "1 < length sibs"
    and clean: "\<forall>r \<in> set sibs. named_cleanly r"
  obtains d db' where "collapse_siblings_for_device a i keep db = (d, db')" and "list_device_siblings db' a i = [d]"
    and "dv_count d = counted a i db"
proof -
  let ?m = "survivor sibs" and ?w = "pick_device_winner sibs"
  have in_db: "set sibs \<subseteq> set (devices db)" and key: "\<forall>d \<in> set sibs. device_key d = (a, i)" using sibs(1) siblings_in by blast+
  have ids: "distinct (map dv_id sibs)" using siblings_distinct [OF wf] sibs(1) by blast
  have ne: "sibs \<noteq> []" using sibs(2) by auto
  have groups: "group_devices sibs = [sibs]" by (rule one_group [OF ne key])
  have form: "merge_device_group sibs = (True, foldl absorb_device ?w (filter (\<lambda>d. dv_id d \<noteq> dv_id ?w) sibs),
      map dv_id (filter (\<lambda>d. dv_id d \<noteq> dv_id ?w) sibs))"
    using sibs(2) by (cases sibs rule: remdups_adj.cases) (simp_all add: merge_device_group_def Let_def)
  then have m: "regroups sibs" "?m = foldl absorb_device ?w (filter (\<lambda>d. dv_id d \<noteq> dv_id ?w) sibs)"
    by (simp_all add: regroups_def survivor_def)
  have w: "?w \<in> set sibs" by (rule winner_in [OF ne])
  have "dv_user ?m = dv_user ?w" using m(2) absorb_all_user clean w by metis
  moreover have "dv_id ?m = dv_id ?w \<and> device_key ?m = device_key ?w" unfolding m(2) using absorb_all by blast
  ultimately have "same_place ?m ?w" "dv_id ?m = dv_id ?w" by (simp_all add: same_place_def device_key_def)
  then have "\<not> device_conflict ?m db"
    using wf w in_db unfolding device_conflict_def list_ex_iff devices_wf_def same_place_def by (metis subsetD)
  then obtain db' where flush: "flush_devices (map survivor [sibs]) (concat (map gone_ids [sibs])) db = Some db'"
    by (simp add: flush_devices_def)
  have gs: "[sibs] = filter regroups (group_devices sibs)" by (simp add: groups m(1))
  have merge: "merge_device_duplicates sibs db = ([?m], db')"
    unfolding merge_form Let_def gs [symmetric] flush by (simp add: groups)
  have run: "collapse_siblings_for_device a i keep db = (?m, db')"
    using sibs by (simp add: collapse_siblings_for_device_def merge)
  note c = merge_commit [OF wf in_db ids gs flush] collapse_kept(2-4) [OF wf _ run]
  have "set (devices db') \<subseteq> insert ?m {r. device_key r \<noteq> (a, i)}"
  proof
    fix x assume "x \<in> set (devices db')"
    then have "x = ?m \<or> (x \<in> set (devices db) \<and> x \<notin> set sibs)" using c(1) groups by auto
    then show "x \<in> insert ?m {r. device_key r \<noteq> (a, i)}" using siblings_in [of x db a i] sibs(1) by auto
  qed
  then have "list_device_siblings db' a i = [?m]"
    using c(2-4) sibs(1) ne by (intro only_sibling) (simp_all add: devices_kept_def)
  moreover have "dv_count ?m = counted a i db"
    using merge_group(5) [OF group_split ne ids key] sibs(1) by (simp add: counted_def)
  ultimately show thesis using that run by blast
qed

lemma collapse_counts:
  assumes wf: "devices_wf (devices db)" and sibs: "list_device_siblings db a i \<noteq> []"
    and clean: "\<forall>r \<in> set (list_device_siblings db a i). named_cleanly r"
  obtains d db' where "collapse_siblings_for_device a i keep db = (d, db')" and "list_device_siblings db' a i = [d]"
    and "dv_count d = counted a i db" and "devices_wf (devices db')" and "sightings db' = sightings db"
proof -
  have "\<exists>d db'. collapse_siblings_for_device a i keep db = (d, db') \<and> list_device_siblings db' a i = [d] \<and> dv_count d = counted a i db"
  proof (cases "1 < length (list_device_siblings db a i)")
    case True
    show ?thesis by (rule fold_commits [OF wf refl True clean, of keep]) blast
  next
    case False
    then obtain r where r: "list_device_siblings db a i = [r]"
      using sibs by (cases "list_device_siblings db a i") (auto simp: not_less)
    then show ?thesis using clean by (simp add: collapse_siblings_for_device_def counted_def)
  qed
  then obtain d db' where d: "collapse_siblings_for_device a i keep db = (d, db')" "list_device_siblings db' a i = [d]"
    "dv_count d = counted a i db" by blast
  have "only_devices db db'" "devices_kept db db'" using collapse_kept(1,2) [OF wf sibs d(1)] by blast+
  then show thesis using that d by (auto simp: only_devices_def devices_kept_def)
qed

lemma store_counts:
  assumes wf: "devices_wf (devices db)" and one: "list_device_siblings db (ap_id app) i = [d]"
  obtains db' where "store_sighting app d (apply_sighting_update u h ips s now d) db = (apply_sighting_update u h ips s now d, db')"
    and "list_device_siblings db' (ap_id app) i = [apply_sighting_update u h ips s now d]"
    and "counted (ap_id app) i db' = dv_count d + max 1 h" and "sightings db' = sightings db"
proof -
  let ?d = "apply_sighting_update u h ips s now d"
  have d: "d \<in> set (devices db)" "device_key d = (ap_id app, i)" using siblings_in [of d db "ap_id app" i] one by simp_all
  have rest: "device_key r \<noteq> (ap_id app, i)" if "r \<in> set (devices db)" "r \<noteq> d" for r
    using siblings_in [of r db "ap_id app" i] one that by simp
  have "\<not> device_conflict ?d db"
    using rest d sighting_sel(2) [of u h ips s now d] unfolding device_conflict_def list_ex_iff same_place_def device_key_def
    by (metis sighting_sel(1))
  then obtain db' where flush: "flush_devices [?d] [] db = Some db'" by (simp add: flush_devices_def)
  note f = flush_one [OF flush wf d(1) sighting_sel(1)]
  have "list_device_siblings db' (ap_id app) i = [?d]"
    by (rule only_sibling) (use f rest d in auto)
  then show thesis
    using that [of db'] flush f(1) by (auto simp: store_sighting_def counted_def only_devices_def)
qed

lemma claim_counts:
  assumes "claim_sighting key ip db = ((w, h, ips), db')" and "length (sightings db) \<le> cache_max_entries" and "0 \<le> waiting_hits key db"
  shows "waiting_hits key db' + (if w then max 1 h else 0) = waiting_hits key db + 1"
  using assms
  by (auto simp: claim_sighting_def Let_def waiting_hits_def update_conv' split: option.splits if_splits prod.splits)

lemma create_quiet: "sightings (snd (create_device app u i s db)) = sightings db" if "list_device_siblings db (ap_id app) i = []"
proof -
  have q: "sightings (snd (notify_quota_take x y d)) = sightings d" for x y and d :: "'a edb"
    by (simp add: notify_quota_take_def Let_def case_prod_beta)
  have "sightings (maybe_notify_owner_new_pending d app db') = sightings db'" for d and db' :: "'a edb"
    by (simp add: maybe_notify_owner_new_pending_def enqueue_mail_def Let_def case_prod_beta q split: result.split bool.split)
  then show ?thesis by (simp add: create_device_def that Let_def split: result.split)
qed

text \<open>No request is lost from the count of a device although rows are written at most once a minute: when a request finds its row and
  the rows of the device carry clean names, the counts of the rows and the hits waiting in memory grow by one
  together; under a name the device was not seen with, the count grows by one and the hits that waited under that
  name are dropped.\<close>

theorem sightings_counted:
  assumes wf: "devices_wf (devices db)" and clean: "\<forall>r \<in> set (list_device_siblings db (ap_id app) i). named_cleanly r"
    and names: "u \<noteq> []" "i \<noteq> []" and room: "length (sightings db) \<le> cache_max_entries" and hits: "0 \<le> waiting_hits (ap_id app, u, i) db"
    and run: "record_sighting app u i s db = (Ok res, db')"
  shows "counted (ap_id app) i db' + waiting_hits (ap_id app, u, i) db' =
    counted (ap_id app) i db + 1 + (if get_device db (ap_id app) u i = None then 0 else waiting_hits (ap_id app, u, i) db)"
proof (cases "get_device db (ap_id app) u i")
  case None
  let ?db = "forget_sighting (ap_id app, u, i) db"
  have fdb: "devices ?db = devices db" "waiting_hits (ap_id app, u, i) ?db = 0"
    by (simp_all add: waiting_hits_def forget_sighting_def delete_conv')
  have same: "list_device_siblings ?db (ap_id app) i = list_device_siblings db (ap_id app) i" by (rule siblings_same [OF fdb(1)])
  have create: "create_device app u i s ?db = (Ok res, db')" using run names by (simp add: record_sighting_def None)
  show ?thesis
  proof (cases "list_device_siblings db (ap_id app) i")
    case Nil
    then obtain d where "devices db' = devices db @ [d]" "d = new_device app u i s db"
      using sighting_new [OF wf _ names run] by auto
    moreover have "sightings db' = sightings ?db" using create_quiet [of ?db app i u s] Nil same create by simp
    ultimately show ?thesis
      using Nil fdb(2) None new_device_sel(1,4) [of app u i s db]
      by (simp add: counted_def waiting_hits_def list_device_siblings_def device_key_def)
  next
    case (Cons sib rest)
    obtain d db1 where c: "collapse_siblings_for_device (ap_id app) i sib ?db = (d, db1)"
      "list_device_siblings db1 (ap_id app) i = [d]" "dv_count d = counted (ap_id app) i ?db" "devices_wf (devices db1)" "sightings db1 = sightings ?db"
      by (rule collapse_counts [of ?db "ap_id app" i sib]) (use wf clean same Cons fdb in auto)
    obtain db2 where "store_sighting app d (apply_sighting_update u 1 [] s (clock db1) d) db1 = (apply_sighting_update u 1 [] s (clock db1) d, db2)"
      "counted (ap_id app) i db2 = dv_count d + max 1 1" "sightings db2 = sightings db1"
      by (rule store_counts [OF c(4,2), of u 1 "[]" s "clock db1"])
    moreover from this have "db' = db2" using create by (simp add: create_device_def same Cons c(1))
    ultimately show ?thesis using c(3,5) None fdb(2) same by (simp add: counted_def waiting_hits_def)
  qed
next
  case (Some d0)
  have sibs: "list_device_siblings db (ap_id app) i \<noteq> []" using get_device_sibling [OF Some] by auto
  obtain d db1 where c: "collapse_siblings_for_device (ap_id app) i d0 db = (d, db1)"
    "list_device_siblings db1 (ap_id app) i = [d]" "dv_count d = counted (ap_id app) i db" "devices_wf (devices db1)" "sightings db1 = sightings db"
    by (rule collapse_counts [OF wf sibs clean])
  obtain w h ips db2 where cl: "claim_sighting (ap_id app, u, i) (sg_ip s) db1 = ((w, h, ips), db2)"
    by (metis prod_cases4 prod.exhaust)
  have n: "waiting_hits (ap_id app, u, i) db2 + (if w then max 1 h else 0) = waiting_hits (ap_id app, u, i) db + 1"
    using claim_counts [OF cl] room hits c(5) by (simp add: waiting_hits_def)
  have dev: "devices db2 = devices db1" using claim_frame(1) [of "(ap_id app, u, i)" "sg_ip s" db1] by (simp add: cl)
  have one: "list_device_siblings db2 (ap_id app) i = [d]" using siblings_same [OF dev] c(2) by simp
  show ?thesis
  proof (cases w)
    case False
    then have "db' = db2" using run names by (simp add: record_sighting_def Some c(1) cl)
    then show ?thesis using n one c(3) Some False by (simp add: counted_def)
  next
    case True
    obtain db3 where st: "store_sighting app d (apply_sighting_update u h ips s (clock db2) d) db2 = (apply_sighting_update u h ips s (clock db2) d, db3)"
      "counted (ap_id app) i db3 = dv_count d + max 1 h" "sightings db3 = sightings db2"
      by (rule store_counts [OF _ one, of u h ips s "clock db2"]) (use c(4) dev in simp)
    then have "db' = db3" using run names True by (simp add: record_sighting_def Some c(1) cl)
    then show ?thesis using n st(2,3) c(3) Some True by (simp add: waiting_hits_def)
  qed
qed

section \<open>A device under another name\<close>

text \<open>An approval follows the DeviceId a client sends, not the person it was given for: once a device is approved, any
  Basic name that was not seen with it passes the armed gate by sending the same DeviceId, and the row, with its
  approval, is then the row of that name. The password is left to the application.\<close>

theorem approval_follows_device_id:
  assumes wf: "devices_wf (devices db)" and row: "list_device_siblings db (ap_id app) i = [d]" "dv_status d = device_approved" "\<not> dv_blocked d" "named_cleanly d"
    and q: "q = eas_request_of env (request.truncate rq)" "eq_device q = Some i" "i \<noteq> []" "\<not> eq_exempt q"
    and app: "resolve_app_by_host db (eq_host q) = Some app" "ap_activesync app"
    and user: "basic_username (header_or (request.truncate rq) ''Authorization'') = Some user" "normalize_user_key user \<noteq> []"
    and other: "get_device db (ap_id app) (normalize_user_key user) i = None"
  shows "\<exists>e db'. activesync_auth env idp rq db = (Ok (eas_allowed ''basic'' user app), db') \<and>
    list_device_siblings db' (ap_id app) i = [e] \<and> dv_user e = normalize_user_key user \<and> dv_status e = device_approved"
proof -
  let ?u = "normalize_user_key user" and ?s = "sighting_of q"
  let ?db = "forget_sighting (ap_id app, ?u, i) db"
  have sib: "list_device_siblings ?db (ap_id app) i = [d]" using row(1) siblings_same [of ?db db] by simp
  have c: "collapse_siblings_for_device (ap_id app) i d ?db = (d, ?db)"
    using row(4) by (simp add: collapse_siblings_for_device_def sib)
  let ?e = "apply_sighting_update ?u 1 [] ?s (clock ?db) d"
  obtain db2 where st: "store_sighting app d ?e ?db = (?e, db2)" "list_device_siblings db2 (ap_id app) i = [?e]"
    by (rule store_counts [OF _ sib, of ?u 1 "[]" ?s "clock ?db"]) (use wf in simp)
  have "record_sighting app ?u i ?s db = (Ok (Some ?e), db2)"
    using q(3) user(2) by (simp add: record_sighting_def other create_device_def sib c st(1))
  then have ev: "evaluate_device app user q True db = ((Some ?e, None), db2)"
    using q(2-4) user(2) row(2,3) by (simp add: evaluate_device_def opt_str_def Let_def)
  let ?out = "log_allow app ''basic'' user q (Some ?e) db2"
  have run: "activesync_auth env idp rq db = (Ok (eas_allowed ''basic'' user app), ?out)"
    using q(3) by (simp add: activesync_auth_def activesync_auth_before_idp_def Let_def q(1) [symmetric] app user(1) gated_answer_def ev q(2) opt_str_def)
  have "list_device_siblings ?out (ap_id app) i = [?e]"
    using st(2) siblings_same [OF journal_devices(3)] by metis
  then show ?thesis using run row(2) by auto
qed

section \<open>Rows that cannot be folded\<close>

lemma score_inj: "device_merge_score a = device_merge_score b \<Longrightarrow> dv_id a = dv_id b"
  by (simp add: device_merge_score_def)

lemma dedupe_winner:
  assumes "sibs \<noteq> []" and "distinct (map dv_id sibs)" and "\<forall>d \<in> set sibs. device_key d = k"
  shows "dedupe_devices_in_memory sibs = [pick_device_winner sibs]"
proof -
  let ?w = "pick_device_winner sibs" and ?ss = "dedupe_devices_in_memory sibs"
  have w: "?w \<in> set sibs" by (rule winner_in [OF assms(1)])
  have one: "x = ?w" if x: "x \<in> set ?ss" for x
  proof -
    have "sorted (map device_merge_score (sort_key device_merge_score (rev sibs)))" by simp
    then have "sorted_wrt (\<lambda>a b. device_merge_score b \<le> device_merge_score a) (rev (sort_key device_merge_score (rev sibs)))"
      by (simp add: sorted_wrt_rev sorted_wrt_map)
    then have "\<exists>d \<in> set ?ss. device_key d = device_key ?w \<and> device_merge_score ?w \<le> device_merge_score d"
      unfolding dedupe_devices_in_memory_def using w by (intro keep_unseen_best) simp_all
    then obtain d where d: "d \<in> set ?ss" "device_merge_score ?w \<le> device_merge_score d" by blast
    have in_sibs: "d \<in> set sibs" "x \<in> set sibs" using d(1) x dedupe_set by blast+
    have "device_merge_score d = device_merge_score ?w" using winner_max [OF in_sibs(1)] d(2) by simp
    then have "d = ?w" using score_inj in_sibs(1) w assms(2) by (metis distinct_map inj_onD)
    moreover have "x = d"
      using keep_unseen_keys [of "[]" "rev (sort_key device_merge_score (rev sibs))"] d(1) x in_sibs assms(3)
      unfolding dedupe_devices_in_memory_def by (metis inj_onD)
    ultimately show ?thesis by simp
  qed
  moreover have "distinct ?ss"
  proof -
    have "distinct (keep_unseen seen ds)" for seen ds
      by (induction seen ds rule: keep_unseen.induct) (use keep_unseen_keys in fastforce)+
    then show ?thesis by (simp add: dedupe_devices_in_memory_def)
  qed
  moreover have "?ss \<noteq> []" using dedupe_covers [OF w] by auto
  ultimately show ?thesis by (cases ?ss rule: remdups_adj.cases) auto
qed

lemma merge_refused:
  assumes wf: "devices_wf (devices db)" and sibs: "list_device_siblings db a i = sibs"
    and l: "l \<in> set sibs" "l \<noteq> pick_device_winner sibs" "named_cleanly l" "normalize_user_key (dv_user (pick_device_winner sibs)) = dv_user l"
  shows "collapse_siblings_for_device a i keep db = (pick_device_winner sibs, db)"
proof -
  let ?w = "pick_device_winner sibs" and ?ls = "filter (\<lambda>d. dv_id d \<noteq> dv_id (pick_device_winner sibs)) sibs"
  have ne: "sibs \<noteq> []" and key: "\<forall>d \<in> set sibs. device_key d = (a, i)" and in_db: "set sibs \<subseteq> set (devices db)"
    using l(1) sibs siblings_in by auto
  have ids: "distinct (map dv_id sibs)" using siblings_distinct [OF wf] sibs by blast
  have w: "?w \<in> set sibs" by (rule winner_in [OF ne])
  then have many: "1 < length sibs" using l(1,2) by (cases sibs rule: remdups_adj.cases) auto
  have id: "dv_id l \<noteq> dv_id ?w" using same_id [OF wf] l(1,2) w in_db by blast
  have "merge_device_group sibs = (True, foldl absorb_device ?w ?ls, map dv_id ?ls)"
    using many by (cases sibs rule: remdups_adj.cases) (simp_all add: merge_device_group_def Let_def)
  then have m: "regroups sibs" "survivor sibs = foldl absorb_device ?w ?ls" by (simp_all add: regroups_def survivor_def)
  obtain x xs where xs: "?ls = x # xs" using l(1) id by (cases ?ls) (auto simp: filter_empty_conv)
  have "dv_user (absorb_device ?w x) = dv_user l"
    using l(3,4) by (simp add: absorb_device_def Let_def or_text_def named_cleanly_def)
  moreover from this have "named_cleanly (absorb_device ?w x)" using l(3) by (simp add: named_cleanly_def)
  ultimately have user: "dv_user (survivor sibs) = dv_user l" unfolding m(2) xs by (simp add: absorb_all_user)
  have "dv_id (survivor sibs) = dv_id ?w" "device_key (survivor sibs) = device_key l"
    unfolding m(2) using absorb_all [of ?w ?ls] key w l(1) by simp_all
  then have "device_conflict (survivor sibs) db"
    using user id l(1) in_db unfolding device_conflict_def list_ex_iff same_place_def device_key_def by (metis prod.inject subsetD)
  then have "merge_device_duplicates sibs db = (dedupe_devices_in_memory sibs, db)"
    by (simp add: merge_form one_group [OF ne key] m(1) flush_devices_def)
  then show ?thesis
    using many by (simp add: collapse_siblings_for_device_def sibs dedupe_winner [OF ne ids key])
qed

text \<open>When the row that wins the folding of a device still carries a domain prefix and the row of its clean name exists,
  the folding never goes through: the update of the name comes before the deletion of the other row and violates the
  unique key. Both rows stay, and no request under the clean name changes the inventory any more.\<close>

theorem unfoldable_rows_freeze:
  assumes wf: "devices_wf (devices db)" and w: "w = pick_device_winner (list_device_siblings db (ap_id app) i)"
    and l: "l \<in> set (list_device_siblings db (ap_id app) i)" "l \<noteq> w" "named_cleanly l" "normalize_user_key (dv_user w) = dv_user l"
  shows "devices (snd (record_sighting app (dv_user l) i s db)) = devices db"
proof -
  let ?sibs = "list_device_siblings db (ap_id app) i" and ?u = "dv_user l"
  have "?sibs \<noteq> []" using l(1) by auto
  then have w_in: "w \<in> set ?sibs" unfolding w by (rule winner_in)
  have collapse: "collapse_siblings_for_device (ap_id app) i keep d = (w, d)" if "devices d = devices db" for keep d
    using merge_refused [of d "ap_id app" i ?sibs l keep] wf l w that siblings_same [OF that] by simp
  have id: "dv_id l \<noteq> dv_id w" using same_id [OF wf] l(1,2) w_in siblings_in by metis
  have store: "store_sighting app w (apply_sighting_update ?u h ips s now w) d = (w, d)" if "devices d = devices db" for h ips now d
  proof -
    have "device_key l = device_key w" "l \<in> set (devices d)" using l(1) w_in siblings_in that by metis+
    then have "same_place (apply_sighting_update ?u h ips s now w) l" "l \<in> set (devices d)"
      by (simp_all add: same_place_def apply_sighting_update_def device_key_def)
    then have "device_conflict (apply_sighting_update ?u h ips s now w) d"
      using id by (auto simp: device_conflict_def list_ex_iff)
    moreover have "dv_device w = i" using w_in siblings_in [of w db "ap_id app" i] by (simp add: device_key_def)
    ultimately show ?thesis using collapse [OF that] by (simp add: store_sighting_def flush_devices_def)
  qed
  show ?thesis
  proof (cases "?u = [] \<or> i = []")
    case True
    then show ?thesis by (simp add: record_sighting_def)
  next
    case False
    obtain sib rest where sr: "?sibs = sib # rest" using \<open>?sibs \<noteq> []\<close> by (cases ?sibs) auto
    obtain wr h ips db2 where cl: "claim_sighting (ap_id app, ?u, i) (sg_ip s) db = ((wr, h, ips), db2)"
      by (metis prod_cases4 prod.exhaust)
    have dev: "devices db2 = devices db" using claim_frame(1) [of "(ap_id app, ?u, i)" "sg_ip s" db] by (simp add: cl)
    show ?thesis
    proof (cases "get_device db (ap_id app) ?u i")
      case None
      let ?db = "forget_sighting (ap_id app, ?u, i) db"
      have "list_device_siblings ?db (ap_id app) i = sib # rest" using siblings_same [of ?db db] sr by simp
      then show ?thesis
        using False by (simp add: record_sighting_def None create_device_def collapse store)
    next
      case (Some d0)
      then show ?thesis using False by (simp add: record_sighting_def collapse cl store [OF dev] dev)
    qed
  qed
qed

section \<open>Names with an underscore\<close>

lemma like_longer: "like None p s \<Longrightarrow> like None (CHR ''%'' # p) (pre @ s)"
  by (induction pre) simp_all

lemma like_self: "like None p p"
  by (induction p) simp_all

lemma like_any_char: "like None (a @ CHR ''_'' # b) (a @ c # b)"
  by (induction a) (simp_all add: like_self)

lemma sql_lower_parts: "sql_lower (a @ b) = sql_lower a @ sql_lower b" "sql_lower (c # b) = sql_lower_char c # sql_lower b"
  by (simp_all add: sql_lower_def)

lemma underscore_matches: "domain_form_like (a @ CHR ''_'' # b) (pre @ CHR 0x5C # (a @ c # b))"
proof -
  have "sql_lower_char (CHR ''%'') = CHR ''%''" "sql_lower_char (CHR ''_'') = CHR ''_''" "sql_lower_char (CHR 0x5C) = CHR 0x5C"
    by code_simp+
  then show ?thesis
    using like_longer [OF like_any_char [of "CHR 0x5C # sql_lower a" "sql_lower b" "sql_lower_char c"], of "sql_lower pre"]
    unfolding domain_form_like_def by (simp add: sql_lower_parts del: like.simps)
qed

text \<open>The rows listed for a person are found with LIKE and an unescaped name: a person whose name holds an underscore is
  shown, and from then on owns, the device that a person with another character in that place registered under a
  domain prefix.\<close>

theorem underscore_name_takes_device:
  assumes row: "devices db = [d]" "dv_user d = pre @ CHR 0x5C # (a @ c # b)" "dv_kc d = None"
    and other: "normalize_user_key (dv_user d) = a @ c # b" "c \<noteq> CHR ''_''"
    and person: "normalize_user_key (a @ CHR ''_'' # b) = a @ CHR ''_'' # b" "CHR 0x5C \<notin> set (a @ CHR ''_'' # b)" "opt_str kc \<noteq> []"
  shows "\<not> device_owned_by_session d (Some (a @ CHR ''_'' # b)) None kc \<and>
    (\<exists>e db'. portal_activesync_devices (Some (a @ CHR ''_'' # b)) None kc db = ([e], db') \<and> devices db' = [e] \<and>
      dv_id e = dv_id d \<and> dv_user e = a @ c # b \<and> device_owned_by_session e (Some (a @ CHR ''_'' # b)) None kc)"
proof -
  let ?k = "a @ CHR ''_'' # b"
  have none: "normalize_user_key [] = []" by code_simp
  have "\<not> ends_with (CHR 0x5C # ?k) (dv_user d)"
  proof
    assume "ends_with (CHR 0x5C # ?k) (dv_user d)"
    then obtain t where "pre @ CHR 0x5C # (a @ c # b) = t @ CHR 0x5C # ?k" by (auto simp: ends_with_iff row(2))
    then have "CHR 0x5C # (a @ c # b) = CHR 0x5C # ?k" by (subst (asm) append_eq_append_conv) simp_all
    then show False using other(2) by simp
  qed
  moreover have "dv_user d \<noteq> ?k" using person(2) row(2) by auto
  ultimately have before: "\<not> device_owned_by_session d (Some ?k) None kc"
    using row(3) person(1,3) by (auto simp: device_owned_by_session_def session_keys_def opt_str_def none)
  let ?c = "d\<lparr>dv_user := a @ c # b\<rparr>"
  have clean: "clean_key d = ?c" "?c \<noteq> d" using other(1) row(2) by (auto simp: clean_key_def dest: arg_cong [of _ _ dv_user] arg_cong [of _ _ length])
  have found: "devices_for_identities [?k, []] kc db = [d]"
    using underscore_matches by (simp add: devices_for_identities_def row(1) person(1) none) (simp add: row(2) underscore_matches)
  let ?db = "db\<lparr>devices := [?c]\<rparr>"
  have "flush_devices [?c] [] db = Some ?db"
    by (simp add: flush_devices_def device_conflict_def put_device_def update_rows_def row(1))
  then have "merge_device_duplicates [d] db = ([?c], ?db)"
    by (simp add: merge_device_duplicates_def group_devices_def merge_device_group_def clean)
  moreover have "link_devices_to_keycloak_user [?c] kc None ?db = ([?c\<lparr>dv_kc := kc\<rparr>], ?db\<lparr>devices := [?c\<lparr>dv_kc := kc\<rparr>]\<rparr>)"
    using person(3) row(3) by (simp add: link_devices_to_keycloak_user_def link_device_def opt_str_def opt_int_or_def put_device_def update_rows_def)
  moreover have "device_owned_by_session (?c\<lparr>dv_kc := kc\<rparr>) (Some ?k) None kc"
    using person(3) by (simp add: device_owned_by_session_def)
  ultimately show ?thesis
    using before found by (simp add: portal_activesync_devices_def opt_str_def [of "Some _"] opt_str_def [of None])
qed

section \<open>Notifications\<close>

fun quota_run :: "(string \<times> nat \<times> int) list \<Rightarrow> (string \<times> int list) list \<Rightarrow> (string \<times> int) list" where
  \<comment> \<open>the grants of a sequence of calls\<close>
  "quota_run [] events = []"
| "quota_run ((key, limit, now) # calls) events =
     (let (free, events) = quota_take key limit now events
      in (if free then [(key, now)] else []) @ quota_run calls events)"

definition logged :: "string \<Rightarrow> (string \<times> int list) list \<Rightarrow> int list" where
  "logged key events = (case map_of events key of None \<Rightarrow> [] | Some ts \<Rightarrow> ts)"

definition in_window :: "int \<Rightarrow> int list \<Rightarrow> int list" where
  "in_window now = filter (\<lambda>t. now - t < seconds notify_window_s)"

lemma quota_take_log:
  "quota_take key limit now events = (free, events') \<Longrightarrow>
     free = (length (in_window now (logged key events)) < limit) \<and>
     logged k events' = (if k = key then in_window now (logged key events) @ (if free then [now] else []) else logged k events)"
  by (auto simp: quota_take_def recent_events_def logged_def in_window_def Let_def update_conv' split: if_splits)

definition granted :: "string \<Rightarrow> (string \<times> int) list \<Rightarrow> int list" where
  "granted key gs = map snd (filter (\<lambda>g. fst g = key) gs)"

lemma window_mono: "t \<le> now \<Longrightarrow> length (in_window now (in_window t xs)) = length (in_window now xs)"
proof -
  assume "t \<le> now"
  then have "in_window now (in_window t xs) = in_window now xs" unfolding in_window_def filter_filter by (intro filter_cong) auto
  then show ?thesis by simp
qed

lemma quota_bound:
  assumes "\<forall>(k, l, t) \<in> set calls. k = key \<longrightarrow> l = limit" and "sorted (map (\<lambda>(k, l, t). t) calls)"
    and "\<forall>x \<in> set (logged key events). \<forall>(k, l, t) \<in> set calls. x \<le> t"
    and "\<forall>(k, l, t) \<in> set calls. t \<le> now" and "length (in_window now (logged key events)) \<le> limit"
  shows "length (in_window now (logged key events @ granted key (quota_run calls events))) \<le> limit"
  using assms
proof (induction calls arbitrary: events)
  case Nil
  then show ?case by (simp add: granted_def)
next
  case (Cons call calls)
  obtain k l t where call: "call = (k, l, t)" by (cases call)
  obtain free ev where take: "quota_take k l t events = (free, ev)" by fastforce
  note log = quota_take_log [OF take]
  show ?case
  proof (cases "k = key")
    case False
    then have "logged key ev = logged key events" using log by auto
    then show ?thesis using Cons.IH [of ev] Cons.prems False by (simp add: call take granted_def)
  next
    case True
    then have l: "l = limit" using Cons.prems(1) by (simp add: call)
    have ev: "logged key ev = in_window t (logged key events) @ (if free then [t] else [])" using log True by simp
    have t: "t \<le> now" using Cons.prems(4) by (simp add: call)
    have "length (in_window now (logged key ev)) \<le> limit"
    proof (cases free)
      case True
      have "length (in_window now (logged key events)) \<le> length (in_window t (logged key events))"
        unfolding in_window_def using t by (intro length_filter_mono) auto
      also have "\<dots> < limit" using quota_take_log [OF take, of k] True l \<open>k = key\<close> by blast
      finally have "length (in_window now (logged key events)) < limit" .
      then show ?thesis using window_mono [OF t, of "logged key events"] by (simp add: ev True in_window_def)
    next
      case False
      then show ?thesis using window_mono [OF t, of "logged key events"] Cons.prems(5) by (simp add: ev)
    qed
    moreover have "\<forall>x \<in> set (logged key ev). \<forall>(k, l, t) \<in> set calls. x \<le> t"
      using Cons.prems(2,3) by (auto simp: ev call in_window_def split: if_splits)
    ultimately have "length (in_window now (logged key ev @ granted key (quota_run calls ev))) \<le> limit"
      using Cons.prems by (intro Cons.IH) (auto simp: call)
    moreover have "length (in_window now (in_window t (logged key events))) = length (in_window now (logged key events))"
      by (rule window_mono [OF t])
    moreover have "granted key (quota_run (call # calls) events) = (if free then [t] else []) @ granted key (quota_run calls ev)"
      using True take by (simp add: call granted_def)
    moreover have app: "in_window now (xs @ ys) = in_window now xs @ in_window now ys" for xs ys by (simp add: in_window_def)
    ultimately show ?thesis unfolding ev by (cases free) simp_all
  qed
qed

text \<open>Mail to an address is limited whatever the requests are: among calls of the quota in the order of the clock, with any
  other keys in between, at most \<open>limit\<close> are granted to a key within any hour (three per recipient, ten per source
  address).\<close>

theorem notifications_limited:
  assumes "\<forall>(k, l, t) \<in> set calls. k = key \<longrightarrow> l = limit" and "sorted (map (\<lambda>(k, l, t). t) calls)" and "\<forall>(k, l, t) \<in> set calls. t \<le> now"
  shows "length (filter (\<lambda>t. now - t < seconds notify_window_s) (granted key (quota_run calls []))) \<le> limit"
  using quota_bound [of calls key limit "[]" now] assms by (simp add: logged_def in_window_def)

end
