(* ===== verification/EasExample.thy ===== *)
theory EasExample
  imports PortalExample EasLimits
begin

text \<open>
  A small inventory of mail devices over the sample portal, and the instances of the claims on it.
\<close>

section \<open>An inventory\<close>

definition mail_app :: "bool \<Rightarrow> app_row" where
  "mail_app armed = scripts_app\<lparr>ap_device_control := armed\<rparr>"

definition phone :: "int \<Rightarrow> string \<Rightarrow> string \<Rightarrow> bool \<Rightarrow> device" where
  "phone i user status lock =
     \<lparr>dv_id = i, dv_app = 1, dv_user = user, dv_kc = None, dv_realm = None, dv_device = ''PHONE1'', dv_type = Some ''iPhone'',
      dv_name = None, dv_agent = None, dv_kind = Some ''iphone'', dv_status = status, dv_source = ''observed'',
      dv_first = 0, dv_last = seconds 10, dv_count = 4, dv_ip = None, dv_ips = [], dv_by = None, dv_at = None, dv_note = None,
      dv_blocked = lock\<rparr>"

definition mail_db :: "bool \<Rightarrow> device list \<Rightarrow> eas_db" where
  "mail_db armed ds = gate_db.extend (sample_portal\<lparr>apps := [mail_app armed]\<rparr>)
     \<lparr>accounts = [], devices = ds, uptime = seconds 9000, sightings = [], unidentified_log = [], denial_log = [],
      allow_log = [], notify_log = [], outbox = []\<rparr>"

definition sync_request :: "string \<Rightarrow> web_request" where
  \<comment> \<open>a synchronisation of the device PHONE1 with the given Basic credentials\<close>
  "sync_request credentials =
     \<lparr>rq_header = map_of [(''X-Original-Host'', ''erp.corp.test''), (''Authorization'', ''Basic '' @ credentials),
        (''X-Original-URI'', ''/Microsoft-Server-ActiveSync?Cmd=Sync&DeviceId=PHONE1&DeviceType=iPhone'')],
      rq_client = Some ''203.0.113.9'', rq_cookies = []\<rparr>"

definition ann_basic :: string where "ann_basic = ''YW5uOnA=''"  \<comment> \<open>\<open>ann:p\<close>\<close>
definition eve_basic :: string where "eve_basic = ''ZXZlOnA=''"  \<comment> \<open>\<open>eve:p\<close>\<close>

definition phone_query :: eas_request where
  "phone_query = eas_request_of sample_env (request.truncate (sync_request ann_basic))"

lemma query_same: "eas_request_of sample_env (request.truncate (sync_request c)) = phone_query"
  unfolding phone_query_def by code_simp

lemma phone_query_parts: "eq_device phone_query = Some ''PHONE1''" "\<not> eq_exempt phone_query" "eq_host phone_query = ''erp.corp.test''"
  by code_simp+

lemma phone_rows: "devices (mail_db armed ds) = ds" by (simp add: mail_db_def gate_db.defs)

lemma one_phone: "devices_wf [phone i u s l]" by (simp add: devices_wf_def)

lemma mail_app_found:
  "resolve_app_by_host (mail_db armed ds) (eq_host phone_query) = Some (mail_app armed)"
  "find_app (mail_db armed ds) (ap_id (mail_app armed)) = Some (mail_app armed)"
  unfolding phone_query_parts by code_simp+

section \<open>Requests\<close>



theorem approval_follows_device_id_witness:
  "\<exists>e db'. activesync_auth sample_env no_idp (sync_request eve_basic) (mail_db True [phone 1 ''ann'' ''approved'' False]) =
       (Ok (eas_allowed ''basic'' ''eve'' (mail_app True)), db') \<and>
     list_device_siblings db' 1 ''PHONE1'' = [e] \<and> dv_user e = ''eve'' \<and> dv_status e = ''approved''"
proof -
  let ?db = "mail_db True [phone 1 ''ann'' ''approved'' False]" and ?d = "phone 1 ''ann'' ''approved'' False"
  have wf: "devices_wf (devices ?db)" by (simp add: phone_rows one_phone)
  have row: "list_device_siblings ?db (ap_id (mail_app True)) ''PHONE1'' = [?d]" "dv_status ?d = device_approved" "\<not> dv_blocked ?d"
    "named_cleanly ?d" "''PHONE1'' \<noteq> []" "ap_activesync (mail_app True)" "get_device ?db (ap_id (mail_app True)) (normalize_user_key ''eve'') ''PHONE1'' = None"
    "basic_username (header_or (request.truncate (sync_request eve_basic)) ''Authorization'') = Some ''eve''" "normalize_user_key ''eve'' \<noteq> []"
    by code_simp+
  have vals: "ap_id (mail_app True) = 1" "normalize_user_key ''eve'' = ''eve''" "device_approved = ''approved''" by code_simp+
  from approval_follows_device_id [OF wf row(1-4) query_same [symmetric] phone_query_parts(1) row(5) phone_query_parts(2)
      mail_app_found(1) row(6,8,9,7), of no_idp]
  show ?thesis unfolding vals .
qed

section \<open>The inventory\<close>

definition phone_sighting :: sighting where
  "phone_sighting = \<lparr>sg_type = Some ''iPhone'', sg_agent = ''Apple-iPhone'', sg_kind = ''iphone'', sg_ip = ''203.0.113.9''\<rparr>"

theorem pending_rows_capped_witness:
  "length (pending_of (snd (record_sighting (mail_app True) ''eve'' ''PHONE2'' phone_sighting (mail_db True [phone 1 ''ann'' ''pending'' False]))) 1)
     \<le> 1000"
proof -
  let ?db = "mail_db True [phone 1 ''ann'' ''pending'' False]"
  have "devices_wf (devices ?db)" by (simp add: phone_rows one_phone)
  moreover have "length (pending_of ?db 1) = 1" "pending_max_per_app = 1000" by code_simp+
  ultimately show ?thesis
    using pending_rows_capped [of ?db "mail_app True" "''eve''" "''PHONE2''" phone_sighting 1] by simp
qed

theorem sightings_counted_witness:
  "\<exists>e db'. record_sighting (mail_app True) ''ann'' ''PHONE1'' phone_sighting
       (mail_db True [phone 1 ''ann'' ''pending'' False, phone 2 ''eve'' ''approved'' False]) = (Ok e, db') \<and>
     counted 1 ''PHONE1'' db' + waiting_hits (1, ''ann'', ''PHONE1'') db' = 9"
proof -
  let ?db = "mail_db True [phone 1 ''ann'' ''pending'' False, phone 2 ''eve'' ''approved'' False]"
  have wf: "devices_wf (devices ?db)" by (simp add: phone_rows devices_wf_def phone_def same_place_def)
  have "is_ok (fst (record_sighting (mail_app True) ''ann'' ''PHONE1'' phone_sighting ?db))" by code_simp
  then obtain e db' where run: "record_sighting (mail_app True) ''ann'' ''PHONE1'' phone_sighting ?db = (Ok e, db')"
    by (metis is_okE prod.collapse)
  have app: "ap_id (mail_app True) = 1" by code_simp
  have clean: "\<forall>r \<in> set (list_device_siblings ?db (ap_id (mail_app True)) ''PHONE1''). named_cleanly r" by code_simp
  have facts: "length (sightings ?db) \<le> cache_max_entries" "0 \<le> waiting_hits (ap_id (mail_app True), ''ann'', ''PHONE1'') ?db" "counted 1 ''PHONE1'' ?db = 8"
    "waiting_hits (1, ''ann'', ''PHONE1'') ?db = 0"
    by code_simp+
  have "counted 1 ''PHONE1'' db' + waiting_hits (1, ''ann'', ''PHONE1'') db' = 9"
    using sightings_counted [OF wf clean _ _ facts(1,2) run] by (simp add: app facts(3,4))
  with run show ?thesis by blast
qed

theorem unfoldable_rows_freeze_witness:
  "devices (snd (record_sighting (mail_app True) ''ann'' ''PHONE1'' phone_sighting
     (mail_db True [phone 1 (''corp'' @ CHR 0x5C # ''ann'') ''approved'' False, phone 2 ''ann'' ''pending'' False]))) =
   [phone 1 (''corp'' @ CHR 0x5C # ''ann'') ''approved'' False, phone 2 ''ann'' ''pending'' False]"
proof -
  let ?w = "phone 1 (''corp'' @ CHR 0x5C # ''ann'') ''approved'' False" and ?l = "phone 2 ''ann'' ''pending'' False"
  let ?db = "mail_db True [?w, ?l]"
  have wf: "devices_wf (devices ?db)" by (simp add: phone_rows devices_wf_def phone_def same_place_def)
  have "?w = pick_device_winner (list_device_siblings ?db (ap_id (mail_app True)) ''PHONE1'')"
    "?l \<in> set (list_device_siblings ?db (ap_id (mail_app True)) ''PHONE1'')" "?l \<noteq> ?w" "named_cleanly ?l"
    "normalize_user_key (dv_user ?w) = dv_user ?l"
    by code_simp+
  from unfoldable_rows_freeze [OF wf this, of phone_sighting] show ?thesis by (simp add: phone_rows phone_def)
qed

theorem underscore_name_takes_device_witness:
  "\<exists>e db'. portal_activesync_devices (Some ''john_doe'') None (Some ''kc-9'')
       (mail_db True [phone 1 (''corp'' @ CHR 0x5C # ''johnxdoe'') ''approved'' False]) = ([e], db') \<and>
     dv_user e = ''johnxdoe'' \<and> device_owned_by_session e (Some ''john_doe'') None (Some ''kc-9'')"
proof -
  let ?d = "phone 1 (''corp'' @ CHR 0x5C # (''john'' @ CHR ''x'' # ''doe'')) ''approved'' False"
  have rows: "devices (mail_db True [?d]) = [?d]" by (rule phone_rows)
  have user: "dv_user ?d = ''corp'' @ CHR 0x5C # (''john'' @ CHR ''x'' # ''doe'')" "dv_kc ?d = None" by (simp_all add: phone_def)
  have facts: "normalize_user_key (dv_user ?d) = ''john'' @ CHR ''x'' # ''doe''" "CHR ''x'' \<noteq> CHR ''_''"
    "normalize_user_key (''john'' @ CHR ''_'' # ''doe'') = ''john'' @ CHR ''_'' # ''doe''" "CHR 0x5C \<notin> set (''john'' @ CHR ''_'' # ''doe'')"
    "opt_str (Some ''kc-9'') \<noteq> []"
    by code_simp+
  from underscore_name_takes_device [OF rows user facts] show ?thesis by auto
qed

theorem notifications_limited_witness:
  "length (filter (\<lambda>t. 50 - t < seconds 3600)
     (granted ''to:a'' (quota_run [(''to:a'', 3, 10), (''ip:b'', 10, 10), (''to:a'', 3, 20), (''to:a'', 3, 30), (''to:a'', 3, 40)] []))) \<le> 3"
  using notifications_limited [of "[(''to:a'', 3, 10), (''ip:b'', 10, 10), (''to:a'', 3, 20), (''to:a'', 3, 30), (''to:a'', 3, 40)]" "''to:a''" 3 50]
  by (simp add: notify_window_s_def)

end
