(* ===== verification/MfaGate.thy ===== *)
theory MfaGate
  imports Mfa
begin

text \<open>
  Passkeys (\<open>app/auth/webauthn_service.py\<close>), the gate of the administration pages (\<open>app/auth/mfa_gate.py\<close> and
  \<open>require_admin\<close> of \<open>app/web/user_context.py\<close>) and the handlers of \<open>app/admin/mfa.py\<close>.
\<close>

section \<open>Passkeys\<close>

definition challenge_cookie :: string where "challenge_cookie = ''bastion_webauthn_chal''"
definition challenge_ttl_sec :: int where "challenge_ttl_sec = 300"

definition rp_id_and_origin :: "string option \<Rightarrow> string \<times> string" where
  "rp_id_and_origin domain =
     (let host = lower (strip (or_text (opt_str domain) ''portal.example.com''));
          host = takeWhile (\<lambda>c. c \<noteq> CHR '':'') (takeWhile (\<lambda>c. c \<noteq> CHR ''/'') host);
          host = or_text host ''portal.example.com'';
          scheme = (if host = ''localhost'' \<or> host = ''127.0.0.1'' then ''http'' else ''https'')
      in (host, scheme @ ''://'' @ host))"

definition sign_challenge :: "(string \<Rightarrow> string \<Rightarrow> string) \<Rightarrow> string \<Rightarrow> string \<Rightarrow> string \<Rightarrow> string \<Rightarrow> int \<Rightarrow> string" where
  "sign_challenge mac secret email purpose challenge_b64 exp =
     mac secret (join_with ''|'' [normalize_email email, purpose, challenge_b64, show_int exp])"

definition stash_challenge ::
  "admin_env \<Rightarrow> string \<Rightarrow> string \<Rightarrow> string \<Rightarrow> int \<Rightarrow> (sign_error, (string \<times> string) list) result" where
  "stash_challenge env user_email purpose challenge now =
     (case signing_key env ''webauthn-challenge'' of
        Raise e \<Rightarrow> Raise e
      | Ok secret \<Rightarrow>
          (let exp = now div 1000000 + challenge_ttl_sec
           in Ok [(challenge_cookie, join_with ''|'' [normalize_email user_email, purpose, challenge, show_int exp,
                    sign_challenge (ae_mac env) secret user_email purpose challenge exp])]))"

definition pop_challenge :: "admin_env \<Rightarrow> page_request \<Rightarrow> string \<Rightarrow> string \<Rightarrow> int \<Rightarrow> (sign_error, string option) result" where
  "pop_challenge env rq user_email purpose now =
     (case split_on (CHR ''|'') (strip (page_cookie rq challenge_cookie)) of
        email # purp # chal # expires # sig # rest \<Rightarrow>
          (if normalize_email email \<noteq> normalize_email user_email \<or> purp \<noteq> purpose then Ok None
           else (case py_int expires of
                   None \<Rightarrow> Ok None
                 | Some exp \<Rightarrow>
                     (if seconds exp < now then Ok None
                      else (case signing_key env ''webauthn-challenge'' of
                              Raise e \<Rightarrow> Raise e
                            | Ok secret \<Rightarrow>
                                (case compare_digest (join_with ''|'' (sig # rest)) (sign_challenge (ae_mac env) secret email purp chal exp) of
                                   Raise e \<Rightarrow> Raise e | Ok same \<Rightarrow> Ok (if same then Some chal else None))))))
      | _ \<Rightarrow> Ok None)"

definition verify_and_store_registration ::
  "factor_lib \<Rightarrow> string option \<Rightarrow> string \<Rightarrow> string \<Rightarrow> string \<Rightarrow> 'a adb \<Rightarrow> (factor_error, unit) result \<times> 'a adb" where
  \<comment> \<open>the identifier of a key is unique among the rows\<close>
  "verify_and_store_registration lib domain user_email credential challenge db =
     (case fl_register lib (rp_id_and_origin domain) credential challenge of
        None \<Rightarrow> (Raise AttestationInvalid, db)
      | Some (key_id, public_key, sign_count) \<Rightarrow>
          (let (row, db) = get_or_create_credential user_email db;
               row = row\<lparr>mf_key_id := Some key_id, mf_public_key := Some public_key, mf_sign_count := sign_count,
                         mf_transports := (case fl_transports lib credential of None \<Rightarrow> mf_transports row | Some ts \<Rightarrow> Some ts),
                         mf_webauthn := True, mf_updated := clock db\<rparr>
           in if list_ex (\<lambda>r. mf_email r \<noteq> mf_email row \<and> mf_key_id r = Some key_id) (mfa_rows db)
              then (Raise KeyIdTaken, db)
              else (Ok (), put_mfa row db)))"

definition passkey_row :: "string \<Rightarrow> 'a adb \<Rightarrow> mfa_row option" where
  \<comment> \<open>\<open>_get_credential\<close>\<close>
  "passkey_row user_email db = (if normalize_email user_email = [] then None else find_mfa db (normalize_email user_email))"

definition has_passkey :: "mfa_row \<Rightarrow> bool" where
  "has_passkey row \<longleftrightarrow> mf_webauthn row \<and> strip (opt_str (mf_key_id row)) \<noteq> []"

definition authentication_allowed :: "string \<Rightarrow> 'a adb \<Rightarrow> (factor_error, string) result" where
  \<comment> \<open>\<open>build_authentication_options\<close>: the key that is asked for\<close>
  "authentication_allowed user_email db =
     (case passkey_row user_email db of
        None \<Rightarrow> Raise NoPasskey
      | Some row \<Rightarrow> if has_passkey row then Ok (opt_str (mf_key_id row)) else Raise NoPasskey)"

definition verify_authentication ::
  "factor_lib \<Rightarrow> string option \<Rightarrow> string \<Rightarrow> string \<Rightarrow> string \<Rightarrow> 'a adb \<Rightarrow> (factor_error, unit) result \<times> 'a adb" where
  "verify_authentication lib domain user_email credential challenge db =
     (case passkey_row user_email db of
        None \<Rightarrow> (Raise NoPasskey, db)
      | Some row \<Rightarrow>
          (if \<not> has_passkey row \<or> strip (opt_str (mf_public_key row)) = [] then (Raise NoPasskey, db)
           else (case fl_assert lib (rp_id_and_origin domain) credential challenge (opt_str (mf_public_key row)) (mf_sign_count row) of
                   None \<Rightarrow> (Raise AssertionInvalid, db)
                 | Some n \<Rightarrow> (Ok (), put_mfa (row\<lparr>mf_sign_count := int_or n (mf_sign_count row), mf_updated := clock db\<rparr>) db))))"

definition disable_webauthn :: "string \<Rightarrow> 'a adb \<Rightarrow> 'a adb" where
  "disable_webauthn user_email db =
     (case passkey_row user_email db of
        None \<Rightarrow> db
      | Some row \<Rightarrow> put_mfa (row\<lparr>mf_webauthn := False, mf_key_id := None, mf_public_key := None, mf_sign_count := 0,
                                  mf_transports := None, mf_updated := clock db\<rparr>) db)"

section \<open>The gate\<close>

definition mfa_exempt_prefixes :: "string list" where
  "mfa_exempt_prefixes = [''/admin/auth/mfa/'', ''/admin/profile'']"

definition enrollment_redirect :: string where "enrollment_redirect = ''/admin/profile?force_mfa=1#mfa''"

definition path_is_mfa_exempt :: "string \<Rightarrow> bool" where
  "path_is_mfa_exempt path =
     (let p = takeWhile (\<lambda>c. c \<noteq> CHR 0x3F) path
      in list_ex (\<lambda>pref. p = rstrip_char (CHR ''/'') pref \<or> starts_with pref p) mfa_exempt_prefixes)"

definition is_mfa_enrolled :: "'a adb \<Rightarrow> string \<Rightarrow> bool" where
  "is_mfa_enrolled db user_email =
     (let email = normalize_email user_email
      in if email = [] then False
         else (case find_mfa db email of None \<Rightarrow> False | Some row \<Rightarrow> mf_totp row \<or> mf_webauthn row))"

definition enforcement_deadline :: "admin_env \<Rightarrow> int option" where
  "enforcement_deadline env = map_option (\<lambda>pivot. pivot + opt_int_or (ae_mfa_grace env) 0 * seconds 86400) (ae_mfa_pivot env)"

definition grace_days_left :: "admin_env \<Rightarrow> int \<Rightarrow> int option" where
  "grace_days_left env now =
     (if \<not> ae_mfa_required env then None
      else (case enforcement_deadline env of
              None \<Rightarrow> None
            | Some deadline \<Rightarrow>
                (let delta = deadline - now
                 in Some (max 0 (delta div seconds 86400 + (if delta mod seconds 86400 \<noteq> 0 then 1 else 0))))))"

definition grace_banner :: "admin_env \<Rightarrow> int \<Rightarrow> bool \<Rightarrow> int option" where
  \<comment> \<open>\<open>apply_grace_banner\<close>: the days the banner shows\<close>
  "grace_banner env now enrolled =
     (if enrolled \<or> \<not> ae_mfa_required env then None
      else (case grace_days_left env now of
              None \<Rightarrow> None
            | Some left \<Rightarrow>
                (if (case enforcement_deadline env of None \<Rightarrow> False | Some deadline \<Rightarrow> deadline < now) \<or> left \<le> 0 then None
                 else Some left)))"

definition enforce_admin_mfa ::
  "admin_env \<Rightarrow> page_request \<Rightarrow> user_context \<Rightarrow> 'a adb \<Rightarrow> (access_error, int option) result" where
  \<comment> \<open>a normal return carries the days of the banner\<close>
  "enforce_admin_mfa env rq u db =
     (let email = strip (uc_email u); now = clock db
      in if uc_breakglass u \<or> path_is_mfa_exempt (pg_path rq) \<or> email = [] then Ok None
         else if is_mfa_enrolled db email
         then (case is_mfa_cookie_valid env rq email now of
                 Raise e \<Rightarrow> Raise (AccessSign e)
               | Ok True \<Rightarrow> Ok None
               | Ok False \<Rightarrow> Raise (MfaChallengeRequired (challenge_redirect_url
                   (if pg_query rq = [] then pg_path rq else pg_path rq @ CHR 0x3F # pg_query rq))))
         else if \<not> ae_mfa_required env then Ok (grace_banner env now False)
         else (case enforcement_deadline env of
                 None \<Rightarrow> Ok (grace_banner env now False)
               | Some deadline \<Rightarrow>
                   if deadline < now then Raise (MfaEnrollmentRequired enrollment_redirect)
                   else Ok (grace_banner env now False)))"

definition admin_mfa_satisfied :: "admin_env \<Rightarrow> page_request \<Rightarrow> user_context \<Rightarrow> 'a adb \<Rightarrow> (access_error, bool) result" where
  "admin_mfa_satisfied env rq u db =
     (case enforce_admin_mfa env rq u db of
        Ok _ \<Rightarrow> Ok True
      | Raise (MfaChallengeRequired _) \<Rightarrow> Ok False
      | Raise (MfaEnrollmentRequired _) \<Rightarrow> Ok False
      | Raise e \<Rightarrow> Raise e)"

definition elevate_portal_admin_mfa ::
  "admin_env \<Rightarrow> page_request \<Rightarrow> user_context \<Rightarrow> 'a adb \<Rightarrow> (access_error, user_context) result" where
  "elevate_portal_admin_mfa env rq u db =
     (if \<not> is_portal_admin db u then Ok (u\<lparr>uc_admin := False\<rparr>)
      else (case admin_mfa_satisfied env rq u db of Raise e \<Rightarrow> Raise e | Ok b \<Rightarrow> Ok (u\<lparr>uc_admin := b\<rparr>)))"

definition require_admin :: "admin_env \<Rightarrow> page_request \<Rightarrow> 'a adb \<Rightarrow> (access_error, user_context) result \<times> 'a adb" where
  "require_admin env rq db =
     bind_res (require_admin_mfa_exempt env rq db)
       (\<lambda>u db. case enforce_admin_mfa env rq u db of Raise e \<Rightarrow> (Raise e, db) | Ok _ \<Rightarrow> (Ok u, db))"

lemmas mfa_gate_defs [py_defs] =
  challenge_cookie_def challenge_ttl_sec_def rp_id_and_origin_def sign_challenge_def stash_challenge_def pop_challenge_def
  verify_and_store_registration_def passkey_row_def has_passkey_def authentication_allowed_def verify_authentication_def
  disable_webauthn_def mfa_exempt_prefixes_def enrollment_redirect_def path_is_mfa_exempt_def is_mfa_enrolled_def
  enforcement_deadline_def grace_days_left_def grace_banner_def enforce_admin_mfa_def admin_mfa_satisfied_def
  elevate_portal_admin_mfa_def require_admin_def

end
