(* ===== verification/MfaPages.thy ===== *)
theory MfaPages
  imports MfaGate
begin

text \<open>
  The handlers of \<open>app/admin/mfa.py\<close>. All of them require an administrator and none of them asks the gate; an
  answer is its status, its headers and the cookies it sets (an empty value deletes the cookie). Flash messages and
  page contents are left out, but the key that signs a flash message is read where the code reads it.
\<close>

record mfa_reply = response +
  mr_cookies :: "(string \<times> string) list"

definition see_other :: "string \<Rightarrow> (string \<times> string) list \<Rightarrow> mfa_reply" where
  "see_other url cookies = \<lparr>rp_status = 303, rp_headers = [(''location'', url)], mr_cookies = cookies\<rparr>"

definition page_reply :: "int \<Rightarrow> (string \<times> string) list \<Rightarrow> mfa_reply" where
  "page_reply status cookies = \<lparr>rp_status = status, rp_headers = [], mr_cookies = cookies\<rparr>"

definition profile_url :: string where "profile_url = ''/admin/profile#mfa''"

definition with_flash :: "admin_env \<Rightarrow> 's \<Rightarrow> 'b \<times> 's \<Rightarrow> (access_error, 'b) result \<times> 's" where
  \<comment> \<open>\<open>flash_redirect(..., portal_signing_secret(settings))\<close> comes first; the rest is not reached without the key\<close>
  "with_flash env db answer =
     (case signing_key env ''portal'' of Raise e \<Rightarrow> (Raise (AccessSign e), db) | Ok _ \<Rightarrow> (Ok (fst answer), snd answer))"

definition mfa_log :: "string \<Rightarrow> string \<Rightarrow> 'a adb \<Rightarrow> 'a adb" where
  "mfa_log email action = log_action email action (Some email) [] None"

definition with_cookies ::
  "(sign_error, (string \<times> string) list) result \<Rightarrow> 's \<Rightarrow> ((string \<times> string) list \<Rightarrow> (access_error, 'b) result \<times> 's) \<Rightarrow>
    (access_error, 'b) result \<times> 's" where
  "with_cookies r db f = (case r of Raise e \<Rightarrow> (Raise (AccessSign e), db) | Ok cs \<Rightarrow> f cs)"

definition safe_next :: "string \<Rightarrow> string" where
  "safe_next raw =
     (let target = or_text (unquote_text (strip raw)) ''/admin''
      in if \<not> starts_with ''/'' target \<or> starts_with ''//'' target \<or> starts_with ''/admin/auth/mfa/'' target then ''/admin''
         else target)"

definition admin_mfa_challenge_get :: "admin_env \<Rightarrow> page_request \<Rightarrow> 'a adb \<Rightarrow> (access_error, mfa_reply) result \<times> 'a adb" where
  "admin_mfa_challenge_get env rq db =
     bind_res (require_admin_mfa_exempt env rq db)
       (\<lambda>u db. (Ok (if ms_any (mfa_status_dict db (uc_email u)) then page_reply 200 [] else see_other profile_url []), db))"

definition admin_mfa_challenge_post ::
  "admin_env \<Rightarrow> factor_lib \<Rightarrow> page_request \<Rightarrow> string \<Rightarrow> string \<Rightarrow> 'a adb \<Rightarrow> (access_error, mfa_reply) result \<times> 'a adb" where
  "admin_mfa_challenge_post env lib rq code nxt db =
     bind_res (require_admin_mfa_exempt env rq db)
       (\<lambda>u db. let dest = safe_next nxt; (ok, db) = verify_login_totp lib (uc_email u) code db
        in if \<not> ok
           then with_flash env db (see_other (''/admin/auth/mfa/challenge?next='' @ dest) [], mfa_log (uc_email u) ''admin.mfa_challenge_failed'' db)
           else with_cookies (set_mfa_ok_cookie env (uc_email u) mfa_ttl_seconds (clock db)) db
                  (\<lambda>cs. with_flash env db (see_other dest cs, mfa_log (uc_email u) ''admin.mfa_challenge_ok'' db)))"

definition admin_profile_totp_start ::
  "admin_env \<Rightarrow> factor_lib \<Rightarrow> string \<Rightarrow> page_request \<Rightarrow> 'a adb \<Rightarrow> (access_error, mfa_reply \<times> string option) result \<times> 'a adb" where
  \<comment> \<open>with the secret the page shows\<close>
  "admin_profile_totp_start env lib raw rq db =
     bind_res (require_admin_mfa_exempt env rq db)
       (\<lambda>u db. case generate_new_totp_setup lib raw (uc_email u) db of
          (Raise _, db) \<Rightarrow> with_flash env db ((see_other profile_url [], None), db)
        | (Ok shown, db) \<Rightarrow> (Ok (page_reply 200 [], Some shown), db))"

definition admin_profile_totp_confirm ::
  "admin_env \<Rightarrow> factor_lib \<Rightarrow> page_request \<Rightarrow> string \<Rightarrow> 'a adb \<Rightarrow> (access_error, mfa_reply) result \<times> 'a adb" where
  "admin_profile_totp_confirm env lib rq code db =
     bind_res (require_admin_mfa_exempt env rq db)
       (\<lambda>u db. let (ok, db) = confirm_totp_enrollment lib (uc_email u) code db
        in if \<not> ok then with_flash env db (see_other profile_url [], db)
           else with_cookies (set_mfa_ok_cookie env (uc_email u) mfa_ttl_seconds (clock db)) db
                  (\<lambda>cs. with_flash env db (see_other profile_url cs, mfa_log (uc_email u) ''admin.mfa_totp_enabled'' db)))"

definition admin_profile_totp_disable ::
  "admin_env \<Rightarrow> factor_lib \<Rightarrow> page_request \<Rightarrow> string \<Rightarrow> 'a adb \<Rightarrow> (access_error, mfa_reply) result \<times> 'a adb" where
  "admin_profile_totp_disable env lib rq code db =
     bind_res (require_admin_mfa_exempt env rq db)
       (\<lambda>u db. let (ok, db) = disable_totp lib (uc_email u) code db
        in if \<not> ok then with_flash env db (see_other profile_url [], db)
           else with_flash env db (see_other profile_url [(mfa_cookie_name, [])], mfa_log (uc_email u) ''admin.mfa_totp_disabled'' db))"

definition admin_webauthn_register_options ::
  "admin_env \<Rightarrow> string \<Rightarrow> page_request \<Rightarrow> 'a adb \<Rightarrow> (access_error, mfa_reply) result \<times> 'a adb" where
  "admin_webauthn_register_options env challenge rq db =
     bind_res (require_admin_mfa_exempt env rq db)
       (\<lambda>u db. with_cookies (stash_challenge env (uc_email u) ''register'' challenge (clock db)) db
          (\<lambda>cs. (Ok (page_reply 200 cs), db)))"

definition admin_webauthn_register_verify ::
  "admin_env \<Rightarrow> factor_lib \<Rightarrow> page_request \<Rightarrow> string \<Rightarrow> 'a adb \<Rightarrow> (access_error, mfa_reply) result \<times> 'a adb" where
  \<comment> \<open>a key that is taken is an error of the database, not of the ceremony\<close>
  "admin_webauthn_register_verify env lib rq body db =
     bind_res (require_admin_mfa_exempt env rq db)
       (\<lambda>u db. case pop_challenge env rq (uc_email u) ''register'' (clock db) of
          Raise e \<Rightarrow> (Raise (AccessSign e), db)
        | Ok None \<Rightarrow> (Ok (page_reply 400 []), db)
        | Ok (Some challenge) \<Rightarrow>
            (if challenge = [] then (Ok (page_reply 400 []), db)
             else (case verify_and_store_registration lib (ae_domain env) (uc_email u) body challenge db of
                     (Raise KeyIdTaken, db) \<Rightarrow> (Raise (AccessSql SqlError), db)
                   | (Raise _, db) \<Rightarrow> (Ok (page_reply 400 []), db)
                   | (Ok _, db) \<Rightarrow>
                       with_cookies (set_mfa_ok_cookie env (uc_email u) mfa_ttl_seconds (clock db)) db
                         (\<lambda>cs. (Ok (page_reply 200 ((challenge_cookie, []) # cs)), mfa_log (uc_email u) ''admin.mfa_webauthn_enabled'' db)))))"

definition admin_webauthn_disable ::
  "admin_env \<Rightarrow> page_request \<Rightarrow> 'a adb \<Rightarrow> (access_error, mfa_reply) result \<times> 'a adb" where
  "admin_webauthn_disable env rq db =
     bind_res (require_admin_mfa_exempt env rq db)
       (\<lambda>u db. let db = disable_webauthn (uc_email u) db
        in with_flash env db (see_other profile_url [], mfa_log (uc_email u) ''admin.mfa_webauthn_disabled'' db))"

definition admin_webauthn_auth_options ::
  "admin_env \<Rightarrow> string \<Rightarrow> page_request \<Rightarrow> 'a adb \<Rightarrow> (access_error, mfa_reply) result \<times> 'a adb" where
  "admin_webauthn_auth_options env challenge rq db =
     bind_res (require_admin_mfa_exempt env rq db)
       (\<lambda>u db. case authentication_allowed (uc_email u) db of
          Raise _ \<Rightarrow> (Ok (page_reply 400 []), db)
        | Ok _ \<Rightarrow> with_cookies (stash_challenge env (uc_email u) ''assert'' challenge (clock db)) db
                    (\<lambda>cs. (Ok (page_reply 200 cs), db)))"

definition admin_webauthn_auth_verify ::
  "admin_env \<Rightarrow> factor_lib \<Rightarrow> page_request \<Rightarrow> string \<Rightarrow> 'a adb \<Rightarrow> (access_error, mfa_reply) result \<times> 'a adb" where
  "admin_webauthn_auth_verify env lib rq body db =
     bind_res (require_admin_mfa_exempt env rq db)
       (\<lambda>u db. case pop_challenge env rq (uc_email u) ''assert'' (clock db) of
          Raise e \<Rightarrow> (Raise (AccessSign e), db)
        | Ok None \<Rightarrow> (Ok (page_reply 400 []), db)
        | Ok (Some challenge) \<Rightarrow>
            (if challenge = [] then (Ok (page_reply 400 []), db)
             else (case verify_authentication lib (ae_domain env) (uc_email u) body challenge db of
                     (Raise _, db) \<Rightarrow> (Ok (page_reply 400 []), mfa_log (uc_email u) ''admin.mfa_webauthn_failed'' db)
                   | (Ok _, db) \<Rightarrow>
                       with_cookies (set_mfa_ok_cookie env (uc_email u) mfa_ttl_seconds (clock db)) db
                         (\<lambda>cs. (Ok (page_reply 200 ((challenge_cookie, []) # cs)), mfa_log (uc_email u) ''admin.mfa_webauthn_ok'' db)))))"

lemmas mfa_page_defs [py_defs] =
  see_other_def page_reply_def profile_url_def with_flash_def mfa_log_def with_cookies_def safe_next_def
  admin_mfa_challenge_get_def admin_mfa_challenge_post_def admin_profile_totp_start_def admin_profile_totp_confirm_def
  admin_profile_totp_disable_def admin_webauthn_register_options_def admin_webauthn_register_verify_def admin_webauthn_disable_def
  admin_webauthn_auth_options_def admin_webauthn_auth_verify_def

end
