(* ===== verification/MfaLaws.thy ===== *)
theory MfaLaws
  imports MfaPages
begin

text \<open>
  Laws of signed values, of the identity of a request and of the second factor.

  HMAC is taken as in symbolic protocol proofs: \<open>hex_mac\<close> says that its values are non-empty texts of hexadecimal
  digits, \<open>collision_free\<close> that different keys or texts have different values.
\<close>

section \<open>Texts that are signed\<close>

definition hex_mac :: "(string \<Rightarrow> string \<Rightarrow> string) \<Rightarrow> bool" where
  "hex_mac mac \<longleftrightarrow> (\<forall>k m. mac k m \<noteq> [] \<and> set (mac k m) \<subseteq> set ''0123456789abcdef'')"

definition collision_free :: "(string \<Rightarrow> string \<Rightarrow> string) \<Rightarrow> bool" where
  "collision_free mac \<longleftrightarrow> (\<forall>k m k' m'. mac k m = mac k' m' \<longrightarrow> k = k' \<and> m = m')"

lemma collisionD: "collision_free mac \<Longrightarrow> mac k m = mac k' m' \<Longrightarrow> k = k' \<and> m = m'"
  unfolding collision_free_def by blast

lemma hex_chars: "c \<in> set ''0123456789abcdef'' \<Longrightarrow> \<not> is_space c \<and> cp c < 128 \<and> c \<noteq> CHR ''|''"
  by (auto simp: is_space_def)

lemma hex_macD:
  assumes "hex_mac mac"
  shows "mac k m \<noteq> []" and "is_ascii (mac k m)" and "strip (mac k m) = mac k m" and "CHR ''|'' \<notin> set (mac k m)"
proof -
  have c: "\<not> is_space c \<and> cp c < 128 \<and> c \<noteq> CHR ''|''" if "c \<in> set (mac k m)" for c
    using assms that hex_chars unfolding hex_mac_def by blast
  show "mac k m \<noteq> []" using assms by (simp add: hex_mac_def)
  show "is_ascii (mac k m)" using c by (auto simp: is_ascii_def list_all_iff)
  show "strip (mac k m) = mac k m" using c by (auto intro: strip_no_space)
  show "CHR ''|'' \<notin> set (mac k m)" using c by blast
qed

lemma compare_mac: "hex_mac mac \<Longrightarrow> is_ascii s \<Longrightarrow> compare_digest s (mac k m) = Ok (s = mac k m)"
  by (simp add: compare_digest_def hex_macD(2))

lemma show_int_chars: "c \<in> set (show_int n) \<Longrightarrow> is_digit c \<or> c = CHR ''-''"
  by (cases "n < 0") (auto simp: show_int_def dest: show_base_digits [rotated])

lemma show_int_inj: "show_int a = show_int b \<Longrightarrow> a = b"
proof -
  have "\<not> is_digit (CHR ''-'')" by code_simp
  then have minus: "CHR ''-'' # s \<noteq> show_base 10 n" if "0 \<le> n" for n s
    using show_base_digits [OF that] by (metis list.set_intros(1))
  have pos: "show_base 10 m = show_base 10 n \<Longrightarrow> m = n" if "0 \<le> m" "0 \<le> n" for m n
    using dec_value_show that by metis
  assume same: "show_int a = show_int b"
  show "a = b"
  proof (cases "a < 0")
    case True
    then have "b < 0" using same minus [of b] unfolding show_int_def by (auto split: if_splits)
    then have "- a = - b" using same True pos [of "- a" "- b"] by (simp add: show_int_def)
    then show ?thesis by simp
  next
    case False
    then have "\<not> b < 0" using same minus [of a] unfolding show_int_def by (metis not_less)
    then show ?thesis using same False pos [of a b] by (simp add: show_int_def)
  qed
qed

lemma no_bar_show [simp]: "CHR ''|'' \<notin> set (show_int n)" "CHR '':'' \<notin> set (show_int n)" "show_int n \<noteq> []"
proof -
  have "\<not> is_digit (CHR ''|'')" "\<not> is_digit (CHR '':'')" by code_simp+
  then show "CHR ''|'' \<notin> set (show_int n)" "CHR '':'' \<notin> set (show_int n)" using show_int_chars by fastforce+
  show "show_int n \<noteq> []" by (simp add: show_int_def)
qed

lemma last_separator:
  assumes "a @ x # b = c @ x # d" and "x \<notin> set b" and "x \<notin> set d"
  shows "a = c \<and> b = d"
proof -
  have "rev b @ x # rev a = rev d @ x # rev c" using arg_cong [OF assms(1), of rev] by simp
  then have "takeWhile (\<lambda>y. y \<noteq> x) (rev b @ x # rev a) = takeWhile (\<lambda>y. y \<noteq> x) (rev d @ x # rev c)" by simp
  moreover have "takeWhile (\<lambda>y. y \<noteq> x) (l @ x # r) = l" if "x \<notin> set l" for l r using that by (induction l) auto
  ultimately have "rev b = rev d" using assms(2,3) by simp
  then show ?thesis using assms(1) by simp
qed

text \<open>
  The interface of a signed value: how its fields are written. Where the writing is injective a signature fixes the key
  and the fields.
\<close>

locale message_code =
  fixes msg :: "'a \<Rightarrow> string" and valid :: "'a \<Rightarrow> bool"
  assumes msg_inj: "valid x \<Longrightarrow> valid y \<Longrightarrow> msg x = msg y \<Longrightarrow> x = y"
begin

lemma signature_fixes:
  "collision_free mac \<Longrightarrow> valid x \<Longrightarrow> valid y \<Longrightarrow> mac k (msg x) = mac k' (msg y) \<Longrightarrow> k = k' \<and> x = y"
  using msg_inj unfolding collision_free_def by blast

end

definition mfa_text :: "string \<times> int \<Rightarrow> string" where
  "mfa_text = (\<lambda>(email, expires). email @ CHR '':'' # show_int expires)"

definition challenge_text :: "string \<times> string \<times> string \<times> int \<Rightarrow> string" where
  "challenge_text = (\<lambda>(email, purpose, challenge, expires). join_with ''|'' [email, purpose, challenge, show_int expires])"

definition barless :: "string \<times> string \<times> string \<times> int \<Rightarrow> bool" where
  "barless = (\<lambda>(email, purpose, challenge, expires). CHR ''|'' \<notin> set email \<and> CHR ''|'' \<notin> set purpose \<and> CHR ''|'' \<notin> set challenge)"

interpretation mfa_msg: message_code mfa_text "\<lambda>_. True"
  by unfold_locales (auto simp: mfa_text_def dest!: last_separator dest: show_int_inj)

interpretation challenge_msg: message_code challenge_text barless
proof
  fix x y assume v: "barless x" "barless y" and same: "challenge_text x = challenge_text y"
  obtain e p c t e' p' c' t' where xy: "x = (e, p, c, t)" "y = (e', p', c', t')" by (metis prod_cases4)
  have parts: "split_on (CHR ''|'') (join_with ''|'' [e, p, c, show_int t]) = [e, p, c, show_int t]" if "barless (e, p, c, t)" for e p c t
    by (rule split_on_join) (use that in \<open>auto simp: barless_def\<close>)
  have "[e, p, c, show_int t] = [e', p', c', show_int t']"
    using arg_cong [OF same, of "split_on (CHR ''|'')"] v parts unfolding xy challenge_text_def prod.case by metis
  then show "x = y" using show_int_inj by (simp add: xy)
qed

lemma signature_text: "generate_mfa_signature mac k email t = mac k (mfa_text (normalize_email email, t))"
  "sign_challenge mac k email purpose chal t = mac k (challenge_text (normalize_email email, purpose, chal, t))"
  by (simp_all add: generate_mfa_signature_def mfa_text_def sign_challenge_def challenge_text_def)

section \<open>Numbers and names\<close>

lemma length_show_base_le: "0 \<le> n \<Longrightarrow> n < 10 ^ k \<Longrightarrow> 0 < k \<Longrightarrow> length (show_base 10 n) \<le> k"
proof (induction k arbitrary: n)
  case (Suc k)
  show ?case
  proof (cases "n < 10")
    case True
    then show ?thesis by (simp add: show_base.simps [of 10 n])
  next
    case False
    then have "0 < k" using Suc.prems by (cases k) auto
    moreover have "n div 10 < 10 ^ k" using Suc.prems(2) by simp
    ultimately have "length (show_base 10 (n div 10)) \<le> k" using Suc.prems(1) by (intro Suc.IH) simp_all
    then show ?thesis using False by (simp add: show_base.simps [of 10 n])
  qed
qed simp

lemma py_int_digits:
  assumes n: "0 \<le> n" and len: "length (show_base 10 n) \<le> 4300"
  shows "py_int (show_int n) = Some n" and "strip (show_int n) = show_int n"
proof -
  let ?s = "show_base 10 n"
  have digit: "is_digit c" if "c \<in> set ?s" for c using show_base_digits [OF n that] .
  have other: "\<not> is_digit (CHR ''-'')" "\<not> is_digit (CHR ''+'')" "\<not> is_digit (CHR ''_'')" by code_simp+
  have "\<not> is_space c" if "is_digit c" for c using that by (auto simp: is_digit_def is_space_def)
  then have st: "strip ?s = ?s" using digit by (auto intro: strip_no_space)
  obtain c t where ct: "?s = c # t" by (cases ?s) auto
  have c: "c \<noteq> CHR ''-''" "c \<noteq> CHR ''+''" using digit [of c] other ct by auto
  have "split_on (CHR ''_'') ?s = [?s]" using digit other(3) by (intro split_on_no_occ) blast
  moreover have "list_all is_digit ?s" using digit by (simp add: list_all_iff)
  moreover have "(case strip ?s of [] \<Rightarrow> [] | c # _ \<Rightarrow> if c = CHR ''-'' \<or> c = CHR ''+'' then [c] else []) = []"
    using st ct c by simp
  ultimately show "py_int (show_int n) = Some n"
    using dec_value_show [OF n] st len unfolding py_int_def show_int_nonneg [OF n] by (simp add: Let_def)
  show "strip (show_int n) = show_int n" using st by (simp add: show_int_nonneg [OF n])
qed

lemma py_int_show: "0 \<le> n \<Longrightarrow> n < 10 ^ 12 \<Longrightarrow> py_int (show_int n) = Some n"
  using length_show_base_le [of n 12] by (intro py_int_digits) simp_all

lemma strip_id: "v \<noteq> [] \<Longrightarrow> \<not> is_space (hd v) \<Longrightarrow> \<not> is_space (last v) \<Longrightarrow> strip v = v"
  by (simp add: strip_def lstrip_id rstrip_id)

lemma normalize_idem [simp]: "normalize_email (normalize_email e) = normalize_email e"
  by (simp add: normalize_email_def strip_lower)

lemma normalize_hd: "normalize_email e \<noteq> [] \<Longrightarrow> \<not> is_space (hd (normalize_email e))"
  using strip_hd [of "lower e"] by (simp add: normalize_email_def strip_lower)

lemma normalize_barless: "CHR ''|'' \<notin> set e \<Longrightarrow> CHR ''|'' \<notin> set (normalize_email e)"
proof -
  have "lower_char c \<noteq> CHR ''|''" if "c \<noteq> CHR ''|''" for c
  proof
    assume l: "lower_char c = CHR ''|''"
    then have capital: "(65 \<le> cp c \<and> cp c \<le> 90) \<or> (192 \<le> cp c \<and> cp c \<le> 222)" and m: "char_of (cp c + 32) = CHR ''|''"
      using that by (auto simp: lower_char_def split: if_splits)
    have "(cp c + 32) mod 256 = cp (CHR ''|'')" unfolding m [symmetric] by simp
    then show False using capital by auto
  qed
  then show "CHR ''|'' \<notin> set e \<Longrightarrow> CHR ''|'' \<notin> set (normalize_email e)"
    using set_strip [of e] unfolding normalize_email_def lower_def set_map by (metis imageE subsetD)
qed

section \<open>The cookie of the second factor\<close>

lemma valid_cookieD:
  assumes "is_mfa_cookie_valid env rq email now = Ok True"
  obtains e s rest t k where "split_on (CHR ''|'') (strip (page_cookie rq mfa_cookie_name)) = e # s # rest" "rest \<noteq> []"
    "normalize_email e = normalize_email email" "py_int s = Some t" "now \<le> seconds t" "signing_key env ''mfa-cookie'' = Ok k"
    "join_with ''|'' rest = ae_mac env k (mfa_text (normalize_email email, t))"
  using assms
  by (auto simp: is_mfa_cookie_valid_def compare_digest_def signature_text not_less Let_def
      split: list.splits if_splits option.splits result.splits)

lemma cookie_split:
  assumes "hex_mac mac" and "normalize_email a \<noteq> []" and "CHR ''|'' \<notin> set a"
  shows "split_on (CHR ''|'') (strip (normalize_email a @ CHR ''|'' # show_int t @ CHR ''|'' # mac k m)) =
    [normalize_email a, show_int t, mac k m]"
proof -
  let ?v = "normalize_email a @ CHR ''|'' # show_int t @ CHR ''|'' # mac k m"
  have ends: "\<not> is_space (hd ?v)" "\<not> is_space (last ?v)"
    using normalize_hd [OF assms(2)] assms(2) hex_macD(1,3) [OF assms(1), of k m] rstrip_last [of "lstrip (mac k m)"]
    by (simp_all add: strip_def)
  then have "strip ?v = ?v" by (intro strip_id) simp_all
  then show ?thesis
    using normalize_barless [OF assms(3)] hex_macD(4) [OF assms(1), of k m]
    by (simp add: split_on_append split_on_no_occ)
qed

text \<open>C36: the cookie of the second factor is good for one account until it expires: the cookie an administrator is
  given is accepted for an account exactly when that is the account it was given for, up to case and outer blanks,
  and eight hours have not passed.\<close>

theorem mfa_cookie_exact:
  assumes mac: "hex_mac (ae_mac env)" and a: "normalize_email a \<noteq> []" "CHR ''|'' \<notin> set a"
    and t: "0 \<le> now" "now < seconds 253402300800"
    and given: "set_mfa_ok_cookie env a mfa_ttl_seconds now = Ok [(mfa_cookie_name, v)]" and carried: "page_cookie rq mfa_cookie_name = v"
  shows "is_mfa_cookie_valid env rq b later =
    Ok (normalize_email b = normalize_email a \<and> later \<le> seconds (now div 1000000 + mfa_ttl_seconds))"
proof -
  let ?t = "now div 1000000 + mfa_ttl_seconds"
  obtain k where k: "signing_key env ''mfa-cookie'' = Ok k"
    "v = normalize_email a @ CHR ''|'' # show_int ?t @ CHR ''|'' # generate_mfa_signature (ae_mac env) k (normalize_email a) ?t"
    using given a(1) by (auto simp: set_mfa_ok_cookie_def Let_def split: result.splits)
  have "0 \<le> ?t" "?t < 10 ^ 12" using t by (simp_all add: mfa_ttl_seconds_def seconds_def)
  then have "py_int (show_int ?t) = Some ?t" by (rule py_int_show)
  then show ?thesis
    using cookie_split [OF mac a, of ?t k "mfa_text (normalize_email a, ?t)"] carried k compare_mac [OF mac hex_macD(2) [OF mac]]
    by (auto simp: is_mfa_cookie_valid_def signature_text Let_def not_less)
qed

text \<open>Nothing the portal signs for another end opens the gate: the signature of an accepted cookie is not a signature under
  the key of another purpose (form tokens, passkey challenges), and if it is the signature of a second factor
  then of this account and of a time that has not come.\<close>

theorem mfa_signature_has_one_meaning:
  assumes cf: "collision_free (ae_mac env)" and ok: "is_mfa_cookie_valid env rq email now = Ok True"
  shows "\<exists>k t. signing_key env ''mfa-cookie'' = Ok k \<and> now \<le> seconds t \<and>
    ends_with (CHR ''|'' # generate_mfa_signature (ae_mac env) k email t) (strip (page_cookie rq mfa_cookie_name)) \<and>
    (\<forall>purpose k' m. purpose \<noteq> ''mfa-cookie'' \<longrightarrow> signing_key env purpose = Ok k' \<longrightarrow>
      ae_mac env k' m \<noteq> generate_mfa_signature (ae_mac env) k email t) \<and>
    (\<forall>e' t'. generate_mfa_signature (ae_mac env) k e' t' = generate_mfa_signature (ae_mac env) k email t \<longrightarrow>
      normalize_email e' = normalize_email email \<and> t' = t)"
proof -
  from valid_cookieD [OF ok] obtain e s rest t k where
    c: "split_on (CHR ''|'') (strip (page_cookie rq mfa_cookie_name)) = e # s # rest" "rest \<noteq> []"
    and k: "signing_key env ''mfa-cookie'' = Ok k" "now \<le> seconds t"
    and sig: "join_with ''|'' rest = ae_mac env k (mfa_text (normalize_email email, t))"
    by metis
  have "strip (page_cookie rq mfa_cookie_name) = join_with ''|'' (e # s # rest)" using join_split_on c(1) by metis
  also have "\<dots> = (e @ ''|'' @ s) @ CHR ''|'' # join_with ''|'' rest" using c(2) by (cases rest) simp_all
  finally have "ends_with (CHR ''|'' # generate_mfa_signature (ae_mac env) k email t) (strip (page_cookie rq mfa_cookie_name))"
    by (simp add: ends_with_iff sig signature_text)
  moreover have "ae_mac env k' m \<noteq> generate_mfa_signature (ae_mac env) k email t"
    if other: "purpose \<noteq> ''mfa-cookie''" "signing_key env purpose = Ok k'" for purpose k' m
  proof
    assume "ae_mac env k' m = generate_mfa_signature (ae_mac env) k email t"
    then have "k' = k" unfolding signature_text using collisionD [OF cf] by blast
    moreover obtain base where "k = ae_mac env base (''bastion:'' @ ''mfa-cookie'' @ '':v1'')" "k' = ae_mac env base (''bastion:'' @ purpose @ '':v1'')"
      using other(2) k(1) by (auto simp: signing_key_def portal_signing_secret_def split: result.splits)
    ultimately have "''bastion:'' @ ''mfa-cookie'' @ '':v1'' = ''bastion:'' @ purpose @ '':v1''"
      using collisionD [OF cf] \<open>k' = k\<close> by metis
    then show False using other(1) by simp
  qed
  moreover have "normalize_email e' = normalize_email email \<and> t' = t"
    if "generate_mfa_signature (ae_mac env) k e' t' = generate_mfa_signature (ae_mac env) k email t" for e' t'
    using mfa_msg.signature_fixes [OF cf _ _ that [unfolded signature_text]] by simp
  ultimately show ?thesis using k by blast
qed

end
