(* ===== verification/AdminLaws.thy ===== *)
theory AdminLaws
  imports MfaLaws
begin

text \<open>
  Who passes for an administrator, and what the second factor adds: the identity of a request rests on the signed
  headers of nginx or on a break-glass session, and on nothing else.
\<close>

section \<open>What the identity of a request depends on\<close>

definition same_sources :: "'a gdb \<Rightarrow> 'b gdb \<Rightarrow> bool" where
  \<comment> \<open>the journal, the factors and the memory of the process may differ\<close>
  "same_sources db db' \<longleftrightarrow> clock db' = clock db \<and> hot_up db' = hot_up db \<and> bg_rows db' = bg_rows db \<and>
     oidc_rows db' = oidc_rows db \<and> grants db' = grants db \<and> groups db' = groups db \<and> realms db' = realms db"

lemma same_sources_refl: "same_sources db db" by (simp add: same_sources_def)

lemma same_sources_trans: "same_sources a b \<Longrightarrow> same_sources b c \<Longrightarrow> same_sources a c"
  by (simp add: same_sources_def)

lemma same_sourcesD:
  assumes "same_sources db db'"
  shows "clock db' = clock db" and "hot_up db' = hot_up db" and "bg_rows db' = bg_rows db" and "oidc_rows db' = oidc_rows db"
    and "grants db' = grants db" and "groups db' = groups db" and "realms db' = realms db"
  using assms by (simp_all add: same_sources_def)

lemma same_admin_role:
  assumes "same_sources db db'"
  shows "user_has_portal_admin_role db' uid gs slug = user_has_portal_admin_role db uid gs slug"
  unfolding user_has_portal_admin_role_def subject_filter_def resolve_rbac_groups_def session_realm_def find_realm_def
    same_sourcesD [OF assms] ..

lemma same_identity:
  assumes "same_sources db db'"
  shows "user_of_identity env rq trusted h db' = user_of_identity env rq trusted h db"
    and "read_identity_headers env rq db' = read_identity_headers env rq db"
    and "is_portal_admin db' u = is_portal_admin db u"
    and "enrich_user_identity db' u = enrich_user_identity db u"
proof -
  note e = same_sourcesD [OF assms]
  have bg: "breakglass_user env rq db' = breakglass_user env rq db"
    unfolding breakglass_user_def validate_breakglass_cookie_def jti_allowed_def is_breakglass_jti_revoked_def find_bg_def e ..
  have labels: "display_cache_for_user db' uid = display_cache_for_user db uid" for uid
    unfolding display_cache_for_user_def e ..
  show enrich: "enrich_user_identity db' u = enrich_user_identity db u" for u
    unfolding enrich_user_identity_def labels ..
  show "is_portal_admin db' u = is_portal_admin db u"
    unfolding is_portal_admin_def same_admin_role [OF assms] ..
  have via: "is_admin_via_groups env db' = is_admin_via_groups env db"
    unfolding is_admin_via_groups_def portal_default_realm_slugs_def get_default_idp_realm_def e ..
  have finish: "finish_user env trusted h u db' = finish_user env trusted h u db" for trusted h u
    unfolding finish_user_def via enrich same_admin_role [OF assms] ..
  show "user_of_identity env rq trusted h db' = user_of_identity env rq trusted h db"
    unfolding user_of_identity_def bg finish ..
  show "read_identity_headers env rq db' = read_identity_headers env rq db"
    unfolding read_identity_headers_def resolve_portal_realm_slug_def realm_from_bastion_session_def
      validate_oidc_session_cookie_def is_oidc_jti_revoked_def find_oidc_def e ..
qed

lemma log_same: "same_sources db (log_action a b c d i db)"
  by (simp add: same_sources_def)

lemma audit_same: "same_sources db (maybe_audit_identity_header_spoof env rq db)"
proof -
  have "same_sources db (db\<lparr>spoof_seen := x\<rparr>)" for x by (simp add: same_sources_def)
  then show ?thesis
    unfolding maybe_audit_identity_header_spoof_def Let_def
    by (simp only: same_sources_refl split: if_split) (blast intro: same_sources_trans log_same)
qed

lemma context_state:
  "get_user_context env rq db = (r, db') \<Longrightarrow> same_sources db db' \<and> mfa_rows db' = mfa_rows db \<and>
    (nginx_identity_trusted env rq = Ok True \<longrightarrow> db' = db)"
  using audit_same [of db env rq] same_sources_refl [of db]
  by (auto simp: get_user_context_def Let_def maybe_audit_identity_header_spoof_def split: result.splits bool.splits if_splits)

lemma admin_state:
  "require_admin_mfa_exempt env rq db = (r, db') \<Longrightarrow> same_sources db db' \<and> mfa_rows db' = mfa_rows db \<and>
    (nginx_identity_trusted env rq = Ok True \<longrightarrow> db' = db)"
  using context_state [of env rq db]
  by (auto simp: require_admin_mfa_exempt_def require_user_def bind_res_def split: prod.splits result.splits option.splits if_splits)

lemma untrusted_user:
  assumes "nginx_identity_trusted env rq = Ok False"
  shows "fst (get_user_context env rq db) =
    (case breakglass_user env rq db of
       Raise e \<Rightarrow> Raise (AccessSession e)
     | Ok None \<Rightarrow> Ok None
     | Ok (Some name) \<Rightarrow> Ok (Some (finish_user env False (nothing_stated env)
         \<lparr>uc_email = name @ CHR 0x40 # breakglass_email_domain, uc_username = name, uc_groups = ae_admin_groups env, uc_realm = [],
          uc_breakglass = True, uc_admin = False, uc_kc = None, uc_given = None, uc_family = None\<rparr> db)))"
proof -
  have "fst (get_user_context env rq db) = user_of_identity env rq False (nothing_stated env) db"
    using same_identity(1) [OF audit_same] assms by (simp add: get_user_context_def Let_def)
  moreover have "human_label [Some [], Some [], Some []] = None" by code_simp
  ultimately show ?thesis
    by (simp add: user_of_identity_def nothing_stated_def or_text_def opt_str_def Let_def split: result.split option.split)
qed

lemma finish_marks [simp]:
  "uc_breakglass (finish_user env trusted h u db) = uc_breakglass u"
  "uc_groups (finish_user env trusted h u db) = uc_groups u"
  "uc_realm (finish_user env trusted h u db) = uc_realm u"
  by (simp_all add: finish_user_def enrich_user_identity_def Let_def)

text \<open>C12: identity headers count for nothing without the token of nginx: two requests that differ in headers
  only, and carry no valid token, are the same person, and that is the one of the break-glass cookie or nobody.\<close>

theorem untrusted_headers_say_nothing:
  assumes "nginx_identity_trusted env rq = Ok False" and "nginx_identity_trusted env (rq\<lparr>rq_header := f, pg_names := ns\<rparr>) = Ok False"
  shows "fst (get_user_context env (rq\<lparr>rq_header := f, pg_names := ns\<rparr>) db) = fst (get_user_context env rq db) \<and>
    (case fst (get_user_context env rq db) of
       Ok (Some u) \<Rightarrow> uc_breakglass u \<and> (\<exists>name. breakglass_user env rq db = Ok (Some name)) | _ \<Rightarrow> True)"
proof -
  have "breakglass_user env (rq\<lparr>rq_header := f, pg_names := ns\<rparr>) db = breakglass_user env rq db" by (simp add: breakglass_user_def)
  then show ?thesis
    unfolding untrusted_user [OF assms(1)] untrusted_user [OF assms(2)] by (auto split: result.split option.split)
qed

section \<open>Administrators\<close>

definition admin_evidence :: "admin_env \<Rightarrow> page_request \<Rightarrow> 'a gdb \<Rightarrow> user_context \<Rightarrow> bool" where
  "admin_evidence env rq db u \<longleftrightarrow>
     (uc_breakglass u \<and> (\<exists>name. breakglass_user env rq db = Ok (Some name))) \<or>
     (nginx_identity_trusted env rq = Ok True \<and> \<not> uc_breakglass u \<and>
       ((strip (uc_realm u) \<in> set (portal_default_realm_slugs env db) \<and>
         (\<exists>g \<in> set (raw_group_paths (rq_header rq ''X-Groups'')). \<exists>a \<in> set (ae_admin_groups env).
            admin_group_key g = admin_group_key a \<and> admin_group_key a \<noteq> [])) \<or>
        user_has_portal_admin_role db (uc_kc u) (uc_groups u) (Some (uc_realm u))))"

lemma enrich_marks [simp]:
  "uc_breakglass (enrich_user_identity db u) = uc_breakglass u" "uc_groups (enrich_user_identity db u) = uc_groups u"
  "uc_realm (enrich_user_identity db u) = uc_realm u" "uc_kc (enrich_user_identity db u) = uc_kc u"
  "uc_admin (enrich_user_identity db u) = uc_admin u"
  by (simp_all add: enrich_user_identity_def Let_def)

lemma finish_admin:
  "uc_admin (finish_user env trusted h u db) \<longleftrightarrow>
     is_admin_via_groups env db (hi_paths h) (uc_breakglass u) (uc_realm u) \<or>
     user_has_portal_admin_role db (uc_kc (finish_user env trusted h u db)) (uc_groups u) (Some (uc_realm u))"
  by (simp add: finish_user_def Let_def)

lemma group_evidence:
  assumes "is_admin_via_groups env db paths False realm"
  shows "strip realm \<in> set (portal_default_realm_slugs env db) \<and>
    (\<exists>g \<in> set paths. \<exists>a \<in> set (ae_admin_groups env). admin_group_key g = admin_group_key a \<and> admin_group_key a \<noteq> [])"
proof -
  have slug: "strip realm \<in> set (portal_default_realm_slugs env db)" using assms by (auto simp: is_admin_via_groups_def split: if_splits)
  then obtain g where "g \<in> set paths" "admin_group_key g \<in> set (filter (\<lambda>k. k \<noteq> []) (map admin_group_key (ae_admin_groups env)))"
    using assms by (auto simp only: is_admin_via_groups_def list_ex_iff Let_def if_False not_not split: if_splits)
  then show ?thesis using slug by auto metis
qed

lemma context_evidence:
  assumes run: "get_user_context env rq db = (Ok (Some u), db')" and admin: "is_portal_admin db u"
  shows "admin_evidence env rq db u"
proof (cases "uc_breakglass u")
  case bg: True
  have "\<exists>name. breakglass_user env rq db = Ok (Some name)"
  proof (cases "nginx_identity_trusted env rq")
    case (Ok trusted)
    show ?thesis
    proof (cases trusted)
      case True
      then obtain h where "user_of_identity env rq True h db = Ok (Some u)"
        using run Ok by (auto simp: get_user_context_def split: result.splits if_splits)
      then show ?thesis using bg by (auto simp: user_of_identity_def Let_def split: if_splits result.splits option.splits)
    next
      case False
      then show ?thesis using untrusted_user [of env rq db] Ok run by (auto split: result.splits option.splits)
    qed
  qed (use run in \<open>simp add: get_user_context_def\<close>)
  then show ?thesis using bg by (simp add: admin_evidence_def)
next
  case False
  have trusted: "nginx_identity_trusted env rq = Ok True"
  proof (cases "nginx_identity_trusted env rq")
    case (Ok t)
    then show ?thesis
      using untrusted_user [of env rq db] run False by (cases t) (auto split: result.splits option.splits)
  qed (use run in \<open>simp add: get_user_context_def\<close>)
  then obtain h where h: "read_identity_headers env rq db = Ok h" "user_of_identity env rq True h db = Ok (Some u)"
    using run by (auto simp: get_user_context_def split: result.splits if_splits)
  have paths: "hi_paths h = raw_group_paths (rq_header rq ''X-Groups'')"
    using h(1) by (auto simp: read_identity_headers_def split: result.splits)
  obtain u0 where u0: "u = finish_user env True h u0 db"
    using h(2) by (auto simp: user_of_identity_def Let_def split: if_splits result.splits option.splits)
  have "is_admin_via_groups env db (hi_paths h) False (uc_realm u) \<or>
      user_has_portal_admin_role db (uc_kc u) (uc_groups u) (Some (uc_realm u))"
    using admin finish_admin [of env True h u0 db] False unfolding is_portal_admin_def by (auto simp: u0)
  then show ?thesis
    using group_evidence [of env db "hi_paths h" "uc_realm u"] False trusted paths by (auto simp: admin_evidence_def)
qed

lemma exemptD:
  assumes "require_admin_mfa_exempt env rq db = (Ok u, db')"
  obtains v where "get_user_context env rq db = (Ok (Some v), db')" "is_portal_admin db v"
    "u = enrich_user_identity db (v\<lparr>uc_admin := True\<rparr>)"
proof -
  obtain v where v: "get_user_context env rq db = (Ok (Some v), db')" "is_portal_admin db' v"
    "u = enrich_user_identity db' (v\<lparr>uc_admin := True\<rparr>)"
    using assms by (auto simp: require_admin_mfa_exempt_def require_user_def bind_res_def split: prod.splits result.splits option.splits if_splits)
  have "same_sources db db'" using context_state [OF v(1)] by blast
  from same_identity(3,4) [OF this] v that show thesis by metis
qed

lemma exempt_evidence:
  assumes "require_admin_mfa_exempt env rq db = (Ok u, db')"
  shows "admin_evidence env rq db u"
proof -
  obtain v where v: "get_user_context env rq db = (Ok (Some v), db')" "is_portal_admin db v"
    "u = enrich_user_identity db (v\<lparr>uc_admin := True\<rparr>)"
    by (rule exemptD [OF assms])
  have "admin_evidence env rq db v" by (rule context_evidence [OF v(1,2)])
  then show ?thesis by (simp add: v(3) admin_evidence_def)
qed

lemma enrolled_strip: "is_mfa_enrolled db (strip e) = is_mfa_enrolled db e" "is_mfa_cookie_valid env rq (strip e) t = is_mfa_cookie_valid env rq e t"
proof -
  have n: "normalize_email (strip e) = normalize_email e" by (simp add: normalize_email_def)
  show "is_mfa_enrolled db (strip e) = is_mfa_enrolled db e" "is_mfa_cookie_valid env rq (strip e) t = is_mfa_cookie_valid env rq e t"
    unfolding is_mfa_enrolled_def is_mfa_cookie_valid_def n by (rule refl)+
qed

text \<open>C10: a page of the administration opens on evidence and with the second factor: whoever \<open>require_admin\<close> lets through is the
  holder of a break-glass session, or a signed identity that is in an administrator group of the default realm by its
  full path or has a grant of the administrator role; and unless he holds a break-glass session, the page is exempt or he
  has no e-mail address, he shows the cookie of the second factor, or has no factor while none is required, no deadline
  is set or the deadline has not passed.\<close>

theorem admin_pages_need_both_factors:
  assumes run: "require_admin env rq db = (Ok u, db')"
  shows "admin_evidence env rq db u \<and>
    (uc_breakglass u \<or> path_is_mfa_exempt (pg_path rq) \<or> strip (uc_email u) = [] \<or>
     (if is_mfa_enrolled db (uc_email u) then is_mfa_cookie_valid env rq (uc_email u) (clock db) = Ok True
      else \<not> ae_mfa_required env \<or> (case enforcement_deadline env of None \<Rightarrow> True | Some deadline \<Rightarrow> clock db \<le> deadline)))"
proof -
  have first: "require_admin_mfa_exempt env rq db = (Ok u, db')" and gate: "is_ok (enforce_admin_mfa env rq u db')"
    using run by (auto simp: require_admin_def bind_res_def split: prod.splits result.splits)
  have same: "clock db' = clock db" "is_mfa_enrolled db' e = is_mfa_enrolled db e" for e
    using admin_state [OF first] by (simp_all add: same_sources_def is_mfa_enrolled_def find_mfa_def)
  show ?thesis
    using exempt_evidence [OF first] gate
    by (auto simp: enforce_admin_mfa_def Let_def same enrolled_strip not_less split: if_splits result.splits bool.splits option.splits)
qed

end
