(* ===== verification/FactorClaims.thy ===== *)
theory FactorClaims
  imports AdminLaws
begin

text \<open>
  The table of second factors, form tokens and the grace period: what the operations keep, what enables a factor, and
  that the pages that manage the factors do not ask for one.
\<close>

section \<open>The table of factors\<close>

interpretation mfa_table: keyed_table find_mfa "\<lambda>db _ row. put_mfa row db" mf_email
proof
  show "mf_email r = k" if "find_mfa t k = Some r" for t :: "'a adb" and k r
    using first_row_Some that unfolding find_mfa_def by fast
  show "find_mfa (put_mfa r' t) k = Some r'" if "find_mfa t k = Some r" "mf_email r' = k" for t :: "'a adb" and k r r'
  proof -
    have "first_row (\<lambda>r. mf_email r = k) rs = Some r \<Longrightarrow> first_row (\<lambda>r. mf_email r = k) (update_rows (\<lambda>r. mf_email r = k) (\<lambda>_. r') rs) = Some r'"
      for rs using that(2) by (induction rs) (auto simp: update_rows_def first_row_cases)
    then show ?thesis using that by (simp add: find_mfa_def put_mfa_def)
  qed
  show "find_mfa (put_mfa r' t) k' = find_mfa t k'" if "k \<noteq> k'" "mf_email r' = k" for t :: "'a adb" and k k' r'
  proof -
    have "first_row (\<lambda>r. mf_email r = k') (update_rows (\<lambda>r. mf_email r = k) (\<lambda>_. r') rs) = first_row (\<lambda>r. mf_email r = k') rs" for rs
      using that by (induction rs) (auto simp: update_rows_def first_row_cases)
    then show ?thesis using that by (simp add: find_mfa_def put_mfa_def)
  qed
qed

lemma get_or_create:
  assumes "get_or_create_credential e db = (row, db')"
  shows "find_mfa db' (normalize_email e) = Some row" and "mf_email row = normalize_email e"
    and "same_sources db db'" and "mono db' = mono db"
    and "find_mfa db (normalize_email e) = Some row \<and> db' = db \<or>
      find_mfa db (normalize_email e) = None \<and> row = new_mfa_row (normalize_email e) (clock db) \<and> mfa_rows db' = mfa_rows db @ [row]"
proof -
  show 5: "find_mfa db (normalize_email e) = Some row \<and> db' = db \<or>
      find_mfa db (normalize_email e) = None \<and> row = new_mfa_row (normalize_email e) (clock db) \<and> mfa_rows db' = mfa_rows db @ [row]"
    using assms by (auto simp: get_or_create_credential_def Let_def split: option.splits)
  then show f: "find_mfa db' (normalize_email e) = Some row"
    by (auto simp: find_mfa_def first_row_append first_row_cases new_mfa_row_def simp del: first_row_None)
  then show "mf_email row = normalize_email e" by (rule mfa_table.find_key)
  show "same_sources db db'" "mono db' = mono db"
    using assms by (auto simp: get_or_create_credential_def same_sources_def Let_def split: option.splits)
qed

lemma put_mfa_same [simp]: "same_sources db (put_mfa row db)" "clock (put_mfa row db) = clock db"
  by (simp_all add: put_mfa_def same_sources_def)

section \<open>A second factor without the second factor\<close>

lemma exempt_same:
  assumes "same_sources db db'"
  shows "fst (require_admin_mfa_exempt env rq db') = fst (require_admin_mfa_exempt env rq db)"
proof -
  have who: "fst (get_user_context env rq db') = fst (get_user_context env rq db)"
  proof (cases "nginx_identity_trusted env rq")
    case (Ok t)
    have "same_sources (maybe_audit_identity_header_spoof env rq db) (maybe_audit_identity_header_spoof env rq db')"
      using assms audit_same [of db env rq] audit_same [of db' env rq] by (simp add: same_sources_def)
    from same_identity(1) [OF this] same_identity(1,2) [OF assms] Ok show ?thesis
      by (cases t) (simp_all add: get_user_context_def Let_def split: result.split)
  qed (simp add: get_user_context_def)
  obtain r s where r: "get_user_context env rq db = (r, s)" by fastforce
  obtain r' s' where r': "get_user_context env rq db' = (r', s')" by fastforce
  have "same_sources s s'"
    using context_state [OF r] context_state [OF r'] assms by (simp add: same_sources_def)
  from same_identity(3,4) [OF this] who show ?thesis
    by (simp add: require_admin_mfa_exempt_def require_user_def bind_res_def r r' split: result.split option.split)
qed

lemma exempt_again:
  assumes "require_admin_mfa_exempt env rq db = (Ok u, db1)" and "same_sources db1 db2"
  obtains db3 where "require_admin_mfa_exempt env rq db2 = (Ok u, db3)" "same_sources db2 db3" "mfa_rows db3 = mfa_rows db2"
proof -
  have "same_sources db db2" using admin_state [OF assms(1)] assms(2) same_sources_trans by blast
  then have "fst (require_admin_mfa_exempt env rq db2) = Ok u" using exempt_same assms(1) by fastforce
  then show thesis using that admin_state by (metis prod.collapse)
qed

text \<open>C38: the pages that manage the second factor are reached with the first one: whoever is an administrator by a signed
  identity, whatever factors are enrolled for him, may start an enrolment, which replaces the secret and
  switches the old one off, confirm it with a code of the new secret, and is given the cookie that opens the gate.\<close>

theorem second_factor_replaceable:
  assumes first: "require_admin_mfa_exempt env rq db = (Ok u, db1)"
    and email: "normalize_email (uc_email u) \<noteq> []" "CHR ''|'' \<notin> set (uc_email u)"
    and lib: "fl_configured lib" "fl_decrypt lib (fl_encrypt lib raw) = Some raw" "strip (fl_encrypt lib raw) \<noteq> []"
    and code: "list_all is_digit code" "length code = 6" "fl_totp lib raw code (clock db)"
    and keys: "signing_key env ''mfa-cookie'' = Ok k" "signing_key env ''portal'' = Ok k'" "hex_mac (ae_mac env)"
    and now: "0 \<le> clock db" "clock db < seconds 253402300800"
  shows "\<exists>db2 db3 reply v. admin_profile_totp_start env lib raw rq db = (Ok (page_reply 200 [], Some raw), db2) \<and>
    admin_profile_totp_confirm env lib rq code db2 = (Ok reply, db3) \<and> mr_cookies reply = [(mfa_cookie_name, v)] \<and>
    (\<forall>rq'. page_cookie rq' mfa_cookie_name = v \<longrightarrow> is_mfa_cookie_valid env rq' (uc_email u) (clock db3) = Ok True)"
proof -
  let ?e = "normalize_email (uc_email u)"
  obtain row1 db1' where g1: "get_or_create_credential ?e db1 = (row1, db1')" by fastforce
  let ?row = "row1\<lparr>mf_secret := Some (fl_encrypt lib raw), mf_totp := False, mf_updated := clock db1'\<rparr>"
  let ?db2 = "put_mfa ?row db1'"
  have start: "admin_profile_totp_start env lib raw rq db = (Ok (page_reply 200 [], Some raw), ?db2)"
    using lib(1) by (simp add: admin_profile_totp_start_def first generate_new_totp_setup_def g1)
  have to1: "same_sources db db1" using admin_state [OF first] by blast
  have to1': "same_sources db1 db1'" by (rule get_or_create(3) [OF g1])
  then have "same_sources db1 ?db2" using put_mfa_same(1) same_sources_trans by blast
  then obtain db2' where again: "require_admin_mfa_exempt env rq ?db2 = (Ok u, db2')" "same_sources ?db2 db2'" "mfa_rows db2' = mfa_rows ?db2"
    by (rule exempt_again [OF first])
  have found: "find_mfa db2' ?e = Some ?row"
    using mfa_table.find_put_same [OF get_or_create(1) [OF g1], of ?row] get_or_create(2) [OF g1] again(3) by (simp add: find_mfa_def)
  then have g2: "get_or_create_credential (uc_email u) db2' = (?row, db2')" by (simp add: get_or_create_credential_def)
  have clock: "clock db2' = clock db" using to1 to1' again(2) by (simp add: same_sources_def put_mfa_def)
  have sp: "\<not> is_space c \<and> c \<noteq> CHR '' ''" if "c \<in> set code" for c
    using code(1) that by (auto simp: list_all_iff is_digit_def is_space_def)
  have "strip code = code" using sp by (auto intro: strip_no_space)
  moreover have "replace_char (CHR '' '') [] code = code"
    using sp unfolding replace_char_def by (induction code) auto
  moreover have "list_all is_py_digit code" using code(1) by (simp add: list_all_iff is_py_digit_def)
  ultimately have ok: "verify_totp_token lib (fl_encrypt lib raw) code (clock db2')"
    using code(2,3) lib(2) by (simp add: verify_totp_token_def clock)
  let ?v = "?e @ CHR ''|'' # show_int (clock db div 1000000 + mfa_ttl_seconds) @ CHR ''|'' #
    generate_mfa_signature (ae_mac env) k ?e (clock db div 1000000 + mfa_ttl_seconds)"
  have given: "set_mfa_ok_cookie env (uc_email u) mfa_ttl_seconds (clock db) = Ok [(mfa_cookie_name, ?v)]"
    using email(1) keys(1) by (simp add: set_mfa_ok_cookie_def Let_def)
  let ?db3 = "mfa_log (uc_email u) ''admin.mfa_totp_enabled'' (put_mfa (?row\<lparr>mf_totp := True, mf_updated := clock db2'\<rparr>) db2')"
  have confirm: "admin_profile_totp_confirm env lib rq code ?db2 = (Ok (see_other profile_url [(mfa_cookie_name, ?v)]), ?db3)"
    using ok lib(3) keys(2) given
    by (simp add: admin_profile_totp_confirm_def again(1) confirm_totp_enrollment_def g2 has_secret_def opt_str_def with_cookies_def
        with_flash_def clock)
  have "clock ?db3 = clock db" by (simp add: mfa_log_def clock)
  moreover have "clock db \<le> seconds (clock db div 1000000 + mfa_ttl_seconds)"
    using now(1) by (simp add: seconds_def mfa_ttl_seconds_def)
  ultimately have "\<forall>rq'. page_cookie rq' mfa_cookie_name = ?v \<longrightarrow> is_mfa_cookie_valid env rq' (uc_email u) (clock ?db3) = Ok True"
    using mfa_cookie_exact [OF keys(3) email now given] by simp
  with start confirm show ?thesis by (auto simp: see_other_def)
qed

section \<open>What the operations keep\<close>

definition factor_ok :: "mfa_row \<Rightarrow> bool" where
  "factor_ok r \<longleftrightarrow> normalize_email (mf_email r) = mf_email r \<and> (mf_totp r \<longrightarrow> has_secret r) \<and>
     (mf_webauthn r \<longrightarrow> mf_key_id r \<noteq> None \<and> mf_public_key r \<noteq> None)"

definition factors_sound :: "mfa_row list \<Rightarrow> bool" where
  "factors_sound rs \<longleftrightarrow> distinct (map mf_email rs) \<and> (\<forall>r \<in> set rs. factor_ok r) \<and>
     (\<forall>r \<in> set rs. \<forall>q \<in> set rs. mf_key_id r \<noteq> None \<longrightarrow> mf_key_id q = mf_key_id r \<longrightarrow> mf_email q = mf_email r)"

definition factors_kept :: "factor_lib \<Rightarrow> 'a adb \<Rightarrow> 'a adb \<Rightarrow> bool" where
  "factors_kept lib db db' \<longleftrightarrow> (factors_sound (mfa_rows db) \<longrightarrow> factors_sound (mfa_rows db')) \<and>
     (\<forall>e r'. find_mfa db' e = Some r' \<longrightarrow> mf_totp r' \<longrightarrow>
        (\<exists>r. find_mfa db e = Some r \<and> mf_totp r \<and> mf_secret r = mf_secret r') \<or>
        (\<exists>code t. verify_totp_token lib (opt_str (mf_secret r')) code t))"

interpretation factors: run_relation "factors_kept lib" for lib
proof
  show "factors_kept lib s s" for s :: "'a adb" by (simp add: factors_kept_def)
  show "factors_kept lib a c" if "factors_kept lib a b" "factors_kept lib b c" for a b c :: "'a adb"
    using that unfolding factors_kept_def by metis
qed

lemma kept_same: "mfa_rows db' = mfa_rows db \<Longrightarrow> factors_kept lib db db'"
  by (auto simp: factors_kept_def find_mfa_def)

lemma kept_new:
  assumes "get_or_create_credential e db = (row, db')"
  shows "factors_kept lib db db'"
  using get_or_create(5) [OF assms]
proof
  assume "find_mfa db (normalize_email e) = Some row \<and> db' = db"
  then show ?thesis using factors.runs_refl by simp
next
  assume n: "find_mfa db (normalize_email e) = None \<and> row = new_mfa_row (normalize_email e) (clock db) \<and> mfa_rows db' = mfa_rows db @ [row]"
  have "factors_sound (mfa_rows db) \<longrightarrow> factors_sound (mfa_rows db')"
  proof
    have rows: "mfa_rows db' = mfa_rows db @ [row]" and other: "\<forall>q \<in> set (mfa_rows db). mf_email q \<noteq> mf_email row"
      and row: "factor_ok row" "mf_key_id row = None"
      using n by (simp_all add: find_mfa_def new_mfa_row_def factor_ok_def)
    assume s: "factors_sound (mfa_rows db)"
    have "distinct (map mf_email (mfa_rows db @ [row]))" using s other by (auto simp: factors_sound_def)
    moreover have "\<forall>r \<in> set (mfa_rows db @ [row]). factor_ok r" using s row(1) by (auto simp: factors_sound_def)
    moreover have "mf_email q = mf_email r"
      if "r \<in> set (mfa_rows db @ [row])" "q \<in> set (mfa_rows db @ [row])" "mf_key_id r \<noteq> None" "mf_key_id q = mf_key_id r" for r q
    proof -
      have "r \<noteq> row" "q \<noteq> row" using that(3,4) row(2) by auto
      then have "r \<in> set (mfa_rows db)" "q \<in> set (mfa_rows db)" using that(1,2) by auto
      then show ?thesis using s that(3,4) unfolding factors_sound_def by blast
    qed
    ultimately show "factors_sound (mfa_rows db')" unfolding factors_sound_def rows by blast
  qed
  moreover have "find_mfa db k = Some r' \<or> r' = row" if "find_mfa db' k = Some r'" for k r'
    using that n by (auto simp: find_mfa_def first_row_append first_row_cases split: option.splits if_splits simp del: first_row_None)
  moreover have "\<not> mf_totp row" using n by (simp add: new_mfa_row_def)
  ultimately show ?thesis unfolding factors_kept_def by blast
qed

lemma update_emails: "map mf_email (update_rows (\<lambda>q. mf_email q = mf_email r) (\<lambda>_. r) rs) = map mf_email rs"
  by (induction rs) (auto simp: update_rows_def)

lemma kept_put:
  assumes old: "find_mfa db (mf_email r) = Some r0"
    and ok: "factors_sound (mfa_rows db) \<Longrightarrow> factor_ok r0 \<Longrightarrow> factor_ok r"
    and free: "mf_key_id r = None \<or> mf_key_id r = mf_key_id r0 \<or> (\<forall>q \<in> set (mfa_rows db). mf_email q \<noteq> mf_email r \<longrightarrow> mf_key_id q \<noteq> mf_key_id r)"
    and on: "mf_totp r \<Longrightarrow> (mf_totp r0 \<and> mf_secret r0 = mf_secret r) \<or> (\<exists>code t. verify_totp_token lib (opt_str (mf_secret r)) code t)"
  shows "factors_kept lib db (put_mfa r db)"
proof -
  have r0: "r0 \<in> set (mfa_rows db)" "mf_email r0 = mf_email r" using old first_row_Some unfolding find_mfa_def by fast+
  have "factors_sound (mfa_rows (put_mfa r db))" if s: "factors_sound (mfa_rows db)"
  proof -
    have rows: "set (mfa_rows (put_mfa r db)) \<subseteq> insert r {q \<in> set (mfa_rows db). mf_email q \<noteq> mf_email r}"
      by (auto simp: put_mfa_def set_update_rows)
    have "factor_ok r0" using s r0(1) by (simp add: factors_sound_def)
    then have r: "factor_ok r" using ok s by blast
    have taken: "mf_key_id q \<noteq> mf_key_id r" if "q \<in> set (mfa_rows db)" "mf_email q \<noteq> mf_email r" "mf_key_id r \<noteq> None" for q
      using free that s r0 unfolding factors_sound_def by metis
    show ?thesis
      unfolding factors_sound_def
    proof (intro conjI ballI impI)
      show "distinct (map mf_email (mfa_rows (put_mfa r db)))" using s by (simp add: put_mfa_def update_emails factors_sound_def)
      show "factor_ok q" if "q \<in> set (mfa_rows (put_mfa r db))" for q using that rows r s by (auto simp: factors_sound_def)
      show "mf_email q = mf_email p"
        if "p \<in> set (mfa_rows (put_mfa r db))" "q \<in> set (mfa_rows (put_mfa r db))" "mf_key_id p \<noteq> None" "mf_key_id q = mf_key_id p" for p q
        using that rows taken s unfolding factors_sound_def by (metis (mono_tags, lifting) insertE mem_Collect_eq subsetD)
    qed
  qed
  moreover have "find_mfa (put_mfa r db) k = (if k = mf_email r then Some r else find_mfa db k)" for k
    using mfa_table.find_put [OF old refl] by simp
  ultimately show ?thesis using on old unfolding factors_kept_def by (auto split: if_splits)
qed


inductive factor_step :: "admin_env \<Rightarrow> factor_lib \<Rightarrow> 'a adb \<Rightarrow> 'a adb \<Rightarrow> bool" for env lib where
  challenge: "factor_step env lib db (snd (admin_mfa_challenge_post env lib rq code nxt db))"
| start: "factor_step env lib db (snd (admin_profile_totp_start env lib raw rq db))"
| confirm: "factor_step env lib db (snd (admin_profile_totp_confirm env lib rq code db))"
| switch_off: "factor_step env lib db (snd (admin_profile_totp_disable env lib rq code db))"
| register: "factor_step env lib db (snd (admin_webauthn_register_verify env lib rq body db))"
| remove: "factor_step env lib db (snd (admin_webauthn_disable env rq db))"
| assert_key: "factor_step env lib db (snd (admin_webauthn_auth_verify env lib rq body db))"
| elsewhere: "mfa_rows db' = mfa_rows db \<Longrightarrow> factor_step env lib db db'"

lemma admin_kept: "factors_kept lib db (snd (require_admin_mfa_exempt env rq db))"
  using admin_state [of env rq db] kept_same by (metis prod.collapse)

lemma flash_kept: "factors_kept lib s db \<Longrightarrow> factors_kept lib s (snd a) \<Longrightarrow> factors_kept lib s (snd (with_flash env db a))"
  by (simp add: with_flash_def split: result.split)

lemma cookies_kept:
  "factors_kept lib s db \<Longrightarrow> (\<And>cs. factors_kept lib s (snd (f cs))) \<Longrightarrow> factors_kept lib s (snd (with_cookies r db f))"
  by (simp add: with_cookies_def split: result.split)

lemma log_kept: "factors_kept lib db (mfa_log e a db)"
  by (rule kept_same) (simp add: mfa_log_def)

lemma login_kept: "factors_kept lib db (snd (verify_login_totp lib e code db))"
  using kept_new by (fastforce simp: verify_login_totp_def split: prod.split)

lemma created_put:
  assumes g: "get_or_create_credential e db = (row, db')" and r: "mf_email r = mf_email row"
    and ok: "factor_ok row \<Longrightarrow> factor_ok r"
    and free: "mf_key_id r = None \<or> mf_key_id r = mf_key_id row \<or> (\<forall>q \<in> set (mfa_rows db'). mf_email q \<noteq> mf_email r \<longrightarrow> mf_key_id q \<noteq> mf_key_id r)"
    and on: "mf_totp r \<Longrightarrow> (mf_totp row \<and> mf_secret row = mf_secret r) \<or> (\<exists>code t. verify_totp_token lib (opt_str (mf_secret r)) code t)"
  shows "factors_kept lib db (put_mfa r db')"
proof (rule factors.runs_trans)
  show "factors_kept lib db db'" by (rule kept_new [OF g])
  have "find_mfa db' (mf_email r) = Some row" using get_or_create(1,2) [OF g] r by simp
  then show "factors_kept lib db' (put_mfa r db')" by (rule kept_put) (use ok free on in auto)
qed

lemma credentials_kept:
  "factors_kept lib db (snd (generate_new_totp_setup lib raw e db))"
  "factors_kept lib db (snd (confirm_totp_enrollment lib e code db))"
  "factors_kept lib db (snd (disable_totp lib e code db))"
  "factors_kept lib db (snd (verify_and_store_registration lib dom_name e body chal db))"
proof -
  note defs = factor_ok_def has_secret_def Let_def
  show "factors_kept lib db (snd (generate_new_totp_setup lib raw e db))"
  proof -
    obtain row db' where g: "get_or_create_credential (normalize_email e) db = (row, db')" by fastforce
    show ?thesis
      by (auto simp: generate_new_totp_setup_def g defs intro!: created_put [OF g] factors.runs_refl)
  qed
  obtain row db' where g: "get_or_create_credential e db = (row, db')" by fastforce
  note new = kept_new [OF g]
  show "factors_kept lib db (snd (confirm_totp_enrollment lib e code db))"
    by (auto simp: confirm_totp_enrollment_def g defs intro!: created_put [OF g] new)
  show "factors_kept lib db (snd (disable_totp lib e code db))"
    by (auto simp: disable_totp_def g defs intro!: created_put [OF g] new)
  show "factors_kept lib db (snd (verify_and_store_registration lib dom_name e body chal db))"
    by (auto simp: verify_and_store_registration_def g defs list_ex_iff split: option.split
        intro!: created_put [OF g] new factors.runs_refl)
qed

lemma passkey_kept:
  "factors_kept lib db (snd (verify_authentication lib dom_name e body chal db))"
  "factors_kept lib db (disable_webauthn e db)"
proof -
  have row: "mf_email row = k" if "find_mfa db k = Some row" for k row using mfa_table.find_key that by fast
  note put = kept_put
  show "factors_kept lib db (snd (verify_authentication lib dom_name e body chal db))"
    by (auto simp: verify_authentication_def passkey_row_def factor_ok_def has_secret_def row split: option.split
        intro!: kept_put factors.runs_refl)
  show "factors_kept lib db (disable_webauthn e db)"
    by (auto simp: disable_webauthn_def passkey_row_def factor_ok_def has_secret_def row split: option.split
        intro!: kept_put factors.runs_refl)
qed

lemma factor_step_kept: "factor_step env lib db db' \<Longrightarrow> factors_kept lib db db'"
proof (induction rule: factor_step.induct)
  case (challenge db rq code nxt)
  show ?case
    unfolding admin_mfa_challenge_post_def
    by (intro factors.run_intros admin_kept login_kept flash_kept cookies_kept)
      (simp_all add: see_other_def log_kept factors.runs_refl)
next
  case (start db raw rq)
  show ?case
    unfolding admin_profile_totp_start_def
    by (intro factors.run_intros admin_kept credentials_kept flash_kept) (simp_all add: factors.runs_refl)
next
  case (confirm db rq code)
  show ?case
    unfolding admin_profile_totp_confirm_def
    by (intro factors.run_intros admin_kept credentials_kept flash_kept cookies_kept) (simp_all add: log_kept factors.runs_refl)
next
  case (switch_off db rq code)
  show ?case
    unfolding admin_profile_totp_disable_def
    by (intro factors.run_intros admin_kept credentials_kept flash_kept) (simp_all add: log_kept factors.runs_refl)
next
  case (register db rq body)
  show ?case
    unfolding admin_webauthn_register_verify_def
    by (intro factors.run_intros admin_kept credentials_kept cookies_kept) (simp_all add: log_kept factors.runs_refl split: factor_error.split)
next
  case (remove db rq)
  show ?case
    unfolding admin_webauthn_disable_def
    by (intro factors.run_intros admin_kept flash_kept passkey_kept) (simp_all add: passkey_kept factors.runs_trans [OF passkey_kept(2) log_kept])
next
  case (assert_key db rq body)
  show ?case
    unfolding admin_webauthn_auth_verify_def
    by (intro factors.run_intros admin_kept passkey_kept cookies_kept) (simp_all add: log_kept factors.runs_refl)
next
  case (elsewhere db' db)
  then show ?case by (rule kept_same)
qed

text \<open>C17: whatever administrators do with their factors, the table stays sound: one row per normalised address, no factor that is on
  without its secret or key, no key of two accounts; and a TOTP factor that is on either was on with the same secret or
  a code of its secret has been verified.\<close>

theorem factors_sound_always:
  assumes "(factor_step env lib)\<^sup>*\<^sup>* db db'" and "factors_sound (mfa_rows db)"
  shows "factors_sound (mfa_rows db') \<and>
    (\<forall>e r'. find_mfa db' e = Some r' \<longrightarrow> mf_totp r' \<longrightarrow>
       (\<exists>r. find_mfa db e = Some r \<and> mf_totp r \<and> mf_secret r = mf_secret r') \<or>
       (\<exists>code t. verify_totp_token lib (opt_str (mf_secret r')) code t))"
proof -
  from assms(1) have "factors_kept lib db db'"
    by (induction rule: rtranclp_induct) (use factors.runs_refl factors.runs_trans factor_step_kept in blast)+
  then show ?thesis using assms(2) by (simp add: factors_kept_def)
qed

section \<open>Form tokens and the grace period\<close>

text \<open>C37: a form token is good in the browser it was made for and in no other: a token the portal shows on one page is accepted
  from a browser exactly when its cookie holds the nonce of that page.\<close>

theorem csrf_token_bound_to_browser:
  assumes mac: "hex_mac mac" "collision_free mac" and made: "make_csrf_token mac page secret = Ok t"
    and browser: "page_cookie rq csrf_cookie \<noteq> []" "strip (page_header rq ''X-CSRF-Token'') = []"
  shows "verify_csrf_token mac rq secret t = Ok (csrf_nonce rq = csrf_nonce page)"
proof -
  have t: "secret \<noteq> []" "t = mac secret (''csrf:'' @ csrf_nonce page)" using made by (auto simp: make_csrf_token_def split: if_splits)
  have same: "t = mac secret (''csrf:'' @ csrf_nonce rq) \<longleftrightarrow> csrf_nonce rq = csrf_nonce page"
    unfolding t(2) using collisionD [OF mac(2), of secret "''csrf:'' @ csrf_nonce page" secret "''csrf:'' @ csrf_nonce rq"] by auto
  have "strip t = t" "t \<noteq> []" "is_ascii t" using hex_macD [OF mac(1)] t(2) by auto
  then show ?thesis
    using t(1) browser compare_mac [OF mac(1), of t secret "''csrf:'' @ csrf_nonce rq"] same
    by (simp add: verify_csrf_token_def make_csrf_token_def split: bool.split)
qed

definition ceil_days :: "int \<Rightarrow> int" where
  "ceil_days delta = delta div seconds 86400 + (if delta mod seconds 86400 \<noteq> 0 then 1 else 0)"

lemma ceil_days: "(ceil_days delta - 1) * seconds 86400 < delta" "delta \<le> ceil_days delta * seconds 86400"
proof -
  obtain q r where q: "q = delta div seconds 86400" "r = delta mod seconds 86400" by simp
  then have "delta = 86400000000 * q + r" "0 \<le> r" "r < 86400000000" by (simp_all add: seconds_def)
  then show "(ceil_days delta - 1) * seconds 86400 < delta" "delta \<le> ceil_days delta * seconds 86400"
    unfolding ceil_days_def q [symmetric] by (simp_all add: seconds_def)
qed

lemma day_count:
  "max 0 (ceil_days delta) = n \<and> 0 < n \<longleftrightarrow> 0 < n \<and> (n - 1) * seconds 86400 < delta \<and> delta \<le> n * seconds 86400"
  using ceil_days [of delta] by (auto simp: seconds_def)

text \<open>The countdown to the second factor is exact: an administrator without a factor is shown \<open>n\<close> days left exactly while the
  deadline is more than \<open>n - 1\<close> and at most \<open>n\<close> days away, is sent to the enrolment exactly when it has passed, and at
  the deadline itself sees neither.\<close>

theorem grace_countdown_exact:
  assumes "ae_mfa_required env" and "enforcement_deadline env = Some d" and "\<not> is_mfa_enrolled db (uc_email u)"
    and "\<not> uc_breakglass u" "\<not> path_is_mfa_exempt (pg_path rq)" "strip (uc_email u) \<noteq> []"
  shows "(enforce_admin_mfa env rq u db = Ok (Some n) \<longleftrightarrow>
      0 < n \<and> clock db + (n - 1) * seconds 86400 < d \<and> d \<le> clock db + n * seconds 86400) \<and>
    (enforce_admin_mfa env rq u db = Raise (MfaEnrollmentRequired enrollment_redirect) \<longleftrightarrow> d < clock db) \<and>
    (enforce_admin_mfa env rq u db = Ok None \<longleftrightarrow> d = clock db)"
proof -
  let ?left = "max 0 (ceil_days (d - clock db))"
  have run: "enforce_admin_mfa env rq u db =
      (if d < clock db then Raise (MfaEnrollmentRequired enrollment_redirect)
       else Ok (if ?left \<le> 0 then None else Some ?left))"
    using assms by (simp add: enforce_admin_mfa_def enrolled_strip grace_banner_def grace_days_left_def Let_def ceil_days_def)
  have none: "?left \<le> 0 \<longleftrightarrow> d = clock db" if "\<not> d < clock db"
    using that ceil_days [of "d - clock db"] by (auto simp: seconds_def)
  have some: "?left = n \<and> 0 < ?left \<longleftrightarrow> 0 < n \<and> clock db + (n - 1) * seconds 86400 < d \<and> d \<le> clock db + n * seconds 86400"
    using day_count [of "d - clock db" n] by auto
  have late: "clock db + (n - 1) * seconds 86400 < d \<Longrightarrow> 0 < n \<Longrightarrow> \<not> d < clock db"
    by (simp add: seconds_def)
  show ?thesis
  proof (cases "d < clock db")
    case True
    then show ?thesis using run late by auto
  next
    case False
    then show ?thesis using run some none by (auto simp: not_le)
  qed
qed

end
