(* ===== verification/MfaExample.thy ===== *)
theory MfaExample
  imports PortalExample FactorClaims
begin

text \<open>
  A function in place of HMAC that meets both hypotheses, the settings and pages of an administrator of the sample
  portal, and the instances of the claims on form tokens, identities and second factors.
\<close>

section \<open>A collision-free function with hexadecimal values\<close>

definition hex_low :: "int \<Rightarrow> char" where "hex_low d = ''0123456789abcdef'' ! nat d"

definition hex_text :: "string \<Rightarrow> string" where
  "hex_text s = concat (map (\<lambda>c. [hex_low (cp c div 16), hex_low (cp c mod 16)]) s)"

definition sample_mac :: "string \<Rightarrow> string \<Rightarrow> string" where "sample_mac k m = hex_text (enc_field k @ m)"

lemma hex_low_inj: "0 \<le> a \<Longrightarrow> a < 16 \<Longrightarrow> 0 \<le> b \<Longrightarrow> b < 16 \<Longrightarrow> hex_low a = hex_low b \<Longrightarrow> a = b"
  using nth_eq_iff_index_eq [of "''0123456789abcdef''" "nat a" "nat b"] by (simp add: hex_low_def)

lemma hex_text_inj: "hex_text s = hex_text t \<Longrightarrow> s = t"
proof (induction s arbitrary: t)
  case (Cons c s)
  then obtain d t' where t: "t = d # t'" by (cases t) (auto simp: hex_text_def)
  have b: "0 \<le> cp x div 16" "cp x div 16 < 16" "0 \<le> cp x mod 16" "cp x mod 16 < 16" for x using cp_bounds [of x] by simp_all
  have "hex_low (cp c div 16) = hex_low (cp d div 16)" "hex_low (cp c mod 16) = hex_low (cp d mod 16)"
    using Cons.prems by (simp_all add: t hex_text_def)
  then have "cp c div 16 = cp d div 16" "cp c mod 16 = cp d mod 16" using hex_low_inj b by metis+
  then have "cp c = cp d" by (metis div_mult_mod_eq)
  then show ?case using Cons by (simp add: t hex_text_def)
qed (cases t; simp add: hex_text_def)

lemma sample_mac_hex: "hex_mac sample_mac"
proof -
  have digit: "hex_low d \<in> set ''0123456789abcdef''" if "0 \<le> d" "d < 16" for d
    unfolding hex_low_def by (rule nth_mem) (use that in simp)
  have "x \<in> set ''0123456789abcdef''" if "x \<in> set (hex_text s)" for x s
  proof -
    obtain c where "x = hex_low (cp c div 16) \<or> x = hex_low (cp c mod 16)" using \<open>x \<in> set (hex_text s)\<close> by (auto simp: hex_text_def)
    moreover have "0 \<le> cp c div 16" "cp c div 16 < 16" "0 \<le> cp c mod 16" "cp c mod 16 < 16" using cp_bounds [of c] by simp_all
    ultimately show ?thesis using digit by metis
  qed
  then have "set (hex_text s) \<subseteq> set ''0123456789abcdef''" for s by blast
  moreover have "hex_text (enc_field k @ m) \<noteq> []" for k m by (simp add: hex_text_def enc_field_def)
  ultimately show ?thesis unfolding hex_mac_def sample_mac_def by blast
qed

lemma sample_mac_free: "collision_free sample_mac"
  unfolding collision_free_def sample_mac_def
proof (intro allI impI)
  fix k m k' m' assume "hex_text (enc_field k @ m) = hex_text (enc_field k' @ m')"
  then have "dec_field (enc_field k @ m) = dec_field (enc_field k' @ m')" using hex_text_inj by metis
  then show "k = k' \<and> m = m'" by simp
qed

section \<open>An administrator\<close>

definition admin_settings :: admin_env where
  "admin_settings = gate_env.extend sample_env
     \<lparr>ae_mac = sample_mac, ae_sign = \<lparr>si_secret = ''root'', si_cached = None, si_production = True, si_token = ''nginx''\<rparr>,
      ae_admin_groups = [''/admins''], ae_mfa_required = True, ae_mfa_pivot = Some 0, ae_mfa_grace = Some 7, ae_domain = None\<rparr>"

definition admin_tables :: "mfa_row list \<Rightarrow> admin_db" where
  "admin_tables rows = gate_db.extend sample_portal \<lparr>mono = seconds 9000, spoof_seen = [], mfa_rows = rows\<rparr>"

definition ann_headers :: "string \<Rightarrow> string option" where
  "ann_headers = map_of [(''X-Portal-Internal-Token'', ''nginx''), (''X-Email'', ''Ann@corp.test''), (''X-User'', ''ann''),
     (''X-Groups'', ''/admins''), (''X-Portal-Realm-Slug'', ''default'')]"

definition admin_page :: "(string \<Rightarrow> string option) \<Rightarrow> string \<Rightarrow> (string \<times> string) list \<Rightarrow> page_request" where
  "admin_page headers path cookies = \<lparr>rq_header = headers, rq_client = Some ''203.0.113.9'', rq_cookies = cookies, pg_method = ''GET'',
     pg_path = path, pg_query = [], pg_names = [''x-email''], pg_jar = [], pg_state = []\<rparr>"

definition ann_row :: mfa_row where
  "ann_row = (new_mfa_row ''ann@corp.test'' 0)\<lparr>mf_secret := Some ''sealed'', mf_totp := True\<rparr>"

definition ann_admin :: user_context where
  "ann_admin = \<lparr>uc_email = ''Ann@corp.test'', uc_username = ''ann'', uc_groups = [''admins''], uc_realm = ''default'',
     uc_breakglass = False, uc_admin = True, uc_kc = Some ''ann'', uc_given = None, uc_family = None\<rparr>"

definition sample_factors :: factor_lib where
  "sample_factors = \<lparr>fl_configured = True, fl_encrypt = (\<lambda>s. CHR ''s'' # s), fl_decrypt = (\<lambda>s. Some (tl s)),
     fl_totp = (\<lambda>secret code now. code = ''123456''), fl_register = (\<lambda>_ _ _. None), fl_transports = (\<lambda>_. None),
     fl_assert = (\<lambda>_ _ _ _ _. None)\<rparr>"

lemma settings_mac [simp]: "ae_mac admin_settings = sample_mac" by (simp add: admin_settings_def gate_env.defs)

lemma keys_exist: "\<exists>k. signing_key admin_settings purpose = Ok k"
proof -
  have "portal_signing_base sample_mac (ae_sign admin_settings) = Ok ''root''" by code_simp
  then show ?thesis by (simp add: signing_key_def portal_signing_secret_def)
qed

lemma tables_clock [simp]: "clock (admin_tables rows) = seconds 100" 
  by (simp add: admin_tables_def gate_db.defs sample_portal_def session_db.defs)


lemma ann_first: "require_admin_mfa_exempt admin_settings (admin_page ann_headers path cs) (admin_tables rows) =
    (Ok ann_admin, admin_tables rows)"
proof -
  let ?rq = "\<lambda>path cs. admin_page ann_headers path cs"
  have t: "nginx_identity_trusted admin_settings (?rq path cs) = Ok True" by code_simp
  have "fst (require_admin_mfa_exempt admin_settings (?rq path cs) (admin_tables rows)) = Ok ann_admin" by code_simp
  then show ?thesis using admin_state t by (metis prod.collapse)
qed

lemma page_cookies [simp]: "page_cookie (admin_page h path [(name, v)]) name = v"
  by (simp add: admin_page_def opt_str_def)

section \<open>The cookie of the second factor\<close>

lemma ann_email: "normalize_email ''Ann@corp.test'' = ''ann@corp.test''" by code_simp

lemma ann_cookie:
  obtains v k where "set_mfa_ok_cookie admin_settings ''Ann@corp.test'' mfa_ttl_seconds (seconds 100) = Ok [(mfa_cookie_name, v)]"
    "signing_key admin_settings ''mfa-cookie'' = Ok k"
  using keys_exist [of "''mfa-cookie''"] by (auto simp: set_mfa_ok_cookie_def ann_email Let_def)

theorem mfa_cookie_exact_witness:
  "\<exists>v. set_mfa_ok_cookie admin_settings ''Ann@corp.test'' mfa_ttl_seconds (seconds 100) = Ok [(mfa_cookie_name, v)] \<and>
     is_mfa_cookie_valid admin_settings (admin_page ann_headers ''/admin'' [(mfa_cookie_name, v)]) ''ann@corp.test'' (seconds 200) = Ok True \<and>
     is_mfa_cookie_valid admin_settings (admin_page ann_headers ''/admin'' [(mfa_cookie_name, v)]) ''bob@corp.test'' (seconds 200) = Ok False"
proof -
  obtain v k where v: "set_mfa_ok_cookie admin_settings ''Ann@corp.test'' mfa_ttl_seconds (seconds 100) = Ok [(mfa_cookie_name, v)]"
    by (rule ann_cookie)
  have names: "normalize_email ''ann@corp.test'' = ''ann@corp.test''" "normalize_email ''bob@corp.test'' = ''bob@corp.test''" by code_simp+
  have "normalize_email ''Ann@corp.test'' \<noteq> []" "CHR ''|'' \<notin> set ''Ann@corp.test''" "0 \<le> seconds 100" "seconds 100 < seconds 253402300800"
    by (simp_all add: ann_email seconds_def)
  note exact = mfa_cookie_exact [where env = admin_settings, unfolded settings_mac, OF sample_mac_hex this v page_cookies]
  have "seconds 200 \<le> seconds (seconds 100 div 1000000 + mfa_ttl_seconds)" by (simp add: seconds_def mfa_ttl_seconds_def)
  then show ?thesis
    using v exact [of _ _ "''ann@corp.test''" "seconds 200"] exact [of _ _ "''bob@corp.test''" "seconds 200"] by (simp add: ann_email names)
qed

lemma ann_passes:
  obtains v where "is_mfa_cookie_valid admin_settings (admin_page ann_headers path [(mfa_cookie_name, v)]) ''Ann@corp.test'' (seconds 100) = Ok True"
proof -
  obtain v k where v: "set_mfa_ok_cookie admin_settings ''Ann@corp.test'' mfa_ttl_seconds (seconds 100) = Ok [(mfa_cookie_name, v)]"
    "signing_key admin_settings ''mfa-cookie'' = Ok k" by (rule ann_cookie)
  let ?t = "100 + mfa_ttl_seconds"
  have e: "normalize_email ''Ann@corp.test'' \<noteq> []" "CHR ''|'' \<notin> set ''Ann@corp.test''" by (simp_all add: ann_email)
  have t: "py_int (show_int ?t) = Some ?t" by (rule py_int_show) (simp_all add: mfa_ttl_seconds_def)
  have later: "\<not> seconds ?t < seconds 100" by (simp add: seconds_def mfa_ttl_seconds_def)
  have "v = normalize_email ''Ann@corp.test'' @ CHR ''|'' # show_int ?t @ CHR ''|'' #
      sample_mac k (mfa_text (normalize_email ''Ann@corp.test'', ?t))"
    using v e(1) by (simp add: set_mfa_ok_cookie_def Let_def signature_text seconds_def)
  then have parts: "split_on (CHR ''|'') (strip v) = [normalize_email ''Ann@corp.test'', show_int ?t,
      sample_mac k (mfa_text (normalize_email ''Ann@corp.test'', ?t))]"
    using cookie_split [OF sample_mac_hex e, of ?t k] by simp
  have sig: "generate_mfa_signature sample_mac k (normalize_email ''Ann@corp.test'') ?t =
      sample_mac k (mfa_text (normalize_email ''Ann@corp.test'', ?t))"
    by (simp only: signature_text normalize_idem)
  have "is_mfa_cookie_valid admin_settings (admin_page ann_headers path [(mfa_cookie_name, v)]) ''Ann@corp.test'' (seconds 100) = Ok True"
    unfolding is_mfa_cookie_valid_def page_cookies parts Let_def list.case join_with.simps t option.case v(2) result.case settings_mac sig normalize_idem
      compare_mac [OF sample_mac_hex hex_macD(2) [OF sample_mac_hex]]
    using later by simp
  then show thesis by (rule that)
qed

theorem mfa_signature_has_one_meaning_witness:
  "\<exists>k k' t. signing_key admin_settings ''mfa-cookie'' = Ok k \<and> signing_key admin_settings ''webauthn-challenge'' = Ok k' \<and>
     seconds 100 \<le> seconds t \<and> sample_mac k' ''any'' \<noteq> generate_mfa_signature sample_mac k ''Ann@corp.test'' t"
proof -
  obtain v where v: "is_mfa_cookie_valid admin_settings (admin_page ann_headers [] [(mfa_cookie_name, v)]) ''Ann@corp.test'' (seconds 100) = Ok True"
    by (rule ann_passes)
  obtain k' where k': "signing_key admin_settings ''webauthn-challenge'' = Ok k'" using keys_exist by blast
  from mfa_signature_has_one_meaning [where env = admin_settings, unfolded settings_mac, OF sample_mac_free v]
  obtain k t where k: "signing_key admin_settings ''mfa-cookie'' = Ok k" "seconds 100 \<le> seconds t"
    and other: "\<forall>purpose k' m. purpose \<noteq> ''mfa-cookie'' \<longrightarrow> signing_key admin_settings purpose = Ok k' \<longrightarrow>
      sample_mac k' m \<noteq> generate_mfa_signature sample_mac k ''Ann@corp.test'' t"
    by (elim exE conjE)
  have "sample_mac k' ''any'' \<noteq> generate_mfa_signature sample_mac k ''Ann@corp.test'' t"
    by (rule other [rule_format, OF _ k']) simp
  with k k' show ?thesis by (intro exI conjI)
qed

section \<open>Identities\<close>

definition forged_headers :: "string \<Rightarrow> string option" where
  "forged_headers = map_of [(''X-Email'', ''Ann@corp.test''), (''X-Groups'', ''/admins'')]"

theorem untrusted_headers_say_nothing_witness:
  "\<exists>u. fst (get_user_context admin_settings (admin_page forged_headers ''/admin'' [(bg_cookie_name, cookie_of ''u1'')]) (admin_tables [])) = Ok (Some u) \<and>
     uc_username u = ''admin'' \<and> uc_breakglass u"
proof -
  let ?rq = "admin_page (\<lambda>_. None) ''/admin'' [(bg_cookie_name, cookie_of ''u1'')]"
  let ?forged = "?rq\<lparr>rq_header := forged_headers, pg_names := [''x-email'']\<rparr>"
  have t: "nginx_identity_trusted admin_settings ?rq = Ok False" "nginx_identity_trusted admin_settings ?forged = Ok False" by code_simp+
  have same: "?forged = admin_page forged_headers ''/admin'' [(bg_cookie_name, cookie_of ''u1'')]" by (simp add: admin_page_def)
  have "case fst (get_user_context admin_settings ?rq (admin_tables [])) of Ok (Some u) \<Rightarrow> uc_username u = ''admin'' | _ \<Rightarrow> False" by code_simp
  then show ?thesis
    using untrusted_headers_say_nothing [OF t, of "admin_tables []"] unfolding same by (auto split: result.splits option.splits)
qed

lemma ann_enrolled: "is_mfa_enrolled (admin_tables [ann_row]) (uc_email ann_admin)" "strip (uc_email ann_admin) \<noteq> []"
    "\<not> uc_breakglass ann_admin" "uc_email ann_admin = ''Ann@corp.test''"
  by code_simp+

theorem admin_pages_need_both_factors_witness:
  "\<exists>v. require_admin admin_settings (admin_page ann_headers ''/admin/rbac'' [(mfa_cookie_name, v)]) (admin_tables [ann_row]) =
       (Ok ann_admin, admin_tables [ann_row]) \<and>
     admin_evidence admin_settings (admin_page ann_headers ''/admin/rbac'' [(mfa_cookie_name, v)]) (admin_tables [ann_row]) ann_admin \<and>
     is_mfa_cookie_valid admin_settings (admin_page ann_headers ''/admin/rbac'' [(mfa_cookie_name, v)]) ''Ann@corp.test'' (seconds 100) = Ok True"
proof -
  obtain v where v: "is_mfa_cookie_valid admin_settings (admin_page ann_headers ''/admin/rbac'' [(mfa_cookie_name, v)]) ''Ann@corp.test'' (seconds 100) = Ok True"
    by (rule ann_passes)
  let ?rq = "admin_page ann_headers ''/admin/rbac'' [(mfa_cookie_name, v)]"
  have path: "pg_path ?rq = ''/admin/rbac''" "\<not> path_is_mfa_exempt ''/admin/rbac''" by (simp add: admin_page_def) code_simp
  have run: "require_admin admin_settings ?rq (admin_tables [ann_row]) = (Ok ann_admin, admin_tables [ann_row])"
    using v ann_enrolled path by (simp add: require_admin_def bind_res_def ann_first enforce_admin_mfa_def enrolled_strip Let_def)
  from admin_pages_need_both_factors [OF run] run ann_enrolled path show ?thesis by auto
qed

section \<open>Factors\<close>

theorem second_factor_replaceable_witness:
  "\<exists>db2 db3 reply v. is_mfa_enrolled (admin_tables [ann_row]) ''Ann@corp.test'' \<and>
     admin_profile_totp_start admin_settings sample_factors ''new'' (admin_page ann_headers ''/admin/profile'' []) (admin_tables [ann_row]) =
       (Ok (page_reply 200 [], Some ''new''), db2) \<and>
     admin_profile_totp_confirm admin_settings sample_factors (admin_page ann_headers ''/admin/profile'' []) ''123456'' db2 = (Ok reply, db3) \<and>
     mr_cookies reply = [(mfa_cookie_name, v)] \<and>
     is_mfa_cookie_valid admin_settings (admin_page ann_headers ''/admin/rbac'' [(mfa_cookie_name, v)]) ''Ann@corp.test'' (clock db3) = Ok True"
proof -
  obtain k k' where k: "signing_key admin_settings ''mfa-cookie'' = Ok k" "signing_key admin_settings ''portal'' = Ok k'"
    using keys_exist by metis
  have email: "normalize_email (uc_email ann_admin) \<noteq> []" "CHR ''|'' \<notin> set (uc_email ann_admin)" by (simp_all add: ann_enrolled(4) ann_email)
  have lib: "fl_configured sample_factors" "fl_decrypt sample_factors (fl_encrypt sample_factors ''new'') = Some ''new''"
    "strip (fl_encrypt sample_factors ''new'') \<noteq> []" "list_all is_digit ''123456''" "length ''123456'' = 6"
    "fl_totp sample_factors ''new'' ''123456'' (clock (admin_tables [ann_row]))"
    by code_simp+
  have now: "0 \<le> clock (admin_tables [ann_row])" "clock (admin_tables [ann_row]) < seconds 253402300800" by (simp_all add: seconds_def)
  from second_factor_replaceable [where env = admin_settings, unfolded settings_mac, OF ann_first email lib k sample_mac_hex now,
      of "''/admin/profile''" "[]"]
  obtain db2 db3 reply v where r:
    "admin_profile_totp_start admin_settings sample_factors ''new'' (admin_page ann_headers ''/admin/profile'' []) (admin_tables [ann_row]) =
       (Ok (page_reply 200 [], Some ''new''), db2)"
    "admin_profile_totp_confirm admin_settings sample_factors (admin_page ann_headers ''/admin/profile'' []) ''123456'' db2 = (Ok reply, db3)"
    "mr_cookies reply = [(mfa_cookie_name, v)]"
    and ok: "\<forall>rq'. page_cookie rq' mfa_cookie_name = v \<longrightarrow> is_mfa_cookie_valid admin_settings rq' (uc_email ann_admin) (clock db3) = Ok True"
    by blast
  have "is_mfa_cookie_valid admin_settings (admin_page ann_headers ''/admin/rbac'' [(mfa_cookie_name, v)]) (uc_email ann_admin) (clock db3) = Ok True"
    by (rule ok [rule_format]) (rule page_cookies)
  with r ann_enrolled(1) show ?thesis unfolding ann_enrolled(4) by blast
qed

theorem factors_sound_always_witness:
  "factors_sound (mfa_rows (snd (admin_profile_totp_start admin_settings sample_factors ''new''
     (admin_page ann_headers ''/admin/profile'' []) (admin_tables [ann_row]))))"
proof -
  have rows: "mfa_rows (admin_tables [ann_row]) = [ann_row]" by (simp add: admin_tables_def gate_db.defs)
  have row: "factor_ok ann_row" by code_simp
  have "mf_key_id ann_row = None" by (simp add: ann_row_def new_mfa_row_def)
  with row have sound: "factors_sound (mfa_rows (admin_tables [ann_row]))" by (simp add: rows factors_sound_def)
  let ?db = "snd (admin_profile_totp_start admin_settings sample_factors ''new'' (admin_page ann_headers ''/admin/profile'' []) (admin_tables [ann_row]))"
  have "factor_step admin_settings sample_factors (admin_tables [ann_row]) ?db" by (rule factor_step.start)
  from factors_sound_always [OF r_into_rtranclp [of "factor_step admin_settings sample_factors", OF this] sound] show ?thesis ..
qed

theorem csrf_token_bound_to_browser_witness:
  "\<exists>t. make_csrf_token sample_mac (admin_page (\<lambda>_. None) ''/login'' [(csrf_cookie, ''n1'')]) ''key'' = Ok t \<and>
     verify_csrf_token sample_mac (admin_page (\<lambda>_. None) ''/login'' [(csrf_cookie, ''n1'')]) ''key'' t = Ok True \<and>
     verify_csrf_token sample_mac (admin_page (\<lambda>_. None) ''/login'' [(csrf_cookie, ''n2'')]) ''key'' t = Ok False"
proof -
  let ?rq = "\<lambda>n. admin_page (\<lambda>_. None) ''/login'' [(csrf_cookie, n)]"
  obtain t where t: "make_csrf_token sample_mac (?rq ''n1'') ''key'' = Ok t" by (simp add: make_csrf_token_def)
  have nonce: "csrf_nonce (?rq n) = n" for n by (simp add: csrf_nonce_def) (simp add: admin_page_def or_text_def)
  have b: "page_cookie (?rq n) csrf_cookie \<noteq> []" "strip (page_header (?rq n) ''X-CSRF-Token'') = []" if "n \<noteq> []" for n
  proof -
    show "page_cookie (?rq n) csrf_cookie \<noteq> []" using that by simp
    have "strip [] = []" by code_simp
    then show "strip (page_header (?rq n) ''X-CSRF-Token'') = []" by (simp add: admin_page_def opt_str_def)
  qed
  from csrf_token_bound_to_browser [OF sample_mac_hex sample_mac_free t b, of "''n1''"]
    csrf_token_bound_to_browser [OF sample_mac_hex sample_mac_free t b, of "''n2''"] t
  show ?thesis by (simp add: nonce)
qed

theorem grace_countdown_exact_witness:
  "enforce_admin_mfa admin_settings (admin_page ann_headers ''/admin/rbac'' []) ann_admin (admin_tables []) = Ok (Some 7)"
proof -
  let ?rq = "admin_page ann_headers ''/admin/rbac'' []"
  have a: "ae_mfa_required admin_settings" "enforcement_deadline admin_settings = Some (seconds 604800)"
    "\<not> is_mfa_enrolled (admin_tables []) (uc_email ann_admin)" "\<not> uc_breakglass ann_admin" "\<not> path_is_mfa_exempt (pg_path ?rq)"
    "strip (uc_email ann_admin) \<noteq> []"
    by code_simp+
  from grace_countdown_exact [OF a, of 7] show ?thesis by (simp add: seconds_def)
qed

end
