(* ===== verification/FileTree.thy ===== *)
theory FileTree
  imports MfaPages
begin

text \<open>
  The folders and files of the exchange and who may see, download and manage them: the reading half of
  \<open>app/files/service.py\<close>. Rights are access grants on a file or on a folder, and a folder grant holds for everything
  below. \<open>is_portal_admin\<close>, the Keycloak id and the group names of the caller are the record \<open>viewer\<close>.

  The cache of \<open>_folder_has_visible_descendant\<close> only saves repeated searches and is left out; Python's limit on nested
  calls is not modelled, the fuel of the search is the number of folders plus one (\<open>FileViews\<close> shows that it is enough).
\<close>

section \<open>Tables\<close>

record folder_row =
  fo_id :: int
  fo_parent :: "int option"
  fo_name :: string
  fo_by :: string

record file_row =
  fi_id :: int
  fi_folder :: "int option"
  fi_slug :: string
  fi_label :: string
  fi_desc :: "string option"
  fi_cat :: "string option"
  fi_active :: bool
  fi_by :: string

record version_row =
  ve_id :: int
  ve_file :: int
  ve_channel :: string
  ve_label :: string
  ve_status :: string
  ve_name :: string
  ve_type :: "string option"
  ve_size :: int
  ve_sum :: string
  ve_path :: string
  ve_encrypted :: bool
  ve_at :: int
  ve_by :: string
  ve_log :: "string option"

record channel_row =
  ca_id :: int
  ca_file :: "int option"
  ca_folder :: "int option"
  ca_subject :: string
  ca_group :: "int option"
  ca_user :: "string option"
  ca_display :: "string option"
  ca_channel :: string
  ca_by :: string

record files_db = admin_db +
  folders :: "folder_row list"
  files :: "file_row list"
  versions :: "version_row list"
  channels :: "channel_row list"
  disk :: "(string \<times> string) list"  \<comment> \<open>the blobs below the storage root, by relative path\<close>

type_synonym 'a fdb = "'a files_db_scheme"

lemma log_action_files [frame, simp]:
  "folders (log_action a b c d i db) = folders db" "files (log_action a b c d i db) = files db"
  "versions (log_action a b c d i db) = versions db" "channels (log_action a b c d i db) = channels db"
  "disk (log_action a b c d i db) = disk db"
  by (simp_all add: log_action_def split: prod.split)

definition find_folder :: "'a fdb \<Rightarrow> int \<Rightarrow> folder_row option" where
  "find_folder db i = first_row (\<lambda>r. fo_id r = i) (folders db)"

definition find_file :: "'a fdb \<Rightarrow> int \<Rightarrow> file_row option" where
  "find_file db i = first_row (\<lambda>r. fi_id r = i) (files db)"

definition find_version :: "'a fdb \<Rightarrow> int \<Rightarrow> version_row option" where
  "find_version db i = first_row (\<lambda>r. ve_id r = i) (versions db)"

lemma find_folder_in: "find_folder db i = Some r \<Longrightarrow> r \<in> set (folders db) \<and> fo_id r = i"
  unfolding find_folder_def by (rule first_row_Some)

lemma find_file_in: "find_file db i = Some f \<Longrightarrow> f \<in> set (files db) \<and> fi_id f = i"
  unfolding find_file_def by (rule first_row_Some)

lemma find_version_in: "find_version db i = Some v \<Longrightarrow> v \<in> set (versions db) \<and> ve_id v = i"
  unfolding find_version_def by (rule first_row_Some)

section \<open>The way to the root\<close>

function ancestors_from :: "folder_row list \<Rightarrow> int list \<Rightarrow> int option \<Rightarrow> int list" where
  "ancestors_from rows out None = out"
| "ancestors_from rows out (Some i) =
     (if i \<in> set out then out
      else (case first_row (\<lambda>r. fo_id r = i) rows of
              None \<Rightarrow> out @ [i]
            | Some r \<Rightarrow> ancestors_from rows (out @ [i]) (fo_parent r)))"
  by pat_completeness auto

termination
proof (relation "measure (\<lambda>(rows, out, _). card (fo_id ` set rows - set out))")
  fix rows :: "folder_row list" and out i r
  assume "i \<notin> set out" and "first_row (\<lambda>r. fo_id r = i) rows = Some r"
  then have "i \<in> fo_id ` set rows" using first_row_Some by fastforce
  then have "fo_id ` set rows - set (out @ [i]) \<subset> fo_id ` set rows - set out" using \<open>i \<notin> set out\<close> by auto
  then show "((rows, out @ [i], fo_parent r), rows, out, Some i) \<in> measure (\<lambda>(rows, out, _). card (fo_id ` set rows - set out))"
    by (auto intro: psubset_card_mono)
qed simp

definition folder_ancestor_ids :: "'a fdb \<Rightarrow> int option \<Rightarrow> int list" where
  "folder_ancestor_ids db folder_id = ancestors_from (folders db) [] folder_id"

definition folder_path_segments :: "'a fdb \<Rightarrow> int option \<Rightarrow> (int \<times> string) list" where
  "folder_path_segments db folder_id =
     concat (map (\<lambda>i. case find_folder db i of None \<Rightarrow> [] | Some r \<Rightarrow> [(fo_id r, fo_name r)])
       (rev (folder_ancestor_ids db folder_id)))"

definition folder_path_label :: "'a fdb \<Rightarrow> int option \<Rightarrow> string" where
  "folder_path_label db folder_id =
     (case folder_path_segments db folder_id of [] \<Rightarrow> ''Accueil'' | segs \<Rightarrow> join_with '' / '' (map snd segs))"

section \<open>Effective access\<close>

record viewer =
  vw_user :: "string option"
  vw_groups :: "string list"
  vw_admin :: bool

record file_access =
  fa_level :: "string option"
  fa_sources :: "string list"
  fa_ids :: "int list"

definition rank :: "string option \<Rightarrow> int" where "rank level = access_level_rank (opt_str level)"

definition can_view_file :: "file_access \<Rightarrow> bool" where "can_view_file a \<longleftrightarrow> access_level_rank ''view'' \<le> rank (fa_level a)"
definition can_launch_file :: "file_access \<Rightarrow> bool" where "can_launch_file a \<longleftrightarrow> access_level_rank ''launch'' \<le> rank (fa_level a)"
definition can_manage_file :: "file_access \<Rightarrow> bool" where "can_manage_file a \<longleftrightarrow> access_level_rank ''manage'' \<le> rank (fa_level a)"

definition named_groups :: "'a pdb \<Rightarrow> string list \<Rightarrow> group_row list" where
  \<comment> \<open>by name only, whatever the realm\<close>
  "named_groups db group_names = filter (\<lambda>g. gp_name g \<in> set (filter (\<lambda>n. n \<noteq> []) group_names)) (groups db)"

definition group_of :: "group_row list \<Rightarrow> int option \<Rightarrow> group_row option" where
  "group_of gs gid = (if no_id gid then None else first_row (\<lambda>g. Some (gp_id g) = gid) gs)"

definition collect_grants_for_targets ::
  "'a fdb \<Rightarrow> viewer \<Rightarrow> int option \<Rightarrow> int list \<Rightarrow> (grant \<times> string) list" where
  "collect_grants_for_targets db w file_id folder_ids =
     (let gs = named_groups db (vw_groups w);
          on_file = (\<lambda>g. file_id \<noteq> None \<and> gr_resource g = ''file'' \<and> gr_file g = file_id);
          on_folder = (\<lambda>g. gr_resource g = ''folder'' \<and> gr_folder g \<in> Some ` set folder_ids);
          users = filter (\<lambda>g. gr_subject g = ''user'' \<and> gr_user g = vw_user w) (grants db);
          members = filter (\<lambda>g. gr_subject g = ''group'' \<and> gr_group g \<in> Some ` gp_id ` set gs) (grants db);
          path = (\<lambda>g. ''via dossier '' @ folder_path_label db (gr_folder g));
          via = (\<lambda>g pre post. case group_of gs (gr_group g) of None \<Rightarrow> [] | Some r \<Rightarrow> pre @ gp_name r @ post)
      in (if opt_str (vw_user w) = [] then []
          else map (\<lambda>g. (g, ''direct sur le fichier'')) (filter on_file users) @ map (\<lambda>g. (g, path g)) (filter on_folder users)) @
         map (\<lambda>g. (g, ''direct sur le fichier'' @ via g '' (via groupe '' '')'')) (filter on_file members) @
         map (\<lambda>g. (g, path g @ via g '' (groupe '' '')'')) (filter on_folder members))"

definition add_grant_pair :: "grant \<times> string \<Rightarrow> file_access \<Rightarrow> file_access" where
  "add_grant_pair p a =
     \<lparr>fa_level = (if rank (fa_level a) < rank (Some (grant_level (fst p))) then Some (grant_level (fst p)) else fa_level a),
      fa_sources = (if snd p \<in> set (fa_sources a) then fa_sources a else fa_sources a @ [snd p]),
      fa_ids = (if gr_id (fst p) \<in> set (fa_ids a) then fa_ids a else fa_ids a @ [gr_id (fst p)])\<rparr>"

definition no_access :: file_access where "no_access = \<lparr>fa_level = None, fa_sources = [], fa_ids = []\<rparr>"
definition admin_access :: file_access where "admin_access = \<lparr>fa_level = Some ''manage'', fa_sources = [''portal_admin''], fa_ids = []\<rparr>"

definition get_effective_access_on_folder :: "'a fdb \<Rightarrow> viewer \<Rightarrow> int option \<Rightarrow> file_access" where
  "get_effective_access_on_folder db w folder_id =
     (if vw_admin w then admin_access
      else fold add_grant_pair (collect_grants_for_targets db w None (folder_ancestor_ids db folder_id)) no_access)"

definition get_effective_access_on_file :: "'a fdb \<Rightarrow> viewer \<Rightarrow> file_row option \<Rightarrow> file_access" where
  \<comment> \<open>the row of the file; None where the id has no row\<close>
  "get_effective_access_on_file db w fr =
     (if vw_admin w then admin_access
      else (case fr of
              None \<Rightarrow> no_access
            | Some f \<Rightarrow> fold add_grant_pair
                (collect_grants_for_targets db w (Some (fi_id f)) (folder_ancestor_ids db (fi_folder f))) no_access))"

section \<open>Channels and versions\<close>

definition add_source :: "string \<Rightarrow> string list \<Rightarrow> string list" where
  "add_source s ss = (if s \<in> set ss then ss else ss @ [s])"

definition get_effective_file_channel :: "'a fdb \<Rightarrow> viewer \<Rightarrow> int \<Rightarrow> string \<times> string list" where
  "get_effective_file_channel db w file_id =
     (case find_file db file_id of
        None \<Rightarrow> (''stable'', [''default''])
      | Some f \<Rightarrow>
          (let gs = named_groups db (vw_groups w); folder_ids = folder_ancestor_ids db (fi_folder f);
               base = filter (\<lambda>r. ca_channel r = ''beta'' \<and> (ca_file r = Some file_id \<or> ca_folder r \<in> Some ` set folder_ids)) (channels db);
               users = filter (\<lambda>r. ca_subject r = ''user'' \<and> ca_user r = vw_user w) base;
               members = filter (\<lambda>r. ca_subject r = ''group'' \<and> ca_group r \<in> Some ` gp_id ` set gs) base;
               path = (\<lambda>r. ''via dossier '' @ folder_path_label db (ca_folder r));
               of_user = (\<lambda>r. if \<not> no_id (ca_file r) then ''direct'' else path r);
               of_group = (\<lambda>r. case group_of gs (ca_group r) of
                  None \<Rightarrow> if \<not> no_id (ca_file r) then ''via groupe'' else path r
                | Some g \<Rightarrow> if \<not> no_id (ca_file r) then ''via groupe '' @ gp_name g else path r @ '' (groupe '' @ gp_name g @ '')'');
               sources = fold add_source ((if opt_str (vw_user w) = [] then [] else map of_user users) @ map of_group members) []
           in if sources = [] then (''stable'', [''default'']) else (''beta'', sources)))"

definition parse_numeric_version :: "string \<Rightarrow> int option" where
  "parse_numeric_version label = py_int (strip label)"

definition max_numeric_version_label :: "'a fdb \<Rightarrow> int \<Rightarrow> int option" where
  "max_numeric_version_label db file_id =
     fold (\<lambda>v best. case (parse_numeric_version (ve_label v), best) of
             (None, _) \<Rightarrow> best | (Some n, None) \<Rightarrow> Some n | (Some n, Some b) \<Rightarrow> if b < n then Some n else best)
       (filter (\<lambda>v. ve_file v = file_id) (versions db)) None"

definition version_sort_key :: "version_row \<Rightarrow> int list" where
  "version_sort_key v = [case parse_numeric_version (ve_label v) of None \<Rightarrow> -1 | Some n \<Rightarrow> n, ve_at v]"

fun first_max :: "('r \<Rightarrow> 'k :: linorder) \<Rightarrow> 'r list \<Rightarrow> 'r option" where
  \<comment> \<open>\<open>max(rows, key=...)\<close>, the first of equals\<close>
  "first_max key [] = None"
| "first_max key (r # rs) = Some (foldl (\<lambda>m x. if key m < key x then x else m) r rs)"

definition file_channels :: "string list" where "file_channels = [''beta'', ''stable'']"

definition get_effective_file_version :: "'a fdb \<Rightarrow> int \<Rightarrow> string \<Rightarrow> version_row option" where
  "get_effective_file_version db file_id channel =
     (let c = lower (strip (or_text channel ''stable'')); c = (if c \<in> set file_channels then c else ''stable'');
          candidates = (if c = ''beta'' then [''beta'', ''stable''] else [''stable''])
      in first_max version_sort_key
           (filter (\<lambda>v. ve_file v = file_id \<and> ve_status v = ''active'' \<and> ve_channel v \<in> set candidates) (versions db)))"

definition user_can_download_file :: "'a fdb \<Rightarrow> viewer \<Rightarrow> int \<Rightarrow> bool" where
  "user_can_download_file db w file_id = can_launch_file (get_effective_access_on_file db w (find_file db file_id))"

record effective_file =
  ef_file :: file_row
  ef_level :: string
  ef_channel :: string
  ef_version :: "version_row option"
  ef_sources :: "string list"
  ef_ids :: "int list"

definition get_effective_files_for_user :: "'a fdb \<Rightarrow> viewer \<Rightarrow> effective_file list" where
  "get_effective_files_for_user db w =
     sort_key (\<lambda>e. map cp (lower (fi_label (ef_file e))))
       (concat (map (\<lambda>f. let a = get_effective_access_on_file db w (Some f); c = fst (get_effective_file_channel db w (fi_id f))
          in if can_view_file a
             then [\<lparr>ef_file = f, ef_level = or_text (opt_str (fa_level a)) ''view'', ef_channel = c,
                    ef_version = get_effective_file_version db (fi_id f) c, ef_sources = fa_sources a, ef_ids = fa_ids a\<rparr>] else [])
          (filter fi_active (files db))))"

section \<open>Listing a folder\<close>

fun first_true :: "bool option list \<Rightarrow> bool option" where
  \<comment> \<open>a loop that stops at the first true answer; None where an answer does not come\<close>
  "first_true [] = Some False"
| "first_true (None # _) = None"
| "first_true (Some True # _) = Some True"
| "first_true (Some False # bs) = first_true bs"

definition child_folders :: "'a fdb \<Rightarrow> int option \<Rightarrow> folder_row list" where
  "child_folders db folder_id = filter (\<lambda>r. fo_parent r = folder_id) (folders db)"

definition files_in :: "'a fdb \<Rightarrow> int option \<Rightarrow> file_row list" where
  "files_in db folder_id = filter (\<lambda>f. fi_folder f = folder_id \<and> fi_active f) (files db)"

primrec folder_has_visible_descendant :: "nat \<Rightarrow> 'a fdb \<Rightarrow> viewer \<Rightarrow> int \<Rightarrow> bool option" where
  "folder_has_visible_descendant 0 db w folder_id = None"
| "folder_has_visible_descendant (Suc n) db w folder_id =
     first_true
       (map (\<lambda>c. if can_view_file (get_effective_access_on_folder db w (Some (fo_id c))) then Some True
                 else folder_has_visible_descendant n db w (fo_id c)) (child_folders db (Some folder_id)) @
        map (\<lambda>f. Some (can_view_file (get_effective_access_on_file db w (Some f)))) (files_in db (Some folder_id)))"

definition folder_shown :: "'a fdb \<Rightarrow> viewer \<Rightarrow> folder_row \<Rightarrow> bool option" where
  "folder_shown db w r =
     (if can_view_file (get_effective_access_on_folder db w (Some (fo_id r))) then Some True
      else folder_has_visible_descendant (Suc (length (folders db))) db w (fo_id r))"

definition casefold :: "string \<Rightarrow> string" where
  \<comment> \<open>\<open>str.casefold\<close>; the micro sign, which becomes a Greek letter and is the only one to do so, stands for itself\<close>
  "casefold s = concat (map (\<lambda>c. if cp c = 223 then ''ss'' else [lower_char c]) s)"

record folder_entry =
  en_id :: int
  en_name :: string
  en_level :: "string option"
  en_manage :: bool
  en_sources :: "string list"

record file_entry =
  fe_id :: int
  fe_label :: string
  fe_slug :: string
  fe_level :: "string option"
  fe_manage :: bool
  fe_download :: bool
  fe_channel :: string
  fe_version :: "version_row option"  \<comment> \<open>label, id, size and date are read from it\<close>
  fe_sources :: "string list"

record listing =
  li_folder :: "int option"
  li_path :: "(int \<times> string) list"
  li_manage :: bool
  li_folders :: "folder_entry list"
  li_files :: "file_entry list"

definition matches_query :: "string \<Rightarrow> string \<Rightarrow> bool" where
  "matches_query q name \<longleftrightarrow> casefold (strip q) = [] \<or> contains_sub (casefold (strip q)) (casefold name)"

definition list_folder_contents :: "'a fdb \<Rightarrow> viewer \<Rightarrow> int option \<Rightarrow> string \<Rightarrow> listing" where
  "list_folder_contents db w folder_id q =
     \<lparr>li_folder = folder_id, li_path = folder_path_segments db folder_id,
      li_manage = (can_manage_file (get_effective_access_on_folder db w folder_id) \<or> (folder_id = None \<and> vw_admin w)),
      li_folders =
        map (\<lambda>r. let a = get_effective_access_on_folder db w (Some (fo_id r))
                 in \<lparr>en_id = fo_id r, en_name = fo_name r, en_level = fa_level a, en_manage = can_manage_file a, en_sources = fa_sources a\<rparr>)
          (filter (\<lambda>r. folder_shown db w r = Some True \<and> matches_query q (fo_name r))
             (sort_key (\<lambda>r. map cp (fo_name r)) (child_folders db folder_id))),
      li_files =
        map (\<lambda>f. let a = get_effective_access_on_file db w (Some f); c = fst (get_effective_file_channel db w (fi_id f));
                     v = get_effective_file_version db (fi_id f) c
                 in \<lparr>fe_id = fi_id f, fe_label = fi_label f, fe_slug = fi_slug f, fe_level = fa_level a, fe_manage = can_manage_file a,
                     fe_download = (can_launch_file a \<and> v \<noteq> None), fe_channel = c, fe_version = v, fe_sources = fa_sources a\<rparr>)
          (filter (\<lambda>f. can_view_file (get_effective_access_on_file db w (Some f)) \<and> matches_query q (fi_label f))
             (sort_key (\<lambda>f. map cp (fi_label f)) (files_in db folder_id)))\<rparr>"

lemmas file_tree_defs [py_defs] =
  find_folder_def find_file_def find_version_def folder_ancestor_ids_def folder_path_segments_def folder_path_label_def rank_def
  can_view_file_def can_launch_file_def can_manage_file_def named_groups_def group_of_def collect_grants_for_targets_def
  add_grant_pair_def no_access_def admin_access_def get_effective_access_on_folder_def get_effective_access_on_file_def
  add_source_def get_effective_file_channel_def parse_numeric_version_def max_numeric_version_label_def version_sort_key_def
  file_channels_def get_effective_file_version_def user_can_download_file_def get_effective_files_for_user_def child_folders_def
  files_in_def folder_shown_def casefold_def matches_query_def list_folder_contents_def

end
