(* ===== verification/FileStore.thy ===== *)
theory FileStore
  imports FileTree "HOL-Library.AList"
begin

text \<open>
  The writing half of \<open>app/files/service.py\<close>: slugs, folders, files, versions, channels, and the blobs on disk
  (\<open>app/files/blob_crypto.py\<close>). Bytes are Latin-1 text. Fernet is a pair of functions, SHA-256 in hexadecimal a
  third. The storage root holds no symbolic links, so a resolved path is its components without the empty ones and the
  dots. \<open>generate_unique_slug\<close> may search for ever, so what calls it returns None in that case.
\<close>

datatype file_error =
  InvalidPath | InvalidSlug | NumberTooLong | NameRequired | ParentMissing | NameTaken | SlugTaken | BadChannel | LabelRequired
| EmptyUpload | VersionTaken | VersionInactive | FolderMissing | BadAssignment  \<comment> \<open>up to here a \<open>ValueError\<close>\<close>
| ManageRequired  \<comment> \<open>\<open>PermissionError\<close>\<close>
| BlobMissing | BlobTruncated | BadToken | BlobTooLong | ConstraintFailed

definition is_value_error :: "file_error \<Rightarrow> bool" where
  \<comment> \<open>a truncated blob is one, too\<close>
  "is_value_error e \<longleftrightarrow> e \<notin> {ManageRequired, BlobMissing, BadToken, BlobTooLong, ConstraintFailed}"

record file_env = admin_env +
  bl_encrypt :: "string \<Rightarrow> string"
  bl_decrypt :: "string \<Rightarrow> string option"
  bl_chunk :: "int option"

section \<open>Blobs\<close>

definition resolve_storage_path :: "string \<Rightarrow> (file_error, string list) result" where
  \<comment> \<open>the components below the root\<close>
  "resolve_storage_path storage_path =
     (let rel = replace_char (CHR 0x5C) ''/'' (strip storage_path); parts = split_on (CHR ''/'') rel
      in if rel = [] \<or> starts_with ''/'' rel \<or> ''..'' \<in> set parts then Raise InvalidPath
         else Ok (filter (\<lambda>p. p \<noteq> [] \<and> p \<noteq> ''.'') parts))"

abbreviation disk_name :: "string list \<Rightarrow> string" where "disk_name parts \<equiv> join_with ''/'' parts"

definition default_chunk_size :: int where "default_chunk_size = 1 * 1024 * 1024"

definition chunk_size :: "int option \<Rightarrow> int" where
  "chunk_size raw = max (64 * 1024) (case raw of None \<Rightarrow> default_chunk_size | Some v \<Rightarrow> v)"

function chunks :: "nat \<Rightarrow> string \<Rightarrow> string list" where
  "chunks n s = (if s = [] \<or> n = 0 then [] else take n s # chunks n (drop n s))"
  by pat_completeness auto
termination by (relation "measure (\<lambda>(n, s). length s)") auto

declare chunks.simps [simp del]

definition pack_be32 :: "int \<Rightarrow> string" where
  "pack_be32 n = map (\<lambda>d. char_of (n div d mod 256)) [16777216, 65536, 256, 1]"

definition unpack_be32 :: "string \<Rightarrow> int" where
  "unpack_be32 s = foldl (\<lambda>acc c. acc * 256 + cp c) 0 s"

fun write_frames :: "(string \<Rightarrow> string) \<Rightarrow> string list \<Rightarrow> file_error option \<times> string" where
  \<comment> \<open>what reaches the file, and the error of \<open>struct.pack\<close>\<close>
  "write_frames enc [] = (None, [])"
| "write_frames enc (b # bs) =
     (let token = enc b
      in if 4294967296 \<le> int (length token) then (Some BlobTooLong, [])
         else (let (e, rest) = write_frames enc bs in (e, pack_be32 (int (length token)) @ token @ rest)))"

definition write_encrypted_blob :: "file_env \<Rightarrow> string list \<Rightarrow> string \<Rightarrow> 'a fdb \<Rightarrow> file_error option \<times> 'a fdb" where
  "write_encrypted_blob env path data db =
     (let (e, content) = write_frames (bl_encrypt env) (chunks (nat (chunk_size (bl_chunk env))) data)
      in (e, db\<lparr>disk := AList.update (disk_name path) content (disk db)\<rparr>))"

function read_frames :: "(string \<Rightarrow> string option) \<Rightarrow> string \<Rightarrow> string list \<times> file_error option" where
  \<comment> \<open>the blocks yielded, and the error that ends them\<close>
  "read_frames dec s =
     (if s = [] then ([], None)
      else if length s < 4 then ([], Some BlobTruncated)
      else (let n = nat (unpack_be32 (take 4 s)); token = take n (drop 4 s)
            in if length token < n then ([], Some BlobTruncated)
               else (case dec token of
                       None \<Rightarrow> ([], Some BadToken)
                     | Some plain \<Rightarrow> (let (rest, e) = read_frames dec (drop n (drop 4 s)) in (plain # rest, e)))))"
  by pat_completeness auto
termination by (relation "measure (\<lambda>(dec, s). length s)") auto

declare read_frames.simps [simp del]

definition iter_version_plaintext :: "file_env \<Rightarrow> version_row \<Rightarrow> 'a fdb \<Rightarrow> string list \<times> file_error option" where
  \<comment> \<open>a generator: nothing of it runs before the first block is asked for\<close>
  "iter_version_plaintext env v db =
     (case resolve_storage_path (ve_path v) of
        Raise e \<Rightarrow> ([], Some e)
      | Ok path \<Rightarrow>
          (case map_of (disk db) (disk_name path) of
             None \<Rightarrow> ([], Some BlobMissing)
           | Some content \<Rightarrow>
               if ve_encrypted v then read_frames (bl_decrypt env) content
               else (chunks (nat default_chunk_size) content, None)))"

section \<open>Slugs\<close>

definition is_slug_char :: "char \<Rightarrow> bool" where
  "is_slug_char c \<longleftrightarrow> is_digit c \<or> (97 \<le> cp c \<and> cp c \<le> 122)"

definition safe_slug :: "string \<Rightarrow> bool" where
  "safe_slug s \<longleftrightarrow> list_all (\<lambda>w. w \<noteq> [] \<and> list_all is_slug_char w) (split_on (CHR ''-'') s)"

definition validate_slug :: "string \<Rightarrow> (file_error, string) result" where
  "validate_slug slug = (let value = lower (strip slug) in if safe_slug value then Ok value else Raise InvalidSlug)"

fun dash_runs :: "bool \<Rightarrow> string \<Rightarrow> string" where
  \<comment> \<open>\<open>re.sub("[^a-z0-9]+", "-", s)\<close>; the flag says that a run has begun\<close>
  "dash_runs inside [] = []"
| "dash_runs inside (c # s) =
     (if is_slug_char c then c # dash_runs False s else if inside then dash_runs True s else CHR ''-'' # dash_runs True s)"

definition strip_dashes :: "string \<Rightarrow> string" where
  "strip_dashes s = rstrip_char (CHR ''-'') (dropWhile (\<lambda>c. c = CHR ''-'') s)"

definition slugify_label :: "string \<Rightarrow> string" where
  \<comment> \<open>the second substitution finds no run of dashes any more\<close>
  "slugify_label label = or_text (strip_dashes (dash_runs False (lower (strip label)))) ''file''"

definition slug_taken :: "'a fdb \<Rightarrow> string \<Rightarrow> bool" where
  "slug_taken db slug \<longleftrightarrow> list_ex (\<lambda>f. fi_slug f = slug) (files db)"

definition show_number :: "int \<Rightarrow> (file_error, string) result" where
  \<comment> \<open>\<open>str(n)\<close>, which refuses more than 4300 digits\<close>
  "show_number n = (if 4300 < length (show_int (abs n)) then Raise NumberTooLong else Ok (show_int n))"

partial_function (option) number_slug ::
  "string list \<Rightarrow> string \<Rightarrow> int \<Rightarrow> (file_error, string) result option" where
  "number_slug used start n =
     (case show_number n of
        Raise e \<Rightarrow> Some (Raise e)
      | Ok t \<Rightarrow>
          (case validate_slug (take 180 (start @ CHR ''-'' # t)) of
             Raise e \<Rightarrow> Some (Raise e)
           | Ok candidate \<Rightarrow> if candidate \<notin> set used then Some (Ok candidate) else number_slug used start (n + 1)))"

definition slug_stem :: "int option \<Rightarrow> string \<Rightarrow> string" where
  "slug_stem folder_id label =
     (case folder_id of None \<Rightarrow> ''root-'' | Some i \<Rightarrow> CHR ''f'' # show_int i @ ''-'') @ slugify_label label"

definition generate_unique_slug :: "'a fdb \<Rightarrow> int option \<Rightarrow> string \<Rightarrow> (file_error, string) result option" where
  "generate_unique_slug db folder_id label =
     (case validate_slug (take 180 (slug_stem folder_id label)) of
        Raise e \<Rightarrow> Some (Raise e)
      | Ok candidate \<Rightarrow>
          if \<not> slug_taken db candidate then Some (Ok candidate)
          else number_slug (map fi_slug (files db)) (slug_stem folder_id label) 2)"

section \<open>Folders and files\<close>

definition fresh_id :: "int list \<Rightarrow> int" where "fresh_id ids = 1 + foldr max ids 0"

definition create_folder :: "string \<Rightarrow> int option \<Rightarrow> string \<Rightarrow> 'a fdb \<Rightarrow> (file_error, folder_row) result \<times> 'a fdb" where
  "create_folder name parent_folder_id created_by db =
     (let name = strip name
      in if name = [] then (Raise NameRequired, db)
         else if (case parent_folder_id of None \<Rightarrow> False | Some i \<Rightarrow> find_folder db i = None) then (Raise ParentMissing, db)
         else if list_ex (\<lambda>r. fo_parent r = parent_folder_id \<and> fo_name r = name) (folders db) then (Raise NameTaken, db)
         else (let r = \<lparr>fo_id = fresh_id (map fo_id (folders db)), fo_parent = parent_folder_id, fo_name = name, fo_by = created_by\<rparr>
               in (Ok r, db\<lparr>folders := folders db @ [r]\<rparr>)))"

record file_request =
  fq_slug :: string
  fq_label :: string
  fq_desc :: string
  fq_cat :: string
  fq_active :: bool
  fq_folder :: "int option"

definition named_file :: "'a fdb \<Rightarrow> int option \<Rightarrow> string \<Rightarrow> bool" where
  "named_file db folder_id label \<longleftrightarrow> list_ex (\<lambda>f. fi_folder f = folder_id \<and> fi_label f = label) (files db)"

definition create_file_resource ::
  "file_request \<Rightarrow> string \<Rightarrow> 'a fdb \<Rightarrow> ((file_error, file_row) result \<times> 'a fdb) option" where
  "create_file_resource q created_by db =
     (let label = strip (fq_label q)
      in if label = [] then Some (Raise NameRequired, db)
         else if named_file db (fq_folder q) label then Some (Raise NameTaken, db)
         else (case (if fq_slug q = [] then generate_unique_slug db (fq_folder q) label
                     else Some (case validate_slug (fq_slug q) of
                            Raise e \<Rightarrow> Raise e | Ok s \<Rightarrow> if slug_taken db s then Raise SlugTaken else Ok s)) of
                 None \<Rightarrow> None
               | Some (Raise e) \<Rightarrow> Some (Raise e, db)
               | Some (Ok slug) \<Rightarrow>
                   (let f = \<lparr>fi_id = fresh_id (map fi_id (files db)), fi_folder = fq_folder q, fi_slug = slug, fi_label = label,
                             fi_desc = str_opt (strip (fq_desc q)), fi_cat = str_opt (strip (fq_cat q)), fi_active = fq_active q,
                             fi_by = created_by\<rparr>
                    in Some (Ok f, db\<lparr>files := files db @ [f]\<rparr>))))"

definition put_file :: "file_row \<Rightarrow> 'a fdb \<Rightarrow> 'a fdb" where
  "put_file f db = db\<lparr>files := update_rows (\<lambda>r. fi_id r = fi_id f) (\<lambda>_. f) (files db)\<rparr>"

definition rename_file_resource :: "file_row \<Rightarrow> string \<Rightarrow> 'a fdb \<Rightarrow> (file_error, file_row) result \<times> 'a fdb" where
  "rename_file_resource f new_label db =
     (let label = strip new_label
      in if label = [] then (Raise LabelRequired, db)
         else if list_ex (\<lambda>r. fi_folder r = fi_folder f \<and> fi_label r = label \<and> fi_id r \<noteq> fi_id f) (files db) then (Raise NameTaken, db)
         else (Ok (f\<lparr>fi_label := label\<rparr>), put_file (f\<lparr>fi_label := label\<rparr>) db))"

definition archive_file_resource :: "file_row \<Rightarrow> 'a fdb \<Rightarrow> 'a fdb" where
  "archive_file_resource f db = put_file (f\<lparr>fi_active := False\<rparr>) db"

definition delete_file_resource :: "file_row \<Rightarrow> 'a fdb \<Rightarrow> string list \<times> 'a fdb" where
  \<comment> \<open>the paths of the blobs; versions and channel assignments go with the file\<close>
  "delete_file_resource f db =
     (filter (\<lambda>p. p \<noteq> []) (map ve_path (filter (\<lambda>v. ve_file v = fi_id f) (versions db))),
      db\<lparr>grants := filter (\<lambda>g. gr_file g \<noteq> Some (fi_id f)) (grants db),
         files := filter (\<lambda>r. fi_id r \<noteq> fi_id f) (files db),
         versions := filter (\<lambda>v. ve_file v \<noteq> fi_id f) (versions db),
         channels := filter (\<lambda>c. ca_file c \<noteq> Some (fi_id f)) (channels db)\<rparr>)"

section \<open>Versions\<close>

definition upload_bin_name :: string where "upload_bin_name = ''upload.bin''"

definition put_version :: "version_row \<Rightarrow> 'a fdb \<Rightarrow> 'a fdb" where
  "put_version v db = db\<lparr>versions := update_rows (\<lambda>r. ve_id r = ve_id v) (\<lambda>_. v) (versions db)\<rparr>"

record version_request =
  vq_channel :: string
  vq_label :: string
  vq_name :: string
  vq_type :: "string option"
  vq_data :: string
  vq_by :: string
  vq_log :: string
  vq_encrypt :: bool

definition version_path :: "int \<Rightarrow> int \<Rightarrow> string \<Rightarrow> string" where
  "version_path file_id version_id checksum = show_int file_id @ CHR ''/'' # show_int version_id @ CHR ''_'' # take 12 checksum"

definition new_version :: "int \<Rightarrow> int \<Rightarrow> version_request \<Rightarrow> string \<Rightarrow> int \<Rightarrow> version_row" where
  "new_version i file_id q checksum now =
     \<lparr>ve_id = i, ve_file = file_id, ve_channel = lower (strip (vq_channel q)), ve_label = strip (vq_label q), ve_status = ''active'',
      ve_name = or_text (strip (or_text (vq_name q) upload_bin_name)) upload_bin_name, ve_type = vq_type q,
      ve_size = int (length (vq_data q)), ve_sum = checksum, ve_path = show_int file_id @ ''/pending_'' @ take 12 checksum,
      ve_encrypted = vq_encrypt q, ve_at = now, ve_by = vq_by q, ve_log = str_opt (strip (vq_log q))\<rparr>"

definition write_blob :: "file_env \<Rightarrow> bool \<Rightarrow> string list \<Rightarrow> string \<Rightarrow> 'a fdb \<Rightarrow> file_error option \<times> 'a fdb" where
  "write_blob env encrypted path data db =
     (if encrypted then write_encrypted_blob env path data db
      else (None, db\<lparr>disk := AList.update (disk_name path) data (disk db)\<rparr>))"

definition store_file_version ::
  "file_env \<Rightarrow> file_row \<Rightarrow> version_request \<Rightarrow> 'a fdb \<Rightarrow> (file_error, version_row) result \<times> 'a fdb" where
  "store_file_version env f q db =
     (if lower (strip (vq_channel q)) \<notin> set file_channels then (Raise BadChannel, db)
      else if strip (vq_label q) = [] then (Raise LabelRequired, db)
      else if vq_data q = [] then (Raise EmptyUpload, db)
      else if list_ex (\<lambda>v. ve_file v = fi_id f \<and> ve_label v = strip (vq_label q)) (versions db) then (Raise VersionTaken, db)
      else (let checksum = ge_sha env (vq_data q);
                v = new_version (fresh_id (map ve_id (versions db))) (fi_id f) q checksum (clock db);
                rel = version_path (fi_id f) (ve_id v) checksum
            in if list_ex (\<lambda>r. ve_path r = ve_path v) (versions db) then (Raise ConstraintFailed, db)
               else (let db = db\<lparr>versions := versions db @ [v]\<rparr>
                     in case resolve_storage_path rel of
                          Raise e \<Rightarrow> (Raise e, db)
                        | Ok path \<Rightarrow>
                            (case write_blob env (vq_encrypt q) path (vq_data q) db of
                               (Some e, db) \<Rightarrow> (Raise e, db)
                             | (None, db) \<Rightarrow>
                                 (if list_ex (\<lambda>r. ve_id r \<noteq> ve_id v \<and> ve_path r = rel) (versions db) then (Raise ConstraintFailed, db)
                                  else (Ok (v\<lparr>ve_path := rel\<rparr>), put_version (v\<lparr>ve_path := rel\<rparr>) db))))))"

definition set_version_channel :: "version_row \<Rightarrow> string \<Rightarrow> 'a fdb \<Rightarrow> (file_error, version_row) result \<times> 'a fdb" where
  "set_version_channel v channel db =
     (let c = lower (strip channel)
      in if c \<notin> set file_channels then (Raise BadChannel, db)
         else if ve_status v \<noteq> ''active'' then (Raise VersionInactive, db)
         else (Ok (v\<lparr>ve_channel := c\<rparr>), put_version (v\<lparr>ve_channel := c\<rparr>) db))"

definition rename_version_label :: "version_row \<Rightarrow> string \<Rightarrow> 'a fdb \<Rightarrow> (file_error, version_row) result \<times> 'a fdb" where
  "rename_version_label v new_label db =
     (let label = strip new_label
      in if label = [] then (Raise LabelRequired, db)
         else if list_ex (\<lambda>r. ve_file r = ve_file v \<and> ve_label r = label \<and> ve_id r \<noteq> ve_id v) (versions db) then (Raise VersionTaken, db)
         else (Ok (v\<lparr>ve_label := label\<rparr>), put_version (v\<lparr>ve_label := label\<rparr>) db))"

definition promote_file_version :: "version_row \<Rightarrow> 'a fdb \<Rightarrow> (file_error, version_row) result \<times> 'a fdb" where
  "promote_file_version v db = set_version_channel v ''stable'' db"

definition archive_file_version :: "version_row \<Rightarrow> 'a fdb \<Rightarrow> version_row \<times> 'a fdb" where
  "archive_file_version v db = (v\<lparr>ve_status := ''archived''\<rparr>, put_version (v\<lparr>ve_status := ''archived''\<rparr>) db)"

section \<open>Deposits and beta testers\<close>

definition deposit_version ::
  "file_env \<Rightarrow> file_row \<Rightarrow> int \<Rightarrow> bool \<Rightarrow> string \<Rightarrow> string option \<Rightarrow> string \<Rightarrow> string \<Rightarrow> 'a fdb \<Rightarrow>
    (file_error, file_row \<times> version_row \<times> bool) result \<times> 'a fdb" where
  \<comment> \<open>the stable version numbered \<open>n\<close> of a file\<close>
  "deposit_version env f n fresh label content_type data uploaded_by db =
     (case show_number n of
        Raise e \<Rightarrow> (Raise e, db)
      | Ok t \<Rightarrow>
          (case store_file_version env f
             \<lparr>vq_channel = ''stable'', vq_label = t, vq_name = label, vq_type = content_type, vq_data = data,
              vq_by = uploaded_by, vq_log = [], vq_encrypt = True\<rparr> db of
             (Raise e, db) \<Rightarrow> (Raise e, db) | (Ok v, db) \<Rightarrow> (Ok (f, v, fresh), db)))"

definition deposit_file ::
  "file_env \<Rightarrow> viewer \<Rightarrow> int option \<Rightarrow> string \<Rightarrow> string option \<Rightarrow> string \<Rightarrow> string \<Rightarrow> 'a fdb \<Rightarrow>
    ((file_error, file_row \<times> version_row \<times> bool) result \<times> 'a fdb) option" where
  "deposit_file env w folder_id filename content_type data uploaded_by db =
     (let label = or_text (strip filename) upload_bin_name
      in if (case folder_id of None \<Rightarrow> False | Some i \<Rightarrow> find_folder db i = None) then Some (Raise FolderMissing, db)
         else (case first_row (\<lambda>f. fi_folder f = folder_id \<and> fi_label f = label \<and> fi_active f) (files db) of
                 None \<Rightarrow>
                   (if \<not> can_manage_file (get_effective_access_on_folder db w folder_id) \<and> \<not> (folder_id = None \<and> vw_admin w)
                    then Some (Raise ManageRequired, db)
                    else (case create_file_resource \<lparr>fq_slug = [], fq_label = label, fq_desc = [], fq_cat = [], fq_active = True,
                            fq_folder = folder_id\<rparr> uploaded_by db of
                            None \<Rightarrow> None
                          | Some (Raise e, db) \<Rightarrow> Some (Raise e, db)
                          | Some (Ok f, db) \<Rightarrow> Some (deposit_version env f 1 True label content_type data uploaded_by db)))
               | Some f \<Rightarrow>
                   (if \<not> can_manage_file (get_effective_access_on_file db w (Some f)) then Some (Raise ManageRequired, db)
                    else Some (deposit_version env f (opt_int_or (max_numeric_version_label db (fi_id f)) 0 + 1) False
                           label content_type data uploaded_by db))))"

record channel_request =
  cq_file :: "int option"
  cq_folder :: "int option"
  cq_subject :: string
  cq_group :: "int option"
  cq_user :: "string option"
  cq_display :: "string option"

definition channel_check :: "channel_row \<Rightarrow> bool" where
  \<comment> \<open>the CHECK constraint on the subject\<close>
  "channel_check c \<longleftrightarrow>
     (ca_subject c = ''group'' \<and> ca_group c \<noteq> None \<and> ca_user c = None) \<or>
     (ca_subject c = ''user'' \<and> ca_user c \<noteq> None \<and> ca_group c = None)"

definition same_assignment :: "channel_request \<Rightarrow> channel_row \<Rightarrow> bool" where
  "same_assignment q c \<longleftrightarrow>
     (if cq_subject q = ''group'' then ca_subject c = ''group'' \<and> ca_group c = cq_group q
      else ca_subject c = ''user'' \<and> ca_user c = cq_user q) \<and>
     (if cq_file q \<noteq> None then ca_file c = cq_file q else ca_folder c = cq_folder q)"

definition assignment_row :: "int \<Rightarrow> channel_request \<Rightarrow> string \<Rightarrow> channel_row" where
  "assignment_row i q assigned_by =
     \<lparr>ca_id = i, ca_file = cq_file q, ca_folder = cq_folder q, ca_subject = cq_subject q, ca_group = cq_group q,
      ca_user = cq_user q, ca_display = cq_display q, ca_channel = ''beta'', ca_by = assigned_by\<rparr>"

definition assign_beta_channel ::
  "channel_request \<Rightarrow> string \<Rightarrow> 'a fdb \<Rightarrow> (file_error, channel_row) result \<times> 'a fdb" where
  "assign_beta_channel q assigned_by db =
     (let row = assignment_row (fresh_id (map ca_id (channels db))) q assigned_by
      in if (cq_file q = None) = (cq_folder q = None) then (Raise BadAssignment, db)
         else if cq_subject q = ''group'' \<and> (no_id (cq_group q) \<or> \<not> no_text (cq_user q)) then (Raise BadAssignment, db)
         else if cq_subject q = ''user'' \<and> (no_text (cq_user q) \<or> \<not> no_id (cq_group q)) then (Raise BadAssignment, db)
         else if cq_subject q \<noteq> ''group'' \<and> cq_subject q \<noteq> ''user'' then (Raise BadAssignment, db)
         else (case first_row (same_assignment q) (channels db) of
                 Some c \<Rightarrow> (Ok c, db)
               | None \<Rightarrow> if channel_check row then (Ok row, db\<lparr>channels := channels db @ [row]\<rparr>) else (Raise ConstraintFailed, db)))"

definition delete_channel_assignment :: "int \<Rightarrow> 'a fdb \<Rightarrow> channel_row option \<times> 'a fdb" where
  "delete_channel_assignment i db =
     (first_row (\<lambda>c. ca_id c = i) (channels db), db\<lparr>channels := filter (\<lambda>c. ca_id c \<noteq> i) (channels db)\<rparr>)"

lemmas file_store_defs [py_defs] =
  is_value_error_def resolve_storage_path_def default_chunk_size_def chunk_size_def pack_be32_def unpack_be32_def
  write_encrypted_blob_def iter_version_plaintext_def is_slug_char_def safe_slug_def validate_slug_def strip_dashes_def
  slugify_label_def slug_taken_def show_number_def slug_stem_def generate_unique_slug_def fresh_id_def create_folder_def
  named_file_def create_file_resource_def put_file_def rename_file_resource_def archive_file_resource_def delete_file_resource_def
  upload_bin_name_def put_version_def version_path_def new_version_def write_blob_def store_file_version_def
  set_version_channel_def rename_version_label_def promote_file_version_def archive_file_version_def deposit_version_def deposit_file_def
  channel_check_def same_assignment_def assignment_row_def assign_beta_channel_def delete_channel_assignment_def

end
