(* ===== verification/FileRoutes.thy ===== *)
theory FileRoutes
  imports FileStore
begin

text \<open>
  The handlers of the file exchange: \<open>app/files/routes.py\<close> for users, \<open>app/admin/files.py\<close> for administrators,
  \<open>app/files/upload_limits.py\<close> and \<open>app/web/content_disposition.py\<close>. An answer is its status, its headers and the
  stream of its body (JSON texts are left out, the listing is returned beside them); an exception no handler catches is
  an answer 500. Looking up an e-mail address in Keycloak is the argument \<open>mail_of\<close>; the ASCII letters of the
  compatibility decomposition of a text are the argument \<open>nfkd\<close>.
\<close>

record file_reply = response +
  fr_body :: "string list \<times> file_error option"

definition plain_reply :: "int \<Rightarrow> file_reply" where
  "plain_reply status = \<lparr>rp_status = status, rp_headers = [], fr_body = ([], None)\<rparr>"

definition redirect_reply :: "string \<Rightarrow> file_reply" where
  "redirect_reply url = \<lparr>rp_status = 302, rp_headers = [(''location'', url)], fr_body = ([], None)\<rparr>"

section \<open>The name of a download\<close>

definition safe_name_char :: "char \<Rightarrow> bool" where
  "safe_name_char c \<longleftrightarrow> is_digit c \<or> (65 \<le> cp c \<and> cp c \<le> 90) \<or> (97 \<le> cp c \<and> cp c \<le> 122) \<or> c \<in> set ''._ ()[]+,@-''"

definition strip_dots :: "string \<Rightarrow> string" where
  \<comment> \<open>\<open>strip(" .")\<close>\<close>
  "strip_dots s = (let d = (\<lambda>c. c = CHR '' '' \<or> c = CHR ''.'') in rev (dropWhile d (rev (dropWhile d s))))"

definition ascii_fallback :: "(string \<Rightarrow> string) \<Rightarrow> string \<Rightarrow> string" where
  "ascii_fallback nfkd filename =
     or_text (take 150 (strip_dots (map (\<lambda>c. if safe_name_char c then c else CHR ''_'') (nfkd filename)))) ''download.bin''"

definition attachment_disposition :: "(string \<Rightarrow> string) \<Rightarrow> string \<Rightarrow> string" where
  "attachment_disposition nfkd filename =
     (let name = or_text (strip (filter (\<lambda>c. cp c \<noteq> 13 \<and> cp c \<noteq> 10) filename)) ''download.bin'';
          name = map (\<lambda>c. if c = CHR ''/'' \<or> c = CHR 0x5C then CHR ''_'' else c) name
      in ''attachment; filename='' @ CHR 0x22 # ascii_fallback nfkd name @ CHR 0x22 # ''; filename*=UTF-8'' @ CHR 0x27 # CHR 0x27 #
         quote_safe [] name)"

section \<open>The caller\<close>

definition max_upload_bytes :: int where "max_upload_bytes = 32 * 1024 * 1024"

definition mail_shaped :: "string \<Rightarrow> bool" where
  "mail_shaped value \<longleftrightarrow> strip value \<noteq> [] \<and> CHR 0x40 \<in> set (strip value) \<and> \<not> looks_like_uuid (Some (strip value))"

definition require_user_enriched ::
  "file_env \<Rightarrow> (user_context \<Rightarrow> string) \<Rightarrow> page_request \<Rightarrow> 'a fdb \<Rightarrow> (access_error, user_context) result \<times> 'a fdb" where
  "require_user_enriched env mail_of rq db =
     bind_res (require_user (admin_env.truncate env) rq db)
       (\<lambda>u db. (Ok (if uc_breakglass u \<or> opt_str (uc_kc u) = [] \<or> mail_shaped (uc_email u) then u
                    else if mail_shaped (mail_of u) then u\<lparr>uc_email := mail_of u\<rparr> else u), db))"

definition file_portal_admin :: "file_env \<Rightarrow> page_request \<Rightarrow> user_context \<Rightarrow> 'a fdb \<Rightarrow> (access_error, bool) result" where
  "file_portal_admin env rq u db =
     (if uc_breakglass u then Ok True
      else if \<not> is_portal_admin db u then Ok False
      else admin_mfa_satisfied (admin_env.truncate env) rq u db)"

definition file_actor :: "user_context \<Rightarrow> string" where
  "file_actor u = or_text (uc_email u) (or_text (uc_username u) (or_text (opt_str (uc_kc u)) ''unknown''))"

definition file_client_ip :: "file_env \<Rightarrow> page_request \<Rightarrow> string" where
  "file_client_ip env rq = client_ip_from_request (ps_net (ge_ps env)) (page_base rq)"

definition viewer_of :: "user_context \<Rightarrow> bool \<Rightarrow> viewer" where
  "viewer_of u admin = \<lparr>vw_user = uc_kc u, vw_groups = uc_groups u, vw_admin = admin\<rparr>"

definition file_caller ::
  "file_env \<Rightarrow> (user_context \<Rightarrow> string) \<Rightarrow> page_request \<Rightarrow> 'a fdb \<Rightarrow> (access_error, user_context \<times> viewer) result \<times> 'a fdb" where
  "file_caller env mail_of rq db =
     bind_res (require_user_enriched env mail_of rq db)
       (\<lambda>u db. case file_portal_admin env rq u db of Raise e \<Rightarrow> (Raise e, db) | Ok a \<Rightarrow> (Ok (u, viewer_of u a), db))"

definition file_log :: "file_env \<Rightarrow> page_request \<Rightarrow> string \<Rightarrow> string \<Rightarrow> string \<Rightarrow> details \<Rightarrow> 'a fdb \<Rightarrow> 'a fdb" where
  "file_log env rq who action target d = log_action who action (Some target) d (Some (file_client_ip env rq))"

definition file_target :: "int \<Rightarrow> string" where "file_target i = ''file:'' @ show_int i"
definition version_target :: "version_row \<Rightarrow> string" where
  "version_target v = ''file:'' @ show_int (ve_file v) @ '':version:'' @ show_int (ve_id v)"

definition jopt :: "string option \<Rightarrow> jval" where "jopt s = (case s of None \<Rightarrow> JNull | Some t \<Rightarrow> JStr t)"
definition jopt_int :: "int option \<Rightarrow> jval" where "jopt_int i = (case i of None \<Rightarrow> JNull | Some n \<Rightarrow> JInt n)"

definition file_error_status :: "file_error \<Rightarrow> int" where
  "file_error_status e = (if e = ManageRequired then 403 else if is_value_error e then 400 else 500)"

section \<open>Users\<close>

definition api_list_folder ::
  "file_env \<Rightarrow> (user_context \<Rightarrow> string) \<Rightarrow> page_request \<Rightarrow> int option \<Rightarrow> string \<Rightarrow> 'a fdb \<Rightarrow> (access_error, listing) result \<times> 'a fdb" where
  "api_list_folder env mail_of rq folder_id q db =
     bind_res (file_caller env mail_of rq db) (\<lambda>(u, w) db. (Ok (list_folder_contents db w folder_id q), db))"

definition files_create_folder ::
  "file_env \<Rightarrow> (user_context \<Rightarrow> string) \<Rightarrow> page_request \<Rightarrow> string \<Rightarrow> int option \<Rightarrow> 'a fdb \<Rightarrow> (access_error, file_reply) result \<times> 'a fdb" where
  "files_create_folder env mail_of rq name parent_id db =
     bind_res (file_caller env mail_of rq db)
       (\<lambda>(u, w) db.
          if \<not> can_manage_file (get_effective_access_on_folder db w parent_id) \<and> \<not> (parent_id = None \<and> vw_admin w)
          then (Ok (plain_reply 403), db)
          else (case create_folder name parent_id (file_actor u) db of
                  (Raise e, _) \<Rightarrow> (Ok (plain_reply 400), db)
                | (Ok r, db) \<Rightarrow>
                    (Ok (plain_reply 200),
                     file_log env rq (file_actor u) ''file.folder.created'' (''folder:'' @ show_int (fo_id r))
                       [(''name'', JStr (fo_name r)), (''parent_folder_id'', jopt_int parent_id)] db)))"

definition log_published :: "file_env \<Rightarrow> page_request \<Rightarrow> string \<Rightarrow> version_row \<Rightarrow> details \<Rightarrow> 'a fdb \<Rightarrow> 'a fdb" where
  "log_published env rq who v d db = file_log env rq who ''file.version.published'' (version_target v) d db"

definition files_upload ::
  "file_env \<Rightarrow> (user_context \<Rightarrow> string) \<Rightarrow> page_request \<Rightarrow> int option \<Rightarrow> string \<Rightarrow> string option \<Rightarrow> string \<Rightarrow> 'a fdb \<Rightarrow>
    ((access_error, file_reply \<times> listing option) result \<times> 'a fdb) option" where
  \<comment> \<open>a failed deposit is rolled back; what it wrote to the disk stays\<close>
  "files_upload env mail_of rq folder_id filename content_type data db =
     (case file_caller env mail_of rq db of
        (Raise e, db) \<Rightarrow> Some (Raise e, db)
      | (Ok (u, w), db) \<Rightarrow>
          (if max_upload_bytes < int (length data) then Some (Ok (plain_reply 413, None), db)
           else (case deposit_file env w folder_id (or_text filename upload_bin_name) content_type data (file_actor u) db of
                   None \<Rightarrow> None
                 | Some (Raise e, db') \<Rightarrow> Some (Ok (plain_reply (file_error_status e), None), db\<lparr>disk := disk db'\<rparr>)
                 | Some (Ok (f, v, fresh), db) \<Rightarrow>
                     (let who = file_actor u;
                          db = (if fresh
                                then file_log env rq who ''file.created'' (file_target (fi_id f))
                                  [(''label'', JStr (fi_label f)), (''folder_id'', jopt_int folder_id), (''via'', JStr ''deposit'')] db
                                else db);
                          db = log_published env rq who v
                            [(''version_label'', JStr (ve_label v)), (''channel'', JStr (ve_channel v)), (''checksum_sha256'', JStr (ve_sum v)),
                             (''size_bytes'', JInt (ve_size v)), (''via'', JStr ''deposit'')] db
                      in Some (Ok (plain_reply 200, Some (list_folder_contents db w folder_id [])), db)))))"

definition list_file_versions :: "'a fdb \<Rightarrow> int \<Rightarrow> version_row list" where
  "list_file_versions db file_id = sort_key (\<lambda>v. - ve_at v) (filter (\<lambda>v. ve_file v = file_id) (versions db))"

definition files_versions ::
  "file_env \<Rightarrow> (user_context \<Rightarrow> string) \<Rightarrow> page_request \<Rightarrow> int \<Rightarrow> 'a fdb \<Rightarrow> (access_error, file_reply \<times> version_row list) result \<times> 'a fdb" where
  "files_versions env mail_of rq file_id db =
     bind_res (file_caller env mail_of rq db)
       (\<lambda>(u, w) db. case find_file db file_id of
          None \<Rightarrow> (Ok (plain_reply 404, []), db)
        | Some f \<Rightarrow>
            (if \<not> fi_active f then (Ok (plain_reply 404, []), db)
             else if \<not> can_view_file (get_effective_access_on_file db w (Some f)) then (Ok (plain_reply 403, []), db)
             else (Ok (plain_reply 200, list_file_versions db file_id), db)))"

definition with_managed_version ::
  "file_env \<Rightarrow> (user_context \<Rightarrow> string) \<Rightarrow> page_request \<Rightarrow> int \<Rightarrow>
    (user_context \<Rightarrow> version_row \<Rightarrow> 'a fdb \<Rightarrow> (access_error, file_reply) result \<times> 'a fdb) \<Rightarrow> 'a fdb \<Rightarrow> (access_error, file_reply) result \<times> 'a fdb" where
  \<comment> \<open>the beginning the two handlers of a version share\<close>
  "with_managed_version env mail_of rq version_id f db =
     bind_res (file_caller env mail_of rq db)
       (\<lambda>(u, w) db. case find_version db version_id of
          None \<Rightarrow> (Ok (plain_reply 404), db)
        | Some v \<Rightarrow>
            (if \<not> can_manage_file (get_effective_access_on_file db w (find_file db (ve_file v))) then (Ok (plain_reply 403), db)
             else f u v db))"

definition files_version_channel ::
  "file_env \<Rightarrow> (user_context \<Rightarrow> string) \<Rightarrow> page_request \<Rightarrow> int \<Rightarrow> string \<Rightarrow> 'a fdb \<Rightarrow> (access_error, file_reply) result \<times> 'a fdb" where
  "files_version_channel env mail_of rq version_id channel =
     with_managed_version env mail_of rq version_id
       (\<lambda>u v db. case set_version_channel v channel db of
          (Raise e, _) \<Rightarrow> (Ok (plain_reply 400), db)
        | (Ok v, db) \<Rightarrow>
            (Ok (plain_reply 200), file_log env rq (file_actor u) ''file.version.channel_changed'' (version_target v)
               [(''version_label'', JStr (ve_label v)), (''channel'', JStr (ve_channel v))] db))"

definition files_version_patch ::
  "file_env \<Rightarrow> (user_context \<Rightarrow> string) \<Rightarrow> page_request \<Rightarrow> int \<Rightarrow> string option \<Rightarrow> string option \<Rightarrow> 'a fdb \<Rightarrow>
    (access_error, file_reply) result \<times> 'a fdb" where
  "files_version_patch env mail_of rq version_id version_label status =
     with_managed_version env mail_of rq version_id
       (\<lambda>u v db. case (case version_label of None \<Rightarrow> (Ok v, db) | Some l \<Rightarrow> rename_version_label v l db) of
          (Raise e, _) \<Rightarrow> (Ok (plain_reply 400), db)
        | (Ok v, db) \<Rightarrow>
            (let (v, db) = (if status = Some ''archived'' then archive_file_version v db else (v, db))
             in (Ok (plain_reply 200), file_log env rq (file_actor u) ''file.version.updated'' (version_target v)
                   [(''version_label'', JStr (ve_label v)), (''status'', JStr (ve_status v))] db)))"

definition version_reply :: "file_env \<Rightarrow> (string \<Rightarrow> string) \<Rightarrow> version_row \<Rightarrow> 'a fdb \<Rightarrow> file_reply" where
  "version_reply env nfkd v db =
     (let name = or_text (ve_name v) (case find_file db (ve_file v) of None \<Rightarrow> ''download.bin'' | Some f \<Rightarrow> fi_label f)
      in \<lparr>rp_status = 200,
          rp_headers = [(''content-disposition'', attachment_disposition nfkd name), (''x-content-sha256'', ve_sum v),
            (''content-type'', or_text (opt_str (ve_type v)) ''application/octet-stream'')],
          fr_body = iter_version_plaintext env v db\<rparr>)"

definition log_download :: "file_env \<Rightarrow> page_request \<Rightarrow> user_context \<Rightarrow> version_row \<Rightarrow> 'a fdb \<Rightarrow> 'a fdb" where
  "log_download env rq u v =
     file_log env rq (file_actor u) ''file.downloaded'' (version_target v)
       [(''file_id'', JInt (ve_file v)), (''version_id'', JInt (ve_id v)), (''version_label'', JStr (ve_label v)),
        (''checksum_sha256'', JStr (ve_sum v)), (''keycloak_user_id'', jopt (uc_kc u))]"

definition download_version ::
  "file_env \<Rightarrow> (string \<Rightarrow> string) \<Rightarrow> page_request \<Rightarrow> user_context \<Rightarrow> viewer \<Rightarrow> int \<Rightarrow> 'a fdb \<Rightarrow> file_reply \<times> 'a fdb" where
  \<comment> \<open>\<open>files_download_version\<close> for a known caller; its handler for a missing blob is never reached, since the generator
    raises only when the body is sent\<close>
  "download_version env nfkd rq u w version_id db =
     (case find_version db version_id of
        None \<Rightarrow> (plain_reply 404, db)
      | Some v \<Rightarrow>
          (if ve_status v \<noteq> ''active'' then (plain_reply 404, db)
           else if \<not> can_launch_file (get_effective_access_on_file db w (find_file db (ve_file v))) then (plain_reply 403, db)
           else (version_reply env nfkd v (log_download env rq u v db), log_download env rq u v db)))"

definition files_download_version ::
  "file_env \<Rightarrow> (string \<Rightarrow> string) \<Rightarrow> (user_context \<Rightarrow> string) \<Rightarrow> page_request \<Rightarrow> int \<Rightarrow> 'a fdb \<Rightarrow> (access_error, file_reply) result \<times> 'a fdb" where
  "files_download_version env nfkd mail_of rq version_id db =
     bind_res (file_caller env mail_of rq db) (\<lambda>(u, w) db. apfst Ok (download_version env nfkd rq u w version_id db))"

definition files_download_by_slug ::
  "file_env \<Rightarrow> (string \<Rightarrow> string) \<Rightarrow> (user_context \<Rightarrow> string) \<Rightarrow> page_request \<Rightarrow> string \<Rightarrow> 'a fdb \<Rightarrow> (access_error, file_reply) result \<times> 'a fdb" where
  "files_download_by_slug env nfkd mail_of rq slug db =
     bind_res (file_caller env mail_of rq db)
       (\<lambda>(u, w) db. case first_row (\<lambda>f. fi_slug f = slug \<and> fi_active f) (files db) of
          None \<Rightarrow> (Ok (plain_reply 404), db)
        | Some f \<Rightarrow>
            (if \<not> user_can_download_file db w (fi_id f) then (Ok (plain_reply 403), db)
             else (case get_effective_file_version db (fi_id f) (fst (get_effective_file_channel db w (fi_id f))) of
                     None \<Rightarrow> (Ok (plain_reply 404), db)
                   | Some v \<Rightarrow> apfst Ok (download_version env nfkd rq u w (ve_id v) db))))"

definition with_managed_file ::
  "file_env \<Rightarrow> (user_context \<Rightarrow> string) \<Rightarrow> page_request \<Rightarrow> int \<Rightarrow>
    (user_context \<Rightarrow> file_row \<Rightarrow> 'a fdb \<Rightarrow> (access_error, file_reply) result \<times> 'a fdb) \<Rightarrow> 'a fdb \<Rightarrow> (access_error, file_reply) result \<times> 'a fdb" where
  "with_managed_file env mail_of rq file_id k db =
     bind_res (file_caller env mail_of rq db)
       (\<lambda>(u, w) db. case find_file db file_id of
          None \<Rightarrow> (Ok (plain_reply 404), db)
        | Some f \<Rightarrow>
            (if \<not> can_manage_file (get_effective_access_on_file db w (Some f)) then (Ok (plain_reply 403), db) else k u f db))"

definition files_rename ::
  "file_env \<Rightarrow> (user_context \<Rightarrow> string) \<Rightarrow> page_request \<Rightarrow> int \<Rightarrow> string \<Rightarrow> 'a fdb \<Rightarrow> (access_error, file_reply) result \<times> 'a fdb" where
  "files_rename env mail_of rq file_id label =
     with_managed_file env mail_of rq file_id
       (\<lambda>u f db. case rename_file_resource f label db of
          (Raise e, _) \<Rightarrow> (Ok (plain_reply 400), db)
        | (Ok f, db) \<Rightarrow>
            (Ok (plain_reply 200), file_log env rq (file_actor u) ''file.renamed'' (file_target (fi_id f)) [(''label'', JStr (fi_label f))] db))"

definition files_archive ::
  "file_env \<Rightarrow> (user_context \<Rightarrow> string) \<Rightarrow> page_request \<Rightarrow> int \<Rightarrow> 'a fdb \<Rightarrow> (access_error, file_reply) result \<times> 'a fdb" where
  "files_archive env mail_of rq file_id =
     with_managed_file env mail_of rq file_id
       (\<lambda>u f db. (Ok (plain_reply 200),
          file_log env rq (file_actor u) ''file.archived'' (file_target (fi_id f)) [(''label'', JStr (fi_label f))]
            (archive_file_resource f db)))"

section \<open>Administrators\<close>

definition flashed :: "file_env \<Rightarrow> file_reply \<Rightarrow> 'a fdb \<Rightarrow> (access_error, file_reply) result \<times> 'a fdb" where
  "flashed env r db = with_flash (admin_env.truncate env) db (r, db)"

definition file_page :: "int \<Rightarrow> string" where "file_page i = ''/admin/files/'' @ show_int i"

definition wants_json :: "page_request \<Rightarrow> bool" where
  "wants_json rq \<longleftrightarrow> contains_sub ''application/json'' (page_header rq ''Accept'') \<or> page_header rq ''X-Requested-With'' = ''XMLHttpRequest''"

definition checked_box :: "string option \<Rightarrow> bool" where "checked_box v \<longleftrightarrow> v \<noteq> None \<and> v \<noteq> Some ''0''"

definition unlink_blob :: "string \<Rightarrow> 'a fdb \<Rightarrow> 'a fdb" where
  "unlink_blob path db =
     (case resolve_storage_path path of Raise e \<Rightarrow> db | Ok parts \<Rightarrow> db\<lparr>disk := AList.delete (disk_name parts) (disk db)\<rparr>)"

definition version_details :: "version_row \<Rightarrow> details" where
  "version_details v =
     [(''channel'', JStr (ve_channel v)), (''version_label'', JStr (ve_label v)), (''checksum_sha256'', JStr (ve_sum v)),
      (''size_bytes'', JInt (ve_size v)), (''original_filename'', JStr (ve_name v)), (''encrypted'', JBool (ve_encrypted v))]"

record deposit_form =
  df_mode :: string
  df_file :: "int option"
  df_label :: string
  df_slug :: string
  df_desc :: string
  df_version :: version_request

definition deposit_resolve_resource ::
  "deposit_form \<Rightarrow> string \<Rightarrow> string \<Rightarrow> 'a fdb \<Rightarrow> ((file_error, file_row \<times> bool) result \<times> 'a fdb) option" where
  \<comment> \<open>\<open>mode\<close> in lower case; a missing \<open>file_id\<close> and an unknown one are both a \<open>ValueError\<close>\<close>
  "deposit_resolve_resource form mode created_by db =
     (if mode = ''new''
      then (case create_file_resource \<lparr>fq_slug = df_slug form, fq_label = df_label form, fq_desc = df_desc form, fq_cat = [],
                  fq_active = True, fq_folder = None\<rparr> created_by db of
              None \<Rightarrow> None
            | Some (Raise e, db) \<Rightarrow> Some (Raise e, db)
            | Some (Ok f, db) \<Rightarrow> Some (Ok (f, True), db))
      else Some (case (if no_id (df_file form) then None else find_file db (opt_int_or (df_file form) 0)) of
                   None \<Rightarrow> (Raise FolderMissing, db) | Some f \<Rightarrow> (Ok (f, False), db)))"

definition admin_files_deposit ::
  "file_env \<Rightarrow> page_request \<Rightarrow> deposit_form \<Rightarrow> 'a fdb \<Rightarrow> ((access_error, file_reply) result \<times> 'a fdb) option" where
  "admin_files_deposit env rq form db =
     (case require_admin (admin_env.truncate env) rq db of
        (Raise e, db) \<Rightarrow> Some (Raise e, db)
      | (Ok u, db) \<Rightarrow>
          (let mode = lower (strip (df_mode form)); q = (df_version form)\<lparr>vq_by := uc_email u, vq_encrypt := True\<rparr>;
               failed = (\<lambda>e disk'.
                 (let db = db\<lparr>disk := disk'\<rparr>
                  in if \<not> is_value_error e then (Ok (plain_reply 500), db)
                     else if wants_json rq then (Ok (plain_reply 400), db)
                     else flashed env (redirect_reply ''/files'') db))
           in if mode \<noteq> ''new'' \<and> mode \<noteq> ''existing'' then Some (Ok (plain_reply 400), db)
              else if max_upload_bytes < int (length (vq_data q)) then Some (Ok (plain_reply 413), db)
              else (case deposit_resolve_resource form mode (uc_email u) db of
                      None \<Rightarrow> None
                    | Some (Raise e, db') \<Rightarrow> Some (failed e (disk db'))
                    | Some (Ok (f, fresh), db') \<Rightarrow>
                        (case store_file_version env f q db' of
                           (Raise e, db') \<Rightarrow> Some (failed e (disk db'))
                         | (Ok v, db) \<Rightarrow>
                             (let db = (if fresh
                                        then file_log env rq (uc_email u) ''file.created'' (file_target (fi_id f))
                                          [(''slug'', JStr (fi_slug f)), (''label'', JStr (fi_label f)), (''via'', JStr ''deposit'')] db
                                        else db);
                                  db = log_published env rq (uc_email u) v
                                    (version_details v @ [(''via'', JStr ''deposit''), (''mode'', JStr mode)]) db
                              in Some (if wants_json rq then (Ok (plain_reply 200), db)
                                       else flashed env (redirect_reply (file_page (fi_id f))) db))))))"

definition admin_files_create ::
  "file_env \<Rightarrow> page_request \<Rightarrow> string \<Rightarrow> string \<Rightarrow> string \<Rightarrow> string \<Rightarrow> string option \<Rightarrow> 'a fdb \<Rightarrow>
    ((access_error, file_reply) result \<times> 'a fdb) option" where
  "admin_files_create env rq slug label description category is_active db =
     (case require_admin (admin_env.truncate env) rq db of
        (Raise e, db) \<Rightarrow> Some (Raise e, db)
      | (Ok u, db) \<Rightarrow>
          (case create_file_resource \<lparr>fq_slug = slug, fq_label = label, fq_desc = description, fq_cat = category,
                  fq_active = checked_box is_active, fq_folder = None\<rparr> (uc_email u) db of
             None \<Rightarrow> None
           | Some (Raise e, _) \<Rightarrow> Some (flashed env (redirect_reply ''/admin/files'') db)
           | Some (Ok f, db) \<Rightarrow>
               Some (flashed env (redirect_reply (file_page (fi_id f)))
                 (file_log env rq (uc_email u) ''file.created'' (file_target (fi_id f))
                    [(''slug'', JStr (fi_slug f)), (''label'', JStr (fi_label f))] db))))"

definition with_admin_file ::
  "file_env \<Rightarrow> page_request \<Rightarrow> int \<Rightarrow> (user_context \<Rightarrow> file_row \<Rightarrow> 'a fdb \<Rightarrow> (access_error, file_reply) result \<times> 'a fdb) \<Rightarrow> 'a fdb \<Rightarrow>
    (access_error, file_reply) result \<times> 'a fdb" where
  \<comment> \<open>\<open>require_admin\<close> and \<open>_file_or_404\<close>\<close>
  "with_admin_file env rq file_id k db =
     bind_res (require_admin (admin_env.truncate env) rq db)
       (\<lambda>u db. case find_file db file_id of None \<Rightarrow> (Ok (plain_reply 404), db) | Some f \<Rightarrow> k u f db)"

definition with_admin_version ::
  "file_env \<Rightarrow> page_request \<Rightarrow> int \<Rightarrow> int \<Rightarrow> (user_context \<Rightarrow> version_row \<Rightarrow> 'a fdb \<Rightarrow> (access_error, file_reply) result \<times> 'a fdb) \<Rightarrow>
    'a fdb \<Rightarrow> (access_error, file_reply) result \<times> 'a fdb" where
  \<comment> \<open>\<open>require_admin\<close> and \<open>_version_or_404\<close>\<close>
  "with_admin_version env rq file_id version_id k db =
     bind_res (require_admin (admin_env.truncate env) rq db)
       (\<lambda>u db. case first_row (\<lambda>v. ve_id v = version_id \<and> ve_file v = file_id) (versions db) of
          None \<Rightarrow> (Ok (plain_reply 404), db) | Some v \<Rightarrow> k u v db)"

definition admin_files_edit ::
  "file_env \<Rightarrow> page_request \<Rightarrow> int \<Rightarrow> string \<Rightarrow> string \<Rightarrow> string \<Rightarrow> string option \<Rightarrow> 'a fdb \<Rightarrow> (access_error, file_reply) result \<times> 'a fdb" where
  \<comment> \<open>the unique key of folder and label does not hold for files at the root, whose folder is NULL\<close>
  "admin_files_edit env rq file_id label description category is_active =
     with_admin_file env rq file_id
       (\<lambda>u f db. let f = f\<lparr>fi_label := or_text (strip label) (fi_label f), fi_desc := str_opt (strip description),
                          fi_cat := str_opt (strip category), fi_active := checked_box is_active\<rparr>
        in if fi_folder f \<noteq> None \<and> list_ex (\<lambda>r. fi_folder r = fi_folder f \<and> fi_label r = fi_label f \<and> fi_id r \<noteq> fi_id f) (files db)
           then (Ok (plain_reply 500), db)
           else flashed env (redirect_reply (file_page (fi_id f)))
             (file_log env rq (uc_email u) ''file.updated'' (file_target (fi_id f))
                [(''slug'', JStr (fi_slug f)), (''label'', JStr (fi_label f)), (''is_active'', JBool (fi_active f))] (put_file f db)))"

definition admin_files_delete ::
  "file_env \<Rightarrow> page_request \<Rightarrow> int \<Rightarrow> 'a fdb \<Rightarrow> (access_error, file_reply) result \<times> 'a fdb" where
  "admin_files_delete env rq file_id =
     with_admin_file env rq file_id
       (\<lambda>u f db. let (paths, db) = delete_file_resource f db
        in flashed env (redirect_reply ''/admin/files'')
             (file_log env rq (uc_email u) ''file.deleted'' (file_target file_id) [(''slug'', JStr (fi_slug f))] (fold unlink_blob paths db)))"

definition admin_files_upload_version ::
  "file_env \<Rightarrow> page_request \<Rightarrow> int \<Rightarrow> version_request \<Rightarrow> 'a fdb \<Rightarrow> (access_error, file_reply) result \<times> 'a fdb" where
  "admin_files_upload_version env rq file_id q =
     with_admin_file env rq file_id
       (\<lambda>u f db.
          if max_upload_bytes < int (length (vq_data q)) then (Ok (plain_reply 413), db)
          else (case store_file_version env f (q\<lparr>vq_by := uc_email u, vq_encrypt := True\<rparr>) db of
                  (Raise e, db') \<Rightarrow>
                    (if is_value_error e then flashed env (redirect_reply (file_page (fi_id f))) (db\<lparr>disk := disk db'\<rparr>)
                     else (Ok (plain_reply 500), db\<lparr>disk := disk db'\<rparr>))
                | (Ok v, db) \<Rightarrow>
                    flashed env (redirect_reply (file_page (fi_id f))) (log_published env rq (uc_email u) v (version_details v) db)))"

definition admin_files_promote_or_patch_version ::
  "file_env \<Rightarrow> page_request \<Rightarrow> int \<Rightarrow> int \<Rightarrow> string option \<Rightarrow> string option \<Rightarrow> 'a fdb \<Rightarrow> (access_error, file_reply) result \<times> 'a fdb" where
  "admin_files_promote_or_patch_version env rq file_id version_id channel status =
     with_admin_version env rq file_id version_id
       (\<lambda>u v db.
          let details = (\<lambda>v. [(''version_label'', JStr (ve_label v)), (''channel'', JStr (ve_channel v)), (''status'', JStr (ve_status v)),
                              (''checksum_sha256'', JStr (ve_sum v))]);
              finish = (\<lambda>action v d db. flashed env (redirect_reply (file_page file_id)) (file_log env rq (uc_email u) action (version_target v) d db))
          in if pg_method rq = ''POST'' \<and> channel = None \<and> status = None
             then (case promote_file_version v db of
                     (Raise e, _) \<Rightarrow> flashed env (redirect_reply (file_page file_id)) db
                   | (Ok v, db) \<Rightarrow> finish ''file.version.promoted'' v
                       [(''version_label'', JStr (ve_label v)), (''checksum_sha256'', JStr (ve_sum v)), (''channel'', JStr (ve_channel v))] db)
             else if channel = Some ''stable'' \<and> ve_channel v = ''beta''
             then (case promote_file_version v db of
                     (Raise e, _) \<Rightarrow> (Ok (plain_reply 500), db)
                   | (Ok v, db) \<Rightarrow> finish ''file.version.promoted'' v (details v) db)
             else if status = Some ''archived''
             then (let (v, db) = archive_file_version v db in finish ''file.version.archived'' v (details v) db)
             else (Ok (plain_reply 400), db))"

definition admin_files_archive_version ::
  "file_env \<Rightarrow> page_request \<Rightarrow> int \<Rightarrow> int \<Rightarrow> 'a fdb \<Rightarrow> (access_error, file_reply) result \<times> 'a fdb" where
  "admin_files_archive_version env rq file_id version_id =
     with_admin_version env rq file_id version_id
       (\<lambda>u v db. let (v, db) = archive_file_version v db
        in flashed env (redirect_reply (file_page file_id))
             (file_log env rq (uc_email u) ''file.version.archived'' (version_target v)
                [(''version_label'', JStr (ve_label v)), (''channel'', JStr (ve_channel v)), (''checksum_sha256'', JStr (ve_sum v))] db))"

definition admin_files_assign_beta ::
  "file_env \<Rightarrow> page_request \<Rightarrow> int \<Rightarrow> string \<Rightarrow> int option \<Rightarrow> string option \<Rightarrow> string option \<Rightarrow> 'a fdb \<Rightarrow>
    (access_error, file_reply) result \<times> 'a fdb" where
  "admin_files_assign_beta env rq file_id subject_type group_id user_id display =
     with_admin_file env rq file_id
       (\<lambda>u f db. case assign_beta_channel \<lparr>cq_file = Some file_id, cq_folder = None, cq_subject = subject_type, cq_group = group_id,
                  cq_user = str_opt (opt_str user_id), cq_display = str_opt (opt_str display)\<rparr> (uc_email u) db of
          (Raise e, _) \<Rightarrow> if is_value_error e then flashed env (redirect_reply (file_page file_id)) db else (Ok (plain_reply 500), db)
        | (Ok c, db) \<Rightarrow> flashed env (redirect_reply (file_page file_id))
            (file_log env rq (uc_email u) ''file.channel_assignment.created'' (file_target file_id @ '':channel:'' @ show_int (ca_id c))
               [(''file_id'', JInt file_id), (''subject_type'', JStr (ca_subject c)), (''rbac_group_id'', jopt_int (ca_group c)),
                (''keycloak_user_id'', jopt (ca_user c)), (''channel'', JStr (ca_channel c))] db))"

definition admin_files_unassign_beta ::
  "file_env \<Rightarrow> page_request \<Rightarrow> int \<Rightarrow> int \<Rightarrow> 'a fdb \<Rightarrow> (access_error, file_reply) result \<times> 'a fdb" where
  "admin_files_unassign_beta env rq file_id assignment_id =
     with_admin_file env rq file_id
       (\<lambda>u f db. case first_row (\<lambda>c. ca_id c = assignment_id) (channels db) of
          None \<Rightarrow> (Ok (plain_reply 404), db)
        | Some c \<Rightarrow>
            (if ca_file c \<noteq> Some file_id then (Ok (plain_reply 404), db)
             else flashed env (redirect_reply (file_page file_id))
               (file_log env rq (uc_email u) ''file.channel_assignment.removed'' (file_target file_id @ '':channel:'' @ show_int assignment_id)
                  [(''file_id'', JInt file_id), (''subject_type'', JStr (ca_subject c)), (''rbac_group_id'', jopt_int (ca_group c)),
                   (''keycloak_user_id'', jopt (ca_user c))] (snd (delete_channel_assignment assignment_id db)))))"

lemmas file_route_defs [py_defs] =
  plain_reply_def redirect_reply_def safe_name_char_def strip_dots_def ascii_fallback_def attachment_disposition_def max_upload_bytes_def
  mail_shaped_def require_user_enriched_def file_portal_admin_def file_actor_def file_client_ip_def viewer_of_def file_caller_def
  file_log_def file_target_def version_target_def jopt_def jopt_int_def file_error_status_def api_list_folder_def
  files_create_folder_def log_published_def files_upload_def version_reply_def log_download_def list_file_versions_def files_versions_def with_managed_version_def
  files_version_channel_def files_version_patch_def download_version_def files_download_version_def files_download_by_slug_def
  with_managed_file_def files_rename_def files_archive_def flashed_def file_page_def wants_json_def checked_box_def unlink_blob_def
  version_details_def deposit_resolve_resource_def admin_files_deposit_def admin_files_create_def with_admin_file_def
  with_admin_version_def admin_files_edit_def admin_files_delete_def admin_files_upload_version_def
  admin_files_promote_or_patch_version_def admin_files_archive_version_def admin_files_assign_beta_def admin_files_unassign_beta_def

end
