(* ===== verification/FileAccess.thy ===== *)
theory FileAccess
  imports FileRoutes
begin

text \<open>
  What the rights of the file exchange mean: the ancestors of a folder are its closure under the parent relation, the
  effective level is the greatest the abstract table of grants gives on the file or a folder above it, and a listing
  shows what can be seen and the way to it.
\<close>

section \<open>Ancestors\<close>

definition parent_of :: "'a fdb \<Rightarrow> int \<Rightarrow> int \<Rightarrow> bool" where
  "parent_of db i j \<longleftrightarrow> (\<exists>r. find_folder db i = Some r \<and> fo_parent r = Some j)"

lemma ancestors_from_spec:
  assumes "distinct out"
  shows "distinct (ancestors_from rows out cur)" and "set out \<subseteq> set (ancestors_from rows out cur)"
    and "\<And>i. cur = Some i \<Longrightarrow> i \<in> set (ancestors_from rows out cur)"
  using assms by (induction rows out cur rule: ancestors_from.induct) (auto split: option.splits)

lemma ancestors_from_sound:
  assumes "j \<in> set (ancestors_from (folders db) out cur)"
  shows "j \<in> set out \<or> (\<exists>i. cur = Some i \<and> (parent_of db)\<^sup>*\<^sup>* i j)"
  using assms
proof (induction "folders db" out cur rule: ancestors_from.induct)
  case (2 out i)
  show ?case
  proof (cases "i \<in> set out")
    case False
    show ?thesis
    proof (cases "first_row (\<lambda>r. fo_id r = i) (folders db)")
      case (Some r)
      have "j \<in> set (out @ [i]) \<or> (\<exists>k. fo_parent r = Some k \<and> (parent_of db)\<^sup>*\<^sup>* k j)"
        using 2 False Some by simp
      moreover have "parent_of db i k" if "fo_parent r = Some k" for k using that Some by (simp add: parent_of_def find_folder_def)
      ultimately show ?thesis by (auto intro: converse_rtranclp_into_rtranclp)
    next
      case None
      then show ?thesis using 2(2) False by (auto simp del: first_row_None)
    qed
  qed (use 2 in auto)
qed simp

lemma ancestors_from_closed:
  assumes "\<And>x y. x \<in> set out \<Longrightarrow> parent_of db x y \<Longrightarrow> y \<in> set out \<or> cur = Some y"
  shows "x \<in> set (ancestors_from (folders db) out cur) \<Longrightarrow> parent_of db x y \<Longrightarrow> y \<in> set (ancestors_from (folders db) out cur)"
  using assms
proof (induction "folders db" out cur rule: ancestors_from.induct)
  case (2 out i)
  show ?case
  proof (cases "i \<in> set out")
    case False
    show ?thesis
    proof (cases "first_row (\<lambda>r. fo_id r = i) (folders db)")
      case None
      then have "\<not> parent_of db i y" by (simp add: parent_of_def find_folder_def del: first_row_None)
      then show ?thesis using 2(2-4) False None by (auto simp del: first_row_None)
    next
      case (Some r)
      have "v \<in> set (out @ [i]) \<or> fo_parent r = Some v" if "u \<in> set (out @ [i])" "parent_of db u v" for u v
        using that 2(4) Some by (auto simp: parent_of_def find_folder_def)
      then show ?thesis using 2(1) [OF False Some] 2(2,3) False Some by simp
    qed
  qed (use 2 in auto)
qed auto

text \<open>The way to the root is the whole of it: the ancestors of a folder are the folders reached from it along the
  parents, itself included, each once, even where the parents form a cycle.\<close>

theorem folder_ancestors_exact:
  "set (folder_ancestor_ids db (Some i)) = {j. (parent_of db)\<^sup>*\<^sup>* i j} \<and> distinct (folder_ancestor_ids db (Some i))"
proof -
  let ?as = "ancestors_from (folders db) [] (Some i)"
  have "distinct ?as" by (rule ancestors_from_spec; simp)
  moreover
  have "j \<in> set ?as" if "(parent_of db)\<^sup>*\<^sup>* i j" for j
    using that
  proof (induction rule: rtranclp_induct)
    case base
    show ?case by (rule ancestors_from_spec(3); simp)
  next
    case (step y z)
    show ?case using ancestors_from_closed [OF _ step(3,2)] by simp
  qed
  moreover have "(parent_of db)\<^sup>*\<^sup>* i j" if "j \<in> set ?as" for j using ancestors_from_sound [OF that] by simp
  ultimately show ?thesis unfolding folder_ancestor_ids_def by blast
qed

section \<open>Levels\<close>

definition file_subjects :: "'a pdb \<Rightarrow> viewer \<Rightarrow> subject set" where
  "file_subjects db w =
     (if opt_str (vw_user w) = [] then {} else {UserSubject (opt_str (vw_user w))}) \<union>
     GroupSubject ` gp_id ` set (named_groups db (vw_groups w))"

definition right_on :: "'a pdb \<Rightarrow> viewer \<Rightarrow> resource set \<Rightarrow> level \<Rightarrow> bool" where
  "right_on db w ys l \<longleftrightarrow> (\<exists>y \<in> ys. allowed_level db (file_subjects db w) y l)"

definition file_places :: "'a fdb \<Rightarrow> file_row \<Rightarrow> resource set" where
  "file_places db f = insert (FileResource (fi_id f)) (FolderResource ` set (folder_ancestor_ids db (fi_folder f)))"

definition folder_places :: "'a fdb \<Rightarrow> int option \<Rightarrow> resource set" where
  "folder_places db d = FolderResource ` set (folder_ancestor_ids db d)"

lemma typed_target:
  assumes "typed g" and "key_abs (grant_key g) = Some (x, y)"
  shows "gr_resource g = ''file'' \<and> gr_file g = Some i \<longleftrightarrow> y = FileResource i"
    and "gr_resource g = ''folder'' \<and> gr_folder g = Some i \<longleftrightarrow> y = FolderResource i"
    and "gr_subject g = ''user'' \<and> gr_user g = Some u \<longleftrightarrow> x = UserSubject u"
    and "gr_subject g = ''group'' \<and> gr_group g = Some i \<longleftrightarrow> x = GroupSubject i"
proof -
  obtain x' y' where k: "key_abs (grant_key g) = Some (x', y')" "(gr_subject g, gr_group g, gr_user g) = key_subject x'"
    "(gr_resource g, gr_app g, gr_sysrole g, gr_role g, gr_file g, gr_folder g) = key_resource y'"
    using assms(1) typed_key unfolding typed_def by blast
  with assms(2) have "x' = x" "y' = y" by simp_all
  with k(2,3) show "gr_resource g = ''file'' \<and> gr_file g = Some i \<longleftrightarrow> y = FileResource i"
    and "gr_resource g = ''folder'' \<and> gr_folder g = Some i \<longleftrightarrow> y = FolderResource i"
    and "gr_subject g = ''user'' \<and> gr_user g = Some u \<longleftrightarrow> x = UserSubject u"
    and "gr_subject g = ''group'' \<and> gr_group g = Some i \<longleftrightarrow> x = GroupSubject i"
    by (cases x; cases y; auto simp: key_resource_def key_subject_def)+
qed

lemma collected:
  "g \<in> fst ` set (collect_grants_for_targets db w fid ds) \<longleftrightarrow> g \<in> set (grants db) \<and>
     ((opt_str (vw_user w) \<noteq> [] \<and> gr_subject g = ''user'' \<and> gr_user g = vw_user w) \<or>
      (gr_subject g = ''group'' \<and> gr_group g \<in> Some ` gp_id ` set (named_groups db (vw_groups w)))) \<and>
     ((fid \<noteq> None \<and> gr_resource g = ''file'' \<and> gr_file g = fid) \<or> (gr_resource g = ''folder'' \<and> gr_folder g \<in> Some ` set ds))"
  unfolding collect_grants_for_targets_def Let_def
  by (auto simp: image_Un image_image)

lemma collected_abs:
  assumes wf: "grants_wf (grants db)"
  shows "(\<exists>g \<in> fst ` set (collect_grants_for_targets db w fid ds). read_level (grant_level g) = Some l) \<longleftrightarrow>
    right_on db w (FileResource ` set_option fid \<union> FolderResource ` set ds) l"
proof -
  have one: "(\<exists>x y. key_abs (grant_key g) = Some (x, y) \<and> x \<in> file_subjects db w \<and> y \<in> FileResource ` set_option fid \<union> FolderResource ` set ds) \<longleftrightarrow>
      g \<in> fst ` set (collect_grants_for_targets db w fid ds)" if g: "g \<in> set (grants db)" for g
  proof -
    have t: "typed g" by (rule grants_wfD(1) [OF wf g])
    then obtain x y where k: "key_abs (grant_key g) = Some (x, y)" using typed_abs by fastforce
    note target = typed_target [OF t k]
    have subj: "(opt_str (vw_user w) \<noteq> [] \<and> gr_subject g = ''user'' \<and> gr_user g = vw_user w) \<or>
        (gr_subject g = ''group'' \<and> gr_group g \<in> Some ` gp_id ` set (named_groups db (vw_groups w))) \<longleftrightarrow> x \<in> file_subjects db w"
      using target(3,4) by (cases "vw_user w") (auto simp: file_subjects_def opt_str_def)
    have res: "(fid \<noteq> None \<and> gr_resource g = ''file'' \<and> gr_file g = fid) \<or> (gr_resource g = ''folder'' \<and> gr_folder g \<in> Some ` set ds) \<longleftrightarrow>
        y \<in> FileResource ` set_option fid \<union> FolderResource ` set ds"
      using target(1,2) by (cases fid) auto
    have "(\<exists>x y. key_abs (grant_key g) = Some (x, y) \<and> x \<in> file_subjects db w \<and> y \<in> FileResource ` set_option fid \<union> FolderResource ` set ds) \<longleftrightarrow>
        x \<in> file_subjects db w \<and> y \<in> FileResource ` set_option fid \<union> FolderResource ` set ds"
      unfolding k by simp
    also have "\<dots> \<longleftrightarrow> g \<in> fst ` set (collect_grants_for_targets db w fid ds)"
      unfolding collected subj res using g by simp
    finally show ?thesis .
  qed
  show ?thesis
  proof
    assume "\<exists>g \<in> fst ` set (collect_grants_for_targets db w fid ds). read_level (grant_level g) = Some l"
    then obtain g where g: "g \<in> fst ` set (collect_grants_for_targets db w fid ds)" "read_level (grant_level g) = Some l" by blast
    then have m: "g \<in> set (grants db)" using collected by blast
    then obtain x y where "key_abs (grant_key g) = Some (x, y)" "x \<in> file_subjects db w" "y \<in> FileResource ` set_option fid \<union> FolderResource ` set ds"
      using iffD2 [OF one [OF m] g(1)] by blast
    moreover have "read_level (gr_level g) = Some l" using g(2) typed_level [OF grants_wfD(1) [OF wf m]] by simp
    ultimately show "right_on db w (FileResource ` set_option fid \<union> FolderResource ` set ds) l"
      unfolding right_on_def allowed_level_def table_Some [OF wf] using m by blast
  next
    assume "right_on db w (FileResource ` set_option fid \<union> FolderResource ` set ds) l"
    then obtain g x y where g: "g \<in> set (grants db)" "key_abs (grant_key g) = Some (x, y)" "x \<in> file_subjects db w"
        "y \<in> FileResource ` set_option fid \<union> FolderResource ` set ds" "read_level (gr_level g) = Some l"
      unfolding right_on_def allowed_level_def table_Some [OF wf] by blast
    then show "\<exists>g \<in> fst ` set (collect_grants_for_targets db w fid ds). read_level (grant_level g) = Some l"
    proof (intro bexI)
      show "read_level (grant_level g) = Some l" using g(5) typed_level [OF grants_wfD(1) [OF wf g(1)]] by simp
      show "g \<in> fst ` set (collect_grants_for_targets db w fid ds)" using one [OF g(1)] g(2-4) by blast
    qed
  qed
qed

lemma add_pair_level:
  "fa_level (add_grant_pair p a) = fa_level a \<or> fa_level (add_grant_pair p a) = Some (grant_level (fst p))"
  "rank (fa_level a) \<le> rank (fa_level (add_grant_pair p a))" "rank (Some (grant_level (fst p))) \<le> rank (fa_level (add_grant_pair p a))"
  by (simp_all add: add_grant_pair_def)

lemma fold_access:
  "fa_level (fold add_grant_pair ps a) = fa_level a \<or> (\<exists>g \<in> fst ` set ps. fa_level (fold add_grant_pair ps a) = Some (grant_level g))"
  "rank (fa_level a) \<le> rank (fa_level (fold add_grant_pair ps a))"
  "g \<in> fst ` set ps \<Longrightarrow> rank (Some (grant_level g)) \<le> rank (fa_level (fold add_grant_pair ps a))"
proof (induction ps arbitrary: a)
  case (Cons p ps)
  { case 1 then show ?case using Cons.IH(1) [of "add_grant_pair p a"] add_pair_level(1) [of p a] by auto }
  { case 2 then show ?case using Cons.IH(2) [of "add_grant_pair p a"] add_pair_level(2) [of a p] by simp }
  { case 3
    then consider "g = fst p" | "g \<in> fst ` set ps" by auto
    then show ?case
    proof cases
      case 1
      then show ?thesis using Cons.IH(2) [of "add_grant_pair p a"] add_pair_level(3) [of p a] by simp
    next
      case 2
      then show ?thesis using Cons.IH(3) [of "add_grant_pair p a"] by simp
    qed }
qed simp_all

definition meaning :: "string option \<Rightarrow> (level \<Rightarrow> bool) \<Rightarrow> bool" where
  \<comment> \<open>a level of the program stands for the greatest of a set of abstract levels, none for the empty set\<close>
  "meaning t p \<longleftrightarrow> (case t of None \<Rightarrow> (\<forall>l. \<not> p l) | Some t \<Rightarrow> (\<exists>l. read_level t = Some l \<and> greatest p l))"

lemma rank_level: "read_level t = Some l \<Longrightarrow> rank (Some t) = int (level_rank l)"
  by (simp add: rank_def rank_read opt_str_def)

lemma best_meaning:
  assumes wf: "grants_wf (grants db)"
  shows "meaning (fa_level (fold add_grant_pair (collect_grants_for_targets db w fid ds) no_access))
    (right_on db w (FileResource ` set_option fid \<union> FolderResource ` set ds))"
proof -
  let ?ps = "collect_grants_for_targets db w fid ds" and ?p = "right_on db w (FileResource ` set_option fid \<union> FolderResource ` set ds)"
  let ?t = "fa_level (fold add_grant_pair ?ps no_access)"
  note abs = collected_abs [OF wf, of w fid ds]
  have lev: "\<exists>l. read_level (grant_level g) = Some l \<and> ?p l" if "g \<in> fst ` set ?ps" for g
  proof -
    have "typed g" using that collected grants_wfD(1) [OF wf] by blast
    then obtain l where "read_level (grant_level g) = Some l" using read_level_typed typed_level unfolding typed_def by metis
    then show ?thesis using that abs by blast
  qed
  have start: "fa_level no_access = None" "rank None = 0" by (simp_all add: no_access_def rank_def opt_str_def access_level_rank_def)
  have best: "?t = None \<or> (\<exists>g \<in> fst ` set ?ps. ?t = Some (grant_level g))" "rank None \<le> rank ?t"
    "\<And>g. g \<in> fst ` set ?ps \<Longrightarrow> rank (Some (grant_level g)) \<le> rank ?t"
    using fold_access(1,2) [where ps = ?ps and a = no_access] fold_access(3) [where ps = ?ps and a = no_access] start(1) by simp_all
  show ?thesis
  proof (cases ?t)
    case None
    have "\<not> ?p l" for l
    proof
      assume "?p l"
      then obtain g where g: "g \<in> fst ` set ?ps" "read_level (grant_level g) = Some l" using abs by blast
      then have "int (level_rank l) \<le> 0" using best(3) [OF g(1)] None start rank_level [OF g(2)] by simp
      then show False by (cases l) simp_all
    qed
    then show ?thesis by (simp add: meaning_def None)
  next
    case (Some t)
    then obtain g where g: "g \<in> fst ` set ?ps" "t = grant_level g" using best(1) start(1) by auto
    obtain l where l: "read_level t = Some l" "?p l" using lev g by blast
    have "m \<le> l" if pm: "?p m" for m
    proof -
      obtain h where h: "h \<in> fst ` set ?ps" "read_level (grant_level h) = Some m" using iffD2 [OF abs pm] by blast
      have "rank (Some (grant_level h)) \<le> rank (Some t)" using best(3) [OF h(1)] unfolding Some .
      then show ?thesis using h(2) l(1) by (simp add: rank_level less_eq_level_def)
    qed
    then show ?thesis using l Some by (auto simp: meaning_def greatest_def)
  qed
qed

lemma best_access:
  assumes "grants_wf (grants db)" and "\<not> vw_admin w"
  shows "meaning (fa_level (get_effective_access_on_file db w (Some f))) (right_on db w (file_places db f))"
    and "meaning (fa_level (get_effective_access_on_folder db w d)) (right_on db w (folder_places db d))"
  using best_meaning [OF assms(1), of w "Some (fi_id f)" "folder_ancestor_ids db (fi_folder f)"]
    best_meaning [OF assms(1), of w None "folder_ancestor_ids db d"] assms(2)
  by (simp_all add: get_effective_access_on_file_def get_effective_access_on_folder_def file_places_def folder_places_def)

text \<open>C7: access to files refines the abstract table: the level the exchange computes for somebody who is no administrator is the
  greatest that the table of grants gives him or a group he names, on the file itself or on a folder above it, and none
  where it gives none; likewise for folders. (An administrator always manages.)\<close>

theorem file_access_refines:
  assumes "grants_wf (grants db)" and "\<not> vw_admin w"
  shows "meaning (fa_level (get_effective_access_on_file db w (Some f))) (right_on db w (file_places db f)) \<and>
    meaning (fa_level (get_effective_access_on_folder db w d)) (right_on db w (folder_places db d))"
  using best_access [OF assms] by blast

lemma meaning_rank:
  assumes "meaning (fa_level a) p"
  shows "access_level_rank ''view'' \<le> rank (fa_level a) \<longleftrightarrow> (\<exists>l. p l)"
    and "access_level_rank ''launch'' \<le> rank (fa_level a) \<longleftrightarrow> (\<exists>l. Launch \<le> l \<and> p l)"
    and "access_level_rank ''manage'' \<le> rank (fa_level a) \<longleftrightarrow> p Manage"
proof -
  have "(access_level_rank ''view'' \<le> rank (fa_level a) \<longleftrightarrow> (\<exists>l. p l)) \<and>
      (access_level_rank ''launch'' \<le> rank (fa_level a) \<longleftrightarrow> (\<exists>l. Launch \<le> l \<and> p l)) \<and>
      (access_level_rank ''manage'' \<le> rank (fa_level a) \<longleftrightarrow> p Manage)"
  proof (cases "fa_level a")
    case None
    then show ?thesis using assms by (auto simp: meaning_def rank_def access_level_rank_def opt_str_def)
  next
    case (Some t)
    then obtain l where l: "read_level t = Some l" "greatest p l" using assms by (auto simp: meaning_def)
    have "(\<exists>m. Launch \<le> m \<and> p m) \<longleftrightarrow> Launch \<le> l" using greatest_above [of p Launch] l(2) unfolding greatest_def by (meson order_trans)
    moreover have "p Manage \<longleftrightarrow> l = Manage" using l(2) unfolding greatest_def by (cases l) (auto simp: less_eq_level_def)
    moreover have "p l" using l(2) by (simp add: greatest_def)
    ultimately show ?thesis using l(1) by (cases l) (auto simp: Some rank_level access_level_rank_def less_eq_level_def)
  qed
  then show "access_level_rank ''view'' \<le> rank (fa_level a) \<longleftrightarrow> (\<exists>l. p l)"
    and "access_level_rank ''launch'' \<le> rank (fa_level a) \<longleftrightarrow> (\<exists>l. Launch \<le> l \<and> p l)"
    and "access_level_rank ''manage'' \<le> rank (fa_level a) \<longleftrightarrow> p Manage" by blast+
qed

lemma admin_can:
  assumes "vw_admin w"
  shows "can_view_file (get_effective_access_on_file db w fr) \<and> can_launch_file (get_effective_access_on_file db w fr) \<and>
    can_manage_file (get_effective_access_on_file db w fr)"
    and "can_view_file (get_effective_access_on_folder db w d) \<and> can_manage_file (get_effective_access_on_folder db w d)"
  using assms by (simp_all add: get_effective_access_on_file_def get_effective_access_on_folder_def admin_access_def can_view_file_def
      can_launch_file_def can_manage_file_def rank_def opt_str_def access_level_rank_def)

lemma nobody_can: "\<not> vw_admin w \<Longrightarrow> \<not> can_launch_file (get_effective_access_on_file db w None)"
  by (simp add: get_effective_access_on_file_def no_access_def can_launch_file_def rank_def opt_str_def access_level_rank_def)

lemma can_levels:
  assumes "meaning (fa_level a) p"
  shows "can_view_file a \<longleftrightarrow> (\<exists>l. p l)" and "can_launch_file a \<longleftrightarrow> (\<exists>l. Launch \<le> l \<and> p l)" and "can_manage_file a \<longleftrightarrow> p Manage"
  unfolding can_view_file_def can_launch_file_def can_manage_file_def by (rule meaning_rank [OF assms])+

lemma file_can:
  assumes "grants_wf (grants db)"
  shows "can_view_file (get_effective_access_on_file db w (Some f)) \<longleftrightarrow> vw_admin w \<or> (\<exists>l. right_on db w (file_places db f) l)"
    and "can_launch_file (get_effective_access_on_file db w (Some f)) \<longleftrightarrow> vw_admin w \<or> (\<exists>l. Launch \<le> l \<and> right_on db w (file_places db f) l)"
    and "can_manage_file (get_effective_access_on_file db w (Some f)) \<longleftrightarrow> vw_admin w \<or> right_on db w (file_places db f) Manage"
proof (atomize (full), cases "vw_admin w")
  case True
  then show "(can_view_file (get_effective_access_on_file db w (Some f)) = (vw_admin w \<or> (\<exists>l. right_on db w (file_places db f) l))) \<and>
      (can_launch_file (get_effective_access_on_file db w (Some f)) = (vw_admin w \<or> (\<exists>l. Launch \<le> l \<and> right_on db w (file_places db f) l))) \<and>
      (can_manage_file (get_effective_access_on_file db w (Some f)) = (vw_admin w \<or> right_on db w (file_places db f) Manage))"
    by (simp add: admin_can)
next
  case False
  then show "(can_view_file (get_effective_access_on_file db w (Some f)) = (vw_admin w \<or> (\<exists>l. right_on db w (file_places db f) l))) \<and>
      (can_launch_file (get_effective_access_on_file db w (Some f)) = (vw_admin w \<or> (\<exists>l. Launch \<le> l \<and> right_on db w (file_places db f) l))) \<and>
      (can_manage_file (get_effective_access_on_file db w (Some f)) = (vw_admin w \<or> right_on db w (file_places db f) Manage))"
    by (simp add: can_levels [OF best_access(1) [OF assms False]])
qed

lemma folder_can:
  assumes "grants_wf (grants db)"
  shows "can_view_file (get_effective_access_on_folder db w d) \<longleftrightarrow> vw_admin w \<or> (\<exists>l. right_on db w (folder_places db d) l)"
    and "can_manage_file (get_effective_access_on_folder db w d) \<longleftrightarrow> vw_admin w \<or> right_on db w (folder_places db d) Manage"
  using admin_can(2) [where w = w and db = db and d = d] can_levels(1,3) [OF best_access(2) [OF assms, of w d]]
  by (cases "vw_admin w"; simp)+

end
