(* ===== verification/FileTables.thy ===== *)
theory FileTables
  imports FileAccess
begin

text \<open>
  The tables of the exchange and what every operation keeps of them: keys are unique, names that must be unique are,
  and what a row refers to exists. The laws of a table are proved once, for any table.
\<close>

section \<open>Tables with keys and unique values\<close>

definition table_ok :: "('r \<Rightarrow> int) \<Rightarrow> ('r \<Rightarrow> 'u set) \<Rightarrow> ('r \<Rightarrow> bool) \<Rightarrow> 'r list \<Rightarrow> bool" where
  \<comment> \<open>keys are distinct, every row is good, and no two rows share a unique value\<close>
  "table_ok key uni good rows \<longleftrightarrow> distinct (map key rows) \<and> list_all good rows \<and>
     (\<forall>r \<in> set rows. \<forall>s \<in> set rows. uni r \<inter> uni s \<noteq> {} \<longrightarrow> key r = key s)"

lemma table_okD:
  assumes "table_ok key uni good rows"
  shows "distinct (map key rows)" and "r \<in> set rows \<Longrightarrow> good r"
    and "r \<in> set rows \<Longrightarrow> s \<in> set rows \<Longrightarrow> u \<in> uni r \<Longrightarrow> u \<in> uni s \<Longrightarrow> key r = key s"
  using assms unfolding table_ok_def list_all_iff by blast+

lemma table_okI:
  assumes "distinct (map key rows)" and "\<And>r. r \<in> set rows \<Longrightarrow> good r"
    and "\<And>r s u. r \<in> set rows \<Longrightarrow> s \<in> set rows \<Longrightarrow> u \<in> uni r \<Longrightarrow> u \<in> uni s \<Longrightarrow> key r = key s"
  shows "table_ok key uni good rows"
  using assms unfolding table_ok_def list_all_iff by blast

lemma table_row:
  assumes "table_ok key uni good rows" and "r \<in> set rows" and "s \<in> set rows" and "key r = key s"
  shows "r = s"
  using table_okD(1) [OF assms(1)] assms(2-4) by (metis distinct_map inj_onD)

lemma table_mono:
  assumes "table_ok key uni good rows" and "\<And>r. r \<in> set rows \<Longrightarrow> good r \<Longrightarrow> good' r"
  shows "table_ok key uni good' rows"
  using assms unfolding table_ok_def list_all_iff by blast

lemma table_filter:
  assumes "table_ok key uni good rows" and "\<And>r. r \<in> set rows \<Longrightarrow> p r \<Longrightarrow> good r \<Longrightarrow> good' r"
  shows "table_ok key uni good' (filter p rows)"
proof (rule table_okI)
  show "distinct (map key (filter p rows))" by (rule distinct_map_filter [OF table_okD(1) [OF assms(1)]])
  show "good' r" if "r \<in> set (filter p rows)" for r using that assms(2) table_okD(2) [OF assms(1)] by simp
  show "key r = key s" if "r \<in> set (filter p rows)" "s \<in> set (filter p rows)" "u \<in> uni r" "u \<in> uni s" for r s u
    using that table_okD(3) [OF assms(1)] by simp
qed

lemma table_insert:
  assumes "table_ok key uni good rows" and "key r \<notin> key ` set rows" and "good r"
    and "\<And>s u. s \<in> set rows \<Longrightarrow> u \<in> uni r \<Longrightarrow> u \<notin> uni s"
  shows "table_ok key uni good (rows @ [r])"
proof (rule table_okI)
  show "distinct (map key (rows @ [r]))" using table_okD(1) [OF assms(1)] assms(2) by simp
  show "good x" if "x \<in> set (rows @ [r])" for x using that assms(3) table_okD(2) [OF assms(1)] by auto
  show "key x = key y" if "x \<in> set (rows @ [r])" "y \<in> set (rows @ [r])" "u \<in> uni x" "u \<in> uni y" for x y u
    using that table_okD(3) [OF assms(1)] assms(4) by auto
qed

lemma set_put_row:
  assumes "\<exists>x \<in> set rows. key x = key r"
  shows "set (update_rows (\<lambda>x. key x = key r) (\<lambda>_. r) rows) = insert r {x \<in> set rows. key x \<noteq> key r}"
  using assms by (auto simp: set_update_rows)

lemma keys_put_row: "map key (update_rows (\<lambda>x. key x = key r) (\<lambda>_. r) rows) = map key rows"
  by (simp add: update_rows_def)

lemma table_put:
  assumes "table_ok key uni good rows" and ex: "\<exists>x \<in> set rows. key x = key r" and "good r"
    and "\<And>s u. s \<in> set rows \<Longrightarrow> key s \<noteq> key r \<Longrightarrow> u \<in> uni r \<Longrightarrow> u \<notin> uni s"
  shows "table_ok key uni good (update_rows (\<lambda>x. key x = key r) (\<lambda>_. r) rows)"
proof (rule table_okI)
  show "distinct (map key (update_rows (\<lambda>x. key x = key r) (\<lambda>_. r) rows))"
    using table_okD(1) [OF assms(1)] by (simp add: keys_put_row)
  show "good x" if "x \<in> set (update_rows (\<lambda>x. key x = key r) (\<lambda>_. r) rows)" for x
    using that assms(3) table_okD(2) [OF assms(1)] unfolding set_put_row [OF ex] by auto
  show "key x = key y" if "x \<in> set (update_rows (\<lambda>x. key x = key r) (\<lambda>_. r) rows)"
      "y \<in> set (update_rows (\<lambda>x. key x = key r) (\<lambda>_. r) rows)" "u \<in> uni x" "u \<in> uni y" for x y u
    using that table_okD(3) [OF assms(1), of x y u] assms(4) unfolding set_put_row [OF ex] by auto
qed

lemma fresh_id_above: "x \<in> set ids \<Longrightarrow> x < fresh_id ids"
  by (induction ids) (auto simp: fresh_id_def)

lemma fresh_id_new: "fresh_id (map key rows) \<notin> key ` set rows"
  using fresh_id_above [of "fresh_id (map key rows)" "map key rows"] by auto

section \<open>The four tables\<close>

definition folder_good :: "folder_row list \<Rightarrow> folder_row \<Rightarrow> bool" where
  "folder_good rows r \<longleftrightarrow> fo_name r \<noteq> [] \<and>
     (case fo_parent r of None \<Rightarrow> True | Some p \<Rightarrow> p < fo_id r \<and> list_ex (\<lambda>s. fo_id s = p) rows)"

definition file_good :: "folder_row list \<Rightarrow> file_row \<Rightarrow> bool" where
  "file_good rows f \<longleftrightarrow> fi_label f \<noteq> [] \<and> safe_slug (fi_slug f) \<and>
     (case fi_folder f of None \<Rightarrow> True | Some d \<Rightarrow> list_ex (\<lambda>s. fo_id s = d) rows)"

definition version_good :: "file_row list \<Rightarrow> version_row \<Rightarrow> bool" where
  "version_good fs v \<longleftrightarrow> list_ex (\<lambda>f. fi_id f = ve_file v) fs \<and> ve_label v \<noteq> [] \<and> ve_channel v \<in> {''stable'', ''beta''} \<and>
     ve_status v \<in> {''active'', ''archived''} \<and> 0 < ve_size v \<and> ve_path v = version_path (ve_file v) (ve_id v) (ve_sum v)"

definition channel_good :: "file_row list \<Rightarrow> channel_row \<Rightarrow> bool" where
  "channel_good fs c \<longleftrightarrow> channel_check c \<and> ca_channel c = ''beta'' \<and> ((ca_file c = None) \<noteq> (ca_folder c = None)) \<and>
     (case ca_file c of None \<Rightarrow> True | Some i \<Rightarrow> list_ex (\<lambda>f. fi_id f = i) fs)"

definition folders_ok :: "folder_row list \<Rightarrow> bool" where
  "folders_ok rows \<longleftrightarrow> table_ok fo_id (\<lambda>r. {(fo_parent r, fo_name r)}) (folder_good rows) rows"

definition file_names :: "file_row \<Rightarrow> (string + int \<times> string) set" where
  \<comment> \<open>the slug is unique everywhere, the label only below a folder\<close>
  "file_names f = insert (Inl (fi_slug f)) (case fi_folder f of None \<Rightarrow> {} | Some d \<Rightarrow> {Inr (d, fi_label f)})"

definition files_ok :: "folder_row list \<Rightarrow> file_row list \<Rightarrow> bool" where
  "files_ok rows fs \<longleftrightarrow> table_ok fi_id file_names (file_good rows) fs"

definition versions_ok :: "file_row list \<Rightarrow> version_row list \<Rightarrow> bool" where
  "versions_ok fs vs \<longleftrightarrow> table_ok ve_id (\<lambda>v. {(ve_file v, ve_label v)}) (version_good fs) vs"

definition channels_ok :: "file_row list \<Rightarrow> channel_row list \<Rightarrow> bool" where
  "channels_ok fs cs \<longleftrightarrow> table_ok ca_id (\<lambda>c. {(ca_subject c, ca_group c, ca_user c, ca_file c, ca_folder c)}) (channel_good fs) cs"

definition exchange_sound :: "'a fdb \<Rightarrow> bool" where
  "exchange_sound db \<longleftrightarrow> folders_ok (folders db) \<and> files_ok (folders db) (files db) \<and> versions_ok (files db) (versions db) \<and>
     channels_ok (files db) (channels db)"

lemma exchange_soundD:
  assumes "exchange_sound db"
  shows "folders_ok (folders db)" and "files_ok (folders db) (files db)" and "versions_ok (files db) (versions db)"
    and "channels_ok (files db) (channels db)"
  using assms by (simp_all add: exchange_sound_def)

lemma exchange_sound_cong:
  assumes "exchange_sound db" and "folders db' = folders db" and "files db' = files db" and "versions db' = versions db"
    and "channels db' = channels db"
  shows "exchange_sound db'"
  using assms by (simp add: exchange_sound_def)

lemma same_files_ids:
  assumes "fi_id ` set fs \<subseteq> fi_id ` set fs'"
  shows "version_good fs v \<Longrightarrow> version_good fs' v" and "channel_good fs c \<Longrightarrow> channel_good fs' c"
proof -
  have "list_ex (\<lambda>f. fi_id f = i) fs \<Longrightarrow> list_ex (\<lambda>f. fi_id f = i) fs'" for i
    using assms unfolding list_ex_iff by (metis (no_types, lifting) image_iff subsetD)
  then show "version_good fs v \<Longrightarrow> version_good fs' v" and "channel_good fs c \<Longrightarrow> channel_good fs' c"
    unfolding version_good_def channel_good_def by (auto split: option.splits)
qed

lemma files_change:
  assumes "exchange_sound db" and "files_ok (folders db) fs" and "fi_id ` set (files db) \<subseteq> fi_id ` set fs"
  shows "exchange_sound (db\<lparr>files := fs\<rparr>)"
proof -
  note s = exchange_soundD [OF assms(1)]
  have "versions_ok fs (versions db)" using s(3) same_files_ids(1) [OF assms(3)] unfolding versions_ok_def by (rule table_mono)
  moreover have "channels_ok fs (channels db)" using s(4) same_files_ids(2) [OF assms(3)] unfolding channels_ok_def by (rule table_mono)
  ultimately show ?thesis using s(1) assms(2) by (simp add: exchange_sound_def)
qed

section \<open>Folders\<close>

lemma create_folder_sound:
  assumes "exchange_sound db" and "create_folder name p by db = (Ok r, db')"
  shows "exchange_sound db'"
proof -
  note s = exchange_soundD [OF assms(1)]
  let ?r = "\<lparr>fo_id = fresh_id (map fo_id (folders db)), fo_parent = p, fo_name = strip name, fo_by = by\<rparr>"
  have c: "strip name \<noteq> []" "\<And>i. p = Some i \<Longrightarrow> find_folder db i \<noteq> None"
    "\<not> list_ex (\<lambda>r. fo_parent r = p \<and> fo_name r = strip name) (folders db)" "db' = db\<lparr>folders := folders db @ [?r]\<rparr>"
    using assms(2) by (auto simp: create_folder_def Let_def simp del: first_row_None split: if_splits option.splits)
  have p: "i < fo_id ?r \<and> list_ex (\<lambda>s. fo_id s = i) (folders db)" if "p = Some i" for i
  proof -
    obtain q where "find_folder db i = Some q" using c(2) \<open>p = Some i\<close> by blast
    then have "q \<in> set (folders db)" "fo_id q = i" using find_folder_in by blast+
    then show ?thesis using fresh_id_above [of i "map fo_id (folders db)"] by (auto simp: list_ex_iff)
  qed
  have more: "folder_good (folders db) x \<Longrightarrow> folder_good (folders db @ [?r]) x" for x
    by (auto simp: folder_good_def split: option.splits)
  have "folders_ok (folders db @ [?r])"
    unfolding folders_ok_def
  proof (rule table_insert)
    show "table_ok fo_id (\<lambda>r. {(fo_parent r, fo_name r)}) (folder_good (folders db @ [?r])) (folders db)"
      using s(1) more unfolding folders_ok_def by (rule table_mono)
    show "fo_id ?r \<notin> fo_id ` set (folders db)" using fresh_id_new by simp
    show "folder_good (folders db @ [?r]) ?r" using c(1) p by (auto simp: folder_good_def split: option.splits)
    show "u \<notin> {(fo_parent x, fo_name x)}" if "x \<in> set (folders db)" "u \<in> {(fo_parent ?r, fo_name ?r)}" for x u
      using that c(3) by (auto simp: list_ex_iff)
  qed
  moreover have "files_ok (folders db @ [?r]) (files db)"
    using s(2) unfolding files_ok_def by (rule table_mono) (auto simp: file_good_def split: option.splits)
  ultimately show ?thesis using s(3,4) unfolding c(4) by (simp add: exchange_sound_def)
qed

section \<open>Files\<close>

lemma number_slug_fresh:
  assumes "number_slug used start n = Some r"
  shows "case r of Raise e \<Rightarrow> True | Ok c \<Rightarrow> c \<notin> set used \<and> safe_slug c"
proof (induct rule: number_slug.raw_induct)
  case (1 loop used start n r)
  then show ?case
    using number_slug.simps [of used start n] by (fastforce simp: validate_slug_def Let_def split: result.splits if_splits)
qed (rule assms)

lemma unique_slug_fresh:
  assumes "generate_unique_slug db d label = Some (Ok c)"
  shows "\<not> slug_taken db c" and "safe_slug c"
proof -
  have "\<not> slug_taken db c \<and> safe_slug c"
  proof (cases "validate_slug (take 180 (slug_stem d label))")
    case (Ok k)
    then have k: "safe_slug k" by (auto simp: validate_slug_def Let_def split: if_splits)
    show ?thesis
    proof (cases "slug_taken db k")
      case True
      then have "number_slug (map fi_slug (files db)) (slug_stem d label) 2 = Some (Ok c)"
        using assms Ok by (simp add: generate_unique_slug_def)
      from number_slug_fresh [OF this] show ?thesis by (auto simp: slug_taken_def list_ex_iff)
    qed (use assms Ok k in \<open>simp add: generate_unique_slug_def\<close>)
  qed (use assms in \<open>simp add: generate_unique_slug_def\<close>)
  then show "\<not> slug_taken db c" and "safe_slug c" by simp_all
qed

definition folder_known :: "'a fdb \<Rightarrow> int option \<Rightarrow> bool" where
  "folder_known db d \<longleftrightarrow> (case d of None \<Rightarrow> True | Some i \<Rightarrow> find_folder db i \<noteq> None)"

lemma folder_known_ex: "folder_known db (Some d) \<Longrightarrow> list_ex (\<lambda>s. fo_id s = d) (folders db)"
  using find_folder_in by (fastforce simp: folder_known_def list_ex_iff simp del: first_row_None)

lemma create_file_Ok:
  assumes "create_file_resource q by db = Some (Ok f, db')"
  shows "db' = db\<lparr>files := files db @ [f]\<rparr>" and "fi_id f = fresh_id (map fi_id (files db))" and "fi_folder f = fq_folder q"
    and "fi_label f = strip (fq_label q)" and "fi_label f \<noteq> []" and "\<not> named_file db (fq_folder q) (fi_label f)"
    and "\<not> slug_taken db (fi_slug f)" and "safe_slug (fi_slug f)" and "fi_active f = fq_active q"
proof -
  have slug: "\<exists>s. fi_slug f = s \<and> \<not> slug_taken db s \<and> safe_slug s"
    using assms unique_slug_fresh [of db "fq_folder q" "strip (fq_label q)"]
    by (auto simp: create_file_resource_def Let_def validate_slug_def split: if_splits option.splits result.splits)
  show "db' = db\<lparr>files := files db @ [f]\<rparr>" and "fi_id f = fresh_id (map fi_id (files db))" and "fi_folder f = fq_folder q"
    and "fi_label f = strip (fq_label q)" and "fi_label f \<noteq> []" and "\<not> named_file db (fq_folder q) (fi_label f)"
    and "fi_active f = fq_active q"
    using assms by (auto simp: create_file_resource_def Let_def split: if_splits option.splits result.splits)
  show "\<not> slug_taken db (fi_slug f)" and "safe_slug (fi_slug f)" using slug by auto
qed

lemma create_file_sound:
  assumes "exchange_sound db" and "create_file_resource q by db = Some (Ok f, db')" and "folder_known db (fq_folder q)"
  shows "exchange_sound db'" and "find_file db' (fi_id f) = Some f" and "versions db' = versions db" and "folders db' = folders db"
proof -
  note s = exchange_soundD [OF assms(1)] and c = create_file_Ok [OF assms(2)]
  have new: "fi_id f \<notin> fi_id ` set (files db)" unfolding c(2) by (rule fresh_id_new)
  have "files_ok (folders db) (files db @ [f])"
    unfolding files_ok_def
  proof (rule table_insert [OF s(2) [unfolded files_ok_def] new])
    show "file_good (folders db) f"
      using c(3,5,8) folder_known_ex assms(3) by (auto simp: file_good_def split: option.split)
    show "u \<notin> file_names g" if "g \<in> set (files db)" "u \<in> file_names f" for g u
      using that c(3,6,7) by (auto simp: file_names_def slug_taken_def named_file_def list_ex_iff split: option.splits)
  qed
  then have "exchange_sound (db\<lparr>files := files db @ [f]\<rparr>)" by (rule files_change [OF assms(1)]) auto
  then show "exchange_sound db'" "versions db' = versions db" "folders db' = folders db" unfolding c(1) by simp_all
  have "first_row (\<lambda>r. fi_id r = fi_id f) (files db) = None" using new by (auto simp: image_iff)
  then show "find_file db' (fi_id f) = Some f" unfolding c(1)
    by (simp add: find_file_def first_row_append first_row_cases del: first_row_None)
qed

lemma put_file_sound:
  assumes "exchange_sound db" and "find_file db (fi_id f) = Some g" and "fi_slug f = fi_slug g" and "fi_folder f = fi_folder g"
    and "fi_label f \<noteq> []"
    and "\<And>r. r \<in> set (files db) \<Longrightarrow> fi_folder f \<noteq> None \<Longrightarrow> fi_folder r = fi_folder f \<Longrightarrow> fi_label r = fi_label f \<Longrightarrow> fi_id r = fi_id f"
  shows "exchange_sound (put_file f db)"
  unfolding put_file_def
proof (rule files_change [OF assms(1)])
  note s = exchange_soundD [OF assms(1)] and g = find_file_in [OF assms(2)]
  show "files_ok (folders db) (update_rows (\<lambda>r. fi_id r = fi_id f) (\<lambda>_. f) (files db))"
    unfolding files_ok_def
  proof (rule table_put [OF s(2) [unfolded files_ok_def]])
    show "\<exists>x \<in> set (files db). fi_id x = fi_id f" using g by blast
    show "file_good (folders db) f"
      using table_okD(2) [OF s(2) [unfolded files_ok_def]] g assms(3-5) by (auto simp: file_good_def)
    show "u \<notin> file_names x" if x: "x \<in> set (files db)" "fi_id x \<noteq> fi_id f" "u \<in> file_names f" for x u
    proof
      assume u: "u \<in> file_names x"
      have "fi_slug x \<noteq> fi_slug f"
        using table_okD(3) [OF s(2) [unfolded files_ok_def], of x g "Inl (fi_slug g)"] x(1,2) g assms(3) by (auto simp: file_names_def)
      then show False using u x assms(6) [OF x(1)] by (auto simp: file_names_def split: option.splits)
    qed
  qed
  show "fi_id ` set (files db) \<subseteq> fi_id ` set (update_rows (\<lambda>r. fi_id r = fi_id f) (\<lambda>_. f) (files db))"
    using keys_put_row [of fi_id f "files db"] by (metis order_refl set_map)
qed

lemma rename_file_sound:
  assumes "exchange_sound db" and "find_file db (fi_id f) = Some f" and "rename_file_resource f label db = (Ok f', db')"
  shows "exchange_sound db'"
proof -
  have c: "strip label \<noteq> []" "\<not> list_ex (\<lambda>r. fi_folder r = fi_folder f \<and> fi_label r = strip label \<and> fi_id r \<noteq> fi_id f) (files db)"
    "db' = put_file (f\<lparr>fi_label := strip label\<rparr>) db"
    using assms(3) by (auto simp: rename_file_resource_def Let_def split: if_splits)
  show ?thesis unfolding c(3)
    by (rule put_file_sound [OF assms(1)]) (use assms(2) c(1,2) in \<open>auto simp: list_ex_iff\<close>)
qed

lemma archive_file_sound:
  assumes "exchange_sound db" and "find_file db (fi_id f) = Some f"
  shows "exchange_sound (archive_file_resource f db)"
proof -
  note t = exchange_soundD(2) [OF assms(1), unfolded files_ok_def] and f = find_file_in [OF assms(2)]
  show ?thesis unfolding archive_file_resource_def
  proof (rule put_file_sound [OF assms(1)])
    show "fi_id r = fi_id (f\<lparr>fi_active := False\<rparr>)" if "r \<in> set (files db)" "fi_folder (f\<lparr>fi_active := False\<rparr>) \<noteq> None"
        "fi_folder r = fi_folder (f\<lparr>fi_active := False\<rparr>)" "fi_label r = fi_label (f\<lparr>fi_active := False\<rparr>)" for r
      using table_okD(3) [OF t that(1) conjunct1 [OF f], of "Inr (the (fi_folder f), fi_label f)"] that by (auto simp: file_names_def)
  qed (use assms(2) table_okD(2) [OF t conjunct1 [OF f]] in \<open>auto simp: file_good_def\<close>)
qed

lemma delete_file_sound:
  assumes "exchange_sound db" and "delete_file_resource f db = (paths, db')"
  shows "exchange_sound db'"
proof -
  note s = exchange_soundD [OF assms(1)]
  have d: "db' = db\<lparr>grants := filter (\<lambda>g. gr_file g \<noteq> Some (fi_id f)) (grants db), files := filter (\<lambda>r. fi_id r \<noteq> fi_id f) (files db),
      versions := filter (\<lambda>v. ve_file v \<noteq> fi_id f) (versions db), channels := filter (\<lambda>c. ca_file c \<noteq> Some (fi_id f)) (channels db)\<rparr>"
    using assms(2) by (simp add: delete_file_resource_def)
  have "files_ok (folders db) (filter (\<lambda>r. fi_id r \<noteq> fi_id f) (files db))"
    using s(2) unfolding files_ok_def by (rule table_filter)
  moreover have "versions_ok (filter (\<lambda>r. fi_id r \<noteq> fi_id f) (files db)) (filter (\<lambda>v. ve_file v \<noteq> fi_id f) (versions db))"
    using s(3) unfolding versions_ok_def by (rule table_filter) (auto simp: version_good_def list_ex_iff)
  moreover have "channels_ok (filter (\<lambda>r. fi_id r \<noteq> fi_id f) (files db)) (filter (\<lambda>c. ca_file c \<noteq> Some (fi_id f)) (channels db))"
    using s(4) unfolding channels_ok_def by (rule table_filter) (auto simp: channel_good_def list_ex_iff split: option.splits)
  ultimately show ?thesis using s(1) by (simp add: d exchange_sound_def)
qed


section \<open>Files and versions as keyed tables\<close>

lemma first_row_put:
  assumes "first_row (\<lambda>r. key r = k) rows = Some r" and "key r' = k"
  shows "first_row (\<lambda>r. key r = k) (update_rows (\<lambda>x. key x = key r') (\<lambda>_. r') rows) = Some r'"
  using assms by (induction rows) (auto simp: first_row_cases update_rows_def)

lemma first_row_put_other:
  assumes "k \<noteq> k'" and "key r' = k"
  shows "first_row (\<lambda>r. key r = k') (update_rows (\<lambda>x. key x = key r') (\<lambda>_. r') rows) = first_row (\<lambda>r. key r = k') rows"
  using assms by (induction rows) (auto simp: first_row_cases update_rows_def)

interpretation file_table: keyed_table find_file "\<lambda>db k f. put_file f db" fi_id
  by unfold_locales (auto simp: find_file_def put_file_def first_row_put first_row_put_other dest: first_row_Some)

interpretation version_table: keyed_table find_version "\<lambda>db k v. put_version v db" ve_id
  by unfold_locales (auto simp: find_version_def put_version_def first_row_put first_row_put_other dest: first_row_Some)

end
