(* ===== verification/FileSafe.thy ===== *)
theory FileSafe
  imports FileAccess AdminLaws
begin

text \<open>
  Who gets a file out of the exchange: what the handlers of a download ask before they answer 200, which version an
  address by slug stands for, and what the header with the name of the file can hold.
\<close>

section \<open>Finding out who calls\<close>

lemma fst_bind_OkE:
  assumes "fst (bind_res m f) = Ok b"
  obtains a s where "m = (Ok a, s)" and "fst (f a s) = Ok b"
  using assms by (auto simp: bind_res_def split: prod.splits result.splits)

definition same_exchange :: "'a fdb \<Rightarrow> 'a fdb \<Rightarrow> bool" where
  "same_exchange db db' \<longleftrightarrow> same_sources db db' \<and> folders db' = folders db \<and> files db' = files db \<and>
     versions db' = versions db \<and> channels db' = channels db \<and> disk db' = disk db \<and> mfa_rows db' = mfa_rows db"

lemma same_exchangeD:
  assumes "same_exchange db db'"
  shows "same_sources db db'" and "folders db' = folders db" and "files db' = files db" and "versions db' = versions db"
    and "channels db' = channels db" and "disk db' = disk db" and "mfa_rows db' = mfa_rows db"
  using assms by (simp_all add: same_exchange_def)

lemma same_exchange_refl: "same_exchange db db"
  by (simp add: same_exchange_def same_sources_refl)

lemma same_exchange_trans: "same_exchange a b \<Longrightarrow> same_exchange b c \<Longrightarrow> same_exchange a c"
  using same_sources_trans [of a b c] by (simp add: same_exchange_def)

lemma log_exchange: "same_exchange db (log_action a b c d i db)"
  by (simp add: same_exchange_def log_same)

lemma audit_exchange: "same_exchange db (maybe_audit_identity_header_spoof env rq db)"
proof -
  have "same_exchange db (db\<lparr>spoof_seen := x\<rparr>)" for x by (simp add: same_exchange_def same_sources_def)
  then show ?thesis
    unfolding maybe_audit_identity_header_spoof_def Let_def
    by (simp only: same_exchange_refl split: if_split) (blast intro: same_exchange_trans log_exchange)
qed

lemma context_exchange: "get_user_context env rq db = (r, db') \<Longrightarrow> same_exchange db db'"
  using audit_exchange [of db env rq] same_exchange_refl [of db]
  by (auto simp: get_user_context_def Let_def split: result.splits bool.splits if_splits)

lemma user_exchange: "require_user env rq db = (r, db') \<Longrightarrow> same_exchange db db'"
  using context_exchange [of env rq db]
  by (auto simp: require_user_def bind_res_def split: prod.splits result.splits option.splits)

lemma admin_exchange: "require_admin env rq db = (r, db') \<Longrightarrow> same_exchange db db'"
  using user_exchange [of env rq db]
  by (auto simp: require_admin_def require_admin_mfa_exempt_def bind_res_def split: prod.splits result.splits if_splits)

lemma caller_exchange:
  assumes "file_caller env mail_of rq db = (r, db')"
  shows "same_exchange db db'"
    and "r = Ok (u, w) \<Longrightarrow> \<exists>a. w = viewer_of u a \<and> file_portal_admin env rq u db' = Ok a"
  using assms user_exchange [of "admin_env.truncate env" rq db]
  by (auto simp: file_caller_def require_user_enriched_def bind_res_def split: prod.splits result.splits)

lemma caller_admin:
  assumes "file_portal_admin env rq u db = Ok True"
  shows "uc_breakglass u \<or> is_portal_admin db u \<and> admin_mfa_satisfied (admin_env.truncate env) rq u db = Ok True"
  using assms by (auto simp: file_portal_admin_def split: if_splits)

lemma same_rights:
  assumes "same_exchange db db'"
  shows "get_effective_access_on_file db' w fr = get_effective_access_on_file db w fr"
    and "get_effective_access_on_folder db' w d = get_effective_access_on_folder db w d"
    and "get_effective_file_channel db' w i = get_effective_file_channel db w i"
    and "get_effective_file_version db' i c = get_effective_file_version db i c"
    and "find_file db' i = find_file db i" and "find_version db' i = find_version db i"
    and "find_folder db' i = find_folder db i" and "iter_version_plaintext env v db' = iter_version_plaintext env v db"
    and "list_folder_contents db' w d q = list_folder_contents db w d q"
proof -
  note e = same_exchangeD(2-) [OF assms] same_sourcesD [OF same_exchangeD(1) [OF assms]]
  have folder: "find_folder db' i = find_folder db i" for i by (simp add: find_folder_def e)
  have path: "folder_path_label db' d = folder_path_label db d" "folder_path_segments db' d = folder_path_segments db d" for d
    by (simp_all add: folder_path_label_def folder_path_segments_def folder_ancestor_ids_def e folder)
  have anc: "folder_ancestor_ids db' d = folder_ancestor_ids db d" for d by (simp add: folder_ancestor_ids_def e)
  have collect: "collect_grants_for_targets db' w i ds = collect_grants_for_targets db w i ds" for i ds
    unfolding collect_grants_for_targets_def named_groups_def e path ..
  have on_file: "get_effective_access_on_file db' w fr = get_effective_access_on_file db w fr" for fr
    unfolding get_effective_access_on_file_def collect anc ..
  have folder_right: "get_effective_access_on_folder db' w d = get_effective_access_on_folder db w d" for d
    unfolding get_effective_access_on_folder_def collect anc ..
  have found: "find_file db' i = find_file db i" for i by (simp add: find_file_def e)
  have chan: "get_effective_file_channel db' w i = get_effective_file_channel db w i" for i
    unfolding get_effective_file_channel_def found named_groups_def e path anc ..
  have vers: "get_effective_file_version db' i c = get_effective_file_version db i c" for i c
    unfolding get_effective_file_version_def e ..
  have down: "folder_has_visible_descendant n db' w i = folder_has_visible_descendant n db w i" for n i
  proof (induction n arbitrary: i)
    case (Suc n)
    show ?case unfolding folder_has_visible_descendant.simps child_folders_def files_in_def e on_file folder_right Suc ..
  qed simp
  show "get_effective_access_on_file db' w fr = get_effective_access_on_file db w fr"
    and "get_effective_access_on_folder db' w d = get_effective_access_on_folder db w d"
    and "get_effective_file_channel db' w i = get_effective_file_channel db w i"
    and "get_effective_file_version db' i c = get_effective_file_version db i c"
    and "find_file db' i = find_file db i" and "find_version db' i = find_version db i"
    and "find_folder db' i = find_folder db i" and "iter_version_plaintext env v db' = iter_version_plaintext env v db"
    by (simp_all only: on_file folder_right chan vers found folder find_version_def iter_version_plaintext_def e)
  show "list_folder_contents db' w d q = list_folder_contents db w d q"
    unfolding list_folder_contents_def folder_shown_def child_folders_def files_in_def e path on_file folder_right chan vers down ..
qed

section \<open>Downloads\<close>

lemma download_200:
  assumes "download_version env nfkd rq u w i db = (r, db')" and "rp_status r = 200"
  obtains v where "find_version db i = Some v" and "ve_status v = ''active''"
    and "can_launch_file (get_effective_access_on_file db w (find_file db (ve_file v)))"
    and "fr_body r = iter_version_plaintext env v db" and "(''x-content-sha256'', ve_sum v) \<in> set (rp_headers r)"
proof -
  have no: "rp_status (plain_reply n) = n" for n by (simp add: plain_reply_def)
  obtain v where v: "find_version db i = Some v"
    using assms no by (cases "find_version db i") (auto simp: download_version_def)
  have a: "ve_status v = ''active''"
  proof (rule ccontr)
    assume "ve_status v \<noteq> ''active''"
    then show False using assms v no by (auto simp: download_version_def)
  qed
  have l: "can_launch_file (get_effective_access_on_file db w (find_file db (ve_file v)))"
  proof (rule ccontr)
    assume "\<not> can_launch_file (get_effective_access_on_file db w (find_file db (ve_file v)))"
    then show False using assms v a no by (auto simp: download_version_def)
  qed
  have "r = version_reply env nfkd v (log_download env rq u v db)" using assms(1) v a l by (auto simp: download_version_def)
  then have r: "fr_body r = iter_version_plaintext env v (log_download env rq u v db)" "(''x-content-sha256'', ve_sum v) \<in> set (rp_headers r)"
    by (simp_all add: version_reply_def)
  have "same_exchange db (log_download env rq u v db)" unfolding log_download_def file_log_def by (rule log_exchange)
  then show thesis using that [OF v a l] r by (simp add: same_rights(8))
qed

definition download_answer ::
  "file_env \<Rightarrow> (string \<Rightarrow> string) \<Rightarrow> (user_context \<Rightarrow> string) \<Rightarrow> page_request \<Rightarrow> 'a fdb \<Rightarrow> file_reply \<Rightarrow> bool" where
  \<comment> \<open>an answer of one of the two download handlers\<close>
  "download_answer env nfkd mail_of rq db r \<longleftrightarrow>
     (\<exists>i. fst (files_download_version env nfkd mail_of rq i db) = Ok r) \<or>
     (\<exists>slug. fst (files_download_by_slug env nfkd mail_of rq slug db) = Ok r)"

definition may_take :: "'a fdb \<Rightarrow> viewer \<Rightarrow> version_row \<Rightarrow> bool" where
  "may_take db w v \<longleftrightarrow> vw_admin w \<or>
     (\<exists>f \<in> set (files db). fi_id f = ve_file v \<and> (\<exists>l. Launch \<le> l \<and> right_on db w (file_places db f) l))"

lemma launch_take:
  assumes "grants_wf (grants db)" and "can_launch_file (get_effective_access_on_file db w (find_file db (ve_file v)))"
  shows "may_take db w v"
proof (cases "vw_admin w")
  case False
  then obtain f where f: "find_file db (ve_file v) = Some f" using assms(2) nobody_can by (cases "find_file db (ve_file v)") auto
  then have "f \<in> set (files db)" "fi_id f = ve_file v" using find_file_in by blast+
  moreover have "\<exists>l. Launch \<le> l \<and> right_on db w (file_places db f) l"
    using iffD1 [OF file_can(2) [OF assms(1), of w f]] assms(2) False unfolding f by blast
  ultimately show ?thesis unfolding may_take_def by blast
qed (simp add: may_take_def)

lemma download_case:
  assumes wf: "grants_wf (grants db)" and run: "download_answer env nfkd mail_of rq db r" and ok: "rp_status r = 200"
  obtains u w v db1 where "file_caller env mail_of rq db = (Ok (u, w), db1)" and "v \<in> set (versions db)" and "ve_status v = ''active''"
    and "may_take db w v" and "fr_body r = iter_version_plaintext env v db" and "(''x-content-sha256'', ve_sum v) \<in> set (rp_headers r)"
proof -
  have "\<exists>u w db1 i. file_caller env mail_of rq db = (Ok (u, w), db1) \<and> r = fst (download_version env nfkd rq u w i db1)"
  proof -
    from run consider i where "fst (files_download_version env nfkd mail_of rq i db) = Ok r"
      | slug where "fst (files_download_by_slug env nfkd mail_of rq slug db) = Ok r" unfolding download_answer_def by blast
    then show ?thesis
    proof cases
      case (1 i)
      obtain u w db1 where c: "file_caller env mail_of rq db = (Ok (u, w), db1)"
        and "fst (apfst Ok (download_version env nfkd rq u w i db1)) = Ok r"
        using 1 unfolding files_download_version_def by (elim fst_bind_OkE) auto
      then show ?thesis by auto
    next
      case (2 slug)
      obtain u w db1 where c: "file_caller env mail_of rq db = (Ok (u, w), db1)"
        and "fst (case first_row (\<lambda>f. fi_slug f = slug \<and> fi_active f) (files db1) of
            None \<Rightarrow> (Ok (plain_reply 404), db1)
          | Some f \<Rightarrow>
            (if \<not> user_can_download_file db1 w (fi_id f) then (Ok (plain_reply 403), db1)
             else (case get_effective_file_version db1 (fi_id f) (fst (get_effective_file_channel db1 w (fi_id f))) of
                     None \<Rightarrow> (Ok (plain_reply 404), db1)
                   | Some v \<Rightarrow> apfst Ok (download_version env nfkd rq u w (ve_id v) db1)))) = (Ok r :: (access_error, file_reply) result)"
        using 2 unfolding files_download_by_slug_def by (elim fst_bind_OkE) auto
      moreover have "plain_reply n \<noteq> r" if "n \<noteq> 200" for n using ok that by (auto simp: plain_reply_def)
      then have "plain_reply 404 \<noteq> r" "plain_reply 403 \<noteq> r" by simp_all
      ultimately have "\<exists>i. fst (apfst Ok (download_version env nfkd rq u w i db1)) = (Ok r :: (access_error, file_reply) result)"
        by (cases "first_row (\<lambda>f. fi_slug f = slug \<and> fi_active f) (files db1)"; simp split: option.splits if_splits) blast
      then show ?thesis using c by auto
    qed
  qed
  then obtain u w db1 i where c: "file_caller env mail_of rq db = (Ok (u, w), db1)" and r: "r = fst (download_version env nfkd rq u w i db1)" by blast
  obtain db2 where d: "download_version env nfkd rq u w i db1 = (r, db2)" using r by (cases "download_version env nfkd rq u w i db1") simp
  note same = caller_exchange(1) [OF c]
  obtain v where v: "find_version db1 i = Some v" "ve_status v = ''active''" "fr_body r = iter_version_plaintext env v db1"
      "can_launch_file (get_effective_access_on_file db1 w (find_file db1 (ve_file v)))" "(''x-content-sha256'', ve_sum v) \<in> set (rp_headers r)"
    by (rule download_200 [OF d ok])
  have "v \<in> set (versions db)" using find_version_in [OF v(1)] same_exchangeD(4) [OF same] by simp
  moreover have "may_take db w v" using v(4) launch_take [OF wf] unfolding same_rights [OF same] by blast
  ultimately show thesis using that c v(2,3,5) unfolding same_rights [OF same] by blast
qed

text \<open>C6: a download is answered 200 only to an identified caller, with a version that is active, and only if he is an
  administrator or the abstract table of grants gives him or one of his groups at least \<open>Launch\<close> on the file or on a
  folder above it; what is sent is what is stored for that version, under its checksum. An administrator is here a
  break-glass session, or a portal administrator whom the second-factor gate lets through (on an exempt path, without an
  e-mail address, with the cookie of his factor, or with no factor while none is required, no deadline is set or it has
  not passed).\<close>

theorem download_needs_launch:
  assumes "grants_wf (grants db)" and "download_answer env nfkd mail_of rq db r" and "rp_status r = 200"
  shows "\<exists>u w v db1. file_caller env mail_of rq db = (Ok (u, w), db1) \<and> v \<in> set (versions db) \<and> ve_status v = ''active'' \<and>
    (if vw_admin w then uc_breakglass u \<or> is_portal_admin db u \<and> admin_mfa_satisfied (admin_env.truncate env) rq u db1 = Ok True
     else \<exists>f \<in> set (files db). fi_id f = ve_file v \<and> (\<exists>l. Launch \<le> l \<and> right_on db w (file_places db f) l)) \<and>
    fr_body r = iter_version_plaintext env v db \<and> (''x-content-sha256'', ve_sum v) \<in> set (rp_headers r)"
proof -
  obtain u w v db1 where d: "file_caller env mail_of rq db = (Ok (u, w), db1)" "v \<in> set (versions db)" "ve_status v = ''active''"
    "may_take db w v" "fr_body r = iter_version_plaintext env v db" "(''x-content-sha256'', ve_sum v) \<in> set (rp_headers r)"
    by (rule download_case [OF assms])
  obtain a where a: "w = viewer_of u a" "file_portal_admin env rq u db1 = Ok a" using caller_exchange(2) [OF d(1)] by blast
  have "is_portal_admin db1 u = is_portal_admin db u"
    by (rule same_identity(3) [OF same_exchangeD(1) [OF caller_exchange(1) [OF d(1)]]])
  then have "vw_admin w \<Longrightarrow> uc_breakglass u \<or> is_portal_admin db u \<and> admin_mfa_satisfied (admin_env.truncate env) rq u db1 = Ok True"
    using a caller_admin [of env rq u db1] by (simp add: viewer_of_def)
  then show ?thesis using d unfolding may_take_def by (cases "vw_admin w") (simp_all, blast+)
qed

section \<open>Addresses by slug\<close>

lemma first_max_Some:
  assumes "first_max key rs = Some m"
  shows "m \<in> set rs" and "x \<in> set rs \<Longrightarrow> key x \<le> key m"
proof -
  have step: "foldl (\<lambda>m x. if key m < key x then x else m) r xs \<in> insert r (set xs) \<and>
      (\<forall>x \<in> insert r (set xs). key x \<le> key (foldl (\<lambda>m x. if key m < key x then x else m) r xs))" for r xs
  proof (induction xs arbitrary: r)
    case (Cons x xs)
    show ?case using Cons.IH [of "if key r < key x then x else r"] by (auto split: if_splits)
  qed simp
  then show "m \<in> set rs" and "x \<in> set rs \<Longrightarrow> key x \<le> key m" using assms by (cases rs; force)+
qed

lemma effective_version:
  assumes "get_effective_file_version db i c = Some v" and c: "c \<in> {''stable'', ''beta''}"
  shows "v \<in> set (versions db)" and "ve_file v = i" and "ve_status v = ''active''" and "c = ''stable'' \<Longrightarrow> ve_channel v = ''stable''"
    and "x \<in> set (versions db) \<Longrightarrow> ve_file x = i \<Longrightarrow> ve_status x = ''active'' \<Longrightarrow> ve_channel x = ''stable'' \<Longrightarrow>
      version_sort_key x \<le> version_sort_key v"
proof -
  have "lower (strip (or_text ''stable'' ''stable'')) = ''stable''" "lower (strip (or_text ''beta'' ''stable'')) = ''beta''"
    "''stable'' \<in> set file_channels" "''beta'' \<in> set file_channels" by code_simp+
  then have "first_max version_sort_key (filter (\<lambda>v. ve_file v = i \<and> ve_status v = ''active'' \<and>
      ve_channel v \<in> (if c = ''beta'' then {''beta'', ''stable''} else {''stable''})) (versions db)) = Some v"
    using assms by (auto simp: get_effective_file_version_def Let_def)
  note m = first_max_Some [OF this]
  show "v \<in> set (versions db)" and "ve_file v = i" and "ve_status v = ''active''" and "c = ''stable'' \<Longrightarrow> ve_channel v = ''stable''"
    using m(1) by simp_all
  show "x \<in> set (versions db) \<Longrightarrow> ve_file x = i \<Longrightarrow> ve_status x = ''active'' \<Longrightarrow> ve_channel x = ''stable'' \<Longrightarrow>
      version_sort_key x \<le> version_sort_key v"
    using m(2) [of x] by simp
qed

lemma first_row_unique: "distinct (map key rs) \<Longrightarrow> r \<in> set rs \<Longrightarrow> first_row (\<lambda>x. key x = key r) rs = Some r"
  by (induction rs) (auto simp: first_row_def)

lemma channel_values: "fst (get_effective_file_channel db w i) \<in> {''stable'', ''beta''}"
  by (simp add: get_effective_file_channel_def Let_def split: option.split)

definition beta_tester :: "'a fdb \<Rightarrow> viewer \<Rightarrow> file_row \<Rightarrow> bool" where
  \<comment> \<open>some assignment to the caller, or to a group he names, for the file or a folder above it\<close>
  "beta_tester db w f \<longleftrightarrow>
     (\<exists>c \<in> set (channels db). ca_channel c = ''beta'' \<and>
        (ca_file c = Some (fi_id f) \<or> ca_folder c \<in> Some ` set (folder_ancestor_ids db (fi_folder f))) \<and>
        ((opt_str (vw_user w) \<noteq> [] \<and> ca_subject c = ''user'' \<and> ca_user c = vw_user w) \<or>
         (ca_subject c = ''group'' \<and> ca_group c \<in> Some ` gp_id ` set (named_groups db (vw_groups w)))))"

lemma add_sources_Nil: "fold add_source ss [] = [] \<longleftrightarrow> ss = []"
proof -
  have grow: "fold add_source ss xs = [] \<Longrightarrow> xs = []" for ss xs
    by (induction ss arbitrary: xs) (auto simp: add_source_def split: if_splits)
  show ?thesis by (cases ss) (auto simp: add_source_def dest: grow)
qed

lemma channel_of_tester:
  assumes "find_file db i = Some f"
  shows "fst (get_effective_file_channel db w i) = (if beta_tester db w f then ''beta'' else ''stable'')"
proof -
  have "fi_id f = i" using find_file_in [OF assms] by simp
  then show ?thesis
    unfolding get_effective_file_channel_def assms option.case Let_def add_sources_Nil append_is_Nil_conv beta_tester_def
    by (cases "opt_str (vw_user w) = []") (simp_all add: filter_empty_conv, blast+)
qed

text \<open>An address by slug serves the active file of that slug in the version meant for the caller: the newest active
  one of the file, by version number and then date, that is stable, or, for a caller with a beta assignment on the file
  or a folder above it, possibly a beta one; nobody else is given a beta version.\<close>

theorem slug_serves_effective_version:
  assumes "distinct (map fi_id (files db))" and "distinct (map ve_id (versions db))"
    and "files_download_by_slug env nfkd mail_of rq slug db = (Ok r, db')" and "rp_status r = 200"
  shows "\<exists>u w db1 f v. file_caller env mail_of rq db = (Ok (u, w), db1) \<and> f \<in> set (files db) \<and> fi_slug f = slug \<and> fi_active f \<and>
    v \<in> set (versions db) \<and> ve_file v = fi_id f \<and> ve_status v = ''active'' \<and>
    (ve_channel v \<noteq> ''stable'' \<longrightarrow> beta_tester db w f) \<and>
    (\<forall>x \<in> set (versions db). ve_file x = fi_id f \<longrightarrow> ve_status x = ''active'' \<longrightarrow> ve_channel x = ''stable'' \<longrightarrow>
       version_sort_key x \<le> version_sort_key v) \<and>
    fr_body r = iter_version_plaintext env v db"
proof -
  have run: "fst (files_download_by_slug env nfkd mail_of rq slug db) = Ok r" using assms(3) by simp
  obtain u w db1 where c: "file_caller env mail_of rq db = (Ok (u, w), db1)"
    and k: "fst (case first_row (\<lambda>f. fi_slug f = slug \<and> fi_active f) (files db1) of
            None \<Rightarrow> (Ok (plain_reply 404), db1)
          | Some f \<Rightarrow>
            (if \<not> user_can_download_file db1 w (fi_id f) then (Ok (plain_reply 403), db1)
             else (case get_effective_file_version db1 (fi_id f) (fst (get_effective_file_channel db1 w (fi_id f))) of
                     None \<Rightarrow> (Ok (plain_reply 404), db1)
                   | Some v \<Rightarrow> apfst Ok (download_version env nfkd rq u w (ve_id v) db1)))) = (Ok r :: (access_error, file_reply) result)"
    using run unfolding files_download_by_slug_def by (elim fst_bind_OkE) auto
  have "plain_reply 404 \<noteq> r" "plain_reply 403 \<noteq> r" using assms(4) by (auto simp: plain_reply_def)
  then obtain f v where f: "first_row (\<lambda>f. fi_slug f = slug \<and> fi_active f) (files db1) = Some f" "user_can_download_file db1 w (fi_id f)"
      "get_effective_file_version db1 (fi_id f) (fst (get_effective_file_channel db1 w (fi_id f))) = Some v"
      "fst (download_version env nfkd rq u w (ve_id v) db1) = r"
    using k by (cases "first_row (\<lambda>f. fi_slug f = slug \<and> fi_active f) (files db1)"; simp split: option.splits if_splits)
  note same = caller_exchange(1) [OF c]
  note e = same_exchangeD [OF same]
  have ff: "f \<in> set (files db)" "fi_slug f = slug" "fi_active f" using first_row_Some [OF f(1)] e(3) by auto
  let ?c = "fst (get_effective_file_channel db w (fi_id f))"
  have v: "get_effective_file_version db (fi_id f) ?c = Some v" using f(3) unfolding same_rights [OF same] .
  note eff = effective_version [OF v channel_values]
  obtain db2 where d: "download_version env nfkd rq u w (ve_id v) db1 = (r, db2)"
    using f(4) by (cases "download_version env nfkd rq u w (ve_id v) db1") simp
  obtain v' where v': "find_version db1 (ve_id v) = Some v'" "fr_body r = iter_version_plaintext env v' db1"
    by (rule download_200 [OF d assms(4)])
  have "v' = v" using find_version_in [OF v'(1)] eff(1) assms(2) e(4) by (metis distinct_map inj_onD)
  then have body: "fr_body r = iter_version_plaintext env v db" using v'(2) by (simp add: same_rights [OF same])
  have "find_file db (fi_id f) = Some f" unfolding find_file_def by (rule first_row_unique [OF assms(1) ff(1)])
  then have "beta_tester db w f" if "ve_channel v \<noteq> ''stable''"
    using channel_of_tester [of db "fi_id f" f w] eff(4) that by (auto split: if_splits)
  then show ?thesis using c ff eff(1-3,5) body by blast
qed

section \<open>The name in the header\<close>

definition url_char :: "char \<Rightarrow> bool" where
  "url_char c \<longleftrightarrow> is_digit c \<or> (65 \<le> cp c \<and> cp c \<le> 90) \<or> (97 \<le> cp c \<and> cp c \<le> 122) \<or> c \<in> set ''_.-~%''"

lemma percent_url: "0 \<le> n \<Longrightarrow> n < 256 \<Longrightarrow> list_all url_char (percent n)"
proof -
  assume n: "0 \<le> n" "n < 256"
  have "url_char (hex_upper d)" if "0 \<le> d" "d < 16" for d
    using that by (auto simp: hex_upper_def url_char_def is_digit_def)
  moreover have "url_char (CHR 0x25)" by code_simp
  ultimately show ?thesis using n by (simp add: percent_def)
qed

lemma quote_url: "list_all url_char (quote_safe [] s)"
proof -
  have one: "list_all url_char (if is_digit c \<or> (65 \<le> cp c \<and> cp c \<le> 90) \<or> (97 \<le> cp c \<and> cp c \<le> 122) \<or> c \<in> set ''_.-~'' \<or> c \<in> set []
     then [c] else if cp c < 128 then percent (cp c) else percent (192 + cp c div 64) @ percent (128 + cp c mod 64))" for c
  proof -
    have c: "0 \<le> cp c" "cp c < 256" by (rule cp_bounds)+
    then have "cp c div 64 < 4" "cp c mod 64 < 64" by simp_all
    then show ?thesis using c by (auto simp: url_char_def intro!: percent_url)
  qed
  show ?thesis unfolding quote_safe_def using one by (induction s) (simp_all add: list_all_append)
qed

lemma ascii_fallback_safe: "ascii_fallback nfkd name \<noteq> []" "length (ascii_fallback nfkd name) \<le> 150" "list_all safe_name_char (ascii_fallback nfkd name)"
proof -
  let ?t = "map (\<lambda>c. if safe_name_char c then c else CHR ''_'') (nfkd name)"
  have d: "list_all safe_name_char ''download.bin''" "safe_name_char (CHR ''_'')" by code_simp+
  have sub: "set (take 150 (strip_dots ?t)) \<subseteq> set ?t"
    unfolding strip_dots_def Let_def by (auto dest!: in_set_takeD set_dropWhileD simp del: set_map)
  have ok: "safe_name_char c" if "c \<in> set ?t" for c
  proof -
    from that obtain x where "c = (if safe_name_char x then x else CHR ''_'')" unfolding set_map by blast
    then show ?thesis using d(2) by (cases "safe_name_char x") simp_all
  qed
  have t: "list_all safe_name_char (take 150 (strip_dots ?t))" unfolding list_all_iff using sub ok by blast
  show "ascii_fallback nfkd name \<noteq> []" "length (ascii_fallback nfkd name) \<le> 150" "list_all safe_name_char (ascii_fallback nfkd name)"
    unfolding ascii_fallback_def or_text_def using t d(1) by simp_all
qed

text \<open>Whatever name a file was uploaded under, the header of its download is one line with one quoted name of at
  most 150 harmless characters and one percent-encoded name: no quote, no slash, no line end and no character outside
  ASCII comes from the name.\<close>

theorem download_name_harmless:
  "\<exists>a b. attachment_disposition nfkd name =
      ''attachment; filename='' @ CHR 0x22 # a @ CHR 0x22 # ''; filename*=UTF-8'' @ CHR 0x27 # CHR 0x27 # b \<and>
    a \<noteq> [] \<and> length a \<le> 150 \<and> list_all safe_name_char a \<and> list_all url_char b"
  unfolding attachment_disposition_def Let_def using ascii_fallback_safe quote_url by blast

end
