(* ===== verification/FileLaws.thy ===== *)
theory FileLaws
  imports FileTables FileSafe
begin

text \<open>
  What every request keeps: versions and beta assignments refer to files that exist, and the whole of the exchange stays
  sound through every handler.
\<close>

section \<open>Versions\<close>

lemma versions_change:
  assumes "exchange_sound db" and "versions_ok (files db) vs"
  shows "exchange_sound (db\<lparr>versions := vs\<rparr>)"
  using assms by (simp add: exchange_sound_def)

lemma put_version_sound:
  assumes "exchange_sound db" and "find_version db (ve_id v) = Some w" and "version_good (files db) v"
    and "\<And>r. r \<in> set (versions db) \<Longrightarrow> ve_file r = ve_file v \<Longrightarrow> ve_label r = ve_label v \<Longrightarrow> ve_id r = ve_id v"
  shows "exchange_sound (put_version v db)"
  unfolding put_version_def
proof (rule versions_change [OF assms(1)])
  note t = exchange_soundD(3) [OF assms(1), unfolded versions_ok_def] and w = find_version_in [OF assms(2)]
  show "versions_ok (files db) (update_rows (\<lambda>r. ve_id r = ve_id v) (\<lambda>_. v) (versions db))"
    unfolding versions_ok_def
  proof (rule table_put [OF t _ assms(3)])
    show "\<exists>x \<in> set (versions db). ve_id x = ve_id v" using w by blast
  qed (use assms(4) in auto)
qed

lemma version_row_good:
  assumes "exchange_sound db" and "find_version db i = Some v"
  shows "version_good (files db) v" and "ve_id v = i"
    and "r \<in> set (versions db) \<Longrightarrow> ve_file r = ve_file v \<Longrightarrow> ve_label r = ve_label v \<Longrightarrow> ve_id r = ve_id v"
proof -
  note t = exchange_soundD(3) [OF assms(1), unfolded versions_ok_def] and v = find_version_in [OF assms(2)]
  show "version_good (files db) v" "ve_id v = i" using table_okD(2) [OF t] v by auto
  show "r \<in> set (versions db) \<Longrightarrow> ve_file r = ve_file v \<Longrightarrow> ve_label r = ve_label v \<Longrightarrow> ve_id r = ve_id v"
    using table_okD(3) [OF t, of r v "(ve_file v, ve_label v)"] v by simp
qed

lemma channel_word: "c \<in> set file_channels \<longleftrightarrow> c \<in> {''stable'', ''beta''}"
  by (auto simp: file_channels_def)

lemma set_channel_sound:
  assumes "exchange_sound db" and "find_version db (ve_id v) = Some v" and "set_version_channel v c db = (Ok v', db')"
  shows "exchange_sound db'" and "find_version db' (ve_id v) = Some v'" and "ve_id v' = ve_id v"
proof -
  note g = version_row_good [OF assms(1,2)]
  have c: "lower (strip c) \<in> {''stable'', ''beta''}" "v' = v\<lparr>ve_channel := lower (strip c)\<rparr>" "db' = put_version v' db"
    using assms(3) by (auto simp: set_version_channel_def Let_def channel_word split: if_splits)
  show "exchange_sound db'" unfolding c(3)
    by (rule put_version_sound [OF assms(1), of _ v]) (use assms(2) g c(1) in \<open>auto simp: c(2) version_good_def\<close>)
  show "ve_id v' = ve_id v" by (simp add: c(2))
  show "find_version db' (ve_id v) = Some v'" unfolding c(3)
    by (rule version_table.find_put_same [OF assms(2)]) (simp add: c(2))
qed

lemma rename_version_sound:
  assumes "exchange_sound db" and "find_version db (ve_id v) = Some v" and "rename_version_label v l db = (Ok v', db')"
  shows "exchange_sound db'" and "find_version db' (ve_id v) = Some v'" and "ve_id v' = ve_id v"
proof -
  note g = version_row_good [OF assms(1,2)]
  have c: "strip l \<noteq> []" "\<not> list_ex (\<lambda>r. ve_file r = ve_file v \<and> ve_label r = strip l \<and> ve_id r \<noteq> ve_id v) (versions db)"
    "v' = v\<lparr>ve_label := strip l\<rparr>" "db' = put_version v' db"
    using assms(3) by (auto simp: rename_version_label_def Let_def split: if_splits)
  show "exchange_sound db'" unfolding c(4)
    by (rule put_version_sound [OF assms(1), of _ v]) (use assms(2) g(1) c(1,2) in \<open>auto simp: c(3) version_good_def list_ex_iff\<close>)
  show "ve_id v' = ve_id v" by (simp add: c(3))
  show "find_version db' (ve_id v) = Some v'" unfolding c(4)
    by (rule version_table.find_put_same [OF assms(2)]) (simp add: c(3))
qed

lemma archive_version_sound:
  assumes "exchange_sound db" and "find_version db (ve_id v) = Some v"
  shows "exchange_sound (snd (archive_file_version v db))"
proof -
  note g = version_row_good [OF assms]
  show ?thesis unfolding archive_file_version_def snd_conv
    by (rule put_version_sound [OF assms(1), of _ v]) (use assms(2) g in \<open>auto simp: version_good_def\<close>)
qed

lemma write_blob_tables:
  assumes "write_blob env enc p data db = (e, db')"
  shows "folders db' = folders db" and "files db' = files db" and "versions db' = versions db" and "channels db' = channels db"
    and "grants db' = grants db" and "groups db' = groups db" and "clock db' = clock db"
  using assms by (auto simp: write_blob_def write_encrypted_blob_def split: prod.splits if_splits)

lemma store_version_Ok:
  assumes "store_file_version env f q db = (Ok v, db')"
  obtains n p db1 where "n = new_version (fresh_id (map ve_id (versions db))) (fi_id f) q (ge_sha env (vq_data q)) (clock db)"
    and "v = n\<lparr>ve_path := version_path (fi_id f) (ve_id n) (ge_sha env (vq_data q))\<rparr>"
    and "resolve_storage_path (ve_path v) = Ok p"
    and "write_blob env (vq_encrypt q) p (vq_data q) (db\<lparr>versions := versions db @ [n]\<rparr>) = (None, db1)"
    and "db' = put_version v db1"
    and "lower (strip (vq_channel q)) \<in> {''stable'', ''beta''}" and "strip (vq_label q) \<noteq> []" and "vq_data q \<noteq> []"
    and "\<not> list_ex (\<lambda>v. ve_file v = fi_id f \<and> ve_label v = strip (vq_label q)) (versions db)"
  using assms
  by (auto simp: store_file_version_def Let_def channel_word split: if_splits result.splits prod.splits option.splits)

lemma store_version_sound:
  assumes "exchange_sound db" and "find_file db (fi_id f) = Some g" and "store_file_version env f q db = (Ok v, db')"
  shows "exchange_sound db'" and "find_version db' (ve_id v) = Some v" and "files db' = files db" and "folders db' = folders db"
    and "channels db' = channels db" and "grants db' = grants db" and "versions db' = versions db @ [v]"
    and "ve_file v = fi_id f"
proof -
  obtain n p db1 where n: "n = new_version (fresh_id (map ve_id (versions db))) (fi_id f) q (ge_sha env (vq_data q)) (clock db)"
    "v = n\<lparr>ve_path := version_path (fi_id f) (ve_id n) (ge_sha env (vq_data q))\<rparr>" "resolve_storage_path (ve_path v) = Ok p"
    "write_blob env (vq_encrypt q) p (vq_data q) (db\<lparr>versions := versions db @ [n]\<rparr>) = (None, db1)" "db' = put_version v db1"
    "lower (strip (vq_channel q)) \<in> {''stable'', ''beta''}" "strip (vq_label q) \<noteq> []" "vq_data q \<noteq> []"
    "\<not> list_ex (\<lambda>v. ve_file v = fi_id f \<and> ve_label v = strip (vq_label q)) (versions db)"
    by (rule store_version_Ok [OF assms(3)])
  note w = write_blob_tables [OF n(4)]
  have id: "ve_id v = fresh_id (map ve_id (versions db))" "ve_id n = fresh_id (map ve_id (versions db))" by (simp_all add: n(1,2) new_version_def)
  show "ve_file v = fi_id f" by (simp add: n(1,2) new_version_def)
  have new: "ve_id v \<notin> ve_id ` set (versions db)" unfolding id by (rule fresh_id_new)
  have vs: "update_rows (\<lambda>r. ve_id r = ve_id v) (\<lambda>_. v) (versions db @ [n]) = versions db @ [v]"
  proof -
    have "update_rows (\<lambda>r. ve_id r = ve_id v) (\<lambda>_. v) (versions db) = versions db" by (rule update_rows_none) (use new in \<open>auto simp: image_iff\<close>)
    then show ?thesis using id by (simp add: update_rows_def)
  qed
  show v: "versions db' = versions db @ [v]" unfolding n(5) by (simp add: put_version_def w vs)
  show tables: "files db' = files db" "folders db' = folders db" "channels db' = channels db" "grants db' = grants db"
    unfolding n(5) by (simp_all add: put_version_def w)
  have "versions_ok (files db) (versions db @ [v])"
    unfolding versions_ok_def
  proof (rule table_insert [OF exchange_soundD(3) [OF assms(1), unfolded versions_ok_def] new])
    have "list_ex (\<lambda>r. fi_id r = fi_id f) (files db)" using find_file_in [OF assms(2)] by (auto simp: list_ex_iff)
    then show "version_good (files db) v" using n(6-8) by (simp add: version_good_def n(1,2) new_version_def)
    show "u \<notin> {(ve_file s, ve_label s)}" if "s \<in> set (versions db)" "u \<in> {(ve_file v, ve_label v)}" for s u
      using that n(9) by (auto simp: list_ex_iff n(1,2) new_version_def)
  qed
  then show "exchange_sound db'" using assms(1) by (simp add: exchange_sound_def tables v)
  have "first_row (\<lambda>r. ve_id r = ve_id v) (versions db) = None" using new by (auto simp: image_iff)
  then show "find_version db' (ve_id v) = Some v"
    by (simp add: find_version_def v first_row_append first_row_cases del: first_row_None)
qed

definition deposit_request :: "string \<Rightarrow> string \<Rightarrow> string option \<Rightarrow> string \<Rightarrow> string \<Rightarrow> version_request" where
  "deposit_request t label ty data by =
     \<lparr>vq_channel = ''stable'', vq_label = t, vq_name = label, vq_type = ty, vq_data = data, vq_by = by, vq_log = [], vq_encrypt = True\<rparr>"

lemma deposit_version_Ok:
  assumes "deposit_version env g n b label ty data by db = (Ok (f, v, fresh), db')"
  obtains t where "show_number n = Ok t" and "f = g" and "fresh = b"
    and "store_file_version env g (deposit_request t label ty data by) db = (Ok v, db')"
  using assms by (auto simp: deposit_version_def deposit_request_def split: result.splits prod.splits)

lemma deposit_Ok:
  assumes "exchange_sound db" and run: "deposit_file env w d name ty data by db = Some (Ok (f, v, fresh), db')"
  obtains db1 n t where "exchange_sound db1" and "find_file db1 (fi_id f) = Some f" and "fi_folder f = d" and "fi_active f"
    and "versions db1 = versions db" and "folders db1 = folders db"
    and "show_number n = Ok t" and "if fresh then n = 1 \<and> fi_id f \<notin> fi_id ` set (files db) \<and> files db1 = files db @ [f]
      else n = opt_int_or (max_numeric_version_label db (fi_id f)) 0 + 1 \<and> db1 = db"
    and "store_file_version env f (deposit_request t (or_text (strip name) upload_bin_name) ty data by) db1 = (Ok v, db')"
    and "if fresh then can_manage_file (get_effective_access_on_folder db w d) \<or> d = None \<and> vw_admin w
      else can_manage_file (get_effective_access_on_file db w (Some f))"
proof -
  let ?label = "or_text (strip name) upload_bin_name"
  let ?q = "\<lparr>fq_slug = [], fq_label = ?label, fq_desc = [], fq_cat = [], fq_active = True, fq_folder = d\<rparr>"
  let ?rest = "case first_row (\<lambda>f. fi_folder f = d \<and> fi_label f = ?label \<and> fi_active f) (files db) of
      None \<Rightarrow>
        (if \<not> can_manage_file (get_effective_access_on_folder db w d) \<and> \<not> (d = None \<and> vw_admin w) then Some (Raise ManageRequired, db)
         else (case create_file_resource ?q by db of
                 None \<Rightarrow> None
               | Some (Raise e, db) \<Rightarrow> Some (Raise e, db)
               | Some (Ok f, db) \<Rightarrow> Some (deposit_version env f 1 True ?label ty data by db)))
    | Some f \<Rightarrow>
        (if \<not> can_manage_file (get_effective_access_on_file db w (Some f)) then Some (Raise ManageRequired, db)
         else Some (deposit_version env f (opt_int_or (max_numeric_version_label db (fi_id f)) 0 + 1) False ?label ty data by db))"
  have eq: "(if (case d of None \<Rightarrow> False | Some i \<Rightarrow> find_folder db i = None) then Some (Raise FolderMissing, db) else ?rest) =
      Some (Ok (f, v, fresh), db')"
    using run unfolding deposit_file_def Let_def .
  have start: "\<not> (case d of None \<Rightarrow> False | Some i \<Rightarrow> find_folder db i = None)"
  proof
    assume "case d of None \<Rightarrow> False | Some i \<Rightarrow> find_folder db i = None"
    then show False using eq by (simp only: if_True) simp
  qed
  then have known: "folder_known db d" unfolding folder_known_def by (cases d) (simp_all del: first_row_None)
  have rest: "?rest = Some (Ok (f, v, fresh), db')" using eq unfolding if_not_P [OF start] .
  show thesis
  proof (cases "first_row (\<lambda>f. fi_folder f = d \<and> fi_label f = ?label \<and> fi_active f) (files db)")
    case None
    have m: "can_manage_file (get_effective_access_on_folder db w d) \<or> d = None \<and> vw_admin w"
      using rest unfolding None option.case by (simp split: if_splits) blast?
    then obtain g db1 where c: "create_file_resource ?q by db = Some (Ok g, db1)"
      and dv: "deposit_version env g 1 True ?label ty data by db1 = (Ok (f, v, fresh), db')"
      using rest unfolding None option.case by (auto split: option.splits prod.splits result.splits)
    note cs = create_file_sound [OF assms(1) c] and co = create_file_Ok [OF c]
    obtain t where t: "show_number 1 = Ok t" "f = g" "fresh = True" "store_file_version env g (deposit_request t ?label ty data by) db1 = (Ok v, db')"
      by (rule deposit_version_Ok [OF dv])
    have "fi_id g \<notin> fi_id ` set (files db)" unfolding co(2) by (rule fresh_id_new)
    then show ?thesis using that [of db1 1 t] cs(1,2,3,4) [unfolded file_request.simps, OF known] co(1,3,9) t m by simp
  next
    case (Some g)
    have g: "g \<in> set (files db)" "fi_folder g = d" "fi_active g" using first_row_Some [OF Some] by auto
    have m: "can_manage_file (get_effective_access_on_file db w (Some g))"
      using rest unfolding Some option.case by (simp split: if_splits)
    then have dv: "deposit_version env g (opt_int_or (max_numeric_version_label db (fi_id g)) 0 + 1) False ?label ty data by db =
        (Ok (f, v, fresh), db')"
      using rest unfolding Some option.case by simp
    obtain t where t: "show_number (opt_int_or (max_numeric_version_label db (fi_id g)) 0 + 1) = Ok t" "f = g" "fresh = False"
      "store_file_version env g (deposit_request t ?label ty data by) db = (Ok v, db')"
      by (rule deposit_version_Ok [OF dv])
    have "find_file db (fi_id g) = Some g"
      unfolding find_file_def by (rule first_row_unique [OF table_okD(1) [OF exchange_soundD(2) [OF assms(1), unfolded files_ok_def]] g(1)])
    then show ?thesis
      using that [of db "opt_int_or (max_numeric_version_label db (fi_id g)) 0 + 1" t] assms(1) g t m unfolding t(2,3) by simp
  qed
qed

lemma deposit_label:
  assumes "deposit_file env w d name ty data by db = Some (Ok (f, v, fresh), db')"
  shows "fi_label f = or_text (strip name) upload_bin_name"
proof -
  let ?label = "or_text (strip name) upload_bin_name"
  have bin: "strip upload_bin_name = upload_bin_name" by code_simp
  have label: "strip ?label = ?label" by (simp add: or_text_def bin)
  show ?thesis
  proof (cases "first_row (\<lambda>f. fi_folder f = d \<and> fi_label f = ?label \<and> fi_active f) (files db)")
    case None
    obtain g db1 q where c: "create_file_resource q by db = Some (Ok g, db1)" "fq_label q = ?label"
      and dv: "deposit_version env g 1 True ?label ty data by db1 = (Ok (f, v, fresh), db')"
      using assms unfolding deposit_file_def Let_def None
      by (auto simp del: first_row_None split: if_splits option.splits prod.splits result.splits)
    have "f = g" using dv by (rule deposit_version_Ok)
    then show ?thesis using create_file_Ok(4) [OF c(1)] c(2) label by simp
  next
    case (Some g)
    have "\<exists>n. deposit_version env g n False ?label ty data by db = (Ok (f, v, fresh), db')"
      using assms unfolding deposit_file_def Let_def Some by (auto simp del: first_row_None split: if_splits option.splits)
    then obtain n where "deposit_version env g n False ?label ty data by db = (Ok (f, v, fresh), db')" by blast
    then have "f = g" by (rule deposit_version_Ok)
    then show ?thesis using first_row_Some [OF Some] by simp
  qed
qed

lemma deposit_sound:
  assumes "exchange_sound db" and "deposit_file env w d name ty data by db = Some (Ok (f, v, fresh), db')"
  shows "exchange_sound db'"
  by (rule deposit_Ok [OF assms]) (rule store_version_sound(1))

section \<open>Beta assignments\<close>

lemma assign_beta_sound:
  assumes "exchange_sound db" and "assign_beta_channel q by db = (Ok c, db')"
    and known: "\<And>i. cq_file q = Some i \<Longrightarrow> find_file db i \<noteq> None"
  shows "exchange_sound db'"
proof (cases "db' = db")
  case False
  note s = exchange_soundD [OF assms(1)]
  have c: "c = assignment_row (fresh_id (map ca_id (channels db))) q by"
    "(cq_file q = None) \<noteq> (cq_folder q = None)" "channel_check c" "db' = db\<lparr>channels := channels db @ [c]\<rparr>"
    "first_row (same_assignment q) (channels db) = None"
    using assms(2) False unfolding assign_beta_channel_def Let_def
    by (auto simp del: first_row_None split: if_splits option.splits)
  note c1 = c(1) [unfolded assignment_row_def]
  have "channels_ok (files db) (channels db @ [c])"
    unfolding channels_ok_def
  proof (rule table_insert [OF s(4) [unfolded channels_ok_def]])
    show "ca_id c \<notin> ca_id ` set (channels db)" unfolding c1 using fresh_id_new by simp
    have "list_ex (\<lambda>f. fi_id f = i) (files db)" if "cq_file q = Some i" for i
      using known [OF that] find_file_in by (fastforce simp: list_ex_iff simp del: first_row_None)
    then show "channel_good (files db) c"
      using c(2,3) unfolding channel_good_def by (auto simp: c1 split: option.splits)
    show "u \<notin> {(ca_subject x, ca_group x, ca_user x, ca_file x, ca_folder x)}"
      if "x \<in> set (channels db)" "u \<in> {(ca_subject c, ca_group c, ca_user c, ca_file c, ca_folder c)}" for x u
    proof
      assume "u \<in> {(ca_subject x, ca_group x, ca_user x, ca_file x, ca_folder x)}"
      then have "same_assignment q x" using that(2) c(3) unfolding same_assignment_def channel_check_def c1 by auto
      then show False using c(5) that(1) by auto
    qed
  qed
  then show ?thesis using s by (simp add: c(4) exchange_sound_def)
qed (use assms(1) in simp)

lemma delete_channel_sound:
  assumes "exchange_sound db"
  shows "exchange_sound (snd (delete_channel_assignment i db))"
  using assms table_filter [OF exchange_soundD(4) [OF assms, unfolded channels_ok_def], of "\<lambda>c. ca_id c \<noteq> i" "channel_good (files db)"]
  by (simp add: exchange_sound_def delete_channel_assignment_def channels_ok_def)

end
