(* ===== verification/FileSteps.thy ===== *)
theory FileSteps
  imports FileLaws
begin

text \<open>
  The requests to the exchange as steps: those of users and those of administrators. Whatever the order of the
  requests, the tables stay sound.
\<close>

section \<open>Requests\<close>

inductive user_step :: "file_env \<Rightarrow> (string \<Rightarrow> string) \<Rightarrow> (user_context \<Rightarrow> string) \<Rightarrow> page_request \<Rightarrow> 'a fdb \<Rightarrow> 'a fdb \<Rightarrow> bool"
  for env nfkd mail_of rq where
  folder: "files_create_folder env mail_of rq name p db = (r, db') \<Longrightarrow> user_step env nfkd mail_of rq db db'"
| upload: "files_upload env mail_of rq d name ty data db = Some (r2, db') \<Longrightarrow> user_step env nfkd mail_of rq db db'"
| listing: "api_list_folder env mail_of rq d q db = (r3, db') \<Longrightarrow> user_step env nfkd mail_of rq db db'"
| versions: "files_versions env mail_of rq i db = (r4, db') \<Longrightarrow> user_step env nfkd mail_of rq db db'"
| channel: "files_version_channel env mail_of rq i c db = (r, db') \<Longrightarrow> user_step env nfkd mail_of rq db db'"
| patch: "files_version_patch env mail_of rq i l st db = (r, db') \<Longrightarrow> user_step env nfkd mail_of rq db db'"
| download: "files_download_version env nfkd mail_of rq i db = (r, db') \<Longrightarrow> user_step env nfkd mail_of rq db db'"
| by_slug: "files_download_by_slug env nfkd mail_of rq slug db = (r, db') \<Longrightarrow> user_step env nfkd mail_of rq db db'"
| rename: "files_rename env mail_of rq i label db = (r, db') \<Longrightarrow> user_step env nfkd mail_of rq db db'"
| archive: "files_archive env mail_of rq i db = (r, db') \<Longrightarrow> user_step env nfkd mail_of rq db db'"

inductive admin_step :: "file_env \<Rightarrow> page_request \<Rightarrow> 'a fdb \<Rightarrow> 'a fdb \<Rightarrow> bool" for env rq where
  deposit: "admin_files_deposit env rq form db = Some (r, db') \<Longrightarrow> admin_step env rq db db'"
| create: "admin_files_create env rq slug label desc cat act db = Some (r, db') \<Longrightarrow> admin_step env rq db db'"
| edit: "admin_files_edit env rq i label desc cat act db = (r, db') \<Longrightarrow> admin_step env rq db db'"
| delete: "admin_files_delete env rq i db = (r, db') \<Longrightarrow> admin_step env rq db db'"
| publish: "admin_files_upload_version env rq i q db = (r, db') \<Longrightarrow> admin_step env rq db db'"
| promote: "admin_files_promote_or_patch_version env rq i j c st db = (r, db') \<Longrightarrow> admin_step env rq db db'"
| retire: "admin_files_archive_version env rq i j db = (r, db') \<Longrightarrow> admin_step env rq db db'"
| assign: "admin_files_assign_beta env rq i ty g u n db = (r, db') \<Longrightarrow> admin_step env rq db db'"
| unassign: "admin_files_unassign_beta env rq i j db = (r, db') \<Longrightarrow> admin_step env rq db db'"

inductive file_step :: "file_env \<Rightarrow> (string \<Rightarrow> string) \<Rightarrow> (user_context \<Rightarrow> string) \<Rightarrow> 'a fdb \<Rightarrow> 'a fdb \<Rightarrow> bool"
  for env nfkd mail_of where
  user: "user_step env nfkd mail_of rq db db' \<Longrightarrow> file_step env nfkd mail_of db db'"
| admin: "admin_step env rq db db' \<Longrightarrow> file_step env nfkd mail_of db db'"
| elsewhere: "folders db' = folders db \<Longrightarrow> files db' = files db \<Longrightarrow> versions db' = versions db \<Longrightarrow> channels db' = channels db \<Longrightarrow>
    file_step env nfkd mail_of db db'"

section \<open>The parts of a handler\<close>

lemma sound_same: "same_exchange db db' \<Longrightarrow> exchange_sound db \<Longrightarrow> exchange_sound db'"
  using exchange_sound_cong same_exchangeD(2-5) by blast

lemma file_log_sound [simp]: "exchange_sound (file_log env rq a b c d db) = exchange_sound db"
  by (simp add: exchange_sound_def file_log_def)

lemma published_sound [simp]: "exchange_sound (log_published env rq who v d db) = exchange_sound db"
  by (simp add: log_published_def)

lemma download_log_sound [simp]: "exchange_sound (log_download env rq u v db) = exchange_sound db"
  by (simp add: log_download_def)

lemma disk_sound [simp]: "exchange_sound (db\<lparr>disk := d\<rparr>) = exchange_sound db"
  by (simp add: exchange_sound_def)

lemma flashed_state [simp]: "snd (flashed env r db) = db"
  by (simp add: flashed_def with_flash_def split: result.split)

lemma flashed_eqD: "flashed env r db = (a, db') \<Longrightarrow> db' = db"
  using flashed_state [of env r db] by simp

lemma unlink_sound [simp]: "exchange_sound (fold unlink_blob ps db) = exchange_sound db"
  by (induction ps arbitrary: db) (simp_all add: unlink_blob_def split: result.split)

lemma caller_cases:
  assumes "bind_res (file_caller env mail_of rq db) f = (r, db')"
  obtains "same_exchange db db'"
  | u w db1 where "file_caller env mail_of rq db = (Ok (u, w), db1)" and "same_exchange db db1" and "f (u, w) db1 = (r, db')"
proof (cases "file_caller env mail_of rq db")
  case (Pair a db1)
  then have s: "same_exchange db db1" by (rule caller_exchange(1))
  show thesis
  proof (cases a)
    case (Raise e)
    then show ?thesis using that(1) s assms Pair by simp
  next
    case (Ok p)
    then show ?thesis using that(2) [of "fst p" "snd p" db1] s assms Pair by simp
  qed
qed

lemma managed_version_cases:
  assumes "with_managed_version env mail_of rq i k db = (r, db')"
  obtains "same_exchange db db'"
  | u w v db1 where "file_caller env mail_of rq db = (Ok (u, w), db1)" and "same_exchange db db1" and "find_version db1 i = Some v"
    and "can_manage_file (get_effective_access_on_file db1 w (find_file db1 (ve_file v)))" and "k u v db1 = (r, db')"
proof -
  show thesis
    using assms unfolding with_managed_version_def
    by (rule caller_cases) (auto intro: that split: option.splits if_splits)
qed

lemma managed_file_cases:
  assumes "with_managed_file env mail_of rq i k db = (r, db')"
  obtains "same_exchange db db'"
  | u w f db1 where "file_caller env mail_of rq db = (Ok (u, w), db1)" and "same_exchange db db1" and "find_file db1 i = Some f"
    and "can_manage_file (get_effective_access_on_file db1 w (Some f))" and "k u f db1 = (r, db')"
proof -
  show thesis
    using assms unfolding with_managed_file_def
    by (rule caller_cases) (auto intro: that split: option.splits if_splits)
qed

lemma admin_file_cases:
  assumes "with_admin_file env rq i k db = (r, db')"
  obtains "same_exchange db db'" and "\<And>r'. r = Ok r' \<Longrightarrow> rp_status r' = 404"
  | u f db1 where "require_admin (admin_env.truncate env) rq db = (Ok u, db1)" and "same_exchange db db1" and "find_file db1 i = Some f"
    and "k u f db1 = (r, db')"
proof (cases "require_admin (admin_env.truncate env) rq db")
  case (Pair a db1)
  then have s: "same_exchange db db1" by (rule admin_exchange)
  show thesis
    using assms that s Pair unfolding with_admin_file_def bind_res_def
    by (cases a) (auto simp: plain_reply_def split: option.splits)
qed

lemma admin_version_cases:
  assumes "with_admin_version env rq i j k db = (r, db')"
  obtains "same_exchange db db'"
  | u v db1 where "require_admin (admin_env.truncate env) rq db = (Ok u, db1)" and "same_exchange db db1"
    and "v \<in> set (versions db1)" and "ve_id v = j" and "ve_file v = i" and "k u v db1 = (r, db')"
proof (cases "require_admin (admin_env.truncate env) rq db")
  case (Pair a db1)
  then have s: "same_exchange db db1" by (rule admin_exchange)
  show thesis
    using assms that s Pair unfolding with_admin_version_def bind_res_def
    by (cases a) (auto split: option.splits dest!: first_row_Some)
qed

section \<open>Users keep the tables sound\<close>

lemma sound_version_row:
  assumes "exchange_sound db" and "v \<in> set (versions db)"
  shows "find_version db (ve_id v) = Some v"
  unfolding find_version_def by (rule first_row_unique [OF table_okD(1) [OF exchange_soundD(3) [OF assms(1), unfolded versions_ok_def]] assms(2)])

lemma sound_file_row:
  assumes "exchange_sound db" and "f \<in> set (files db)"
  shows "find_file db (fi_id f) = Some f"
  unfolding find_file_def by (rule first_row_unique [OF table_okD(1) [OF exchange_soundD(2) [OF assms(1), unfolded files_ok_def]] assms(2)])

lemma create_folder_handler_sound:
  assumes "files_create_folder env mail_of rq name p db = (r, db')" and "exchange_sound db"
  shows "exchange_sound db'"
  using assms(1) unfolding files_create_folder_def
proof (rule caller_cases, goal_cases)
  case (2 u w db1)
  have s: "exchange_sound db1" by (rule sound_same [OF 2(2) assms(2)])
  show ?case using 2(3) s create_folder_sound [OF s, of name p "file_actor u"] by (auto split: if_splits prod.splits result.splits)
qed (rule sound_same [OF _ assms(2)])

lemma upload_cases:
  assumes "files_upload env mail_of rq d name ty data db = Some (r, db')"
  obtains "same_exchange db (db'\<lparr>disk := disk db\<rparr>)" and "\<And>r' l. r = Ok (r', l) \<Longrightarrow> rp_status r' \<noteq> 200"
  | u w db1 f v fresh db2 where "file_caller env mail_of rq db = (Ok (u, w), db1)" and "same_exchange db db1"
    and "deposit_file env w d (or_text name upload_bin_name) ty data (file_actor u) db1 = Some (Ok (f, v, fresh), db2)"
    and "folders db' = folders db2" and "files db' = files db2" and "versions db' = versions db2" and "channels db' = channels db2"
    and "disk db' = disk db2"
proof (cases "file_caller env mail_of rq db")
  case (Pair a db1)
  then have s: "same_exchange db db1" by (rule caller_exchange(1))
  have d: "same_exchange db (db1\<lparr>disk := x, disk := disk db\<rparr>)" for x
    using s by (simp add: same_exchange_def same_sources_def)
  then have d1: "same_exchange db (db1\<lparr>disk := disk db\<rparr>)" using s by (simp add: same_exchange_def same_sources_def)
  have st: "rp_status (plain_reply k) = k" "file_error_status e \<noteq> 200" for k e by (simp_all add: plain_reply_def file_error_status_def)
  show thesis
  proof (cases a)
    case (Raise e)
    then show ?thesis using that(1) assms Pair d1 by (auto simp: files_upload_def)
  next
    case (Ok p)
    obtain u w where p: "p = (u, w)" by (cases p)
    show ?thesis
    proof (cases "max_upload_bytes < int (length data)")
      case True
      then show ?thesis using that(1) assms Pair Ok p d1 st(1) by (auto simp add: files_upload_def)
    next
      case False
      show ?thesis
      proof (cases "deposit_file env w d (or_text name upload_bin_name) ty data (file_actor u) db1")
        case None
        then show ?thesis using assms Pair Ok p False by (simp add: files_upload_def)
      next
        case (Some x)
        obtain res db2 where x: "x = (res, db2)" by (cases x)
        show ?thesis
        proof (cases res)
          case (Raise e)
          then have "db' = db1\<lparr>disk := disk db2\<rparr>" "r = Ok (plain_reply (file_error_status e), None)"
            using assms Pair Ok p False Some x by (auto simp: files_upload_def)
          then show ?thesis using that(1) d st by simp
        next
          case r: (Ok y)
          obtain f v fresh where y: "y = (f, v, fresh)" by (cases y)
          have "folders db' = folders db2 \<and> files db' = files db2 \<and> versions db' = versions db2 \<and> channels db' = channels db2 \<and> disk db' = disk db2"
            using assms Pair Ok p False Some x r y by (cases fresh) (auto simp: files_upload_def Let_def file_log_def log_published_def)
          then show ?thesis using that(2) [of u w db1 f v fresh db2] s Pair Ok p Some x r y by simp
        qed
      qed
    qed
  qed
qed

lemma upload_sound:
  assumes "files_upload env mail_of rq d name ty data db = Some (r, db')" and "exchange_sound db"
  shows "exchange_sound db'"
  using assms(1)
proof (rule upload_cases, goal_cases)
  case 1
  from sound_same [OF 1(1) assms(2)] show ?case by simp
next
  case (2 u w db1 f v fresh db2)
  have "exchange_sound db2" by (rule deposit_sound [OF sound_same [OF 2(2) assms(2)] 2(3)])
  then show ?case by (rule exchange_sound_cong) (use 2 in simp_all)
qed

lemma version_handler_sound:
  assumes "with_managed_version env mail_of rq i k db = (r, db')" and "exchange_sound db"
    and "\<And>u v db1. exchange_sound db1 \<Longrightarrow> find_version db1 i = Some v \<Longrightarrow> ve_id v = i \<Longrightarrow> exchange_sound (snd (k u v db1))"
  shows "exchange_sound db'"
  using assms(1)
proof (rule managed_version_cases, goal_cases)
  case (2 u w v db1)
  have "exchange_sound (snd (k u v db1))"
    using assms(3) sound_same [OF 2(2) assms(2)] 2(3) find_version_in by blast
  then show ?case using 2(5) by simp
qed (rule sound_same [OF _ assms(2)])

lemma file_handler_sound:
  assumes "with_managed_file env mail_of rq i k db = (r, db')" and "exchange_sound db"
    and "\<And>u f db1. exchange_sound db1 \<Longrightarrow> find_file db1 (fi_id f) = Some f \<Longrightarrow> exchange_sound (snd (k u f db1))"
  shows "exchange_sound db'"
  using assms(1)
proof (rule managed_file_cases, goal_cases)
  case (2 u w f db1)
  have "find_file db1 (fi_id f) = Some f" using 2(3) find_file_in by blast
  then have "exchange_sound (snd (k u f db1))" using assms(3) sound_same [OF 2(2) assms(2)] by blast
  then show ?case using 2(5) by simp
qed (rule sound_same [OF _ assms(2)])

lemma admin_file_handler_sound:
  assumes "with_admin_file env rq i k db = (r, db')" and "exchange_sound db"
    and "\<And>u f db1. exchange_sound db1 \<Longrightarrow> find_file db1 i = Some f \<Longrightarrow> fi_id f = i \<Longrightarrow> exchange_sound (snd (k u f db1))"
  shows "exchange_sound db'"
  using assms(1)
proof (rule admin_file_cases, goal_cases)
  case (2 u f db1)
  have "exchange_sound (snd (k u f db1))" using assms(3) sound_same [OF 2(2) assms(2)] 2(3) find_file_in by blast
  then show ?case using 2(4) by simp
qed (rule sound_same [OF _ assms(2)])

lemma admin_version_handler_sound:
  assumes "with_admin_version env rq i j k db = (r, db')" and "exchange_sound db"
    and "\<And>u v db1. exchange_sound db1 \<Longrightarrow> find_version db1 (ve_id v) = Some v \<Longrightarrow> exchange_sound (snd (k u v db1))"
  shows "exchange_sound db'"
  using assms(1)
proof (rule admin_version_cases, goal_cases)
  case (2 u v db1)
  have s: "exchange_sound db1" by (rule sound_same [OF 2(2) assms(2)])
  have "exchange_sound (snd (k u v db1))" using assms(3) s sound_version_row [OF s 2(3)] by blast
  then show ?case using 2(6) by simp
qed (rule sound_same [OF _ assms(2)])

lemma channel_handler_sound:
  assumes "files_version_channel env mail_of rq i c db = (r, db')" and "exchange_sound db"
  shows "exchange_sound db'"
  using assms unfolding files_version_channel_def
proof (rule version_handler_sound, goal_cases)
  case (1 u v db1)
  then show ?case using set_channel_sound(1) [OF 1(1), of v c] by (auto split: prod.splits result.splits)
qed

lemma patch_handler_sound:
  assumes "files_version_patch env mail_of rq i l st db = (r, db')" and "exchange_sound db"
  shows "exchange_sound db'"
  using assms unfolding files_version_patch_def
proof (rule version_handler_sound, goal_cases)
  case (1 u v db1)
  have arch: "exchange_sound (snd (archive_file_version x db2))" if "exchange_sound db2" "find_version db2 (ve_id x) = Some x" for x db2
    using that by (rule archive_version_sound)
  show ?case
  proof (cases l)
    case None
    have "exchange_sound (snd (archive_file_version v db1))" by (rule arch [OF 1(1)]) (use 1 in simp)
    then show ?thesis using None 1(1) by (cases "st = Some ''archived''") (simp_all add: archive_file_version_def)
  next
    case (Some t)
    show ?thesis
    proof (cases "rename_version_label v t db1")
      case (Pair x db2)
      show ?thesis
      proof (cases x)
        case (Ok v')
        have "find_version db1 (ve_id v) = Some v" using 1(2,3) by simp
        note rs = rename_version_sound [OF 1(1) this Pair [unfolded Ok]]
        then have "exchange_sound db2" by blast
        have "exchange_sound (snd (archive_file_version v' db2))" by (rule arch [OF rs(1)]) (simp add: rs(2,3))
        then show ?thesis using Some Pair Ok \<open>exchange_sound db2\<close>
          by (cases "st = Some ''archived''") (simp_all add: archive_file_version_def)
      qed (use 1(1) Some Pair in simp)
    qed
  qed
qed

lemma rename_handler_sound:
  assumes "files_rename env mail_of rq i label db = (r, db')" and "exchange_sound db"
  shows "exchange_sound db'"
  using assms unfolding files_rename_def
proof (rule file_handler_sound, goal_cases)
  case (1 u f db1)
  then show ?case using rename_file_sound [OF 1(1,2), of label] by (auto split: prod.splits result.splits)
qed

lemma archive_handler_sound:
  assumes "files_archive env mail_of rq i db = (r, db')" and "exchange_sound db"
  shows "exchange_sound db'"
  using assms unfolding files_archive_def
proof (rule file_handler_sound, goal_cases)
  case (1 u f db1)
  then show ?case using archive_file_sound [OF 1(1,2)] by simp
qed

lemma download_exchange: "same_exchange db (snd (download_version env nfkd rq u w i db))"
  using same_exchange_refl log_exchange
  by (auto simp: download_version_def log_download_def file_log_def split: option.split)

lemma download_handlers_exchange:
  assumes "files_download_version env nfkd mail_of rq i db = (r, db') \<or> files_download_by_slug env nfkd mail_of rq slug db = (r, db')"
  shows "same_exchange db db'"
  using assms
proof
  assume "files_download_version env nfkd mail_of rq i db = (r, db')"
  then show ?thesis unfolding files_download_version_def
  proof (rule caller_cases, goal_cases)
    case (2 u w db1)
    then show ?case using same_exchange_trans [OF 2(2) download_exchange [of db1 env nfkd rq u w i]]
      by (cases "download_version env nfkd rq u w i db1") simp
  qed
next
  assume "files_download_by_slug env nfkd mail_of rq slug db = (r, db')"
  then show ?thesis unfolding files_download_by_slug_def
  proof (rule caller_cases, goal_cases)
    case (2 u w db1)
    have d: "same_exchange db y" if "apfst Ok (download_version env nfkd rq u w i db1) = (x :: (access_error, file_reply) result, y)" for i x y
      using same_exchange_trans [OF 2(2) download_exchange [of db1 env nfkd rq u w i]] that
      by (cases "download_version env nfkd rq u w i db1") simp
    show ?case
    proof (cases "first_row (\<lambda>f. fi_slug f = slug \<and> fi_active f) (files db1)")
      case (Some f)
      show ?thesis
        using 2(2,3) Some d
        by (cases "get_effective_file_version db1 (fi_id f) (fst (get_effective_file_channel db1 w (fi_id f)))")
          (auto split: if_splits)
    qed (use 2 in \<open>simp del: first_row_None\<close>)
  qed
qed

lemma list_exchange: "api_list_folder env mail_of rq d q db = (r3, db') \<Longrightarrow> same_exchange db db'"
  unfolding api_list_folder_def by (rule caller_cases) auto

lemma versions_exchange: "files_versions env mail_of rq i db = (r4, db') \<Longrightarrow> same_exchange db db'"
  unfolding files_versions_def by (rule caller_cases) (auto split: option.splits if_splits)

lemma user_step_sound: "user_step env nfkd mail_of rq db db' \<Longrightarrow> exchange_sound db \<Longrightarrow> exchange_sound db'"
proof (induction rule: user_step.induct)
  case (folder name p db r db')
  then show ?case by (rule create_folder_handler_sound)
next
  case (upload d name ty data db r2 db')
  then show ?case by (rule upload_sound)
next
  case (listing d q db r3 db')
  show ?case by (rule sound_same [OF list_exchange [OF listing(1)] listing(2)])
next
  case (versions i db r4 db')
  show ?case by (rule sound_same [OF versions_exchange [OF versions(1)] versions(2)])
next
  case (channel i c db r db')
  then show ?case by (rule channel_handler_sound)
next
  case (patch i l st db r db')
  then show ?case by (rule patch_handler_sound)
next
  case (download i db r db')
  show ?case by (rule sound_same [OF download_handlers_exchange [OF disjI1 [OF download(1)]] download(2)])
next
  case (by_slug slug db r db')
  show ?case by (rule sound_same [OF download_handlers_exchange [OF disjI2 [OF by_slug(1)]] by_slug(2)])
next
  case (rename i label db r db')
  then show ?case by (rule rename_handler_sound)
next
  case (archive i db r db')
  then show ?case by (rule archive_handler_sound)
qed

section \<open>Administrators keep the tables sound\<close>

lemma admin_upload_sound:
  assumes "admin_files_upload_version env rq i q db = (r, db')" and "exchange_sound db"
  shows "exchange_sound db'"
  using assms unfolding admin_files_upload_version_def
proof (rule admin_file_handler_sound, goal_cases)
  case (1 u f db1)
  have "find_file db1 (fi_id f) = Some f" using 1 by simp
  from store_version_sound(1) [OF 1(1) this, of env "q\<lparr>vq_by := uc_email u, vq_encrypt := True\<rparr>"]
  show ?case using 1(1) by (auto split: prod.splits result.splits if_splits)
qed

lemma admin_edit_sound:
  assumes "admin_files_edit env rq i label desc cat act db = (r, db')" and "exchange_sound db"
  shows "exchange_sound db'"
  using assms unfolding admin_files_edit_def
proof (rule admin_file_handler_sound, goal_cases)
  case (1 u f db1)
  let ?f = "f\<lparr>fi_label := or_text (strip label) (fi_label f), fi_desc := str_opt (strip desc), fi_cat := str_opt (strip cat), fi_active := checked_box act\<rparr>"
  note t = exchange_soundD(2) [OF 1(1), unfolded files_ok_def] and f = find_file_in [OF 1(2)]
  have "fi_label f \<noteq> []" using table_okD(2) [OF t] f by (auto simp: file_good_def)
  then have "exchange_sound (put_file ?f db1)"
    if "\<not> (fi_folder ?f \<noteq> None \<and> list_ex (\<lambda>r. fi_folder r = fi_folder ?f \<and> fi_label r = fi_label ?f \<and> fi_id r \<noteq> fi_id ?f) (files db1))"
    by (intro put_file_sound [OF 1(1), of _ f]) (use 1 that in \<open>auto simp: or_text_def list_ex_iff\<close>)
  then show ?case using 1(1) unfolding Let_def by (cases "fi_folder f") (auto split: if_splits)
qed

lemma admin_delete_sound:
  assumes "admin_files_delete env rq i db = (r, db')" and "exchange_sound db"
  shows "exchange_sound db'"
  using assms unfolding admin_files_delete_def
proof (rule admin_file_handler_sound, goal_cases)
  case (1 u f db1)
  then show ?case using delete_file_sound [OF 1(1), of f] by (auto split: prod.splits)
qed

lemma admin_promote_sound:
  assumes "admin_files_promote_or_patch_version env rq i j c st db = (r, db')" and "exchange_sound db"
  shows "exchange_sound db'"
  using assms unfolding admin_files_promote_or_patch_version_def
proof (rule admin_version_handler_sound, goal_cases)
  case (1 u v db1)
  note p = set_channel_sound(1) [OF 1, of "''stable''", folded promote_file_version_def] and a = archive_version_sound [OF 1]
  show ?case
    using 1 p a by (auto simp: archive_file_version_def Let_def split: prod.splits result.splits if_splits)
qed

lemma admin_archive_sound:
  assumes "admin_files_archive_version env rq i j db = (r, db')" and "exchange_sound db"
  shows "exchange_sound db'"
  using assms unfolding admin_files_archive_version_def
proof (rule admin_version_handler_sound, goal_cases)
  case (1 u v db1)
  then show ?case using archive_version_sound [OF 1] by (auto simp: archive_file_version_def)
qed

lemma admin_assign_sound:
  assumes "admin_files_assign_beta env rq i ty g u n db = (r, db')" and "exchange_sound db"
  shows "exchange_sound db'"
  using assms unfolding admin_files_assign_beta_def
proof (rule admin_file_handler_sound, goal_cases)
  case (1 us f db1)
  let ?q = "\<lparr>cq_file = Some i, cq_folder = None, cq_subject = ty, cq_group = g, cq_user = str_opt (opt_str u), cq_display = str_opt (opt_str n)\<rparr>"
  have "exchange_sound db2" if "assign_beta_channel ?q (uc_email us) db1 = (Ok c, db2)" for c db2
    by (rule assign_beta_sound [OF 1(1) that]) (use 1(2) in simp)
  then show ?case using 1(1) by (auto split: prod.splits result.splits)
qed

lemma admin_unassign_sound:
  assumes "admin_files_unassign_beta env rq i j db = (r, db')" and "exchange_sound db"
  shows "exchange_sound db'"
  using assms unfolding admin_files_unassign_beta_def
proof (rule admin_file_handler_sound, goal_cases)
  case (1 u f db1)
  then show ?case using delete_channel_sound [OF 1(1), of j] by (auto split: option.splits)
qed

lemma admin_create_sound:
  assumes "admin_files_create env rq slug label desc cat act db = Some (r, db')" and "exchange_sound db"
  shows "exchange_sound db'"
proof (cases "require_admin (admin_env.truncate env) rq db")
  case (Pair a db1)
  have s: "exchange_sound db1" by (rule sound_same [OF admin_exchange [OF Pair] assms(2)])
  show ?thesis
  proof (cases a)
    case (Ok u)
    let ?q = "\<lparr>fq_slug = slug, fq_label = label, fq_desc = desc, fq_cat = cat, fq_active = checked_box act, fq_folder = None\<rparr>"
    have new: "exchange_sound db2" if "create_file_resource ?q (uc_email u) db1 = Some (Ok f, db2)" for f db2
      by (rule create_file_sound(1) [OF s that]) (simp add: folder_known_def)
    show ?thesis
    proof (cases "create_file_resource ?q (uc_email u) db1")
      case (Some x)
      then show ?thesis
        using assms(1) Pair Ok s new by (cases x; cases "fst x") (auto simp: admin_files_create_def dest!: arg_cong [where f = snd])
    qed (use assms(1) Pair Ok in \<open>simp add: admin_files_create_def\<close>)
  qed (use assms(1) Pair s in \<open>simp add: admin_files_create_def\<close>)
qed

lemma resolve_resource_Ok:
  assumes "exchange_sound db" and "deposit_resolve_resource form mode by db = Some (Ok (f, fresh), db')"
  shows "exchange_sound db'" and "find_file db' (fi_id f) = Some f"
proof -
  let ?q = "\<lparr>fq_slug = df_slug form, fq_label = df_label form, fq_desc = df_desc form, fq_cat = [], fq_active = True, fq_folder = None\<rparr>"
  have "exchange_sound db' \<and> find_file db' (fi_id f) = Some f"
  proof (cases "mode = ''new''")
    case True
    then have c: "create_file_resource ?q by db = Some (Ok f, db')"
      using assms(2) by (auto simp: deposit_resolve_resource_def split: option.splits prod.splits result.splits)
    show ?thesis using create_file_sound(1,2) [OF assms(1) c] by (simp add: folder_known_def)
  next
    case False
    then have "find_file db (opt_int_or (df_file form) 0) = Some f" "db' = db"
      using assms(2) by (auto simp: deposit_resolve_resource_def split: option.splits if_splits)
    then show ?thesis using assms(1) find_file_in by fastforce
  qed
  then show "exchange_sound db'" and "find_file db' (fi_id f) = Some f" by simp_all
qed

lemma admin_deposit_cases:
  assumes "admin_files_deposit env rq form db = Some (r, db')"
  obtains x where "same_exchange db (db'\<lparr>disk := x\<rparr>)"
  | u :: user_context and db1 f fresh db2 v db3 where "same_exchange db db1" and "deposit_resolve_resource form (lower (strip (df_mode form))) (uc_email u) db1 = Some (Ok (f, fresh), db2)"
    and "store_file_version env f ((df_version form)\<lparr>vq_by := uc_email u, vq_encrypt := True\<rparr>) db2 = (Ok v, db3)"
    and "folders db' = folders db3" and "files db' = files db3" and "versions db' = versions db3" and "channels db' = channels db3"
    and "disk db' = disk db3"
proof (cases "require_admin (admin_env.truncate env) rq db")
  case (Pair a db1)
  then have s: "same_exchange db db1" by (rule admin_exchange)
  have d: "same_exchange db (db1\<lparr>disk := x, disk := disk db\<rparr>)" for x
    using s by (simp add: same_exchange_def same_sources_def)
  have d1: "same_exchange db (db1\<lparr>disk := disk db\<rparr>)" using s by (simp add: same_exchange_def same_sources_def)
  let ?mode = "lower (strip (df_mode form))"
  show thesis
  proof (cases a)
    case (Raise e)
    then show ?thesis using that(1) assms Pair d1 by (simp add: admin_files_deposit_def)
  next
    case (Ok u)
    let ?q = "(df_version form)\<lparr>vq_by := uc_email u, vq_encrypt := True\<rparr>"
    let ?failed = "\<lambda>e disk'.
         (let db = db1\<lparr>disk := disk'\<rparr>
          in if \<not> is_value_error e then (Ok (plain_reply 500), db)
             else if wants_json rq then (Ok (plain_reply 400), db)
             else flashed env (redirect_reply ''/files'') db)"
    have failed: thesis if "?failed e x = (r, db')" for e x
    proof -
      have "db' = db1\<lparr>disk := x\<rparr>" using that by (auto simp: Let_def dest: flashed_eqD split: if_splits)
      then show thesis using \<open>\<And>x. same_exchange db (db'\<lparr>disk := x\<rparr>) \<Longrightarrow> thesis\<close> d by simp
    qed
    show ?thesis
    proof (cases "(?mode \<noteq> ''new'' \<and> ?mode \<noteq> ''existing'') \<or> max_upload_bytes < int (length (vq_data ?q))")
      case True
      then have "db' = db1" using assms Pair Ok by (auto simp: admin_files_deposit_def Let_def split: if_splits)
      then show ?thesis using that(1) d1 by simp
    next
      case False
      then have m: "\<not> (?mode \<noteq> ''new'' \<and> ?mode \<noteq> ''existing'')" "\<not> max_upload_bytes < int (length (vq_data ?q))" by blast+
      note go = assms [unfolded admin_files_deposit_def Pair prod.case Ok result.case Let_def if_not_P [OF m(1)] if_not_P [OF m(2)]]
      show ?thesis
      proof (cases "deposit_resolve_resource form ?mode (uc_email u) db1")
        case None
        then show ?thesis using go by simp
      next
        case (Some x)
        obtain res db2 where x: "x = (res, db2)" by (cases x)
        show ?thesis
        proof (cases res)
          case (Raise e)
          then have "?failed e (disk db2) = (r, db')" using go Some x by (simp add: Let_def)
          then show ?thesis by (rule failed)
        next
          case res: (Ok y)
          obtain f fresh where y: "y = (f, fresh)" by (cases y)
          obtain res3 db3 where st: "store_file_version env f ?q db2 = (res3, db3)" by (cases "store_file_version env f ?q db2")
          show ?thesis
          proof (cases res3)
            case (Raise e)
            then have "?failed e (disk db3) = (r, db')" using go Some x res y st by (simp add: Let_def)
            then show ?thesis by (rule failed)
          next
            case r: (Ok v)
            define db4 where "db4 = (if fresh
                then file_log env rq (uc_email u) ''file.created'' (file_target (fi_id f))
                  [(''slug'', JStr (fi_slug f)), (''label'', JStr (fi_label f)), (''via'', JStr ''deposit'')] db3
                else db3)"
            define db5 where "db5 = log_published env rq (uc_email u) v (version_details v @ [(''via'', JStr ''deposit''), (''mode'', JStr ?mode)]) db4"
            have "db' = db5"
              using go Some x res y st r
              by (auto simp: Let_def db4_def [symmetric] db5_def [symmetric] dest: flashed_eqD split: if_splits)
            moreover have "folders db5 = folders db3 \<and> files db5 = files db3 \<and> versions db5 = versions db3 \<and> channels db5 = channels db3 \<and> disk db5 = disk db3"
              by (simp add: db5_def db4_def file_log_def log_published_def)
            ultimately show ?thesis using that(2) [of db1 u f fresh db2 v db3] s Some x res y st r by simp
          qed
        qed
      qed
    qed
  qed
qed

lemma admin_deposit_sound:
  assumes "admin_files_deposit env rq form db = Some (r, db')" and "exchange_sound db"
  shows "exchange_sound db'"
  using assms(1)
proof (rule admin_deposit_cases, goal_cases)
  case (1 x)
  from sound_same [OF 1 assms(2)] show ?case by simp
next
  case (2 u db1 f fresh db2 v db3)
  note rs = resolve_resource_Ok [OF sound_same [OF 2(1) assms(2)] 2(2)]
  have "exchange_sound db3" by (rule store_version_sound(1) [OF rs 2(3)])
  then show ?case by (rule exchange_sound_cong) (use 2 in simp_all)
qed

lemma admin_step_sound: "admin_step env rq db db' \<Longrightarrow> exchange_sound db \<Longrightarrow> exchange_sound db'"
proof (induction rule: admin_step.induct)
  case (deposit form db r db')
  then show ?case by (rule admin_deposit_sound)
next
  case (create slug label desc cat act db r db')
  then show ?case by (rule admin_create_sound)
next
  case (edit i label desc cat act db r db')
  then show ?case by (rule admin_edit_sound)
next
  case (delete i db r db')
  then show ?case by (rule admin_delete_sound)
next
  case (publish i q db r db')
  then show ?case by (rule admin_upload_sound)
next
  case (promote i j c st db r db')
  then show ?case by (rule admin_promote_sound)
next
  case (retire i j db r db')
  then show ?case by (rule admin_archive_sound)
next
  case (assign i ty g u n db r db')
  then show ?case by (rule admin_assign_sound)
next
  case (unassign i j db r db')
  then show ?case by (rule admin_unassign_sound)
qed

section \<open>Any sequence of requests\<close>

lemma file_step_sound: "file_step env nfkd mail_of db db' \<Longrightarrow> exchange_sound db \<Longrightarrow> exchange_sound db'"
  by (induction rule: file_step.induct) (blast intro: user_step_sound admin_step_sound exchange_sound_cong)+

text \<open>C16: from sound tables, any sequence of requests of users and administrators, with anything that happens elsewhere
  in between, leads to sound tables: the ids of folders, files, versions and assignments are unique, slugs are unique
  and well formed, no folder holds two folders or files of one name, versions of a file are told apart by their labels,
  a parent was there before its folder, the folder of a file exists, the file of a version exists, and so does the file
  of a beta assignment on a file. (The group of an assignment is not checked by the code, and is no part of this.)\<close>

theorem exchange_always_sound:
  assumes "(file_step env nfkd mail_of)\<^sup>*\<^sup>* db db'" and "exchange_sound db"
  shows "exchange_sound db'"
  using assms by (induction rule: rtranclp_induct) (blast intro: file_step_sound)+

end
