(* ===== verification/FileRights.thy ===== *)
theory FileRights
  imports FileSteps
begin

text \<open>
  A user changes only what he may manage: whatever a request of a user adds to the exchange or changes in it lies in
  a place on which the table of grants gives him, or a group he names, the level \<open>Manage\<close>.
\<close>

definition file_versions :: "'a fdb \<Rightarrow> int \<Rightarrow> version_row list" where
  "file_versions db i = filter (\<lambda>v. ve_file v = i) (versions db)"

definition changes :: "'a fdb \<Rightarrow> 'a fdb \<Rightarrow> resource set \<Rightarrow> bool" where
  \<comment> \<open>a file is changed or gone, or its versions are; a file or a folder is new\<close>
  "changes db db' ys \<longleftrightarrow>
     (\<exists>f \<in> set (files db). ys = file_places db f \<and> (f \<notin> set (files db') \<or> file_versions db' (fi_id f) \<noteq> file_versions db (fi_id f))) \<or>
     (\<exists>f \<in> set (files db'). ys = folder_places db (fi_folder f) \<and> fi_id f \<notin> fi_id ` set (files db)) \<or>
     (\<exists>r \<in> set (folders db'). ys = folder_places db (fo_parent r) \<and> r \<notin> set (folders db))"

definition manager :: "'a fdb \<Rightarrow> viewer \<Rightarrow> resource set \<Rightarrow> bool" where
  "manager db w ys \<longleftrightarrow> vw_admin w \<or> right_on db w ys Manage"

lemma same_places:
  assumes "same_exchange db db1"
  shows "changes db1 db' ys = changes db db' ys" and "manager db1 w ys = manager db w ys"
proof -
  note e = same_exchangeD(2-4) [OF assms] same_sourcesD [OF same_exchangeD(1) [OF assms]]
  have p: "file_places db1 f = file_places db f" "folder_places db1 d = folder_places db d" "file_versions db1 i = file_versions db i" for f d i
    by (simp_all add: file_places_def folder_places_def folder_ancestor_ids_def file_versions_def e)
  show "changes db1 db' ys = changes db db' ys" unfolding changes_def p e ..
  show "manager db1 w ys = manager db w ys"
    unfolding manager_def right_on_def file_subjects_def named_groups_def allowed_level_def e ..
qed

lemma same_unchanged: "same_exchange db db' \<Longrightarrow> \<not> changes db db' ys"
  using same_exchangeD(2-4) [of db db'] by (auto simp: changes_def file_versions_def)

lemma managed_file:
  assumes "grants_wf (grants db)" and "can_manage_file (get_effective_access_on_file db w (Some f))"
  shows "manager db w (file_places db f)"
  using iffD1 [OF file_can(3) [OF assms(1)] assms(2)] unfolding manager_def .

lemma managed_folder:
  assumes "grants_wf (grants db)" and "can_manage_file (get_effective_access_on_folder db w d)"
  shows "manager db w (folder_places db d)"
  using iffD1 [OF folder_can(2) [OF assms(1)] assms(2)] unfolding manager_def .

lemma version_changes:
  assumes "exchange_sound db" and "grants_wf (grants db)" and "files db' = files db" and "folders db' = folders db"
    and "\<And>i. i \<noteq> k \<Longrightarrow> file_versions db' i = file_versions db i"
    and "can_manage_file (get_effective_access_on_file db w (find_file db k))" and "changes db db' ys"
  shows "manager db w ys"
proof -
  obtain f where f: "f \<in> set (files db)" "ys = file_places db f" "file_versions db' (fi_id f) \<noteq> file_versions db (fi_id f)"
    using assms(3,4,7) unfolding changes_def by force
  then have "fi_id f = k" using assms(5) by blast
  then have "find_file db k = Some f" using sound_file_row [OF assms(1) f(1)] by simp
  then show ?thesis using managed_file [OF assms(2), of w f] assms(6) f(2) by simp
qed

lemma put_version_others:
  assumes "exchange_sound db" and "find_version db (ve_id v) = Some v0" and "ve_file v = ve_file v0" and "i \<noteq> ve_file v"
  shows "file_versions (put_version v db) i = file_versions db i"
proof -
  note t = exchange_soundD(3) [OF assms(1), unfolded versions_ok_def]
  have "x = v0" if "x \<in> set (versions db)" "ve_id x = ve_id v" for x
    using table_row [OF t that(1), of v0] find_version_in [OF assms(2)] that(2) by simp
  then have "filter (\<lambda>v. ve_file v = i) (update_rows (\<lambda>r. ve_id r = ve_id v) (\<lambda>_. v) rs) = filter (\<lambda>v. ve_file v = i) rs"
    if "set rs \<subseteq> set (versions db)" for rs
    using that assms(3,4) by (induction rs) (auto simp: update_rows_def)
  then show ?thesis by (simp add: file_versions_def put_version_def)
qed

lemma file_changes:
  assumes "exchange_sound db" and "find_file db (fi_id f) = Some f0" and "fi_folder f = fi_folder f0"
    and "files db' = files (put_file f db)" and "folders db' = folders db" and "versions db' = versions db"
    and "manager db w (file_places db f0)" and "changes db db' ys"
  shows "manager db w ys"
proof -
  have ex: "\<exists>x \<in> set (files db). fi_id x = fi_id f" using find_file_in [OF assms(2)] by blast
  have files: "set (files db') = insert f {x \<in> set (files db). fi_id x \<noteq> fi_id f}"
    using set_put_row [OF ex] unfolding assms(4) put_file_def by simp
  have "\<exists>g \<in> set (files db). ys = file_places db g \<and> g \<notin> set (files db')"
    using assms(5,6,8) ex unfolding changes_def files file_versions_def by (auto simp: image_iff)
  then obtain g where g: "g \<in> set (files db)" "ys = file_places db g" "g \<notin> set (files db')" by blast
  then have "fi_id g = fi_id f" unfolding files by blast
  then have "g = f0" using sound_file_row [OF assms(1) g(1)] assms(2) by simp
  then show ?thesis using g(2) assms(7) by simp
qed

section \<open>Handler by handler\<close>

lemma version_handler_rights:
  assumes "with_managed_version env mail_of rq i k db = (r, db')" and sound: "exchange_sound db" and wf: "grants_wf (grants db)"
    and "changes db db' ys"
    and k: "\<And>u v db1. exchange_sound db1 \<Longrightarrow> find_version db1 (ve_id v) = Some v \<Longrightarrow>
      files (snd (k u v db1)) = files db1 \<and> folders (snd (k u v db1)) = folders db1 \<and>
      (\<forall>i. i \<noteq> ve_file v \<longrightarrow> file_versions (snd (k u v db1)) i = file_versions db1 i)"
  shows "\<exists>u w db1. file_caller env mail_of rq db = (Ok (u, w), db1) \<and> manager db w ys"
  using assms(1)
proof (rule managed_version_cases, goal_cases)
  case 1
  then show ?case using assms(4) same_unchanged by blast
next
  case (2 u w v db1)
  have s1: "exchange_sound db1" by (rule sound_same [OF 2(2) sound])
  have wf1: "grants_wf (grants db1)" using wf same_sourcesD(5) [OF same_exchangeD(1) [OF 2(2)]] by simp
  have v: "find_version db1 (ve_id v) = Some v" using 2(3) find_version_in [OF 2(3)] by simp
  note kk = k [OF s1 v, of u, unfolded 2(5) snd_conv]
  have "manager db1 w ys"
    by (rule version_changes [OF s1 wf1 _ _ _ 2(4), of db']) (use kk assms(4) same_places(1) [OF 2(2)] in auto)
  then show ?case using 2(1) same_places(2) [OF 2(2)] by blast
qed

lemma put_version_tables: "files (put_version v db) = files db" "folders (put_version v db) = folders db"
  by (simp_all add: put_version_def)

lemma log_tables: "files (file_log env rq a b c d db) = files db" "folders (file_log env rq a b c d db) = folders db"
  "file_versions (file_log env rq a b c d db) i = file_versions db i" "versions (file_log env rq a b c d db) = versions db"
  by (simp_all add: file_log_def file_versions_def)

lemma channel_rights:
  assumes "files_version_channel env mail_of rq i c db = (r, db')" and "exchange_sound db" and "grants_wf (grants db)" and "changes db db' ys"
  shows "\<exists>u w db1. file_caller env mail_of rq db = (Ok (u, w), db1) \<and> manager db w ys"
  using assms unfolding files_version_channel_def
proof (rule version_handler_rights, goal_cases)
  case (1 u v db1)
  show ?case
  proof (cases "set_version_channel v c db1")
    case (Pair x db2)
    show ?thesis
    proof (cases x)
      case (Ok v')
      then have "db2 = put_version v' db1" "ve_file v' = ve_file v" "ve_id v' = ve_id v"
        using Pair by (auto simp: set_version_channel_def Let_def split: if_splits)
      then show ?thesis using 1 Pair Ok put_version_others [OF 1(1), of v'] by (auto simp: put_version_tables log_tables)
    qed (use Pair in simp)
  qed
qed

lemma patch_rights:
  assumes "files_version_patch env mail_of rq i l st db = (r, db')" and "exchange_sound db" and "grants_wf (grants db)" and "changes db db' ys"
  shows "\<exists>u w db1. file_caller env mail_of rq db = (Ok (u, w), db1) \<and> manager db w ys"
  using assms unfolding files_version_patch_def
proof (rule version_handler_rights, goal_cases)
  case (1 u v db1)
  have arch: "files (snd (archive_file_version x db2)) = files db2 \<and> folders (snd (archive_file_version x db2)) = folders db2 \<and>
      (\<forall>i. i \<noteq> ve_file x \<longrightarrow> file_versions (snd (archive_file_version x db2)) i = file_versions db2 i)"
    if "exchange_sound db2" "find_version db2 (ve_id x) = Some x" for x db2
    using put_version_others [OF that(1), of "x\<lparr>ve_status := ''archived''\<rparr>" x] that(2)
    by (auto simp: archive_file_version_def put_version_tables)
  show ?case
  proof (cases l)
    case None
    then show ?thesis using arch [OF 1]
      by (cases "st = Some ''archived''") (simp_all add: archive_file_version_def log_tables)
  next
    case (Some t)
    show ?thesis
    proof (cases "rename_version_label v t db1")
      case (Pair x db2)
      show ?thesis
      proof (cases x)
        case (Ok v')
        note rs = rename_version_sound [OF 1 Pair [unfolded Ok]]
        have "db2 = put_version v' db1" "ve_file v' = ve_file v" using Pair Ok by (auto simp: rename_version_label_def Let_def split: if_splits)
        then have "files db2 = files db1" "folders db2 = folders db1" "i \<noteq> ve_file v \<Longrightarrow> file_versions db2 i = file_versions db1 i" for i
          using put_version_others [OF 1(1), of v'] 1(2) rs(3) by (auto simp: put_version_tables)
        moreover have "find_version db2 (ve_id v') = Some v'" using rs(2,3) by simp
        note arch [OF rs(1) this]
        ultimately show ?thesis using Some Pair Ok \<open>ve_file v' = ve_file v\<close>
          by (cases "st = Some ''archived''") (simp_all add: archive_file_version_def log_tables)
      qed (use Pair Some in simp)
    qed
  qed
qed

lemma file_handler_rights:
  assumes "with_managed_file env mail_of rq i k db = (r, db')" and sound: "exchange_sound db" and wf: "grants_wf (grants db)"
    and "changes db db' ys"
    and k: "\<And>u f db1. exchange_sound db1 \<Longrightarrow> find_file db1 (fi_id f) = Some f \<Longrightarrow>
      \<exists>f'. fi_id f' = fi_id f \<and> fi_folder f' = fi_folder f \<and> files (snd (k u f db1)) = files (put_file f' db1) \<and>
        folders (snd (k u f db1)) = folders db1 \<and> versions (snd (k u f db1)) = versions db1"
  shows "\<exists>u w db1. file_caller env mail_of rq db = (Ok (u, w), db1) \<and> manager db w ys"
  using assms(1)
proof (rule managed_file_cases, goal_cases)
  case 1
  then show ?case using assms(4) same_unchanged by blast
next
  case (2 u w f db1)
  have s1: "exchange_sound db1" by (rule sound_same [OF 2(2) sound])
  have wf1: "grants_wf (grants db1)" using wf same_sourcesD(5) [OF same_exchangeD(1) [OF 2(2)]] by simp
  have f: "find_file db1 (fi_id f) = Some f" using 2(3) find_file_in [OF 2(3)] by simp
  obtain f' where f': "fi_id f' = fi_id f" "fi_folder f' = fi_folder f" "files db' = files (put_file f' db1)" "folders db' = folders db1"
      "versions db' = versions db1"
    using k [OF s1 f, of u] unfolding 2(5) by auto
  have "manager db1 w ys"
    by (rule file_changes [OF s1 _ f'(2,3,4,5) managed_file [OF wf1 2(4)]]) (use f f' assms(4) same_places(1) [OF 2(2)] in auto)
  then show ?case using 2(1) same_places(2) [OF 2(2)] by blast
qed

lemma put_same:
  assumes "exchange_sound db" and "find_file db (fi_id f) = Some f"
  shows "files (put_file f db) = files db"
proof -
  note t = exchange_soundD(2) [OF assms(1), unfolded files_ok_def]
  have "(if fi_id x = fi_id f then f else x) = x" if "x \<in> set (files db)" for x
    using table_row [OF t that, of f] find_file_in [OF assms(2)] by auto
  then show ?thesis by (simp add: put_file_def update_rows_def map_idI)
qed

lemma rename_rights:
  assumes "files_rename env mail_of rq i label db = (r, db')" and "exchange_sound db" and "grants_wf (grants db)" and "changes db db' ys"
  shows "\<exists>u w db1. file_caller env mail_of rq db = (Ok (u, w), db1) \<and> manager db w ys"
  using assms unfolding files_rename_def
proof (rule file_handler_rights, goal_cases)
  case (1 u f db1)
  show ?case
  proof (cases "rename_file_resource f label db1")
    case (Pair x db2)
    show ?thesis
    proof (cases x)
      case (Ok f')
      then have "f' = f\<lparr>fi_label := strip label\<rparr>" "db2 = put_file f' db1"
        using Pair by (auto simp: rename_file_resource_def Let_def split: if_splits)
      then show ?thesis using Pair Ok by (intro exI [of _ f']) (simp add: log_tables put_file_def)
    next
      case (Raise e)
      then show ?thesis using Pair put_same [OF 1] by (intro exI [of _ f]) simp
    qed
  qed
qed

lemma archive_rights:
  assumes "files_archive env mail_of rq i db = (r, db')" and "exchange_sound db" and "grants_wf (grants db)" and "changes db db' ys"
  shows "\<exists>u w db1. file_caller env mail_of rq db = (Ok (u, w), db1) \<and> manager db w ys"
  using assms unfolding files_archive_def
proof (rule file_handler_rights, goal_cases)
  case (1 u f db1)
  show ?case by (intro exI [of _ "f\<lparr>fi_active := False\<rparr>"]) (simp add: archive_file_resource_def log_tables put_file_def)
qed

lemma folder_rights:
  assumes "files_create_folder env mail_of rq name p db = (r, db')" and sound: "exchange_sound db" and wf: "grants_wf (grants db)"
    and "changes db db' ys"
  shows "\<exists>u w db1. file_caller env mail_of rq db = (Ok (u, w), db1) \<and> manager db w ys"
  using assms(1) unfolding files_create_folder_def
proof (rule caller_cases, goal_cases)
  case 1
  then show ?case using assms(4) same_unchanged by blast
next
  case (2 u w db1)
  have wf1: "grants_wf (grants db1)" using wf same_sourcesD(5) [OF same_exchangeD(1) [OF 2(2)]] by simp
  have ch: "changes db1 db' ys" using assms(4) same_places(1) [OF 2(2)] by simp
  have no: "db' \<noteq> db1" using ch same_unchanged [OF same_exchange_refl] by blast
  then have m: "can_manage_file (get_effective_access_on_folder db1 w p) \<or> p = None \<and> vw_admin w"
    using 2(3) by (auto split: if_splits)
  then have mp: "manager db1 w (folder_places db1 p)" using managed_folder [OF wf1] by (auto simp: manager_def)
  obtain x db2 where c: "create_folder name p (file_actor u) db1 = (Ok x, db2)"
    using 2(3) m no by (auto split: prod.splits result.splits if_splits)
  then have d: "folders db' = folders db1 @ [x]" "files db' = files db1" "versions db' = versions db1" "fo_parent x = p"
    using 2(3) m by (auto simp: create_folder_def Let_def log_tables split: if_splits)
  have "ys = folder_places db1 p" using ch d unfolding changes_def file_versions_def by auto
  then show ?case using mp 2(1) same_places(2) [OF 2(2)] by blast
qed

lemma upload_rights:
  assumes "files_upload env mail_of rq d name ty data db = Some (r, db')" and sound: "exchange_sound db" and wf: "grants_wf (grants db)"
    and "changes db db' ys"
  shows "\<exists>u w db1. file_caller env mail_of rq db = (Ok (u, w), db1) \<and> manager db w ys"
  using assms(1)
proof (rule upload_cases, goal_cases)
  case 1
  have "changes db (db'\<lparr>disk := disk db\<rparr>) ys = changes db db' ys" by (simp add: changes_def file_versions_def)
  then show ?case using same_unchanged [OF 1(1)] assms(4) by blast
next
  case (2 u w db1 f v fresh db2)
  have s1: "exchange_sound db1" by (rule sound_same [OF 2(2) sound])
  have wf1: "grants_wf (grants db1)" using wf same_sourcesD(5) [OF same_exchangeD(1) [OF 2(2)]] by simp
  have ch: "changes db1 db' ys" using assms(4) same_places(1) [OF 2(2)] by simp
  obtain db3 n t where dep: "exchange_sound db3" "find_file db3 (fi_id f) = Some f" "fi_folder f = d" "fi_active f"
    "versions db3 = versions db1" "folders db3 = folders db1" "show_number n = Ok t"
    "if fresh then n = 1 \<and> fi_id f \<notin> fi_id ` set (files db1) \<and> files db3 = files db1 @ [f]
      else n = opt_int_or (max_numeric_version_label db1 (fi_id f)) 0 + 1 \<and> db3 = db1"
    "store_file_version env f (deposit_request t (or_text (strip (or_text name upload_bin_name)) upload_bin_name) ty data (file_actor u)) db3 = (Ok v, db2)"
    "if fresh then can_manage_file (get_effective_access_on_folder db1 w d) \<or> d = None \<and> vw_admin w
      else can_manage_file (get_effective_access_on_file db1 w (Some f))"
    by (rule deposit_Ok [OF s1 2(3)])
  note st = store_version_sound [OF dep(1,2,9)]
  have vs: "file_versions db' i = file_versions db1 i" if "i \<noteq> fi_id f" for i
    using that by (simp add: file_versions_def 2(6) st(7,8) dep(5))
  have fo: "folders db' = folders db1" by (simp add: 2(4) st(4) dep(6))
  have "manager db1 w ys"
  proof (cases fresh)
    case True
    then have new: "fi_id f \<notin> fi_id ` set (files db1)" "files db' = files db1 @ [f]" using dep(8) by (simp_all add: 2(5) st(3))
    have "ys = folder_places db1 d" using ch new vs fo dep(3) unfolding changes_def by (auto simp: image_iff)
    then show ?thesis using dep(10) True managed_folder [OF wf1] by (auto simp: manager_def)
  next
    case False
    then have "db3 = db1" "files db' = files db1" using dep(8) by (simp_all add: 2(5) st(3))
    then show ?thesis
      using version_changes [OF s1 wf1 _ fo vs _ ch, of "fi_id f" w] dep(2,10) False by simp
  qed
  then show ?case using 2(1) same_places(2) [OF 2(2)] by blast
qed

text \<open>C11: whatever a request of a user changes, he manages: a file it changes, removes or gives other versions, the folder
  it puts a new file into, the folder it makes a new folder in. Either the caller is an administrator, or the abstract
  table of grants gives him or a group he names \<open>Manage\<close> there or above.\<close>

theorem users_change_what_they_manage:
  assumes "grants_wf (grants db)" and "exchange_sound db" and "user_step env nfkd mail_of rq db db'" and "changes db db' ys"
  shows "\<exists>u w db1. file_caller env mail_of rq db = (Ok (u, w), db1) \<and> (vw_admin w \<or> right_on db w ys Manage)"
proof -
  have "\<exists>u w db1. file_caller env mail_of rq db = (Ok (u, w), db1) \<and> manager db w ys"
    using assms(3)
  proof cases
    case (folder name p r)
    then show ?thesis by (rule folder_rights [OF _ assms(2,1,4)])
  next
    case (upload d name ty data r2)
    then show ?thesis by (rule upload_rights [OF _ assms(2,1,4)])
  next
    case (listing d q r3)
    then show ?thesis using same_unchanged [OF list_exchange] assms(4) by blast
  next
    case (versions i r4)
    then show ?thesis using same_unchanged [OF versions_exchange] assms(4) by blast
  next
    case (channel i c r)
    then show ?thesis by (rule channel_rights [OF _ assms(2,1,4)])
  next
    case (patch i l st r)
    then show ?thesis by (rule patch_rights [OF _ assms(2,1,4)])
  next
    case (download i r)
    then show ?thesis using same_unchanged [OF download_handlers_exchange] assms(4) by blast
  next
    case (by_slug slug r)
    then show ?thesis using same_unchanged [OF download_handlers_exchange] assms(4) by blast
  next
    case (rename i label r)
    then show ?thesis by (rule rename_rights [OF _ assms(2,1,4)])
  next
    case (archive i r)
    then show ?thesis by (rule archive_rights [OF _ assms(2,1,4)])
  qed
  then show ?thesis unfolding manager_def .
qed

end
