(* ===== verification/FileClaims.thy ===== *)
theory FileClaims
  imports FileRights
begin

text \<open>
  What is deposited can be fetched again and what is deleted is gone: encrypted blobs read back as what was written,
  every version has a file of its own on the disk.
\<close>

section \<open>Frames\<close>

lemma concat_chunks: "0 < n \<Longrightarrow> concat (chunks n s) = s"
  by (induction n s rule: chunks.induct) (subst chunks.simps, simp)

lemma pack_length [simp]: "length (pack_be32 n) = 4"
  by (simp add: pack_be32_def)

lemma unpack_pack:
  assumes "0 \<le> n" and "n < 4294967296"
  shows "unpack_be32 (pack_be32 n) = n"
proof -
  have "unpack_be32 (pack_be32 n) = ((n div 16777216 mod 256 * 256 + n div 65536 mod 256) * 256 + n div 256 mod 256) * 256 + n mod 256"
    by (simp add: unpack_be32_def pack_be32_def)
  also have "\<dots> = n"
  proof -
    have d: "n div 16777216 = n div 65536 div 256" "n div 65536 = n div 256 div 256"
      using zdiv_zmult2_eq [of 256 n 65536] zdiv_zmult2_eq [of 256 n 256] by simp_all
    have "n div 16777216 < 256" using assms(2) by simp
    then have "n div 16777216 mod 256 = n div 16777216" using assms(1) by simp
    then show ?thesis using div_mult_mod_eq [of "n div 65536" 256] div_mult_mod_eq [of "n div 256" 256] div_mult_mod_eq [of n 256]
      unfolding d by argo
  qed
  finally show ?thesis .
qed

lemma read_write_frames:
  assumes "\<And>b. dec (enc b) = Some b" and "write_frames enc bs = (None, s)"
  shows "read_frames dec s = (bs, None)"
  using assms(2)
proof (induction bs arbitrary: s)
  case Nil
  then show ?case by (simp add: read_frames.simps)
next
  case (Cons b bs)
  let ?t = "enc b"
  have short: "\<not> 4294967296 \<le> int (length ?t)" using Cons.prems by (auto simp: Let_def split: if_splits)
  obtain s' where s': "write_frames enc bs = (None, s')" "s = pack_be32 (int (length ?t)) @ ?t @ s'"
    using Cons.prems short by (cases "write_frames enc bs") (auto simp: Let_def)
  have n: "unpack_be32 (pack_be32 (int (length ?t))) = int (length ?t)" using short by (intro unpack_pack) simp_all
  have "take 4 s = pack_be32 (int (length ?t))" "drop 4 s = ?t @ s'" "s \<noteq> []" "\<not> length s < 4"
    using pack_length [of "int (length ?t)"] by (auto simp: s'(2) simp del: pack_length)
  then show ?case using Cons.IH [OF s'(1)] n assms(1) by (subst read_frames.simps) (simp add: Let_def)
qed

section \<open>Paths\<close>

definition plain_char :: "char \<Rightarrow> bool" where
  "plain_char c \<longleftrightarrow> is_slug_char c \<or> c = CHR ''-'' \<or> c = CHR ''_''"

lemma plain_chars: "\<not> plain_char (CHR ''/'')" "\<not> plain_char (CHR ''.'')" "\<not> plain_char (CHR 0x5C)" "plain_char (CHR ''_'')"
  by code_simp+

lemma plain_space: "plain_char c \<Longrightarrow> \<not> is_space c"
proof
  assume p: "plain_char c" and s: "is_space c"
  have "\<not> is_space (CHR ''-'')" "\<not> is_space (CHR ''_'')" by code_simp+
  then show False using p s by (auto simp: plain_char_def is_slug_char_def is_space_def is_digit_def)
qed

lemma show_int_plain: "c \<in> set (show_int n) \<Longrightarrow> is_digit c \<or> c = CHR ''-''"
  using show_base_digits [of n c] show_base_digits [of "- n" c] by (auto simp: show_int_def split: if_splits)

lemma plain_path:
  assumes "list_all is_slug_char hsum"
  shows "\<forall>c \<in> set (show_int i). plain_char c" and "\<forall>c \<in> set (show_int j @ CHR ''_'' # take 12 hsum). plain_char c"
  using assms show_int_plain plain_chars(4)
  by (auto simp: plain_char_def is_slug_char_def list_all_iff dest!: in_set_takeD)

lemma show_int_neq_Nil [simp]: "show_int n \<noteq> []"
  by (simp add: show_int_def)

lemma plain_word: "w \<noteq> [] \<Longrightarrow> \<forall>c \<in> set w. plain_char c \<Longrightarrow> w \<noteq> ''.'' \<and> w \<noteq> ''..''"
  using plain_chars(2) by auto

lemma resolve_version_path:
  assumes "list_all is_slug_char hsum"
  shows "resolve_storage_path (version_path i j hsum) = Ok [show_int i, show_int j @ CHR ''_'' # take 12 hsum]"
    and "disk_name [show_int i, show_int j @ CHR ''_'' # take 12 hsum] = version_path i j hsum"
proof -
  let ?a = "show_int i" and ?b = "show_int j @ CHR ''_'' # take 12 hsum"
  note p = plain_path(1) [OF assms, of i] plain_path(2) [OF assms, of j]
  have join: "version_path i j hsum = ?a @ CHR ''/'' # ?b" by (simp add: version_path_def)
  have "c \<noteq> CHR 0x5C \<and> \<not> is_space c" if "c \<in> set (version_path i j hsum)" for c
  proof -
    have "plain_char c \<or> c = CHR ''/''" using that p unfolding join by auto
    moreover have "\<not> is_space (CHR ''/'')" by code_simp
    ultimately show ?thesis using plain_chars(3) plain_space by auto
  qed
  then have st: "strip (version_path i j hsum) = version_path i j hsum" "replace_char (CHR 0x5C) ''/'' (version_path i j hsum) = version_path i j hsum"
  proof -
    assume all: "\<And>c. c \<in> set (version_path i j hsum) \<Longrightarrow> c \<noteq> CHR 0x5C \<and> \<not> is_space c"
    show "strip (version_path i j hsum) = version_path i j hsum" by (rule strip_no_space) (use all in blast)
    have "concat (map (\<lambda>c. if c = CHR 0x5C then ''/'' else [c]) s) = s" if "\<forall>c \<in> set s. c \<noteq> CHR 0x5C" for s
      using that by (induction s) auto
    then show "replace_char (CHR 0x5C) ''/'' (version_path i j hsum) = version_path i j hsum" unfolding replace_char_def using all by blast
  qed
  have no: "CHR ''/'' \<notin> set ?a" "CHR ''/'' \<notin> set ?b" using p plain_chars(1) by blast+
  then have split: "split_on (CHR ''/'') (version_path i j hsum) = [?a, ?b]"
    unfolding join using split_on_append [OF no(1), of ?b] split_on_no_occ [OF no(2)] by argo
  have words: "?a \<noteq> ''.'' \<and> ?a \<noteq> ''..''" "?b \<noteq> ''.'' \<and> ?b \<noteq> ''..''"
    using plain_word [OF _ p(1)] plain_word [OF _ p(2)] by simp_all
  have start: "\<not> starts_with ''/'' (version_path i j hsum)"
    unfolding join using no(1) by (cases ?a) auto
  have ne: "version_path i j hsum \<noteq> []" unfolding join by simp
  have parts: "filter (\<lambda>p. p \<noteq> [] \<and> p \<noteq> ''.'') [?a, ?b] = [?a, ?b]" "''..'' \<notin> set [?a, ?b]"
    using words show_int_neq_Nil by (auto simp del: show_int_neq_Nil)
  show "resolve_storage_path (version_path i j hsum) = Ok [?a, ?b]"
    unfolding resolve_storage_path_def Let_def st split parts(1) using ne start parts(2) by argo
  show "disk_name [?a, ?b] = version_path i j hsum" unfolding join by simp
qed

lemma version_path_inj:
  assumes "list_all is_slug_char s" and "list_all is_slug_char s'" and "version_path i j s = version_path i' j' s'"
  shows "i = i'" and "j = j'"
proof -
  have "[show_int i, show_int j @ CHR ''_'' # take 12 s] = [show_int i', show_int j' @ CHR ''_'' # take 12 s']"
    using resolve_version_path(1) [OF assms(1), of i j] resolve_version_path(1) [OF assms(2), of i' j'] assms(3) by simp
  then have e: "show_int i = show_int i'" "show_int j @ CHR ''_'' # take 12 s = show_int j' @ CHR ''_'' # take 12 s'" by simp_all
  show "i = i'" by (rule show_int_inj [OF e(1)])
  have "\<not> is_digit (CHR ''_'')" by code_simp
  then have "CHR ''_'' \<notin> set (show_int j)" "CHR ''_'' \<notin> set (show_int j')" using show_int_plain by fastforce+
  then have "show_int j = show_int j'" using split_on_append e(2) by (metis list.inject)
  then show "j = j'" by (rule show_int_inj)
qed

section \<open>Deposits\<close>

lemma map_update: "map_of (AList.update k v al) k = Some v"
  by (simp add: update_conv')

lemma stored_version_reads:
  assumes enc: "\<And>b. bl_decrypt env (bl_encrypt env b) = Some b"
    and run: "store_file_version env f (deposit_request t label ty data by) db = (Ok v, db')"
  shows "concat (fst (iter_version_plaintext env v db')) = data" and "snd (iter_version_plaintext env v db') = None"
proof -
  let ?q = "deposit_request t label ty data by"
  obtain n p db1 where n: "v = n\<lparr>ve_path := version_path (fi_id f) (ve_id n) (ge_sha env (vq_data ?q))\<rparr>"
    "n = new_version (fresh_id (map ve_id (versions db))) (fi_id f) ?q (ge_sha env (vq_data ?q)) (clock db)"
    "resolve_storage_path (ve_path v) = Ok p"
    "write_blob env (vq_encrypt ?q) p (vq_data ?q) (db\<lparr>versions := versions db @ [n]\<rparr>) = (None, db1)" "db' = put_version v db1"
    by (rule store_version_Ok [OF run])
  have q: "vq_encrypt ?q" "vq_data ?q = data" by (simp_all add: deposit_request_def)
  let ?bs = "chunks (nat (chunk_size (bl_chunk env))) data"
  obtain s where s: "write_frames (bl_encrypt env) ?bs = (None, s)" "disk db1 = AList.update (disk_name p) s (disk db)"
    using n(4) q by (auto simp: write_blob_def write_encrypted_blob_def split: prod.splits)
  have "disk db' = disk db1" unfolding n(5) by (simp add: put_version_def)
  then have "map_of (disk db') (disk_name p) = Some s" unfolding s(2) by (simp only: map_update)
  moreover have "ve_encrypted v" using q(1) by (simp add: n(1,2) new_version_def)
  ultimately have r: "iter_version_plaintext env v db' = (?bs, None)"
    using n(3) read_write_frames [of "bl_decrypt env" "bl_encrypt env", OF enc s(1)] by (simp add: iter_version_plaintext_def)
  have "0 < nat (chunk_size (bl_chunk env))" by (simp add: chunk_size_def)
  then show "concat (fst (iter_version_plaintext env v db')) = data" "snd (iter_version_plaintext env v db') = None"
    unfolding r by (simp_all add: concat_chunks)
qed

lemma max_numeric_bound:
  assumes "v \<in> set (versions db)" and "ve_file v = i" and "parse_numeric_version (ve_label v) = Some n"
  shows "\<exists>b. max_numeric_version_label db i = Some b \<and> n \<le> b"
proof -
  let ?f = "\<lambda>v best. case (parse_numeric_version (ve_label v), best) of
      (None, _) \<Rightarrow> best | (Some n, None) \<Rightarrow> Some n | (Some n, Some b) \<Rightarrow> if b < n then Some n else best"
  have keep: "\<exists>b'. fold ?f vs (Some b) = Some b' \<and> b \<le> b'" for vs and b :: int
  proof (induction vs arbitrary: b)
    case (Cons x vs)
    show ?case
    proof (cases "parse_numeric_version (ve_label x)")
      case (Some m)
      then show ?thesis using Cons.IH [of b] Cons.IH [of m] by (auto intro: order_trans)
    qed (use Cons.IH in simp)
  qed simp
  have "v \<in> set vs \<Longrightarrow> \<exists>b. fold ?f vs a = Some b \<and> n \<le> b" for vs a
  proof (induction vs arbitrary: a)
    case (Cons x vs)
    show ?case
    proof (cases "x = v")
      case True
      then have "\<exists>c. ?f x a = Some c \<and> n \<le> c" using assms(3) by (cases a) auto
      then obtain c where "?f x a = Some c" "n \<le> c" by blast
      then show ?thesis using keep [of vs c] by (auto intro: order_trans)
    qed (use Cons in auto)
  qed simp
  then show ?thesis unfolding max_numeric_version_label_def using assms(1,2) by simp
qed

lemma max_numeric_nonneg:
  assumes "\<And>v n. v \<in> set (versions db) \<Longrightarrow> parse_numeric_version (ve_label v) = Some n \<Longrightarrow> 0 \<le> n"
  shows "0 \<le> opt_int_or (max_numeric_version_label db i) 0"
proof -
  let ?f = "\<lambda>v best. case (parse_numeric_version (ve_label v), best) of
      (None, _) \<Rightarrow> best | (Some n, None) \<Rightarrow> Some n | (Some n, Some b) \<Rightarrow> if b < n then Some n else best"
  have "fold ?f vs a = Some b \<Longrightarrow> set vs \<subseteq> set (versions db) \<Longrightarrow> (\<And>c. a = Some c \<Longrightarrow> 0 \<le> c) \<Longrightarrow> 0 \<le> b" for vs a b
  proof (induction vs arbitrary: a)
    case (Cons x vs)
    have "0 \<le> c" if "?f x a = Some c" for c
      using that Cons.prems(2,3) assms [of x] by (auto split: option.splits if_splits)
    then show ?case using Cons.IH [of "?f x a"] Cons.prems(1,2) by simp
  qed simp
  from this [of "filter (\<lambda>v. ve_file v = i) (versions db)" None] show ?thesis
    by (auto simp: max_numeric_version_label_def opt_int_or_def int_or_def split: option.split)
qed

lemma newest_version:
  assumes "v \<in> set (versions db)" and "ve_file v = i" and "ve_status v = ''active''" and "ve_channel v = ''stable''"
    and "parse_numeric_version (ve_label v) = Some n" and "0 \<le> n"
    and less: "\<And>x m. x \<in> set (versions db) \<Longrightarrow> ve_file x = i \<Longrightarrow> x \<noteq> v \<Longrightarrow> parse_numeric_version (ve_label x) = Some m \<Longrightarrow> m < n"
    and c: "c \<in> {''stable'', ''beta''}"
  shows "get_effective_file_version db i c = Some v"
proof -
  have key: "version_sort_key x < version_sort_key v" if "x \<in> set (versions db)" "ve_file x = i" "x \<noteq> v" for x
    using less [OF that] assms(5,6) by (cases "parse_numeric_version (ve_label x)") (simp_all add: version_sort_key_def)
  obtain w where w: "get_effective_file_version db i c = Some w"
  proof (cases "get_effective_file_version db i c")
    case None
    have "lower (strip (or_text ''stable'' ''stable'')) = ''stable''" "lower (strip (or_text ''beta'' ''stable'')) = ''beta''"
      "''stable'' \<in> set file_channels" "''beta'' \<in> set file_channels" by code_simp+
    then have "first_max version_sort_key (filter (\<lambda>v. ve_file v = i \<and> ve_status v = ''active'' \<and>
        ve_channel v \<in> (if c = ''beta'' then {''beta'', ''stable''} else {''stable''})) (versions db)) = None"
      using None c by (auto simp: get_effective_file_version_def Let_def)
    then have "filter (\<lambda>v. ve_file v = i \<and> ve_status v = ''active'' \<and>
        ve_channel v \<in> (if c = ''beta'' then {''beta'', ''stable''} else {''stable''})) (versions db) = []"
      by (rule first_max.elims) auto
    moreover have "v \<in> set (filter (\<lambda>v. ve_file v = i \<and> ve_status v = ''active'' \<and>
        ve_channel v \<in> (if c = ''beta'' then {''beta'', ''stable''} else {''stable''})) (versions db))"
      using assms(1-4) by simp
    ultimately show thesis by simp
  qed (rule that)
  note e = effective_version [OF w c]
  have "version_sort_key v \<le> version_sort_key w" using e(5) [OF assms(1-4)] .
  then have "w = v" using key [OF e(1,2)] by (cases "w = v") auto
  then show ?thesis using w by simp
qed

text \<open>C34: what is deposited is served: after an upload is answered 200 the folder holds an active file labelled with the
  name of the upload (without outer blanks, or \<open>upload.bin\<close>), with a version that was not there before and whose number
  is greater than that of every other version of the file; that version is what the file stands for in both channels, and
  its blob reads back as the uploaded data. This holds in sound tables, provided that decryption undoes encryption and
  that no version in the table has a negative number as its label.\<close>

theorem deposit_served:
  assumes "exchange_sound db" and enc: "\<forall>b. bl_decrypt env (bl_encrypt env b) = Some b"
    and "\<forall>x \<in> set (versions db). \<forall>m. parse_numeric_version (ve_label x) = Some m \<longrightarrow> 0 \<le> m"
    and "files_upload env mail_of rq d name ty data db = Some (Ok (r, l), db')" and "rp_status r = 200"
  shows "\<exists>f v n. f \<in> set (files db') \<and> fi_folder f = d \<and> fi_active f \<and>
    fi_label f = or_text (strip (or_text name upload_bin_name)) upload_bin_name \<and>
    v \<in> set (versions db') \<and> ve_file v = fi_id f \<and> ve_id v \<notin> ve_id ` set (versions db) \<and>
    parse_numeric_version (ve_label v) = Some n \<and>
    (\<forall>x \<in> set (versions db'). \<forall>m. ve_file x = fi_id f \<longrightarrow> x \<noteq> v \<longrightarrow> parse_numeric_version (ve_label x) = Some m \<longrightarrow> m < n) \<and>
    (\<forall>c \<in> {''stable'', ''beta''}. get_effective_file_version db' (fi_id f) c = Some v) \<and>
    concat (fst (iter_version_plaintext env v db')) = data \<and> snd (iter_version_plaintext env v db') = None"
  using assms(4)
proof (rule upload_cases, goal_cases)
  case 1
  then show ?case using assms(5) by blast
next
  case (2 u w db1 f v fresh db2)
  have s1: "exchange_sound db1" by (rule sound_same [OF 2(2) assms(1)])
  note e = same_exchangeD [OF 2(2)]
  obtain db3 n t where dep: "exchange_sound db3" "find_file db3 (fi_id f) = Some f" "fi_folder f = d" "fi_active f"
    "versions db3 = versions db1" "folders db3 = folders db1" "show_number n = Ok t"
    "if fresh then n = 1 \<and> fi_id f \<notin> fi_id ` set (files db1) \<and> files db3 = files db1 @ [f]
      else n = opt_int_or (max_numeric_version_label db1 (fi_id f)) 0 + 1 \<and> db3 = db1"
    "store_file_version env f (deposit_request t (or_text (strip (or_text name upload_bin_name)) upload_bin_name) ty data (file_actor u)) db3 = (Ok v, db2)"
    "if fresh then can_manage_file (get_effective_access_on_folder db1 w d) \<or> d = None \<and> vw_admin w
      else can_manage_file (get_effective_access_on_file db1 w (Some f))"
    by (rule deposit_Ok [OF s1 2(3)])
  note st = store_version_sound [OF dep(1,2,9)]
  have nonneg: "0 \<le> opt_int_or (max_numeric_version_label db1 (fi_id f)) 0"
    by (rule max_numeric_nonneg) (use assms(3) e(4) in auto)
  then have n: "0 < n" using dep(8) by (auto split: if_splits)
  have t: "t = show_int n" "length (show_base 10 n) \<le> 4300"
    using dep(7) n by (auto simp: show_number_def show_int_nonneg split: if_splits)
  have "strip t = t" unfolding t(1) using py_int_digits(2) [of n] n t(2) by simp
  moreover have "lower (strip ''stable'') = ''stable''" by code_simp
  ultimately have label: "ve_label v = t" "ve_status v = ''active''" "ve_channel v = ''stable''"
    by (rule_tac store_version_Ok [OF dep(9)]; simp add: new_version_def deposit_request_def)+
  have num: "parse_numeric_version (ve_label v) = Some n"
    unfolding label(1) t(1) parse_numeric_version_def using py_int_digits [of n] n t(2) by simp
  have vs: "versions db' = versions db1 @ [v]" by (simp add: 2(6) st(7) dep(5))
  have less: "m < n" if x: "x \<in> set (versions db')" "ve_file x = fi_id f" "x \<noteq> v" "parse_numeric_version (ve_label x) = Some m" for x m
  proof -
    have x1: "x \<in> set (versions db1)" using x(1,3) vs by simp
    show ?thesis
    proof (cases fresh)
      case True
      have "version_good (files db1) x"
        using table_okD(2) [OF exchange_soundD(3) [OF s1, unfolded versions_ok_def] x1] .
      then have "\<exists>g \<in> set (files db1). fi_id g = fi_id f" using x(2) unfolding version_good_def list_ex_iff by simp
      then have "fi_id f \<in> fi_id ` set (files db1)" by (auto simp: image_iff eq_commute)
      then show ?thesis using dep(8) True by simp
    next
      case False
      obtain b where b: "max_numeric_version_label db1 (fi_id f) = Some b" "m \<le> b"
        using max_numeric_bound [OF x1 x(2,4)] by blast
      then show ?thesis using dep(8) False by (auto simp: opt_int_or_def int_or_def split: if_splits)
    qed
  qed
  have served: "get_effective_file_version db' (fi_id f) c = Some v" if "c \<in> {''stable'', ''beta''}" for c
    by (rule newest_version [OF _ st(8) label(2,3) num _ _ that]) (use vs less n in auto)
  note reads = stored_version_reads [where env = env, OF spec [OF enc] dep(9)]
  have body: "iter_version_plaintext env v db' = iter_version_plaintext env v db2"
    unfolding iter_version_plaintext_def 2(8) ..
  have "distinct (map ve_id (versions db2))"
    using table_okD(1) [OF exchange_soundD(3) [OF st(1), unfolded versions_ok_def]] .
  then have new: "ve_id v \<notin> ve_id ` set (versions db)" by (simp add: st(7) dep(5) e(4))
  have "f \<in> set (files db')" using find_file_in [OF dep(2)] by (simp add: 2(5) st(3))
  then show ?case using dep(3,4) vs st(8) num less served reads new deposit_label [OF 2(3)] by (intro exI [of _ f] exI [of _ v] exI [of _ n]) (simp add: body)
qed

section \<open>Deletions\<close>

lemma unlink_version:
  assumes "list_all is_slug_char (ve_sum v)" and "ve_path v = version_path (ve_file v) (ve_id v) (ve_sum v)"
  shows "disk (unlink_blob (ve_path v) db) = AList.delete (ve_path v) (disk db)"
  using resolve_version_path [OF assms(1), of "ve_file v" "ve_id v"] by (simp add: unlink_blob_def assms(2))

lemma fold_unlink:
  assumes "\<forall>v \<in> set vs. list_all is_slug_char (ve_sum v) \<and> ve_path v = version_path (ve_file v) (ve_id v) (ve_sum v)"
  shows "map_of (disk (fold unlink_blob (map ve_path vs) db)) k = (if k \<in> ve_path ` set vs then None else map_of (disk db) k)"
  using assms
proof (induction vs arbitrary: db)
  case (Cons v vs)
  have "map_of (disk (unlink_blob (ve_path v) db)) k = (if k = ve_path v then None else map_of (disk db) k)"
    using Cons.prems by (subst unlink_version) (simp_all add: delete_conv')
  moreover have "map_of (disk (fold unlink_blob (map ve_path vs) (unlink_blob (ve_path v) db))) k =
      (if k \<in> ve_path ` set vs then None else map_of (disk (unlink_blob (ve_path v) db)) k)"
    by (rule Cons.IH) (use Cons.prems in auto)
  ultimately show ?case by (cases "k = ve_path v"; cases "k \<in> ve_path ` set vs"; simp)
qed simp

lemma unlink_tables [simp]:
  "files (fold unlink_blob ps db) = files db" "versions (fold unlink_blob ps db) = versions db"
  "channels (fold unlink_blob ps db) = channels db" "grants (fold unlink_blob ps db) = grants db"
  by (induction ps arbitrary: db) (simp_all add: unlink_blob_def split: result.split)

text \<open>C35: a deleted file leaves nothing behind: no version, grant or beta assignment refers to it any more and none of its
  blobs is on the disk; and nothing else is lost: every other file, grant, assignment and version is still there, and
  every other version reads as before.\<close>

theorem deletion_leaves_nothing:
  assumes sound: "exchange_sound db" and sums: "\<forall>v \<in> set (versions db). list_all is_slug_char (ve_sum v)"
    and run: "admin_files_delete env rq i db = (Ok r, db')" and ok: "rp_status r = 302"
  shows "find_file db' i = None \<and> (\<forall>v \<in> set (versions db'). ve_file v \<noteq> i) \<and> (\<forall>g \<in> set (grants db'). gr_file g \<noteq> Some i) \<and>
    (\<forall>c \<in> set (channels db'). ca_file c \<noteq> Some i) \<and>
    (\<forall>v \<in> set (versions db). ve_file v = i \<longrightarrow> iter_version_plaintext env v db' = ([], Some BlobMissing)) \<and>
    (\<forall>f \<in> set (files db). fi_id f \<noteq> i \<longrightarrow> f \<in> set (files db')) \<and>
    (\<forall>g \<in> set (grants db). gr_file g \<noteq> Some i \<longrightarrow> g \<in> set (grants db')) \<and>
    (\<forall>c \<in> set (channels db). ca_file c \<noteq> Some i \<longrightarrow> c \<in> set (channels db')) \<and>
    (\<forall>v \<in> set (versions db). ve_file v \<noteq> i \<longrightarrow> v \<in> set (versions db') \<and> iter_version_plaintext env v db' = iter_version_plaintext env v db)"
  using run unfolding admin_files_delete_def
proof (rule admin_file_cases, goal_cases)
  case 1
  then show ?case using ok by auto
next
  case (2 u f db1)
  note e = same_exchangeD [OF 2(2)] and g = same_sourcesD(5) [OF same_exchangeD(1) [OF 2(2)]]
  have id: "fi_id f = i" using find_file_in [OF 2(3)] by simp
  let ?gone = "filter (\<lambda>v. ve_file v = i) (versions db)"
  obtain ps db2 where d: "delete_file_resource f db1 = (ps, db2)" by (cases "delete_file_resource f db1")
  have good: "version_good (files db) v" if "v \<in> set (versions db)" for v
    using table_okD(2) [OF exchange_soundD(3) [OF sound, unfolded versions_ok_def] that] .
  then have path: "ve_path v = version_path (ve_file v) (ve_id v) (ve_sum v)" if "v \<in> set (versions db)" for v
    using that by (simp add: version_good_def)
  then have "ve_path v \<noteq> []" if "v \<in> set (versions db)" for v using that by (simp add: version_path_def)
  then have "filter (\<lambda>v. ve_file v = i \<and> ve_path v \<noteq> []) (versions db) = ?gone" by (metis (mono_tags, lifting) filter_cong)
  then have ps: "ps = map ve_path ?gone"
    using d id by (auto simp: delete_file_resource_def e filter_map o_def conj_commute)
  have db2: "db2 = db1\<lparr>grants := filter (\<lambda>g. gr_file g \<noteq> Some i) (grants db), files := filter (\<lambda>r. fi_id r \<noteq> i) (files db),
      versions := filter (\<lambda>v. ve_file v \<noteq> i) (versions db), channels := filter (\<lambda>c. ca_file c \<noteq> Some i) (channels db)\<rparr>"
    using d id by (simp add: delete_file_resource_def e g)
  have "db' = file_log env rq (uc_email u) ''file.deleted'' (file_target i) [(''slug'', JStr (fi_slug f))] (fold unlink_blob ps db2)"
    using 2(4) unfolding d prod.case Let_def by (rule flashed_eqD)
  then have t: "files db' = filter (\<lambda>r. fi_id r \<noteq> i) (files db)" "versions db' = filter (\<lambda>v. ve_file v \<noteq> i) (versions db)"
    "channels db' = filter (\<lambda>c. ca_file c \<noteq> Some i) (channels db)" "grants db' = filter (\<lambda>g. gr_file g \<noteq> Some i) (grants db)"
    "disk db' = disk (fold unlink_blob ps db2)"
    by (simp_all add: file_log_def db2)
  have "disk db2 = disk db" unfolding db2 by (simp add: e)
  then have disk: "map_of (disk db') k = (if k \<in> ve_path ` set ?gone then None else map_of (disk db) k)" for k
    unfolding t(5) ps using sums path by (subst fold_unlink) auto
  have reads: "iter_version_plaintext env v db' = (if ve_file v = i then ([], Some BlobMissing) else iter_version_plaintext env v db)"
    if v: "v \<in> set (versions db)" for v
  proof -
    have sv: "list_all is_slug_char (ve_sum v)" using sums v by blast
    note rp = resolve_version_path [OF sv, of "ve_file v" "ve_id v", folded path [OF v]]
    have "ve_path v \<in> ve_path ` set ?gone \<longleftrightarrow> ve_file v = i"
    proof
      assume "ve_path v \<in> ve_path ` set ?gone"
      then obtain w where w: "w \<in> set (versions db)" "ve_file w = i" "ve_path v = ve_path w" by auto
      have "list_all is_slug_char (ve_sum w)" using sums w(1) by blast
      then show "ve_file v = i" using version_path_inj(1) [OF sv] w path [OF v] path [OF w(1)] by metis
    qed (use v in auto)
    then show ?thesis unfolding iter_version_plaintext_def rp(1) result.case rp(2) disk by simp
  qed
  have "find_file db' i = None" by (simp add: find_file_def t)
  then show ?case using reads by (simp add: t)
qed

end
