(* ===== verification/FileViews.thy ===== *)
theory FileViews
  imports FileClaims
begin

text \<open>
  What a listing shows, and when the search for a slug ends: a folder is listed when something at or below it can be
  seen, and the search succeeds for labels that leave room for a number.
\<close>

section \<open>Listings\<close>

definition folder_seen :: "'a fdb \<Rightarrow> viewer \<Rightarrow> int \<Rightarrow> bool" where
  "folder_seen db w i \<longleftrightarrow> vw_admin w \<or> (\<exists>l. right_on db w (folder_places db (Some i)) l)"

definition file_seen :: "'a fdb \<Rightarrow> viewer \<Rightarrow> file_row \<Rightarrow> bool" where
  "file_seen db w f \<longleftrightarrow> vw_admin w \<or> (\<exists>l. right_on db w (file_places db f) l)"

definition leads_to :: "'a fdb \<Rightarrow> viewer \<Rightarrow> int \<Rightarrow> bool" where
  \<comment> \<open>something at or below a folder can be seen\<close>
  "leads_to db w i \<longleftrightarrow> (\<exists>j. (parent_of db)\<^sup>*\<^sup>* j i \<and>
     (folder_seen db w j \<or> (\<exists>f \<in> set (files db). fi_folder f = Some j \<and> fi_active f \<and> file_seen db w f)))"

lemma first_true_Some: "first_true (map Some bs) = Some (\<exists>b \<in> set bs. b)"
proof (induction bs)
  case (Cons b bs)
  then show ?case by (cases b) simp_all
qed simp

lemma parent_child:
  assumes "folders_ok (folders db)"
  shows "parent_of db j i \<longleftrightarrow> (\<exists>r \<in> set (folders db). fo_id r = j \<and> fo_parent r = Some i)"
proof
  show "parent_of db j i \<Longrightarrow> \<exists>r \<in> set (folders db). fo_id r = j \<and> fo_parent r = Some i"
    unfolding parent_of_def using find_folder_in by blast
  show "\<exists>r \<in> set (folders db). fo_id r = j \<and> fo_parent r = Some i \<Longrightarrow> parent_of db j i"
    using first_row_unique [OF table_okD(1) [OF assms [unfolded folders_ok_def]]]
    unfolding parent_of_def find_folder_def by blast
qed

lemma parent_less:
  assumes "folders_ok (folders db)" and "parent_of db j i"
  shows "i < j"
proof -
  obtain r where r: "r \<in> set (folders db)" "fo_id r = j" "fo_parent r = Some i"
    using assms(2) unfolding parent_child [OF assms(1)] by blast
  have "folder_good (folders db) r" using table_okD(2) [OF assms(1) [unfolded folders_ok_def] r(1)] .
  then show ?thesis using r by (simp add: folder_good_def)
qed

lemma leads_to_step:
  assumes "folders_ok (folders db)"
  shows "leads_to db w i \<longleftrightarrow> folder_seen db w i \<or> (\<exists>r \<in> set (folders db). fo_parent r = Some i \<and> leads_to db w (fo_id r)) \<or>
    (\<exists>f \<in> set (files db). fi_folder f = Some i \<and> fi_active f \<and> file_seen db w f)"
proof -
  have star: "(parent_of db)\<^sup>*\<^sup>* j i \<longleftrightarrow> j = i \<or> (\<exists>k. (parent_of db)\<^sup>*\<^sup>* j k \<and> parent_of db k i)" for j
    by (metis rtranclp.simps)
  have child: "parent_of db k i \<longleftrightarrow> (\<exists>r \<in> set (folders db). fo_id r = k \<and> fo_parent r = Some i)" for k
    by (rule parent_child [OF assms])
  define S where "S j \<longleftrightarrow> folder_seen db w j \<or> (\<exists>f \<in> set (files db). fi_folder f = Some j \<and> fi_active f \<and> file_seen db w f)" for j
  have leads: "leads_to db w k \<longleftrightarrow> (\<exists>j. (parent_of db)\<^sup>*\<^sup>* j k \<and> S j)" for k by (simp add: leads_to_def S_def)
  have main: "(\<exists>j. (parent_of db)\<^sup>*\<^sup>* j i \<and> S j) \<longleftrightarrow> S i \<or> (\<exists>k. parent_of db k i \<and> (\<exists>j. (parent_of db)\<^sup>*\<^sup>* j k \<and> S j))"
  proof
    assume "\<exists>j. (parent_of db)\<^sup>*\<^sup>* j i \<and> S j"
    then obtain j where "(parent_of db)\<^sup>*\<^sup>* j i" "S j" by blast
    then show "S i \<or> (\<exists>k. parent_of db k i \<and> (\<exists>j. (parent_of db)\<^sup>*\<^sup>* j k \<and> S j))" using star [of j] by blast
  next
    assume "S i \<or> (\<exists>k. parent_of db k i \<and> (\<exists>j. (parent_of db)\<^sup>*\<^sup>* j k \<and> S j))"
    then consider "S i" | k j where "parent_of db k i" "(parent_of db)\<^sup>*\<^sup>* j k" "S j" by blast
    then show "\<exists>j. (parent_of db)\<^sup>*\<^sup>* j i \<and> S j"
    proof cases
      case (2 k j)
      have "(parent_of db)\<^sup>*\<^sup>* j i" using 2(1,2) by (rule rtranclp.rtrancl_into_rtrancl [rotated])
      then show ?thesis using 2(3) by blast
    qed blast
  qed
  have kids: "(\<exists>k. parent_of db k i \<and> leads_to db w k) \<longleftrightarrow> (\<exists>r \<in> set (folders db). fo_parent r = Some i \<and> leads_to db w (fo_id r))"
    unfolding child by blast
  have "leads_to db w i \<longleftrightarrow> S i \<or> (\<exists>r \<in> set (folders db). fo_parent r = Some i \<and> leads_to db w (fo_id r))"
    using main unfolding leads [symmetric] kids .
  then show ?thesis unfolding S_def by argo
qed

lemma search_exact:
  assumes ok: "folders_ok (folders db)" and wf: "grants_wf (grants db)" and "\<not> folder_seen db w i"
  shows "card {j \<in> fo_id ` set (folders db). i < j} < n \<Longrightarrow> folder_has_visible_descendant n db w i = Some (leads_to db w i)"
  using assms(3)
proof (induction n arbitrary: i)
  case (Suc n)
  let ?cs = "child_folders db (Some i)" and ?fs = "files_in db (Some i)"
  have view: "can_view_file (get_effective_access_on_folder db w (Some j)) = folder_seen db w j"
    "can_view_file (get_effective_access_on_file db w (Some f)) = file_seen db w f" for j f
    by (simp_all add: folder_can(1) [OF wf] file_can(1) [OF wf] folder_seen_def file_seen_def)
  have below: "(if folder_seen db w (fo_id c) then Some True else folder_has_visible_descendant n db w (fo_id c)) =
      Some (leads_to db w (fo_id c))" if c: "c \<in> set ?cs" for c
  proof (cases "folder_seen db w (fo_id c)")
    case True
    then show ?thesis using leads_to_step [OF ok, of w "fo_id c"] by simp
  next
    case False
    have p: "parent_of db (fo_id c) i" using c by (auto simp: child_folders_def parent_child [OF ok])
    have "fo_id c \<in> {j \<in> fo_id ` set (folders db). i < j}" using c parent_less [OF ok p] by (auto simp: child_folders_def)
    moreover have "{j \<in> fo_id ` set (folders db). fo_id c < j} \<subseteq> {j \<in> fo_id ` set (folders db). i < j} - {fo_id c}"
      using parent_less [OF ok p] by auto
    ultimately have "card {j \<in> fo_id ` set (folders db). fo_id c < j} < card {j \<in> fo_id ` set (folders db). i < j}"
      by (intro psubset_card_mono) auto
    then show ?thesis using Suc.IH [of "fo_id c"] Suc.prems(1) False by simp
  qed
  have eq: "map (\<lambda>c. if folder_seen db w (fo_id c) then Some True else folder_has_visible_descendant n db w (fo_id c)) ?cs =
      map (\<lambda>c. Some (leads_to db w (fo_id c))) ?cs"
    by (rule map_cong [OF refl below])
  have "folder_has_visible_descendant (Suc n) db w i =
      first_true (map Some (map (\<lambda>c. leads_to db w (fo_id c)) ?cs @ map (file_seen db w) ?fs))"
    unfolding folder_has_visible_descendant.simps view eq by (simp add: o_def)
  also have "\<dots> = Some (leads_to db w i)"
    unfolding first_true_Some leads_to_step [OF ok, of w i] using Suc.prems(2) by (auto simp: child_folders_def files_in_def)
  finally show ?case .
qed simp

lemma shown_exact:
  assumes ok: "folders_ok (folders db)" and wf: "grants_wf (grants db)"
  shows "folder_shown db w r = Some (leads_to db w (fo_id r))"
proof (cases "folder_seen db w (fo_id r)")
  case True
  then show ?thesis using leads_to_step [OF ok, of w "fo_id r"] by (simp add: folder_shown_def folder_can(1) [OF wf] folder_seen_def)
next
  case False
  have "card {j \<in> fo_id ` set (folders db). fo_id r < j} \<le> card (fo_id ` set (folders db))" by (rule card_mono) auto
  also have "\<dots> \<le> length (folders db)" by (metis card_length length_map set_map)
  finally have "card {j \<in> fo_id ` set (folders db). fo_id r < j} < Suc (length (folders db))" by simp
  from search_exact [OF ok wf False this] show ?thesis
    using False by (simp add: folder_shown_def folder_can(1) [OF wf] folder_seen_def)
qed

text \<open>C22: a listing is exact: in sound tables it shows the folders directly inside that match the query and lead to something
  the caller has a right on (or to anything, for an administrator), and the active files directly inside that match and
  that he has a right on; and the search below a folder ends with an answer for every folder, within its fuel.\<close>

theorem listing_exact:
  assumes "exchange_sound db" and "grants_wf (grants db)"
  shows "en_id ` set (li_folders (list_folder_contents db w d q)) =
      {i. \<exists>r \<in> set (folders db). fo_id r = i \<and> fo_parent r = d \<and> matches_query q (fo_name r) \<and> leads_to db w i} \<and>
    fe_id ` set (li_files (list_folder_contents db w d q)) =
      {i. \<exists>f \<in> set (files db). fi_id f = i \<and> fi_folder f = d \<and> fi_active f \<and> matches_query q (fi_label f) \<and> file_seen db w f} \<and>
    (\<forall>r \<in> set (folders db). folder_shown db w r = Some (leads_to db w (fo_id r)))"
proof -
  note shown = shown_exact [OF exchange_soundD(1) [OF assms(1)] assms(2)]
  have "en_id ` set (li_folders (list_folder_contents db w d q)) =
      fo_id ` {r \<in> set (folders db). fo_parent r = d \<and> matches_query q (fo_name r) \<and> leads_to db w (fo_id r)}"
    by (auto simp: list_folder_contents_def Let_def shown child_folders_def image_image)
  moreover have "fe_id ` set (li_files (list_folder_contents db w d q)) =
      fi_id ` {f \<in> set (files db). fi_folder f = d \<and> fi_active f \<and> matches_query q (fi_label f) \<and> file_seen db w f}"
    by (auto simp: list_folder_contents_def Let_def file_can(1) [OF assms(2)] file_seen_def files_in_def image_image)
  ultimately show ?thesis using shown by auto
qed

section \<open>Slugs\<close>

fun dashes_ok :: "string \<Rightarrow> bool" where
  "dashes_ok (a # b # s) = (\<not> (a = CHR ''-'' \<and> b = CHR ''-'') \<and> dashes_ok (b # s))"
| "dashes_ok _ = True"

lemma slug_dash: "\<not> is_slug_char (CHR ''-'')"
  by code_simp

lemma dashes_ok_Cons: "dashes_ok (c # s) \<longleftrightarrow> \<not> (c = CHR ''-'' \<and> starts_with ''-'' s) \<and> dashes_ok s"
  by (cases s) auto

lemma dashes_ok_append: "dashes_ok (a @ b) \<Longrightarrow> dashes_ok a \<and> dashes_ok b"
  by (induction a) (auto simp: dashes_ok_Cons starts_with_iff)

lemma dash_runs_ok: "dashes_ok (dash_runs True s) \<and> \<not> starts_with ''-'' (dash_runs True s)" "dashes_ok (dash_runs False s)"
  using slug_dash by (induction s) (auto simp: dashes_ok_Cons)

lemma dash_runs_set: "c \<in> set (dash_runs b s) \<Longrightarrow> is_slug_char c \<or> c = CHR ''-''"
  by (induction b s rule: dash_runs.induct) (auto split: if_splits)

lemma split_append: "split_on x (a @ x # b) = split_on x a @ split_on x b"
proof (induction a)
  case (Cons c a)
  show ?case
  proof (cases "c = x")
    case False
    obtain v vs where "split_on x a = v # vs" by (cases "split_on x a") auto
    then show ?thesis using Cons False by simp
  qed (use Cons in simp)
qed simp

lemma slug_words:
  assumes "s \<noteq> []" and "\<forall>c \<in> set s. is_slug_char c \<or> c = CHR ''-''" and "dashes_ok s" and "hd s \<noteq> CHR ''-''" and "last s \<noteq> CHR ''-''"
  shows "safe_slug s"
  using assms
proof (induction s rule: length_induct)
  case (1 s)
  show ?case
  proof (cases "CHR ''-'' \<in> set s")
    case False
    then have "list_all is_slug_char s" using 1(3) by (auto simp: list_all_iff)
    then show ?thesis using 1(2) False by (simp add: safe_slug_def split_on_no_occ)
  next
    case True
    then obtain a b where ab: "s = a @ CHR ''-'' # b" "CHR ''-'' \<notin> set a" by (meson split_list_first)
    have "a \<noteq> []" using ab 1(5) by (cases a) auto
    have b: "b \<noteq> []" "last b \<noteq> CHR ''-''" using ab(1) 1(6) by (cases b; auto)+
    have "dashes_ok (CHR ''-'' # b)" using 1(4) dashes_ok_append unfolding ab(1) by blast
    then have b2: "hd b \<noteq> CHR ''-''" "dashes_ok b" using b(1) by (cases b; auto)+
    have "safe_slug b" using 1(1,3) b b2 by (simp add: ab(1))
    moreover have "list_all is_slug_char a" using 1(3) ab by (auto simp: list_all_iff)
    ultimately show ?thesis using \<open>a \<noteq> []\<close> ab split_append [of "CHR ''-''" a b] by (simp add: safe_slug_def split_on_no_occ)
  qed
qed

lemma safe_slug_join:
  "safe_slug (a @ CHR ''-'' # b) \<longleftrightarrow> safe_slug a \<and> safe_slug b"
  by (simp add: safe_slug_def split_append)

lemma strip_dashes_split:
  obtains a b where "s = a @ strip_dashes s @ b"
    and "strip_dashes s \<noteq> [] \<Longrightarrow> hd (strip_dashes s) \<noteq> CHR ''-'' \<and> last (strip_dashes s) \<noteq> CHR ''-''"
proof -
  define P where "P c \<longleftrightarrow> c = CHR ''-''" for c
  define l where "l = dropWhile P s"
  have sd: "strip_dashes s = rev (dropWhile P (rev l))" by (simp add: strip_dashes_def rstrip_char_def l_def P_def [abs_def])
  have "rev (takeWhile P (rev l) @ dropWhile P (rev l)) = l" by (simp only: takeWhile_dropWhile_id rev_rev_ident)
  then have l: "l = strip_dashes s @ rev (takeWhile P (rev l))" unfolding sd rev_append by argo
  have s: "s = takeWhile P s @ l" unfolding l_def by (simp only: takeWhile_dropWhile_id)
  show thesis
  proof (rule that [of "takeWhile P s" "rev (takeWhile P (rev l))"])
    show "s = takeWhile P s @ strip_dashes s @ rev (takeWhile P (rev l))" using s l by argo
  next
    assume ne: "strip_dashes s \<noteq> []"
    then have "dropWhile P (rev l) \<noteq> []" unfolding sd by simp
    then have "\<not> P (hd (dropWhile P (rev l)))" by (rule hd_dropWhile)
    then have last: "\<not> P (last (strip_dashes s))" unfolding sd last_rev .
    have "l \<noteq> []" using ne l by auto
    then have "\<not> P (hd l)" unfolding l_def by (rule hd_dropWhile)
    moreover have "hd l = hd (strip_dashes s)" using hd_append2 [OF ne, of "rev (takeWhile P (rev l))"] unfolding l [symmetric] .
    ultimately show "hd (strip_dashes s) \<noteq> CHR ''-'' \<and> last (strip_dashes s) \<noteq> CHR ''-''" using last by (simp add: P_def)
  qed
qed

lemma slugify_safe: "safe_slug (slugify_label label)"
proof -
  define d where "d = dash_runs False (lower (strip label))"
  have default: "safe_slug ''file''" by code_simp
  have eq: "slugify_label label = or_text (strip_dashes d) ''file''" by (simp add: slugify_label_def d_def)
  show ?thesis
  proof (cases "strip_dashes d = []")
    case False
    obtain a b where d: "d = a @ strip_dashes d @ b" "hd (strip_dashes d) \<noteq> CHR ''-''" "last (strip_dashes d) \<noteq> CHR ''-''"
      using strip_dashes_split [of d] False by blast
    have "dashes_ok d" unfolding d_def by (rule dash_runs_ok(2))
    then have "dashes_ok (a @ strip_dashes d @ b)" using d(1) by argo
    then have "dashes_ok (strip_dashes d)" using dashes_ok_append by blast
    moreover have "\<forall>c \<in> set d. is_slug_char c \<or> c = CHR ''-''" unfolding d_def using dash_runs_set by blast
    then have "\<forall>c \<in> set (a @ strip_dashes d @ b). is_slug_char c \<or> c = CHR ''-''" using d(1) by argo
    ultimately have "safe_slug (strip_dashes d)" using False d(2,3) by (intro slug_words) auto
    then show ?thesis using False by (simp add: eq or_text_def)
  qed (simp add: eq or_text_def default)
qed

lemma safe_number: "0 \<le> n \<Longrightarrow> safe_slug (show_int n)"
proof -
  assume n: "0 \<le> n"
  have d: "is_digit c" if "c \<in> set (show_int n)" for c using show_digits [OF n] that by (simp add: list_all_iff)
  have "\<not> is_digit (CHR ''-'')" by code_simp
  then have "CHR ''-'' \<notin> set (show_int n)" using d by blast
  then show ?thesis using d by (simp add: safe_slug_def split_on_no_occ list_all_iff is_slug_char_def)
qed

lemma stem_safe:
  assumes "\<And>i. d = Some i \<Longrightarrow> 0 \<le> i"
  shows "safe_slug (slug_stem d label)"
proof (cases d)
  case None
  have "safe_slug ''root''" by code_simp
  then show ?thesis using slugify_safe [of label] safe_slug_join [of "''root''" "slugify_label label"] by (simp add: slug_stem_def None)
next
  case (Some i)
  have d: "is_digit c" if "c \<in> set (show_int i)" for c using show_digits [OF assms [OF Some]] that by (simp add: list_all_iff)
  have c: "\<not> is_digit (CHR ''-'')" "is_slug_char (CHR ''f'')" by code_simp+
  then have "split_on (CHR ''-'') (CHR ''f'' # show_int i) = [CHR ''f'' # show_int i]" using d by (intro split_on_no_occ) auto
  then have "safe_slug (CHR ''f'' # show_int i)"
    unfolding safe_slug_def using c(2) d by (simp add: list_all_iff is_slug_char_def)
  then show ?thesis
    using slugify_safe [of label] safe_slug_join [of "CHR ''f'' # show_int i" "slugify_label label"] by (simp add: slug_stem_def Some)
qed

lemma safe_slug_chars:
  assumes "safe_slug s" and "c \<in> set s"
  shows "is_slug_char c \<or> c = CHR ''-''"
proof -
  have "c \<in> set (join_with ''-'' (split_on (CHR ''-'') s))" using assms(2) by (simp add: join_split_on)
  then show ?thesis using assms(1) set_join_with [of "''-''" "split_on (CHR ''-'') s"] by (auto simp: safe_slug_def list_all_iff)
qed

lemma validate_safe:
  assumes "safe_slug s"
  shows "validate_slug s = Ok s"
proof -
  have c: "\<not> is_space c \<and> lower_char c = c" if "c \<in> set s" for c
  proof -
    have "\<not> is_space (CHR ''-'')" "lower_char (CHR ''-'') = CHR ''-''" by code_simp+
    moreover have "is_slug_char c \<Longrightarrow> \<not> is_space c \<and> lower_char c = c"
      by (auto simp: is_slug_char_def is_digit_def is_space_def lower_char_def)
    ultimately show ?thesis using safe_slug_chars [OF assms that] by auto
  qed
  have "strip s = s" by (rule strip_no_space) (use c in blast)
  moreover have "lower s = s" using c by (simp add: lower_def map_idI)
  ultimately show ?thesis using assms by (simp add: validate_slug_def Let_def)
qed

lemma number_slug_finds:
  assumes "\<And>k. m \<le> k \<Longrightarrow> k \<le> n \<Longrightarrow> show_number k = Ok (show_int k) \<and>
      validate_slug (take 180 (start @ CHR ''-'' # show_int k)) = Ok (start @ CHR ''-'' # show_int k)"
    and "m \<le> n" and "start @ CHR ''-'' # show_int n \<notin> set used"
  shows "\<exists>c. number_slug used start m = Some (Ok c)"
  using assms
proof (induction "nat (n - m)" arbitrary: m)
  case 0
  then show ?case by (subst number_slug.simps) simp
next
  case (Suc j)
  have step: "show_number m = Ok (show_int m)" "validate_slug (take 180 (start @ CHR ''-'' # show_int m)) = Ok (start @ CHR ''-'' # show_int m)"
    using Suc.prems(1) [of m] Suc.prems(2) by simp_all
  show ?case
  proof (cases "start @ CHR ''-'' # show_int m \<in> set used")
    case True
    have "\<exists>c. number_slug used start (m + 1) = Some (Ok c)"
      by (rule Suc.hyps(1)) (use Suc in auto)
    then show ?thesis using True by (subst number_slug.simps) (simp only: step result.case if_False not_False_eq_True simp_thms)
  qed (subst number_slug.simps, simp only: step result.case, simp)
qed

lemma number_slug_stuck:
  assumes "number_slug used start n = Some r" and "180 \<le> length start" and "validate_slug (take 180 start) = Ok k" and "k \<in> set used"
  shows "\<exists>e. r = Raise e"
proof -
  have "180 \<le> length start \<longrightarrow> validate_slug (take 180 start) = Ok k \<longrightarrow> k \<in> set used \<longrightarrow> (\<exists>e. r = Raise e)"
  proof (rule number_slug.raw_induct [where P = "\<lambda>used start n r. 180 \<le> length start \<longrightarrow> validate_slug (take 180 start) = Ok k \<longrightarrow>
        k \<in> set used \<longrightarrow> (\<exists>e. r = Raise e)", OF _ assms(1)], goal_cases)
    case (1 loop used start n r)
    have "180 \<le> length start \<Longrightarrow> take 180 (start @ CHR ''-'' # t) = take 180 start" for t by simp
    note short = this
    show ?case
    proof (intro impI)
      assume a: "180 \<le> length start" "validate_slug (take 180 start) = Ok k" "k \<in> set used"
      show "\<exists>e. r = Raise e"
      proof (cases "show_number n")
        case (Ok t)
        then have "loop used start (n + 1) = Some r" using 1(2) a short [OF a(1)] by simp
        from 1(1) [OF this] a show ?thesis by blast
      next
        case (Raise e)
        then have "r = Raise e" using 1(2) by simp
        then show ?thesis by blast
      qed
    qed
  qed
  then show ?thesis using assms by blast
qed

text \<open>C23: the search for a slug ends with a free one when the label leaves room for a number (a stem of at most 170
  characters, fewer than nine hundred million files); but when the first 180 characters of a longer stem are a slug that
  is taken, every candidate is that slug again and the search never succeeds.\<close>

theorem slug_search_succeeds_iff_room:
  assumes "\<And>i. d = Some i \<Longrightarrow> 0 \<le> i" and "length (files db) < 900000000"
  shows "(length (slug_stem d label) \<le> 170 \<longrightarrow>
      (\<exists>c. generate_unique_slug db d label = Some (Ok c) \<and> safe_slug c \<and> \<not> slug_taken db c)) \<and>
    (180 \<le> length (slug_stem d label) \<longrightarrow> validate_slug (take 180 (slug_stem d label)) = Ok k \<longrightarrow> slug_taken db k \<longrightarrow>
      (\<forall>c. generate_unique_slug db d label \<noteq> Some (Ok c)))"
proof (intro conjI impI allI notI)
  let ?stem = "slug_stem d label" and ?used = "map fi_slug (files db)"
  assume len: "length ?stem \<le> 170"
  have safe: "safe_slug ?stem" by (rule stem_safe [OF assms(1)])
  let ?c = "\<lambda>n. ?stem @ CHR ''-'' # show_int n"
  let ?n = "int (length ?used) + 2"
  have good: "show_number n = Ok (show_int n) \<and> validate_slug (take 180 (?c n)) = Ok (?c n)" if "2 \<le> n" "n \<le> ?n" for n
  proof -
    have "length (show_int n) \<le> 9"
      using length_show_base_le [of n 9] that assms(2) by (simp add: show_int_nonneg)
    then show ?thesis using len that safe safe_number [of n] safe_slug_join [of ?stem "show_int n"]
      by (simp add: show_number_def validate_safe)
  qed
  have "\<exists>n \<in> {2..?n}. ?c n \<notin> set ?used"
  proof (rule ccontr)
    assume "\<not> ?thesis"
    then have "?c ` {2..?n} \<subseteq> set ?used" by auto
    then have "card (?c ` {2..?n}) \<le> length ?used" using card_mono [OF finite_set] card_length order_trans by metis
    moreover have "inj_on ?c {2..?n}" by (auto intro!: inj_onI dest: show_int_inj)
    ultimately show False by (simp add: card_image)
  qed
  then obtain n where n: "2 \<le> n" "n \<le> ?n" "?c n \<notin> set ?used" by auto
  have "\<exists>c. generate_unique_slug db d label = Some (Ok c)"
  proof (cases "slug_taken db ?stem")
    case True
    have "\<exists>c. number_slug ?used ?stem 2 = Some (Ok c)" by (rule number_slug_finds [OF _ n(1,3)]) (use good n(2) in auto)
    then show ?thesis using True len validate_safe [OF safe] by (simp add: generate_unique_slug_def)
  qed (use len validate_safe [OF safe] in \<open>simp add: generate_unique_slug_def\<close>)
  then obtain c where "generate_unique_slug db d label = Some (Ok c)" by blast
  then show "\<exists>c. generate_unique_slug db d label = Some (Ok c) \<and> safe_slug c \<and> \<not> slug_taken db c"
    using unique_slug_fresh by blast
next
  fix c
  assume long: "180 \<le> length (slug_stem d label)" and v: "validate_slug (take 180 (slug_stem d label)) = Ok k" and t: "slug_taken db k"
    and found: "generate_unique_slug db d label = Some (Ok c)"
  have "number_slug (map fi_slug (files db)) (slug_stem d label) 2 = Some (Ok c)"
    using found v t by (simp add: generate_unique_slug_def)
  from number_slug_stuck [OF this long v] t show False by (auto simp: slug_taken_def list_ex_iff)
qed

end
