(* ===== verification/FileExample.thy ===== *)
theory FileExample
  imports MfaExample FileViews
begin

text \<open>A small exchange with one folder and one file in it, and the instances of its claims.\<close>

section \<open>The exchange\<close>

definition files_settings :: file_env where
  "files_settings = admin_env.extend admin_settings
     \<lparr>bl_encrypt = (\<lambda>s. CHR ''e'' # s), bl_decrypt = (\<lambda>s. case s of [] \<Rightarrow> None | c # t \<Rightarrow> Some t), bl_chunk = None\<rparr>"

definition docs :: folder_row where "docs = \<lparr>fo_id = 1, fo_parent = None, fo_name = ''Docs'', fo_by = ''root''\<rparr>"
definition inner :: folder_row where "inner = \<lparr>fo_id = 2, fo_parent = Some 1, fo_name = ''Inner'', fo_by = ''root''\<rparr>"

definition memo :: file_row where
  "memo = \<lparr>fi_id = 10, fi_folder = Some 2, fi_slug = ''f2-memo'', fi_label = ''memo.txt'', fi_desc = None, fi_cat = None,
     fi_active = True, fi_by = ''root''\<rparr>"

definition memo1 :: version_row where
  "memo1 = \<lparr>ve_id = 20, ve_file = 10, ve_channel = ''stable'', ve_label = ''1'', ve_status = ''active'', ve_name = ''memo.txt'',
     ve_type = None, ve_size = 5, ve_sum = ''hello'', ve_path = ''10/20_hello'', ve_encrypted = False, ve_at = 0, ve_by = ''root'',
     ve_log = None\<rparr>"

definition zoe_grant :: grant where
  "zoe_grant = new_grant 3 \<lparr>rq_subject = ''user'', rq_group = None, rq_user = Some ''zoe'', rq_display = None, rq_resource = ''folder'',
     rq_app = None, rq_sysrole = None, rq_role = None, rq_file = None, rq_folder = Some 1, rq_level = ''manage''\<rparr> 0 ''root''"

definition file_tables :: files_db where
  "file_tables = admin_db.extend ((admin_tables [])\<lparr>grants := [erp_grant, admin_grant, zoe_grant]\<rparr>)
     \<lparr>folders = [docs, inner], files = [memo], versions = [memo1], channels = [], disk = [(''10/20_hello'', ''hello'')]\<rparr>"

definition zoe_headers :: "string \<Rightarrow> string option" where
  "zoe_headers = map_of [(''X-Portal-Internal-Token'', ''nginx''), (''X-Email'', ''zoe@corp.test''), (''X-User'', ''zoe''),
     (''X-Groups'', ''/sales''), (''X-Portal-Realm-Slug'', ''default'')]"

abbreviation zoe_page :: page_request where "zoe_page \<equiv> admin_page zoe_headers ''/files'' []"
abbreviation ann_page :: page_request where "ann_page \<equiv> admin_page ann_headers ''/admin/files'' []"

definition zoe_view :: viewer where "zoe_view = \<lparr>vw_user = Some ''zoe'', vw_groups = [''sales''], vw_admin = False\<rparr>"

lemma file_tables_facts: "grants_wf (grants file_tables)" "exchange_sound file_tables" "distinct (map fi_id (files file_tables))"
  "distinct (map ve_id (versions file_tables))" "list_all (\<lambda>v. list_all is_slug_char (ve_sum v)) (versions file_tables)"
  by code_simp+

lemma zoe_not_admin: "\<not> vw_admin zoe_view"
  by code_simp

section \<open>Access\<close>

theorem file_access_refines_witness:
  "fa_level (get_effective_access_on_file file_tables zoe_view (Some memo)) = Some ''manage'' \<and>
   right_on file_tables zoe_view (file_places file_tables memo) Manage"
proof -
  have l: "fa_level (get_effective_access_on_file file_tables zoe_view (Some memo)) = Some ''manage''" by code_simp
  have "read_level ''manage'' = Some Manage" by code_simp
  then show ?thesis using file_access_refines [OF file_tables_facts(1) zoe_not_admin, of memo None] l by (simp add: meaning_def greatest_def)
qed

lemma zoe_calls:
  obtains u db1 where "file_caller files_settings (\<lambda>_. []) zoe_page file_tables = (Ok (u, zoe_view), db1)" and "same_exchange file_tables db1"
proof -
  let ?run = "file_caller files_settings (\<lambda>_. []) zoe_page file_tables"
  have "case fst ?run of Ok (u, w) \<Rightarrow> w = zoe_view | Raise e \<Rightarrow> False" by code_simp
  then obtain u db1 where "?run = (Ok (u, zoe_view), db1)" by (cases ?run) (auto split: result.splits)
  from that [OF this caller_exchange(1) [OF this]] show thesis .
qed

lemma memo_found: "find_version file_tables 20 = Some memo1" "find_file file_tables 10 = Some memo" "ve_status memo1 = ''active''" "ve_file memo1 = 10"
  "ve_id memo1 = 20" "can_launch_file (get_effective_access_on_file file_tables zoe_view (Some memo))"
  by code_simp+

lemma zoe_downloads:
  assumes "same_exchange file_tables db1"
  shows "download_version files_settings (\<lambda>s. s) rq u zoe_view 20 db1 =
    (version_reply files_settings (\<lambda>s. s) memo1 (log_download files_settings rq u memo1 db1), log_download files_settings rq u memo1 db1)"
  by (simp add: download_version_def same_rights [OF assms] memo_found)

lemma version_reply_ok: "rp_status (version_reply env nfkd v db) = 200"
  by (simp add: version_reply_def)

theorem download_needs_launch_witness:
  "\<exists>r u w v db1. fst (files_download_version files_settings (\<lambda>s. s) (\<lambda>_. []) zoe_page 20 file_tables) = Ok r \<and> rp_status r = 200 \<and>
     file_caller files_settings (\<lambda>_. []) zoe_page file_tables = (Ok (u, w), db1) \<and> v \<in> set (versions file_tables) \<and>
     fr_body r = iter_version_plaintext files_settings v file_tables"
proof -
  obtain u db1 where c: "file_caller files_settings (\<lambda>_. []) zoe_page file_tables = (Ok (u, zoe_view), db1)" "same_exchange file_tables db1"
    by (rule zoe_calls)
  have "\<exists>r. fst (files_download_version files_settings (\<lambda>s. s) (\<lambda>_. []) zoe_page 20 file_tables) = Ok r \<and> rp_status r = 200"
    by (simp add: files_download_version_def c(1) zoe_downloads [OF c(2)] version_reply_ok)
  then obtain r where r: "fst (files_download_version files_settings (\<lambda>s. s) (\<lambda>_. []) zoe_page 20 file_tables) = Ok r" "rp_status r = 200"
    by blast
  then have "download_answer files_settings (\<lambda>s. s) (\<lambda>_. []) zoe_page file_tables r" unfolding download_answer_def by blast
  from download_needs_launch [OF file_tables_facts(1) this r(2)] r show ?thesis by blast
qed

theorem slug_serves_effective_version_witness:
  "\<exists>r f v. fst (files_download_by_slug files_settings (\<lambda>s. s) (\<lambda>_. []) zoe_page ''f2-memo'' file_tables) = Ok r \<and> rp_status r = 200 \<and>
     f \<in> set (files file_tables) \<and> v \<in> set (versions file_tables) \<and> ve_file v = fi_id f \<and>
     fr_body r = iter_version_plaintext files_settings v file_tables"
proof -
  let ?run = "files_download_by_slug files_settings (\<lambda>s. s) (\<lambda>_. []) zoe_page ''f2-memo'' file_tables"
  obtain u db1 where c: "file_caller files_settings (\<lambda>_. []) zoe_page file_tables = (Ok (u, zoe_view), db1)" "same_exchange file_tables db1"
    by (rule zoe_calls)
  have here: "first_row (\<lambda>f. fi_slug f = ''f2-memo'' \<and> fi_active f) (files file_tables) = Some memo" "fi_id memo = 10"
    "user_can_download_file file_tables zoe_view 10"
    "get_effective_file_version file_tables 10 (fst (get_effective_file_channel file_tables zoe_view 10)) = Some memo1"
    by code_simp+
  have "\<exists>r db'. ?run = (Ok r, db') \<and> rp_status r = 200"
    using here(3) by (simp add: files_download_by_slug_def user_can_download_file_def c(1) same_rights [OF c(2)] same_exchangeD(3) [OF c(2)] here memo_found
        zoe_downloads [OF c(2)] version_reply_ok)
  then obtain r db' where r: "?run = (Ok r, db')" "rp_status r = 200" by blast
  from slug_serves_effective_version [OF file_tables_facts(3,4) r] r show ?thesis by auto
qed

theorem users_change_what_they_manage_witness:
  "\<exists>db' u w db1. user_step files_settings (\<lambda>s. s) (\<lambda>_. []) zoe_page file_tables db' \<and>
     changes file_tables db' (file_places file_tables memo) \<and>
     file_caller files_settings (\<lambda>_. []) zoe_page file_tables = (Ok (u, w), db1) \<and>
     (vw_admin w \<or> right_on file_tables w (file_places file_tables memo) Manage)"
proof -
  let ?run = "files_rename files_settings (\<lambda>_. []) zoe_page 10 ''new.txt'' file_tables"
  have step: "user_step files_settings (\<lambda>s. s) (\<lambda>_. []) zoe_page file_tables (snd ?run)"
    by (rule user_step.rename [OF prod.collapse [symmetric]])
  have "memo \<in> set (files file_tables)" "memo \<notin> set (files (snd ?run))" by code_simp+
  then have "changes file_tables (snd ?run) (file_places file_tables memo)" unfolding changes_def by blast
  from users_change_what_they_manage [OF file_tables_facts(1,2) step this] step this show ?thesis by blast
qed

section \<open>Tables\<close>

theorem exchange_always_sound_witness:
  "exchange_sound (snd (files_archive files_settings (\<lambda>_. []) zoe_page 10 (snd (files_rename files_settings (\<lambda>_. []) zoe_page 10 ''new.txt'' file_tables))))"
proof -
  let ?one = "snd (files_rename files_settings (\<lambda>_. []) zoe_page 10 ''new.txt'' file_tables)"
  let ?two = "snd (files_archive files_settings (\<lambda>_. []) zoe_page 10 ?one)"
  let ?step = "file_step files_settings (\<lambda>s. s) (\<lambda>_. [])"
  have "?step file_tables ?one" by (rule file_step.user [OF user_step.rename [OF prod.collapse [symmetric]]])
  moreover have "?step ?one ?two" by (rule file_step.user [OF user_step.archive [OF prod.collapse [symmetric]]])
  ultimately have "?step\<^sup>*\<^sup>* file_tables ?two" by (meson r_into_rtranclp rtranclp.rtrancl_into_rtrancl)
  from exchange_always_sound [OF this file_tables_facts(2)] show ?thesis .
qed

lemma zoe_uploads:
  "\<exists>r l db'. files_upload files_settings (\<lambda>_. []) zoe_page (Some 2) ''memo.txt'' None ''better'' file_tables = Some (Ok (r, l), db') \<and> rp_status r = 200"
proof -
  obtain u db1 where c: "file_caller files_settings (\<lambda>_. []) zoe_page file_tables = (Ok (u, zoe_view), db1)" "same_exchange file_tables db1"
    by (rule zoe_calls)
  let ?q = "\<lparr>vq_channel = ''stable'', vq_label = ''2'', vq_name = ''memo.txt'', vq_type = None, vq_data = ''better'', vq_by = file_actor u,
      vq_log = [], vq_encrypt = True\<rparr>"
  note e = same_exchangeD [OF c(2)]
  have here: "or_text (strip (or_text ''memo.txt'' upload_bin_name)) upload_bin_name = ''memo.txt''"
    "find_folder file_tables 2 = Some inner" "fi_id memo = 10" "can_manage_file (get_effective_access_on_file file_tables zoe_view (Some memo))"
    "first_row (\<lambda>f. fi_folder f = Some 2 \<and> fi_label f = ''memo.txt'' \<and> fi_active f) (files file_tables) = Some memo"
    "max_numeric_version_label file_tables 10 = Some 1" "show_number 2 = Ok ''2''" "opt_int_or (Some 1) 0 + 1 = (2 :: int)"
    by code_simp+
  have maxl: "max_numeric_version_label db1 10 = max_numeric_version_label file_tables 10" by (simp add: max_numeric_version_label_def e)
  have store: "\<exists>v db2. store_file_version files_settings memo ?q db1 = (Ok v, db2)"
  proof -
    have k: "lower (strip ''stable'') \<in> set file_channels" "strip ''2'' = ''2''" "ge_sha files_settings ''better'' = ''better''"
      "fresh_id (map ve_id (versions file_tables)) = 21"
      "\<not> list_ex (\<lambda>v. ve_file v = 10 \<and> ve_label v = ''2'') (versions file_tables)"
      "version_path 10 21 ''better'' = ''10/21_better''"
      "resolve_storage_path ''10/21_better'' = Ok [''10'', ''21_better'']"
      "\<not> list_ex (\<lambda>r. ve_path r = ''10/pending_better'') (versions file_tables)"
      "\<not> list_ex (\<lambda>r. ve_id r \<noteq> 21 \<and> ve_path r = ''10/21_better'') (versions file_tables)"
      "show_int 10 @ ''/pending_'' @ take 12 ''better'' = ''10/pending_better''"
      by code_simp+
    have chunk: "chunks (nat (chunk_size (bl_chunk files_settings))) ''better'' = [''better'']"
    proof -
      have "6 \<le> nat (chunk_size (bl_chunk files_settings))" by (simp add: chunk_size_def)
      then show ?thesis by (subst chunks.simps) (simp add: chunks.simps [of _ "[]"])
    qed
    have "fst (write_frames (bl_encrypt files_settings) [''better'']) = None" by code_simp
    then obtain s where "write_frames (bl_encrypt files_settings) [''better''] = (None, s)"
      by (cases "write_frames (bl_encrypt files_settings) [''better'']") simp
    then have blob: "write_blob files_settings True p ''better'' db = (None, db\<lparr>disk := AList.update (disk_name p) s (disk db)\<rparr>)" for p db
      by (simp only: write_blob_def write_encrypted_blob_def chunk if_True prod.case Let_def)
    let ?n = "new_version 21 10 ?q ''better'' (clock db1)"
    have n: "ve_id ?n = 21" "ve_path ?n = ''10/pending_better''" using k(10) by (simp_all add: new_version_def)
    show ?thesis
      unfolding store_file_version_def Let_def version_request.simps if_not_P [OF not_not [THEN iffD2, OF k(1)]] k(2,3)
        e here(3) k(4) n k(6,7)
      by (simp add: k(5,8,9) e blob n)
  qed
  then obtain v db2 where store: "store_file_version files_settings memo ?q db1 = (Ok v, db2)" by blast
  have "deposit_file files_settings zoe_view (Some 2) (or_text ''memo.txt'' upload_bin_name) None ''better'' (file_actor u) db1 =
      Some (Ok (memo, v, False), db2)"
    by (simp add: deposit_file_def Let_def here same_rights [OF c(2)] e maxl deposit_version_def store)
  then show ?thesis by (simp add: files_upload_def c(1) max_upload_bytes_def plain_reply_def Let_def)
qed

theorem deposit_served_witness:
  "\<exists>r l db' f v. files_upload files_settings (\<lambda>_. []) zoe_page (Some 2) ''memo.txt'' None ''better'' file_tables = Some (Ok (r, l), db') \<and>
     rp_status r = 200 \<and> f \<in> set (files db') \<and> v \<in> set (versions db') \<and>
     get_effective_file_version db' (fi_id f) ''stable'' = Some v \<and> concat (fst (iter_version_plaintext files_settings v db')) = ''better''"
proof -
  obtain r l db' where r: "files_upload files_settings (\<lambda>_. []) zoe_page (Some 2) ''memo.txt'' None ''better'' file_tables = Some (Ok (r, l), db')"
    "rp_status r = 200" using zoe_uploads by blast
  have "list_all (\<lambda>v. case parse_numeric_version (ve_label v) of None \<Rightarrow> True | Some m \<Rightarrow> 0 \<le> m) (versions file_tables)" by code_simp
  then have nonneg: "\<forall>x \<in> set (versions file_tables). \<forall>m. parse_numeric_version (ve_label x) = Some m \<longrightarrow> 0 \<le> m"
    by (fastforce simp: list_all_iff)
  have enc: "\<forall>b. bl_decrypt files_settings (bl_encrypt files_settings b) = Some b" by (simp add: files_settings_def admin_env.defs)
  from deposit_served [OF file_tables_facts(2) enc nonneg r] r show ?thesis by blast
qed

theorem deletion_leaves_nothing_witness:
  "\<exists>r db'. admin_files_delete files_settings ann_page 10 file_tables = (Ok r, db') \<and> rp_status r = 302 \<and> find_file db' 10 = None \<and>
     iter_version_plaintext files_settings memo1 db' = ([], Some BlobMissing)"
proof -
  let ?run = "admin_files_delete files_settings ann_page 10 file_tables"
  have "case fst ?run of Ok r \<Rightarrow> rp_status r = 302 | Raise e \<Rightarrow> False" by code_simp
  then obtain r db' where r: "?run = (Ok r, db')" "rp_status r = 302" by (cases ?run) (auto split: result.splits)
  have sums: "\<forall>v \<in> set (versions file_tables). list_all is_slug_char (ve_sum v)"
    using file_tables_facts(5) by (simp add: list_all_iff)
  have "memo1 \<in> set (versions file_tables)" "ve_file memo1 = 10" by code_simp+
  with deletion_leaves_nothing [OF file_tables_facts(2) sums r] r show ?thesis by blast
qed

section \<open>Views\<close>

theorem listing_exact_witness:
  "1 \<in> en_id ` set (li_folders (list_folder_contents file_tables zoe_view None ''''))"
proof -
  have "docs \<in> set (folders file_tables)" "fo_id docs = 1" "fo_parent docs = None" "matches_query '''' (fo_name docs)" by code_simp+
  moreover have "can_view_file (get_effective_access_on_folder file_tables zoe_view (Some 1))" by code_simp
  then have "folder_seen file_tables zoe_view 1" by (simp add: folder_can(1) [OF file_tables_facts(1)] folder_seen_def)
  then have "leads_to file_tables zoe_view 1" unfolding leads_to_def by blast
  ultimately show ?thesis unfolding conjunct1 [OF listing_exact [OF file_tables_facts(2,1)]] by blast
qed

theorem slug_search_succeeds_iff_room_witness:
  "\<exists>c. generate_unique_slug file_tables (Some 2) ''Notes (2)'' = Some (Ok c) \<and> \<not> slug_taken file_tables c"
proof -
  have "slug_stem (Some 2) ''Notes (2)'' = ''f2-notes-2''" "files file_tables = [memo]" by code_simp+
  then have "length (slug_stem (Some 2) ''Notes (2)'') \<le> 170" "length (files file_tables) < 900000000" by simp_all
  with slug_search_succeeds_iff_room [of "Some 2" file_tables "''Notes (2)''" "[]"] show ?thesis by auto
qed

end
