(* ===== verification/Spec2Isabelle.thy ===== *)
theory Spec2Isabelle
  imports SqlLike EasExample FileExample
begin

text \<open>
  A verification development for the Bastion portal, a single sign-on gateway in Python (FastAPI and SQLAlchemy
  behind nginx). nginx publishes applications and asks the portal, for every request, whether to forward it; the
  portal keeps users, groups, grants, sessions, bans and a journal in a portal database (SQLite) and a hot store.
  Paths below are under \<open>src/\<close>.

  \<^bold>\<open>Parts and theories.\<close>

    \<^item> \<open>Prelude\<close>: the Python primitives every part uses (strings, \<open>or\<close>, numerals), results with exceptions,
      rows of a table, and two interfaces: \<open>run_relation\<close> (what sequences of operations keep) and \<open>keyed_table\<close>.
    \<^item> \<open>AuditLog\<close>: \<open>log_action\<close> and the actor shown in the journal (\<open>app/audit/__init__.py\<close>).
      Its record \<open>core_db\<close> (clock, hot store, journal) is the root of the state; each part extends it.
    \<^item> \<open>IpAddr\<close>, \<open>IpCidrs\<close>, \<open>ClientIp\<close>: the part of Python's \<open>ipaddress\<close> the program calls,
      the operands of nginx ACLs (\<open>app/ip_cidrs.py\<close>) and the client address
      (\<open>app/request_client_ip.py\<close>).
    \<^item> \<open>BanStore\<close>, \<open>BanRules\<close>, \<open>BanEngine\<close>, \<open>BanGate\<close>, \<open>BanService\<close>,
      \<open>BanMiddleware\<close>, \<open>BanSensor\<close>: the anti-abuse subsystem (\<open>app/security/banning/\<close>): tables,
      rules, bans, request gate and login evaluation, administration, middleware, nginx 429 sensor.
    \<^item> \<open>Binding\<close>, \<open>Breakglass\<close>, \<open>BgRotation\<close>: the network and browser a session is bound to
      (\<open>app/security/identity_binding.py\<close>, \<open>session_binding_service.py\<close>) and the emergency
      sessions with their rotation chains (\<open>app/auth/breakglass.py\<close>) and the middleware that rotates their cookies
      (\<open>breakglass_cookie_middleware.py\<close>).
    \<^item> \<open>AccessModes\<close>, \<open>Grants\<close>, \<open>EffectiveAccess\<close>: access modes and machine-to-machine paths, the
      table of grants, and what a session may open (\<open>app/access_modes.py\<close>,
      \<open>app/bastion/m2m_policy.py\<close>, \<open>app/rbac/\<close>).
    \<^item> \<open>Presence\<close>, \<open>OidcSession\<close>, \<open>SubdomainAuth\<close>: the heartbeat of application sessions, the
      native portal session and the decision nginx asks for (\<open>app/web/sessions_service.py\<close>,
      \<open>app/auth/oidc_bff.py\<close>, \<open>app/subdomain/subdomain_auth.py\<close>).
    \<^item> \<open>EasDevice\<close>, \<open>EasInventory\<close>, \<open>EasRegister\<close>, \<open>EasAuth\<close>: which device a mail client names
      (\<open>app/subdomain/eas_device.py\<close>), the inventory with the folding of duplicate rows, sightings, decisions,
      control and notifications (\<open>activesync_device_service.py\<close>, \<open>app/mail/outbox.py\<close>) and the decision for
      mail clients (\<open>activesync_auth.py\<close>).
    \<^item> \<open>Csrf\<close>, \<open>UserIdentity\<close>: keys of signed values, form tokens and writes from other origins
      (\<open>app/web/csrf.py\<close>); who a page request is from and who is an administrator (\<open>app/web/user_context.py\<close>).
    \<^item> \<open>Mfa\<close>, \<open>MfaGate\<close>, \<open>MfaPages\<close>: the second factor of administrators: its cookie, TOTP, passkeys, the
      gate with its grace period and the handlers (\<open>app/auth/mfa_cookie.py\<close>, \<open>totp_service.py\<close>,
      \<open>webauthn_service.py\<close>, \<open>mfa_gate.py\<close>, \<open>app/admin/mfa.py\<close>).
    \<^item> \<open>FileTree\<close>, \<open>FileStore\<close>, \<open>FileRoutes\<close>: the file exchange. Folders, files, versions and beta assignments, who may
      see, download and manage them and what a folder shows; blobs, slugs and the operations that write
      (\<open>app/files/service.py\<close>, \<open>blob_crypto.py\<close>); the handlers of users and administrators
      (\<open>app/files/routes.py\<close>, \<open>app/admin/files.py\<close>) and the header of a download
      (\<open>app/web/content_disposition.py\<close>).
    \<^item> \<open>SqlLike\<close>: patterns for LIKE (\<open>app/sql_like.py\<close>).
    \<^item> \<open>GateLaws\<close>, \<open>BanSystem\<close>, \<open>BgLaws\<close>, \<open>BgClaims\<close>, \<open>SubdomainLaws\<close>, \<open>EasFold\<close>,
      \<open>EasLaws\<close>, \<open>EasClaims\<close>, \<open>EasLimits\<close>, \<open>MfaLaws\<close>, \<open>AdminLaws\<close>, \<open>FactorClaims\<close>, \<open>FileAccess\<close>,
      \<open>FileSafe\<close>, \<open>FileTables\<close>, \<open>FileLaws\<close>, \<open>FileSteps\<close>, \<open>FileRights\<close>, \<open>FileClaims\<close>, \<open>FileViews\<close>: the laws
      of these parts; \<open>JwtExample\<close>, \<open>PortalExample\<close>, \<open>EasExample\<close>, \<open>MfaExample\<close>, \<open>FileExample\<close>: concrete
      libraries and states, and the instances of the claims at them.

  \<^bold>\<open>State and interaction.\<close> A table is the list of its rows in insertion order; an operation takes the state and
  returns its result with the state it leaves, so that what was written before an exception is visible. The middleware
  counts requests and asks the anti-abuse engine before a handler runs; a login feeds the engine; the subdomain check
  resolves the application, reads session, grants and binding, refreshes the heartbeat and writes the journal. Each part
  has a relation of steps (\<open>ban_step\<close>, \<open>reg_step\<close>, \<open>oidc_step\<close>, \<open>rights_step\<close>,
  \<open>eas_step\<close>, \<open>factor_step\<close>, \<open>user_step\<close>, \<open>admin_step\<close>, \<open>file_step\<close>); what the steps keep is
  proved by rule induction, and an operation is shown to be a sequence of steps by following its text with the rules of
  \<open>run_relation\<close>.

  \<^bold>\<open>What the lemmas show.\<close> Bans: tables sound in every reachable state, windows exact, bans effective and never lifted
  early, protected targets spared, counters balanced. Break-glass: registry sound, revocation and replay final while the
  registry can be read (during an outage of the hot store the code accepts any correctly signed cookie), a fresh session
  accepted and rotated once a minute has passed, the API login guarded. Rights: grants well typed, operations refine a partial map from subject and resource to level,
  effective access refines it, realms isolated. Decision: a 200 rests on evidence, a deleted grant or a revoked session
  closes the application at once, the decision changes no right. Mail devices: a lock of an administrator survives folding and every operation but a
  release, the armed gate asks for an approval, sightings are counted, rows and mails are limited. Administrators: headers
  count with the token of nginx only, the pages open on evidence and both factors, the factors stay sound, form tokens and
  second-factor cookies mean one thing; the pages that manage the factors ask for one factor only. Files: access
  refines the table of grants along the folders, downloads need launch, users change what they manage, the tables stay
  sound, deposits are served, deletions leave nothing, listings are exact. Round trips: session cookies, IPv4 texts, device
  queries, stored files.

  \<^bold>\<open>Bounds.\<close> Loops are structural recursions, or \<open>function\<close>s with a measure (\<open>collapse_slashes\<close>, \<open>ancestors_from\<close>,
  \<open>read_frames\<close>). The search for a free slug, which may not end, is a \<open>partial_function\<close>. One definition has fuel, the
  search below a folder: the number of folders and one, enough by \<open>FileViews\<close>. Integers are Python's; times are microseconds.

  \<^bold>\<open>Conventions and limits.\<close> Text is Latin-1. \<open>lower\<close> is Python's on that range, \<open>sql_lower\<close> is
  SQLite's (ASCII only). IPv6 follows CPython 3.11 and 3.12. SQLite enforces CHECK and UNIQUE constraints and no foreign
  keys; sessions do not flush by themselves. The hot store answers or not during a whole operation. SHA-256, bcrypt, the
  JWT library, \<open>json.loads\<close> on stored lists and token segments, nginx and oauth2-proxy are arguments; what a property needs of them is a
  hypothesis, met by a concrete library in the example theories. A queued mail is its recipient, the UTF-8 text of Basic
  credentials shows a question mark above U+00FF, and the labels of \<open>eas_device_identity.py\<close> are left out of the
  journal. HMAC is symbolic: non-empty hexadecimal text, different for different keys or texts. pyotp, Fernet and
  py\_webauthn are parameters, random values are arguments. Flash messages and page contents are left out, but a missing
  signing key raises where the code reads it. Files live below a storage root without symbolic links, and writing them does not fail. Concurrency of workers is not modelled.

  \<^bold>\<open>Not modelled.\<close> Pages, forms and translations (rendering); ACME, Keycloak, SMTP, SIEM, drivers and robotic logins
  (I/O with other systems); WAF and nginx exports (text for other programs); schema migrations; encryption.
  The HTML sign-in of break-glass accounts (\<open>app/web/pages.py\<close>) and the first-run set-up are not modelled either.
  Access requests, governance, key rotation and the passkeys of portal users would be modelled like grants and factors.
\<close>

end
